(* ===== verification/Lwfs_Prelude.thy ===== *)
theory Lwfs_Prelude imports Main "HOL-Library.Word" "HOL-Library.Multiset" begin

unbundle bit_operations_syntax

section \<open>Shared types, return codes and generic facts\<close>

text \<open>
  The vocabulary every component shares: the base types of
  \<^verbatim>\<open>common/types/xdr_types.x\<close> at their machine widths, the return codes, the
  container operations, and the generic lemmas on lists, little-endian byte images
  and words that the component proofs use.

  A 16-byte opaque identifier (\<^verbatim>\<open>lwfs_uuid\<close>) is a \<^typ>\<open>128 word\<close>, the
  number its bytes denote in little-endian order, so byte \<open>i\<close> is bits \<open>8 * i\<close> to
  \<open>8 * i + 7\<close> and \<^verbatim>\<open>memcmp\<close> equality is equality of words.
\<close>

named_theorems lwfs_defs \<open>definitions of small wrappers that proofs unfold freely\<close>
named_theorems uid_facts \<open>facts about user-id arrays\<close>
named_theorems db_facts \<open>facts about database operations\<close>

type_synonym u8 = "8 word"
type_synonym u32 = "32 word"
type_synonym u64 = "64 word"

type_synonym lwfs_uuid = "128 word"
type_synonym lwfs_uid = lwfs_uuid
type_synonym lwfs_oid = lwfs_uuid
type_synonym lwfs_cid = u64
type_synonym lwfs_opcode = u32
type_synonym lwfs_container_op = u32
type_synonym lwfs_mac = "160 word"
type_synonym lwfs_key = "u8 list"

subsection \<open>Return codes\<close>

datatype lwfs_return_code =
    LWFS_OK | LWFS_ERR | LWFS_ERR_TIMEDOUT | LWFS_ERR_NOTSUPP | LWFS_ERR_NOSPACE
  | LWFS_ERR_STORAGE | LWFS_ERR_NO_OBJ
  | LWFS_ERR_NAMING | LWFS_ERR_PERM | LWFS_ERR_NOENT | LWFS_ERR_ACCESS | LWFS_ERR_EXIST
  | LWFS_ERR_NOTDIR | LWFS_ERR_NOTFILE | LWFS_ERR_NOTNS | LWFS_ERR_ISDIR
  | LWFS_ERR_RPC | LWFS_ERR_ENCODE | LWFS_ERR_DECODE
  | LWFS_ERR_SEC | LWFS_ERR_GENKEY | LWFS_ERR_VERIFYCRED | LWFS_ERR_VERIFYCAP
  | LWFS_ERR_LOCK_EXISTS | LWFS_ERR_NO_LOCK | LWFS_ERR_TXN

subsection \<open>Container operations\<close>

definition LWFS_CONTAINER_CREATE :: lwfs_container_op where "LWFS_CONTAINER_CREATE = 1"
definition LWFS_CONTAINER_MODACL :: lwfs_container_op where "LWFS_CONTAINER_MODACL = 2"
definition LWFS_CONTAINER_REMOVE :: lwfs_container_op where "LWFS_CONTAINER_REMOVE = 4"
definition LWFS_CONTAINER_READ :: lwfs_container_op where "LWFS_CONTAINER_READ = 8"
definition LWFS_CONTAINER_WRITE :: lwfs_container_op where "LWFS_CONTAINER_WRITE = 16"
definition LWFS_CONTAINER_EXEC :: lwfs_container_op where "LWFS_CONTAINER_EXEC = 32"

lemmas container_op_defs [lwfs_defs] =
  LWFS_CONTAINER_CREATE_def LWFS_CONTAINER_MODACL_def LWFS_CONTAINER_REMOVE_def
  LWFS_CONTAINER_READ_def LWFS_CONTAINER_WRITE_def LWFS_CONTAINER_EXEC_def

definition NUM_CONTAINER_OPS :: nat where "NUM_CONTAINER_OPS = 6"

text \<open>
  The values the loop variable \<^verbatim>\<open>testop\<close> takes in
  \<^verbatim>\<open>for (i=0; i<NUM_CONTAINER_OPS; i++) { ... testop = testop << 1; }\<close>
  when it starts at 1.
\<close>

fun testops :: "nat \<Rightarrow> lwfs_container_op \<Rightarrow> lwfs_container_op list" where
  "testops 0 testop = []"
| "testops (Suc n) testop = testop # testops n (push_bit 1 testop)"

definition container_ops :: "lwfs_container_op list" where
  "container_ops = testops NUM_CONTAINER_OPS 1"

lemma container_ops_eq: "container_ops = [1, 2, 4, 8, 16, 32]"
  by (simp add: container_ops_def NUM_CONTAINER_OPS_def eval_nat_numeral)

lemma set_container_ops: "set container_ops = {1, 2, 4, 8, 16, 32}"
  by (simp add: container_ops_eq)

lemma distinct_container_ops: "distinct container_ops"
  by (simp add: container_ops_eq)

definition LWFS_CID_ANY :: lwfs_cid where "LWFS_CID_ANY = -1"

subsection \<open>Little-endian byte images\<close>

definition le_bytes :: "nat \<Rightarrow> 'a::len word \<Rightarrow> u8 list" where
  "le_bytes n w = map (\<lambda>i. ucast (drop_bit (8 * i) w)) [0..<n]"

fun le_word :: "u8 list \<Rightarrow> 'a::len word" where
  "le_word [] = 0"
| "le_word (b # bs) = ucast b OR push_bit 8 (le_word bs)"

lemma length_le_bytes [simp]: "length (le_bytes n w) = n"
  by (simp add: le_bytes_def)

lemma bit_le_word:
  "bit (le_word bs :: 'a::len word) i \<longleftrightarrow>
     i < LENGTH('a) \<and> i < 8 * length bs \<and> bit (bs ! (i div 8)) (i mod 8)"
proof (induction bs arbitrary: i)
  case Nil
  show ?case by simp
next
  case (Cons b bs)
  have len: "i < 8 \<Longrightarrow> i div 8 = 0 \<and> i mod 8 = i" by simp
  show ?case
  proof (cases "i < 8")
    case True
    then show ?thesis by (auto simp: bit_simps len)
  next
    case False
    then have "i div 8 = Suc ((i - 8) div 8)" and "i mod 8 = (i - 8) mod 8"
      by (simp_all add: div_if le_mod_geq)
    moreover have "\<not> bit b i" using False by (auto dest: bit_imp_le_length)
    ultimately show ?thesis using False Cons.IH [of "i - 8"] by (auto simp: bit_simps)
  qed
qed

lemma le_word_le_bytes: "8 * n = LENGTH('a) \<Longrightarrow> le_word (le_bytes n (w :: 'a::len word)) = w"
proof (rule bit_word_eqI)
  fix i
  assume n: "8 * n = LENGTH('a)" and i: "i < LENGTH('a)"
  then have "i div 8 < n" by (simp add: div_less_iff_less_mult mult.commute)
  moreover have "8 * (i div 8) + i mod 8 = i" by simp
  ultimately show "bit (le_word (le_bytes n w) :: 'a word) i \<longleftrightarrow> bit w i"
    using n i by (simp add: bit_le_word le_bytes_def bit_simps)
qed

lemma le_bytes_inject:
  "8 * n = LENGTH('a) \<Longrightarrow> le_bytes n v = le_bytes n w \<longleftrightarrow> v = (w :: 'a::len word)"
  by (metis le_word_le_bytes)

subsection \<open>Lists\<close>

lemma take_length_append: "length ys = n \<Longrightarrow> take n (ys @ zs) = ys"
  by simp

lemma mset_eq_set_size: "mset xs = mset ys \<Longrightarrow> set xs = set ys \<and> length xs = length ys"
  by (auto dest: mset_eq_setD mset_eq_length)

lemma distinct_mset_eq: "mset xs = mset ys \<Longrightarrow> distinct xs = distinct ys"
  by (rule mset_eq_imp_distinct_iff)

end
