(* ===== verification/C_Library.thy ===== *)
theory C_Library imports Lwfs_Prelude begin

section \<open>The C library functions the servers use\<close>

text \<open>
  Executable models of the standard C functions the servers call: the decimal
  conversions of \<^verbatim>\<open>snprintf\<close>, \<^verbatim>\<open>qsort\<close> (the merge sort of the GNU C library),
  \<^verbatim>\<open>bsearch\<close> and the string copies. \<open>comparator\<close> states what the C standard
  requires of a comparison function on the values it is used on; the facts about sorting
  and searching are proved from it once, and a component that passes a comparison function
  interprets it.
\<close>

subsection \<open>Decimal conversions\<close>

fun dec_digits :: "nat \<Rightarrow> string" where
  "dec_digits n =
     (if n < 10 then [char_of (48 + n)] else dec_digits (n div 10) @ [char_of (48 + n mod 10)])"

declare dec_digits.simps [simp del]

definition zero_pad :: "nat \<Rightarrow> string \<Rightarrow> string" where
  "zero_pad w s = replicate (w - length s) (CHR ''0'') @ s"

text \<open>\<^verbatim>\<open>%0<w>d\<close>: the sign counts for the width, the zeros go after it.\<close>

definition fmt_0d :: "nat \<Rightarrow> int \<Rightarrow> string" where
  "fmt_0d w i =
     (if i < 0 then CHR ''-'' # zero_pad (w - 1) (dec_digits (nat (- i)))
      else zero_pad w (dec_digits (nat i)))"

text \<open>\<^verbatim>\<open>snprintf(buf, maxlen, ...)\<close> keeps the first \<open>maxlen - 1\<close> characters.\<close>

definition snprintf :: "nat \<Rightarrow> string \<Rightarrow> string" where
  "snprintf maxlen s = take (maxlen - 1) s"

definition digit_val :: "char \<Rightarrow> nat" where
  "digit_val c = of_char c - 48"

definition dec_val :: "string \<Rightarrow> nat" where
  "dec_val s = foldl (\<lambda>a c. 10 * a + digit_val c) 0 s"

definition is_digit :: "char \<Rightarrow> bool" where
  "is_digit c \<longleftrightarrow> (of_char c :: nat) \<in> {48..57}"

lemma digit_val_char_of: "n < 10 \<Longrightarrow> digit_val (char_of (48 + n)) = n"
  by (simp add: digit_val_def)

lemma is_digit_char_of: "n < 10 \<Longrightarrow> is_digit (char_of (48 + n :: nat))"
  by (simp add: is_digit_def)

lemma not_digits: "\<not> is_digit (CHR '':'')" "\<not> is_digit (CHR ''-'')" "is_digit (CHR ''0'')"
  by (simp_all add: is_digit_def)

lemma dec_digits_are_digits: "c \<in> set (dec_digits n) \<Longrightarrow> is_digit c"
proof (induction n rule: dec_digits.induct)
  case (1 n)
  show ?case
  proof (cases "n < 10")
    case True
    with 1 show ?thesis by (simp add: dec_digits.simps [of n] is_digit_char_of)
  next
    case False
    with 1 show ?thesis by (auto simp: dec_digits.simps [of n] is_digit_char_of)
  qed
qed

lemma dec_val_snoc: "dec_val (s @ [c]) = 10 * dec_val s + digit_val c"
  by (simp add: dec_val_def)

lemma dec_val_dec_digits: "dec_val (dec_digits n) = n"
proof (induction n rule: dec_digits.induct)
  case (1 n)
  show ?case
  proof (cases "n < 10")
    case True
    then show ?thesis
      using digit_val_char_of [of n] by (simp add: dec_digits.simps [of n] dec_val_def)
  next
    case False
    with 1 show ?thesis
      by (simp add: dec_digits.simps [of n] dec_val_snoc digit_val_char_of)
  qed
qed

lemma dec_val_zeros: "dec_val (replicate k (CHR ''0'') @ s) = dec_val s"
proof -
  have "foldl (\<lambda>a c. 10 * a + digit_val c) 0 (replicate k (CHR ''0'')) = 0"
    by (induction k) (simp_all add: digit_val_def)
  then show ?thesis by (simp add: dec_val_def)
qed

lemma dec_val_zero_pad: "dec_val (zero_pad w (dec_digits n)) = n"
  by (simp add: zero_pad_def dec_val_zeros dec_val_dec_digits)

lemma zero_pad_digits: "c \<in> set (zero_pad w (dec_digits n)) \<Longrightarrow> is_digit c"
  by (auto simp: zero_pad_def not_digits dest: dec_digits_are_digits)

lemma zero_pad_no_colon: "CHR '':'' \<notin> set (zero_pad w (dec_digits n))"
  using zero_pad_digits not_digits(1) by blast

lemma fmt_0d_no_colon: "CHR '':'' \<notin> set (fmt_0d w i)"
  by (simp add: fmt_0d_def zero_pad_no_colon)

lemma zero_pad_no_minus: "zero_pad w (dec_digits n) \<noteq> CHR ''-'' # s"
  using zero_pad_digits [of "CHR ''-''" w n] not_digits by auto

lemma zero_pad_inject: "zero_pad w (dec_digits m) = zero_pad w (dec_digits n) \<longleftrightarrow> m = n"
  by (metis dec_val_zero_pad)

lemma fmt_0d_inject: "fmt_0d w i = fmt_0d w j \<longleftrightarrow> i = j"
  using zero_pad_no_minus zero_pad_no_minus [symmetric]
  by (auto simp: fmt_0d_def zero_pad_inject)

lemma length_dec_digits: "n < 10 ^ Suc k \<Longrightarrow> length (dec_digits n) \<le> Suc k"
proof (induction k arbitrary: n)
  case 0
  then show ?case by (simp add: dec_digits.simps [of n])
next
  case (Suc k)
  show ?case
  proof (cases "n < 10")
    case True
    then show ?thesis by (simp add: dec_digits.simps [of n])
  next
    case False
    have "n div 10 < 10 ^ Suc k" using Suc.prems by (simp add: less_mult_imp_div_less)
    then have "length (dec_digits (n div 10)) \<le> Suc k" by (rule Suc.IH)
    with False show ?thesis by (simp add: dec_digits.simps [of n])
  qed
qed

lemma length_zero_pad: "length (zero_pad w s) = max w (length s)"
  by (simp add: zero_pad_def)

subsection \<open>C strings\<close>

text \<open>
  A \<^verbatim>\<open>char *\<close> argument is the list of its bytes up to the terminator. A
  \<^verbatim>\<open>char name[n]\<close> field filled by \<^verbatim>\<open>strncpy\<close> over zeroed memory is
  the list of its bytes before the first NUL, at most \<open>n\<close> of them.
\<close>

definition c_str :: "string \<Rightarrow> string" where
  "c_str s = takeWhile (\<lambda>c. c \<noteq> CHR 0x00) s"

definition strncpy :: "nat \<Rightarrow> string \<Rightarrow> string" where
  "strncpy n s = take n (c_str s)"

lemma c_str_no_nul: "CHR 0x00 \<notin> set s \<Longrightarrow> c_str s = s"
  by (auto simp: c_str_def takeWhile_eq_all_conv)

lemma strncpy_no_nul: "CHR 0x00 \<notin> set (strncpy n s)"
  by (auto simp: strncpy_def c_str_def dest!: in_set_takeD set_takeWhileD)

lemma c_str_strncpy [simp]: "c_str (strncpy n s) = strncpy n s"
  by (rule c_str_no_nul) (rule strncpy_no_nul)

lemma strncpy_strncpy [simp]: "strncpy n (strncpy n s) = strncpy n s"
proof -
  have "strncpy n (strncpy n s) = take n (strncpy n s)" by (subst strncpy_def) simp
  also have "\<dots> = strncpy n s" by (simp add: strncpy_def)
  finally show ?thesis .
qed

lemma length_strncpy: "length (strncpy n s) \<le> n"
  by (simp add: strncpy_def)

subsection \<open>Sorting and searching\<close>

type_synonym 'a cmp = "'a \<Rightarrow> 'a \<Rightarrow> int"

fun merge_runs :: "'a cmp \<Rightarrow> 'a list \<Rightarrow> 'a list \<Rightarrow> 'a list" where
  "merge_runs cmp [] ys = ys"
| "merge_runs cmp xs [] = xs"
| "merge_runs cmp (x # xs) (y # ys) =
     (if cmp x y \<le> 0 then x # merge_runs cmp xs (y # ys) else y # merge_runs cmp (x # xs) ys)"

fun qsort :: "'a cmp \<Rightarrow> 'a list \<Rightarrow> 'a list" where
  "qsort cmp xs =
     (let n = length xs; n1 = n div 2 in
      if n \<le> 1 then xs
      else merge_runs cmp (qsort cmp (take n1 xs)) (qsort cmp (drop n1 xs)))"

declare qsort.simps [simp del]

text \<open>\<^verbatim>\<open>bsearch\<close> on the half-open index range; the result is the index found.\<close>

function bsearch_range :: "'a cmp \<Rightarrow> 'a \<Rightarrow> 'a list \<Rightarrow> nat \<Rightarrow> nat \<Rightarrow> nat option" where
  "bsearch_range cmp key xs l u =
     (if l < u then
        let idx = (l + u) div 2; c = cmp key (xs ! idx) in
        if c < 0 then bsearch_range cmp key xs l idx
        else if c > 0 then bsearch_range cmp key xs (idx + 1) u
        else Some idx
      else None)"
  by pat_completeness auto
termination
  by (relation "measure (\<lambda>(cmp, key, xs, l, u). u - l)") auto

declare bsearch_range.simps [simp del]

definition bsearch :: "'a cmp \<Rightarrow> 'a \<Rightarrow> 'a list \<Rightarrow> nat option" where
  "bsearch cmp key xs = bsearch_range cmp key xs 0 (length xs)"

lemma mset_merge_runs: "mset (merge_runs cmp xs ys) = mset xs + mset ys"
  by (induction cmp xs ys rule: merge_runs.induct) auto

lemma mset_qsort [simp]: "mset (qsort cmp xs) = mset xs"
proof (induction cmp xs rule: qsort.induct)
  case (1 cmp xs)
  let ?k = "length xs div 2"
  show ?case
  proof (cases "length xs \<le> 1")
    case True
    then show ?thesis by (subst qsort.simps) (simp add: Let_def)
  next
    case False
    then have "mset (qsort cmp xs) = mset (take ?k xs) + mset (drop ?k xs)"
      using 1 by (subst qsort.simps) (simp add: Let_def mset_merge_runs)
    also have "\<dots> = mset (take ?k xs @ drop ?k xs)" by (simp del: append_take_drop_id)
    finally show ?thesis by simp
  qed
qed

lemma set_qsort [simp]: "set (qsort cmp xs) = set xs"
  by (metis mset_qsort set_mset_mset)

lemma length_qsort [simp]: "length (qsort cmp xs) = length xs"
  by (metis mset_qsort size_mset)

lemma distinct_qsort [simp]: "distinct (qsort cmp xs) = distinct xs"
  by (rule mset_eq_imp_distinct_iff) simp

lemma bsearch_range_sound:
  "bsearch_range cmp key xs l u = Some i \<Longrightarrow> u \<le> length xs \<Longrightarrow> i < length xs \<and> cmp key (xs ! i) = 0"
proof (induction cmp key xs l u rule: bsearch_range.induct)
  case (1 cmp key xs l u)
  let ?idx = "(l + u) div 2"
  consider "l < u" "cmp key (xs ! ?idx) < 0" | "l < u" "cmp key (xs ! ?idx) > 0"
    | "l < u" "cmp key (xs ! ?idx) = 0" | "\<not> l < u" by linarith
  then show ?case
    using 1 by cases (auto simp: bsearch_range.simps [of cmp key xs l u] Let_def)
qed

lemma bsearch_sound:
  "bsearch cmp key xs = Some i \<Longrightarrow> i < length xs \<and> cmp key (xs ! i) = 0"
  unfolding bsearch_def by (erule bsearch_range_sound) simp

subsection \<open>What the standard asks of a comparison function\<close>

locale comparator =
  fixes cmp :: "'a \<Rightarrow> 'a \<Rightarrow> int" and carrier :: "'a \<Rightarrow> bool"
  assumes cmp_eq: "carrier a \<Longrightarrow> carrier b \<Longrightarrow> cmp a b = 0 \<longleftrightarrow> a = b"
    and cmp_flip: "carrier a \<Longrightarrow> carrier b \<Longrightarrow> cmp a b < 0 \<longleftrightarrow> 0 < cmp b a"
    and cmp_trans: "carrier a \<Longrightarrow> carrier b \<Longrightarrow> carrier c \<Longrightarrow>
      cmp a b \<le> 0 \<Longrightarrow> cmp b c \<le> 0 \<Longrightarrow> cmp a c \<le> 0"
begin

abbreviation cle :: "'a \<Rightarrow> 'a \<Rightarrow> bool" where "cle a b \<equiv> cmp a b \<le> 0"

lemma cmp_refl [simp]: "carrier a \<Longrightarrow> cmp a a = 0"
  by (simp add: cmp_eq)

lemma cmp_linear: "carrier a \<Longrightarrow> carrier b \<Longrightarrow> \<not> cle a b \<Longrightarrow> cle b a"
  using cmp_flip by fastforce

lemma cmp_antisym: "carrier a \<Longrightarrow> carrier b \<Longrightarrow> cle a b \<Longrightarrow> cle b a \<Longrightarrow> a = b"
  using cmp_flip cmp_eq by (metis linorder_neqE_linordered_idom not_le)

lemma sorted_merge_runs_aux:
  "c = cmp \<Longrightarrow> sorted_wrt cle xs \<Longrightarrow> sorted_wrt cle ys \<Longrightarrow> \<forall>x\<in>set xs \<union> set ys. carrier x \<Longrightarrow>
   sorted_wrt cle (merge_runs cmp xs ys)"
proof (induction c xs ys rule: merge_runs.induct)
  case (3 c x xs y ys)
  have set: "set (merge_runs cmp as bs) = set as \<union> set bs" for as bs
    by (metis mset_merge_runs set_mset_mset set_mset_union)
  show ?case
  proof (cases "cle x y")
    case True
    have "\<forall>z\<in>set (y # ys). cle x z"
    proof
      fix z assume "z \<in> set (y # ys)"
      then show "cle x z" using True "3.prems" by (auto intro: cmp_trans [of x y z])
    qed
    with True 3 show ?thesis by (simp add: set ball_Un)
  next
    case False
    then have "cle y x" using "3.prems" by (intro cmp_linear) auto
    have "\<forall>z\<in>set (x # xs). cle y z"
    proof
      fix z assume "z \<in> set (x # xs)"
      then show "cle y z" using \<open>cle y x\<close> "3.prems" by (auto intro: cmp_trans [of y x z])
    qed
    with False 3 show ?thesis by (simp add: set ball_Un)
  qed
qed auto

lemmas sorted_merge_runs = sorted_merge_runs_aux [OF refl]

lemma sorted_qsort: "\<forall>x\<in>set xs. carrier x \<Longrightarrow> sorted_wrt cle (qsort cmp xs)"
proof (induction xs rule: length_induct)
  case (1 xs)
  let ?k = "length xs div 2"
  show ?case
  proof (cases "length xs \<le> 1")
    case True
    then show ?thesis
      by (subst qsort.simps) (auto simp: Let_def le_Suc_eq length_Suc_conv)
  next
    case False
    have car: "\<forall>x\<in>set (take ?k xs). carrier x" "\<forall>x\<in>set (drop ?k xs). carrier x"
      using "1.prems" by (auto dest: in_set_takeD in_set_dropD)
    have "length (take ?k xs) < length xs" "length (drop ?k xs) < length xs"
      using False by auto
    then have "sorted_wrt cle (qsort cmp (take ?k xs))" "sorted_wrt cle (qsort cmp (drop ?k xs))"
      using "1.IH" car by blast+
    then have "sorted_wrt cle (merge_runs cmp (qsort cmp (take ?k xs)) (qsort cmp (drop ?k xs)))"
      using car by (intro sorted_merge_runs) auto
    with False show ?thesis by (simp add: qsort.simps [of cmp xs] Let_def)
  qed
qed

lemma sorted_unique:
  "mset xs = mset ys \<Longrightarrow> sorted_wrt cle xs \<Longrightarrow> sorted_wrt cle ys \<Longrightarrow>
   \<forall>x\<in>set xs. carrier x \<Longrightarrow> xs = ys"
proof (induction xs arbitrary: ys)
  case Nil
  then show ?case by simp
next
  case (Cons x xs)
  then obtain y ys' where ys: "ys = y # ys'" by (cases ys) auto
  have sets: "insert x (set xs) = insert y (set ys')"
    using Cons.prems(1) ys by (metis list.set(2) mset_eq_setD)
  then have cy: "carrier y" using Cons.prems(4) by auto
  have "cle x y" using sets Cons.prems by (cases "x = y") auto
  moreover have "cle y x" using sets Cons.prems ys by (cases "x = y") auto
  ultimately have "x = y" using Cons.prems cy by (intro cmp_antisym) auto
  with Cons ys show ?case by simp
qed

lemma qsort_sorted: "sorted_wrt cle xs \<Longrightarrow> \<forall>x\<in>set xs. carrier x \<Longrightarrow> qsort cmp xs = xs"
  by (rule sorted_unique) (auto intro: sorted_qsort)

lemma sorted_nth: "sorted_wrt cle xs \<Longrightarrow> \<forall>x\<in>set xs. carrier x \<Longrightarrow> i \<le> j \<Longrightarrow> j < length xs \<Longrightarrow>
  cle (xs ! i) (xs ! j)"
  by (cases "i = j") (auto intro: sorted_wrt_nth_less)

lemma bsearch_range_complete:
  "sorted_wrt cle xs \<Longrightarrow> \<forall>x\<in>set xs. carrier x \<Longrightarrow> carrier key \<Longrightarrow>
   l \<le> k \<Longrightarrow> k < u \<Longrightarrow> u \<le> length xs \<Longrightarrow> xs ! k = key \<Longrightarrow>
   bsearch_range cmp key xs l u \<noteq> None"
proof (induction "u - l" arbitrary: l u rule: less_induct)
  case less
  let ?idx = "(l + u) div 2"
  let ?c = "cmp key (xs ! ?idx)"
  have idx: "l \<le> ?idx" "?idx < u" using less.prems by auto
  then have car: "carrier (xs ! ?idx)" using less.prems by auto
  have unfold: "bsearch_range cmp key xs l u =
      (if ?c < 0 then bsearch_range cmp key xs l ?idx
       else if ?c > 0 then bsearch_range cmp key xs (?idx + 1) u else Some ?idx)"
    using less.prems by (subst bsearch_range.simps) (simp add: Let_def)
  consider "?c < 0" | "?c > 0" | "?c = 0" by linarith
  then show ?case
  proof cases
    case 1
    have "k < ?idx"
    proof (rule ccontr)
      assume "\<not> k < ?idx"
      then have "cle (xs ! ?idx) (xs ! k)" using less.prems by (intro sorted_nth) auto
      with 1 car less.prems show False using cmp_flip by fastforce
    qed
    with 1 unfold idx less.prems show ?thesis
      using less.hyps [of ?idx l] by auto
  next
    case 2
    have "?idx < k"
    proof (rule ccontr)
      assume "\<not> ?idx < k"
      then have "cle (xs ! k) (xs ! ?idx)" using less.prems idx by (intro sorted_nth) auto
      with 2 less.prems show False by simp
    qed
    with 2 unfold idx less.prems show ?thesis
      using less.hyps [of u "?idx + 1"] by auto
  next
    case 3
    with unfold show ?thesis by simp
  qed
qed

lemma bsearch_iff_mem:
  assumes "sorted_wrt cle xs" "\<forall>x\<in>set xs. carrier x" "carrier key"
  shows "bsearch cmp key xs \<noteq> None \<longleftrightarrow> key \<in> set xs"
proof
  assume "bsearch cmp key xs \<noteq> None"
  then obtain i where "i < length xs" "cmp key (xs ! i) = 0"
    by (auto dest: bsearch_sound)
  with assms show "key \<in> set xs" by (metis cmp_eq nth_mem)
next
  assume "key \<in> set xs"
  then obtain k where "k < length xs" "xs ! k = key" by (auto simp: in_set_conv_nth)
  with assms show "bsearch cmp key xs \<noteq> None"
    unfolding bsearch_def by (intro bsearch_range_complete [of _ _ _ k]) auto
qed

end

text \<open>
  A comparator with a greatest value, which the code uses as the mark of a deleted slot:
  sorting moves the marked slots behind the others.
\<close>

locale comparator_top = comparator +
  fixes top :: 'a
  assumes carrier_top: "carrier top"
    and cmp_top: "carrier a \<Longrightarrow> cmp a top \<le> 0"
begin

lemma take_qsort_marked:
  assumes mset: "mset xs = mset ys + replicate_mset k top"
    and car: "\<forall>y\<in>set ys. carrier y"
  shows "take (length ys) (qsort cmp xs) = qsort cmp ys"
proof -
  have xs: "\<forall>x\<in>set xs. carrier x"
  proof
    fix x assume "x \<in> set xs"
    then have "x \<in># mset ys + replicate_mset k top" using mset by (metis set_mset_mset)
    with car show "carrier x" by (auto simp: carrier_top split: if_splits)
  qed
  have "qsort cmp xs = qsort cmp ys @ replicate k top"
  proof (rule sorted_unique)
    show "mset (qsort cmp xs) = mset (qsort cmp ys @ replicate k top)" using mset by simp
    show "sorted_wrt cle (qsort cmp xs)" using xs by (rule sorted_qsort)
    have "sorted_wrt cle (replicate k top)"
      by (induction k) (auto simp: cmp_top carrier_top)
    then show "sorted_wrt cle (qsort cmp ys @ replicate k top)"
      using car by (auto simp: sorted_wrt_append intro: sorted_qsort cmp_top)
    show "\<forall>x\<in>set (qsort cmp xs). carrier x" using xs by simp
  qed
  then show ?thesis by simp
qed

end

end
