(* ===== verification/Authr_Uids.thy ===== *)
theory Authr_Uids imports C_Library begin

section \<open>User-id arrays of the authorization server\<close>

text \<open>
  \<^verbatim>\<open>compare_uids\<close>, \<^verbatim>\<open>remove_dups\<close>, \<^verbatim>\<open>add_uids\<close> and
  \<^verbatim>\<open>remove_uids\<close> of \<^verbatim>\<open>server/authr_server/authr_server.c\<close>. A
  \<^verbatim>\<open>lwfs_uid_array\<close> is the list of its first \<^verbatim>\<open>lwfs_uid_array_len\<close>
  entries. \<^verbatim>\<open>compare_uids\<close> stores an unsigned 32-bit difference in a
  \<^verbatim>\<open>long\<close>, so what it returns depends on the width of \<^verbatim>\<open>long\<close>: the
  data model of the build is an argument. The lemmas show that with a 32-bit
  \<^verbatim>\<open>long\<close> the comparison is a linear order on identifiers whose words stay below
  \<open>2^31 - 1\<close>, so that the array operations are set union and difference, and that with
  a 64-bit \<^verbatim>\<open>long\<close> it never returns a negative value.
\<close>

datatype data_model = ILP32 | LP64

record build =
  long_model :: data_model
  have_cray_portals :: bool

subsection \<open>Comparing two uids\<close>

text \<open>The \<open>i\<close>-th 32-bit word that \<^verbatim>\<open>memcpy\<close> reads from a uid.\<close>

definition uid_word :: "lwfs_uid \<Rightarrow> nat \<Rightarrow> u32" where
  "uid_word u i = ucast (drop_bit (32 * i) u)"

text \<open>
  \<^verbatim>\<open>long res = intb[i] - inta[i]\<close> for \<^verbatim>\<open>uint32_t\<close> operands: the
  difference wraps at 32 bits; a 64-bit \<^verbatim>\<open>long\<close> holds it as it is, a 32-bit one
  reads it as two's complement.
\<close>

definition long_diff :: "data_model \<Rightarrow> u32 \<Rightarrow> u32 \<Rightarrow> int" where
  "long_diff m b a = (case m of LP64 \<Rightarrow> uint (b - a) | ILP32 \<Rightarrow> sint (b - a))"

fun compare_words :: "data_model \<Rightarrow> lwfs_uid \<Rightarrow> lwfs_uid \<Rightarrow> nat list \<Rightarrow> int" where
  "compare_words m a b [] = 0"
| "compare_words m a b (i # is) =
     (let res = long_diff m (uid_word b i) (uid_word a i) in
      if res \<noteq> 0 then res else compare_words m a b is)"

text \<open>The indices \<^verbatim>\<open>for (i=3; i>=0; i--)\<close> visits.\<close>

definition uid_indices :: "nat list" where
  "uid_indices = [3, 2, 1, 0]"

definition compare_uids :: "data_model \<Rightarrow> lwfs_uid \<Rightarrow> lwfs_uid \<Rightarrow> int" where
  "compare_uids m a b =
     (let res = compare_words m a b uid_indices in
      if res > 0 then 1 else if res < 0 then -1 else 0)"

definition compare_uids_reverse :: "data_model \<Rightarrow> lwfs_uid \<Rightarrow> lwfs_uid \<Rightarrow> int" where
  "compare_uids_reverse m a b = - compare_uids m a b"

text \<open>The comparison the build passes to \<^verbatim>\<open>qsort\<close> and \<^verbatim>\<open>bsearch\<close>.\<close>

definition acl_compare :: "build \<Rightarrow> lwfs_uid cmp" where
  "acl_compare cfg =
     (if have_cray_portals cfg then compare_uids_reverse (long_model cfg)
      else compare_uids (long_model cfg))"

text \<open>The value \<^verbatim>\<open>memset(b, -1, size)\<close> leaves in a slot.\<close>

definition inf_uid :: lwfs_uid where "inf_uid = -1"

subsection \<open>Removing duplicates\<close>

text \<open>
  The loop of \<^verbatim>\<open>remove_dups\<close>: \<open>a\<close> is the last entry kept, later equal
  entries are overwritten by \<^verbatim>\<open>inf_uid\<close>; the first component counts the entries
  kept in the rest of the array.
\<close>

fun mark_dups :: "'a cmp \<Rightarrow> 'a \<Rightarrow> 'a \<Rightarrow> 'a list \<Rightarrow> nat \<times> 'a list" where
  "mark_dups compar mark a [] = (0, [])"
| "mark_dups compar mark a (b # bs) =
     (if compar a b \<noteq> 0 then let (n, bs') = mark_dups compar mark b bs in (Suc n, b # bs')
      else let (n, bs') = mark_dups compar mark a bs in (n, mark # bs'))"

definition remove_dups :: "'a cmp \<Rightarrow> 'a \<Rightarrow> 'a list \<Rightarrow> nat \<times> 'a list" where
  "remove_dups compar mark vals =
     (case qsort compar vals of
        [] \<Rightarrow> (0, vals)
      | a # bs \<Rightarrow> let (n, bs') = mark_dups compar mark a bs in (Suc n, qsort compar (a # bs')))"

text \<open>The array as its length field leaves it: the first \<open>count\<close> entries.\<close>

definition dedup_uids :: "build \<Rightarrow> lwfs_uid list \<Rightarrow> lwfs_uid list" where
  "dedup_uids cfg vals =
     (let (count, arr) = remove_dups (acl_compare cfg) inf_uid vals in take count arr)"

subsection \<open>Adding and removing\<close>

text \<open>
  \<^verbatim>\<open>realloc\<close> may fail: \<open>can_alloc n\<close> says whether \<open>n\<close> bytes can be had. A
  failure with a positive total is \<^verbatim>\<open>LWFS_ERR_NOSPACE\<close>. The array is returned
  by value, so on an error the caller has no array, as in the code, where the pointer is
  lost.
\<close>

definition add_uids ::
  "build \<Rightarrow> (nat \<Rightarrow> bool) \<Rightarrow> lwfs_uid list \<Rightarrow> lwfs_uid list \<Rightarrow> lwfs_return_code + lwfs_uid list" where
  "add_uids cfg can_alloc orig toadd =
     (let total = length orig + length toadd in
      if \<not> can_alloc (total * 16) \<and> total > 0 then Inl LWFS_ERR_NOSPACE
      else Inr (dedup_uids cfg (orig @ toadd)))"

text \<open>
  The merge loop of \<^verbatim>\<open>remove_uids\<close>: entries of \<open>orig\<close> found in \<open>torm\<close> are
  overwritten and counted. It calls \<^verbatim>\<open>compare_uids\<close> whatever the build.
\<close>

fun mark_removed :: "'a cmp \<Rightarrow> 'a \<Rightarrow> 'a list \<Rightarrow> 'a list \<Rightarrow> nat \<times> 'a list" where
  "mark_removed cmp mark (x # orig) (y # torm) =
     (let comp_res = cmp x y in
      if comp_res = 0 then
        let (removed, rest) = mark_removed cmp mark orig torm in (Suc removed, mark # rest)
      else if comp_res < 0 then
        let (removed, rest) = mark_removed cmp mark orig (y # torm) in (removed, x # rest)
      else mark_removed cmp mark (x # orig) torm)"
| "mark_removed cmp mark orig torm = (0, orig)"

text \<open>Both arrays change: the second result is the deduplicated \<open>torm\<close> array.\<close>

definition remove_uids ::
  "build \<Rightarrow> lwfs_uid list \<Rightarrow> lwfs_uid list \<Rightarrow> lwfs_uid list \<times> lwfs_uid list" where
  "remove_uids cfg orig_array torm_array =
     (let orig = dedup_uids cfg orig_array;
          torm = dedup_uids cfg torm_array;
          (removed, marked) = mark_removed (compare_uids (long_model cfg)) inf_uid orig torm
      in (take (length orig - removed) (qsort (acl_compare cfg) marked), torm))"

subsection \<open>What the comparison returns\<close>

lemma bit_uid_word: "bit (uid_word u i) n \<longleftrightarrow> n < 32 \<and> bit u (32 * i + n)"
  by (simp add: uid_word_def bit_simps)

lemma uid_words_eq: "a = b \<longleftrightarrow> (\<forall>i\<in>set uid_indices. uid_word a i = uid_word b i)"
proof
  assume eq: "\<forall>i\<in>set uid_indices. uid_word a i = uid_word b i"
  show "a = b"
  proof (rule bit_word_eqI)
    fix n
    assume "n < LENGTH(128)"
    then have "n div 32 < 4" by simp
    then have "n div 32 \<in> set uid_indices" by (auto simp: uid_indices_def)
    with eq have "uid_word a (n div 32) = uid_word b (n div 32)" by blast
    then have "bit (uid_word a (n div 32)) (n mod 32) = bit (uid_word b (n div 32)) (n mod 32)"
      by simp
    then show "bit a n = bit b n" by (simp add: bit_uid_word)
  qed
qed simp

lemma long_diff_eq_0: "long_diff m b a = 0 \<longleftrightarrow> a = b"
  by (cases m) (auto simp: long_diff_def uint_0_iff signed_eq_0_iff)

lemma compare_words_eq_0:
  "compare_words m a b is = 0 \<longleftrightarrow> (\<forall>i\<in>set is. uid_word a i = uid_word b i)"
  by (induction m a b "is" rule: compare_words.induct) (auto simp: Let_def long_diff_eq_0)

lemma compare_uids_eq_0 [uid_facts]: "compare_uids m a b = 0 \<longleftrightarrow> a = b"
  using uid_words_eq [of a b] compare_words_eq_0 [of m a b uid_indices]
  by (auto simp: compare_uids_def Let_def)

lemma compare_words_LP64: "0 \<le> compare_words LP64 a b is"
  by (induction LP64 a b "is" rule: compare_words.induct) (auto simp: Let_def long_diff_def)

lemma compare_uids_LP64 [uid_facts]: "compare_uids LP64 a b = (if a = b then 0 else 1)"
proof -
  have "0 \<le> compare_uids LP64 a b \<and> compare_uids LP64 a b \<le> 1"
    using compare_words_LP64 [of a b uid_indices]
    by (auto simp: compare_uids_def Let_def)
  then show ?thesis using compare_uids_eq_0 [of LP64 a b] by auto
qed

subsection \<open>The order of a 32-bit build\<close>

definition ordered_word :: "u32 \<Rightarrow> bool" where
  "ordered_word w \<longleftrightarrow> - 1 \<le> sint w \<and> sint w \<le> 2 ^ 31 - 2"

definition ordered_uid :: "lwfs_uid \<Rightarrow> bool" where
  "ordered_uid u \<longleftrightarrow> (\<forall>i\<in>set uid_indices. ordered_word (uid_word u i))"

lemma long_diff_ILP32:
  "ordered_word a \<Longrightarrow> ordered_word b \<Longrightarrow> long_diff ILP32 b a = sint b - sint a"
  by (auto simp: ordered_word_def long_diff_def sint_word_ariths
      intro!: signed_take_bit_int_eq_self)

lemma compare_words_ILP32_flip:
  "\<forall>i\<in>set is. ordered_word (uid_word a i) \<and> ordered_word (uid_word b i) \<Longrightarrow>
   compare_words ILP32 a b is = - compare_words ILP32 b a is"
  by (induction "is") (auto simp: Let_def long_diff_ILP32)

lemma compare_words_ILP32_trans:
  "\<forall>i\<in>set is. ordered_word (uid_word a i) \<and> ordered_word (uid_word b i) \<and> ordered_word (uid_word c i) \<Longrightarrow>
   compare_words ILP32 a b is \<le> 0 \<Longrightarrow> compare_words ILP32 b c is \<le> 0 \<Longrightarrow>
   compare_words ILP32 a c is \<le> 0"
  by (induction "is") (auto simp: Let_def long_diff_ILP32 split: if_splits)

lemma ordered_inf_uid: "ordered_uid inf_uid"
proof -
  have "uid_word inf_uid i = -1" if "i \<in> set uid_indices" for i
    using that by (intro bit_word_eqI) (auto simp: bit_uid_word inf_uid_def uid_indices_def)
  then show ?thesis by (simp add: ordered_uid_def ordered_word_def)
qed

lemma compare_words_inf: "\<forall>i\<in>set is. ordered_word (uid_word a i) \<and> uid_word b i = -1 \<Longrightarrow>
  compare_words ILP32 a b is \<le> 0"
proof (induction "is")
  case (Cons i "is")
  have "ordered_word (-1)" by (simp add: ordered_word_def)
  with Cons show ?case by (auto simp: Let_def long_diff_ILP32) (auto simp: ordered_word_def)
qed simp

lemma compare_uids_le_0: "compare_uids m a b \<le> 0 \<longleftrightarrow> compare_words m a b uid_indices \<le> 0"
  and compare_uids_less_0: "compare_uids m a b < 0 \<longleftrightarrow> compare_words m a b uid_indices < 0"
  and compare_uids_gt_0: "0 < compare_uids m a b \<longleftrightarrow> 0 < compare_words m a b uid_indices"
  by (auto simp: compare_uids_def Let_def)

lemmas compare_uids_signs = compare_uids_le_0 compare_uids_less_0 compare_uids_gt_0

interpretation ilp32: comparator_top "compare_uids ILP32" ordered_uid inf_uid
proof
  show "compare_uids ILP32 a b = 0 \<longleftrightarrow> a = b" for a b by (rule compare_uids_eq_0)
  show "compare_uids ILP32 a b < 0 \<longleftrightarrow> 0 < compare_uids ILP32 b a"
    if "ordered_uid a" "ordered_uid b" for a b
    using that compare_words_ILP32_flip [of uid_indices a b]
    by (auto simp: ordered_uid_def compare_uids_signs)
  show "compare_uids ILP32 a c \<le> 0"
    if "ordered_uid a" "ordered_uid b" "ordered_uid c"
      "compare_uids ILP32 a b \<le> 0" "compare_uids ILP32 b c \<le> 0" for a b c
    using that compare_words_ILP32_trans [of uid_indices a b c]
    by (auto simp: ordered_uid_def compare_uids_signs)
  show "ordered_uid inf_uid" by (rule ordered_inf_uid)
  show "compare_uids ILP32 a inf_uid \<le> 0" if "ordered_uid a" for a
  proof -
    have "uid_word inf_uid i = -1" if "i \<in> set uid_indices" for i
      using that by (intro bit_word_eqI) (auto simp: bit_uid_word inf_uid_def uid_indices_def)
    then show ?thesis using that compare_words_inf [of uid_indices a inf_uid]
      by (auto simp: ordered_uid_def compare_uids_signs)
  qed
qed

subsection \<open>The array operations over a linear order\<close>

lemma mark_dups_length:
  "mark_dups compar mk a bs = (n, bs') \<Longrightarrow> n \<le> length bs \<and> length bs' = length bs"
  by (induction compar mk a bs arbitrary: n bs' rule: mark_dups.induct)
    (auto simp: Let_def split: if_splits prod.splits intro: le_SucI)

context comparator_top begin

lemma mark_dups_spec:
  "compar = cmp \<Longrightarrow> mk = top \<Longrightarrow> mark_dups compar mk a bs = (n, bs') \<Longrightarrow> sorted_wrt cle (a # bs) \<Longrightarrow>
   \<forall>x\<in>set (a # bs). carrier x \<Longrightarrow>
   \<exists>us. mset bs' = mset us + replicate_mset (length bs - n) top \<and> length us = n \<and>
        distinct (a # us) \<and> set (a # us) = set (a # bs)"
proof (induction compar mk a bs arbitrary: n bs' rule: mark_dups.induct)
  case (1 compar mk a)
  then show ?case by simp
next
  case (2 compar mk a b bs)
  have car: "carrier a" "carrier b" "\<forall>x\<in>set bs. carrier x" using "2.prems" by auto
  show ?case
  proof (cases "cmp a b = 0")
    case True
    then have "a = b" using car by (simp add: cmp_eq)
    obtain n1 bs1 where rec: "mark_dups cmp top a bs = (n1, bs1)" by fastforce
    with True "2.prems" have res: "n = n1" "bs' = top # bs1" by auto
    from "2.IH"(2) True rec "2.prems" obtain us where
      us: "mset bs1 = mset us + replicate_mset (length bs - n1) top" "length us = n1"
        "distinct (a # us)" "set (a # us) = set (a # bs)" by fastforce
    have "n1 \<le> length bs" using mark_dups_length [OF rec] by simp
    then have "mset bs' = mset us + replicate_mset (length (b # bs) - n) top"
      using res us by (simp add: Suc_diff_le)
    with us res \<open>a = b\<close> show ?thesis by (intro exI [of _ us]) auto
  next
    case False
    then have "a \<noteq> b" using car by (simp add: cmp_eq)
    obtain n1 bs1 where rec: "mark_dups cmp top b bs = (n1, bs1)" by fastforce
    with False "2.prems" have res: "n = Suc n1" "bs' = b # bs1" by auto
    from "2.IH"(1) False rec "2.prems" obtain us where
      us: "mset bs1 = mset us + replicate_mset (length bs - n1) top" "length us = n1"
        "distinct (b # us)" "set (b # us) = set (b # bs)" by fastforce
    have "a \<notin> set (b # us)"
    proof
      assume "a \<in> set (b # us)"
      then have "a \<in> set bs" using us(4) \<open>a \<noteq> b\<close> by auto
      then have "cle b a" and "cle a b" using "2.prems" by auto
      with car \<open>a \<noteq> b\<close> show False using cmp_antisym by blast
    qed
    with us res show ?thesis by (intro exI [of _ "b # us"]) auto
  qed
qed

lemma take_remove_dups:
  assumes rd: "remove_dups cmp top vals = (cnt, arr)" and car: "\<forall>x\<in>set vals. carrier x"
  shows "sorted_wrt cle (take cnt arr)" "distinct (take cnt arr)"
    "set (take cnt arr) = set vals"
proof -
  have "sorted_wrt cle (take cnt arr) \<and> distinct (take cnt arr) \<and>
    set (take cnt arr) = set vals"
  proof (cases "qsort cmp vals")
    case Nil
    then have "vals = []" by (metis length_0_conv length_qsort)
    with rd Nil show ?thesis by (simp add: remove_dups_def)
  next
    case (Cons a bs)
    obtain n bs' where md: "mark_dups cmp top a bs = (n, bs')" by fastforce
    have q: "sorted_wrt cle (a # bs)" "set (a # bs) = set vals"
      using sorted_qsort [OF car] Cons by (metis, metis set_qsort)
    then obtain us where
      us: "mset bs' = mset us + replicate_mset (length bs - n) top" "length us = n"
        "distinct (a # us)" "set (a # us) = set (a # bs)"
      using mark_dups_spec [OF refl refl md] car by (metis (no_types, lifting))
    have "mset (a # bs') = mset (a # us) + replicate_mset (length bs - n) top"
      using us(1) by simp
    moreover have car_us: "\<forall>y\<in>set (a # us). carrier y" using us(4) q(2) car by auto
    ultimately have "take (length (a # us)) (qsort cmp (a # bs')) = qsort cmp (a # us)"
      by (rule take_qsort_marked)
    moreover have "cnt = length (a # us)" "arr = qsort cmp (a # bs')"
      using rd Cons md us(2) by (auto simp: remove_dups_def)
    ultimately have "take cnt arr = qsort cmp (a # us)" by simp
    then show ?thesis using us q car_us sorted_qsort [OF car_us] by simp
  qed
  then show "sorted_wrt cle (take cnt arr)" "distinct (take cnt arr)"
    "set (take cnt arr) = set vals" by auto
qed

lemma mark_removed_spec:
  "c = cmp \<Longrightarrow> mk = top \<Longrightarrow> mark_removed c mk orig torm = (r, marked) \<Longrightarrow>
   sorted_wrt cle orig \<Longrightarrow> distinct orig \<Longrightarrow> sorted_wrt cle torm \<Longrightarrow> distinct torm \<Longrightarrow>
   \<forall>x\<in>set orig \<union> set torm. carrier x \<Longrightarrow>
   mset marked = mset (filter (\<lambda>x. x \<notin> set torm) orig) + replicate_mset r top \<and>
   length (filter (\<lambda>x. x \<notin> set torm) orig) + r = length orig"
proof (induction c mk orig torm arbitrary: r marked rule: mark_removed.induct)
  case (1 c mk x orig y torm)
  have car: "carrier x" "carrier y" using "1.prems" by auto
  consider "cmp x y = 0" | "cmp x y < 0" | "cmp x y > 0" by linarith
  then show ?case
  proof cases
    case 1
    then have xy: "x = y" using car by (simp add: cmp_eq)
    obtain r' rest where rec: "mark_removed cmp top orig torm = (r', rest)" by fastforce
    with 1 "1.prems" have "r = Suc r'" "marked = top # rest" by auto
    moreover have "filter (\<lambda>z. z \<notin> set (y # torm)) (x # orig) = filter (\<lambda>z. z \<notin> set torm) orig"
      using xy "1.prems" by (auto intro: filter_cong)
    ultimately show ?thesis using "1.IH"(1) 1 rec "1.prems" by auto
  next
    case 2
    obtain r' rest where rec: "mark_removed cmp top orig (y # torm) = (r', rest)" by fastforce
    with 2 "1.prems" have "r = r'" "marked = x # rest" by auto
    moreover have "x \<notin> set (y # torm)"
    proof
      assume "x \<in> set (y # torm)"
      then have "cle y x" using "1.prems" car by auto
      with 2 car show False using cmp_flip [of x y] by simp
    qed
    ultimately show ?thesis using "1.IH"(2) 2 rec "1.prems" by auto
  next
    case 3
    with "1.prems" have rec: "mark_removed cmp top (x # orig) torm = (r, marked)" by auto
    have "y \<notin> set (x # orig)"
    proof
      assume "y \<in> set (x # orig)"
      then have "cle x y" using "1.prems" car by auto
      with 3 show False by simp
    qed
    then have "filter (\<lambda>z. z \<notin> set (y # torm)) (x # orig) = filter (\<lambda>z. z \<notin> set torm) (x # orig)"
      by (auto intro: filter_cong)
    with "1.IH"(3) 3 rec "1.prems" show ?thesis by auto
  qed
qed (auto simp: filter_id_conv)

end

subsection \<open>The array operations in a 32-bit build\<close>

lemma acl_compare_ILP32:
  "long_model cfg = ILP32 \<Longrightarrow> \<not> have_cray_portals cfg \<Longrightarrow> acl_compare cfg = compare_uids ILP32"
  by (simp add: acl_compare_def)

lemma dedup_uids_ILP32:
  assumes "long_model cfg = ILP32" "\<not> have_cray_portals cfg" "\<forall>u\<in>set us. ordered_uid u"
  shows "sorted_wrt ilp32.cle (dedup_uids cfg us)" "distinct (dedup_uids cfg us)"
    "set (dedup_uids cfg us) = set us"
proof -
  obtain c arr where "remove_dups (compare_uids ILP32) inf_uid us = (c, arr)" by fastforce
  moreover from this have "dedup_uids cfg us = take c arr"
    by (simp add: dedup_uids_def acl_compare_ILP32 [OF assms(1,2)])
  ultimately show "sorted_wrt ilp32.cle (dedup_uids cfg us)" "distinct (dedup_uids cfg us)"
    "set (dedup_uids cfg us) = set us"
    using ilp32.take_remove_dups [OF _ assms(3)] by simp_all
qed

text \<open>
  An access-control list as the server stores it: sorted by the comparison, without
  duplicates and without the mark of a deleted slot.
\<close>

definition acl_ok :: "lwfs_uid list \<Rightarrow> bool" where
  "acl_ok us \<longleftrightarrow> sorted_wrt (\<lambda>a b. compare_uids ILP32 a b \<le> 0) us \<and> distinct us \<and>
     (\<forall>u\<in>set us. ordered_uid u \<and> u \<noteq> inf_uid)"

lemma add_uids_ILP32:
  assumes "long_model cfg = ILP32" "\<not> have_cray_portals cfg"
    and "\<forall>u\<in>set orig \<union> set toadd. ordered_uid u \<and> u \<noteq> inf_uid"
    and "add_uids cfg can_alloc orig toadd = Inr res"
  shows "acl_ok res" "set res = set orig \<union> set toadd"
proof -
  have "\<forall>u\<in>set (orig @ toadd). ordered_uid u" using assms(3) by auto
  note dd = dedup_uids_ILP32 [OF assms(1,2) this]
  have "res = dedup_uids cfg (orig @ toadd)"
    using assms(4) by (auto simp: add_uids_def Let_def split: if_splits)
  with dd assms(3) show "acl_ok res" "set res = set orig \<union> set toadd"
    by (auto simp: acl_ok_def)
qed

lemma remove_uids_ILP32:
  assumes cfg: "long_model cfg = ILP32" "\<not> have_cray_portals cfg"
    and orig: "\<forall>u\<in>set orig. ordered_uid u \<and> u \<noteq> inf_uid" and torm: "\<forall>u\<in>set torm. ordered_uid u"
    and rm: "remove_uids cfg orig torm = (res, torm')"
  shows "acl_ok res" "set res = set orig - set torm" "set torm' = set torm"
proof -
  have car: "\<forall>u\<in>set orig. ordered_uid u" using orig by simp
  note d1 = dedup_uids_ILP32 [OF cfg car]
  note d2 = dedup_uids_ILP32 [OF cfg torm]
  let ?o = "dedup_uids cfg orig" and ?t = "dedup_uids cfg torm"
  let ?keep = "filter (\<lambda>x. x \<notin> set ?t) ?o"
  obtain r marked where mr: "mark_removed (compare_uids ILP32) inf_uid ?o ?t = (r, marked)"
    by fastforce
  have all: "\<forall>u\<in>set ?o \<union> set ?t. ordered_uid u" using car torm d1(3) d2(3) by auto
  have spec: "mset marked = mset ?keep + replicate_mset r inf_uid" "length ?keep + r = length ?o"
    using ilp32.mark_removed_spec [OF refl refl mr d1(1,2) d2(1,2) all] by auto
  have keep: "\<forall>u\<in>set ?keep. ordered_uid u" using all by auto
  have "res = take (length ?o - r) (qsort (compare_uids ILP32) marked)" "torm' = ?t"
    using rm mr by (auto simp: remove_uids_def Let_def cfg acl_compare_ILP32)
  moreover have "length ?o - r = length ?keep" using spec(2) by simp
  ultimately have res: "res = qsort (compare_uids ILP32) ?keep" and t: "torm' = ?t"
    using ilp32.take_qsort_marked [OF spec(1) keep] by simp_all
  then show "set res = set orig - set torm" "set torm' = set torm" using d1(3) d2(3) by auto
  show "acl_ok res"
    using res keep orig d1(2,3) ilp32.sorted_qsort [OF keep] by (auto simp: acl_ok_def)
qed

end
