(* ===== verification/Authr_Cap.thy ===== *)
theory Authr_Cap imports Lwfs_Prelude begin

section \<open>Credentials and capabilities\<close>

text \<open>
  The security library of \<^verbatim>\<open>server/authr_server/cap.c\<close> over the structures of
  \<^verbatim>\<open>common/types/xdr_types.x\<close>. OpenSSL is not part of the repository: the MAC
  function and the random generator are arguments. The MAC is computed over the memory image
  of \<^verbatim>\<open>lwfs_cap_data\<close>, which has no padding (8 + 4 + 16 + 20 bytes), on a
  little-endian machine.
\<close>

record lwfs_cred_data =
  uid :: lwfs_uid

record lwfs_cred =
  cred_data :: lwfs_cred_data
  cred_mac :: lwfs_mac

record lwfs_cap_data =
  cid :: lwfs_cid
  container_op :: lwfs_container_op
  cred :: lwfs_cred

record lwfs_cap =
  cap_data :: lwfs_cap_data
  cap_mac :: lwfs_mac

type_synonym hmac = "lwfs_key \<Rightarrow> u8 list \<Rightarrow> lwfs_mac"

subsection \<open>Sizes and images\<close>

definition sizeof_lwfs_key :: nat where "sizeof_lwfs_key = 16"
definition sizeof_lwfs_cap_data :: nat where "sizeof_lwfs_cap_data = 48"

text \<open>
  \<^verbatim>\<open>xdr_sizeof\<close> of \<^verbatim>\<open>xdr_lwfs_cap_data\<close>: an unsigned hyper, an enum and
  two fixed opaques, each padded to a multiple of four bytes.
\<close>

definition xdr_opaque_size :: "nat \<Rightarrow> nat" where
  "xdr_opaque_size n = 4 * ((n + 3) div 4)"

definition xdr_sizeof_cap_data :: "lwfs_cap_data \<Rightarrow> nat" where
  "xdr_sizeof_cap_data d = 8 + 4 + (xdr_opaque_size 16 + xdr_opaque_size 20)"

definition cap_data_image :: "lwfs_cap_data \<Rightarrow> u8 list" where
  "cap_data_image d =
     le_bytes 8 (cid d) @ le_bytes 4 (container_op d) @
     le_bytes 16 (uid (cred_data (cred d))) @ le_bytes 20 (cred_mac (cred d))"

lemma length_cap_data_image: "length (cap_data_image d) = sizeof_lwfs_cap_data"
  by (simp add: cap_data_image_def sizeof_lwfs_cap_data_def)

lemma xdr_sizeof_eq: "xdr_sizeof_cap_data d = sizeof_lwfs_cap_data"
  by (simp add: xdr_sizeof_cap_data_def xdr_opaque_size_def sizeof_lwfs_cap_data_def)

lemma cap_data_image_inject: "cap_data_image c = cap_data_image d \<longleftrightarrow> c = d"
proof
  assume "cap_data_image c = cap_data_image d"
  then have "le_bytes 8 (cid c) = le_bytes 8 (cid d)"
    "le_bytes 4 (container_op c) = le_bytes 4 (container_op d)"
    "le_bytes 16 (uid (cred_data (cred c))) = le_bytes 16 (uid (cred_data (cred d)))"
    "le_bytes 20 (cred_mac (cred c)) = le_bytes 20 (cred_mac (cred d))"
    by (auto simp: cap_data_image_def)
  then have "cid c = cid d" "container_op c = container_op d"
    "uid (cred_data (cred c)) = uid (cred_data (cred d))" "cred_mac (cred c) = cred_mac (cred d)"
    by (simp_all add: le_bytes_inject)
  then show "c = d" by (auto intro!: lwfs_cap_data.equality lwfs_cred.equality lwfs_cred_data.equality)
qed simp

subsection \<open>The security library\<close>

text \<open>
  \<^verbatim>\<open>RAND_bytes\<close> gives a status and the bytes it wrote. The branch that seeds the
  generator needs \<^verbatim>\<open>seeded == -1\<close>, and \<^verbatim>\<open>seeded\<close> is 0 for good.
\<close>

definition generate_cap_key :: "(nat \<Rightarrow> int \<times> u8 list) \<Rightarrow> lwfs_return_code \<times> lwfs_key" where
  "generate_cap_key rand_bytes =
     (let (status, key) = rand_bytes sizeof_lwfs_key in
      if status = 0 then (LWFS_ERR_GENKEY, key) else (LWFS_OK, key))"

definition generate_cap :: "hmac \<Rightarrow> lwfs_key \<Rightarrow> lwfs_cap_data \<Rightarrow> lwfs_return_code \<times> lwfs_cap" where
  "generate_cap hmac key data =
     (let cap_size = xdr_sizeof_cap_data data in
      (LWFS_OK, \<lparr>cap_data = data, cap_mac = hmac key (take cap_size (cap_data_image data))\<rparr>))"

definition verify_cap :: "hmac \<Rightarrow> lwfs_key \<Rightarrow> lwfs_cap \<Rightarrow> lwfs_return_code" where
  "verify_cap hmac key cap =
     (let newmac = hmac key (take sizeof_lwfs_cap_data (cap_data_image (cap_data cap))) in
      if cap_mac cap \<noteq> newmac then LWFS_ERR_VERIFYCAP else LWFS_OK)"

lemma generate_cap_eq:
  "generate_cap hmac key data = (LWFS_OK, \<lparr>cap_data = data, cap_mac = hmac key (cap_data_image data)\<rparr>)"
  by (simp add: generate_cap_def Let_def xdr_sizeof_eq length_cap_data_image)

lemma verify_cap_eq:
  "verify_cap hmac key cap =
     (if cap_mac cap = hmac key (cap_data_image (cap_data cap)) then LWFS_OK else LWFS_ERR_VERIFYCAP)"
  by (simp add: verify_cap_def Let_def length_cap_data_image)

lemma verify_cap_OK: "verify_cap hmac key cap = LWFS_OK \<longleftrightarrow> (LWFS_OK, cap) = generate_cap hmac key (cap_data cap)"
  by (cases cap) (auto simp: verify_cap_eq generate_cap_eq)

lemma verify_cap_not_OK: "verify_cap hmac key cap \<noteq> LWFS_OK \<Longrightarrow> verify_cap hmac key cap = LWFS_ERR_VERIFYCAP"
  by (simp add: verify_cap_eq split: if_splits)

subsection \<open>What a server that accepts capabilities asks of the authorization service\<close>

text \<open>
  The other servers call \<^verbatim>\<open>lwfs_verify_caps_sync\<close>, an RPC to the authorization
  server. \<open>verify\<close> is the call as they see it, \<open>granted\<close> what an accepted capability means.
\<close>

locale cap_verifier =
  fixes verify :: "lwfs_cap list \<Rightarrow> lwfs_return_code" and granted :: "lwfs_cap \<Rightarrow> bool"
  assumes verify_sound: "verify caps = LWFS_OK \<Longrightarrow> cap \<in> set caps \<Longrightarrow> granted cap"
begin

lemma verify_single: "verify [cap] = LWFS_OK \<Longrightarrow> granted cap"
  using verify_sound [of "[cap]" cap] by simp

end

end
