(* ===== verification/Berkeley_DB.thy ===== *)
theory Berkeley_DB imports Lwfs_Prelude "HOL-Library.AList" begin

section \<open>The Berkeley DB interface\<close>

text \<open>
  The servers keep their tables in Berkeley DB, which is not part of the repository. A
  database is a value of an arbitrary type \<open>'db\<close>, and the calls the servers make
  (\<^verbatim>\<open>get\<close>, \<^verbatim>\<open>put\<close>, \<^verbatim>\<open>del\<close>) are the fields of a record that the
  model's definitions take as an argument. \<open>bdb_store\<close> names the documented behaviour
  the code relies on, relative to the contents \<open>C db\<close> of a database: a call may fail with
  any other code, and then it changes nothing. \<open>bdb_reliable\<close> adds that no call fails
  for another reason than the documented key conditions; \<open>accepts\<close> is the condition an
  associated index puts on a stored record.
\<close>

datatype db_rc = DB_OK | DB_KEYEXIST | DB_NOTFOUND | DB_ERROR int

record ('db, 'k, 'v) bdb =
  bdb_get :: "'db \<Rightarrow> 'k \<Rightarrow> db_rc + 'v"
  bdb_put :: "'db \<Rightarrow> bool \<Rightarrow> 'k \<Rightarrow> 'v \<Rightarrow> db_rc \<times> 'db" \<comment> \<open>the flag is DB_NOOVERWRITE\<close>
  bdb_del :: "'db \<Rightarrow> 'k \<Rightarrow> db_rc \<times> 'db"

locale bdb_store =
  fixes B :: "('db, 'k, 'v) bdb" and C :: "'db \<Rightarrow> 'k \<Rightarrow> 'v option"
  assumes get_found: "bdb_get B db k = Inr v \<Longrightarrow> C db k = Some v"
    and get_notfound: "bdb_get B db k = Inl DB_NOTFOUND \<Longrightarrow> C db k = None"
    and put_ok: "bdb_put B db noov k v = (DB_OK, db') \<Longrightarrow> C db' = (C db)(k \<mapsto> v)"
    and put_fresh: "bdb_put B db True k v = (DB_OK, db') \<Longrightarrow> C db k = None"
    and put_exist: "bdb_put B db noov k v = (DB_KEYEXIST, db') \<Longrightarrow> noov \<and> C db k \<noteq> None"
    and put_fail: "bdb_put B db noov k v = (rc, db') \<Longrightarrow> rc \<noteq> DB_OK \<Longrightarrow> C db' = C db"
    and del_ok: "bdb_del B db k = (DB_OK, db') \<Longrightarrow> C db' = (C db)(k := None) \<and> C db k \<noteq> None"
    and del_notfound: "bdb_del B db k = (DB_NOTFOUND, db') \<Longrightarrow> C db k = None"
    and del_fail: "bdb_del B db k = (rc, db') \<Longrightarrow> rc \<noteq> DB_OK \<Longrightarrow> C db' = C db"
begin

lemma put_contents:
  "bdb_put B db noov k v = (rc, db') \<Longrightarrow> C db' = (if rc = DB_OK then (C db)(k \<mapsto> v) else C db)"
  using put_ok put_fail by fastforce

lemma del_contents:
  "bdb_del B db k = (rc, db') \<Longrightarrow> C db' = (if rc = DB_OK then (C db)(k := None) else C db)"
  using del_ok del_fail by fastforce

end

locale bdb_reliable = bdb_store +
  fixes accepts :: "'a \<Rightarrow> 'b \<Rightarrow> 'c \<Rightarrow> bool"
  assumes get_total: "bdb_get B db k \<noteq> Inl DB_OK \<and> bdb_get B db k \<noteq> Inl DB_KEYEXIST \<and>
      bdb_get B db k \<noteq> Inl (DB_ERROR e)"
    and put_total: "accepts db k v \<Longrightarrow> fst (bdb_put B db noov k v) \<in> {DB_OK, DB_KEYEXIST}"
    and del_total: "fst (bdb_del B db k) \<in> {DB_OK, DB_NOTFOUND}"
begin

lemma get_eq: "bdb_get B db k = (case C db k of None \<Rightarrow> Inl DB_NOTFOUND | Some v \<Rightarrow> Inr v)"
proof (cases "bdb_get B db k")
  case (Inl rc)
  then have "rc = DB_NOTFOUND" using get_total [of db k] by (cases rc) auto
  with Inl show ?thesis using get_notfound by auto
next
  case (Inr v)
  then show ?thesis using get_found by auto
qed

lemma put_present: "accepts db k v \<Longrightarrow> C db k \<noteq> None \<Longrightarrow> fst (bdb_put B db True k v) = DB_KEYEXIST"
  using put_total [of db k v True] put_fresh by (cases "bdb_put B db True k v") auto

lemma put_absent: "accepts db k v \<Longrightarrow> C db k = None \<Longrightarrow> fst (bdb_put B db noov k v) = DB_OK"
  using put_total [of db k v noov] put_exist [of db noov k v]
  by (cases "bdb_put B db noov k v") auto

lemma put_overwrite: "accepts db k v \<Longrightarrow> fst (bdb_put B db False k v) = DB_OK"
  using put_total [of db k v False] put_exist [of db False k v] by (cases "bdb_put B db False k v") auto

lemma del_present: "C db k \<noteq> None \<Longrightarrow> fst (bdb_del B db k) = DB_OK"
  using del_total [of db k] del_notfound by (cases "bdb_del B db k") auto

lemma del_absent: "C db k = None \<Longrightarrow> fst (bdb_del B db k) = DB_NOTFOUND"
  using del_total [of db k] del_ok [of db k] by (cases "bdb_del B db k") auto

end

subsection \<open>A database in memory\<close>

text \<open>
  The instance the witnesses run on: a database is its contents, and no call fails but for
  the key conditions.
\<close>

definition mem_bdb :: "('k \<rightharpoonup> 'v, 'k, 'v) bdb" where
  "mem_bdb = \<lparr>
     bdb_get = (\<lambda>db k. case db k of None \<Rightarrow> Inl DB_NOTFOUND | Some v \<Rightarrow> Inr v),
     bdb_put = (\<lambda>db noov k v. if noov \<and> db k \<noteq> None then (DB_KEYEXIST, db) else (DB_OK, db(k \<mapsto> v))),
     bdb_del = (\<lambda>db k. if db k = None then (DB_NOTFOUND, db) else (DB_OK, db(k := None)))\<rparr>"

interpretation mem_store: bdb_reliable mem_bdb "\<lambda>db. db" "\<lambda>_ _ _. True"
  by unfold_locales (auto simp: mem_bdb_def split: option.splits if_splits)

text \<open>The same as a list of pairs, which a cursor can run through.\<close>

definition alist_bdb :: "(('k \<times> 'v) list, 'k, 'v) bdb" where
  "alist_bdb = \<lparr>
     bdb_get = (\<lambda>db k. case map_of db k of None \<Rightarrow> Inl DB_NOTFOUND | Some v \<Rightarrow> Inr v),
     bdb_put = (\<lambda>db noov k v. if noov \<and> map_of db k \<noteq> None then (DB_KEYEXIST, db) else (DB_OK, AList.update k v db)),
     bdb_del = (\<lambda>db k. if map_of db k = None then (DB_NOTFOUND, db) else (DB_OK, AList.delete k db))\<rparr>"

lemma set_clearjunk: "(k, v) \<in> set (AList.clearjunk d) \<longleftrightarrow> map_of d k = Some v"
  by (metis distinct_clearjunk map_of_clearjunk map_of_eq_Some_iff)

interpretation alist_store: bdb_reliable alist_bdb map_of "\<lambda>_ _ _. True"
  by unfold_locales (auto simp: alist_bdb_def update_conv' delete_conv' split: option.splits if_splits)

end
