(* ===== verification/Authr_Db.thy ===== *)
theory Authr_Db imports C_Library Berkeley_DB begin

section \<open>The access-control database\<close>

text \<open>
  \<^verbatim>\<open>server/authr_server/authr_db.c\<close>: one Berkeley DB table holds, under textual
  keys, the array of user ids of every (container, operation) pair, an empty array under
  operation -1 that marks a container as existing, and under the key \<^verbatim>\<open>cid\<close> the
  last generated container id. A stored value is its byte image.
\<close>

type_synonym 'db acl_bdb = "('db, string, u8 list) bdb"

subsection \<open>Keys and values\<close>

definition make_keystr :: "lwfs_cid \<Rightarrow> lwfs_opcode \<Rightarrow> nat \<Rightarrow> string" where
  "make_keystr cid opcode maxlen =
     snprintf maxlen (fmt_0d 8 (sint (ucast cid :: u32)) @ '':'' @ fmt_0d 4 (sint opcode))"

text \<open>The operation \<^verbatim>\<open>-1\<close> of the key that marks a container as existing.\<close>

definition exist_op :: lwfs_opcode where "exist_op = -1"

definition bytes_of_uids :: "lwfs_uid list \<Rightarrow> u8 list" where
  "bytes_of_uids us = concat (map (le_bytes 16) us)"

fun uids_of_bytes :: "u8 list \<Rightarrow> lwfs_uid list" where
  "uids_of_bytes bs =
     (if length bs < 16 then [] else le_word (take 16 bs) # uids_of_bytes (drop 16 bs))"

declare uids_of_bytes.simps [simp del]

subsection \<open>Operations\<close>

text \<open>The result is the return code, the value left in \<^verbatim>\<open>*cid\<close> and the database.\<close>

definition create_cid :: "'db acl_bdb \<Rightarrow> 'db \<Rightarrow> lwfs_return_code \<times> lwfs_cid \<times> 'db" where
  "create_cid B db =
     (let last = (case bdb_get B db ''cid'' of Inl rc \<Rightarrow> 0 | Inr data \<Rightarrow> le_word (take 8 data));
          cid = last + 1;
          (rc, db') = bdb_put B db False ''cid'' (le_bytes 8 cid)
      in (case rc of
            DB_OK \<Rightarrow> LWFS_OK
          | DB_KEYEXIST \<Rightarrow> LWFS_ERR_EXIST
          | _ \<Rightarrow> LWFS_ERR_SEC, cid, db'))"

definition authr_db_get_acl ::
  "'db acl_bdb \<Rightarrow> 'db \<Rightarrow> lwfs_cid \<Rightarrow> lwfs_opcode \<Rightarrow> lwfs_return_code + lwfs_uid list" where
  "authr_db_get_acl B db cid opcode =
     (case bdb_get B db (make_keystr cid opcode 256) of
        Inl rc \<Rightarrow> Inl LWFS_ERR_NOENT
      | Inr data \<Rightarrow> Inr (uids_of_bytes data))"

definition authr_db_put_acl ::
  "'db acl_bdb \<Rightarrow> 'db \<Rightarrow> lwfs_cid \<Rightarrow> lwfs_opcode \<Rightarrow> lwfs_uid list \<Rightarrow> lwfs_return_code \<times> 'db" where
  "authr_db_put_acl B db cid opcode acl =
     (let (rc, db') = bdb_put B db True (make_keystr cid opcode 16) (bytes_of_uids acl) in
      (case rc of
         DB_OK \<Rightarrow> LWFS_OK
       | DB_KEYEXIST \<Rightarrow> LWFS_ERR_EXIST
       | _ \<Rightarrow> LWFS_ERR_SEC, db'))"

definition authr_db_del_acl ::
  "'db acl_bdb \<Rightarrow> 'db \<Rightarrow> lwfs_cid \<Rightarrow> lwfs_opcode \<Rightarrow> lwfs_return_code \<times> 'db" where
  "authr_db_del_acl B db cid opcode =
     (let (rc, db') = bdb_del B db (make_keystr cid opcode 256) in
      (case rc of
         DB_OK \<Rightarrow> LWFS_OK
       | DB_NOTFOUND \<Rightarrow> LWFS_ERR_NOENT
       | _ \<Rightarrow> LWFS_ERR_SEC, db'))"

definition authr_db_container_exists :: "'db acl_bdb \<Rightarrow> 'db \<Rightarrow> lwfs_cid \<Rightarrow> bool" where
  "authr_db_container_exists B db cid =
     (case authr_db_get_acl B db cid exist_op of Inl rc \<Rightarrow> False | Inr acl \<Rightarrow> True)"

text \<open>
  The \<^verbatim>\<open>do ... while\<close> loop that draws container ids until one is unused. \<open>None\<close>
  is a loop that does not end.
\<close>

partial_function (option) create_fresh_cid ::
  "'db acl_bdb \<Rightarrow> 'db \<Rightarrow> (lwfs_return_code \<times> lwfs_cid \<times> 'db) option" where
  "create_fresh_cid B db =
     (case create_cid B db of (rc, cid, db') \<Rightarrow>
        if rc \<noteq> LWFS_OK then Some (rc, cid, db')
        else if authr_db_container_exists B db' cid then create_fresh_cid B db'
        else Some (LWFS_OK, cid, db'))"

declare create_fresh_cid.simps [code]

definition authr_db_create_container ::
  "'db acl_bdb \<Rightarrow> 'db \<Rightarrow> lwfs_cid \<Rightarrow> (lwfs_return_code \<times> lwfs_cid \<times> 'db) option" where
  "authr_db_create_container B db cid =
     (if cid = LWFS_CID_ANY then create_fresh_cid B db
      else if authr_db_container_exists B db cid then Some (LWFS_ERR_EXIST, cid, db)
      else let (rc, db') = authr_db_put_acl B db cid exist_op [] in Some (rc, cid, db'))"

definition authr_db_remove_container ::
  "'db acl_bdb \<Rightarrow> 'db \<Rightarrow> lwfs_cid \<Rightarrow> lwfs_return_code \<times> 'db" where
  "authr_db_remove_container B db cid =
     (if \<not> authr_db_container_exists B db cid then (LWFS_ERR_NOENT, db)
      else let (rc, db') = authr_db_del_acl B db cid exist_op in
        if rc \<noteq> LWFS_OK then (rc, db')
        else if authr_db_container_exists B db' cid then (LWFS_ERR, db')
        else (LWFS_OK, db'))"

subsection \<open>Keys are faithful for small container ids\<close>

definition small_cid :: "lwfs_cid \<Rightarrow> bool" where "small_cid cid \<longleftrightarrow> cid < 2 ^ 31"
definition small_op :: "lwfs_opcode \<Rightarrow> bool" where
  "small_op opcode \<longleftrightarrow> opcode = exist_op \<or> opcode \<in> set container_ops"

lemma sint_small_cid: "small_cid c \<Longrightarrow> sint (ucast c :: u32) = uint c \<and> uint c < 2 ^ 31"
proof -
  assume "small_cid c"
  then have lt: "uint c < 2 ^ 31" by (simp add: small_cid_def word_less_def)
  then have u: "uint (ucast c :: u32) = uint c"
    by (simp add: unsigned_ucast_eq take_bit_int_eq_self)
  moreover have "- (2 ^ 31) \<le> uint c" by (rule order_trans [OF _ uint_ge_0]) simp
  ultimately have "sint (ucast c :: u32) = uint c"
    using lt by (simp add: sint_uint signed_take_bit_int_eq_self)
  then show ?thesis using lt by simp
qed

lemma small_op_cases: "small_op opcode \<Longrightarrow> opcode \<in> {-1, 1, 2, 4, 8, 16, 32}"
  by (auto simp: small_op_def exist_op_def set_container_ops)

lemma length_fmt_cid: "small_cid c \<Longrightarrow> length (fmt_0d 8 (sint (ucast c :: u32))) \<le> 10"
proof -
  assume "small_cid c"
  then have eq: "sint (ucast c :: u32) = uint c" and lt: "uint c < 2 ^ 31"
    using sint_small_cid by auto
  then have "nat (uint c) < 10 ^ Suc 9" by (subst nat_less_iff) simp_all
  then have "length (dec_digits (nat (uint c))) \<le> 10" using length_dec_digits by fastforce
  with eq show ?thesis by (simp add: fmt_0d_def length_zero_pad)
qed

lemma length_dec_1: "n < 10 \<Longrightarrow> length (dec_digits n) = 1"
  by (simp add: dec_digits.simps [of n])

lemma length_dec_2: "10 \<le> n \<Longrightarrow> n < 100 \<Longrightarrow> length (dec_digits n) = 2"
  by (simp add: dec_digits.simps [of n] length_dec_1 less_mult_imp_div_less)

lemma length_fmt_op: "small_op opcode \<Longrightarrow> length (fmt_0d 4 (sint opcode)) = 4"
  by (drule small_op_cases)
    (auto simp: fmt_0d_def length_zero_pad length_dec_1 length_dec_2)

lemma make_keystr_full:
  "small_cid c \<Longrightarrow> small_op opcode \<Longrightarrow> 16 \<le> maxlen \<Longrightarrow>
   make_keystr c opcode maxlen = fmt_0d 8 (sint (ucast c :: u32)) @ '':'' @ fmt_0d 4 (sint opcode)"
  using length_fmt_cid [of c] length_fmt_op [of opcode]
  by (simp add: make_keystr_def snprintf_def)

lemma append_colon_inject:
  "x \<notin> set as \<Longrightarrow> x \<notin> set bs \<Longrightarrow> as @ x # cs = bs @ x # ds \<longleftrightarrow> as = bs \<and> cs = ds"
proof (induction as arbitrary: bs)
  case Nil
  then show ?case by (cases bs) auto
next
  case (Cons a as)
  then show ?case by (cases bs) auto
qed

lemma small_cid_inject:
  assumes "small_cid c" "small_cid d"
  shows "(ucast c :: u32) = ucast d \<longleftrightarrow> c = d"
proof
  assume "(ucast c :: u32) = ucast d"
  then have "sint (ucast c :: u32) = sint (ucast d :: u32)" by simp
  then have "uint c = uint d" using sint_small_cid assms by metis
  then show "c = d" by (rule unsigned_word_eqI)
qed simp

lemma sint_inject: "sint v = sint w \<longleftrightarrow> v = (w :: 'a::len word)"
  by (auto intro: signed_word_eqI)

lemma make_keystr_inject:
  assumes "small_cid c" "small_cid d" "small_op p" "small_op q" "16 \<le> m" "16 \<le> n"
  shows "make_keystr c p m = make_keystr d q n \<longleftrightarrow> c = d \<and> p = q"
proof -
  have "make_keystr c p m = fmt_0d 8 (sint (ucast c :: u32)) @ CHR '':'' # fmt_0d 4 (sint p)"
    "make_keystr d q n = fmt_0d 8 (sint (ucast d :: u32)) @ CHR '':'' # fmt_0d 4 (sint q)"
    using assms by (simp_all add: make_keystr_full)
  then have "make_keystr c p m = make_keystr d q n \<longleftrightarrow>
      fmt_0d 8 (sint (ucast c :: u32)) = fmt_0d 8 (sint (ucast d :: u32)) \<and>
      fmt_0d 4 (sint p) = fmt_0d 4 (sint q)"
    using append_colon_inject [OF fmt_0d_no_colon fmt_0d_no_colon] by simp
  then show ?thesis
    using small_cid_inject [OF assms(1,2)] by (simp add: fmt_0d_inject sint_inject)
qed

lemma length_fmt_sint: "length (fmt_0d 8 (sint (w :: u32))) \<le> 11"
proof -
  have r: "- (2 ^ 31) \<le> sint w" "sint w < 2 ^ 31"
    using sint_ge [of w] sint_less [of w] by simp_all
  then have "nat (sint w) < 10 ^ Suc 9" "nat (- sint w) < 10 ^ Suc 9"
    by (simp_all add: nat_less_iff)
  then have "length (dec_digits (nat (sint w))) \<le> Suc 9" "length (dec_digits (nat (- sint w))) \<le> Suc 9"
    using length_dec_digits by blast+
  then show ?thesis by (auto simp: fmt_0d_def length_zero_pad)
qed

text \<open>Without a bound on the ids: two keys agree only if the ids agree in their low 32 bits.\<close>

lemma make_keystr_split:
  "16 \<le> m \<Longrightarrow> make_keystr c p m = fmt_0d 8 (sint (ucast c :: u32)) @ CHR '':'' #
     take (m - 2 - length (fmt_0d 8 (sint (ucast c :: u32)))) (fmt_0d 4 (sint p))"
proof -
  assume m: "16 \<le> m"
  let ?f = "fmt_0d 8 (sint (ucast c :: u32))" and ?g = "fmt_0d 4 (sint p)"
  have len: "length ?f \<le> 11" by (rule length_fmt_sint)
  have "make_keystr c p m = ?f @ take (m - 1 - length ?f) (CHR '':'' # ?g)"
    using len m by (simp add: make_keystr_def snprintf_def)
  moreover have "m - 1 - length ?f = Suc (m - 2 - length ?f)" using len m by simp
  ultimately show ?thesis by (metis take_Suc_Cons)
qed

lemma length_fmt_0d: "n \<le> length (fmt_0d n i)"
  by (auto simp: fmt_0d_def length_zero_pad)

lemma length_fmt_opcode: "length (fmt_0d 4 (sint (w :: u32))) \<le> 11"
proof -
  have r: "- (2 ^ 31) \<le> sint w" "sint w < 2 ^ 31"
    using sint_ge [of w] sint_less [of w] by simp_all
  then have "nat (sint w) < 10 ^ Suc 9" "nat (- sint w) < 10 ^ Suc 9"
    by (simp_all add: nat_less_iff)
  then have "length (dec_digits (nat (sint w))) \<le> Suc 9" "length (dec_digits (nat (- sint w))) \<le> Suc 9"
    using length_dec_digits by blast+
  then show ?thesis by (auto simp: fmt_0d_def length_zero_pad)
qed

lemma make_keystr_low32:
  assumes "make_keystr c p m = make_keystr d q 256" "small_op p" "16 \<le> m"
  shows "(ucast c :: u32) = ucast d \<and> p = q"
proof -
  let ?f = "fmt_0d 8 (sint (ucast c :: u32))"
  let ?g = "fmt_0d 8 (sint (ucast d :: u32))"
  have full: "take (256 - 2 - length ?g) (fmt_0d 4 (sint q)) = fmt_0d 4 (sint q)"
    using length_fmt_sint [of "ucast d"] length_fmt_opcode [of q] by simp
  have "?f @ CHR '':'' # take (m - 2 - length ?f) (fmt_0d 4 (sint p)) = ?g @ CHR '':'' # fmt_0d 4 (sint q)"
    using assms(1,3) full by (simp only: make_keystr_split [OF assms(3)] make_keystr_split [of 256 d q])
  then have eq: "?f = ?g" "take (m - 2 - length ?f) (fmt_0d 4 (sint p)) = fmt_0d 4 (sint q)"
    using append_colon_inject [OF fmt_0d_no_colon fmt_0d_no_colon] by blast+
  have "length (take (m - 2 - length ?f) (fmt_0d 4 (sint p))) \<ge> 4"
    unfolding eq(2) by (rule length_fmt_0d)
  then have "fmt_0d 4 (sint p) = fmt_0d 4 (sint q)"
    using eq(2) length_fmt_op [OF assms(2)] by simp
  with eq(1) show ?thesis by (simp add: fmt_0d_inject sint_inject)
qed

lemma make_keystr_colon: "16 \<le> m \<Longrightarrow> CHR '':'' \<in> set (make_keystr c p m)"
  by (simp add: make_keystr_split)

lemma make_keystr_not_cid: "16 \<le> m \<Longrightarrow> make_keystr c p m \<noteq> ''cid''"
  using make_keystr_colon [of m c p] by auto

subsection \<open>Value images\<close>

lemma uids_of_bytes_of_uids [simp]: "uids_of_bytes (bytes_of_uids us) = us"
proof (induction us)
  case Nil
  show ?case by (simp add: bytes_of_uids_def uids_of_bytes.simps)
next
  case (Cons u us)
  have "bytes_of_uids (u # us) = le_bytes 16 u @ bytes_of_uids us" by (simp add: bytes_of_uids_def)
  then have "uids_of_bytes (bytes_of_uids (u # us)) = le_word (le_bytes 16 u) # uids_of_bytes (bytes_of_uids us)"
    by (subst uids_of_bytes.simps) simp
  with Cons show ?case by (simp add: le_word_le_bytes)
qed

subsection \<open>The tables the operations work on\<close>

text \<open>
  What the server means by its database: a table from (container, operation) to access-control
  lists, and a counter. \<open>acl_table\<close> and \<open>last_cid\<close> read them off the contents \<open>C db\<close>.
\<close>

definition acl_table ::
  "('db \<Rightarrow> string \<Rightarrow> u8 list option) \<Rightarrow> 'db \<Rightarrow> lwfs_cid \<Rightarrow> lwfs_opcode \<Rightarrow> lwfs_uid list option" where
  "acl_table C db cid opcode = map_option uids_of_bytes (C db (make_keystr cid opcode 256))"

definition last_cid :: "('db \<Rightarrow> string \<Rightarrow> u8 list option) \<Rightarrow> 'db \<Rightarrow> lwfs_cid" where
  "last_cid C db = (case C db ''cid'' of None \<Rightarrow> 0 | Some data \<Rightarrow> le_word (take 8 data))"

lemma make_keystr_16: "small_cid c \<Longrightarrow> small_op p \<Longrightarrow> make_keystr c p 16 = make_keystr c p 256"
  by (simp add: make_keystr_full)

locale acl_store = bdb_store B C
  for B :: "('db, string, u8 list) bdb" and C :: "'db \<Rightarrow> string \<Rightarrow> u8 list option"
begin

lemma get_acl_OK: "authr_db_get_acl B db c p = Inr us \<Longrightarrow> acl_table C db c p = Some us"
  using get_found by (auto simp: authr_db_get_acl_def acl_table_def split: sum.splits)

lemma get_acl_err: "authr_db_get_acl B db c p = Inl rc \<Longrightarrow> rc = LWFS_ERR_NOENT"
  by (auto simp: authr_db_get_acl_def split: sum.splits)

lemma put_acl_table:
  assumes "authr_db_put_acl B db c p us = (rc, db')" "small_cid c" "small_op p" "small_cid d" "small_op q"
  shows "acl_table C db' d q = (if rc = LWFS_OK \<and> d = c \<and> q = p then Some us else acl_table C db d q)"
    and "rc = LWFS_OK \<Longrightarrow> acl_table C db c p = None"
    and "last_cid C db' = last_cid C db"
proof -
  obtain drc where put: "bdb_put B db True (make_keystr c p 256) (bytes_of_uids us) = (drc, db')"
    and rc: "rc = LWFS_OK \<longleftrightarrow> drc = DB_OK"
    using assms(1-3)
    by (auto simp: authr_db_put_acl_def make_keystr_16 split: prod.splits db_rc.splits)
  note C = put_contents [OF put]
  show "acl_table C db' d q = (if rc = LWFS_OK \<and> d = c \<and> q = p then Some us else acl_table C db d q)"
    using make_keystr_inject [OF assms(4,2,5,3), of 256 256]
    by (auto simp: acl_table_def C rc)
  show "last_cid C db' = last_cid C db"
    using make_keystr_not_cid [of 256 c p] by (auto simp: last_cid_def C)
  show "acl_table C db c p = None" if "rc = LWFS_OK"
    using that put rc put_fresh by (auto simp: acl_table_def)
qed

lemma del_acl_table:
  assumes "authr_db_del_acl B db c p = (rc, db')" "small_cid c" "small_op p" "small_cid d" "small_op q"
  shows "acl_table C db' d q = (if rc = LWFS_OK \<and> d = c \<and> q = p then None else acl_table C db d q)"
    and "rc = LWFS_OK \<Longrightarrow> acl_table C db c p \<noteq> None"
    and "rc = LWFS_ERR_NOENT \<Longrightarrow> acl_table C db c p = None"
    and "last_cid C db' = last_cid C db"
proof -
  obtain drc where del: "bdb_del B db (make_keystr c p 256) = (drc, db')"
    and rc: "rc = LWFS_OK \<longleftrightarrow> drc = DB_OK" "rc = LWFS_ERR_NOENT \<longleftrightarrow> drc = DB_NOTFOUND"
    using assms(1)
    by (auto simp: authr_db_del_acl_def split: prod.splits db_rc.splits)
  note C = del_contents [OF del]
  show "acl_table C db' d q = (if rc = LWFS_OK \<and> d = c \<and> q = p then None else acl_table C db d q)"
    using make_keystr_inject [OF assms(4,2,5,3), of 256 256]
    by (auto simp: acl_table_def C rc)
  show "last_cid C db' = last_cid C db"
    using make_keystr_not_cid [of 256 c p] by (auto simp: last_cid_def C)
  show "rc = LWFS_OK \<Longrightarrow> acl_table C db c p \<noteq> None" "rc = LWFS_ERR_NOENT \<Longrightarrow> acl_table C db c p = None"
    using del rc del_ok del_notfound by (auto simp: acl_table_def)
qed

text \<open>For any key, the ones of large container ids included, a table cell is the old one or the new value.\<close>

lemma put_acl_any:
  assumes "authr_db_put_acl B db c p us = (rc, db')"
  shows "acl_table C db' d q = acl_table C db d q \<or> acl_table C db' d q = Some us"
proof -
  obtain drc where put: "bdb_put B db True (make_keystr c p 16) (bytes_of_uids us) = (drc, db')"
    using assms by (auto simp: authr_db_put_acl_def split: prod.splits)
  show ?thesis by (auto simp: acl_table_def put_contents [OF put])
qed

lemma del_acl_any:
  assumes "authr_db_del_acl B db c p = (rc, db')"
  shows "acl_table C db' d q = acl_table C db d q \<or> acl_table C db' d q = None"
proof -
  obtain drc where del: "bdb_del B db (make_keystr c p 256) = (drc, db')"
    using assms by (auto simp: authr_db_del_acl_def split: prod.splits)
  show ?thesis by (auto simp: acl_table_def del_contents [OF del])
qed

text \<open>A put or a removal changes no cell but the one it names; a put only one that was empty.\<close>

lemma put_acl_change:
  assumes "authr_db_put_acl B db c p us = (rc, db')" "small_op p" "acl_table C db' d q \<noteq> acl_table C db d q"
  shows "(ucast c :: u32) = ucast d \<and> q = p \<and> acl_table C db d q = None"
proof -
  obtain drc where put: "bdb_put B db True (make_keystr c p 16) (bytes_of_uids us) = (drc, db')"
    using assms(1) by (auto simp: authr_db_put_acl_def split: prod.splits)
  note C = put_contents [OF put]
  have k: "make_keystr c p 16 = make_keystr d q 256" "drc = DB_OK"
    using assms(3) by (auto simp: acl_table_def C split: if_splits)
  from make_keystr_low32 [OF k(1) assms(2)] put_fresh [of db "make_keystr c p 16"] put k show ?thesis
    by (auto simp: acl_table_def)
qed

lemma del_acl_change:
  assumes "authr_db_del_acl B db c p = (rc, db')" "small_op p" "acl_table C db' d q \<noteq> acl_table C db d q"
  shows "(ucast c :: u32) = ucast d \<and> q = p \<and> acl_table C db' d q = None"
proof -
  obtain drc where del: "bdb_del B db (make_keystr c p 256) = (drc, db')"
    using assms by (auto simp: authr_db_del_acl_def split: prod.splits)
  note C = del_contents [OF del]
  have k: "make_keystr c p 256 = make_keystr d q 256" "drc = DB_OK"
    using assms(3) by (auto simp: acl_table_def C split: if_splits)
  from make_keystr_low32 [OF k(1) assms(2)] k show ?thesis by (simp add: acl_table_def C)
qed

lemma create_cid_table:
  assumes "create_cid B db = (rc, c, db')"
  shows "acl_table C db' d q = acl_table C db d q"
proof -
  obtain drc v where put: "bdb_put B db False ''cid'' v = (drc, db')"
    using assms by (auto simp: create_cid_def Let_def split: prod.splits)
  show ?thesis
    using make_keystr_not_cid [of 256 d q] by (simp add: acl_table_def put_contents [OF put])
qed

lemma create_fresh_cid_result:
  assumes "create_fresh_cid B db = Some (rc, c, db')"
  shows "acl_table C db' d q = acl_table C db d q"
    and "rc = LWFS_OK \<Longrightarrow> \<not> authr_db_container_exists B db' c"
proof -
  let ?P = "\<lambda>B' db r. B' = B \<longrightarrow> acl_table C (snd (snd r)) d q = acl_table C db d q \<and>
      (fst r = LWFS_OK \<longrightarrow> \<not> authr_db_container_exists B (snd (snd r)) (fst (snd r)))"
  have "?P B db (rc, c, db')"
  proof (rule create_fresh_cid.raw_induct [where P = ?P, OF _ assms])
    fix rec B' db r
    assume ih: "\<And>B' db r. rec B' db = Some r \<Longrightarrow> ?P B' db r"
      and body: "(case create_cid B' db of (rc, cid, db') \<Rightarrow>
          if rc \<noteq> LWFS_OK then Some (rc, cid, db')
          else if authr_db_container_exists B' db' cid then rec B' db'
          else Some (LWFS_OK, cid, db')) = Some r"
    show "?P B' db r"
    proof
      assume B': "B' = B"
      obtain rc c db' where cc: "create_cid B db = (rc, c, db')" by (metis prod_cases3)
      note tab = create_cid_table [OF cc, of d q]
      have run: "(if rc \<noteq> LWFS_OK then Some (rc, c, db')
          else if authr_db_container_exists B db' c then rec B db' else Some (LWFS_OK, c, db')) = Some r"
        using body by (simp only: B' cc prod.case)
      show "acl_table C (snd (snd r)) d q = acl_table C db d q \<and>
          (fst r = LWFS_OK \<longrightarrow> \<not> authr_db_container_exists B (snd (snd r)) (fst (snd r)))"
      proof (cases "rc = LWFS_OK \<and> authr_db_container_exists B db' c")
        case True
        with run have "rec B db' = Some r" by simp
        from ih [OF this] tab show ?thesis by simp
      next
        case False
        with run have "r = (rc, c, db')" by (cases "rc = LWFS_OK") simp_all
        with False tab show ?thesis by auto
      qed
    qed
  qed
  then show "acl_table C db' d q = acl_table C db d q"
    "rc = LWFS_OK \<Longrightarrow> \<not> authr_db_container_exists B db' c" by simp_all
qed

lemma container_exists_table: "authr_db_container_exists B db c \<Longrightarrow> acl_table C db c exist_op \<noteq> None"
  using get_acl_OK by (auto simp: authr_db_container_exists_def split: sum.splits)

end

locale acl_reliable = acl_store B C + bdb_reliable B C "\<lambda>_ _ _. True"
  for B :: "('db, string, u8 list) bdb" and C :: "'db \<Rightarrow> string \<Rightarrow> u8 list option"
begin

lemma get_acl_eq:
  "authr_db_get_acl B db c p =
     (case acl_table C db c p of None \<Rightarrow> Inl LWFS_ERR_NOENT | Some us \<Rightarrow> Inr us)"
  by (simp add: authr_db_get_acl_def acl_table_def get_eq split: option.splits)

lemma put_acl_rc:
  assumes "small_cid c" "small_op p"
  shows "fst (authr_db_put_acl B db c p us) = (if acl_table C db c p = None then LWFS_OK else LWFS_ERR_EXIST)"
proof (cases "bdb_put B db True (make_keystr c p 256) (bytes_of_uids us)")
  case (Pair drc db')
  then have "drc = (if C db (make_keystr c p 256) = None then DB_OK else DB_KEYEXIST)"
    using put_present [OF TrueI, of db "make_keystr c p 256"]
      put_absent [OF TrueI, of db "make_keystr c p 256"]
    by (metis fst_conv)
  with Pair assms show ?thesis by (simp add: authr_db_put_acl_def acl_table_def make_keystr_16)
qed

lemma del_acl_rc:
  "fst (authr_db_del_acl B db c p) = (if acl_table C db c p = None then LWFS_ERR_NOENT else LWFS_OK)"
proof (cases "bdb_del B db (make_keystr c p 256)")
  case (Pair drc db')
  then have "drc = (if C db (make_keystr c p 256) = None then DB_NOTFOUND else DB_OK)"
    using del_present [of db "make_keystr c p 256"] del_absent [of db "make_keystr c p 256"]
    by (metis fst_conv)
  with Pair show ?thesis by (simp add: authr_db_del_acl_def acl_table_def)
qed

lemma container_exists_eq: "authr_db_container_exists B db c \<longleftrightarrow> acl_table C db c exist_op \<noteq> None"
  by (auto simp: authr_db_container_exists_def get_acl_eq split: option.splits)

lemma create_cid_eq:
  assumes "create_cid B db = (rc, c, db')"
  shows "rc = LWFS_OK" "c = last_cid C db + 1" "last_cid C db' = c"
    "k \<noteq> ''cid'' \<Longrightarrow> C db' k = C db k" "acl_table C db' d q = acl_table C db d q"
proof -
  have get: "(case bdb_get B db ''cid'' of Inl rc \<Rightarrow> 0 | Inr data \<Rightarrow> le_word (take 8 data)) = last_cid C db"
    by (simp add: last_cid_def get_eq split: option.splits)
  obtain drc where put: "bdb_put B db False ''cid'' (le_bytes 8 (last_cid C db + 1)) = (drc, db')"
    and rc: "drc = DB_OK \<Longrightarrow> rc = LWFS_OK" and c: "c = last_cid C db + 1"
    using assms by (auto simp: create_cid_def get Let_def split: prod.splits db_rc.splits)
  have "drc = DB_OK"
    using put_overwrite [of db "''cid''" "le_bytes 8 (last_cid C db + 1)"] put by simp
  then have C: "C db' = (C db)(''cid'' \<mapsto> le_bytes 8 (last_cid C db + 1))" and "rc = LWFS_OK"
    using put_contents [OF put] rc by auto
  then show "rc = LWFS_OK" "k \<noteq> ''cid'' \<Longrightarrow> C db' k = C db k" "c = last_cid C db + 1"
    using c by auto
  show "last_cid C db' = c" by (simp add: last_cid_def C c le_word_le_bytes)
  show "acl_table C db' d q = acl_table C db d q"
    using make_keystr_not_cid [of 256 d q] by (simp add: acl_table_def C)
qed

text \<open>The loop ends at the first unused id after the counter.\<close>

lemma create_fresh_cid_returns:
  "acl_table C db (last_cid C db + 1 + of_nat n) exist_op = None \<Longrightarrow>
   \<exists>c db'. create_fresh_cid B db = Some (LWFS_OK, c, db') \<and> last_cid C db' = c \<and>
     acl_table C db c exist_op = None \<and> (\<forall>d q. acl_table C db' d q = acl_table C db d q) \<and>
     (\<exists>m\<le>n. c = last_cid C db + 1 + of_nat m)"
proof (induction n arbitrary: db)
  case (0 db)
  obtain rc c db' where cc: "create_cid B db = (rc, c, db')" by (metis prod_cases3)
  note eq = create_cid_eq [OF cc]
  have "\<not> authr_db_container_exists B db' c" using 0 eq by (simp add: container_exists_eq)
  then have "create_fresh_cid B db = Some (LWFS_OK, c, db')"
    by (subst create_fresh_cid.simps) (simp add: cc eq(1))
  with 0 eq show ?case by auto
next
  case (Suc n db)
  obtain rc c db' where cc: "create_cid B db = (rc, c, db')" by (metis prod_cases3)
  note eq = create_cid_eq [OF cc]
  show ?case
  proof (cases "acl_table C db c exist_op = None")
    case True
    then have "create_fresh_cid B db = Some (LWFS_OK, c, db')"
      by (subst create_fresh_cid.simps) (simp add: cc eq container_exists_eq)
    with True eq show ?thesis by (intro exI [of _ c] exI [of _ db']) auto
  next
    case False
    then have step: "create_fresh_cid B db = create_fresh_cid B db'"
      by (subst create_fresh_cid.simps) (simp add: cc eq container_exists_eq)
    have "acl_table C db' (last_cid C db' + 1 + of_nat n) exist_op = None"
      using Suc.prems eq by (simp add: algebra_simps)
    from Suc.IH [OF this] obtain c2 db2 m where
      ih: "create_fresh_cid B db' = Some (LWFS_OK, c2, db2)" "last_cid C db2 = c2"
      "acl_table C db' c2 exist_op = None" "\<forall>d q. acl_table C db2 d q = acl_table C db' d q"
      "m \<le> n" "c2 = last_cid C db' + 1 + of_nat m" by auto
    have "c2 = last_cid C db + 1 + of_nat (Suc m)" using ih(6) eq by (simp add: algebra_simps)
    then have "\<exists>m\<le>Suc n. c2 = last_cid C db + 1 + of_nat m" using ih(5) by blast
    with ih(1-4) step eq(5) show ?thesis by (intro exI [of _ c2] exI [of _ db2]) simp
  qed
qed

end

interpretation mem_acl: acl_reliable mem_bdb "\<lambda>db. db"
  by unfold_locales

end
