(* ===== verification/Authr_Server.thy ===== *)
theory Authr_Server imports Authr_Uids Authr_Cap Authr_Db begin

section \<open>The authorization server\<close>

text \<open>
  The handlers of \<^verbatim>\<open>server/authr_server/authr_server.c\<close>. The static variables of
  that file are the fields of \<open>authr_state\<close>; what is not in the repository (Berkeley DB, the
  HMAC of OpenSSL, the allocator) and what the build decides (the data model) are the fields of
  \<open>authr_env\<close>. \<^verbatim>\<open>acl_db\<close> is a null pointer until \<^verbatim>\<open>authr_db_init\<close>
  opens it: \<open>None\<close>. A handler returns \<open>None\<close> where the C code has no defined return: it
  follows that null pointer, or the loop that draws container ids does not end. One call of a
  handler is one step; the tracing and the logging are left out. The counters of the statistics, which no
  operation reads, are \<^verbatim>\<open>long\<close> in C and have no bound here.
\<close>

record authr_counters =
  n_create :: int
  n_remove :: int
  n_getacl :: int
  n_modacl :: int
  n_getcap :: int
  n_verify :: int

record 'db authr_state =
  acl_db :: "'db option"
  authr_svc_key :: lwfs_key
  acl_db_enabled :: bool
  caps_enabled :: bool
  creds_enabled :: bool
  authr_counter :: authr_counters

record 'db authr_env =
  db_api :: "'db acl_bdb"
  hmac_sha1 :: hmac
  build_cfg :: build
  can_realloc :: "nat \<Rightarrow> bool"

subsection \<open>The checks\<close>

fun check_perm_ops ::
  "'db authr_env \<Rightarrow> 'db \<Rightarrow> lwfs_cid \<Rightarrow> lwfs_container_op \<Rightarrow> lwfs_uid \<Rightarrow> lwfs_container_op list \<Rightarrow>
     lwfs_return_code" where
  "check_perm_ops E db c op u [] = LWFS_OK"
| "check_perm_ops E db c op u (testop # rest) =
     (if testop = LWFS_CONTAINER_CREATE then check_perm_ops E db c op u rest
      else if op AND testop \<noteq> 0 then
        (case authr_db_get_acl (db_api E) db c testop of
           Inl rc \<Rightarrow> rc
         | Inr acl \<Rightarrow>
             (case bsearch (acl_compare (build_cfg E)) u acl of
                None \<Rightarrow> LWFS_ERR_ACCESS
              | Some found \<Rightarrow> check_perm_ops E db c op u rest))
      else check_perm_ops E db c op u rest)"

definition check_perm ::
  "'db authr_env \<Rightarrow> 'db authr_state \<Rightarrow> lwfs_cid \<Rightarrow> lwfs_container_op \<Rightarrow> lwfs_uid \<Rightarrow>
     lwfs_return_code option" where
  "check_perm E st c op u =
     (if acl_db_enabled st then
        (case acl_db st of
           None \<Rightarrow> None
         | Some db \<Rightarrow> Some (check_perm_ops E db c op u container_ops))
      else Some LWFS_OK)"

definition check_cred :: "'db authr_state \<Rightarrow> lwfs_cred \<Rightarrow> lwfs_return_code" where
  "check_cred st cr = (if creds_enabled st then LWFS_ERR_NOTSUPP else LWFS_OK)"

definition check_cap :: "'db authr_env \<Rightarrow> 'db authr_state \<Rightarrow> lwfs_cap \<Rightarrow> lwfs_return_code" where
  "check_cap E st cap =
     (if caps_enabled st then verify_cap (hmac_sha1 E) (authr_svc_key st) cap else LWFS_OK)"

abbreviation cap_cred :: "lwfs_cap \<Rightarrow> lwfs_cred" where "cap_cred cap \<equiv> cred (cap_data cap)"
abbreviation cap_uid :: "lwfs_cap \<Rightarrow> lwfs_uid" where "cap_uid cap \<equiv> uid (cred_data (cap_cred cap))"

definition check_authorization ::
  "'db authr_env \<Rightarrow> 'db authr_state \<Rightarrow> lwfs_cid \<Rightarrow> lwfs_container_op \<Rightarrow> lwfs_cap \<Rightarrow>
     lwfs_return_code option" where
  "check_authorization E st c op cap =
     (if cid (cap_data cap) \<noteq> c then Some LWFS_ERR_VERIFYCAP
      else if op AND container_op (cap_data cap) = 0 then Some LWFS_ERR_VERIFYCAP
      else if check_cred st (cap_cred cap) \<noteq> LWFS_OK then Some (check_cred st (cap_cred cap))
      else if check_cap E st cap \<noteq> LWFS_OK then Some (check_cap E st cap)
      else check_perm E st c op (cap_uid cap))"

subsection \<open>Starting the server\<close>

text \<open>
  \<^verbatim>\<open>authr_db_init\<close> returns the codes of Berkeley DB and of \<^verbatim>\<open>remove\<close>
  as they are; when the handle could not be created, the error path closes it all the same, and there is no defined
  return. \<open>db_create_rc\<close>, \<open>remove_rc\<close> (with \<open>remove_enoent\<close> for
  \<^verbatim>\<open>errno == ENOENT\<close>) and \<open>open_db\<close> are the results of the library calls;
  \<open>open_db\<close> is told whether the file was removed before.
\<close>

record 'db authr_db_calls =
  db_create_rc :: int
  remove_rc :: int
  remove_enoent :: bool
  open_db :: "bool \<Rightarrow> int + 'db"

definition authr_db_init :: "'db authr_db_calls \<Rightarrow> bool \<Rightarrow> (int + 'db) option" where
  "authr_db_init L dbclear =
     (if db_create_rc L \<noteq> 0 then None
      else if dbclear \<and> remove_rc L \<noteq> 0 \<and> \<not> remove_enoent L then Some (Inl (remove_rc L))
      else Some (open_db L dbclear))"

definition authr_db_fini :: "int \<Rightarrow> lwfs_return_code" where
  "authr_db_fini close_rc = (if close_rc \<noteq> 0 then LWFS_ERR_SEC else LWFS_OK)"

datatype authr_init_rc = Init_rc lwfs_return_code | Init_db_rc int

text \<open>The RPC library's calls and the random generator are arguments.\<close>

record authr_rpc_calls =
  rpc_init_rc :: lwfs_return_code
  service_init_rc :: lwfs_return_code
  add_ops_rc :: "nat \<Rightarrow> lwfs_return_code"
  rand_bytes :: "nat \<Rightarrow> int \<times> u8 list"

definition zero_counters :: authr_counters where
  "zero_counters = \<lparr>n_create = 0, n_remove = 0, n_getacl = 0, n_modacl = 0, n_getcap = 0, n_verify = 0\<rparr>"

definition lwfs_authr_srvr_init ::
  "authr_rpc_calls \<Rightarrow> 'db authr_db_calls \<Rightarrow> bool \<Rightarrow> bool \<Rightarrow> 'db authr_state \<Rightarrow>
     (authr_init_rc \<times> 'db authr_state) option" where
  "lwfs_authr_srvr_init R L verify_caps db_clear st0 =
     (let st = st0\<lparr>acl_db_enabled := verify_caps, caps_enabled := verify_caps, creds_enabled := False,
                   authr_counter := zero_counters\<rparr> in
      if rpc_init_rc R \<noteq> LWFS_OK then Some (Init_rc (rpc_init_rc R), st)
      else if service_init_rc R \<noteq> LWFS_OK then Some (Init_rc (service_init_rc R), st)
      else if add_ops_rc R 7 \<noteq> LWFS_OK then Some (Init_rc (add_ops_rc R 7), st)
      else let (rc, key) = generate_cap_key (rand_bytes R); st = st\<lparr>authr_svc_key := key\<rparr> in
        if rc \<noteq> LWFS_OK then Some (Init_rc rc, st)
        else if acl_db_enabled st then
          (case authr_db_init L db_clear of
             None \<Rightarrow> None
           | Some (Inl rc) \<Rightarrow> Some (Init_db_rc rc, st)
           | Some (Inr db) \<Rightarrow> Some (Init_rc LWFS_OK, st\<lparr>acl_db := Some db\<rparr>))
        else Some (Init_rc LWFS_OK, st))"

text \<open>The statistics printed at the end are not modelled.\<close>

definition lwfs_authr_srvr_fini :: "int \<Rightarrow> lwfs_return_code \<Rightarrow> lwfs_return_code \<Rightarrow> lwfs_return_code" where
  "lwfs_authr_srvr_fini close_rc service_fini_rc rpc_fini_rc =
     (if authr_db_fini close_rc \<noteq> LWFS_OK then authr_db_fini close_rc
      else if service_fini_rc \<noteq> LWFS_OK then service_fini_rc
      else rpc_fini_rc)"

subsection \<open>The handlers\<close>

text \<open>The loop that stores the initial access-control lists of a container.\<close>

fun put_initial_acls ::
  "'db acl_bdb \<Rightarrow> 'db \<Rightarrow> lwfs_cid \<Rightarrow> lwfs_container_op \<Rightarrow> lwfs_uid \<Rightarrow> lwfs_container_op list \<Rightarrow>
     lwfs_return_code \<times> 'db" where
  "put_initial_acls B db c op u [] = (LWFS_OK, db)"
| "put_initial_acls B db c op u (testop # rest) =
     (let (rc, db') = authr_db_put_acl B db c testop (if testop AND op \<noteq> 0 then [u] else []) in
      if rc \<noteq> LWFS_OK then (rc, db') else put_initial_acls B db' c op u rest)"

definition owner_ops :: lwfs_container_op where
  "owner_ops = LWFS_CONTAINER_MODACL OR LWFS_CONTAINER_REMOVE OR LWFS_CONTAINER_READ"

definition create_container ::
  "'db authr_env \<Rightarrow> 'db authr_state \<Rightarrow> lwfs_cid \<Rightarrow> lwfs_cap \<Rightarrow>
     ((lwfs_return_code + lwfs_cap) \<times> 'db authr_state) option" where
  "create_container E st0 c cap =
     (let st = st0\<lparr>authr_counter := (authr_counter st0)\<lparr>n_create := n_create (authr_counter st0) + 1\<rparr>\<rparr>;
          cr = cap_cred cap in
      case acl_db st of
        None \<Rightarrow> None
      | Some db \<Rightarrow>
          (case authr_db_create_container (db_api E) db c of
             None \<Rightarrow> None
           | Some (rc, c', db1) \<Rightarrow>
               if rc \<noteq> LWFS_OK then Some (Inl rc, st\<lparr>acl_db := Some db1\<rparr>)
               else let data = \<lparr>cid = c', container_op = owner_ops, cred = cr\<rparr>;
                        (rc, db2) =
                          (if acl_db_enabled st
                           then put_initial_acls (db_api E) db1 c' owner_ops (uid (cred_data cr)) container_ops
                           else (LWFS_OK, db1)) in
                 if rc \<noteq> LWFS_OK then Some (Inl rc, st\<lparr>acl_db := Some db2\<rparr>)
                 else let (rc, result) = generate_cap (hmac_sha1 E) (authr_svc_key st) data in
                   Some (if rc \<noteq> LWFS_OK then Inl rc else Inr result, st\<lparr>acl_db := Some db2\<rparr>)))"

fun del_acls ::
  "'db acl_bdb \<Rightarrow> 'db \<Rightarrow> lwfs_cid \<Rightarrow> lwfs_container_op list \<Rightarrow> lwfs_return_code \<times> 'db" where
  "del_acls B db c [] = (LWFS_OK, db)"
| "del_acls B db c (testop # rest) =
     (let (rc, db') = authr_db_del_acl B db c testop in
      if rc = LWFS_OK \<or> rc = LWFS_ERR_NOENT then del_acls B db' c rest else (rc, db'))"

definition remove_container ::
  "'db authr_env \<Rightarrow> 'db authr_state \<Rightarrow> lwfs_cid \<Rightarrow> lwfs_cap \<Rightarrow>
     (lwfs_return_code \<times> 'db authr_state) option" where
  "remove_container E st0 c cap =
     (let st = st0\<lparr>authr_counter := (authr_counter st0)\<lparr>n_remove := n_remove (authr_counter st0) + 1\<rparr>\<rparr> in
      case check_authorization E st c LWFS_CONTAINER_REMOVE cap of
        None \<Rightarrow> None
      | Some rc \<Rightarrow>
          if rc \<noteq> LWFS_OK then Some (rc, st)
          else (case acl_db st of
            None \<Rightarrow> None
          | Some db \<Rightarrow>
              let (rc, db1) = del_acls (db_api E) db c container_ops in
              if rc \<noteq> LWFS_OK then Some (rc, st\<lparr>acl_db := Some db1\<rparr>)
              else let (rc, db2) = authr_db_remove_container (db_api E) db1 c in
                Some (rc, st\<lparr>acl_db := Some db2\<rparr>)))"

definition get_acl ::
  "'db authr_env \<Rightarrow> 'db authr_state \<Rightarrow> lwfs_cid \<Rightarrow> lwfs_container_op \<Rightarrow> lwfs_cap \<Rightarrow>
     ((lwfs_return_code + lwfs_uid list) \<times> 'db authr_state) option" where
  "get_acl E st0 c op cap =
     (let st = st0\<lparr>authr_counter := (authr_counter st0)\<lparr>n_getacl := n_getacl (authr_counter st0) + 1\<rparr>\<rparr> in
      case check_authorization E st c LWFS_CONTAINER_READ cap of
        None \<Rightarrow> None
      | Some rc \<Rightarrow>
          if rc \<noteq> LWFS_OK then Some (Inl rc, st)
          else (case acl_db st of
            None \<Rightarrow> None
          | Some db \<Rightarrow> Some (authr_db_get_acl (db_api E) db c op, st)))"

text \<open>
  The loop of \<^verbatim>\<open>mod_acl\<close>. \<^verbatim>\<open>remove_uids\<close> sorts the caller's
  \<open>unset\<close> array in place, so the later rounds see the array it left.
\<close>

fun mod_acl_ops ::
  "'db authr_env \<Rightarrow> 'db \<Rightarrow> lwfs_cid \<Rightarrow> lwfs_container_op \<Rightarrow> lwfs_uid list option \<Rightarrow>
     lwfs_uid list option \<Rightarrow> lwfs_container_op list \<Rightarrow> lwfs_return_code \<times> 'db" where
  "mod_acl_ops E db c op toset unset [] = (LWFS_OK, db)"
| "mod_acl_ops E db c op toset unset (testop # rest) =
     (if testop AND op \<noteq> 0 then
        (case authr_db_get_acl (db_api E) db c testop of
           Inl rc \<Rightarrow> (rc, db)
         | Inr orig \<Rightarrow>
             (case (case toset of None \<Rightarrow> Inr orig
                    | Some us \<Rightarrow> add_uids (build_cfg E) (can_realloc E) orig us) of
                Inl rc \<Rightarrow> (rc, db)
              | Inr added \<Rightarrow>
                  let (result, unset') =
                        (case unset of None \<Rightarrow> (added, None)
                         | Some us \<Rightarrow> map_prod id Some (remove_uids (build_cfg E) added us));
                      (rc, db1) = authr_db_del_acl (db_api E) db c testop in
                  if rc \<noteq> LWFS_OK then (rc, db1)
                  else let (rc, db2) = authr_db_put_acl (db_api E) db1 c testop result in
                    if rc \<noteq> LWFS_OK then (rc, db2)
                    else mod_acl_ops E db2 c op toset unset' rest))
      else mod_acl_ops E db c op toset unset rest)"

definition mod_acl ::
  "'db authr_env \<Rightarrow> 'db authr_state \<Rightarrow> lwfs_cid \<Rightarrow> lwfs_container_op \<Rightarrow> lwfs_uid list option \<Rightarrow>
     lwfs_uid list option \<Rightarrow> lwfs_cap \<Rightarrow> (lwfs_return_code \<times> 'db authr_state) option" where
  "mod_acl E st0 c op toset unset cap =
     (let st = st0\<lparr>authr_counter := (authr_counter st0)\<lparr>n_modacl := n_modacl (authr_counter st0) + 2\<rparr>\<rparr> in
      case check_authorization E st c LWFS_CONTAINER_MODACL cap of
        None \<Rightarrow> None
      | Some rc \<Rightarrow>
          if rc \<noteq> LWFS_OK then Some (rc, st)
          else if acl_db_enabled st then
            (case acl_db st of
               None \<Rightarrow> None
             | Some db \<Rightarrow>
                 let (rc, db') = mod_acl_ops E db c op toset unset container_ops in
                 Some (rc, st\<lparr>acl_db := Some db'\<rparr>))
          else Some (LWFS_OK, st))"

definition get_cap ::
  "'db authr_env \<Rightarrow> 'db authr_state \<Rightarrow> lwfs_cid \<Rightarrow> lwfs_container_op \<Rightarrow> lwfs_cred \<Rightarrow>
     ((lwfs_return_code + lwfs_cap) \<times> 'db authr_state) option" where
  "get_cap E st0 c op cr =
     (let st = st0\<lparr>authr_counter := (authr_counter st0)\<lparr>n_getcap := n_getcap (authr_counter st0) + 2\<rparr>\<rparr> in
      if check_cred st cr \<noteq> LWFS_OK then Some (Inl (check_cred st cr), st)
      else (case check_perm E st c op (uid (cred_data cr)) of
        None \<Rightarrow> None
      | Some rc \<Rightarrow>
          if rc \<noteq> LWFS_OK then Some (Inl rc, st)
          else let (rc, result) = generate_cap (hmac_sha1 E) (authr_svc_key st)
                     \<lparr>cid = c, container_op = op, cred = cr\<rparr> in
            Some (if rc \<noteq> LWFS_OK then Inl rc else Inr result, st)))"

fun verify_cap_list ::
  "'db authr_env \<Rightarrow> 'db authr_state \<Rightarrow> lwfs_cap list \<Rightarrow> lwfs_return_code option" where
  "verify_cap_list E st [] = Some LWFS_OK"
| "verify_cap_list E st (cap # caps) =
     (if check_cred st (cap_cred cap) \<noteq> LWFS_OK then Some (check_cred st (cap_cred cap))
      else if check_cap E st cap \<noteq> LWFS_OK then Some (check_cap E st cap)
      else (case check_perm E st (cid (cap_data cap)) (container_op (cap_data cap)) (cap_uid cap) of
        None \<Rightarrow> None
      | Some rc \<Rightarrow> if rc \<noteq> LWFS_OK then Some rc else verify_cap_list E st caps))"

definition verify_caps ::
  "'db authr_env \<Rightarrow> 'db authr_state \<Rightarrow> lwfs_cap list \<Rightarrow>
     (lwfs_return_code \<times> 'db authr_state) option" where
  "verify_caps E st0 caps =
     (let st = st0\<lparr>authr_counter := (authr_counter st0)\<lparr>n_verify := n_verify (authr_counter st0) + 1\<rparr>\<rparr> in
      map_option (\<lambda>rc. (rc, st)) (verify_cap_list E st caps))"

subsection \<open>Requests\<close>

text \<open>The operations of \<^verbatim>\<open>op_array\<close>, and the handler each is bound to.\<close>

datatype authr_request =
    Create_Container lwfs_cid lwfs_cap
  | Remove_Container lwfs_cid lwfs_cap
  | Get_Acl lwfs_cid lwfs_container_op lwfs_cap
  | Mod_Acl lwfs_cid lwfs_container_op "lwfs_uid list option" "lwfs_uid list option" lwfs_cap
  | Get_Cap lwfs_cid lwfs_container_op lwfs_cred
  | Verify_Caps "lwfs_cap list"

datatype authr_response =
    Cap_Response "lwfs_return_code + lwfs_cap"
  | Void_Response lwfs_return_code
  | Acl_Response "lwfs_return_code + lwfs_uid list"

fun authr_dispatch ::
  "'db authr_env \<Rightarrow> 'db authr_state \<Rightarrow> authr_request \<Rightarrow> (authr_response \<times> 'db authr_state) option" where
  "authr_dispatch E st (Create_Container c cap) =
     map_option (map_prod Cap_Response id) (create_container E st c cap)"
| "authr_dispatch E st (Remove_Container c cap) =
     map_option (map_prod Void_Response id) (remove_container E st c cap)"
| "authr_dispatch E st (Get_Acl c op cap) =
     map_option (map_prod Acl_Response id) (get_acl E st c op cap)"
| "authr_dispatch E st (Mod_Acl c op toset unset cap) =
     map_option (map_prod Void_Response id) (mod_acl E st c op toset unset cap)"
| "authr_dispatch E st (Get_Cap c op cr) =
     map_option (map_prod Cap_Response id) (get_cap E st c op cr)"
| "authr_dispatch E st (Verify_Caps caps) =
     map_option (map_prod Void_Response id) (verify_caps E st caps)"

end
