(* ===== verification/Authr_Security.thy ===== *)
theory Authr_Security imports Authr_Server begin

section \<open>What the authorization server guarantees\<close>

text \<open>
  The access-control matrix of a database, the lemmas that relate every loop and handler of
  the server to it, and the invariant of the stored lists. The lemmas of \<open>authr_store\<close> need
  only the documented behaviour of the database; those of \<open>authr_ilp32\<close> also need a build whose
  \<^verbatim>\<open>long\<close> has 32 bits, where \<^verbatim>\<open>compare_uids\<close> is an order.
\<close>

subsection \<open>The access-control matrix\<close>

text \<open>User \<open>u\<close> is in the list of every operation bit of \<open>op\<close> that \<^verbatim>\<open>check_perm\<close> looks at.\<close>

definition acl_permits ::
  "('db \<Rightarrow> string \<Rightarrow> u8 list option) \<Rightarrow> 'db \<Rightarrow> lwfs_cid \<Rightarrow> lwfs_container_op \<Rightarrow> lwfs_uid \<Rightarrow> bool" where
  "acl_permits C db c op u \<longleftrightarrow>
     (\<forall>t\<in>set container_ops. t \<noteq> LWFS_CONTAINER_CREATE \<longrightarrow> op AND t \<noteq> 0 \<longrightarrow>
        (\<exists>us. acl_table C db c t = Some us \<and> u \<in> set us))"

definition st_permits ::
  "('db \<Rightarrow> string \<Rightarrow> u8 list option) \<Rightarrow> 'db authr_state \<Rightarrow> lwfs_cid \<Rightarrow> lwfs_container_op \<Rightarrow> lwfs_uid \<Rightarrow> bool" where
  "st_permits C st c op u \<longleftrightarrow>
     (acl_db_enabled st \<longrightarrow> (\<exists>db. acl_db st = Some db \<and> acl_permits C db c op u))"

text \<open>The capability carries the MAC of its data under the server's key.\<close>

definition cap_authentic :: "'db authr_env \<Rightarrow> 'db authr_state \<Rightarrow> lwfs_cap \<Rightarrow> bool" where
  "cap_authentic E st cap \<longleftrightarrow>
     (caps_enabled st \<longrightarrow> cap_mac cap = hmac_sha1 E (authr_svc_key st) (cap_data_image (cap_data cap)))"

text \<open>Every stored list is sorted, without duplicates and without the mark.\<close>

definition acl_wf :: "('db \<Rightarrow> string \<Rightarrow> u8 list option) \<Rightarrow> 'db \<Rightarrow> bool" where
  "acl_wf C db \<longleftrightarrow> (\<forall>c t us. acl_table C db c t = Some us \<longrightarrow> acl_ok us)"

lemma acl_compare_eq_0: "acl_compare cfg a b = 0 \<longleftrightarrow> a = b"
  by (simp add: acl_compare_def compare_uids_reverse_def compare_uids_eq_0)

lemma search_mem: "bsearch (acl_compare cfg) u us = Some i \<Longrightarrow> u \<in> set us"
proof -
  assume "bsearch (acl_compare cfg) u us = Some i"
  from bsearch_sound [OF this] have "i < length us" "u = us ! i" by (simp_all add: acl_compare_eq_0)
  then show ?thesis by simp
qed

lemma acl_wf_acl_ok: "acl_wf C db \<Longrightarrow> acl_table C db c t = Some us \<Longrightarrow> acl_ok us"
  unfolding acl_wf_def by blast

lemma small_container_op: "t \<in> set container_ops \<Longrightarrow> small_op t"
  by (simp add: small_op_def)

lemma check_cap_OK: "check_cap E st cap = LWFS_OK \<longleftrightarrow> cap_authentic E st cap"
  by (auto simp: check_cap_def cap_authentic_def verify_cap_eq)

lemma check_cred_OK: "check_cred st cr = LWFS_OK \<longleftrightarrow> \<not> creds_enabled st"
  by (simp add: check_cred_def)

definition uids_of :: "lwfs_uid list option \<Rightarrow> lwfs_uid set" where
  "uids_of l = (case l of None \<Rightarrow> {} | Some us \<Rightarrow> set us)"

subsection \<open>The checks, for every build\<close>

locale authr_store = acl_store "db_api E" C
  for E :: "'db authr_env" and C :: "'db \<Rightarrow> string \<Rightarrow> u8 list option"
begin

lemma acl_wf_put:
  "authr_db_put_acl (db_api E) db c t us = (rc, db') \<Longrightarrow> acl_wf C db \<Longrightarrow> acl_ok us \<Longrightarrow> acl_wf C db'"
  using put_acl_any unfolding acl_wf_def by (metis option.inject)

lemma acl_wf_del:
  "authr_db_del_acl (db_api E) db c t = (rc, db') \<Longrightarrow> acl_wf C db \<Longrightarrow> acl_wf C db'"
  using del_acl_any unfolding acl_wf_def by (metis option.distinct(1))

lemma check_perm_ops_Cons:
  "check_perm_ops E db c op u (t # ts) = LWFS_OK \<longleftrightarrow>
     (t \<noteq> LWFS_CONTAINER_CREATE \<longrightarrow> op AND t \<noteq> 0 \<longrightarrow>
        (\<exists>us. authr_db_get_acl (db_api E) db c t = Inr us \<and>
              bsearch (acl_compare (build_cfg E)) u us \<noteq> None)) \<and>
     check_perm_ops E db c op u ts = LWFS_OK"
proof (cases "authr_db_get_acl (db_api E) db c t")
  case (Inl rc)
  then have "rc = LWFS_ERR_NOENT" by (rule get_acl_err)
  with Inl show ?thesis by simp
next
  case (Inr us)
  then show ?thesis by (cases "bsearch (acl_compare (build_cfg E)) u us") simp_all
qed

lemma check_perm_ops_sound:
  "check_perm_ops E db c op u ts = LWFS_OK \<Longrightarrow> t \<in> set ts \<Longrightarrow> t \<noteq> LWFS_CONTAINER_CREATE \<Longrightarrow>
   op AND t \<noteq> 0 \<Longrightarrow> \<exists>us. acl_table C db c t = Some us \<and> u \<in> set us"
proof (induction ts)
  case (Cons s ts)
  show ?case
  proof (cases "s = t")
    case True
    with Cons.prems obtain us i where
      "authr_db_get_acl (db_api E) db c t = Inr us" "bsearch (acl_compare (build_cfg E)) u us = Some i"
      unfolding check_perm_ops_Cons by blast
    then show ?thesis using get_acl_OK search_mem by blast
  next
    case False
    with Cons show ?thesis unfolding check_perm_ops_Cons by simp
  qed
qed simp

lemma check_perm_sound: "check_perm E st c op u = Some LWFS_OK \<Longrightarrow> st_permits C st c op u"
  using check_perm_ops_sound
  by (auto simp: check_perm_def st_permits_def acl_permits_def split: if_splits option.splits)

lemma authorization_checked:
  assumes "check_authorization E st c op cap = Some LWFS_OK"
  shows "cid (cap_data cap) = c" "op AND container_op (cap_data cap) \<noteq> 0" "\<not> creds_enabled st"
    "cap_authentic E st cap" "st_permits C st c op (cap_uid cap)"
  using assms check_perm_sound
  by (auto simp: check_authorization_def check_cred_OK check_cap_OK split: if_splits)

lemma verify_cap_list_sound:
  "verify_cap_list E st caps = Some LWFS_OK \<Longrightarrow> cap \<in> set caps \<Longrightarrow>
   \<not> creds_enabled st \<and> cap_authentic E st cap \<and>
   st_permits C st (cid (cap_data cap)) (container_op (cap_data cap)) (cap_uid cap)"
proof (induction caps)
  case (Cons a caps)
  then have "check_cred st (cap_cred a) = LWFS_OK" "check_cap E st a = LWFS_OK"
    "check_perm E st (cid (cap_data a)) (container_op (cap_data a)) (cap_uid a) = Some LWFS_OK"
    "verify_cap_list E st caps = Some LWFS_OK"
    by (auto split: if_splits option.splits)
  with Cons show ?case by (auto simp: check_cred_OK check_cap_OK dest: check_perm_sound)
qed simp

end

subsection \<open>The checks, where the comparison is an order\<close>

locale authr_ilp32 = authr_store E C
  for E :: "'db authr_env" and C :: "'db \<Rightarrow> string \<Rightarrow> u8 list option" +
  assumes ilp32: "long_model (build_cfg E) = ILP32" and no_cray: "\<not> have_cray_portals (build_cfg E)"
begin

lemmas compare_ILP32 = acl_compare_ILP32 [OF ilp32 no_cray]

lemma search_acl:
  "acl_ok us \<Longrightarrow> ordered_uid u \<Longrightarrow> bsearch (acl_compare (build_cfg E)) u us \<noteq> None \<longleftrightarrow> u \<in> set us"
  unfolding compare_ILP32 by (rule ilp32.bsearch_iff_mem) (auto simp: acl_ok_def)

lemma check_perm_ops_complete:
  assumes "acl_wf C db" "ordered_uid u"
  shows "set ts \<subseteq> set container_ops \<Longrightarrow>
    \<forall>t\<in>set ts. t \<noteq> LWFS_CONTAINER_CREATE \<longrightarrow> op AND t \<noteq> 0 \<longrightarrow>
      (\<exists>us. authr_db_get_acl (db_api E) db c t = Inr us \<and> u \<in> set us) \<Longrightarrow>
    check_perm_ops E db c op u ts = LWFS_OK"
proof (induction ts)
  case (Cons t ts)
  then have rest: "check_perm_ops E db c op u ts = LWFS_OK" by simp
  have "\<exists>us. authr_db_get_acl (db_api E) db c t = Inr us \<and>
      bsearch (acl_compare (build_cfg E)) u us \<noteq> None"
    if bit: "t \<noteq> LWFS_CONTAINER_CREATE" "op AND t \<noteq> 0"
  proof -
    obtain us where us: "authr_db_get_acl (db_api E) db c t = Inr us" "u \<in> set us"
      using bit Cons.prems by auto
    moreover have "acl_ok us"
      by (rule acl_wf_acl_ok [OF assms(1) get_acl_OK [OF us(1)]])
    ultimately show ?thesis using search_acl [OF _ assms(2)] by blast
  qed
  with rest show ?case unfolding check_perm_ops_Cons by blast
qed simp

text \<open>One round of \<^verbatim>\<open>mod_acl\<close> on one list, and the loop.\<close>

lemma add_remove_round:
  assumes orig: "acl_ok orig"
    and toset: "\<forall>u\<in>uids_of toset. ordered_uid u \<and> u \<noteq> inf_uid"
    and unset: "\<forall>u\<in>uids_of unset. ordered_uid u"
    and add: "(case toset of None \<Rightarrow> Inr orig
        | Some us \<Rightarrow> add_uids (build_cfg E) (can_realloc E) orig us) = Inr added"
    and remove: "(case unset of None \<Rightarrow> (added, None)
        | Some us \<Rightarrow> map_prod id Some (remove_uids (build_cfg E) added us)) = (result, unset')"
  shows "acl_ok result" "set result = (set orig \<union> uids_of toset) - uids_of unset"
    "uids_of unset' = uids_of unset"
proof -
  have orig_uids: "\<forall>u\<in>set orig. ordered_uid u \<and> u \<noteq> inf_uid" using orig by (simp add: acl_ok_def)
  have added: "acl_ok added \<and> set added = set orig \<union> uids_of toset"
  proof (cases toset)
    case None
    with add orig show ?thesis by (simp add: uids_of_def)
  next
    case (Some us)
    then have all: "\<forall>u\<in>set orig \<union> set us. ordered_uid u \<and> u \<noteq> inf_uid"
      using toset orig_uids by (auto simp: uids_of_def)
    have res: "add_uids (build_cfg E) (can_realloc E) orig us = Inr added"
      using add Some by simp
    show ?thesis using add_uids_ILP32 [OF ilp32 no_cray all res] Some by (simp add: uids_of_def)
  qed
  then have added_uids: "\<forall>u\<in>set added. ordered_uid u \<and> u \<noteq> inf_uid" by (simp add: acl_ok_def)
  have "acl_ok result \<and> set result = set added - uids_of unset \<and> uids_of unset' = uids_of unset"
  proof (cases unset)
    case None
    with remove added show ?thesis by (simp add: uids_of_def)
  next
    case (Some us)
    then obtain us' where us': "remove_uids (build_cfg E) added us = (result, us')" "unset' = Some us'"
      using remove by (cases "remove_uids (build_cfg E) added us") auto
    have "\<forall>u\<in>set us. ordered_uid u" using Some unset by (simp add: uids_of_def)
    from remove_uids_ILP32 [OF ilp32 no_cray added_uids this us'(1)] Some us'(2)
    show ?thesis by (simp add: uids_of_def)
  qed
  with added show "acl_ok result" "set result = (set orig \<union> uids_of toset) - uids_of unset"
    "uids_of unset' = uids_of unset" by auto
qed

text \<open>
  What a run of the loop over the operations \<open>ts\<close> leaves: the cells it does not visit are
  unchanged, the lists stay well-formed, and if it ends with \<^verbatim>\<open>LWFS_OK\<close> every
  visited list is the old one with \<open>toset\<close> added and \<open>unset\<close> removed.
\<close>

definition mod_acl_effect ::
  "'db \<Rightarrow> 'db \<Rightarrow> lwfs_cid \<Rightarrow> lwfs_container_op \<Rightarrow> lwfs_uid set \<Rightarrow> lwfs_uid set \<Rightarrow>
     lwfs_container_op list \<Rightarrow> lwfs_return_code \<Rightarrow> bool" where
  "mod_acl_effect db db' c op S U ts rc \<longleftrightarrow>
     acl_wf C db' \<and> last_cid C db' = last_cid C db \<and>
     (\<forall>d q. small_cid d \<longrightarrow> small_op q \<longrightarrow> (d \<noteq> c \<or> q \<notin> set ts \<or> q AND op = 0) \<longrightarrow>
        acl_table C db' d q = acl_table C db d q) \<and>
     (rc = LWFS_OK \<longrightarrow> (\<forall>q\<in>set ts. q AND op \<noteq> 0 \<longrightarrow>
        (\<exists>us us'. acl_table C db c q = Some us \<and> acl_table C db' c q = Some us' \<and>
           set us' = (set us \<union> S) - U)))"

lemma del_put_acl:
  assumes del: "authr_db_del_acl (db_api E) db c t = (rc1, db1)"
    and put: "authr_db_put_acl (db_api E) db1 c t us = (rc2, db2)"
    and c: "small_cid c" "t \<in> set container_ops" and wf: "acl_wf C db" and us: "acl_ok us"
  shows "acl_wf C db1" "acl_wf C db2" "last_cid C db1 = last_cid C db" "last_cid C db2 = last_cid C db"
    "small_cid d \<Longrightarrow> small_op q \<Longrightarrow> d \<noteq> c \<or> q \<noteq> t \<Longrightarrow>
       acl_table C db1 d q = acl_table C db d q \<and> acl_table C db2 d q = acl_table C db d q"
    "rc2 = LWFS_OK \<Longrightarrow> acl_table C db2 c t = Some us"
proof -
  note t = small_container_op [OF c(2)]
  note d = del_acl_table [OF del c(1) t] and p = put_acl_table [OF put c(1) t]
  show last: "last_cid C db1 = last_cid C db" "last_cid C db2 = last_cid C db"
    using d(4) [OF c(1) t] p(3) [OF c(1) t] by simp_all
  show wf1: "acl_wf C db1" by (rule acl_wf_del [OF del wf])
  show "acl_wf C db2" by (rule acl_wf_put [OF put wf1 us])
  show "small_cid d \<Longrightarrow> small_op q \<Longrightarrow> d \<noteq> c \<or> q \<noteq> t \<Longrightarrow>
       acl_table C db1 d q = acl_table C db d q \<and> acl_table C db2 d q = acl_table C db d q" for d q
    using d(1) [of d q] p(1) [of d q] by auto
  show "rc2 = LWFS_OK \<Longrightarrow> acl_table C db2 c t = Some us"
    using p(1) [OF c(1) t] by simp
qed

lemma mod_acl_effect_same: "acl_wf C db \<Longrightarrow> rc \<noteq> LWFS_OK \<Longrightarrow> mod_acl_effect db db c op S U ts rc"
  by (simp add: mod_acl_effect_def)

lemma mod_acl_effect_skip:
  "mod_acl_effect db db' c op S U ts rc \<Longrightarrow> t AND op = 0 \<Longrightarrow> mod_acl_effect db db' c op S U (t # ts) rc"
  by (auto simp: mod_acl_effect_def)

lemma mod_acl_effect_fail:
  "acl_wf C db' \<Longrightarrow> last_cid C db' = last_cid C db \<Longrightarrow> rc \<noteq> LWFS_OK \<Longrightarrow> t AND op \<noteq> 0 \<Longrightarrow>
   (\<And>d q. small_cid d \<Longrightarrow> small_op q \<Longrightarrow> d \<noteq> c \<or> q \<noteq> t \<Longrightarrow> acl_table C db' d q = acl_table C db d q) \<Longrightarrow>
   mod_acl_effect db db' c op S U (t # ts) rc"
  by (auto simp: mod_acl_effect_def)

lemma mod_acl_effect_step:
  assumes rest: "mod_acl_effect db2 db' c op S U ts rc" and t: "t \<notin> set ts" "t AND op \<noteq> 0"
    and c: "small_cid c" "t \<in> set container_ops" "set ts \<subseteq> set container_ops"
    and last: "last_cid C db2 = last_cid C db"
    and same: "\<And>d q. small_cid d \<Longrightarrow> small_op q \<Longrightarrow> d \<noteq> c \<or> q \<noteq> t \<Longrightarrow>
      acl_table C db2 d q = acl_table C db d q"
    and us: "acl_table C db c t = Some us" "acl_table C db2 c t = Some us'" "set us' = (set us \<union> S) - U"
  shows "mod_acl_effect db db' c op S U (t # ts) rc"
  unfolding mod_acl_effect_def
proof (intro conjI allI impI ballI)
  show "acl_wf C db'" "last_cid C db' = last_cid C db"
    using rest last by (simp_all add: mod_acl_effect_def)
  fix d q
  assume dq: "small_cid d" "small_op q" "d \<noteq> c \<or> q \<notin> set (t # ts) \<or> q AND op = 0"
  then have "acl_table C db2 d q = acl_table C db d q" using t(2) by (intro same) auto
  then show "acl_table C db' d q = acl_table C db d q"
    using rest dq by (auto simp: mod_acl_effect_def)
next
  fix q
  assume ok: "rc = LWFS_OK" and q: "q \<in> set (t # ts)" "q AND op \<noteq> 0"
  show "\<exists>us us'. acl_table C db c q = Some us \<and> acl_table C db' c q = Some us' \<and>
      set us' = (set us \<union> S) - U"
  proof (cases "q = t")
    case True
    moreover have "acl_table C db' c t = Some us'"
      using rest us(2) t(1) c small_container_op by (auto simp: mod_acl_effect_def)
    ultimately show ?thesis using us by blast
  next
    case False
    then have "acl_table C db2 c q = acl_table C db c q"
      using same [of c q] q c small_container_op by auto
    moreover have "q \<in> set ts" using q False by simp
    ultimately show ?thesis using rest ok q(2) unfolding mod_acl_effect_def by metis
  qed
qed

lemma mod_acl_ops_effect:
  assumes c: "small_cid c" and S: "\<forall>u\<in>uids_of toset. ordered_uid u \<and> u \<noteq> inf_uid"
  shows "mod_acl_ops E db c op toset unset ts = (rc, db') \<Longrightarrow> acl_wf C db \<Longrightarrow>
    \<forall>u\<in>uids_of unset. ordered_uid u \<Longrightarrow> distinct ts \<Longrightarrow> set ts \<subseteq> set container_ops \<Longrightarrow>
    mod_acl_effect db db' c op (uids_of toset) (uids_of unset) ts rc"
proof (induction ts arbitrary: db unset)
  case Nil
  then show ?case by (simp add: mod_acl_effect_def)
next
  case (Cons t ts)
  have t: "t \<in> set container_ops" "t \<notin> set ts" "distinct ts" "set ts \<subseteq> set container_ops"
    using Cons.prems by auto
  show ?case
  proof (cases "t AND op = 0")
    case True
    with Cons t show ?thesis by (intro mod_acl_effect_skip) auto
  next
    case bit: False
    show ?thesis
    proof (cases "authr_db_get_acl (db_api E) db c t")
      case (Inl e)
      then have "e \<noteq> LWFS_OK" by (auto dest: get_acl_err)
      with Inl bit Cons.prems show ?thesis by (auto intro: mod_acl_effect_same)
    next
      case (Inr orig)
      have tab: "acl_table C db c t = Some orig" using Inr by (rule get_acl_OK)
      then have ok: "acl_ok orig" by (rule acl_wf_acl_ok [OF Cons.prems(2)])
      show ?thesis
      proof (cases "case toset of None \<Rightarrow> Inr orig
          | Some us \<Rightarrow> add_uids (build_cfg E) (can_realloc E) orig us")
        case (Inl e)
        then have "e \<noteq> LWFS_OK" by (auto simp: add_uids_def Let_def split: option.splits if_splits)
        with Inl \<open>authr_db_get_acl _ _ _ _ = _\<close> bit Cons.prems show ?thesis
          by (auto intro: mod_acl_effect_same)
      next
        case add: (Inr added)
        obtain result unset' where rem: "(case unset of None \<Rightarrow> (added, None)
            | Some us \<Rightarrow> map_prod id Some (remove_uids (build_cfg E) added us)) = (result, unset')"
          by fastforce
        note round = add_remove_round [OF ok S Cons.prems(3) add rem]
        obtain rc1 db1 where del: "authr_db_del_acl (db_api E) db c t = (rc1, db1)" by fastforce
        obtain rc2 db2 where put: "authr_db_put_acl (db_api E) db1 c t result = (rc2, db2)" by fastforce
        note dp = del_put_acl [OF del put c t(1) Cons.prems(2) round(1)]
        have run: "(rc, db') = (if rc1 \<noteq> LWFS_OK then (rc1, db1) else if rc2 \<noteq> LWFS_OK then (rc2, db2)
            else mod_acl_ops E db2 c op toset unset' ts)"
          using Cons.prems(1) bit Inr add rem del put by (auto split: if_splits)
        consider "rc1 \<noteq> LWFS_OK" | "rc1 = LWFS_OK" "rc2 \<noteq> LWFS_OK" | "rc1 = LWFS_OK" "rc2 = LWFS_OK"
          by blast
        then show ?thesis
        proof cases
          case 1
          with run dp bit show ?thesis by (auto intro: mod_acl_effect_fail)
        next
          case 2
          with run dp bit show ?thesis by (auto intro: mod_acl_effect_fail)
        next
          case 3
          then have "mod_acl_ops E db2 c op toset unset' ts = (rc, db')" using run by simp
          from Cons.IH [OF this dp(2)] round(3) Cons.prems(3) t
          have "mod_acl_effect db2 db' c op (uids_of toset) (uids_of unset) ts rc" by simp
          from mod_acl_effect_step [OF this t(2) bit c t(1) t(4) dp(4) _ tab dp(6) [OF 3(2)] round(2)]
          show ?thesis using dp(5) by blast
        qed
      qed
    qed
  qed
qed

text \<open>Well-formedness alone holds for any container id.\<close>

lemma mod_acl_ops_wf:
  assumes S: "\<forall>u\<in>uids_of toset. ordered_uid u \<and> u \<noteq> inf_uid"
  shows "mod_acl_ops E db c op toset unset ts = (rc, db') \<Longrightarrow> acl_wf C db \<Longrightarrow>
    \<forall>u\<in>uids_of unset. ordered_uid u \<Longrightarrow> acl_wf C db'"
proof (induction ts arbitrary: db unset)
  case (Cons t ts)
  show ?case
  proof (cases "t AND op = 0")
    case True
    with Cons show ?thesis by simp
  next
    case bit: False
    show ?thesis
    proof (cases "authr_db_get_acl (db_api E) db c t")
      case (Inl e)
      with bit Cons.prems show ?thesis by simp
    next
      case (Inr orig)
      have ok: "acl_ok orig" by (rule acl_wf_acl_ok [OF Cons.prems(2) get_acl_OK [OF Inr]])
      show ?thesis
      proof (cases "case toset of None \<Rightarrow> Inr orig
          | Some us \<Rightarrow> add_uids (build_cfg E) (can_realloc E) orig us")
        case (Inl e)
        with \<open>authr_db_get_acl _ _ _ _ = _\<close> bit Cons.prems show ?thesis by simp
      next
        case add: (Inr added)
        obtain result unset' where rem: "(case unset of None \<Rightarrow> (added, None)
            | Some us \<Rightarrow> map_prod id Some (remove_uids (build_cfg E) added us)) = (result, unset')"
          by fastforce
        note round = add_remove_round [OF ok S Cons.prems(3) add rem]
        obtain rc1 db1 where del: "authr_db_del_acl (db_api E) db c t = (rc1, db1)" by fastforce
        obtain rc2 db2 where put: "authr_db_put_acl (db_api E) db1 c t result = (rc2, db2)" by fastforce
        have wf1: "acl_wf C db1" by (rule acl_wf_del [OF del Cons.prems(2)])
        have wf2: "acl_wf C db2" by (rule acl_wf_put [OF put wf1 round(1)])
        have "db' = db1 \<or> db' = db2 \<or> mod_acl_ops E db2 c op toset unset' ts = (rc, db')"
          using Cons.prems(1) bit Inr add rem del put by (auto split: if_splits)
        then show ?thesis using wf1 wf2 Cons.IH [of db2 unset'] round(3) Cons.prems(3) by auto
      qed
    qed
  qed
qed simp

end

end
