(* ===== verification/Authr_Matrix.thy ===== *)
theory Authr_Matrix imports Authr_Security begin

section \<open>The authorization server refines an access-control matrix\<close>

text \<open>
  What the server promises is a matrix from (container, operation) to the set of users that
  hold the right. \<open>spec_create\<close>, \<open>spec_modify\<close> and \<open>spec_remove\<close> are its operations; the
  lemmas show that a handler that answers \<^verbatim>\<open>LWFS_OK\<close> has done exactly the
  operation of the matrix, that no other cell changes, and that the stored lists stay
  well-formed whatever a handler answers.
\<close>

type_synonym acl_matrix = "lwfs_cid \<Rightarrow> lwfs_opcode \<Rightarrow> lwfs_uid set option"

text \<open>Read off the cells of ordinary container ids; \<open>exist_op\<close> marks the containers that exist.\<close>

definition matrix :: "('db \<Rightarrow> string \<Rightarrow> u8 list option) \<Rightarrow> 'db \<Rightarrow> acl_matrix" where
  "matrix C db = (\<lambda>c q. if small_cid c \<and> small_op q then map_option set (acl_table C db c q) else None)"

definition spec_create :: "acl_matrix \<Rightarrow> lwfs_cid \<Rightarrow> lwfs_uid \<Rightarrow> acl_matrix" where
  "spec_create m c owner = m(c := (\<lambda>q.
     if q \<in> set container_ops then Some (if q AND owner_ops \<noteq> 0 then {owner} else {})
     else if q = exist_op then Some {} else None))"

definition spec_modify ::
  "acl_matrix \<Rightarrow> lwfs_cid \<Rightarrow> lwfs_container_op \<Rightarrow> lwfs_uid set \<Rightarrow> lwfs_uid set \<Rightarrow> acl_matrix" where
  "spec_modify m c op S U = m(c := (\<lambda>q.
     if q \<in> set container_ops \<and> q AND op \<noteq> 0 then map_option (\<lambda>A. (A \<union> S) - U) (m c q) else m c q))"

definition spec_remove :: "acl_matrix \<Rightarrow> lwfs_cid \<Rightarrow> acl_matrix" where
  "spec_remove m c = m(c := (\<lambda>q. None))"

lemma small_op_exist: "small_op exist_op" "exist_op \<notin> set container_ops"
  by (auto simp: small_op_def exist_op_def set_container_ops)

lemma acl_ok_Nil [simp]: "acl_ok []" and acl_ok_single: "ordered_uid u \<Longrightarrow> u \<noteq> inf_uid \<Longrightarrow> acl_ok [u]"
  by (auto simp: acl_ok_def)

subsection \<open>The loops and the database operations on the cells\<close>

context authr_store begin

definition same_cells :: "'db \<Rightarrow> 'db \<Rightarrow> lwfs_cid \<Rightarrow> lwfs_opcode set \<Rightarrow> bool" where
  "same_cells db db' c Q \<longleftrightarrow>
     (\<forall>d q. small_cid d \<longrightarrow> small_op q \<longrightarrow> d \<noteq> c \<or> q \<notin> Q \<longrightarrow> acl_table C db' d q = acl_table C db d q)"

lemma same_cells_trans:
  "same_cells db db1 c P \<Longrightarrow> same_cells db1 db2 c Q \<Longrightarrow> same_cells db db2 c (P \<union> Q)"
  by (simp add: same_cells_def)

lemma same_cells_mono: "same_cells db db' c P \<Longrightarrow> P \<subseteq> Q \<Longrightarrow> same_cells db db' c Q"
  by (auto simp: same_cells_def)

lemma same_cells_refl: "same_cells db db c Q"
  by (simp add: same_cells_def)

lemma put_same_cells:
  "authr_db_put_acl (db_api E) db c p us = (rc, db') \<Longrightarrow> small_cid c \<Longrightarrow> small_op p \<Longrightarrow>
   same_cells db db' c {p}"
  using put_acl_table(1) by (auto simp: same_cells_def)

lemma del_same_cells:
  "authr_db_del_acl (db_api E) db c p = (rc, db') \<Longrightarrow> small_cid c \<Longrightarrow> small_op p \<Longrightarrow>
   same_cells db db' c {p}"
  using del_acl_table(1) by (auto simp: same_cells_def)

lemma put_initial_acls_effect:
  assumes c: "small_cid c"
  shows "put_initial_acls (db_api E) db c op u ts = (rc, db') \<Longrightarrow> distinct ts \<Longrightarrow>
    set ts \<subseteq> set container_ops \<Longrightarrow>
    same_cells db db' c (set ts) \<and>
    (rc = LWFS_OK \<longrightarrow> (\<forall>q\<in>set ts. acl_table C db c q = None \<and>
       acl_table C db' c q = Some (if q AND op \<noteq> 0 then [u] else [])))"
proof (induction ts arbitrary: db)
  case Nil
  then show ?case by (simp add: same_cells_refl)
next
  case (Cons t ts)
  have t: "small_op t" "t \<notin> set ts" using Cons.prems by (auto intro: small_container_op)
  let ?us = "if t AND op \<noteq> 0 then [u] else []"
  obtain rc1 db1 where put: "authr_db_put_acl (db_api E) db c t ?us = (rc1, db1)" by fastforce
  note p = put_acl_table [OF put c t(1)] and cells = put_same_cells [OF put c t(1)]
  show ?case
  proof (cases "rc1 = LWFS_OK")
    case False
    with put Cons.prems have "rc = rc1" "db' = db1" by auto
    with False cells show ?thesis by (auto elim: same_cells_mono)
  next
    case True
    with put Cons.prems have "put_initial_acls (db_api E) db1 c op u ts = (rc, db')" by auto
    with Cons have ih: "same_cells db1 db' c (set ts)"
      "rc = LWFS_OK \<Longrightarrow> \<forall>q\<in>set ts. acl_table C db1 c q = None \<and>
         acl_table C db' c q = Some (if q AND op \<noteq> 0 then [u] else [])" by auto
    have "acl_table C db c t = None" "acl_table C db1 c t = Some ?us"
      using p(1) [OF c t(1)] p(2) [OF c t(1)] True by simp_all
    moreover have "acl_table C db' c t = acl_table C db1 c t"
      using ih(1) c t by (simp add: same_cells_def)
    moreover have "acl_table C db1 c q = acl_table C db c q" if q: "q \<in> set ts" for q
    proof -
      have "small_op q" "q \<noteq> t" using q t Cons.prems(3) small_container_op by auto
      with cells c show ?thesis by (simp add: same_cells_def)
    qed
    ultimately have "\<forall>q\<in>set (t # ts). acl_table C db c q = None \<and>
        acl_table C db' c q = Some (if q AND op \<noteq> 0 then [u] else [])" if "rc = LWFS_OK"
      using ih(2) [OF that] by simp
    with same_cells_trans [OF cells ih(1)] show ?thesis by simp
  qed
qed

lemma del_acls_effect:
  assumes c: "small_cid c"
  shows "del_acls (db_api E) db c ts = (rc, db') \<Longrightarrow> distinct ts \<Longrightarrow>
    set ts \<subseteq> set container_ops \<Longrightarrow>
    same_cells db db' c (set ts) \<and> (rc = LWFS_OK \<longrightarrow> (\<forall>q\<in>set ts. acl_table C db' c q = None))"
proof (induction ts arbitrary: db)
  case Nil
  then show ?case by (simp add: same_cells_refl)
next
  case (Cons t ts)
  have t: "small_op t" "t \<notin> set ts" using Cons.prems by (auto intro: small_container_op)
  obtain rc1 db1 where del: "authr_db_del_acl (db_api E) db c t = (rc1, db1)" by fastforce
  note p = del_acl_table [OF del c t(1)] and cells = del_same_cells [OF del c t(1)]
  show ?case
  proof (cases "rc1 = LWFS_OK \<or> rc1 = LWFS_ERR_NOENT")
    case False
    with del Cons.prems have "rc = rc1" "db' = db1" by auto
    with False cells show ?thesis by (auto elim: same_cells_mono)
  next
    case True
    with del Cons.prems have "del_acls (db_api E) db1 c ts = (rc, db')" by auto
    with Cons have ih: "same_cells db1 db' c (set ts)"
      "rc = LWFS_OK \<Longrightarrow> \<forall>q\<in>set ts. acl_table C db' c q = None" by auto
    have "acl_table C db1 c t = None"
      using True p(1) [OF c t(1)] p(3) [OF c t(1)] by auto
    moreover have "acl_table C db' c t = acl_table C db1 c t"
      using ih(1) c t by (simp add: same_cells_def)
    ultimately have "\<forall>q\<in>set (t # ts). acl_table C db' c q = None" if "rc = LWFS_OK"
      using ih(2) [OF that] by simp
    with same_cells_trans [OF cells ih(1)] show ?thesis by simp
  qed
qed

lemma db_create_effect:
  assumes "authr_db_create_container (db_api E) db c = Some (rc, c', db')" "c \<noteq> LWFS_CID_ANY" "small_cid c"
  shows "c' = c" "same_cells db db' c {exist_op}" "rc = LWFS_OK \<Longrightarrow> acl_table C db c exist_op = None"
    "rc = LWFS_OK \<Longrightarrow> acl_table C db' c exist_op = Some []"
proof -
  have "(rc = LWFS_ERR_EXIST \<and> db' = db \<or>
      authr_db_put_acl (db_api E) db c exist_op [] = (rc, db')) \<and> c' = c"
    using assms(1,2) by (auto simp: authr_db_create_container_def split: prod.splits if_splits)
  then show "c' = c" "same_cells db db' c {exist_op}" "rc = LWFS_OK \<Longrightarrow> acl_table C db c exist_op = None"
    "rc = LWFS_OK \<Longrightarrow> acl_table C db' c exist_op = Some []"
    using put_acl_table [of db c exist_op "[]" rc db' c exist_op] put_same_cells [of db c exist_op "[]" rc db']
      assms(3) small_op_exist same_cells_refl by auto
qed

lemma db_remove_effect:
  assumes "authr_db_remove_container (db_api E) db c = (rc, db')" "small_cid c"
  shows "same_cells db db' c {exist_op}" "rc = LWFS_OK \<Longrightarrow> acl_table C db' c exist_op = None"
    "rc = LWFS_OK \<Longrightarrow> acl_table C db c exist_op \<noteq> None"
proof -
  have "rc \<noteq> LWFS_OK \<and> db' = db \<or> authr_db_container_exists (db_api E) db c \<and>
      (\<exists>rc1. authr_db_del_acl (db_api E) db c exist_op = (rc1, db') \<and> (rc = LWFS_OK \<longrightarrow> rc1 = LWFS_OK))"
    using assms(1) by (auto simp: authr_db_remove_container_def split: prod.splits if_splits)
  then show "same_cells db db' c {exist_op}" "rc = LWFS_OK \<Longrightarrow> acl_table C db' c exist_op = None"
    "rc = LWFS_OK \<Longrightarrow> acl_table C db c exist_op \<noteq> None"
    using del_acl_table [of db c exist_op _ db' c exist_op] del_same_cells [of db c exist_op _ db']
      container_exists_table [of db c] assms(2) small_op_exist same_cells_refl by auto
qed

end

subsection \<open>Whose cells an operation can change\<close>

text \<open>Without conditions on ids and users: the cells a loop or an operation of the database changes, whether it
  succeeds or not. The keys are made from the low 32 bits of an id.\<close>

abbreviation same_lists :: "lwfs_cid \<Rightarrow> lwfs_cid \<Rightarrow> bool" where
  "same_lists c d \<equiv> (ucast c :: u32) = ucast d"

context authr_store begin

lemma put_initial_acls_change:
  "put_initial_acls (db_api E) db c op u ts = (rc, db') \<Longrightarrow> set ts \<subseteq> set container_ops \<Longrightarrow>
   acl_table C db' d q \<noteq> acl_table C db d q \<Longrightarrow> same_lists c d \<and> acl_table C db d q = None"
proof (induction ts arbitrary: db)
  case (Cons t ts)
  obtain rc1 db1 where put: "authr_db_put_acl (db_api E) db c t (if t AND op \<noteq> 0 then [u] else []) = (rc1, db1)"
    by fastforce
  have t: "small_op t" using Cons.prems(2) by (auto intro: small_container_op)
  from put Cons.prems(1) have "db' = db1 \<or> put_initial_acls (db_api E) db1 c op u ts = (rc, db')"
    by (auto split: if_splits)
  with Cons.IH [of db1] Cons.prems(2,3) put_acl_change [OF put t, of d q] show ?case by force
qed simp

lemma del_acls_change:
  "del_acls (db_api E) db c ts = (rc, db') \<Longrightarrow> set ts \<subseteq> set container_ops \<Longrightarrow>
   acl_table C db' d q \<noteq> acl_table C db d q \<Longrightarrow> same_lists c d \<and> acl_table C db' d q = None"
proof (induction ts arbitrary: db)
  case (Cons t ts)
  obtain rc1 db1 where del: "authr_db_del_acl (db_api E) db c t = (rc1, db1)" by fastforce
  have t: "small_op t" using Cons.prems(2) by (auto intro: small_container_op)
  from del Cons.prems(1) have "db' = db1 \<or> del_acls (db_api E) db1 c ts = (rc, db')"
    by (auto split: if_splits)
  with Cons.IH [of db1] Cons.prems(2,3) del_acl_change [OF del t, of d q] show ?case by force
qed simp

lemma mod_acl_ops_change:
  "mod_acl_ops E db c op toset unset ts = (rc, db') \<Longrightarrow> set ts \<subseteq> set container_ops \<Longrightarrow>
   acl_table C db' d q \<noteq> acl_table C db d q \<Longrightarrow> same_lists c d \<and> q \<in> set ts \<and> q AND op \<noteq> 0"
proof (induction ts arbitrary: db unset)
  case (Cons t ts)
  have t: "small_op t" using Cons.prems(2) by (auto intro: small_container_op)
  show ?case
  proof (cases "t AND op = 0")
    case True
    with Cons show ?thesis by auto
  next
    case False
    obtain rc1 db1 where del: "authr_db_del_acl (db_api E) db c t = (rc1, db1)" by fastforce
    from Cons.prems(1) False del have "db' = db \<or> db' = db1 \<or>
        (\<exists>us rc2 db2. authr_db_put_acl (db_api E) db1 c t us = (rc2, db2) \<and>
          (db' = db2 \<or> (\<exists>un. mod_acl_ops E db2 c op toset un ts = (rc, db'))))"
      by (auto simp: Let_def split: sum.splits prod.splits if_splits)
    moreover have ?thesis if "acl_table C db1 d q \<noteq> acl_table C db d q"
      using del_acl_change [OF del t that] False by simp
    moreover have ?thesis if "authr_db_put_acl (db_api E) db1 c t us = (rc2, db2)"
      "acl_table C db2 d q \<noteq> acl_table C db1 d q" for us rc2 db2
      using put_acl_change [OF that(1) t that(2)] False by simp
    moreover have ?thesis if "mod_acl_ops E db2 c op toset un ts = (rc, db')"
      "acl_table C db' d q \<noteq> acl_table C db2 d q" for un db2
      using Cons.IH [OF that(1) _ that(2)] Cons.prems(2) by simp
    ultimately show ?thesis using Cons.prems(3) by metis
  qed
qed simp

lemma db_create_change:
  assumes "authr_db_create_container (db_api E) db c = Some (rc, c', db')"
    "acl_table C db' d q \<noteq> acl_table C db d q"
  shows "same_lists c d \<and> acl_table C db d q = None"
proof (cases "c = LWFS_CID_ANY")
  case True
  then have "create_fresh_cid (db_api E) db = Some (rc, c', db')"
    using assms by (simp add: authr_db_create_container_def)
  from create_fresh_cid_result(1) [OF this] assms(2) show ?thesis by simp
next
  case False
  then have "authr_db_put_acl (db_api E) db c exist_op [] = (rc, db')"
    using assms by (auto simp: authr_db_create_container_def split: prod.splits if_splits)
  from put_acl_change [OF this small_op_exist(1) assms(2)] show ?thesis by blast
qed

lemma db_create_same_id:
  "authr_db_create_container (db_api E) db c = Some (rc, c', db') \<Longrightarrow> c \<noteq> LWFS_CID_ANY \<Longrightarrow> c' = c"
  by (auto simp: authr_db_create_container_def split: prod.splits if_splits)

lemma db_remove_change:
  assumes "authr_db_remove_container (db_api E) db c = (rc, db')" "acl_table C db' d q \<noteq> acl_table C db d q"
  shows "same_lists c d \<and> acl_table C db' d q = None"
proof -
  obtain rc1 where "authr_db_del_acl (db_api E) db c exist_op = (rc1, db')"
    using assms by (auto simp: authr_db_remove_container_def split: prod.splits if_splits)
  from del_acl_change [OF this small_op_exist(1) assms(2)] show ?thesis by blast
qed

end

context authr_store begin

subsection \<open>Well-formed lists\<close>

lemma put_initial_acls_wf:
  "put_initial_acls (db_api E) db c op u ts = (rc, db') \<Longrightarrow> acl_wf C db \<Longrightarrow> acl_ok [u] \<Longrightarrow> acl_wf C db'"
proof (induction ts arbitrary: db)
  case (Cons t ts)
  obtain rc1 db1 where put: "authr_db_put_acl (db_api E) db c t (if t AND op \<noteq> 0 then [u] else []) = (rc1, db1)"
    by fastforce
  then have "acl_wf C db1" using acl_wf_put [OF put] Cons.prems by simp
  with Cons put show ?case by (auto split: if_splits)
qed simp

lemma del_acls_wf:
  "del_acls (db_api E) db c ts = (rc, db') \<Longrightarrow> acl_wf C db \<Longrightarrow> acl_wf C db'"
proof (induction ts arbitrary: db)
  case (Cons t ts)
  obtain rc1 db1 where del: "authr_db_del_acl (db_api E) db c t = (rc1, db1)" by fastforce
  then have "acl_wf C db1" using acl_wf_del [OF del] Cons.prems by simp
  with Cons del show ?case by (auto split: if_splits)
qed simp

lemma db_create_wf:
  assumes "authr_db_create_container (db_api E) db c = Some (rc, c', db')" "acl_wf C db"
  shows "acl_wf C db'"
proof (cases "c = LWFS_CID_ANY")
  case True
  then have "create_fresh_cid (db_api E) db = Some (rc, c', db')"
    using assms by (simp add: authr_db_create_container_def)
  from create_fresh_cid_result(1) [OF this] assms(2) show ?thesis by (simp add: acl_wf_def)
next
  case False
  then have "db' = db \<or> authr_db_put_acl (db_api E) db c exist_op [] = (rc, db')"
    using assms(1) by (auto simp: authr_db_create_container_def split: prod.splits if_splits)
  with assms(2) show ?thesis using acl_wf_put [of db c exist_op "[]" rc db'] by auto
qed

lemma db_remove_wf:
  assumes "authr_db_remove_container (db_api E) db c = (rc, db')" "acl_wf C db"
  shows "acl_wf C db'"
proof -
  have "db' = db \<or> (\<exists>rc1. authr_db_del_acl (db_api E) db c exist_op = (rc1, db'))"
    using assms(1) by (auto simp: authr_db_remove_container_def split: prod.splits if_splits)
  with assms(2) show ?thesis using acl_wf_del by blast
qed

subsection \<open>The handlers\<close>

text \<open>A container with the named id: the whole row of the matrix is new.\<close>

lemma create_container_OK:
  assumes run: "create_container E st c cap = Some (Inr new, st')"
    and c: "small_cid c" and en: "acl_db_enabled st"
  obtains db db' where "acl_db st = Some db" "acl_db st' = Some db'"
    "matrix C db' = spec_create (matrix C db) c (cap_uid cap)" "\<forall>q. matrix C db c q = None"
    "cap_data new = \<lparr>cid = c, container_op = owner_ops, cred = cap_cred cap\<rparr>"
    "cap_mac new = hmac_sha1 E (authr_svc_key st) (cap_data_image (cap_data new))"
proof -
  have nany: "c \<noteq> LWFS_CID_ANY" using c by (auto simp: small_cid_def LWFS_CID_ANY_def)
  obtain db where db: "acl_db st = Some db"
    using run by (cases "acl_db st") (auto simp: create_container_def Let_def)
  obtain rc1 c1 db1 where cr: "authr_db_create_container (db_api E) db c = Some (rc1, c1, db1)"
    using run db by (cases "authr_db_create_container (db_api E) db c") (auto simp: create_container_def Let_def)
  note e = db_create_effect [OF cr nany c]
  obtain rc2 db2 where put: "put_initial_acls (db_api E) db1 c owner_ops (cap_uid cap) container_ops = (rc2, db2)"
    by fastforce
  have rc: "rc1 = LWFS_OK" "rc2 = LWFS_OK" and st': "acl_db st' = Some db2"
    and new: "cap_data new = \<lparr>cid = c, container_op = owner_ops, cred = cap_cred cap\<rparr>"
      "cap_mac new = hmac_sha1 E (authr_svc_key st) (cap_data_image (cap_data new))"
    using run db cr put en e(1) by (auto simp: create_container_def Let_def generate_cap_eq split: if_splits)
  from put_initial_acls_effect [OF c put distinct_container_ops subset_refl] rc
  have cells: "same_cells db1 db2 c (set container_ops)"
    and new_cells: "\<forall>q\<in>set container_ops. acl_table C db1 c q = None \<and>
       acl_table C db2 c q = Some (if q AND owner_ops \<noteq> 0 then [cap_uid cap] else [])" by auto
  have small: "small_op q \<longleftrightarrow> q = exist_op \<or> q \<in> set container_ops" for q by (simp add: small_op_def)
  have old: "acl_table C db1 d q = acl_table C db d q" if "small_cid d" "small_op q" "d \<noteq> c \<or> q \<noteq> exist_op" for d q
    using e(2) that by (simp add: same_cells_def)
  have row: "acl_table C db2 c exist_op = Some []"
    using cells c small_op_exist e(4) [OF rc(1)] by (simp add: same_cells_def)
  have "matrix C db2 d q = spec_create (matrix C db) c (cap_uid cap) d q" for d q
    using cells new_cells row old [of d q] c small_op_exist
    by (auto simp: matrix_def spec_create_def same_cells_def small)
  moreover have "matrix C db c q = None" for q
    using e(3) [OF rc(1)] new_cells old [of c q] c small_op_exist
    by (cases "q = exist_op") (auto simp: matrix_def small)
  ultimately show ?thesis using that [OF db st' _ _ new] by blast
qed

lemma remove_container_OK:
  assumes run: "remove_container E st c cap = Some (LWFS_OK, st')" and c: "small_cid c"
  obtains db db' where "acl_db st = Some db" "acl_db st' = Some db'"
    "matrix C db' = spec_remove (matrix C db) c" "matrix C db c exist_op \<noteq> None"
proof -
  obtain db where db: "acl_db st = Some db"
    using run by (auto simp: remove_container_def Let_def split: option.splits if_splits)
  obtain rc1 db1 where del: "del_acls (db_api E) db c container_ops = (rc1, db1)" by fastforce
  obtain rc2 db2 where rem: "authr_db_remove_container (db_api E) db1 c = (rc2, db2)" by fastforce
  have rc: "rc1 = LWFS_OK" "rc2 = LWFS_OK" and st': "acl_db st' = Some db2"
    using run db del rem by (auto simp: remove_container_def Let_def split: option.splits if_splits)
  from del_acls_effect [OF c del distinct_container_ops subset_refl] rc
  have cells: "same_cells db db1 c (set container_ops)"
    and gone: "\<forall>q\<in>set container_ops. acl_table C db1 c q = None" by auto
  note r = db_remove_effect [OF rem c]
  have gone2: "acl_table C db2 c q = None" if q: "q \<in> set container_ops" for q
  proof -
    have "small_op q" "q \<noteq> exist_op" using q small_container_op small_op_exist by auto
    then show ?thesis using r(1) gone q c by (simp add: same_cells_def)
  qed
  have small: "small_op q \<longleftrightarrow> q = exist_op \<or> q \<in> set container_ops" for q by (simp add: small_op_def)
  have "matrix C db2 d q = spec_remove (matrix C db) c d q" for d q
    using cells gone2 r(1) r(2) [OF rc(2)] c small_op_exist
    by (auto simp: matrix_def spec_remove_def same_cells_def small)
  moreover have "matrix C db c exist_op \<noteq> None"
    using r(3) [OF rc(2)] cells c small_op_exist by (simp add: matrix_def same_cells_def small)
  ultimately show ?thesis using that [OF db st'] by blast
qed

end

context authr_ilp32 begin

lemma mod_acl_OK:
  assumes run: "mod_acl E st c op toset unset cap = Some (LWFS_OK, st')"
    and c: "small_cid c" and en: "acl_db_enabled st" and db: "acl_db st = Some db" and wf: "acl_wf C db"
    and S: "\<forall>u\<in>uids_of toset. ordered_uid u \<and> u \<noteq> inf_uid" and U: "\<forall>u\<in>uids_of unset. ordered_uid u"
  obtains db' where "acl_db st' = Some db'"
    "matrix C db' = spec_modify (matrix C db) c op (uids_of toset) (uids_of unset)"
    "\<forall>q\<in>set container_ops. q AND op \<noteq> 0 \<longrightarrow> matrix C db c q \<noteq> None"
proof -
  obtain rc db' where ops: "mod_acl_ops E db c op toset unset container_ops = (rc, db')" by fastforce
  have rc: "rc = LWFS_OK" and st': "acl_db st' = Some db'"
    using run en db ops by (auto simp: mod_acl_def Let_def split: option.splits if_splits)
  from mod_acl_ops_effect [OF c S ops wf U distinct_container_ops subset_refl] rc
  have eff: "\<forall>d q. small_cid d \<longrightarrow> small_op q \<longrightarrow> (d \<noteq> c \<or> q \<notin> set container_ops \<or> q AND op = 0) \<longrightarrow>
        acl_table C db' d q = acl_table C db d q"
    and new: "\<forall>q\<in>set container_ops. q AND op \<noteq> 0 \<longrightarrow>
        (\<exists>us us'. acl_table C db c q = Some us \<and> acl_table C db' c q = Some us' \<and>
           set us' = (set us \<union> uids_of toset) - uids_of unset)"
    by (simp_all add: mod_acl_effect_def)
  have "matrix C db' d q = spec_modify (matrix C db) c op (uids_of toset) (uids_of unset) d q" for d q
  proof (cases "d = c \<and> q \<in> set container_ops \<and> q AND op \<noteq> 0")
    case True
    then obtain us us' where "acl_table C db c q = Some us" "acl_table C db' c q = Some us'"
      "set us' = (set us \<union> uids_of toset) - uids_of unset" using new by blast
    with True show ?thesis by (simp add: matrix_def spec_modify_def small_container_op)
  next
    case False
    then have "acl_table C db' d q = acl_table C db d q" if "small_cid d" "small_op q"
      using eff that by blast
    with False show ?thesis by (auto simp: matrix_def spec_modify_def)
  qed
  moreover have "\<forall>q\<in>set container_ops. q AND op \<noteq> 0 \<longrightarrow> matrix C db c q \<noteq> None"
    using new c by (fastforce simp: matrix_def small_container_op)
  ultimately show ?thesis using that [OF st'] by blast
qed

end

end
