(* ===== verification/Authr_Run.thy ===== *)
theory Authr_Run imports Authr_Matrix begin

section \<open>Runs of the authorization server\<close>

text \<open>
  The reachable states of a server that answers requests one after the other, the invariant of
  its state, and the contract its verification of capabilities offers to the other servers
  (\<open>cap_verifier\<close>). The last part is a concrete server on an empty in-memory database that
  the witnesses run on.
\<close>

subsection \<open>Reachable states\<close>

text \<open>The user ids a request brings into the lists are ones the comparison orders.\<close>

fun request_ok :: "authr_request \<Rightarrow> bool" where
  "request_ok (Create_Container c cap) = (ordered_uid (cap_uid cap) \<and> cap_uid cap \<noteq> inf_uid)"
| "request_ok (Mod_Acl c op toset unset cap) =
     ((\<forall>u\<in>uids_of toset. ordered_uid u \<and> u \<noteq> inf_uid) \<and> (\<forall>u\<in>uids_of unset. ordered_uid u))"
| "request_ok _ = True"

inductive authr_reach :: "'db authr_env \<Rightarrow> 'db authr_state \<Rightarrow> 'db authr_state \<Rightarrow> bool"
  for E st0 where
  start: "authr_reach E st0 st0"
| step: "authr_reach E st0 st \<Longrightarrow> request_ok req \<Longrightarrow> authr_dispatch E st req = Some (resp, st') \<Longrightarrow>
    authr_reach E st0 st'"

text \<open>What no handler touches: the key and the flags.\<close>

definition same_config :: "'db authr_state \<Rightarrow> 'db authr_state \<Rightarrow> bool" where
  "same_config st st' \<longleftrightarrow> authr_svc_key st' = authr_svc_key st \<and> acl_db_enabled st' = acl_db_enabled st \<and>
     caps_enabled st' = caps_enabled st \<and> creds_enabled st' = creds_enabled st"

lemma dispatch_config: "authr_dispatch E st req = Some (resp, st') \<Longrightarrow> same_config st st'"
proof (cases req)
  case (Create_Container c cap)
  assume "authr_dispatch E st req = Some (resp, st')"
  with Create_Container show ?thesis
    by (auto simp: create_container_def Let_def same_config_def split: option.splits prod.splits if_splits)
next
  case (Remove_Container c cap)
  assume "authr_dispatch E st req = Some (resp, st')"
  with Remove_Container show ?thesis
    by (auto simp: remove_container_def Let_def same_config_def split: option.splits prod.splits if_splits)
next
  case (Get_Acl c op cap)
  assume "authr_dispatch E st req = Some (resp, st')"
  with Get_Acl show ?thesis
    by (auto simp: get_acl_def Let_def same_config_def split: option.splits prod.splits if_splits)
next
  case (Mod_Acl c op toset unset cap)
  assume "authr_dispatch E st req = Some (resp, st')"
  with Mod_Acl show ?thesis
    by (auto simp: mod_acl_def Let_def same_config_def split: option.splits prod.splits if_splits)
next
  case (Get_Cap c op cr)
  assume "authr_dispatch E st req = Some (resp, st')"
  with Get_Cap show ?thesis
    by (auto simp: get_cap_def Let_def same_config_def split: option.splits prod.splits if_splits)
next
  case (Verify_Caps caps)
  assume "authr_dispatch E st req = Some (resp, st')"
  with Verify_Caps show ?thesis
    by (auto simp: verify_caps_def Let_def same_config_def)
qed

text \<open>The counters are no part of what the checks read.\<close>

lemma checks_counter [simp]:
  "check_authorization E (st\<lparr>authr_counter := n\<rparr>) c op cap = check_authorization E st c op cap"
  "check_perm E (st\<lparr>authr_counter := n\<rparr>) c op u = check_perm E st c op u"
  "check_cred (st\<lparr>authr_counter := n\<rparr>) cr = check_cred st cr"
  "check_cap E (st\<lparr>authr_counter := n\<rparr>) cap = check_cap E st cap"
  by (simp_all add: check_authorization_def check_perm_def check_cred_def check_cap_def)

lemma verify_cap_list_counter [simp]:
  "verify_cap_list E (st\<lparr>authr_counter := n\<rparr>) caps = verify_cap_list E st caps"
  by (induction caps) (simp_all split: option.split)

definition authr_wf :: "('db \<Rightarrow> string \<Rightarrow> u8 list option) \<Rightarrow> 'db authr_state \<Rightarrow> bool" where
  "authr_wf C st \<longleftrightarrow> (\<forall>db. acl_db st = Some db \<longrightarrow> acl_wf C db)"

text \<open>The database a handler leaves, request by request.\<close>

lemma create_container_db:
  "create_container E st c cap = Some (r, st') \<Longrightarrow>
   \<exists>db rc c' db1 db2 rc2. acl_db st = Some db \<and> acl_db st' = Some db2 \<and>
     authr_db_create_container (db_api E) db c = Some (rc, c', db1) \<and>
     (db2 = db1 \<or> put_initial_acls (db_api E) db1 c' owner_ops (cap_uid cap) container_ops = (rc2, db2))"
  by (cases "acl_db st") (fastforce simp: create_container_def Let_def split: option.splits prod.splits if_splits)+

lemma remove_container_db:
  assumes "remove_container E st c cap = Some (r, st')"
  shows "acl_db st' = acl_db st \<or> check_authorization E st c LWFS_CONTAINER_REMOVE cap = Some LWFS_OK \<and>
   (\<exists>db rc db1 rc2 db2. acl_db st = Some db \<and> acl_db st' = Some db2 \<and>
     del_acls (db_api E) db c container_ops = (rc, db1) \<and>
     (db2 = db1 \<or> authr_db_remove_container (db_api E) db1 c = (rc2, db2)))"
  using assms
  by (cases "acl_db st") (auto simp: remove_container_def Let_def split: option.splits prod.splits if_splits)

lemma mod_acl_db:
  assumes "mod_acl E st c op toset unset cap = Some (r, st')"
  shows "acl_db st' = acl_db st \<or> check_authorization E st c LWFS_CONTAINER_MODACL cap = Some LWFS_OK \<and>
   (\<exists>db rc db2. acl_db st = Some db \<and> acl_db st' = Some db2 \<and>
     mod_acl_ops E db c op toset unset container_ops = (rc, db2))"
  using assms
  by (cases "acl_db st") (auto simp: mod_acl_def Let_def split: option.splits prod.splits if_splits)

lemma readers_db:
  "get_acl E st c op cap = Some (r, st') \<Longrightarrow> acl_db st' = acl_db st"
  "get_cap E st c op cr = Some (r', st') \<Longrightarrow> acl_db st' = acl_db st"
  "verify_caps E st caps = Some (rc, st') \<Longrightarrow> acl_db st' = acl_db st"
  by (auto simp: get_acl_def get_cap_def verify_caps_def Let_def split: option.splits prod.splits if_splits)

context authr_ilp32 begin

lemma dispatch_wf:
  assumes run: "authr_dispatch E st req = Some (resp, st')" and ok: "request_ok req" and wf: "authr_wf C st"
  shows "authr_wf C st'"
proof (cases req)
  case (Create_Container c cap)
  then obtain r where "create_container E st c cap = Some (r, st')" using run by auto
  from create_container_db [OF this] obtain db rc c' db1 db2 rc2 where
    db: "acl_db st = Some db" "acl_db st' = Some db2"
    and cr: "authr_db_create_container (db_api E) db c = Some (rc, c', db1)"
    and put: "db2 = db1 \<or> put_initial_acls (db_api E) db1 c' owner_ops (cap_uid cap) container_ops = (rc2, db2)"
    by blast
  have "acl_wf C db1" using db_create_wf [OF cr] wf db by (simp add: authr_wf_def)
  moreover have "acl_ok [cap_uid cap]" using ok Create_Container by (simp add: acl_ok_single)
  ultimately have "acl_wf C db2" using put put_initial_acls_wf by blast
  with db show ?thesis by (simp add: authr_wf_def)
next
  case (Remove_Container c cap)
  then obtain r where "remove_container E st c cap = Some (r, st')" using run by auto
  from remove_container_db [OF this] show ?thesis
    using wf del_acls_wf db_remove_wf unfolding authr_wf_def by (metis option.inject)
next
  case (Mod_Acl c op toset unset cap)
  then obtain r where m: "mod_acl E st c op toset unset cap = Some (r, st')" using run by auto
  from mod_acl_db [OF m] consider "acl_db st' = acl_db st" | db rc db2 where
    "acl_db st = Some db" "acl_db st' = Some db2" "mod_acl_ops E db c op toset unset container_ops = (rc, db2)"
    by blast
  then show ?thesis
  proof cases
    case 1
    with wf show ?thesis by (simp add: authr_wf_def)
  next
    case 2
    have "acl_wf C db2"
      using mod_acl_ops_wf [OF _ 2(3)] ok Mod_Acl wf 2(1) by (simp add: authr_wf_def)
    with 2 show ?thesis by (simp add: authr_wf_def)
  qed
qed (use run wf in \<open>auto dest!: readers_db simp: authr_wf_def\<close>)

end

context authr_ilp32 begin

lemma reach_wf: "authr_reach E st0 st \<Longrightarrow> authr_wf C st0 \<Longrightarrow> authr_wf C st"
  by (induction rule: authr_reach.induct) (auto intro: dispatch_wf)

end

lemma reach_config: "authr_reach E st0 st \<Longrightarrow> same_config st0 st"
  by (induction rule: authr_reach.induct) (auto simp: same_config_def dest: dispatch_config)

subsection \<open>The service as the other servers see it\<close>

text \<open>A request without an answer ends in the time-out of the RPC library.\<close>

definition authr_verify :: "'db authr_env \<Rightarrow> 'db authr_state \<Rightarrow> lwfs_cap list \<Rightarrow> lwfs_return_code" where
  "authr_verify E st caps = (case verify_caps E st caps of None \<Rightarrow> LWFS_ERR_TIMEDOUT | Some (rc, st') \<Rightarrow> rc)"

definition authr_grants ::
  "'db authr_env \<Rightarrow> ('db \<Rightarrow> string \<Rightarrow> u8 list option) \<Rightarrow> 'db authr_state \<Rightarrow> lwfs_cap \<Rightarrow> bool" where
  "authr_grants E C st cap \<longleftrightarrow> \<not> creds_enabled st \<and> cap_authentic E st cap \<and>
     st_permits C st (cid (cap_data cap)) (container_op (cap_data cap)) (cap_uid cap)"

lemma verify_caps_list:
  "verify_caps E st caps = Some (rc, st') \<Longrightarrow> verify_cap_list E st caps = Some rc"
  by (auto simp: verify_caps_def Let_def)

lemma authr_verify_OK: "authr_verify E st caps = LWFS_OK \<Longrightarrow> verify_cap_list E st caps = Some LWFS_OK"
  by (auto simp: authr_verify_def dest: verify_caps_list split: option.splits)

context authr_ilp32 begin

lemma check_perm_exact:
  assumes rel: "acl_reliable (db_api E) C" and db: "acl_db st = Some db" and wf: "acl_wf C db"
    and u: "ordered_uid u"
  shows "check_perm E st c op u = Some LWFS_OK \<longleftrightarrow> st_permits C st c op u"
proof
  assume perm: "st_permits C st c op u"
  have "check_perm_ops E db c op u container_ops = LWFS_OK" if en: "acl_db_enabled st"
  proof (rule check_perm_ops_complete [OF wf u subset_refl], intro ballI impI)
    fix t
    assume "t \<in> set container_ops" "t \<noteq> LWFS_CONTAINER_CREATE" "op AND t \<noteq> 0"
    then obtain us where "acl_table C db c t = Some us" "u \<in> set us"
      using perm en db by (auto simp: st_permits_def acl_permits_def)
    then show "\<exists>us. authr_db_get_acl (db_api E) db c t = Inr us \<and> u \<in> set us"
      using acl_reliable.get_acl_eq [OF rel] by auto
  qed
  with db show "check_perm E st c op u = Some LWFS_OK" by (simp add: check_perm_def)
qed (rule check_perm_sound)

lemma verify_cap_list_exact:
  assumes rel: "acl_reliable (db_api E) C" and db: "acl_db st = Some db" and wf: "acl_wf C db"
  shows "\<forall>cap\<in>set caps. ordered_uid (cap_uid cap) \<Longrightarrow>
    verify_cap_list E st caps = Some LWFS_OK \<longleftrightarrow> (\<forall>cap\<in>set caps. authr_grants E C st cap)"
proof (induction caps)
  case (Cons cap caps)
  have "check_perm E st (cid (cap_data cap)) (container_op (cap_data cap)) (cap_uid cap) = Some LWFS_OK \<longleftrightarrow>
      st_permits C st (cid (cap_data cap)) (container_op (cap_data cap)) (cap_uid cap)"
    using Cons.prems by (intro check_perm_exact [OF rel db wf]) simp
  moreover have "verify_cap_list E st (cap # caps) = Some LWFS_OK \<longleftrightarrow>
      check_cred st (cap_cred cap) = LWFS_OK \<and> check_cap E st cap = LWFS_OK \<and>
      check_perm E st (cid (cap_data cap)) (container_op (cap_data cap)) (cap_uid cap) = Some LWFS_OK \<and>
      verify_cap_list E st caps = Some LWFS_OK"
    by (auto split: option.splits)
  ultimately show ?case
    using Cons by (auto simp: authr_grants_def check_cred_OK check_cap_OK)
qed simp

end

sublocale authr_store \<subseteq> verifier: cap_verifier "authr_verify E st" "authr_grants E C st" for st
proof
  fix caps cap
  assume "authr_verify E st caps = LWFS_OK" "cap \<in> set caps"
  then show "authr_grants E C st cap"
    using verify_cap_list_sound [OF authr_verify_OK] by (simp add: authr_grants_def)
qed

context authr_store begin

lemma verified_granted: "authr_verify E st [cap] = LWFS_OK \<Longrightarrow> authr_grants E C st cap"
  by (rule verifier.verify_single)

end

subsection \<open>Revocation\<close>

text \<open>After a request unset a user for an operation, no capability of that user for it verifies.\<close>

lemma revoked_not_verified:
  assumes "authr_ilp32 E C" "mod_acl E st c op toset (Some unset) mcap = Some (LWFS_OK, st')"
    "small_cid c" "acl_db_enabled st" "acl_db st = Some db" "acl_wf C db"
    "\<forall>u\<in>uids_of toset. ordered_uid u \<and> u \<noteq> inf_uid" "\<forall>u\<in>set unset. ordered_uid u"
    "t \<in> set container_ops" "t \<noteq> LWFS_CONTAINER_CREATE" "t AND op \<noteq> 0"
    "cap \<in> set caps" "cid (cap_data cap) = c" "container_op (cap_data cap) AND t \<noteq> 0"
    "cap_uid cap \<in> set unset"
  shows "verify_cap_list E st' caps \<noteq> Some LWFS_OK"
proof
  assume ver: "verify_cap_list E st' caps = Some LWFS_OK"
  note store = authr_ilp32.axioms(1) [OF assms(1)]
  have en': "acl_db_enabled st'"
    using dispatch_config [of E st "Mod_Acl c op toset (Some unset) mcap" "Void_Response LWFS_OK" st']
      assms(2,4) by (simp add: same_config_def)
  have "\<forall>u\<in>uids_of (Some unset). ordered_uid u" using assms(8) by (simp add: uids_of_def)
  from authr_ilp32.mod_acl_OK [OF assms(1-7) this] obtain db' where db': "acl_db st' = Some db'"
    "matrix C db' = spec_modify (matrix C db) c op (uids_of toset) (uids_of (Some unset))"
    by blast
  have "st_permits C st' c (container_op (cap_data cap)) (cap_uid cap)"
    using authr_store.verify_cap_list_sound [OF store ver assms(12)] assms(13) by simp
  then obtain us where us: "acl_table C db' c t = Some us" "cap_uid cap \<in> set us"
    using en' db'(1) assms(9,10,14) by (auto simp: st_permits_def acl_permits_def)
  then have "matrix C db' c t = Some (set us)" using assms(3,9) by (simp add: matrix_def small_container_op)
  moreover have "matrix C db' c t = map_option (\<lambda>A. (A \<union> uids_of toset) - set unset) (matrix C db c t)"
    using db'(2) assms(9,11) by (simp add: spec_modify_def uids_of_def)
  ultimately show False using us(2) assms(15) by (auto simp: map_option_case split: option.splits)
qed

subsection \<open>A server on an empty in-memory database\<close>

definition demo_env :: "(string \<rightharpoonup> u8 list) authr_env" where
  "demo_env = \<lparr>db_api = mem_bdb, hmac_sha1 = (\<lambda>key msg. le_word (take 20 msg) + of_nat (length key)),
     build_cfg = \<lparr>long_model = ILP32, have_cray_portals = False\<rparr>, can_realloc = (\<lambda>n. True)\<rparr>"

definition demo_init :: "(string \<rightharpoonup> u8 list) authr_state" where
  "demo_init = \<lparr>acl_db = Some Map.empty, authr_svc_key = [1, 2, 3], acl_db_enabled = True,
     caps_enabled = True, creds_enabled = False, authr_counter = zero_counters\<rparr>"

definition demo_cred :: lwfs_cred where
  "demo_cred = \<lparr>cred_data = \<lparr>uid = 5\<rparr>, cred_mac = 0\<rparr>"

definition demo_cap :: lwfs_cap where
  "demo_cap = \<lparr>cap_data = \<lparr>cid = 0, container_op = 1, cred = demo_cred\<rparr>, cap_mac = 0\<rparr>"

definition demo_owner_cap :: lwfs_cap where
  "demo_owner_cap = \<lparr>cap_data = \<lparr>cid = 7, container_op = 14, cred = demo_cred\<rparr>,
     cap_mac = hmac_sha1 demo_env [1, 2, 3] (cap_data_image \<lparr>cid = 7, container_op = 14, cred = demo_cred\<rparr>)\<rparr>"

text \<open>User 5 creates container 7; then user 9 gets the right to read it.\<close>

definition demo_created :: "(string \<rightharpoonup> u8 list) authr_state" where
  "demo_created = snd (the (create_container demo_env demo_init 7 demo_cap))"

definition demo_modified :: "(string \<rightharpoonup> u8 list) authr_state" where
  "demo_modified = snd (the (mod_acl demo_env demo_created 7 8 (Some [9]) None demo_owner_cap))"

lemma some_pair: "map_option fst r = Some a \<Longrightarrow> r = Some (a, snd (the r))"
  by (cases r) auto

lemma demo_create: "create_container demo_env demo_init 7 demo_cap = Some (Inr demo_owner_cap, demo_created)"
  unfolding demo_created_def by (rule some_pair) code_simp

lemma demo_modify:
  "mod_acl demo_env demo_created 7 8 (Some [9]) None demo_owner_cap = Some (LWFS_OK, demo_modified)"
  unfolding demo_modified_def by (rule some_pair) code_simp

interpretation demo_authr: authr_ilp32 demo_env "\<lambda>db. db"
  unfolding authr_ilp32_def authr_store_def authr_ilp32_axioms_def
  using mem_acl.acl_store_axioms by (simp add: demo_env_def)

lemma demo_reliable: "acl_reliable (db_api demo_env) (\<lambda>db. db)"
  using mem_acl.acl_reliable_axioms by (simp add: demo_env_def)

lemma demo_uids: "ordered_uid 5" "ordered_uid 9" "(5 :: lwfs_uid) \<noteq> inf_uid" "(9 :: lwfs_uid) \<noteq> inf_uid"
  by code_simp+

lemma demo_init_wf: "authr_wf (\<lambda>db. db) demo_init"
  by (simp add: demo_init_def authr_wf_def acl_wf_def acl_table_def)

lemma demo_uid_eqs: "uid (cred_data demo_cred) = 5" "cap_cred demo_cap = demo_cred" "cap_cred demo_owner_cap = demo_cred"
  by (simp_all add: demo_cap_def demo_owner_cap_def demo_cred_def)

lemma demo_reach_created: "authr_reach demo_env demo_init demo_created"
  by (rule authr_reach.step [OF authr_reach.start, where req = "Create_Container 7 demo_cap"])
    (simp_all add: demo_create demo_uid_eqs demo_uids)

lemma demo_reach_modified: "authr_reach demo_env demo_init demo_modified"
  by (rule authr_reach.step [OF demo_reach_created, where req = "Mod_Acl 7 8 (Some [9]) None demo_owner_cap"])
    (simp_all add: demo_modify demo_uids uids_of_def)

lemma demo_created_db: "acl_db demo_created = Some (the (acl_db demo_created))" "acl_db_enabled demo_created"
proof -
  have "acl_db demo_created \<noteq> None \<and> acl_db_enabled demo_created" by code_simp
  then show "acl_db demo_created = Some (the (acl_db demo_created))" "acl_db_enabled demo_created" by auto
qed

lemma demo_created_wf: "acl_wf (\<lambda>db. db) (the (acl_db demo_created))"
  using demo_authr.reach_wf [OF demo_reach_created demo_init_wf] demo_created_db by (simp add: authr_wf_def)

end
