(* ===== verification/Authr_Properties.thy ===== *)
theory Authr_Properties imports Authr_Run begin

section \<open>Properties of the authorization server\<close>

text \<open>
  The properties of the server as closed statements over the model of the code, each with a
  witness on the concrete server of \<open>Authr_Run\<close>. A hypothesis \<open>authr_store E C\<close> is the documented
  behaviour of Berkeley DB, \<open>authr_ilp32 E C\<close> adds a build with a 32-bit \<^verbatim>\<open>long\<close>, and
  \<open>acl_reliable\<close> that the database calls fail only on the documented key conditions.
\<close>

text \<open>C1: A request is authorized only if the capability names the container, carries the
  server's MAC, and the user is in the stored list of every requested operation.\<close>

theorem check_authorization_sound:
  assumes "authr_store E C" "check_authorization E st c op cap = Some LWFS_OK"
  shows "cid (cap_data cap) = c \<and> op AND container_op (cap_data cap) \<noteq> 0 \<and> cap_authentic E st cap \<and>
    st_permits C st c op (cap_uid cap)"
  using authr_store.authorization_checked [OF assms] by simp

theorem check_authorization_sound_witness:
  "cap_authentic demo_env demo_created demo_owner_cap \<and>
   st_permits (\<lambda>db. db) demo_created 7 LWFS_CONTAINER_READ (cap_uid demo_owner_cap)"
proof -
  have "check_authorization demo_env demo_created 7 LWFS_CONTAINER_READ demo_owner_cap = Some LWFS_OK"
    by code_simp
  from check_authorization_sound [OF demo_authr.authr_store_axioms this] show ?thesis by simp
qed

text \<open>C11: On a build with a 32-bit \<^verbatim>\<open>long\<close>, in every state a server on a well-formed
  and reliable database can reach, the verification of a list of capabilities succeeds exactly if each of them carries the
  server's MAC and its user is in the current list of each of its operations. The users of the capabilities, and the ones the
  requests have added, have ids whose four words are from -1 to \<open>2 ^ 31 - 2\<close> (\<open>ordered_uid\<close>), on which the
  comparison does not overflow. With a 64-bit \<^verbatim>\<open>long\<close> stored users may be denied.\<close>

theorem verify_caps_exact:
  assumes "authr_ilp32 E C" "acl_reliable (db_api E) C" "authr_wf C st0" "authr_reach E st0 st"
    "acl_db st \<noteq> None" "\<forall>cap\<in>set caps. ordered_uid (cap_uid cap)"
  shows "map_option fst (verify_caps E st caps) = Some LWFS_OK \<longleftrightarrow>
    (\<forall>cap\<in>set caps. authr_grants E C st cap)"
proof -
  obtain db where db: "acl_db st = Some db" using assms(5) by blast
  have wf: "acl_wf C db"
    using authr_ilp32.reach_wf [OF assms(1,4,3)] db by (simp add: authr_wf_def)
  have "map_option fst (verify_caps E st caps) = verify_cap_list E st caps"
    by (simp add: verify_caps_def Let_def option.map_comp comp_def option.map_ident)
  moreover have "verify_cap_list E st caps = Some LWFS_OK \<longleftrightarrow> (\<forall>cap\<in>set caps. authr_grants E C st cap)"
    using assms(6) authr_ilp32.verify_cap_list_exact [OF assms(1,2) db wf] by blast
  ultimately show ?thesis by simp
qed

theorem verify_caps_exact_witness:
  "map_option fst (verify_caps demo_env demo_modified [demo_owner_cap]) = Some LWFS_OK \<longleftrightarrow>
   (\<forall>cap\<in>set [demo_owner_cap]. authr_grants demo_env (\<lambda>db. db) demo_modified cap)"
proof (rule verify_caps_exact [OF demo_authr.authr_ilp32_axioms demo_reliable demo_init_wf demo_reach_modified])
  show "acl_db demo_modified \<noteq> None" by code_simp
  show "\<forall>cap\<in>set [demo_owner_cap]. ordered_uid (cap_uid cap)" by (simp add: demo_uid_eqs demo_uids)
qed

text \<open>C21: A capability that \<^verbatim>\<open>get_cap\<close> issues is accepted by
  \<^verbatim>\<open>verify_caps\<close> in the state it leaves.\<close>

theorem get_cap_verifies:
  assumes "get_cap E st c op cr = Some (Inr cap, st')"
  shows "cap_data cap = \<lparr>cid = c, container_op = op, cred = cr\<rparr> \<and>
    map_option fst (verify_caps E st' [cap]) = Some LWFS_OK"
proof -
  have ok: "check_cred st cr = LWFS_OK" "check_perm E st c op (uid (cred_data cr)) = Some LWFS_OK"
    "cap_data cap = \<lparr>cid = c, container_op = op, cred = cr\<rparr>"
    "cap_mac cap = hmac_sha1 E (authr_svc_key st) (cap_data_image (cap_data cap))"
    using assms by (auto simp: get_cap_def Let_def generate_cap_eq split: option.splits if_splits)
  obtain n where st': "st' = st\<lparr>authr_counter := n\<rparr>"
    using assms by (auto simp: get_cap_def Let_def split: option.splits if_splits prod.splits)
  have "check_cap E st cap = LWFS_OK" using ok(4) by (simp add: check_cap_OK cap_authentic_def)
  with ok show ?thesis by (simp add: st' verify_caps_def Let_def)
qed

theorem get_cap_verifies_witness:
  "\<exists>cap st'. get_cap demo_env demo_modified 7 8 demo_cred = Some (Inr cap, st') \<and>
     map_option fst (verify_caps demo_env st' [cap]) = Some LWFS_OK"
proof -
  have "\<exists>cap st'. get_cap demo_env demo_modified 7 8 demo_cred = Some (Inr cap, st')"
  proof -
    have "(case get_cap demo_env demo_modified 7 8 demo_cred of Some (Inr cap, st') \<Rightarrow> True | _ \<Rightarrow> False)"
      by code_simp
    then show ?thesis by (auto split: option.splits prod.splits sum.splits)
  qed
  then show ?thesis using get_cap_verifies by blast
qed

text \<open>A capability that verifies under the MAC of an issued one is that one: no field of it
  was changed, as far as the HMAC keeps the images of the issued data apart.\<close>

theorem verified_cap_untampered:
  assumes "inj_on (hmac key) M" "cap_data_image data \<in> M" "cap_data_image (cap_data cap) \<in> M"
    "generate_cap hmac key data = (rc, issued)" "cap_mac cap = cap_mac issued"
    "verify_cap hmac key cap = LWFS_OK"
  shows "cap = issued"
proof -
  have "issued = \<lparr>cap_data = data, cap_mac = hmac key (cap_data_image data)\<rparr>"
    using assms(4) by (simp add: generate_cap_eq)
  moreover from this have "hmac key (cap_data_image (cap_data cap)) = hmac key (cap_data_image data)"
    using assms(5,6) by (simp add: verify_cap_eq split: if_splits)
  then have "cap_data cap = data"
    using assms(1-3) by (simp add: inj_on_eq_iff cap_data_image_inject)
  ultimately show ?thesis using assms(5) by (cases cap) simp
qed

theorem verified_cap_untampered_witness:
  "demo_owner_cap = snd (generate_cap (hmac_sha1 demo_env) [1, 2, 3] (cap_data demo_owner_cap))"
proof (rule verified_cap_untampered)
  show "inj_on (hmac_sha1 demo_env [1, 2, 3]) {cap_data_image (cap_data demo_owner_cap)}" by simp
  show "verify_cap (hmac_sha1 demo_env) [1, 2, 3] demo_owner_cap = LWFS_OK"
    by (simp add: verify_cap_eq demo_owner_cap_def)
  show "cap_mac demo_owner_cap =
      cap_mac (snd (generate_cap (hmac_sha1 demo_env) [1, 2, 3] (cap_data demo_owner_cap)))"
    by (simp add: generate_cap_eq demo_owner_cap_def)
qed (simp_all add: generate_cap_eq)

text \<open>C16: On a build with a 32-bit \<^verbatim>\<open>long\<close>: when \<^verbatim>\<open>mod_acl\<close> answers
  \<^verbatim>\<open>LWFS_OK\<close>, every requested list of the container is the old one with the set users added and then
  the unset users removed, and every other list of every ordinary container is as before. The hypotheses: access lists are
  enabled, the stored lists are well-formed, the id of the container is below \<open>2 ^ 31\<close>, and the ids of the
  users have words from -1 to \<open>2 ^ 31 - 2\<close> (\<open>ordered_uid\<close>), the added ones not all ones, the mark of
  a removed entry. Nothing is claimed for a 64-bit
  \<^verbatim>\<open>long\<close>, with which the comparison is not an order.\<close>

theorem mod_acl_refines:
  assumes "authr_ilp32 E C" "mod_acl E st c op toset unset cap = Some (LWFS_OK, st')"
    "small_cid c" "acl_db_enabled st" "acl_db st = Some db" "acl_wf C db"
    "\<forall>u\<in>uids_of toset. ordered_uid u \<and> u \<noteq> inf_uid" "\<forall>u\<in>uids_of unset. ordered_uid u"
  shows "\<exists>db'. acl_db st' = Some db' \<and>
    matrix C db' = spec_modify (matrix C db) c op (uids_of toset) (uids_of unset)"
  by (rule authr_ilp32.mod_acl_OK [OF assms]) blast

theorem mod_acl_refines_witness:
  "\<exists>db'. acl_db demo_modified = Some db' \<and>
     matrix (\<lambda>db. db) db' = spec_modify (matrix (\<lambda>db. db) (the (acl_db demo_created))) 7 8 {9} {}"
proof -
  have "small_cid 7" by code_simp
  from mod_acl_refines [OF demo_authr.authr_ilp32_axioms demo_modify this demo_created_db(2,1) demo_created_wf] demo_uids
  show ?thesis by (simp add: uids_of_def)
qed

text \<open>When \<^verbatim>\<open>create_container\<close> answers with a capability, the container had no
  list before, its owner is in exactly the lists of modify-ACL, remove and read, every other list
  of it is empty, and the capability is an authentic one for these operations.\<close>

theorem create_container_refines:
  assumes "authr_store E C" "create_container E st c cap = Some (Inr new, st')"
    "small_cid c" "acl_db_enabled st"
  shows "\<exists>db db'. acl_db st = Some db \<and> acl_db st' = Some db' \<and>
    matrix C db' = spec_create (matrix C db) c (cap_uid cap) \<and> (\<forall>q. matrix C db c q = None) \<and>
    cap_data new = \<lparr>cid = c, container_op = owner_ops, cred = cap_cred cap\<rparr> \<and> cap_authentic E st' new"
proof -
  have "same_config st st'"
    using assms(2) dispatch_config [of E st "Create_Container c cap" "Cap_Response (Inr new)" st'] by simp
  then have "cap_mac new = hmac_sha1 E (authr_svc_key st) (cap_data_image (cap_data new)) \<Longrightarrow>
      cap_authentic E st' new"
    by (simp add: cap_authentic_def same_config_def)
  then show ?thesis by (rule_tac authr_store.create_container_OK [OF assms]) blast
qed

theorem create_container_refines_witness:
  "\<exists>db'. acl_db demo_created = Some db' \<and>
     matrix (\<lambda>db. db) db' = spec_create (matrix (\<lambda>db. db) Map.empty) 7 5"
proof -
  have "small_cid 7" by code_simp
  moreover have "acl_db_enabled demo_init" "acl_db demo_init = Some Map.empty"
    by (simp_all add: demo_init_def)
  ultimately show ?thesis
    using create_container_refines [OF demo_authr.authr_store_axioms demo_create]
    by (auto simp: demo_uid_eqs)
qed

text \<open>When \<^verbatim>\<open>remove_container\<close> answers \<^verbatim>\<open>LWFS_OK\<close>, the container
  existed, all its lists and its existence mark are gone, and no other container changed.\<close>

theorem remove_container_refines:
  assumes "authr_store E C" "remove_container E st c cap = Some (LWFS_OK, st')" "small_cid c"
  shows "\<exists>db db'. acl_db st = Some db \<and> acl_db st' = Some db' \<and> matrix C db c exist_op \<noteq> None \<and>
    matrix C db' = spec_remove (matrix C db) c"
  by (rule authr_store.remove_container_OK [OF assms]) blast

theorem remove_container_refines_witness:
  "\<exists>st' db'. remove_container demo_env demo_created 7 demo_owner_cap = Some (LWFS_OK, st') \<and>
     acl_db st' = Some db' \<and> matrix (\<lambda>db. db) db' 7 8 = None"
proof -
  have "map_option fst (remove_container demo_env demo_created 7 demo_owner_cap) = Some LWFS_OK" by code_simp
  from some_pair [OF this] obtain st' where
    run: "remove_container demo_env demo_created 7 demo_owner_cap = Some (LWFS_OK, st')" by blast
  have "small_cid 7" by code_simp
  from remove_container_refines [OF demo_authr.authr_store_axioms run this] run
  show ?thesis by (auto simp: spec_remove_def)
qed

text \<open>C20: Whatever a request answers, it changes an access-control list only as its kind allows. To remove or
  modify a list takes an authentic capability whose user currently holds the right to remove the container, or to
  modify its lists, and the list is one of the container that the request names; a modification changes
  only lists of requested operations, a removal leaves none. The creation of a
  container, which takes no right, only fills lists that did not exist: those of the container it names, or of
  one that the server chooses. Containers are named by the low 32 bits of their ids (\<open>same_lists\<close>),
  from which the keys of the database are made.\<close>

theorem acl_changes_are_authorized:
  assumes "authr_store E C" "authr_dispatch E st req = Some (resp, st')" "acl_db st = Some db"
    "acl_db st' = Some db'" "acl_table C db' d q \<noteq> acl_table C db d q"
  shows "(\<exists>c cap. req = Remove_Container c cap \<and> same_lists c d \<and> acl_table C db' d q = None \<and>
       cap_authentic E st cap \<and> st_permits C st c LWFS_CONTAINER_REMOVE (cap_uid cap)) \<or>
    (\<exists>c op toset unset cap. req = Mod_Acl c op toset unset cap \<and> same_lists c d \<and>
       q \<in> set container_ops \<and> q AND op \<noteq> 0 \<and>
       cap_authentic E st cap \<and> st_permits C st c LWFS_CONTAINER_MODACL (cap_uid cap)) \<or>
    (\<exists>c cap. req = Create_Container c cap \<and> (c = LWFS_CID_ANY \<or> same_lists c d) \<and> acl_table C db d q = None)"
proof (cases req)
  case (Create_Container c cap)
  then obtain r where "create_container E st c cap = Some (r, st')" using assms(2) by auto
  from create_container_db [OF this] obtain rc c' db1 rc2 where
    run: "authr_db_create_container (db_api E) db c = Some (rc, c', db1)"
      "db' = db1 \<or> put_initial_acls (db_api E) db1 c' owner_ops (cap_uid cap) container_ops = (rc2, db')"
    using assms(3,4) by auto
  from authr_store.db_create_change [OF assms(1) run(1), of d q] authr_store.db_create_same_id [OF assms(1) run(1)]
    authr_store.put_initial_acls_change [OF assms(1) _ subset_refl, of db1 c' owner_ops "cap_uid cap" rc2 db' d q]
    run(2) assms(5)
  have "(c = LWFS_CID_ANY \<or> same_lists c d) \<and> acl_table C db d q = None" by metis
  with Create_Container show ?thesis by simp
next
  case (Remove_Container c cap)
  then obtain r where "remove_container E st c cap = Some (r, st')" using assms(2) by auto
  from remove_container_db [OF this] obtain rc db1 rc2 where
    run: "check_authorization E st c LWFS_CONTAINER_REMOVE cap = Some LWFS_OK"
      "del_acls (db_api E) db c container_ops = (rc, db1)"
      "db' = db1 \<or> authr_db_remove_container (db_api E) db1 c = (rc2, db')"
    using assms(3-5) by auto
  from authr_store.del_acls_change [OF assms(1) run(2) subset_refl, of d q]
    authr_store.db_remove_change [OF assms(1), of db1 c rc2 db' d q] run(3) assms(5)
  have "same_lists c d \<and> acl_table C db' d q = None" by metis
  with authr_store.authorization_checked [OF assms(1) run(1)] Remove_Container show ?thesis by simp
next
  case (Mod_Acl c op toset unset cap)
  then obtain r where "mod_acl E st c op toset unset cap = Some (r, st')" using assms(2) by auto
  from mod_acl_db [OF this] obtain rc where
    run: "check_authorization E st c LWFS_CONTAINER_MODACL cap = Some LWFS_OK"
      "mod_acl_ops E db c op toset unset container_ops = (rc, db')"
    using assms(3-5) by auto
  from authr_store.mod_acl_ops_change [OF assms(1) run(2) subset_refl assms(5)]
    authr_store.authorization_checked [OF assms(1) run(1)] Mod_Acl show ?thesis by simp
qed (use assms(2-5) in \<open>auto dest!: readers_db\<close>)

theorem acl_changes_are_authorized_witness:
  "cap_authentic demo_env demo_created demo_owner_cap \<and> (8 :: lwfs_container_op) \<in> set container_ops \<and>
   st_permits (\<lambda>db. db) demo_created 7 LWFS_CONTAINER_MODACL (cap_uid demo_owner_cap)"
proof -
  have run: "authr_dispatch demo_env demo_created (Mod_Acl 7 8 (Some [9]) None demo_owner_cap) =
      Some (Void_Response LWFS_OK, demo_modified)" by (simp add: demo_modify)
  have "acl_table (\<lambda>db. db) (the (acl_db demo_modified)) 7 8 \<noteq> acl_table (\<lambda>db. db) (the (acl_db demo_created)) 7 8"
    by code_simp
  moreover have "acl_db demo_modified = Some (the (acl_db demo_modified))"
  proof -
    have "acl_db demo_modified \<noteq> None" by code_simp
    then show ?thesis by auto
  qed
  ultimately show ?thesis
    using acl_changes_are_authorized [OF demo_authr.authr_store_axioms run demo_created_db(1)] by simp
qed

text \<open>Revocation: once \<^verbatim>\<open>mod_acl\<close> has answered \<^verbatim>\<open>LWFS_OK\<close> to a
  request that unsets a user for an operation, no list of capabilities with one of that user for
  that operation and container verifies any more.\<close>

theorem revoked_user_denied:
  assumes "authr_ilp32 E C" "mod_acl E st c op toset (Some unset) mcap = Some (LWFS_OK, st')"
    "small_cid c" "acl_db_enabled st" "acl_db st = Some db" "acl_wf C db"
    "\<forall>u\<in>uids_of toset. ordered_uid u \<and> u \<noteq> inf_uid" "\<forall>u\<in>set unset. ordered_uid u"
    "t \<in> set container_ops" "t \<noteq> LWFS_CONTAINER_CREATE" "t AND op \<noteq> 0"
    "cap \<in> set caps" "cid (cap_data cap) = c" "container_op (cap_data cap) AND t \<noteq> 0"
    "cap_uid cap \<in> set unset"
  shows "map_option fst (verify_caps E st' caps) \<noteq> Some LWFS_OK"
  using revoked_not_verified [OF assms] by (auto dest: verify_caps_list)

theorem revoked_user_denied_witness:
  "\<exists>st'. mod_acl demo_env demo_created 7 8 None (Some [5]) demo_owner_cap = Some (LWFS_OK, st') \<and>
     map_option fst (verify_caps demo_env st' [demo_owner_cap]) \<noteq> Some LWFS_OK"
proof -
  have "map_option fst (mod_acl demo_env demo_created 7 8 None (Some [5]) demo_owner_cap) = Some LWFS_OK"
    by code_simp
  from some_pair [OF this] obtain st' where
    run: "mod_acl demo_env demo_created 7 8 None (Some [5]) demo_owner_cap = Some (LWFS_OK, st')" by blast
  have data: "cid (cap_data demo_owner_cap) = 7" "container_op (cap_data demo_owner_cap) AND 8 \<noteq> 0"
    "(8 :: lwfs_container_op) \<in> set container_ops" "8 \<noteq> LWFS_CONTAINER_CREATE"
    "(8 :: lwfs_container_op) AND 8 \<noteq> 0" "small_cid 7" by code_simp+
  have "map_option fst (verify_caps demo_env st' [demo_owner_cap]) \<noteq> Some LWFS_OK"
    using revoked_user_denied [OF demo_authr.authr_ilp32_axioms run data(6) demo_created_db(2,1) demo_created_wf _ _ data(3-5) _
        data(1,2), of "[demo_owner_cap]"] demo_uids
    by (simp add: uids_of_def demo_uid_eqs)
  with run show ?thesis by blast
qed

text \<open>If some container id after the counter is unused, the loop that draws fresh ids ends,
  with an id that was unused, the counter set to it and every list as before.\<close>

theorem create_fresh_cid_terminates:
  assumes "acl_reliable B C" "acl_table C db (last_cid C db + 1 + of_nat n) exist_op = None"
  shows "\<exists>c db'. authr_db_create_container B db LWFS_CID_ANY = Some (LWFS_OK, c, db') \<and>
    acl_table C db c exist_op = None \<and> last_cid C db' = c \<and>
    (\<forall>d q. acl_table C db' d q = acl_table C db d q)"
  using acl_reliable.create_fresh_cid_returns [OF assms]
  by (auto simp: authr_db_create_container_def)

theorem create_fresh_cid_terminates_witness:
  "\<exists>c db'. authr_db_create_container mem_bdb Map.empty LWFS_CID_ANY = Some (LWFS_OK, c, db')"
  using create_fresh_cid_terminates [OF mem_acl.acl_reliable_axioms, of Map.empty 0]
  by (auto simp: acl_table_def)

text \<open>With a 32-bit \<^verbatim>\<open>long\<close>, adding and removing users are set union and set
  difference on the stored lists, and the result is sorted without duplicates again.\<close>

theorem uid_arrays_are_sets:
  assumes "long_model cfg = ILP32" "\<not> have_cray_portals cfg" "acl_ok orig"
    "\<forall>u\<in>set toadd. ordered_uid u \<and> u \<noteq> inf_uid" "\<forall>u\<in>set torm. ordered_uid u"
    "add_uids cfg can_alloc orig toadd = Inr added" "remove_uids cfg added torm = (res, torm')"
  shows "acl_ok added \<and> set added = set orig \<union> set toadd \<and>
    acl_ok res \<and> set res = (set orig \<union> set toadd) - set torm"
proof -
  have "\<forall>u\<in>set orig \<union> set toadd. ordered_uid u \<and> u \<noteq> inf_uid"
    using assms(3,4) by (auto simp: acl_ok_def)
  note a = add_uids_ILP32 [OF assms(1,2) this assms(6)]
  then have "\<forall>u\<in>set added. ordered_uid u \<and> u \<noteq> inf_uid" by (simp add: acl_ok_def)
  from remove_uids_ILP32 [OF assms(1,2) this assms(5,7)] a show ?thesis by simp
qed

theorem uid_arrays_are_sets_witness:
  "acl_ok [7, 5]"
proof -
  let ?cfg = "\<lparr>long_model = ILP32, have_cray_portals = False\<rparr>"
  have run: "add_uids ?cfg (\<lambda>n. True) [9, 5] [7, 5] = Inr [9, 7, 5]"
    "remove_uids ?cfg [9, 7, 5] [9, 9] = ([7, 5], [9])" by code_simp+
  have "acl_ok [9, 5]" unfolding acl_ok_def by code_simp
  moreover have "\<forall>u\<in>set [7, 5 :: lwfs_uid]. ordered_uid u \<and> u \<noteq> inf_uid"
    "\<forall>u\<in>set [9, 9 :: lwfs_uid]. ordered_uid u" by code_simp+
  ultimately show ?thesis using uid_arrays_are_sets [of ?cfg, OF _ _ _ _ _ run] by simp
qed

text \<open>C23: With a 64-bit \<^verbatim>\<open>long\<close> the comparison is not an order, and adding a user
  to the list of another loses that other one: the binary search of \<^verbatim>\<open>check_perm\<close> no
  longer finds the first of two stored users.\<close>

theorem long64_loses_users:
  assumes "long_model (build_cfg E) = LP64" "\<not> have_cray_portals (build_cfg E)"
    "\<And>n. can_realloc E n" "a \<noteq> b"
    "authr_db_get_acl (db_api E) db c LWFS_CONTAINER_READ = Inr [a, b]"
    "acl_db_enabled st" "acl_db st = Some db"
  shows "add_uids (build_cfg E) (can_realloc E) [a] [b] = Inr [a, b] \<and>
    check_perm E st c LWFS_CONTAINER_READ a = Some LWFS_ERR_ACCESS \<and>
    check_perm E st c LWFS_CONTAINER_READ b = Some LWFS_OK"
proof -
  have cmp: "acl_compare (build_cfg E) x y = (if x = y then 0 else 1)" for x y
    using assms(1,2) by (simp add: acl_compare_def compare_uids_LP64)
  have sort: "qsort (acl_compare (build_cfg E)) [x, y] = [y, x]" if "x \<noteq> y" for x y
    using that by (simp add: qsort.simps [of _ "[_, _]"] qsort.simps [of _ "[_]"] cmp)
  have "dedup_uids (build_cfg E) [a, b] = [a, b]"
    using assms(4) by (simp add: dedup_uids_def remove_dups_def sort cmp)
  then have "add_uids (build_cfg E) (can_realloc E) [a] [b] = Inr [a, b]"
    using assms(3) by (simp add: add_uids_def)
  moreover have search: "bsearch (acl_compare (build_cfg E)) a [a, b] = None"
    "bsearch (acl_compare (build_cfg E)) b [a, b] = Some 1"
    using assms(4) by (simp_all add: bsearch_def bsearch_range.simps [of _ _ _ 0]
        bsearch_range.simps [of _ _ _ "Suc (Suc 0)"] cmp)
  moreover have "check_perm E st c LWFS_CONTAINER_READ u =
      Some (case bsearch (acl_compare (build_cfg E)) u [a, b] of None \<Rightarrow> LWFS_ERR_ACCESS | Some i \<Rightarrow> LWFS_OK)" for u
    using assms(5-7) by (simp add: check_perm_def container_ops_eq container_op_defs split: option.split)
  ultimately show ?thesis by simp
qed

theorem long64_loses_users_witness:
  "check_perm (demo_env\<lparr>build_cfg := \<lparr>long_model = LP64, have_cray_portals = False\<rparr>\<rparr>)
     (demo_init\<lparr>acl_db := Some [''00000007:0008'' \<mapsto> bytes_of_uids [5, 9]]\<rparr>) 7 LWFS_CONTAINER_READ 5 =
   Some LWFS_ERR_ACCESS"
proof -
  let ?E = "demo_env\<lparr>build_cfg := \<lparr>long_model = LP64, have_cray_portals = False\<rparr>\<rparr>"
  let ?db = "[''00000007:0008'' \<mapsto> bytes_of_uids [5, 9]]"
  have "authr_db_get_acl (db_api ?E) ?db 7 LWFS_CONTAINER_READ = Inr [5, 9]" by code_simp
  from long64_loses_users [of ?E 5 9, OF _ _ _ _ this] show ?thesis
    by (simp add: demo_env_def demo_init_def)
qed

text \<open>Container ids that agree in their low 32 bits share their access-control lists.\<close>

theorem container_ids_alias:
  "authr_db_get_acl B db (c + 2 ^ 32 * d) op = authr_db_get_acl B db c op \<and>
   authr_db_put_acl B db (c + 2 ^ 32 * d) op us = authr_db_put_acl B db c op us \<and>
   authr_db_del_acl B db (c + 2 ^ 32 * d) op = authr_db_del_acl B db c op"
proof -
  have "(ucast (c + 2 ^ 32 * d) :: u32) = ucast c"
    by transfer (simp add: take_bit_eq_mod mod_add_eq mod_mod_cancel)
  then have "make_keystr (c + 2 ^ 32 * d) op n = make_keystr c op n" for n
    by (simp add: make_keystr_def)
  then show ?thesis
    by (simp add: authr_db_get_acl_def authr_db_put_acl_def authr_db_del_acl_def)
qed

text \<open>A container created under a fresh id never gets its existence mark, so
  \<^verbatim>\<open>authr_db_remove_container\<close> answers \<^verbatim>\<open>LWFS_ERR_NOENT\<close> for it.\<close>

theorem fresh_container_not_removable:
  assumes "acl_store B C" "authr_db_create_container B db LWFS_CID_ANY = Some (LWFS_OK, c, db')"
  shows "authr_db_remove_container B db' c = (LWFS_ERR_NOENT, db')"
proof -
  have "create_fresh_cid B db = Some (LWFS_OK, c, db')"
    using assms(2) by (simp add: authr_db_create_container_def)
  from acl_store.create_fresh_cid_result(2) [OF assms(1) this refl]
  show ?thesis by (simp add: authr_db_remove_container_def)
qed

theorem fresh_container_not_removable_witness:
  "\<exists>c db'. authr_db_create_container mem_bdb Map.empty LWFS_CID_ANY = Some (LWFS_OK, c, db') \<and>
     authr_db_remove_container mem_bdb db' c = (LWFS_ERR_NOENT, db')"
proof -
  obtain c db' where run: "authr_db_create_container mem_bdb Map.empty LWFS_CID_ANY = Some (LWFS_OK, c, db')"
    using acl_reliable.create_fresh_cid_returns [OF mem_acl.acl_reliable_axioms, of Map.empty 0]
    by (auto simp: acl_table_def authr_db_create_container_def)
  with fresh_container_not_removable [OF mem_acl.acl_store_axioms run] show ?thesis by blast
qed

text \<open>A server started with \<^verbatim>\<open>verify_caps\<close> false never opens its database, and
  a request to create a container then follows the null pointer.\<close>

theorem create_without_db_undefined:
  assumes "lwfs_authr_srvr_init R L False db_clear st0 = Some (Init_rc LWFS_OK, st)" "acl_db st0 = None"
  shows "create_container E st c cap = None \<and> map_option fst (verify_caps E st caps) = Some LWFS_OK"
proof -
  have st: "acl_db st = None" "\<not> acl_db_enabled st" "\<not> caps_enabled st" "\<not> creds_enabled st"
    using assms by (auto simp: lwfs_authr_srvr_init_def Let_def split: if_splits prod.splits)
  have "verify_cap_list E st caps = Some LWFS_OK"
    by (induction caps) (simp_all add: check_cred_def check_cap_def check_perm_def st)
  then show ?thesis by (simp add: create_container_def verify_caps_def Let_def st)
qed

theorem create_without_db_undefined_witness:
  "create_container demo_env
     (snd (the (lwfs_authr_srvr_init \<lparr>rpc_init_rc = LWFS_OK, service_init_rc = LWFS_OK,
        add_ops_rc = (\<lambda>n. LWFS_OK), rand_bytes = (\<lambda>n. (1, replicate n 0))\<rparr>
        \<lparr>db_create_rc = 0, remove_rc = 0, remove_enoent = False, open_db = (\<lambda>b. Inr Map.empty)\<rparr>
        False True (demo_init\<lparr>acl_db := None\<rparr>)))) 7 demo_cap = None"
proof -
  let ?r = "lwfs_authr_srvr_init \<lparr>rpc_init_rc = LWFS_OK, service_init_rc = LWFS_OK,
        add_ops_rc = (\<lambda>n. LWFS_OK), rand_bytes = (\<lambda>n. (1, replicate n 0))\<rparr>
        \<lparr>db_create_rc = 0, remove_rc = 0, remove_enoent = False, open_db = (\<lambda>b. Inr Map.empty)\<rparr>
        False True (demo_init\<lparr>acl_db := None\<rparr>)"
  have "?r = Some (Init_rc LWFS_OK, snd (the ?r))"
    by (simp add: lwfs_authr_srvr_init_def generate_cap_key_def)
  from create_without_db_undefined [OF this] show ?thesis by simp
qed

end
