(* ===== verification/Lwfs_Types.thy ===== *)
theory Lwfs_Types imports Authr_Cap begin

section \<open>Services, remote memory and objects\<close>

text \<open>
  The structures of \<^verbatim>\<open>common/types/xdr_types.x\<close> that more than one server uses: the address of
  memory in another process, the description of a service, objects, and the headers of a
  remote procedure call. Return codes travel as their numbers.
\<close>

record lwfs_remote_pid =
  nid :: u32
  pid :: u32

record lwfs_rma =
  match_id :: lwfs_remote_pid
  buffer_id :: u32
  rma_offset :: u64
  match_bits :: u64
  rma_len :: u64
  local_buf :: u64

datatype lwfs_rpc_encode = LWFS_RPC_XDR

record lwfs_service =
  rpc_encode :: lwfs_rpc_encode
  req_addr :: lwfs_rma
  max_reqs :: u32
  req_thread :: u64
  svc_thread_pool :: u64

definition zero_rma :: lwfs_rma where
  "zero_rma = \<lparr>match_id = \<lparr>nid = 0, pid = 0\<rparr>, buffer_id = 0, rma_offset = 0, match_bits = 0, rma_len = 0, local_buf = 0\<rparr>"

definition zero_service :: lwfs_service where
  "zero_service = \<lparr>rpc_encode = LWFS_RPC_XDR, req_addr = zero_rma, max_reqs = 0, req_thread = 0, svc_thread_pool = 0\<rparr>"

text \<open>A service at the process \<open>n\<close>.\<close>

definition Service_Descriptor :: "nat \<Rightarrow> lwfs_service" where
  "Service_Descriptor n = zero_service\<lparr>req_addr := zero_rma\<lparr>match_id := \<lparr>nid = 0, pid = of_nat n\<rparr>\<rparr>\<rparr>"

datatype lwfs_entry_type =
    LWFS_GENERIC_OBJ | LWFS_FILE_ENTRY | LWFS_DIR_ENTRY | LWFS_LINK_ENTRY
  | LWFS_FILE_OBJ | LWFS_SEG_OBJ | LWFS_NS_OBJ

record lwfs_time =
  seconds :: u32
  nseconds :: u32

record lwfs_stat_data =
  atime :: lwfs_time
  mtime :: lwfs_time
  ctime :: lwfs_time
  st_size :: u64

record lwfs_obj =
  obj_svc :: lwfs_service
  obj_type :: lwfs_entry_type
  obj_cid :: lwfs_cid
  obj_oid :: lwfs_oid
  obj_lock :: u32

type_synonym lwfs_txn = lwfs_obj \<comment> \<open>its only field, the journal\<close>

record lwfs_request_header =
  rq_id :: u64
  rq_opcode :: lwfs_opcode
  rq_fetch_args :: bool
  rq_args_addr :: lwfs_rma
  rq_data_addr :: lwfs_rma
  rq_res_addr :: lwfs_rma

record lwfs_result_header =
  rs_id :: u64
  rs_fetch_result :: bool
  rs_result_addr :: lwfs_rma
  rs_rc :: u32

definition zero_request_header :: lwfs_request_header where
  "zero_request_header = \<lparr>rq_id = 0, rq_opcode = 0, rq_fetch_args = False, rq_args_addr = zero_rma,
     rq_data_addr = zero_rma, rq_res_addr = zero_rma\<rparr>"

definition zero_result_header :: lwfs_result_header where
  "zero_result_header = \<lparr>rs_id = 0, rs_fetch_result = False, rs_result_addr = zero_rma, rs_rc = 0\<rparr>"

definition LWFS_REQ_PT_INDEX :: u32 where "LWFS_REQ_PT_INDEX = 1"
definition LWFS_RES_PT_INDEX :: u32 where "LWFS_RES_PT_INDEX = 2"
definition LWFS_DATA_PT_INDEX :: u32 where "LWFS_DATA_PT_INDEX = 3"
definition LWFS_LONG_ARGS_PT_INDEX :: u32 where "LWFS_LONG_ARGS_PT_INDEX = 4"
definition LWFS_LONG_RES_PT_INDEX :: u32 where "LWFS_LONG_RES_PT_INDEX = 5"
definition LWFS_SHORT_REQUEST_SIZE :: u64 where "LWFS_SHORT_REQUEST_SIZE = 512"
definition LWFS_SHORT_RESULT_SIZE :: u64 where "LWFS_SHORT_RESULT_SIZE = 512"
definition LWFS_OP_NULL :: lwfs_opcode where "LWFS_OP_NULL = 0"

text \<open>The numbers of the enumerations, which start at 0 and have no gaps.\<close>

definition return_codes :: "lwfs_return_code list" where
  "return_codes = [LWFS_OK, LWFS_ERR, LWFS_ERR_TIMEDOUT, LWFS_ERR_NOTSUPP, LWFS_ERR_NOSPACE, LWFS_ERR_STORAGE, LWFS_ERR_NO_OBJ,
     LWFS_ERR_NAMING, LWFS_ERR_PERM, LWFS_ERR_NOENT, LWFS_ERR_ACCESS, LWFS_ERR_EXIST, LWFS_ERR_NOTDIR, LWFS_ERR_NOTFILE,
     LWFS_ERR_NOTNS, LWFS_ERR_ISDIR, LWFS_ERR_RPC, LWFS_ERR_ENCODE, LWFS_ERR_DECODE, LWFS_ERR_SEC, LWFS_ERR_GENKEY,
     LWFS_ERR_VERIFYCRED, LWFS_ERR_VERIFYCAP, LWFS_ERR_LOCK_EXISTS, LWFS_ERR_NO_LOCK, LWFS_ERR_TXN]"

definition entry_types :: "lwfs_entry_type list" where
  "entry_types = [LWFS_GENERIC_OBJ, LWFS_FILE_ENTRY, LWFS_DIR_ENTRY, LWFS_LINK_ENTRY, LWFS_FILE_OBJ, LWFS_SEG_OBJ, LWFS_NS_OBJ]"

fun position :: "'a \<Rightarrow> 'a list \<Rightarrow> nat" where
  "position x [] = 0"
| "position x (y # ys) = (if x = y then 0 else Suc (position x ys))"

definition rc_code :: "lwfs_return_code \<Rightarrow> u32" where
  "rc_code rc = of_nat (position rc return_codes)"

definition entry_type_code :: "lwfs_entry_type \<Rightarrow> u32" where
  "entry_type_code t = of_nat (position t entry_types)"

lemma rc_code_0 [simp]: "rc_code rc = 0 \<longleftrightarrow> rc = LWFS_OK"
  by (cases rc) (simp_all add: rc_code_def return_codes_def)

lemma rc_code_inject [simp]: "rc_code a = rc_code b \<longleftrightarrow> a = b"
proof
  have "rc_code rc = of_nat n \<Longrightarrow> n < 26 \<Longrightarrow> rc = return_codes ! n" for rc n
  proof -
    assume "rc_code rc = of_nat n" "n < 26"
    moreover have "position rc return_codes < 26" "return_codes ! position rc return_codes = rc"
      by (cases rc; simp add: return_codes_def)+
    ultimately show ?thesis by (simp add: rc_code_def word_of_nat_eq_iff take_bit_nat_eq_self)
  qed
  moreover have "\<exists>n<26. rc_code rc = of_nat n" for rc
    by (rule exI [of _ "position rc return_codes"]) (cases rc; simp add: rc_code_def return_codes_def)
  moreover assume "rc_code a = rc_code b"
  ultimately show "a = b" by metis
qed simp

lemma entry_type_position: "position t entry_types < 7 \<and> entry_types ! position t entry_types = t"
  by (cases t) (simp_all add: entry_types_def)

end
