(* ===== verification/Naming_Db.thy ===== *)
theory Naming_Db imports C_Library Berkeley_DB Lwfs_Types begin

section \<open>The naming database\<close>

text \<open>
  \<^verbatim>\<open>server/naming_server/naming_db.c\<close>: a primary table of directory entries under
  (parent, name), a secondary index by entry id without duplicates, a tertiary index by parent
  with duplicates, and a table of inodes under the id of their object. Berkeley DB maintains
  the indices with the primary table, so the three handles are one value \<open>dbp1\<close>; the calls
  the code makes on them are the fields of \<open>naming_env\<close>. A definition returns \<open>None\<close> where the
  C code has no defined return: it calls \<^verbatim>\<open>abort\<close>, follows a null or an
  uninitialised pointer, or leaves the bounds of an array. The link count, an \<^verbatim>\<open>int\<close> in C, has no
  bound here: the model is that of objects with fewer than \<open>2 ^ 31\<close> names.
\<close>

subsection \<open>Data\<close>

record naming_db_inode =
  entry_obj :: lwfs_obj
  ref_cnt :: int
  stat_data :: lwfs_stat_data
  file_obj_valid :: bool
  file_obj :: lwfs_obj

record naming_db_dirent =
  d_oid :: lwfs_oid
  d_inode_oid :: lwfs_oid
  d_hide :: bool
  d_name :: string
  d_parent_oid :: lwfs_oid
  d_link :: lwfs_oid
  d_deleted :: bool

record naming_db_entry =
  dirent :: naming_db_dirent
  inode :: naming_db_inode

record db1_key =
  k_parent_oid :: lwfs_oid
  k_name :: string

definition LWFS_NAME_LEN :: nat where "LWFS_NAME_LEN = 64"

text \<open>Memory that \<^verbatim>\<open>memset\<close> has cleared.\<close>

definition zero_time :: lwfs_time where "zero_time = \<lparr>seconds = 0, nseconds = 0\<rparr>"
definition zero_stat :: lwfs_stat_data where
  "zero_stat = \<lparr>atime = zero_time, mtime = zero_time, ctime = zero_time, st_size = 0\<rparr>"
definition zero_obj :: lwfs_obj where
  "zero_obj = \<lparr>obj_svc = zero_service, obj_type = LWFS_GENERIC_OBJ, obj_cid = 0, obj_oid = 0, obj_lock = 0\<rparr>"
definition zero_inode :: naming_db_inode where
  "zero_inode = \<lparr>entry_obj = zero_obj, ref_cnt = 0, stat_data = zero_stat, file_obj_valid = False, file_obj = zero_obj\<rparr>"
definition zero_dirent :: naming_db_dirent where
  "zero_dirent = \<lparr>d_oid = 0, d_inode_oid = 0, d_hide = False, d_name = '''', d_parent_oid = 0, d_link = 0, d_deleted = False\<rparr>"
definition zero_entry :: naming_db_entry where
  "zero_entry = \<lparr>dirent = zero_dirent, inode = zero_inode\<rparr>"

lemmas zero_defs [lwfs_defs] =
  zero_time_def zero_stat_def zero_obj_def zero_inode_def zero_dirent_def zero_entry_def

subsection \<open>The environment and the state\<close>

text \<open>
  \<open>db3_next i\<close> is the result of the \<open>i\<close>-th \<^verbatim>\<open>DB_NEXT_DUP\<close> after
  \<^verbatim>\<open>DB_SET\<close>; \<open>db1_probe\<close> is the return code of the partial
  \<^verbatim>\<open>get\<close>; the \<open>can_malloc\<close> fields say whether an array of \<open>n\<close> directory entries,
  database entries or results can be had; \<open>uuid_gen n\<close> is the \<open>n\<close>-th id of the vendored UUID generator;
  \<open>verify_rpc\<close> is \<^verbatim>\<open>lwfs_verify_caps_sync\<close>.
\<close>

record ('d, 'i) naming_env =
  db1_api :: "('d, db1_key, naming_db_dirent) bdb"
  db1_probe :: "'d \<Rightarrow> db1_key \<Rightarrow> db_rc"
  db2_get_api :: "'d \<Rightarrow> lwfs_oid \<Rightarrow> db_rc + naming_db_dirent"
  db2_del_api :: "'d \<Rightarrow> lwfs_oid \<Rightarrow> db_rc \<times> 'd"
  db3_cursor :: "'d \<Rightarrow> db_rc"
  db3_set :: "'d \<Rightarrow> lwfs_oid \<Rightarrow> db_rc + naming_db_dirent"
  db3_next :: "'d \<Rightarrow> lwfs_oid \<Rightarrow> nat \<Rightarrow> db_rc + naming_db_dirent"
  db3_count :: "'d \<Rightarrow> lwfs_oid \<Rightarrow> db_rc + nat"
  db3_close :: "'d \<Rightarrow> db_rc"
  inode_api :: "('i, lwfs_oid, naming_db_inode) bdb"
  uuid_gen :: "nat \<Rightarrow> lwfs_oid"
  verify_rpc :: "lwfs_cap list \<Rightarrow> lwfs_return_code"
  can_malloc_dirents :: "nat \<Rightarrow> bool"
  can_malloc_entries :: "nat \<Rightarrow> bool"
  can_malloc_results :: "nat \<Rightarrow> bool"

record ('d, 'i) naming_state =
  dbp1 :: 'd
  dbp_inode :: 'i
  oid_count :: nat
  naming_svc :: lwfs_service

definition naming_db_gen_oid ::
  "('d, 'i) naming_env \<Rightarrow> ('d, 'i) naming_state \<Rightarrow> lwfs_oid \<times> ('d, 'i) naming_state" where
  "naming_db_gen_oid N st = (uuid_gen N (oid_count st), st\<lparr>oid_count := oid_count st + 1\<rparr>)"

subsection \<open>The tables\<close>

definition db1_keygen :: "lwfs_oid \<Rightarrow> string \<Rightarrow> db1_key" where
  "db1_keygen parent_oid name = \<lparr>k_parent_oid = parent_oid, k_name = strncpy LWFS_NAME_LEN name\<rparr>"

definition db1_exists :: "('d, 'i) naming_env \<Rightarrow> 'd \<Rightarrow> db1_key \<Rightarrow> bool" where
  "db1_exists N d key1 = (case db1_probe N d key1 of DB_OK \<Rightarrow> True | DB_NOTFOUND \<Rightarrow> False | _ \<Rightarrow> False)"

text \<open>The two tables are filled by the same code; \<open>put_rc\<close> is its treatment of the result.\<close>

definition put_rc :: "db_rc \<Rightarrow> lwfs_return_code" where
  "put_rc rc = (case rc of DB_OK \<Rightarrow> LWFS_OK | DB_KEYEXIST \<Rightarrow> LWFS_ERR_EXIST | _ \<Rightarrow> LWFS_ERR_NAMING)"

definition db1_put ::
  "('d, 'i) naming_env \<Rightarrow> 'd \<Rightarrow> db1_key \<Rightarrow> naming_db_dirent \<Rightarrow> bool \<Rightarrow> lwfs_return_code \<times> 'd" where
  "db1_put N d key1 de noov = (let (rc, d') = bdb_put (db1_api N) d noov key1 de in (put_rc rc, d'))"

definition db1_get :: "('d, 'i) naming_env \<Rightarrow> 'd \<Rightarrow> db1_key \<Rightarrow> lwfs_return_code + naming_db_dirent" where
  "db1_get N d key1 =
     (case bdb_get (db1_api N) d key1 of
        Inr de \<Rightarrow> Inr de
      | Inl rc \<Rightarrow> Inl (case rc of DB_NOTFOUND \<Rightarrow> LWFS_ERR_NOENT | _ \<Rightarrow> LWFS_ERR_NAMING))"

definition db2_get :: "('d, 'i) naming_env \<Rightarrow> 'd \<Rightarrow> lwfs_oid \<Rightarrow> lwfs_return_code + naming_db_dirent" where
  "db2_get N d oid = (case db2_get_api N d oid of Inl rc \<Rightarrow> Inl LWFS_ERR_NAMING | Inr de \<Rightarrow> Inr de)"

definition inode_put ::
  "('d, 'i) naming_env \<Rightarrow> 'i \<Rightarrow> lwfs_oid \<Rightarrow> naming_db_inode \<Rightarrow> bool \<Rightarrow> lwfs_return_code \<times> 'i" where
  "inode_put N i ikey ino noov = (let (rc, i') = bdb_put (inode_api N) i noov ikey ino in (put_rc rc, i'))"

definition inode_get :: "('d, 'i) naming_env \<Rightarrow> 'i \<Rightarrow> lwfs_oid \<Rightarrow> lwfs_return_code + naming_db_inode" where
  "inode_get N i ikey =
     (case bdb_get (inode_api N) i ikey of
        Inr ino \<Rightarrow> Inr ino
      | Inl rc \<Rightarrow> Inl (case rc of DB_NOTFOUND \<Rightarrow> LWFS_ERR_NOENT | _ \<Rightarrow> LWFS_ERR_NAMING))"

definition inode_del :: "('d, 'i) naming_env \<Rightarrow> 'i \<Rightarrow> naming_db_inode \<Rightarrow> lwfs_return_code \<times> 'i" where
  "inode_del N i ino =
     (let (rc, i') = bdb_del (inode_api N) i (obj_oid (entry_obj ino)) in
      (if rc \<noteq> DB_OK then LWFS_ERR_NAMING else LWFS_OK, i'))"

definition inode_get_by_dirent ::
  "('d, 'i) naming_env \<Rightarrow> 'i \<Rightarrow> naming_db_dirent \<Rightarrow> lwfs_return_code + naming_db_inode" where
  "inode_get_by_dirent N i de = inode_get N i (d_inode_oid de)"

definition inode_increment_refcnt ::
  "('d, 'i) naming_env \<Rightarrow> 'i \<Rightarrow> lwfs_oid \<Rightarrow> lwfs_return_code \<times> 'i" where
  "inode_increment_refcnt N i ikey =
     (case inode_get N i ikey of
        Inl rc \<Rightarrow> (LWFS_ERR_NAMING, i)
      | Inr ino \<Rightarrow>
          let (rc, i') = inode_put N i ikey (ino\<lparr>ref_cnt := ref_cnt ino + 1\<rparr>) False in
          (if rc \<noteq> LWFS_OK then LWFS_ERR_NAMING else LWFS_OK, i'))"

text \<open>
  \<^verbatim>\<open>db_del\<close>: the entry goes, then the count of its inode. The return codes of the
  inode operations are not looked at, and a negative count ends the process.
\<close>

definition db_del ::
  "('d, 'i) naming_env \<Rightarrow> ('d, 'i) naming_state \<Rightarrow> naming_db_entry \<Rightarrow>
     (lwfs_return_code \<times> naming_db_entry \<times> ('d, 'i) naming_state) option" where
  "db_del N st entry =
     (let (rc, d') = db2_del_api N (dbp1 st) (d_oid (dirent entry)); st1 = st\<lparr>dbp1 := d'\<rparr> in
      if rc \<noteq> DB_OK then Some (LWFS_ERR_NAMING, entry, st1)
      else let ino = (inode entry)\<lparr>ref_cnt := ref_cnt (inode entry) - 1\<rparr>;
               entry' = entry\<lparr>inode := ino\<rparr> in
        if ref_cnt ino = 0 then
          Some (LWFS_OK, entry', st1\<lparr>dbp_inode := snd (inode_del N (dbp_inode st) ino)\<rparr>)
        else if ref_cnt ino > 0 then
          Some (LWFS_OK, entry',
            st1\<lparr>dbp_inode := snd (inode_put N (dbp_inode st) (obj_oid (entry_obj ino)) ino False)\<rparr>)
        else None)"

subsection \<open>The directory cursor\<close>

text \<open>
  \<^verbatim>\<open>db3_get\<close> writes to \<open>result[i]\<close> before it compares \<open>i\<close> with
  \<open>maxlen\<close>. \<open>cursor_rest\<close> is its loop from the state where \<open>i\<close> slots are filled.
\<close>

function cursor_rest ::
  "(nat \<Rightarrow> db_rc + naming_db_dirent) \<Rightarrow> nat \<Rightarrow> nat \<Rightarrow> (lwfs_return_code + naming_db_dirent list) option" where
  "cursor_rest get_next maxlen i =
     (case get_next (i - 1) of
        Inl rc \<Rightarrow> Some (if rc \<noteq> DB_NOTFOUND then Inl LWFS_ERR_NAMING else Inr [])
      | Inr de \<Rightarrow>
          if i \<ge> maxlen then None
          else if i + 1 \<ge> maxlen then Some (Inr [de])
          else map_option (map_sum id (\<lambda>des. de # des)) (cursor_rest get_next maxlen (i + 1)))"
  by pat_completeness auto
termination
  by (relation "measure (\<lambda>(get_next, maxlen, i). maxlen - i)") auto

declare cursor_rest.simps [simp del]

definition db3_get ::
  "('d, 'i) naming_env \<Rightarrow> 'd \<Rightarrow> lwfs_oid \<Rightarrow> nat \<Rightarrow> (lwfs_return_code + naming_db_dirent list) option" where
  "db3_get N d key3 maxlen =
     (if db3_cursor N d \<noteq> DB_OK then None
      else
        (case (case db3_set N d key3 of
                 Inl rc \<Rightarrow> Some (Inl LWFS_ERR_NAMING)
               | Inr de \<Rightarrow>
                   if maxlen = 0 then None
                   else map_option (map_sum id (\<lambda>des. de # des))
                     (cursor_rest (db3_next N d key3) maxlen 1)) of
           None \<Rightarrow> None
         | Some r \<Rightarrow> Some (if db3_close N d \<noteq> DB_OK then Inl LWFS_ERR_NAMING else r)))"

definition db3_size :: "('d, 'i) naming_env \<Rightarrow> 'd \<Rightarrow> lwfs_oid \<Rightarrow> lwfs_return_code + nat" where
  "db3_size N d key3 =
     (if db3_cursor N d \<noteq> DB_OK then Inl LWFS_ERR_NAMING
      else let r = (case db3_set N d key3 of
                Inl rc \<Rightarrow> (if rc = DB_NOTFOUND then Inr 0 else Inl LWFS_ERR_NAMING)
              | Inr de \<Rightarrow> (case db3_count N d key3 of Inl rc \<Rightarrow> Inl LWFS_ERR_NAMING | Inr n \<Rightarrow> Inr n)) in
        if db3_close N d \<noteq> DB_OK then Inl LWFS_ERR_NAMING else r)"

subsection \<open>The interface of the database\<close>

definition naming_db_get_by_name ::
  "('d, 'i) naming_env \<Rightarrow> ('d, 'i) naming_state \<Rightarrow> lwfs_oid \<Rightarrow> string \<Rightarrow> lwfs_return_code + naming_db_entry" where
  "naming_db_get_by_name N st parent_oid name =
     (case db1_get N (dbp1 st) (db1_keygen parent_oid name) of
        Inl rc \<Rightarrow> Inl rc
      | Inr de \<Rightarrow>
          (case inode_get_by_dirent N (dbp_inode st) de of
             Inl rc \<Rightarrow> Inl rc
           | Inr ino \<Rightarrow> Inr \<lparr>dirent = de, inode = ino\<rparr>))"

definition naming_db_get_by_oid ::
  "('d, 'i) naming_env \<Rightarrow> ('d, 'i) naming_state \<Rightarrow> lwfs_oid \<Rightarrow> lwfs_return_code + naming_db_entry" where
  "naming_db_get_by_oid N st oid =
     (case db2_get N (dbp1 st) oid of
        Inl rc \<Rightarrow> Inl rc
      | Inr de \<Rightarrow>
          (case inode_get_by_dirent N (dbp_inode st) de of
             Inl rc \<Rightarrow> Inl rc
           | Inr ino \<Rightarrow> Inr \<lparr>dirent = de, inode = ino\<rparr>))"

text \<open>
  The loop over the \<^verbatim>\<open>maxlen\<close> slots of the array \<^verbatim>\<open>malloc\<close> gave. A slot
  the cursor did not fill is uninitialised, and so is an entry the caller's array has no room for.
\<close>

fun get_inodes ::
  "('d, 'i) naming_env \<Rightarrow> 'i \<Rightarrow> naming_db_dirent list \<Rightarrow> nat \<Rightarrow> nat \<Rightarrow>
     (lwfs_return_code + naming_db_entry list) option" where
  "get_inodes N i des room 0 = Some (Inr [])"
| "get_inodes N i [] room (Suc n) = None"
| "get_inodes N i (de # des) room (Suc n) =
     (case inode_get_by_dirent N i de of
        Inl rc \<Rightarrow> Some (Inl rc)
      | Inr ino \<Rightarrow>
          if room = 0 then None
          else map_option (map_sum id (\<lambda>es. \<lparr>dirent = de, inode = ino\<rparr> # es)) (get_inodes N i des (room - 1) n))"

text \<open>\<open>room\<close> is the length of the caller's result array.\<close>

definition naming_db_get_all_by_parent ::
  "('d, 'i) naming_env \<Rightarrow> ('d, 'i) naming_state \<Rightarrow> lwfs_oid \<Rightarrow> nat \<Rightarrow> nat \<Rightarrow>
     (lwfs_return_code + naming_db_entry list) option" where
  "naming_db_get_all_by_parent N st parent_oid room maxlen =
     (if \<not> can_malloc_dirents N maxlen then Some (Inl LWFS_ERR_NOENT)
      else (case db3_get N (dbp1 st) parent_oid maxlen of
          None \<Rightarrow> None
        | Some (Inl rc) \<Rightarrow> Some (Inl rc)
        | Some (Inr des) \<Rightarrow> get_inodes N (dbp_inode st) des room maxlen))"

definition naming_db_get_size ::
  "('d, 'i) naming_env \<Rightarrow> ('d, 'i) naming_state \<Rightarrow> lwfs_oid \<Rightarrow> lwfs_return_code + nat" where
  "naming_db_get_size N st parent_oid = db3_size N (dbp1 st) parent_oid"

definition naming_db_exists :: "('d, 'i) naming_env \<Rightarrow> ('d, 'i) naming_state \<Rightarrow> naming_db_entry \<Rightarrow> bool" where
  "naming_db_exists N st e =
     db1_exists N (dbp1 st) (db1_keygen (d_parent_oid (dirent e)) (d_name (dirent e)))"

text \<open>
  A new entry takes two steps: the directory entry, then its inode. When the second step fails
  the first one stays.
\<close>

definition naming_db_put ::
  "('d, 'i) naming_env \<Rightarrow> ('d, 'i) naming_state \<Rightarrow> naming_db_entry \<Rightarrow> bool \<Rightarrow>
     lwfs_return_code \<times> ('d, 'i) naming_state" where
  "naming_db_put N st e noov =
     (let (rc, d') = db1_put N (dbp1 st) (db1_keygen (d_parent_oid (dirent e)) (d_name (dirent e))) (dirent e) noov;
          st1 = st\<lparr>dbp1 := d'\<rparr>; ikey = obj_oid (entry_obj (inode e)) in
      if rc \<noteq> LWFS_OK then (rc, st1)
      else let (rc, i') =
             (if d_link (dirent e) \<noteq> 0 then inode_increment_refcnt N (dbp_inode st) ikey
              else inode_put N (dbp_inode st) ikey (inode e) noov) in
        (rc, st1\<lparr>dbp_inode := i'\<rparr>))"

definition naming_db_del ::
  "('d, 'i) naming_env \<Rightarrow> ('d, 'i) naming_state \<Rightarrow> lwfs_oid \<Rightarrow> string \<Rightarrow>
     ((lwfs_return_code + naming_db_entry) \<times> ('d, 'i) naming_state) option" where
  "naming_db_del N st parent_oid name =
     (case naming_db_get_by_name N st parent_oid name of
        Inl rc \<Rightarrow> Some (Inl rc, st)
      | Inr e \<Rightarrow>
          map_option (\<lambda>(rc, e', st'). (if rc \<noteq> LWFS_OK then Inl rc else Inr e', st')) (db_del N st e))"

subsection \<open>Creating the database\<close>

text \<open>
  The library calls of \<^verbatim>\<open>naming_db_init\<close>: \<open>malloc_ok n\<close> for the three file names,
  \<open>remove_rc n\<close> for the four files, and \<open>setup_rc n\<close> for the calls that create and open the
  handles, in the order of the code:
  0 create, 1 page size, 2 open (primary), 3 create, 4 open (secondary), 5 create, 6 flags, 7
  open (tertiary), 8 create, 9 open (inodes), 10 and 11 associate. The error path closes all
  four handles, the ones not created yet included.
\<close>

record ('d, 'i) naming_init_calls =
  malloc_ok :: "nat \<Rightarrow> bool"
  access_rc :: int
  remove_rc :: "nat \<Rightarrow> int"
  setup_rc :: "nat \<Rightarrow> int"
  opened :: "bool \<Rightarrow> 'd \<times> 'i"

definition GLOBAL_DB_KEY :: string where "GLOBAL_DB_KEY = ''The latest generated ID''"

definition boot_dir :: "string \<Rightarrow> lwfs_oid \<Rightarrow> lwfs_oid \<Rightarrow> naming_db_entry" where
  "boot_dir name inode_oid dirent_oid = zero_entry\<lparr>
     dirent := zero_dirent\<lparr>d_name := name, d_oid := dirent_oid, d_inode_oid := inode_oid\<rparr>,
     inode := zero_inode\<lparr>entry_obj := zero_obj\<lparr>obj_type := LWFS_DIR_ENTRY, obj_cid := LWFS_CID_ANY,
       obj_oid := inode_oid\<rparr>\<rparr>\<rparr>"

definition id_entry :: naming_db_entry where
  "id_entry = zero_entry\<lparr>dirent := zero_dirent\<lparr>d_name := GLOBAL_DB_KEY, d_hide := True\<rparr>\<rparr>"

text \<open>The sanity checks after an entry is stored: by name, by id, and the size of its parent.\<close>

definition sanity_checks ::
  "('d, 'i) naming_env \<Rightarrow> ('d, 'i) naming_state \<Rightarrow> naming_db_entry \<Rightarrow> string \<Rightarrow> lwfs_return_code" where
  "sanity_checks N st e name =
     (case naming_db_get_by_name N st (d_parent_oid (dirent e)) name of
        Inl rc \<Rightarrow> rc
      | Inr t \<Rightarrow>
          (case naming_db_get_by_oid N st (d_oid (dirent e)) of
             Inl rc \<Rightarrow> rc
           | Inr t \<Rightarrow> (case naming_db_get_size N st (d_parent_oid (dirent e)) of Inl rc \<Rightarrow> rc | Inr n \<Rightarrow> LWFS_OK)))"

text \<open>The entries a new database starts with; the result has the root and the orphan entry.\<close>

definition naming_db_boot ::
  "('d, 'i) naming_env \<Rightarrow> ('d, 'i) naming_state \<Rightarrow>
     (lwfs_return_code + naming_db_entry \<times> naming_db_entry) \<times> ('d, 'i) naming_state" where
  "naming_db_boot N st =
     (let (rc, st) = naming_db_put N st id_entry True in
      if rc \<noteq> LWFS_OK then (Inl rc, st)
      else if sanity_checks N st id_entry GLOBAL_DB_KEY \<noteq> LWFS_OK
      then (Inl (sanity_checks N st id_entry GLOBAL_DB_KEY), st)
      else let (inode_oid, st) = naming_db_gen_oid N st; (dirent_oid, st) = naming_db_gen_oid N st;
               root = boot_dir ''/'' inode_oid dirent_oid;
               (rc, st) = naming_db_put N st root True in
        if rc \<noteq> LWFS_OK then (Inl rc, st)
        else if sanity_checks N st root ''/'' \<noteq> LWFS_OK then (Inl (sanity_checks N st root ''/''), st)
        else let (inode_oid, st) = naming_db_gen_oid N st; (dirent_oid, st) = naming_db_gen_oid N st;
                 orphans = boot_dir ''orphans'' inode_oid dirent_oid;
                 (rc, st) = naming_db_put N st orphans True in
          if rc \<noteq> LWFS_OK then (Inl rc, st) else (Inr (root, orphans), st))"

definition naming_db_init ::
  "('d, 'i) naming_env \<Rightarrow> ('d, 'i) naming_init_calls \<Rightarrow> bool \<Rightarrow> nat \<Rightarrow> lwfs_service \<Rightarrow>
     (lwfs_return_code \<times> ('d, 'i) naming_state option) option" where
  "naming_db_init N L dbclear n svc =
     (let newfile = (access_rc L \<noteq> 0); rm = dbclear \<and> \<not> newfile in
      if \<not> (malloc_ok L 0 \<and> malloc_ok L 1 \<and> malloc_ok L 2) then None
      else if rm \<and> (\<exists>k\<in>set [0..<4]. remove_rc L k \<noteq> 0) then None
      else if \<exists>k\<in>set [0..<9]. setup_rc L k \<noteq> 0 then None
      else if \<exists>k\<in>set [9..<12]. setup_rc L k \<noteq> 0 then Some (LWFS_ERR_NAMING, None)
      else let (d, i) = opened L rm; st = \<lparr>dbp1 = d, dbp_inode = i, oid_count = n, naming_svc = svc\<rparr> in
        if dbclear \<or> newfile then
          (let (r, st) = naming_db_boot N st in
           case r of Inl rc \<Rightarrow> Some (rc, None) | Inr rs \<Rightarrow> Some (LWFS_OK, Some st))
        else Some (LWFS_OK, Some st))"

text \<open>The four handles are closed in turn (\<open>None\<close> for a null one); each result replaces the last.\<close>

definition naming_db_fini :: "int option list \<Rightarrow> lwfs_return_code" where
  "naming_db_fini close_rcs =
     foldl (\<lambda>rc c. case c of None \<Rightarrow> rc | Some v \<Rightarrow> if v \<noteq> 0 then LWFS_ERR_NAMING else LWFS_OK) LWFS_OK close_rcs"

end
