(* ===== verification/Naming_Server.thy ===== *)
theory Naming_Server imports Naming_Db begin

section \<open>The naming server\<close>

text \<open>
  The handlers of \<^verbatim>\<open>server/naming_server/naming_server.c\<close> over the naming
  database. \<open>t\<close> is what \<^verbatim>\<open>time(NULL)\<close> gives during the call. A handler's result is the
  error code or the value it leaves in \<^verbatim>\<open>*result\<close>, with the state; \<open>None\<close> is a call
  without a defined return. The client sends whole directory entries as arguments, so the type
  field a handler looks at is the client's.
\<close>

record lwfs_ns_entry =
  ns_name :: string
  dirent_oid :: lwfs_oid
  inode_oid :: lwfs_oid
  parent_oid :: lwfs_oid
  link_cnt :: int
  ns_entry_obj :: lwfs_obj
  ns_file_obj :: "lwfs_obj option"

record lwfs_namespace =
  nsp_name :: string
  ns_entry :: lwfs_ns_entry

subsection \<open>Support\<close>

definition update_time :: "u32 \<Rightarrow> lwfs_time" where
  "update_time t = \<lparr>seconds = t, nseconds = 0\<rparr>"

definition naming_check_perm ::
  "('d, 'i) naming_env \<Rightarrow> ('d, 'i) naming_state \<Rightarrow> lwfs_oid \<Rightarrow> lwfs_cap \<Rightarrow> lwfs_container_op \<Rightarrow>
     lwfs_return_code" where
  "naming_check_perm N st oid cap op =
     (case naming_db_get_by_oid N st oid of
        Inl rc \<Rightarrow> rc
      | Inr e \<Rightarrow>
          if obj_cid (entry_obj (inode e)) \<noteq> LWFS_CID_ANY \<and>
             obj_cid (entry_obj (inode e)) \<noteq> cid (cap_data cap) then LWFS_ERR_ACCESS
          else if op AND container_op (cap_data cap) \<noteq> op then LWFS_ERR_ACCESS
          else verify_rpc N [cap])"

text \<open>The object of a link is found by following it; a cycle of links does not end.\<close>

partial_function (option) get_file_obj ::
  "('d, 'i) naming_env \<Rightarrow> ('d, 'i) naming_state \<Rightarrow> naming_db_entry \<Rightarrow> lwfs_obj option option" where
  "get_file_obj N st e =
     (if file_obj_valid (inode e) then Some (Some (file_obj (inode e)))
      else if obj_type (entry_obj (inode e)) = LWFS_LINK_ENTRY then
        (case naming_db_get_by_oid N st (d_link (dirent e)) of
           Inl rc \<Rightarrow> Some None
         | Inr link_entry \<Rightarrow> get_file_obj N st link_entry)
      else Some None)"

declare get_file_obj.simps [code]

definition copy_db_to_ns_entry ::
  "('d, 'i) naming_env \<Rightarrow> ('d, 'i) naming_state \<Rightarrow> naming_db_entry \<Rightarrow> lwfs_ns_entry option" where
  "copy_db_to_ns_entry N st e =
     map_option (\<lambda>fo.
       \<lparr>ns_name = strncpy LWFS_NAME_LEN (d_name (dirent e)), dirent_oid = d_oid (dirent e),
        inode_oid = d_inode_oid (dirent e), parent_oid = d_parent_oid (dirent e),
        link_cnt = ref_cnt (inode e), ns_entry_obj = entry_obj (inode e), ns_file_obj = fo\<rparr>)
     (get_file_obj N st e)"

definition copy_db_to_namespace ::
  "('d, 'i) naming_env \<Rightarrow> ('d, 'i) naming_state \<Rightarrow> naming_db_entry \<Rightarrow> lwfs_namespace option" where
  "copy_db_to_namespace N st e =
     map_option (\<lambda>ns. \<lparr>nsp_name = strncpy LWFS_NAME_LEN (d_name (dirent e)), ns_entry = ns\<rparr>)
       (copy_db_to_ns_entry N st e)"

definition ROOT_OID :: lwfs_oid where "ROOT_OID = 0"

text \<open>A handler's last step: the result is copied from a database entry.\<close>

definition reply_entry ::
  "('d, 'i) naming_env \<Rightarrow> ('d, 'i) naming_state \<Rightarrow> naming_db_entry \<Rightarrow>
     ((lwfs_return_code + lwfs_ns_entry) \<times> ('d, 'i) naming_state) option" where
  "reply_entry N st e = map_option (\<lambda>ns. (Inr ns, st)) (copy_db_to_ns_entry N st e)"

definition is_dir_type :: "lwfs_entry_type \<Rightarrow> bool" where
  "is_dir_type ty \<longleftrightarrow> ty = LWFS_DIR_ENTRY \<or> ty = LWFS_NS_OBJ"

text \<open>The entry a handler builds for a new object: a fresh entry id, then a fresh object id.\<close>

definition new_entry ::
  "('d, 'i) naming_env \<Rightarrow> ('d, 'i) naming_state \<Rightarrow> u32 \<Rightarrow> string \<Rightarrow> lwfs_oid \<Rightarrow> lwfs_entry_type \<Rightarrow>
     lwfs_cid \<Rightarrow> lwfs_obj option \<Rightarrow> naming_db_entry \<times> ('d, 'i) naming_state" where
  "new_entry N st t name parent ty c fobj =
     (let (doid, st1) = naming_db_gen_oid N st; (ioid, st2) = naming_db_gen_oid N st1; now = update_time t in
      (\<lparr>dirent = zero_dirent\<lparr>d_name := strncpy LWFS_NAME_LEN name, d_parent_oid := parent, d_oid := doid,
          d_inode_oid := ioid\<rparr>,
        inode = zero_inode\<lparr>
          entry_obj := zero_obj\<lparr>obj_svc := naming_svc st, obj_type := ty, obj_cid := c, obj_oid := ioid\<rparr>,
          ref_cnt := 1, stat_data := \<lparr>atime = now, mtime = now, ctime = now, st_size = 0\<rparr>,
          file_obj_valid := (fobj \<noteq> None), file_obj := (case fobj of None \<Rightarrow> zero_obj | Some ob \<Rightarrow> ob)\<rparr>\<rparr>, st2))"

subsection \<open>Namespaces\<close>

definition naming_create_namespace ::
  "('d, 'i) naming_env \<Rightarrow> u32 \<Rightarrow> ('d, 'i) naming_state \<Rightarrow> string \<Rightarrow> lwfs_cid \<Rightarrow>
     ((lwfs_return_code + lwfs_namespace) \<times> ('d, 'i) naming_state) option" where
  "naming_create_namespace N t st name c =
     (let (e, st) = new_entry N st t name ROOT_OID LWFS_NS_OBJ c None;
          (rc, st) = naming_db_put N st e True in
      if rc \<noteq> LWFS_OK then Some (Inl rc, st)
      else map_option (\<lambda>ns. (Inr ns, st)) (copy_db_to_namespace N st e))"

definition namespace_lookup ::
  "('d, 'i) naming_env \<Rightarrow> ('d, 'i) naming_state \<Rightarrow> string \<Rightarrow> (lwfs_return_code + lwfs_namespace) option" where
  "namespace_lookup N st name =
     (case naming_db_get_by_name N st ROOT_OID name of
        Inl rc \<Rightarrow> Some (Inl rc)
      | Inr e \<Rightarrow> map_option Inr (copy_db_to_namespace N st e))"

definition naming_remove_namespace ::
  "('d, 'i) naming_env \<Rightarrow> ('d, 'i) naming_state \<Rightarrow> string \<Rightarrow> lwfs_cap \<Rightarrow>
     ((lwfs_return_code + lwfs_namespace) \<times> ('d, 'i) naming_state) option" where
  "naming_remove_namespace N st name cap =
     (case namespace_lookup N st name of
        None \<Rightarrow> None
      | Some (Inl rc) \<Rightarrow> Some (Inl LWFS_ERR_NOENT, st)
      | Some (Inr ns) \<Rightarrow>
          (let rc = naming_check_perm N st (dirent_oid (ns_entry ns)) cap LWFS_CONTAINER_WRITE in
           if rc \<noteq> LWFS_OK then Some (Inl rc, st)
           else (case naming_db_del N st (parent_oid (ns_entry ns)) name of
               None \<Rightarrow> None
             | Some (Inl rc, st') \<Rightarrow> Some (Inl LWFS_ERR_NAMING, st')
             | Some (Inr e, st') \<Rightarrow> map_option (\<lambda>ns. (Inr ns, st')) (copy_db_to_namespace N st' e))))"

definition naming_get_namespace ::
  "('d, 'i) naming_env \<Rightarrow> ('d, 'i) naming_state \<Rightarrow> string \<Rightarrow> (lwfs_return_code + lwfs_namespace) option" where
  "naming_get_namespace N st name =
     (case namespace_lookup N st name of
        None \<Rightarrow> None
      | Some (Inl rc) \<Rightarrow> Some (Inl LWFS_ERR_NOENT)
      | Some (Inr ns) \<Rightarrow> Some (Inr (ns\<lparr>nsp_name := strncpy LWFS_NAME_LEN name\<rparr>)))"

text \<open>Copying the entries of a listing; it stops at the first copy without a return.\<close>

fun copy_all :: "('a \<Rightarrow> 'b option) \<Rightarrow> 'a list \<Rightarrow> 'b list option" where
  "copy_all f [] = Some []"
| "copy_all f (x # xs) =
     (case f x of None \<Rightarrow> None | Some y \<Rightarrow> map_option (\<lambda>ys. y # ys) (copy_all f xs))"

text \<open>
  The two listings allocate two arrays of \<open>count\<close> elements. \<open>naming_list_namespaces\<close> asks the
  database for one entry more than there are.
\<close>

definition naming_list_namespaces ::
  "('d, 'i) naming_env \<Rightarrow> ('d, 'i) naming_state \<Rightarrow> (lwfs_return_code + lwfs_namespace list) option" where
  "naming_list_namespaces N st =
     (case naming_db_get_size N st ROOT_OID of
        Inl rc \<Rightarrow> Some (Inl rc)
      | Inr n \<Rightarrow>
          if n = 0 then Some (Inr [])
          else if \<not> can_malloc_entries N n \<or> \<not> can_malloc_results N n
          then Some (Inl LWFS_ERR_NOSPACE)
          else (case naming_db_get_all_by_parent N st ROOT_OID n (n + 1) of
              None \<Rightarrow> None
            | Some (Inl rc) \<Rightarrow> Some (Inl rc)
            | Some (Inr es) \<Rightarrow> map_option Inr (copy_all (copy_db_to_namespace N st) (take n es))))"

subsection \<open>Directories, files and links\<close>

definition naming_create_dir ::
  "('d, 'i) naming_env \<Rightarrow> u32 \<Rightarrow> ('d, 'i) naming_state \<Rightarrow> lwfs_ns_entry \<Rightarrow> string \<Rightarrow> lwfs_cid \<Rightarrow> lwfs_cap \<Rightarrow>
     ((lwfs_return_code + lwfs_ns_entry) \<times> ('d, 'i) naming_state) option" where
  "naming_create_dir N t st parent name c cap =
     (if \<not> is_dir_type (obj_type (ns_entry_obj parent)) then Some (Inl LWFS_ERR_NOTDIR, st)
      else let rc = naming_check_perm N st (dirent_oid parent) cap LWFS_CONTAINER_WRITE in
        if rc \<noteq> LWFS_OK then Some (Inl rc, st)
        else let (e, st) = new_entry N st t name (dirent_oid parent) LWFS_DIR_ENTRY c None;
                 (rc, st) = naming_db_put N st e True in
          if rc \<noteq> LWFS_OK then Some (Inl rc, st) else reply_entry N st e)"

definition naming_remove_dir ::
  "('d, 'i) naming_env \<Rightarrow> ('d, 'i) naming_state \<Rightarrow> lwfs_ns_entry \<Rightarrow> string \<Rightarrow> lwfs_cap \<Rightarrow>
     ((lwfs_return_code + lwfs_ns_entry) \<times> ('d, 'i) naming_state) option" where
  "naming_remove_dir N st parent name cap =
     (if \<not> is_dir_type (obj_type (ns_entry_obj parent)) then Some (Inl LWFS_ERR_NOTDIR, st)
      else let rc = naming_check_perm N st (dirent_oid parent) cap LWFS_CONTAINER_WRITE in
        if rc \<noteq> LWFS_OK then Some (Inl rc, st)
        else (case naming_db_del N st (dirent_oid parent) name of
            None \<Rightarrow> None
          | Some (Inl rc, st') \<Rightarrow> Some (Inl LWFS_ERR_NAMING, st')
          | Some (Inr e, st') \<Rightarrow> reply_entry N st' e))"

definition naming_create_file ::
  "('d, 'i) naming_env \<Rightarrow> u32 \<Rightarrow> ('d, 'i) naming_state \<Rightarrow> lwfs_ns_entry \<Rightarrow> string \<Rightarrow> lwfs_obj \<Rightarrow> lwfs_cap \<Rightarrow>
     ((lwfs_return_code + lwfs_ns_entry) \<times> ('d, 'i) naming_state) option" where
  "naming_create_file N t st parent name ob cap =
     (if \<not> is_dir_type (obj_type (ns_entry_obj parent)) then Some (Inl LWFS_ERR_NOTDIR, st)
      else let rc = naming_check_perm N st (dirent_oid parent) cap LWFS_CONTAINER_WRITE in
        if rc \<noteq> LWFS_OK then Some (Inl rc, st)
        else let (e, st) = new_entry N st t name (dirent_oid parent) LWFS_FILE_ENTRY (obj_cid ob) (Some ob);
                 (rc, st) = naming_db_put N st e True in
          if rc \<noteq> LWFS_OK then Some (Inl rc, st)
          else (case naming_db_get_by_oid N st (d_oid (dirent e)) of
              Inl rc \<Rightarrow> Some (Inl rc, st)
            | Inr tmp \<Rightarrow> reply_entry N st e))"

text \<open>A link is an entry with the inode of its target; its \<open>d_link\<close> field is the target's entry.\<close>

definition link_entry ::
  "naming_db_entry \<Rightarrow> lwfs_service \<Rightarrow> string \<Rightarrow> lwfs_oid \<Rightarrow> lwfs_oid \<Rightarrow> naming_db_entry" where
  "link_entry target svc name parent oid =
     \<lparr>dirent = zero_dirent\<lparr>d_name := strncpy LWFS_NAME_LEN name, d_parent_oid := parent, d_oid := oid,
        d_inode_oid := d_inode_oid (dirent target), d_link := d_oid (dirent target)\<rparr>,
      inode = (inode target)\<lparr>entry_obj := (entry_obj (inode target))\<lparr>obj_svc := svc\<rparr>\<rparr>\<rparr>"

definition naming_create_link ::
  "('d, 'i) naming_env \<Rightarrow> ('d, 'i) naming_state \<Rightarrow> lwfs_ns_entry \<Rightarrow> string \<Rightarrow> lwfs_cap \<Rightarrow>
     lwfs_ns_entry \<Rightarrow> string \<Rightarrow> lwfs_cap \<Rightarrow> ((lwfs_return_code + lwfs_ns_entry) \<times> ('d, 'i) naming_state) option" where
  "naming_create_link N st parent name cap target_parent target_name target_cap =
     (if \<not> is_dir_type (obj_type (ns_entry_obj parent)) then Some (Inl LWFS_ERR_NOTDIR, st)
      else let rc = naming_check_perm N st (dirent_oid parent) cap LWFS_CONTAINER_WRITE in
        if rc \<noteq> LWFS_OK then Some (Inl rc, st)
        else let rc = naming_check_perm N st (dirent_oid target_parent) target_cap LWFS_CONTAINER_READ in
          if rc \<noteq> LWFS_OK then Some (Inl rc, st)
          else (case naming_db_get_by_name N st (dirent_oid target_parent) target_name of
              Inl rc \<Rightarrow> Some (Inl rc, st)
            | Inr target \<Rightarrow>
                let (oid, st) = naming_db_gen_oid N st;
                    e = link_entry target (naming_svc st) name (dirent_oid parent) oid;
                    (rc, st) = naming_db_put N st e True in
                if rc \<noteq> LWFS_OK then Some (Inl rc, st) else reply_entry N st e))"

definition naming_unlink ::
  "('d, 'i) naming_env \<Rightarrow> ('d, 'i) naming_state \<Rightarrow> lwfs_ns_entry \<Rightarrow> string \<Rightarrow> lwfs_cap \<Rightarrow>
     ((lwfs_return_code + lwfs_ns_entry) \<times> ('d, 'i) naming_state) option" where
  "naming_unlink N st parent name cap =
     (if \<not> is_dir_type (obj_type (ns_entry_obj parent)) then Some (Inl LWFS_ERR_NOTDIR, st)
      else let rc = naming_check_perm N st (dirent_oid parent) cap LWFS_CONTAINER_WRITE in
        if rc \<noteq> LWFS_OK then Some (Inl rc, st)
        else (case naming_db_del N st (dirent_oid parent) name of
            None \<Rightarrow> None
          | Some (Inl rc, st') \<Rightarrow> Some (Inl LWFS_ERR_NAMING, st')
          | Some (Inr e, st') \<Rightarrow> reply_entry N st' e))"

definition naming_lookup ::
  "('d, 'i) naming_env \<Rightarrow> ('d, 'i) naming_state \<Rightarrow> lwfs_ns_entry \<Rightarrow> string \<Rightarrow> lwfs_cap \<Rightarrow>
     (lwfs_return_code + lwfs_ns_entry) option" where
  "naming_lookup N st parent name cap =
     (if \<not> is_dir_type (obj_type (ns_entry_obj parent)) then Some (Inl LWFS_ERR_NOTDIR)
      else let rc = naming_check_perm N st (dirent_oid parent) cap LWFS_CONTAINER_READ in
        if rc \<noteq> LWFS_OK then Some (Inl rc)
        else (case naming_db_get_by_name N st (dirent_oid parent) name of
            Inl rc \<Rightarrow> Some (Inl rc)
          | Inr e \<Rightarrow> map_option Inr (copy_db_to_ns_entry N st e)))"

definition naming_list_dir ::
  "('d, 'i) naming_env \<Rightarrow> ('d, 'i) naming_state \<Rightarrow> lwfs_ns_entry \<Rightarrow> lwfs_cap \<Rightarrow>
     (lwfs_return_code + lwfs_ns_entry list) option" where
  "naming_list_dir N st parent cap =
     (if \<not> is_dir_type (obj_type (ns_entry_obj parent)) then Some (Inl LWFS_ERR_NOTDIR)
      else let rc = naming_check_perm N st (dirent_oid parent) cap LWFS_CONTAINER_READ in
        if rc \<noteq> LWFS_OK then Some (Inl rc)
        else (case naming_db_get_size N st (dirent_oid parent) of
            Inl rc \<Rightarrow> Some (Inl rc)
          | Inr n \<Rightarrow>
              if n = 0 then Some (Inr [])
              else if \<not> can_malloc_entries N n \<or> \<not> can_malloc_results N n
              then Some (Inl LWFS_ERR_NOSPACE)
              else (case naming_db_get_all_by_parent N st (dirent_oid parent) n n of
                  None \<Rightarrow> None
                | Some (Inl rc) \<Rightarrow> Some (Inl rc)
                | Some (Inr es) \<Rightarrow> map_option Inr (copy_all (copy_db_to_ns_entry N st) es))))"

definition naming_stat ::
  "('d, 'i) naming_env \<Rightarrow> ('d, 'i) naming_state \<Rightarrow> lwfs_obj \<Rightarrow> lwfs_cap \<Rightarrow> lwfs_return_code + lwfs_stat_data" where
  "naming_stat N st ob cap =
     (let rc = naming_check_perm N st (obj_oid ob) cap LWFS_CONTAINER_READ in
      if rc \<noteq> LWFS_OK then Inl rc
      else (case naming_db_get_by_oid N st (obj_oid ob) of
          Inl rc \<Rightarrow> Inl rc
        | Inr e \<Rightarrow> Inr (stat_data (inode e))))"

subsection \<open>Starting and stopping\<close>

definition naming_server_init ::
  "('d, 'i) naming_env \<Rightarrow> lwfs_return_code \<Rightarrow> (nat \<Rightarrow> lwfs_return_code) \<Rightarrow> ('d, 'i) naming_init_calls \<Rightarrow>
     bool \<Rightarrow> nat \<Rightarrow> lwfs_service \<Rightarrow> (lwfs_return_code \<times> ('d, 'i) naming_state option) option" where
  "naming_server_init N service_init add_ops L db_clear n svc =
     (if service_init \<noteq> LWFS_OK then Some (service_init, None)
      else if add_ops 12 \<noteq> LWFS_OK then Some (add_ops 12, None)
      else naming_db_init N L db_clear n svc)"

definition naming_server_fini :: "int option list \<Rightarrow> lwfs_return_code \<Rightarrow> lwfs_return_code" where
  "naming_server_fini close_rcs service_fini = service_fini"

subsection \<open>Requests\<close>

text \<open>The operations of \<^verbatim>\<open>naming_op_array\<close> and the handler each is bound to.\<close>

datatype naming_request =
    Create_Dir u32 lwfs_ns_entry string lwfs_cid lwfs_cap
  | Remove_Dir lwfs_ns_entry string lwfs_cap
  | Create_File u32 lwfs_ns_entry string lwfs_obj lwfs_cap
  | Create_Link lwfs_ns_entry string lwfs_cap lwfs_ns_entry string lwfs_cap
  | Unlink lwfs_ns_entry string lwfs_cap
  | List_Dir lwfs_ns_entry lwfs_cap
  | Lookup lwfs_ns_entry string lwfs_cap
  | Name_Stat lwfs_obj lwfs_cap
  | Create_Namespace u32 string lwfs_cid
  | Remove_Namespace string lwfs_cap
  | Get_Namespace string
  | List_Namespaces

datatype naming_response =
    Entry_Response "lwfs_return_code + lwfs_ns_entry"
  | Entries_Response "lwfs_return_code + lwfs_ns_entry list"
  | Stat_Response "lwfs_return_code + lwfs_stat_data"
  | Namespace_Response "lwfs_return_code + lwfs_namespace"
  | Namespaces_Response "lwfs_return_code + lwfs_namespace list"

fun naming_dispatch ::
  "('d, 'i) naming_env \<Rightarrow> ('d, 'i) naming_state \<Rightarrow> naming_request \<Rightarrow>
     (naming_response \<times> ('d, 'i) naming_state) option" where
  "naming_dispatch N st (Create_Dir t parent name c cap) =
     map_option (map_prod Entry_Response id) (naming_create_dir N t st parent name c cap)"
| "naming_dispatch N st (Remove_Dir parent name cap) =
     map_option (map_prod Entry_Response id) (naming_remove_dir N st parent name cap)"
| "naming_dispatch N st (Create_File t parent name ob cap) =
     map_option (map_prod Entry_Response id) (naming_create_file N t st parent name ob cap)"
| "naming_dispatch N st (Create_Link parent name cap tparent tname tcap) =
     map_option (map_prod Entry_Response id) (naming_create_link N st parent name cap tparent tname tcap)"
| "naming_dispatch N st (Unlink parent name cap) =
     map_option (map_prod Entry_Response id) (naming_unlink N st parent name cap)"
| "naming_dispatch N st (List_Dir parent cap) =
     map_option (\<lambda>r. (Entries_Response r, st)) (naming_list_dir N st parent cap)"
| "naming_dispatch N st (Lookup parent name cap) =
     map_option (\<lambda>r. (Entry_Response r, st)) (naming_lookup N st parent name cap)"
| "naming_dispatch N st (Name_Stat ob cap) = Some (Stat_Response (naming_stat N st ob cap), st)"
| "naming_dispatch N st (Create_Namespace t name c) =
     map_option (map_prod Namespace_Response id) (naming_create_namespace N t st name c)"
| "naming_dispatch N st (Remove_Namespace name cap) =
     map_option (map_prod Namespace_Response id) (naming_remove_namespace N st name cap)"
| "naming_dispatch N st (Get_Namespace name) =
     map_option (\<lambda>r. (Namespace_Response r, st)) (naming_get_namespace N st name)"
| "naming_dispatch N st List_Namespaces =
     map_option (\<lambda>r. (Namespaces_Response r, st)) (naming_list_namespaces N st)"

end
