(* ===== verification/Naming_Inv.thy ===== *)
theory Naming_Inv imports Naming_Server "HOL-Library.AList" begin

section \<open>The invariant of the naming database\<close>

text \<open>
  \<open>naming_store\<close> states what the naming server relies on from Berkeley DB: the laws of a store
  for the two tables, and that the index by entry id reads and deletes the primary table and
  admits no two entries with one id. \<open>naming_reliable\<close> adds that no call fails but for the
  documented key conditions, and that the first \<open>M\<close> ids of the generator differ. Under it every handler keeps \<open>naming_inv\<close>: an entry is stored under
  its own parent and name, its inode exists, and the count of an inode is the number of entries
  that refer to it. The three entries the server itself creates at the start have a count of 0
  and are excepted; requests that name them are treated in \<open>Naming_Properties\<close>.
\<close>

subsection \<open>The contract of the tables\<close>

locale naming_store =
  db1: bdb_store "db1_api N" C1 + ino: bdb_store "inode_api N" Ci
  for N :: "('d, 'i) naming_env" and C1 :: "'d \<Rightarrow> db1_key \<Rightarrow> naming_db_dirent option"
    and Ci :: "'i \<Rightarrow> lwfs_oid \<Rightarrow> naming_db_inode option" +
  assumes put_index: "bdb_put (db1_api N) d noov k de = (DB_OK, d') \<Longrightarrow> C1 d k' = Some de' \<Longrightarrow> k' \<noteq> k \<Longrightarrow>
      d_oid de' \<noteq> d_oid de"
    and index_get: "db2_get_api N d oid = Inr de \<Longrightarrow> \<exists>k. C1 d k = Some de \<and> d_oid de = oid"
    and index_del: "db2_del_api N d oid = (DB_OK, d') \<Longrightarrow>
      (\<exists>k de. C1 d k = Some de \<and> d_oid de = oid) \<and>
      C1 d' = (\<lambda>k. case C1 d k of None \<Rightarrow> None | Some de \<Rightarrow> if d_oid de = oid then None else Some de)"
    and index_del_fail: "db2_del_api N d oid = (rc, d') \<Longrightarrow> rc \<noteq> DB_OK \<Longrightarrow> C1 d' = C1 d"
    and finite_db1: "finite (dom (C1 d))"

text \<open>The entries of a directory, with their keys.\<close>

definition children ::
  "('d \<Rightarrow> db1_key \<Rightarrow> naming_db_dirent option) \<Rightarrow> 'd \<Rightarrow> lwfs_oid \<Rightarrow> (db1_key \<times> naming_db_dirent) set" where
  "children C1 d parent = {(k, de). C1 d k = Some de \<and> d_parent_oid de = parent}"

text \<open>The cursor on the index by parent runs through \<open>des\<close>.\<close>

definition cursor_lists ::
  "('d, 'i) naming_env \<Rightarrow> 'd \<Rightarrow> lwfs_oid \<Rightarrow> naming_db_dirent list \<Rightarrow> bool" where
  "cursor_lists N d parent des \<longleftrightarrow>
     db3_set N d parent = (case des of [] \<Rightarrow> Inl DB_NOTFOUND | de # _ \<Rightarrow> Inr de) \<and>
     (\<forall>i. db3_next N d parent i = (if Suc i < length des then Inr (des ! Suc i) else Inl DB_NOTFOUND)) \<and>
     (des \<noteq> [] \<longrightarrow> db3_count N d parent = Inr (length des))"

definition fresh_oid_in :: "('d \<Rightarrow> db1_key \<Rightarrow> naming_db_dirent option) \<Rightarrow> 'd \<Rightarrow> db1_key \<Rightarrow> naming_db_dirent \<Rightarrow> bool" where
  "fresh_oid_in C1 d k de \<longleftrightarrow> (\<forall>k' de'. C1 d k' = Some de' \<longrightarrow> k' \<noteq> k \<longrightarrow> d_oid de' \<noteq> d_oid de)"

locale naming_reliable =
  naming_store N C1 Ci + rdb1: bdb_reliable "db1_api N" C1 "fresh_oid_in C1" +
  rino: bdb_reliable "inode_api N" Ci "\<lambda>_ _ _. True"
  for N :: "('d, 'i) naming_env" and C1 :: "'d \<Rightarrow> db1_key \<Rightarrow> naming_db_dirent option"
    and Ci :: "'i \<Rightarrow> lwfs_oid \<Rightarrow> naming_db_inode option" +
  fixes M :: nat
  assumes index_get_total: "C1 d k = Some de \<Longrightarrow> d_oid de = oid \<Longrightarrow> db2_get_api N d oid \<noteq> Inl rc"
    and index_del_total: "C1 d k = Some de \<Longrightarrow> d_oid de = oid \<Longrightarrow> fst (db2_del_api N d oid) = DB_OK"
    and cursor_ok: "db3_cursor N d = DB_OK" "db3_close N d = DB_OK"
    and cursor: "\<exists>kvs. distinct (map fst kvs) \<and> set kvs = children C1 d parent \<and>
      cursor_lists N d parent (map snd kvs)"
    and uuid_inj: "inj_on (uuid_gen N) {..<M}" and uuid_nonzero: "n < M \<Longrightarrow> uuid_gen N n \<noteq> 0"

subsection \<open>The operations of the database on the contents\<close>

context naming_store begin

lemma get_by_name_sound:
  "naming_db_get_by_name N st p name = Inr e \<Longrightarrow>
   C1 (dbp1 st) (db1_keygen p name) = Some (dirent e) \<and> Ci (dbp_inode st) (d_inode_oid (dirent e)) = Some (inode e)"
  by (auto simp: naming_db_get_by_name_def db1_get_def inode_get_by_dirent_def inode_get_def
      dest: db1.get_found ino.get_found split: sum.splits)

lemma get_by_oid_sound:
  "naming_db_get_by_oid N st oid = Inr e \<Longrightarrow>
   (\<exists>k. C1 (dbp1 st) k = Some (dirent e)) \<and> d_oid (dirent e) = oid \<and>
   Ci (dbp_inode st) (d_inode_oid (dirent e)) = Some (inode e)"
  by (auto simp: naming_db_get_by_oid_def db2_get_def inode_get_by_dirent_def inode_get_def
      dest!: index_get ino.get_found split: sum.splits)

end

abbreviation key_of :: "naming_db_dirent \<Rightarrow> db1_key" where
  "key_of de \<equiv> db1_keygen (d_parent_oid de) (d_name de)"

text \<open>What a state holds: the contents of the two tables.\<close>

definition holds ::
  "('d \<Rightarrow> db1_key \<Rightarrow> naming_db_dirent option) \<Rightarrow> ('i \<Rightarrow> lwfs_oid \<Rightarrow> naming_db_inode option) \<Rightarrow>
     ('d, 'i) naming_state \<Rightarrow> (db1_key \<rightharpoonup> naming_db_dirent) \<Rightarrow> (lwfs_oid \<rightharpoonup> naming_db_inode) \<Rightarrow> bool" where
  "holds C1 Ci st D I \<longleftrightarrow> C1 (dbp1 st) = D \<and> Ci (dbp_inode st) = I"

context naming_reliable begin

lemma get_by_name_eq:
  "holds C1 Ci st D I \<Longrightarrow> naming_db_get_by_name N st p name =
     (case D (db1_keygen p name) of
        None \<Rightarrow> Inl LWFS_ERR_NOENT
      | Some de \<Rightarrow> (case I (d_inode_oid de) of None \<Rightarrow> Inl LWFS_ERR_NOENT | Some i \<Rightarrow> Inr \<lparr>dirent = de, inode = i\<rparr>))"
  by (auto simp: holds_def naming_db_get_by_name_def db1_get_def inode_get_by_dirent_def inode_get_def
      rdb1.get_eq rino.get_eq split: option.splits)

lemma get_by_oid_found:
  assumes "holds C1 Ci st D I" "D k = Some de" "d_oid de = oid"
    "\<And>k' de'. D k' = Some de' \<Longrightarrow> d_oid de' = oid \<Longrightarrow> de' = de"
  shows "naming_db_get_by_oid N st oid =
    (case I (d_inode_oid de) of None \<Rightarrow> Inl LWFS_ERR_NOENT | Some i \<Rightarrow> Inr \<lparr>dirent = de, inode = i\<rparr>)"
proof -
  obtain de' where get: "db2_get_api N (dbp1 st) oid = Inr de'"
    using assms(1-3) index_get_total [of "dbp1 st" k de oid] by (cases "db2_get_api N (dbp1 st) oid") (auto simp: holds_def)
  have "de' = de" using index_get [OF get] assms(1,4) by (auto simp: holds_def)
  with get assms(1) show ?thesis
    by (auto simp: holds_def naming_db_get_by_oid_def db2_get_def inode_get_by_dirent_def inode_get_def
        rino.get_eq split: option.splits)
qed

lemma get_by_oid_absent:
  assumes "holds C1 Ci st D I" "\<And>k de. D k = Some de \<Longrightarrow> d_oid de \<noteq> oid"
  shows "naming_db_get_by_oid N st oid = Inl LWFS_ERR_NAMING"
proof (cases "db2_get_api N (dbp1 st) oid")
  case (Inl rc)
  then show ?thesis by (simp add: naming_db_get_by_oid_def db2_get_def)
next
  case (Inr de)
  from index_get [OF this] assms show ?thesis by (auto simp: holds_def)
qed

lemma db1_put_result:
  assumes "holds C1 Ci st D I" "\<And>k' de'. D k' = Some de' \<Longrightarrow> k' \<noteq> k \<Longrightarrow> d_oid de' \<noteq> d_oid de"
    "db1_put N (dbp1 st) k de True = (rc, d')"
  shows "if D k = None then rc = LWFS_OK \<and> C1 d' = D(k \<mapsto> de) else rc = LWFS_ERR_EXIST \<and> C1 d' = D"
proof -
  obtain brc where put: "bdb_put (db1_api N) (dbp1 st) True k de = (brc, d')" and rc: "rc = put_rc brc"
    using assms(3) by (auto simp: db1_put_def split: prod.splits)
  have acc: "fresh_oid_in C1 (dbp1 st) k de" using assms(1,2) by (auto simp: fresh_oid_in_def holds_def)
  show ?thesis
  proof (cases "D k")
    case None
    then have "brc = DB_OK" using rdb1.put_absent [OF acc, of True] put assms(1) by (simp add: holds_def)
    with db1.put_ok put rc None assms(1) show ?thesis by (auto simp: put_rc_def holds_def)
  next
    case (Some de')
    then have "brc = DB_KEYEXIST" using rdb1.put_present [OF acc] put assms(1) by (simp add: holds_def)
    with db1.put_fail [OF put] rc Some assms(1) show ?thesis by (auto simp: put_rc_def holds_def)
  qed
qed

lemma inode_put_result:
  "inode_put N i ikey ino noov = (rc, i') \<Longrightarrow> noov \<longrightarrow> Ci i ikey = None \<Longrightarrow>
   rc = LWFS_OK \<and> Ci i' = (Ci i)(ikey \<mapsto> ino)"
proof -
  assume "inode_put N i ikey ino noov = (rc, i')" and free: "noov \<longrightarrow> Ci i ikey = None"
  then obtain brc where put: "bdb_put (inode_api N) i noov ikey ino = (brc, i')" and rc: "rc = put_rc brc"
    by (auto simp: inode_put_def split: prod.splits)
  have "brc = DB_OK"
    using put free rino.put_absent [OF TrueI, of i ikey noov ino] rino.put_overwrite [OF TrueI, of i ikey ino]
    by (cases noov) auto
  with ino.put_ok put rc show ?thesis by (auto simp: put_rc_def)
qed

text \<open>Storing an entry with a new inode, and storing a link.\<close>

lemma naming_db_put_new:
  assumes st: "holds C1 Ci st D I" and link: "d_link (dirent e) = 0"
    and fresh: "\<And>k de. D k = Some de \<Longrightarrow> d_oid de \<noteq> d_oid (dirent e)" "I (obj_oid (entry_obj (inode e))) = None"
    and put: "naming_db_put N st e True = (rc, st')"
  shows "if D (key_of (dirent e)) = None
    then rc = LWFS_OK \<and> holds C1 Ci st' (D(key_of (dirent e) \<mapsto> dirent e)) (I(obj_oid (entry_obj (inode e)) \<mapsto> inode e))
    else rc = LWFS_ERR_EXIST \<and> holds C1 Ci st' D I"
    and "oid_count st' = oid_count st \<and> naming_svc st' = naming_svc st"
proof -
  obtain rc1 d1 where p1: "db1_put N (dbp1 st) (key_of (dirent e)) (dirent e) True = (rc1, d1)" by fastforce
  have r1: "if D (key_of (dirent e)) = None then rc1 = LWFS_OK \<and> C1 d1 = D(key_of (dirent e) \<mapsto> dirent e)
      else rc1 = LWFS_ERR_EXIST \<and> C1 d1 = D"
    using db1_put_result [OF st _ p1] fresh(1) by blast
  obtain rc2 i2 where p2: "inode_put N (dbp_inode st) (obj_oid (entry_obj (inode e))) (inode e) True = (rc2, i2)"
    by fastforce
  have r2: "rc2 = LWFS_OK \<and> Ci i2 = I(obj_oid (entry_obj (inode e)) \<mapsto> inode e)"
    using inode_put_result [OF p2] fresh(2) st by (simp add: holds_def)
  show "if D (key_of (dirent e)) = None
    then rc = LWFS_OK \<and> holds C1 Ci st' (D(key_of (dirent e) \<mapsto> dirent e)) (I(obj_oid (entry_obj (inode e)) \<mapsto> inode e))
    else rc = LWFS_ERR_EXIST \<and> holds C1 Ci st' D I"
    using put p1 p2 r1 r2 link st by (auto simp: naming_db_put_def holds_def split: if_splits)
  show "oid_count st' = oid_count st \<and> naming_svc st' = naming_svc st"
    using put p1 p2 link by (auto simp: naming_db_put_def Let_def split: if_splits)
qed

lemma naming_db_put_link:
  assumes st: "holds C1 Ci st D I" and link: "d_link (dirent e) \<noteq> 0"
    and fresh: "\<And>k de. D k = Some de \<Longrightarrow> d_oid de \<noteq> d_oid (dirent e)" "I (obj_oid (entry_obj (inode e))) = Some i"
    and put: "naming_db_put N st e True = (rc, st')"
  shows "if D (key_of (dirent e)) = None
    then rc = LWFS_OK \<and> holds C1 Ci st' (D(key_of (dirent e) \<mapsto> dirent e))
      (I(obj_oid (entry_obj (inode e)) \<mapsto> i\<lparr>ref_cnt := ref_cnt i + 1\<rparr>))
    else rc = LWFS_ERR_EXIST \<and> holds C1 Ci st' D I"
    and "oid_count st' = oid_count st \<and> naming_svc st' = naming_svc st"
proof -
  let ?o = "obj_oid (entry_obj (inode e))"
  obtain rc1 d1 where p1: "db1_put N (dbp1 st) (key_of (dirent e)) (dirent e) True = (rc1, d1)" by fastforce
  have r1: "if D (key_of (dirent e)) = None then rc1 = LWFS_OK \<and> C1 d1 = D(key_of (dirent e) \<mapsto> dirent e)
      else rc1 = LWFS_ERR_EXIST \<and> C1 d1 = D"
    using db1_put_result [OF st _ p1] fresh(1) by blast
  have get: "inode_get N (dbp_inode st) ?o = Inr i"
    using fresh(2) st by (simp add: inode_get_def rino.get_eq holds_def)
  obtain rc2 i2 where p2: "inode_put N (dbp_inode st) ?o (i\<lparr>ref_cnt := ref_cnt i + 1\<rparr>) False = (rc2, i2)"
    by fastforce
  have r2: "rc2 = LWFS_OK \<and> Ci i2 = I(?o \<mapsto> i\<lparr>ref_cnt := ref_cnt i + 1\<rparr>)"
    using inode_put_result [OF p2] st by (simp add: holds_def)
  have p2': "inode_increment_refcnt N (dbp_inode st) ?o = (LWFS_OK, i2)"
    using get p2 r2 by (simp add: inode_increment_refcnt_def)
  show "if D (key_of (dirent e)) = None
    then rc = LWFS_OK \<and> holds C1 Ci st' (D(key_of (dirent e) \<mapsto> dirent e)) (I(?o \<mapsto> i\<lparr>ref_cnt := ref_cnt i + 1\<rparr>))
    else rc = LWFS_ERR_EXIST \<and> holds C1 Ci st' D I"
    using put p1 p2' r1 r2 link st by (auto simp: naming_db_put_def holds_def split: if_splits)
  show "oid_count st' = oid_count st \<and> naming_svc st' = naming_svc st"
    using put p1 p2' link by (auto simp: naming_db_put_def Let_def split: if_splits)
qed

text \<open>Deleting an entry by name.\<close>

lemma naming_db_del_present:
  assumes st: "holds C1 Ci st D I" and k: "D (db1_keygen p name) = Some de" and i: "I (d_inode_oid de) = Some i"
    and oid: "obj_oid (entry_obj i) = d_inode_oid de" and pos: "0 < ref_cnt i"
    and uniq: "\<And>k' de'. D k' = Some de' \<Longrightarrow> d_oid de' = d_oid de \<Longrightarrow> k' = db1_keygen p name"
  shows "\<exists>st'. naming_db_del N st p name =
      Some (Inr \<lparr>dirent = de, inode = i\<lparr>ref_cnt := ref_cnt i - 1\<rparr>\<rparr>, st') \<and>
    holds C1 Ci st' (D(db1_keygen p name := None))
      (if ref_cnt i = 1 then I(d_inode_oid de := None) else I(d_inode_oid de \<mapsto> i\<lparr>ref_cnt := ref_cnt i - 1\<rparr>)) \<and>
    oid_count st' = oid_count st \<and> naming_svc st' = naming_svc st"
proof -
  let ?e = "\<lparr>dirent = de, inode = i\<rparr>" and ?i = "i\<lparr>ref_cnt := ref_cnt i - 1\<rparr>"
  have get: "naming_db_get_by_name N st p name = Inr ?e" using get_by_name_eq [OF st] k i by simp
  obtain d1 where del: "db2_del_api N (dbp1 st) (d_oid de) = (DB_OK, d1)"
    using index_del_total [of "dbp1 st" "db1_keygen p name" de "d_oid de"] k st by (cases "db2_del_api N (dbp1 st) (d_oid de)") (auto simp: holds_def)
  have "C1 d1 = (\<lambda>k. case D k of None \<Rightarrow> None | Some de' \<Rightarrow> if d_oid de' = d_oid de then None else Some de')"
    using index_del [OF del] st by (simp add: holds_def)
  also have "\<dots> = D(db1_keygen p name := None)"
  proof
    fix k'
    show "(case D k' of None \<Rightarrow> None | Some de' \<Rightarrow> if d_oid de' = d_oid de then None else Some de') =
        (D(db1_keygen p name := None)) k'"
      using uniq [of k'] k by (cases "k' = db1_keygen p name") (simp_all split: option.split, blast)
  qed
  finally have d1: "C1 d1 = D(db1_keygen p name := None)" .
  obtain rc2 i2 where idel: "inode_del N (dbp_inode st) ?i = (rc2, i2)" by fastforce
  have r2: "Ci i2 = I(d_inode_oid de := None)"
  proof -
    obtain brc where b: "bdb_del (inode_api N) (dbp_inode st) (d_inode_oid de) = (brc, i2)"
      using idel oid by (auto simp: inode_del_def split: prod.splits)
    have "brc = DB_OK" using rino.del_present [of "dbp_inode st" "d_inode_oid de"] b i st by (simp add: holds_def)
    with ino.del_ok b st show ?thesis by (auto simp: holds_def)
  qed
  obtain rc3 i3 where iput: "inode_put N (dbp_inode st) (d_inode_oid de) ?i False = (rc3, i3)" by fastforce
  have r3: "Ci i3 = I(d_inode_oid de \<mapsto> ?i)" using inode_put_result [OF iput] st by (simp add: holds_def)
  show ?thesis
  proof (cases "ref_cnt i = 1")
    case True
    then have "naming_db_del N st p name = Some (Inr \<lparr>dirent = de, inode = ?i\<rparr>, st\<lparr>dbp1 := d1, dbp_inode := i2\<rparr>)"
      using get del idel oid by (simp add: naming_db_del_def db_del_def Let_def)
    with True d1 r2 show ?thesis by (simp add: holds_def)
  next
    case False
    then have "naming_db_del N st p name = Some (Inr \<lparr>dirent = de, inode = ?i\<rparr>, st\<lparr>dbp1 := d1, dbp_inode := i3\<rparr>)"
      using get del iput oid pos by (simp add: naming_db_del_def db_del_def Let_def)
    with False d1 r3 show ?thesis by (simp add: holds_def)
  qed
qed

lemma naming_db_del_absent:
  "holds C1 Ci st D I \<Longrightarrow> D (db1_keygen p name) = None \<Longrightarrow>
   naming_db_del N st p name = Some (Inl LWFS_ERR_NOENT, st)"
  by (simp add: naming_db_del_def get_by_name_eq)

end

subsection \<open>The invariant\<close>

text \<open>The keys of the three entries \<^verbatim>\<open>naming_db_init\<close> creates.\<close>

definition boot_keys :: "db1_key set" where
  "boot_keys = {db1_keygen 0 ''/'', db1_keygen 0 ''orphans'', db1_keygen 0 GLOBAL_DB_KEY}"

text \<open>The keys of the entries that refer to an inode.\<close>

definition refs :: "(db1_key \<rightharpoonup> naming_db_dirent) \<Rightarrow> lwfs_oid \<Rightarrow> db1_key set" where
  "refs D ioid = {k. \<exists>de. D k = Some de \<and> d_inode_oid de = ioid}"

definition entries_ok :: "(db1_key \<rightharpoonup> naming_db_dirent) \<Rightarrow> (lwfs_oid \<rightharpoonup> naming_db_inode) \<Rightarrow> bool" where
  "entries_ok D I \<longleftrightarrow> (\<forall>k de. D k = Some de \<longrightarrow>
     key_of de = k \<and> I (d_inode_oid de) \<noteq> None \<and> (k \<notin> boot_keys \<longrightarrow> d_oid de \<noteq> 0))"

definition oids_unique :: "(db1_key \<rightharpoonup> naming_db_dirent) \<Rightarrow> bool" where
  "oids_unique D \<longleftrightarrow> (\<forall>k k' de de'. D k = Some de \<longrightarrow> D k' = Some de' \<longrightarrow> d_oid de = d_oid de' \<longrightarrow> k = k')"

definition inode_ok :: "(db1_key \<rightharpoonup> naming_db_dirent) \<Rightarrow> lwfs_oid \<Rightarrow> naming_db_inode \<Rightarrow> bool" where
  "inode_ok D ioid i \<longleftrightarrow> obj_oid (entry_obj i) = ioid \<and> obj_type (entry_obj i) \<noteq> LWFS_LINK_ENTRY \<and> refs D ioid \<noteq> {} \<and>
     (if refs D ioid \<inter> boot_keys = {} then ref_cnt i = int (card (refs D ioid)) else refs D ioid \<subseteq> boot_keys)"

definition oids_fresh ::
  "(nat \<Rightarrow> lwfs_oid) \<Rightarrow> nat \<Rightarrow> nat \<Rightarrow> (db1_key \<rightharpoonup> naming_db_dirent) \<Rightarrow> (lwfs_oid \<rightharpoonup> naming_db_inode) \<Rightarrow> bool" where
  "oids_fresh gen M n D I \<longleftrightarrow> (\<forall>m\<ge>n. m < M \<longrightarrow> I (gen m) = None \<and> (\<forall>k de. D k = Some de \<longrightarrow> d_oid de \<noteq> gen m))"

definition db_inv ::
  "(nat \<Rightarrow> lwfs_oid) \<Rightarrow> nat \<Rightarrow> nat \<Rightarrow> (db1_key \<rightharpoonup> naming_db_dirent) \<Rightarrow> (lwfs_oid \<rightharpoonup> naming_db_inode) \<Rightarrow> bool" where
  "db_inv gen M n D I \<longleftrightarrow> finite (dom D) \<and> entries_ok D I \<and> oids_unique D \<and>
     (\<forall>ioid i. I ioid = Some i \<longrightarrow> inode_ok D ioid i) \<and> oids_fresh gen M n D I"

lemma gen_eq_iff: "inj_on gen {..<M} \<Longrightarrow> a < M \<Longrightarrow> b < M \<Longrightarrow> gen a = gen b \<longleftrightarrow> a = (b :: nat)"
  by (rule inj_on_eq_iff) auto

lemma refs_subset_dom: "refs D o' \<subseteq> dom D"
  by (auto simp: refs_def)

lemma refs_add: "D k = None \<Longrightarrow> refs (D(k \<mapsto> de)) o' = (if d_inode_oid de = o' then insert k (refs D o') else refs D o')"
  by (auto simp: refs_def)

lemma refs_del: "refs (D(k := None)) o' = refs D o' - {k}"
  by (auto simp: refs_def)

lemma db_inv_mono: "db_inv gen M n D I \<Longrightarrow> n \<le> m \<Longrightarrow> db_inv gen M m D I"
  by (auto simp: db_inv_def oids_fresh_def)

lemma db_inv_new:
  assumes inv: "db_inv gen M n D I" and gen: "inj_on gen {..<M}" "\<And>n. n < M \<Longrightarrow> gen n \<noteq> 0"
    and M: "Suc (Suc n) \<le> M"
    and k: "k \<notin> boot_keys" "D k = None" "key_of de = k"
    and de: "d_oid de = gen n" "d_inode_oid de = gen (Suc n)"
    and i: "obj_oid (entry_obj i) = gen (Suc n)" "obj_type (entry_obj i) \<noteq> LWFS_LINK_ENTRY" "ref_cnt i = 1"
  shows "db_inv gen M (Suc (Suc n)) (D(k \<mapsto> de)) (I(gen (Suc n) \<mapsto> i))"
proof -
  have fin: "finite (dom D)" and ent: "entries_ok D I" and uniq: "oids_unique D"
    and ino: "\<And>o' j. I o' = Some j \<Longrightarrow> inode_ok D o' j" and fresh: "oids_fresh gen M n D I"
    using inv by (auto simp: db_inv_def)
  have none: "I (gen (Suc n)) = None" using fresh M by (simp add: oids_fresh_def)
  have no_refs: "refs D (gen (Suc n)) = {}"
    using ent none by (fastforce simp: refs_def entries_ok_def)
  have "entries_ok (D(k \<mapsto> de)) (I(gen (Suc n) \<mapsto> i))"
    using ent k de gen(2) [of n] M by (auto simp: entries_ok_def)
  moreover have "oids_unique (D(k \<mapsto> de))"
  proof -
    have nf: "D k' = Some de' \<Longrightarrow> d_oid de' \<noteq> d_oid de" for k' de'
      using fresh de(1) M by (auto simp: oids_fresh_def)
    then show ?thesis using uniq unfolding oids_unique_def by (metis fun_upd_apply option.inject)
  qed
  moreover have "inode_ok (D(k \<mapsto> de)) o' j" if "(I(gen (Suc n) \<mapsto> i)) o' = Some j" for o' j
  proof (cases "o' = gen (Suc n)")
    case True
    with that i k no_refs de show ?thesis by (auto simp: inode_ok_def refs_add)
  next
    case False
    with that ino [of o' j] k(2) de(2) show ?thesis by (auto simp: inode_ok_def refs_add)
  qed
  moreover have "oids_fresh gen M (Suc (Suc n)) (D(k \<mapsto> de)) (I(gen (Suc n) \<mapsto> i))"
    using fresh de M by (auto simp: oids_fresh_def gen_eq_iff [OF gen(1)])
  ultimately show ?thesis using fin by (simp add: db_inv_def)
qed

lemma db_inv_link:
  assumes inv: "db_inv gen M n D I" and gen: "inj_on gen {..<M}" "\<And>n. n < M \<Longrightarrow> gen n \<noteq> 0"
    and M: "Suc n \<le> M"
    and k: "k \<notin> boot_keys" "D k = None" "key_of de = k"
    and de: "d_oid de = gen n" "d_inode_oid de = d_inode_oid t"
    and t: "D kt = Some t" "kt \<notin> boot_keys" "I (d_inode_oid t) = Some i"
  shows "db_inv gen M (Suc n) (D(k \<mapsto> de)) (I(d_inode_oid t \<mapsto> i\<lparr>ref_cnt := ref_cnt i + 1\<rparr>))"
proof -
  have fin: "finite (dom D)" and ent: "entries_ok D I" and uniq: "oids_unique D"
    and ino: "\<And>o' j. I o' = Some j \<Longrightarrow> inode_ok D o' j" and fresh: "oids_fresh gen M n D I"
    using inv by (auto simp: db_inv_def)
  have "entries_ok (D(k \<mapsto> de)) (I(d_inode_oid t \<mapsto> i\<lparr>ref_cnt := ref_cnt i + 1\<rparr>))"
    using ent k de gen(2) [of n] M by (auto simp: entries_ok_def)
  moreover have "oids_unique (D(k \<mapsto> de))"
  proof -
    have nf: "D k' = Some de' \<Longrightarrow> d_oid de' \<noteq> d_oid de" for k' de'
      using fresh de(1) M by (auto simp: oids_fresh_def)
    then show ?thesis using uniq unfolding oids_unique_def by (metis fun_upd_apply option.inject)
  qed
  moreover have "inode_ok (D(k \<mapsto> de)) o' j"
    if j: "(I(d_inode_oid t \<mapsto> i\<lparr>ref_cnt := ref_cnt i + 1\<rparr>)) o' = Some j" for o' j
  proof (cases "o' = d_inode_oid t")
    case True
    have ok: "inode_ok D (d_inode_oid t) i" using ino t by blast
    have kt: "kt \<in> refs D (d_inode_oid t)" using t by (auto simp: refs_def)
    with ok t(2) have nb: "refs D (d_inode_oid t) \<inter> boot_keys = {}"
      by (auto simp: inode_ok_def split: if_splits)
    have "k \<notin> refs D (d_inode_oid t)" using k(2) by (auto simp: refs_def)
    moreover have "finite (refs D (d_inode_oid t))" using fin refs_subset_dom finite_subset by blast
    ultimately show ?thesis
      using True j ok nb k(1,2) de(2) by (auto simp: inode_ok_def refs_add)
  next
    case False
    with j ino [of o' j] k(2) de(2) show ?thesis by (auto simp: inode_ok_def refs_add)
  qed
  moreover have "oids_fresh gen M (Suc n) (D(k \<mapsto> de)) (I(d_inode_oid t \<mapsto> i\<lparr>ref_cnt := ref_cnt i + 1\<rparr>))"
    unfolding oids_fresh_def
  proof (intro allI impI)
    fix m
    assume m: "Suc n \<le> m" "m < M"
    then have f: "I (gen m) = None" "\<forall>k de. D k = Some de \<longrightarrow> d_oid de \<noteq> gen m"
      using fresh by (auto simp: oids_fresh_def)
    have "gen m \<noteq> gen n" using m by (simp add: gen_eq_iff [OF gen(1)])
    moreover have "gen m \<noteq> d_inode_oid t" using f(1) t(3) by auto
    ultimately show "(I(d_inode_oid t \<mapsto> i\<lparr>ref_cnt := ref_cnt i + 1\<rparr>)) (gen m) = None \<and>
        (\<forall>ka dea. (D(k \<mapsto> de)) ka = Some dea \<longrightarrow> d_oid dea \<noteq> gen m)"
      using f de(1) by auto
  qed
  ultimately show ?thesis using fin by (simp add: db_inv_def)
qed

lemma db_inv_count_pos:
  assumes "db_inv gen M n D I" "D k = Some de" "k \<notin> boot_keys" "I (d_inode_oid de) = Some i"
  shows "0 < ref_cnt i" "ref_cnt i = int (card (refs D (d_inode_oid de)))"
    "refs D (d_inode_oid de) \<inter> boot_keys = {}" "finite (refs D (d_inode_oid de))"
proof -
  have ok: "inode_ok D (d_inode_oid de) i" using assms(1,4) unfolding db_inv_def by blast
  have k: "k \<in> refs D (d_inode_oid de)" using assms(2) unfolding refs_def by blast
  show fin: "finite (refs D (d_inode_oid de))"
    using assms(1) by (intro finite_subset [OF refs_subset_dom]) (simp add: db_inv_def)
  show nb: "refs D (d_inode_oid de) \<inter> boot_keys = {}"
  proof (rule ccontr)
    assume "refs D (d_inode_oid de) \<inter> boot_keys \<noteq> {}"
    then have "refs D (d_inode_oid de) \<subseteq> boot_keys" using ok by (simp add: inode_ok_def)
    with k assms(3) show False by blast
  qed
  with ok show eq: "ref_cnt i = int (card (refs D (d_inode_oid de)))" by (simp add: inode_ok_def)
  have "card (refs D (d_inode_oid de)) \<noteq> 0" using k fin by auto
  then show "0 < ref_cnt i" unfolding eq by simp
qed

lemma db_inv_del:
  assumes inv: "db_inv gen M n D I" and k: "D k = Some de" "k \<notin> boot_keys" and i: "I (d_inode_oid de) = Some i"
  shows "db_inv gen M n (D(k := None))
    (if ref_cnt i = 1 then I(d_inode_oid de := None) else I(d_inode_oid de \<mapsto> i\<lparr>ref_cnt := ref_cnt i - 1\<rparr>))"
    (is "db_inv gen M n ?D ?I")
proof -
  have fin: "finite (dom D)" and ent: "entries_ok D I" and uniq: "oids_unique D"
    and ino: "\<And>o' j. I o' = Some j \<Longrightarrow> inode_ok D o' j" and fresh: "oids_fresh gen M n D I"
    using inv unfolding db_inv_def by blast+
  note c = db_inv_count_pos [OF inv k i]
  have kin: "k \<in> refs D (d_inode_oid de)" using k by (auto simp: refs_def)
  have ok: "inode_ok D (d_inode_oid de) i" using ino i by blast
  have card: "card (refs ?D (d_inode_oid de)) = card (refs D (d_inode_oid de)) - 1"
    using kin c(4) by (simp add: refs_del)
  have only: "refs D (d_inode_oid de) = {k}" if "ref_cnt i = 1"
    using that c(2) kin by (auto simp: card_1_singleton_iff)
  have "entries_ok ?D ?I"
    unfolding entries_ok_def
  proof (intro allI impI)
    fix k' de'
    assume k': "?D k' = Some de'"
    then have "D k' = Some de'" "k' \<noteq> k" by (auto split: if_splits)
    with ent have e: "key_of de' = k' \<and> I (d_inode_oid de') \<noteq> None \<and> (k' \<notin> boot_keys \<longrightarrow> d_oid de' \<noteq> 0)"
      by (auto simp: entries_ok_def)
    have "d_inode_oid de' \<noteq> d_inode_oid de" if "ref_cnt i = 1"
    proof
      assume "d_inode_oid de' = d_inode_oid de"
      then have "k' \<in> refs D (d_inode_oid de)" using \<open>D k' = Some de'\<close> by (auto simp: refs_def)
      with only [OF that] \<open>k' \<noteq> k\<close> show False by simp
    qed
    with e show "key_of de' = k' \<and> ?I (d_inode_oid de') \<noteq> None \<and> (k' \<notin> boot_keys \<longrightarrow> d_oid de' \<noteq> 0)" by auto
  qed
  moreover have "oids_unique ?D" using uniq unfolding oids_unique_def by (metis fun_upd_apply option.distinct(1))
  moreover have "inode_ok ?D o' j" if j: "?I o' = Some j" for o' j
  proof (cases "o' = d_inode_oid de")
    case True
    with j have rc: "ref_cnt i \<noteq> 1" "j = i\<lparr>ref_cnt := ref_cnt i - 1\<rparr>" by (auto split: if_splits)
    then have "1 < card (refs D (d_inode_oid de))" using c(1,2) by linarith
    then have "refs ?D (d_inode_oid de) \<noteq> {}" using card by auto
    moreover have "refs ?D (d_inode_oid de) \<inter> boot_keys = {}" using c(3) by (auto simp: refs_del)
    ultimately show ?thesis using True rc ok card c(2) \<open>1 < card _\<close> by (auto simp: inode_ok_def)
  next
    case False
    with j have "I o' = Some j" by (auto split: if_splits)
    moreover have "k \<notin> refs D o'" using False k by (auto simp: refs_def)
    ultimately show ?thesis using ino [of o' j] by (simp add: inode_ok_def refs_del)
  qed
  moreover have "oids_fresh gen M n ?D ?I"
    using fresh i by (auto simp: oids_fresh_def)
  ultimately show ?thesis using fin by (simp add: db_inv_def)
qed

end
