(* ===== verification/Naming_Run.thy ===== *)
theory Naming_Run imports Naming_Inv begin

section \<open>The handlers of the naming server keep the invariant\<close>

text \<open>
  What each handler does to the contents of the two tables, on which the properties rest, and
  the reachable states of the server. The last part is a naming server on in-memory tables.
\<close>

definition naming_inv ::
  "('d, 'i) naming_env \<Rightarrow> ('d \<Rightarrow> db1_key \<Rightarrow> naming_db_dirent option) \<Rightarrow>
     ('i \<Rightarrow> lwfs_oid \<Rightarrow> naming_db_inode option) \<Rightarrow> nat \<Rightarrow> ('d, 'i) naming_state \<Rightarrow> bool" where
  "naming_inv N C1 Ci M st \<longleftrightarrow> db_inv (uuid_gen N) M (oid_count st) (C1 (dbp1 st)) (Ci (dbp_inode st))"

text \<open>Requests that do not name one of the three entries of the start.\<close>

definition plain_key :: "lwfs_oid \<Rightarrow> string \<Rightarrow> bool" where
  "plain_key p name \<longleftrightarrow> db1_keygen p name \<notin> boot_keys"

fun naming_request_ok :: "naming_request \<Rightarrow> bool" where
  "naming_request_ok (Create_Dir t parent name c cap) = plain_key (dirent_oid parent) name"
| "naming_request_ok (Remove_Dir parent name cap) = plain_key (dirent_oid parent) name"
| "naming_request_ok (Create_File t parent name ob cap) = plain_key (dirent_oid parent) name"
| "naming_request_ok (Create_Link parent name cap tparent tname tcap) =
     (plain_key (dirent_oid parent) name \<and> plain_key (dirent_oid tparent) tname)"
| "naming_request_ok (Unlink parent name cap) = plain_key (dirent_oid parent) name"
| "naming_request_ok (Create_Namespace t name c) = plain_key ROOT_OID name"
| "naming_request_ok (Remove_Namespace name cap) = plain_key ROOT_OID name"
| "naming_request_ok _ = True"

inductive naming_reach :: "('d, 'i) naming_env \<Rightarrow> nat \<Rightarrow> ('d, 'i) naming_state \<Rightarrow> ('d, 'i) naming_state \<Rightarrow> bool"
  for N M st0 where
  start: "naming_reach N M st0 st0"
| step: "naming_reach N M st0 st \<Longrightarrow> naming_request_ok req \<Longrightarrow> oid_count st + 2 \<le> M \<Longrightarrow>
    naming_dispatch N st req = Some (resp, st') \<Longrightarrow> naming_reach N M st0 st'"

subsection \<open>Results\<close>

lemma get_file_obj_plain:
  "obj_type (entry_obj (inode e)) \<noteq> LWFS_LINK_ENTRY \<Longrightarrow>
   get_file_obj N st e = Some (if file_obj_valid (inode e) then Some (file_obj (inode e)) else None)"
  by (subst get_file_obj.simps) simp

definition ns_of :: "naming_db_entry \<Rightarrow> lwfs_ns_entry" where
  "ns_of e = \<lparr>ns_name = strncpy LWFS_NAME_LEN (d_name (dirent e)), dirent_oid = d_oid (dirent e),
     inode_oid = d_inode_oid (dirent e), parent_oid = d_parent_oid (dirent e),
     link_cnt = ref_cnt (inode e), ns_entry_obj = entry_obj (inode e),
     ns_file_obj = (if file_obj_valid (inode e) then Some (file_obj (inode e)) else None)\<rparr>"

lemma copy_plain:
  "obj_type (entry_obj (inode e)) \<noteq> LWFS_LINK_ENTRY \<Longrightarrow> copy_db_to_ns_entry N st e = Some (ns_of e)"
  by (simp add: copy_db_to_ns_entry_def get_file_obj_plain ns_of_def)

lemma copy_namespace_fields:
  "copy_db_to_namespace N st e = Some ns \<Longrightarrow>
   parent_oid (ns_entry ns) = d_parent_oid (dirent e) \<and> dirent_oid (ns_entry ns) = d_oid (dirent e)"
  by (auto simp: copy_db_to_namespace_def copy_db_to_ns_entry_def)

lemma db1_keygen_strncpy [simp]: "db1_keygen p (strncpy LWFS_NAME_LEN name) = db1_keygen p name"
  by (simp add: db1_keygen_def)

lemma new_entry_fields:
  assumes "new_entry N st t name p ty c fobj = (e, st1)"
  shows "key_of (dirent e) = db1_keygen p name" "d_oid (dirent e) = uuid_gen N (oid_count st)"
    "d_inode_oid (dirent e) = uuid_gen N (Suc (oid_count st))" "d_link (dirent e) = 0"
    "obj_oid (entry_obj (inode e)) = uuid_gen N (Suc (oid_count st))"
    "obj_type (entry_obj (inode e)) = ty" "ref_cnt (inode e) = 1" "obj_cid (entry_obj (inode e)) = c"
    "d_parent_oid (dirent e) = p" "file_obj_valid (inode e) \<longleftrightarrow> fobj \<noteq> None"
    "fobj = Some ob \<Longrightarrow> file_obj (inode e) = ob"
    "st1 = st\<lparr>oid_count := Suc (Suc (oid_count st))\<rparr>"
  using assms by (auto simp: new_entry_def naming_db_gen_oid_def Let_def zero_dirent_def)

context naming_reliable begin

lemma put_new_entry:
  assumes inv: "naming_inv N C1 Ci M st" and new: "new_entry N st t name p ty c fobj = (e, st1)"
    and put: "naming_db_put N st1 e True = (rc, st2)" and p: "plain_key p name" and ty: "ty \<noteq> LWFS_LINK_ENTRY"
    and M: "oid_count st + 2 \<le> M"
  shows "naming_inv N C1 Ci M st2"
    and "if C1 (dbp1 st) (db1_keygen p name) = None
      then rc = LWFS_OK \<and> C1 (dbp1 st2) = (C1 (dbp1 st))(db1_keygen p name \<mapsto> dirent e) \<and>
        Ci (dbp_inode st2) = (Ci (dbp_inode st))(d_inode_oid (dirent e) \<mapsto> inode e)
      else rc = LWFS_ERR_EXIST \<and> C1 (dbp1 st2) = C1 (dbp1 st) \<and> Ci (dbp_inode st2) = Ci (dbp_inode st)"
proof -
  let ?D = "C1 (dbp1 st)" and ?I = "Ci (dbp_inode st)" and ?k = "db1_keygen p name"
  note f = new_entry_fields [OF new]
  have inv': "db_inv (uuid_gen N) M (oid_count st) ?D ?I" using inv by (simp add: naming_inv_def)
  then have fresh: "oids_fresh (uuid_gen N) M (oid_count st) ?D ?I" by (simp add: db_inv_def)
  have st1: "holds C1 Ci st1 ?D ?I" using f(12) by (simp add: holds_def)
  have fresh1: "d_oid de \<noteq> d_oid (dirent e)" if "?D k = Some de" for k de
    using fresh that f(2) M by (auto simp: oids_fresh_def)
  have fresh2: "?I (obj_oid (entry_obj (inode e))) = None"
    using fresh f(5) M by (auto simp: oids_fresh_def)
  note r = naming_db_put_new [OF st1 f(4) fresh1 fresh2 put]
  show "if ?D ?k = None
      then rc = LWFS_OK \<and> C1 (dbp1 st2) = ?D(?k \<mapsto> dirent e) \<and> Ci (dbp_inode st2) = ?I(d_inode_oid (dirent e) \<mapsto> inode e)
      else rc = LWFS_ERR_EXIST \<and> C1 (dbp1 st2) = ?D \<and> Ci (dbp_inode st2) = ?I"
    using r(1) f by (auto simp: holds_def split: if_splits)
  show "naming_inv N C1 Ci M st2"
  proof (cases "?D ?k = None")
    case True
    have "db_inv (uuid_gen N) M (Suc (Suc (oid_count st))) (?D(?k \<mapsto> dirent e))
        (?I(uuid_gen N (Suc (oid_count st)) \<mapsto> inode e))"
      using db_inv_new [OF inv' uuid_inj uuid_nonzero _ _ True] f p ty M by (simp add: plain_key_def)
    with True r f show ?thesis by (simp add: naming_inv_def holds_def)
  next
    case False
    with r f inv' show ?thesis
      by (auto simp: naming_inv_def holds_def intro: db_inv_mono)
  qed
qed

lemma get_by_name_inode:
  assumes inv: "naming_inv N C1 Ci M st" and get: "naming_db_get_by_name N st p name = Inr e"
  shows "C1 (dbp1 st) (db1_keygen p name) = Some (dirent e)" "Ci (dbp_inode st) (d_inode_oid (dirent e)) = Some (inode e)"
    "obj_oid (entry_obj (inode e)) = d_inode_oid (dirent e)" "obj_type (entry_obj (inode e)) \<noteq> LWFS_LINK_ENTRY"
    "key_of (dirent e) = db1_keygen p name"
proof -
  note s = get_by_name_sound [OF get]
  then show "C1 (dbp1 st) (db1_keygen p name) = Some (dirent e)" "Ci (dbp_inode st) (d_inode_oid (dirent e)) = Some (inode e)"
    by auto
  have "inode_ok (C1 (dbp1 st)) (d_inode_oid (dirent e)) (inode e)"
    using s inv unfolding naming_inv_def db_inv_def by blast
  then show "obj_oid (entry_obj (inode e)) = d_inode_oid (dirent e)" "obj_type (entry_obj (inode e)) \<noteq> LWFS_LINK_ENTRY"
    by (simp_all add: inode_ok_def)
  show "key_of (dirent e) = db1_keygen p name"
    using s inv unfolding naming_inv_def db_inv_def entries_ok_def by blast
qed

lemma put_link_entry:
  assumes inv: "naming_inv N C1 Ci M st" and get: "naming_db_get_by_name N st tp tname = Inr target"
    and gen: "naming_db_gen_oid N st = (oid, st1)"
    and put: "naming_db_put N st1 (link_entry target svc name p oid) True = (rc, st2)"
    and p: "plain_key p name" "plain_key tp tname" and M: "oid_count st + 2 \<le> M"
  shows "naming_inv N C1 Ci M st2"
    and "if C1 (dbp1 st) (db1_keygen p name) = None
      then rc = LWFS_OK \<and>
        C1 (dbp1 st2) = (C1 (dbp1 st))(db1_keygen p name \<mapsto> dirent (link_entry target svc name p oid)) \<and>
        Ci (dbp_inode st2) = (Ci (dbp_inode st))(d_inode_oid (dirent target) \<mapsto>
          (inode target)\<lparr>ref_cnt := ref_cnt (inode target) + 1\<rparr>)
      else rc = LWFS_ERR_EXIST \<and> C1 (dbp1 st2) = C1 (dbp1 st) \<and> Ci (dbp_inode st2) = Ci (dbp_inode st)"
proof -
  let ?D = "C1 (dbp1 st)" and ?I = "Ci (dbp_inode st)" and ?k = "db1_keygen p name"
  let ?e = "link_entry target svc name p oid"
  note t = get_by_name_inode [OF inv get]
  have oid: "oid = uuid_gen N (oid_count st)" "st1 = st\<lparr>oid_count := Suc (oid_count st)\<rparr>"
    using gen by (auto simp: naming_db_gen_oid_def)
  have inv': "db_inv (uuid_gen N) M (oid_count st) ?D ?I" using inv by (simp add: naming_inv_def)
  then have fresh: "oids_fresh (uuid_gen N) M (oid_count st) ?D ?I" by (simp add: db_inv_def)
  have st1: "holds C1 Ci st1 ?D ?I" using oid by (simp add: holds_def)
  have fresh1: "d_oid de \<noteq> d_oid (dirent ?e)" if "?D k = Some de" for k de
    using fresh that oid M by (auto simp: oids_fresh_def link_entry_def)
  have "d_oid (dirent target) \<noteq> 0"
    using inv' t(1) p(2) unfolding db_inv_def entries_ok_def plain_key_def by blast
  then have link: "d_link (dirent ?e) \<noteq> 0" by (simp add: link_entry_def)
  have ino: "?I (obj_oid (entry_obj (inode ?e))) = Some (inode target)"
    using t by (simp add: link_entry_def)
  have key: "key_of (dirent ?e) = ?k" "obj_oid (entry_obj (inode ?e)) = d_inode_oid (dirent target)"
    "d_oid (dirent ?e) = uuid_gen N (oid_count st)" "d_inode_oid (dirent ?e) = d_inode_oid (dirent target)"
    using t oid by (simp_all add: link_entry_def)
  note r = naming_db_put_link [OF st1 link fresh1 ino put]
  show "if ?D ?k = None
      then rc = LWFS_OK \<and> C1 (dbp1 st2) = ?D(?k \<mapsto> dirent ?e) \<and>
        Ci (dbp_inode st2) = ?I(d_inode_oid (dirent target) \<mapsto> (inode target)\<lparr>ref_cnt := ref_cnt (inode target) + 1\<rparr>)
      else rc = LWFS_ERR_EXIST \<and> C1 (dbp1 st2) = ?D \<and> Ci (dbp_inode st2) = ?I"
    using r(1) key by (auto simp: holds_def split: if_splits)
  show "naming_inv N C1 Ci M st2"
  proof (cases "?D ?k = None")
    case True
    have "db_inv (uuid_gen N) M (Suc (oid_count st)) (?D(?k \<mapsto> dirent ?e))
        (?I(d_inode_oid (dirent target) \<mapsto> (inode target)\<lparr>ref_cnt := ref_cnt (inode target) + 1\<rparr>))"
      by (rule db_inv_link [OF inv' uuid_inj uuid_nonzero _ _ True key(1,3,4) t(1) _ t(2)])
        (use p M in \<open>simp_all add: plain_key_def\<close>)
    with True r key oid show ?thesis by (simp add: naming_inv_def holds_def)
  next
    case False
    with r key oid inv' show ?thesis by (auto simp: naming_inv_def holds_def intro: db_inv_mono)
  qed
qed

lemma del_entry:
  assumes inv: "naming_inv N C1 Ci M st" and get: "naming_db_get_by_name N st p name = Inr e" and p: "plain_key p name"
  shows "\<exists>st'. naming_db_del N st p name =
      Some (Inr \<lparr>dirent = dirent e, inode = (inode e)\<lparr>ref_cnt := ref_cnt (inode e) - 1\<rparr>\<rparr>, st') \<and>
    naming_inv N C1 Ci M st' \<and> C1 (dbp1 st') = (C1 (dbp1 st))(db1_keygen p name := None) \<and>
    Ci (dbp_inode st') = (if ref_cnt (inode e) = 1 then (Ci (dbp_inode st))(d_inode_oid (dirent e) := None)
      else (Ci (dbp_inode st))(d_inode_oid (dirent e) \<mapsto> (inode e)\<lparr>ref_cnt := ref_cnt (inode e) - 1\<rparr>))"
proof -
  let ?D = "C1 (dbp1 st)" and ?I = "Ci (dbp_inode st)"
  note t = get_by_name_inode [OF inv get]
  have inv': "db_inv (uuid_gen N) M (oid_count st) ?D ?I" using inv by (simp add: naming_inv_def)
  have st: "holds C1 Ci st ?D ?I" by (simp add: holds_def)
  have k: "db1_keygen p name \<notin> boot_keys" using p by (simp add: plain_key_def)
  have uniq: "k' = db1_keygen p name" if "?D k' = Some de'" "d_oid de' = d_oid (dirent e)" for k' de'
    using inv' that t(1) unfolding db_inv_def oids_unique_def by blast
  note pos = db_inv_count_pos(1) [OF inv' t(1) k t(2)]
  have "\<exists>st'. naming_db_del N st p name =
      Some (Inr \<lparr>dirent = dirent e, inode = (inode e)\<lparr>ref_cnt := ref_cnt (inode e) - 1\<rparr>\<rparr>, st') \<and>
    holds C1 Ci st' (?D(db1_keygen p name := None))
      (if ref_cnt (inode e) = 1 then ?I(d_inode_oid (dirent e) := None)
       else ?I(d_inode_oid (dirent e) \<mapsto> (inode e)\<lparr>ref_cnt := ref_cnt (inode e) - 1\<rparr>)) \<and>
    oid_count st' = oid_count st \<and> naming_svc st' = naming_svc st"
    by (rule naming_db_del_present [OF st t(1,2,3) pos]) (rule uniq)
  then obtain st' where
    st': "naming_db_del N st p name =
      Some (Inr \<lparr>dirent = dirent e, inode = (inode e)\<lparr>ref_cnt := ref_cnt (inode e) - 1\<rparr>\<rparr>, st')"
    "holds C1 Ci st' (?D(db1_keygen p name := None))
      (if ref_cnt (inode e) = 1 then ?I(d_inode_oid (dirent e) := None)
       else ?I(d_inode_oid (dirent e) \<mapsto> (inode e)\<lparr>ref_cnt := ref_cnt (inode e) - 1\<rparr>))"
    "oid_count st' = oid_count st" by blast
  from db_inv_del [OF inv' t(1) k t(2)] st' have "naming_inv N C1 Ci M st'"
    by (simp add: naming_inv_def holds_def)
  with st' show ?thesis by (auto simp: holds_def)
qed

lemma del_entry_inv:
  assumes inv: "naming_inv N C1 Ci M st" and p: "plain_key p name"
    and del: "naming_db_del N st p name = Some (r, st')"
  shows "naming_inv N C1 Ci M st'"
proof (cases "naming_db_get_by_name N st p name")
  case (Inl rc)
  with del inv show ?thesis by (simp add: naming_db_del_def)
next
  case (Inr e)
  from del_entry [OF inv this p] del show ?thesis by auto
qed

lemma del_entry_defined: "naming_inv N C1 Ci M st \<Longrightarrow> plain_key p name \<Longrightarrow> naming_db_del N st p name \<noteq> None"
proof (cases "naming_db_get_by_name N st p name")
  case (Inl rc)
  then show ?thesis by (simp add: naming_db_del_def)
next
  case (Inr e)
  assume "naming_inv N C1 Ci M st" "plain_key p name"
  from del_entry [OF this(1) Inr this(2)] show ?thesis by auto
qed

text \<open>Every request keeps the invariant.\<close>

lemma create_inv:
  assumes inv: "naming_inv N C1 Ci M st" and p: "plain_key p name" and ty: "ty \<noteq> LWFS_LINK_ENTRY"
    and M: "oid_count st + 2 \<le> M"
    and run: "new_entry N st t name p ty c fobj = (e, st1)" "naming_db_put N st1 e True = (rc, st2)"
  shows "naming_inv N C1 Ci M st2"
  by (rule put_new_entry(1) [OF inv run p ty M])

lemma dispatch_inv:
  assumes inv: "naming_inv N C1 Ci M st" and ok: "naming_request_ok req" and M: "oid_count st + 2 \<le> M"
    and run: "naming_dispatch N st req = Some (resp, st')"
  shows "naming_inv N C1 Ci M st'"
proof (cases req)
  case (Create_Dir t parent name c cap)
  obtain e st1 where new: "new_entry N st t name (dirent_oid parent) LWFS_DIR_ENTRY c None = (e, st1)" by fastforce
  obtain rc st2 where put: "naming_db_put N st1 e True = (rc, st2)" by fastforce
  have "naming_inv N C1 Ci M st2" by (rule create_inv [OF inv _ _ M new put]) (use ok Create_Dir in auto)
  moreover have "st' = st \<or> st' = st2"
    using run Create_Dir new put by (auto simp: naming_create_dir_def reply_entry_def Let_def split: if_splits)
  ultimately show ?thesis using inv by blast
next
  case (Create_File t parent name ob cap)
  obtain e st1 where new: "new_entry N st t name (dirent_oid parent) LWFS_FILE_ENTRY (obj_cid ob) (Some ob) = (e, st1)"
    by fastforce
  obtain rc st2 where put: "naming_db_put N st1 e True = (rc, st2)" by fastforce
  have "naming_inv N C1 Ci M st2" by (rule create_inv [OF inv _ _ M new put]) (use ok Create_File in auto)
  moreover have "st' = st \<or> st' = st2"
    using run Create_File new put
    by (auto simp: naming_create_file_def reply_entry_def Let_def split: if_splits sum.splits)
  ultimately show ?thesis using inv by blast
next
  case (Create_Namespace t name c)
  obtain e st1 where new: "new_entry N st t name ROOT_OID LWFS_NS_OBJ c None = (e, st1)" by fastforce
  obtain rc st2 where put: "naming_db_put N st1 e True = (rc, st2)" by fastforce
  have "naming_inv N C1 Ci M st2" by (rule create_inv [OF inv _ _ M new put]) (use ok Create_Namespace in auto)
  moreover have "st' = st2"
    using run Create_Namespace new put by (auto simp: naming_create_namespace_def Let_def split: if_splits)
  ultimately show ?thesis by simp
next
  case (Create_Link parent name cap tparent tname tcap)
  show ?thesis
  proof (cases "naming_db_get_by_name N st (dirent_oid tparent) tname")
    case (Inl rc)
    with run Create_Link inv show ?thesis
      by (auto simp: naming_create_link_def Let_def split: if_splits)
  next
    case (Inr target)
    obtain oid st1 where gen: "naming_db_gen_oid N st = (oid, st1)" by fastforce
    let ?e = "link_entry target (naming_svc st1) name (dirent_oid parent) oid"
    obtain rc st2 where put: "naming_db_put N st1 ?e True = (rc, st2)" by fastforce
    have "naming_inv N C1 Ci M st2"
      by (rule put_link_entry(1) [OF inv Inr gen put]) (use ok Create_Link M in auto)
    moreover have "st' = st \<or> st' = st2"
      using run Create_Link Inr gen put
      by (auto simp: naming_create_link_def reply_entry_def Let_def split: if_splits)
    ultimately show ?thesis using inv by blast
  qed
next
  case (Remove_Dir parent name cap)
  then have "st' = st \<or> (\<exists>r. naming_db_del N st (dirent_oid parent) name = Some (r, st'))"
    using run by (auto simp: naming_remove_dir_def reply_entry_def Let_def split: if_splits option.splits sum.splits)
  then show ?thesis using inv del_entry_inv ok Remove_Dir by auto
next
  case (Unlink parent name cap)
  then have "st' = st \<or> (\<exists>r. naming_db_del N st (dirent_oid parent) name = Some (r, st'))"
    using run by (auto simp: naming_unlink_def reply_entry_def Let_def split: if_splits option.splits sum.splits)
  then show ?thesis using inv del_entry_inv ok Unlink by auto
next
  case (Remove_Namespace name cap)
  have parent: "parent_oid (ns_entry ns) = ROOT_OID" if ns: "namespace_lookup N st name = Some (Inr ns)" for ns
  proof -
    obtain e where e: "naming_db_get_by_name N st ROOT_OID name = Inr e" "copy_db_to_namespace N st e = Some ns"
      using ns by (auto simp: namespace_lookup_def split: sum.splits)
    then have "key_of (dirent e) = db1_keygen ROOT_OID name" using get_by_name_inode(5) [OF inv] by blast
    with copy_namespace_fields [OF e(2)] show ?thesis by (simp add: db1_keygen_def)
  qed
  have "st' = st \<or> (\<exists>r ns. namespace_lookup N st name = Some (Inr ns) \<and>
      naming_db_del N st (parent_oid (ns_entry ns)) name = Some (r, st'))"
    using run Remove_Namespace
    by (auto simp: naming_remove_namespace_def Let_def split: if_splits option.splits sum.splits)
  then show ?thesis using inv del_entry_inv ok Remove_Namespace parent by auto
qed (use inv run in auto)

lemma reach_inv: "naming_reach N M st0 st \<Longrightarrow> naming_inv N C1 Ci M st0 \<Longrightarrow> naming_inv N C1 Ci M st"
  by (induction rule: naming_reach.induct) (auto intro: dispatch_inv)

end

subsection \<open>A naming server on in-memory tables\<close>

type_synonym mem_db1 = "(db1_key \<times> naming_db_dirent) list"

definition mem_with_oid :: "mem_db1 \<Rightarrow> lwfs_oid \<Rightarrow> mem_db1" where
  "mem_with_oid d oid = filter (\<lambda>(k, de). d_oid de = oid) (AList.clearjunk d)"

definition mem_kids :: "mem_db1 \<Rightarrow> lwfs_oid \<Rightarrow> mem_db1" where
  "mem_kids d parent = filter (\<lambda>(k, de). d_parent_oid de = parent) (AList.clearjunk d)"

definition mem_db1_api :: "(mem_db1, db1_key, naming_db_dirent) bdb" where
  "mem_db1_api = \<lparr>
     bdb_get = (\<lambda>d k. case map_of d k of None \<Rightarrow> Inl DB_NOTFOUND | Some v \<Rightarrow> Inr v),
     bdb_put = (\<lambda>d noov k v.
       if noov \<and> map_of d k \<noteq> None then (DB_KEYEXIST, d)
       else if list_ex (\<lambda>(k', v'). k' \<noteq> k) (mem_with_oid d (d_oid v)) then (DB_ERROR 22, d)
       else (DB_OK, (k, v) # d)),
     bdb_del = (\<lambda>d k. if map_of d k = None then (DB_NOTFOUND, d) else (DB_OK, AList.delete k d))\<rparr>"

definition mem_naming :: "(lwfs_cap list \<Rightarrow> lwfs_return_code) \<Rightarrow> (mem_db1, lwfs_oid \<rightharpoonup> naming_db_inode) naming_env" where
  "mem_naming verify = \<lparr>db1_api = mem_db1_api,
     db1_probe = (\<lambda>d k. if map_of d k = None then DB_NOTFOUND else DB_OK),
     db2_get_api = (\<lambda>d oid. case mem_with_oid d oid of [] \<Rightarrow> Inl DB_NOTFOUND | (k, de) # r \<Rightarrow> Inr de),
     db2_del_api = (\<lambda>d oid. if mem_with_oid d oid = [] then (DB_NOTFOUND, d)
       else (DB_OK, filter (\<lambda>(k, de). d_oid de \<noteq> oid) (AList.clearjunk d))),
     db3_cursor = (\<lambda>d. DB_OK),
     db3_set = (\<lambda>d p. case mem_kids d p of [] \<Rightarrow> Inl DB_NOTFOUND | (k, de) # r \<Rightarrow> Inr de),
     db3_next = (\<lambda>d p i. if Suc i < length (mem_kids d p) then Inr (snd (mem_kids d p ! Suc i)) else Inl DB_NOTFOUND),
     db3_count = (\<lambda>d p. Inr (length (mem_kids d p))),
     db3_close = (\<lambda>d. DB_OK),
     inode_api = mem_bdb, uuid_gen = (\<lambda>n. of_nat (n + 1)), verify_rpc = verify,
     can_malloc_dirents = (\<lambda>n. True), can_malloc_entries = (\<lambda>n. True), can_malloc_results = (\<lambda>n. True)\<rparr>"

lemma set_mem_with_oid: "(k, de) \<in> set (mem_with_oid d oid) \<longleftrightarrow> map_of d k = Some de \<and> d_oid de = oid"
  by (auto simp: mem_with_oid_def set_clearjunk)

lemma map_of_filter_clearjunk:
  "map_of (filter (\<lambda>(k, v). P v) (AList.clearjunk d)) =
     (\<lambda>k. case map_of d k of None \<Rightarrow> None | Some v \<Rightarrow> if P v then Some v else None)"
proof
  fix k
  have dist: "distinct (map fst (filter (\<lambda>(k, v). P v) (AList.clearjunk d)))"
    by (simp add: distinct_map_filter)
  show "map_of (filter (\<lambda>(k, v). P v) (AList.clearjunk d)) k =
     (case map_of d k of None \<Rightarrow> None | Some v \<Rightarrow> if P v then Some v else None)"
  proof (cases "\<exists>v. map_of d k = Some v \<and> P v")
    case True
    then obtain v where "(k, v) \<in> set (filter (\<lambda>(k, v). P v) (AList.clearjunk d))" "map_of d k = Some v" "P v"
      by (auto simp: set_clearjunk)
    with dist show ?thesis by (simp add: map_of_eq_Some_iff)
  next
    case False
    then have "k \<notin> fst ` set (filter (\<lambda>(k, v). P v) (AList.clearjunk d))"
      by (auto simp: set_clearjunk)
    then have "map_of (filter (\<lambda>(k, v). P v) (AList.clearjunk d)) k = None"
      by (simp add: map_of_eq_None_iff)
    with False show ?thesis by (auto split: option.splits)
  qed
qed

lemma mem_fresh: "fresh_oid_in map_of d k v \<Longrightarrow> \<not> list_ex (\<lambda>(k', v'). k' \<noteq> k) (mem_with_oid d (d_oid v))"
  by (auto simp: list_ex_iff set_mem_with_oid fresh_oid_in_def)

interpretation mem_db1: bdb_reliable mem_db1_api map_of "fresh_oid_in map_of"
proof
  fix d :: mem_db1 and k v noov d' rc
  show "bdb_get mem_db1_api d k = Inr v \<Longrightarrow> map_of d k = Some v"
    "bdb_get mem_db1_api d k = Inl DB_NOTFOUND \<Longrightarrow> map_of d k = None"
    by (auto simp: mem_db1_api_def split: option.splits)
  show "bdb_put mem_db1_api d noov k v = (DB_OK, d') \<Longrightarrow> map_of d' = (map_of d)(k \<mapsto> v)"
    "bdb_put mem_db1_api d True k v = (DB_OK, d') \<Longrightarrow> map_of d k = None"
    "bdb_put mem_db1_api d noov k v = (DB_KEYEXIST, d') \<Longrightarrow> noov \<and> map_of d k \<noteq> None"
    "bdb_put mem_db1_api d noov k v = (rc, d') \<Longrightarrow> rc \<noteq> DB_OK \<Longrightarrow> map_of d' = map_of d"
    by (auto simp: mem_db1_api_def split: if_splits)
  show "bdb_del mem_db1_api d k = (DB_OK, d') \<Longrightarrow> map_of d' = (map_of d)(k := None) \<and> map_of d k \<noteq> None"
    "bdb_del mem_db1_api d k = (DB_NOTFOUND, d') \<Longrightarrow> map_of d k = None"
    "bdb_del mem_db1_api d k = (rc, d') \<Longrightarrow> rc \<noteq> DB_OK \<Longrightarrow> map_of d' = map_of d"
    "fst (bdb_del mem_db1_api d k) \<in> {DB_OK, DB_NOTFOUND}"
    by (auto simp: mem_db1_api_def delete_conv' split: if_splits)
  show "bdb_get mem_db1_api d k \<noteq> Inl DB_OK \<and> bdb_get mem_db1_api d k \<noteq> Inl DB_KEYEXIST \<and>
      bdb_get mem_db1_api d k \<noteq> Inl (DB_ERROR e)" for e
    by (auto simp: mem_db1_api_def split: option.splits)
  show "fst (bdb_put mem_db1_api d noov k v) \<in> {DB_OK, DB_KEYEXIST}" if "fresh_oid_in map_of d k v"
    using mem_fresh [OF that] by (simp add: mem_db1_api_def)
qed

definition mem_ids :: nat where "mem_ids = 1000"

interpretation mem_naming: naming_reliable "mem_naming verify" map_of "\<lambda>i. i" mem_ids for verify
proof
  fix d :: mem_db1 and d' noov k k' oid parent rc and de de' :: naming_db_dirent and n :: nat
  show "bdb_put (db1_api (mem_naming verify)) d noov k de = (DB_OK, d') \<Longrightarrow> map_of d k' = Some de' \<Longrightarrow>
      k' \<noteq> k \<Longrightarrow> d_oid de' \<noteq> d_oid de"
    using set_mem_with_oid [of k' de' d "d_oid de"]
    by (auto simp: mem_naming_def mem_db1_api_def list_ex_iff split: if_splits)
  show "db2_get_api (mem_naming verify) d oid = Inr de \<Longrightarrow> \<exists>k. map_of d k = Some de \<and> d_oid de = oid"
    using set_mem_with_oid [of _ de d oid]
    by (auto simp: mem_naming_def split: list.splits)
  show "(\<exists>k de. map_of d k = Some de \<and> d_oid de = oid) \<and>
      map_of d' = (\<lambda>k. case map_of d k of None \<Rightarrow> None | Some de \<Rightarrow> if d_oid de = oid then None else Some de)"
    if "db2_del_api (mem_naming verify) d oid = (DB_OK, d')"
  proof -
    from that have ne: "mem_with_oid d oid \<noteq> []"
      and d': "d' = filter (\<lambda>(k, de). d_oid de \<noteq> oid) (AList.clearjunk d)"
      by (auto simp: mem_naming_def split: if_splits)
    then obtain k de r where "mem_with_oid d oid = (k, de) # r" by (cases "mem_with_oid d oid") auto
    then have "map_of d k = Some de \<and> d_oid de = oid" using set_mem_with_oid [of k de d oid] by simp
    moreover have "map_of d' = (\<lambda>k. case map_of d k of None \<Rightarrow> None | Some de \<Rightarrow> if d_oid de = oid then None else Some de)"
      unfolding d' map_of_filter_clearjunk by (auto simp: fun_eq_iff split: option.splits)
    ultimately show ?thesis by blast
  qed
  show "db2_del_api (mem_naming verify) d oid = (rc, d') \<Longrightarrow> rc \<noteq> DB_OK \<Longrightarrow> map_of d' = map_of d"
    by (auto simp: mem_naming_def split: if_splits)
  show "finite (dom (map_of d))" by (rule finite_dom_map_of)
  show "map_of d k = Some de \<Longrightarrow> d_oid de = oid \<Longrightarrow> db2_get_api (mem_naming verify) d oid \<noteq> Inl rc"
    using set_mem_with_oid [of k de d oid] by (auto simp: mem_naming_def split: list.splits)
  show "map_of d k = Some de \<Longrightarrow> d_oid de = oid \<Longrightarrow> fst (db2_del_api (mem_naming verify) d oid) = DB_OK"
    using set_mem_with_oid [of k de d oid] by (auto simp: mem_naming_def)
  show "db3_cursor (mem_naming verify) d = DB_OK" "db3_close (mem_naming verify) d = DB_OK"
    by (simp_all add: mem_naming_def)
  show "\<exists>kvs. distinct (map fst kvs) \<and> set kvs = children map_of d parent \<and>
      cursor_lists (mem_naming verify) d parent (map snd kvs)"
  proof (intro exI conjI)
    show "distinct (map fst (mem_kids d parent))" by (simp add: mem_kids_def distinct_map_filter)
    show "set (mem_kids d parent) = children map_of d parent"
      by (auto simp: mem_kids_def children_def set_clearjunk)
    show "cursor_lists (mem_naming verify) d parent (map snd (mem_kids d parent))"
      by (auto simp: cursor_lists_def mem_naming_def split: list.splits)
  qed
  show "inj_on (uuid_gen (mem_naming verify)) {..<mem_ids}"
    by (auto simp: inj_on_def mem_naming_def mem_ids_def word_of_nat_eq_iff take_bit_nat_eq_self)
  show "uuid_gen (mem_naming verify) n \<noteq> 0" if n: "n < mem_ids"
  proof -
    have "\<not> 2 ^ LENGTH(128) dvd Suc n" using n by (auto dest!: dvd_imp_le simp: mem_ids_def)
    then have "(word_of_nat (Suc n) :: lwfs_oid) \<noteq> 0" by (simp only: word_of_nat_eq_0_iff not_False_eq_True)
    then show ?thesis by (simp add: mem_naming_def)
  qed
qed (auto simp: mem_naming_def mem_bdb_def mem_db1_api_def delete_conv' dest: mem_fresh
    split: option.splits if_splits)

end
