(* ===== verification/Naming_List.thy ===== *)
theory Naming_List imports Naming_Run begin

section \<open>Listings and the start of the naming server\<close>

text \<open>
  The cursor loop returns the entries of a directory when it is asked for as many as there are,
  so a directory listing is exact; and the entries a new database starts with satisfy the
  invariant.
\<close>

lemma cursor_rest_exact:
  assumes "\<forall>i. get_next i = (if Suc i < length des then Inr (des ! Suc i) else Inl DB_NOTFOUND)"
  shows "0 < i \<Longrightarrow> i \<le> length des \<Longrightarrow> cursor_rest get_next (length des) i = Some (Inr (drop i des))"
proof (induction "length des - i" arbitrary: i)
  case 0
  then have "get_next (i - 1) = Inl DB_NOTFOUND" using assms by simp
  with 0 show ?case by (subst cursor_rest.simps) simp
next
  case (Suc n)
  then have lt: "i < length des" by simp
  then have nx: "get_next (i - 1) = Inr (des ! i)" using assms Suc.prems by simp
  have drop: "drop i des = des ! i # drop (Suc i) des" using lt by (simp add: Cons_nth_drop_Suc)
  show ?case
  proof (cases "Suc i = length des")
    case True
    with nx lt drop show ?thesis by (subst cursor_rest.simps) simp
  next
    case False
    then have "cursor_rest get_next (length des) (Suc i) = Some (Inr (drop (Suc i) des))"
      using Suc lt by (intro Suc.hyps(1)) auto
    with nx lt drop False show ?thesis by (subst cursor_rest.simps) simp
  qed
qed

lemma get_inodes_exact:
  assumes "\<forall>de\<in>set des. inode_get_by_dirent N i de = Inr (f de)"
  shows "length des \<le> room \<Longrightarrow>
    get_inodes N i des room (length des) = Some (Inr (map (\<lambda>de. \<lparr>dirent = de, inode = f de\<rparr>) des))"
  using assms
proof (induction des arbitrary: room)
  case (Cons de des)
  then have "get_inodes N i des (room - 1) (length des) = Some (Inr (map (\<lambda>de. \<lparr>dirent = de, inode = f de\<rparr>) des))"
    by simp
  with Cons.prems show ?case by simp
qed simp

lemma get_inodes_short:
  "length des < n \<Longrightarrow> \<forall>de\<in>set des. \<exists>ino. inode_get_by_dirent N i de = Inr ino \<Longrightarrow>
   get_inodes N i des room n = None"
proof (induction des arbitrary: room n)
  case Nil
  then show ?case by (cases n) auto
next
  case (Cons de des)
  then obtain m ino where "n = Suc m" "inode_get_by_dirent N i de = Inr ino" by (cases n) auto
  with Cons show ?case by auto
qed

lemma copy_all_plain:
  "\<forall>x\<in>set xs. f x = Some (g x) \<Longrightarrow> copy_all f xs = Some (map g xs)"
  by (induction xs) auto

context naming_reliable begin

lemma db3_get_exact:
  assumes "cursor_lists N d p des" "des \<noteq> []"
  shows "db3_get N d p (length des) = Some (Inr des)"
proof -
  obtain de r where des: "des = de # r" using assms(2) by (cases des) auto
  have "cursor_rest (db3_next N d p) (length des) 1 = Some (Inr (drop 1 des))"
    using assms(1) des by (intro cursor_rest_exact) (auto simp: cursor_lists_def)
  with assms(1) show ?thesis by (simp add: db3_get_def cursor_ok cursor_lists_def des)
qed

lemma get_size_eq:
  obtains kvs where "distinct (map fst kvs)" "set kvs = children C1 (dbp1 st) p"
    "cursor_lists N (dbp1 st) p (map snd kvs)" "naming_db_get_size N st p = Inr (length kvs)"
proof -
  obtain kvs where kvs: "distinct (map fst kvs)" "set kvs = children C1 (dbp1 st) p"
    "cursor_lists N (dbp1 st) p (map snd kvs)" using cursor by blast
  have "naming_db_get_size N st p = Inr (length kvs)"
    using kvs(3) by (cases kvs) (auto simp: naming_db_get_size_def db3_size_def cursor_ok cursor_lists_def)
  with that kvs show ?thesis by blast
qed

lemma inode_of_entry:
  assumes inv: "naming_inv N C1 Ci M st" and de: "C1 (dbp1 st) k = Some de"
  shows "\<exists>i. inode_get_by_dirent N (dbp_inode st) de = Inr i \<and> Ci (dbp_inode st) (d_inode_oid de) = Some i \<and>
    obj_oid (entry_obj i) = d_inode_oid de \<and> obj_type (entry_obj i) \<noteq> LWFS_LINK_ENTRY"
proof -
  obtain i where i: "Ci (dbp_inode st) (d_inode_oid de) = Some i"
    using inv de unfolding naming_inv_def db_inv_def entries_ok_def by blast
  then have "inode_ok (C1 (dbp1 st)) (d_inode_oid de) i"
    using inv unfolding naming_inv_def db_inv_def by blast
  with i show ?thesis by (simp add: inode_get_by_dirent_def inode_get_def rino.get_eq inode_ok_def)
qed

text \<open>A listing of a directory: its entries, each with its inode, in the order of the index.\<close>

lemma list_entries:
  assumes inv: "naming_inv N C1 Ci M st" and kvs: "set kvs = children C1 (dbp1 st) p"
    "cursor_lists N (dbp1 st) p (map snd kvs)" "kvs \<noteq> []" and room: "length kvs \<le> room"
    and mal: "can_malloc_dirents N (length kvs)"
  obtains es where "naming_db_get_all_by_parent N st p room (length kvs) = Some (Inr es)"
    "map dirent es = map snd kvs" "\<forall>e\<in>set es. Ci (dbp_inode st) (d_inode_oid (dirent e)) = Some (inode e)"
    "\<forall>e\<in>set es. obj_type (entry_obj (inode e)) \<noteq> LWFS_LINK_ENTRY"
proof -
  let ?f = "\<lambda>de. the (Ci (dbp_inode st) (d_inode_oid de))"
  let ?es = "map (\<lambda>de. \<lparr>dirent = de, inode = ?f de\<rparr>) (map snd kvs)"
  have ino: "inode_get_by_dirent N (dbp_inode st) de = Inr (?f de) \<and>
      Ci (dbp_inode st) (d_inode_oid de) = Some (?f de) \<and> obj_type (entry_obj (?f de)) \<noteq> LWFS_LINK_ENTRY"
    if "de \<in> set (map snd kvs)" for de
  proof -
    from that obtain k where "C1 (dbp1 st) k = Some de" using kvs(1) by (auto simp: children_def)
    from inode_of_entry [OF inv this] show ?thesis by auto
  qed
  have "db3_get N (dbp1 st) p (length kvs) = Some (Inr (map snd kvs))"
    using db3_get_exact [OF kvs(2)] kvs(3) by simp
  moreover have "get_inodes N (dbp_inode st) (map snd kvs) room (length (map snd kvs)) = Some (Inr ?es)"
    by (rule get_inodes_exact) (use ino room in auto)
  ultimately have "naming_db_get_all_by_parent N st p room (length kvs) = Some (Inr ?es)"
    using mal by (simp add: naming_db_get_all_by_parent_def)
  moreover have "map dirent ?es = map snd kvs" by (simp add: comp_def)
  ultimately show ?thesis using that ino by fastforce
qed

text \<open>Asking for one entry more than there are reads an entry that was never written.\<close>

lemma list_one_more:
  assumes inv: "naming_inv N C1 Ci M st" and kvs: "set kvs = children C1 (dbp1 st) p"
    "cursor_lists N (dbp1 st) p (map snd kvs)" "kvs \<noteq> []"
    and mal: "can_malloc_dirents N (Suc (length kvs))"
  shows "naming_db_get_all_by_parent N st p room (Suc (length kvs)) = None"
proof -
  have nx: "\<forall>i. db3_next N (dbp1 st) p i =
      (if Suc i < length (map snd kvs) then Inr (map snd kvs ! Suc i) else Inl DB_NOTFOUND)"
    using kvs(2) by (simp add: cursor_lists_def)
  obtain des where des: "db3_get N (dbp1 st) p (Suc (length kvs)) = Some (Inr des)"
    "length des = length kvs" "set des \<subseteq> snd ` set kvs"
  proof -
    have rest: "0 < i \<Longrightarrow> i \<le> length kvs \<Longrightarrow>
        cursor_rest (db3_next N (dbp1 st) p) (Suc (length kvs)) i = Some (Inr (drop i (map snd kvs)))" for i
    proof (induction "length kvs - i" arbitrary: i)
      case 0
      then show ?case using nx by (subst cursor_rest.simps) simp
    next
      case (Suc n)
      then have lt: "i < length kvs" by simp
      have "cursor_rest (db3_next N (dbp1 st) p) (Suc (length kvs)) (Suc i) = Some (Inr (drop (Suc i) (map snd kvs)))"
        using Suc lt by (intro Suc.hyps(1)) auto
      moreover have "drop i (map snd kvs) = map snd kvs ! i # drop (Suc i) (map snd kvs)"
        using lt Cons_nth_drop_Suc [of i "map snd kvs"] by simp
      moreover have "db3_next N (dbp1 st) p (i - 1) = Inr (map snd kvs ! i)"
        using nx lt Suc.prems by simp
      ultimately show ?case using lt by (subst cursor_rest.simps) simp
    qed
    obtain kv r where kv: "kvs = kv # r" using kvs(3) by (cases kvs) auto
    have "db3_get N (dbp1 st) p (Suc (length kvs)) = Some (Inr (map snd kvs))"
      using rest [of 1] kvs(2) by (simp add: db3_get_def cursor_ok cursor_lists_def kv)
    then show ?thesis using that by simp
  qed
  have "\<exists>ino. inode_get_by_dirent N (dbp_inode st) de = Inr ino" if "de \<in> set des" for de
  proof -
    from that obtain k where "C1 (dbp1 st) k = Some de" using kvs(1) des(3) by (auto simp: children_def)
    from inode_of_entry [OF inv this] show ?thesis by blast
  qed
  then have "get_inodes N (dbp_inode st) des room (Suc (length kvs)) = None"
    using des(2) by (intro get_inodes_short) auto
  with des(1) mal show ?thesis by (simp add: naming_db_get_all_by_parent_def)
qed

subsection \<open>The entries a new database starts with\<close>

text \<open>An entry that is stored and whose id is unique passes the sanity checks.\<close>

lemma sanity_OK:
  assumes st: "holds C1 Ci st D I" and k: "D (db1_keygen (d_parent_oid (dirent e)) name) = Some (dirent e)"
    and i: "I (d_inode_oid (dirent e)) = Some j"
    and uniq: "\<And>k' de'. D k' = Some de' \<Longrightarrow> d_oid de' = d_oid (dirent e) \<Longrightarrow> de' = dirent e"
  shows "sanity_checks N st e name = LWFS_OK"
proof -
  have "naming_db_get_by_name N st (d_parent_oid (dirent e)) name = Inr \<lparr>dirent = dirent e, inode = j\<rparr>"
    using get_by_name_eq [OF st] k i by simp
  moreover have "naming_db_get_by_oid N st (d_oid (dirent e)) = Inr \<lparr>dirent = dirent e, inode = j\<rparr>"
    using get_by_oid_found [OF st k refl uniq] i by simp
  moreover obtain n where "naming_db_get_size N st (d_parent_oid (dirent e)) = Inr n"
    using get_size_eq [of st "d_parent_oid (dirent e)"] by blast
  ultimately show ?thesis by (simp add: sanity_checks_def)
qed

end

lemma boot_names:
  "db1_keygen 0 ''/'' \<noteq> db1_keygen 0 ''orphans''" "db1_keygen 0 ''/'' \<noteq> db1_keygen 0 GLOBAL_DB_KEY"
  "db1_keygen 0 ''orphans'' \<noteq> db1_keygen 0 GLOBAL_DB_KEY"
  by (simp_all add: db1_keygen_def strncpy_def c_str_def GLOBAL_DB_KEY_def LWFS_NAME_LEN_def)

lemma boot_dir_fields:
  "dirent (boot_dir name i d) = zero_dirent\<lparr>d_name := name, d_oid := d, d_inode_oid := i\<rparr>"
  "obj_oid (entry_obj (inode (boot_dir name i d))) = i"
  "obj_type (entry_obj (inode (boot_dir name i d))) = LWFS_DIR_ENTRY" "ref_cnt (inode (boot_dir name i d)) = 0"
  "d_oid zero_dirent = 0" "d_link zero_dirent = 0" "d_parent_oid zero_dirent = 0" "d_inode_oid zero_dirent = 0"
  by (simp_all add: boot_dir_def zero_defs)

lemma id_entry_fields:
  "dirent id_entry = zero_dirent\<lparr>d_name := GLOBAL_DB_KEY, d_hide := True\<rparr>"
  "obj_oid (entry_obj (inode id_entry)) = 0" "obj_type (entry_obj (inode id_entry)) = LWFS_GENERIC_OBJ"
  by (simp_all add: id_entry_def zero_defs)

context naming_reliable begin

lemma boot_run:
  assumes st: "holds C1 Ci st Map.empty Map.empty" and M: "oid_count st + 4 \<le> M"
    and n: "n = oid_count st" and u: "u = uuid_gen N"
  shows "\<exists>st'. naming_db_boot N st = (Inr (boot_dir ''/'' (u n) (u (n + 1)), boot_dir ''orphans'' (u (n + 2)) (u (n + 3))), st') \<and>
    oid_count st' = n + 4 \<and> naming_svc st' = naming_svc st \<and>
    holds C1 Ci st'
      [db1_keygen 0 GLOBAL_DB_KEY \<mapsto> dirent id_entry,
       db1_keygen 0 ''/'' \<mapsto> dirent (boot_dir ''/'' (u n) (u (n + 1))),
       db1_keygen 0 ''orphans'' \<mapsto> dirent (boot_dir ''orphans'' (u (n + 2)) (u (n + 3)))]
      [0 \<mapsto> inode id_entry, u n \<mapsto> inode (boot_dir ''/'' (u n) (u (n + 1))),
       u (n + 2) \<mapsto> inode (boot_dir ''orphans'' (u (n + 2)) (u (n + 3)))]"
proof -
  let ?root = "boot_dir ''/'' (u n) (u (n + 1))" and ?orph = "boot_dir ''orphans'' (u (n + 2)) (u (n + 3))"
  let ?k0 = "db1_keygen 0 GLOBAL_DB_KEY" and ?k1 = "db1_keygen 0 ''/''" and ?k2 = "db1_keygen 0 ''orphans''"
  have uu: "u a = u b \<longleftrightarrow> a = b" if "a < n + 4" "b < n + 4" for a b
    using gen_eq_iff [OF uuid_inj] that M n u by simp
  have u0: "u a \<noteq> 0" if "a < n + 4" for a using uuid_nonzero that M n u by simp
  note f = boot_dir_fields id_entry_fields
  obtain rc1 st1 where p1: "naming_db_put N st id_entry True = (rc1, st1)" by fastforce
  have r1: "rc1 = LWFS_OK" "holds C1 Ci st1 [?k0 \<mapsto> dirent id_entry] [0 \<mapsto> inode id_entry]"
    "oid_count st1 = n" "naming_svc st1 = naming_svc st"
    using naming_db_put_new [OF st _ _ _ p1] n by (simp_all add: f)
  have s1: "sanity_checks N st1 id_entry GLOBAL_DB_KEY = LWFS_OK"
    by (rule sanity_OK [OF r1(2)]) (auto simp: f split: if_splits)
  let ?st1 = "st1\<lparr>oid_count := n + 2\<rparr>"
  have h1: "holds C1 Ci ?st1 [?k0 \<mapsto> dirent id_entry] [0 \<mapsto> inode id_entry]" using r1(2) by (simp add: holds_def)
  obtain rc2 st2 where p2: "naming_db_put N ?st1 ?root True = (rc2, st2)" by fastforce
  have fr2: "d_oid de \<noteq> d_oid (dirent ?root)" if "[?k0 \<mapsto> dirent id_entry] k = Some de" for k de
    using that u0 [of "n + 1"] by (auto simp: f split: if_splits)
  have fi2: "[0 \<mapsto> inode id_entry] (obj_oid (entry_obj (inode ?root))) = None"
    using u0 [of n] by (simp add: f)
  have r2: "rc2 = LWFS_OK" "holds C1 Ci st2 [?k0 \<mapsto> dirent id_entry, ?k1 \<mapsto> dirent ?root]
      [0 \<mapsto> inode id_entry, u n \<mapsto> inode ?root]" "oid_count st2 = n + 2" "naming_svc st2 = naming_svc st"
    using naming_db_put_new [OF h1 _ fr2 fi2 p2] boot_names r1(4) by (simp_all add: f)
  have s2: "sanity_checks N st2 ?root ''/'' = LWFS_OK"
    by (rule sanity_OK [OF r2(2)]) (use u0 boot_names in \<open>auto simp: f split: if_splits\<close>)
  let ?st2 = "st2\<lparr>oid_count := n + 4\<rparr>"
  have h2: "holds C1 Ci ?st2 [?k0 \<mapsto> dirent id_entry, ?k1 \<mapsto> dirent ?root] [0 \<mapsto> inode id_entry, u n \<mapsto> inode ?root]"
    using r2(2) by (simp add: holds_def)
  obtain rc3 st3 where p3: "naming_db_put N ?st2 ?orph True = (rc3, st3)" by fastforce
  have fr3: "d_oid de \<noteq> d_oid (dirent ?orph)"
    if "[?k0 \<mapsto> dirent id_entry, ?k1 \<mapsto> dirent ?root] k = Some de" for k de
    using that u0 [of "n + 3"] uu [of "n + 1" "n + 3"] by (auto simp: f split: if_splits)
  have fi3: "[0 \<mapsto> inode id_entry, u n \<mapsto> inode ?root] (obj_oid (entry_obj (inode ?orph))) = None"
    using u0 [of "n + 2"] uu [of "n + 2" n] by (simp add: f)
  have r3: "rc3 = LWFS_OK" "holds C1 Ci st3 [?k0 \<mapsto> dirent id_entry, ?k1 \<mapsto> dirent ?root, ?k2 \<mapsto> dirent ?orph]
      [0 \<mapsto> inode id_entry, u n \<mapsto> inode ?root, u (n + 2) \<mapsto> inode ?orph]"
    "oid_count st3 = n + 4" "naming_svc st3 = naming_svc st"
    using naming_db_put_new [OF h2 _ fr3 fi3 p3] boot_names r2(4) by (simp_all add: f)
  have "naming_db_boot N st = (Inr (?root, ?orph), st3)"
    using p1 r1 s1 p2 r2 s2 p3 r3(1)
    by (simp add: naming_db_boot_def naming_db_gen_oid_def u [symmetric] numeral_eq_Suc)
  with r3 show ?thesis by blast
qed

lemma boot_inv:
  assumes st: "holds C1 Ci st Map.empty Map.empty" and M: "oid_count st + 4 \<le> M"
  shows "\<exists>root orphans st'. naming_db_boot N st = (Inr (root, orphans), st') \<and> naming_inv N C1 Ci M st' \<and>
    C1 (dbp1 st') (db1_keygen 0 ''/'') = Some (dirent root) \<and>
    Ci (dbp_inode st') (d_inode_oid (dirent root)) = Some (inode root) \<and> ref_cnt (inode root) = 0 \<and>
    oid_count st' = oid_count st + 4"
proof -
  define n u where "n = oid_count st" and "u = uuid_gen N"
  let ?root = "boot_dir ''/'' (u n) (u (n + 1))" and ?orph = "boot_dir ''orphans'' (u (n + 2)) (u (n + 3))"
  let ?k0 = "db1_keygen 0 GLOBAL_DB_KEY" and ?k1 = "db1_keygen 0 ''/''" and ?k2 = "db1_keygen 0 ''orphans''"
  let ?D = "[?k0 \<mapsto> dirent id_entry, ?k1 \<mapsto> dirent ?root, ?k2 \<mapsto> dirent ?orph]"
  let ?I = "[0 \<mapsto> inode id_entry, u n \<mapsto> inode ?root, u (n + 2) \<mapsto> inode ?orph]"
  note f = boot_dir_fields id_entry_fields
  have uu: "u a = u b \<longleftrightarrow> a = b" if "a < M" "b < M" for a b
    using gen_eq_iff [OF uuid_inj] that by (simp add: u_def)
  have u0: "u a \<noteq> 0" if "a < M" for a using uuid_nonzero that by (simp add: u_def)
  have lt: "n < M" "n + 1 < M" "n + 2 < M" "n + 3 < M" using M by (simp_all add: n_def)
  have ne: "u n \<noteq> 0" "u (n + 1) \<noteq> 0" "u (n + 2) \<noteq> 0" "u (n + 3) \<noteq> 0" "u (n + 1) \<noteq> u (n + 3)" "u n \<noteq> u (n + 2)"
    using lt u0 uu by simp_all
  have dom: "dom ?D \<subseteq> boot_keys" by (auto simp: boot_keys_def split: if_splits)
  then have refs: "refs ?D o' \<subseteq> boot_keys" for o' using refs_subset_dom by (rule order_trans [rotated])
  have ent: "entries_ok ?D ?I"
    using boot_names ne dom unfolding entries_ok_def by (auto simp: f split: if_splits)
  have uniq: "oids_unique ?D"
    using boot_names ne unfolding oids_unique_def by (auto simp: f split: if_splits)
  have ino: "inode_ok ?D o' j" if j: "?I o' = Some j" for o' j
  proof -
    have "?k0 \<in> refs ?D 0" "?k1 \<in> refs ?D (u n)" "?k2 \<in> refs ?D (u (n + 2))"
      using boot_names by (auto simp: refs_def f)
    then have "refs ?D o' \<noteq> {}" using j by (auto split: if_splits)
    moreover from this have "refs ?D o' \<inter> boot_keys \<noteq> {}" using refs [of o'] by blast
    moreover have "obj_oid (entry_obj j) = o' \<and> obj_type (entry_obj j) \<noteq> LWFS_LINK_ENTRY"
      using j ne by (auto simp: f split: if_splits)
    ultimately show ?thesis using refs [of o'] by (simp add: inode_ok_def)
  qed
  have fresh: "oids_fresh u M (n + 4) ?D ?I"
    unfolding oids_fresh_def
  proof (intro allI impI)
    fix m
    assume m: "n + 4 \<le> m" "m < M"
    then have "u m \<noteq> 0" "u m \<noteq> u n" "u m \<noteq> u (n + 1)" "u m \<noteq> u (n + 2)" "u m \<noteq> u (n + 3)"
      using u0 [of m] uu [of m n] uu [of m "n + 1"] uu [of m "n + 2"] uu [of m "n + 3"] by simp_all
    then show "?I (u m) = None \<and> (\<forall>k de. ?D k = Some de \<longrightarrow> d_oid de \<noteq> u m)"
      by (simp add: f)
  qed
  have "db_inv u M (n + 4) ?D ?I"
    unfolding db_inv_def using ent uniq ino fresh by auto
  moreover from boot_run [OF st M n_def u_def] obtain st' where
    st': "naming_db_boot N st = (Inr (?root, ?orph), st')" "oid_count st' = n + 4" "holds C1 Ci st' ?D ?I" by blast
  ultimately have "naming_inv N C1 Ci M st'" by (simp add: naming_inv_def holds_def u_def)
  moreover have "?D ?k1 = Some (dirent ?root)" "?I (d_inode_oid (dirent ?root)) = Some (inode ?root)"
    using boot_names ne by (simp_all add: f)
  ultimately show ?thesis using st' boot_dir_fields(4) by (auto simp: holds_def n_def)
qed

end

subsection \<open>A started server on in-memory tables\<close>

abbreviation demo_names :: "(mem_db1, lwfs_oid \<rightharpoonup> naming_db_inode) naming_env" where
  "demo_names \<equiv> mem_naming (\<lambda>caps. LWFS_OK)"

definition demo_empty :: "(mem_db1, lwfs_oid \<rightharpoonup> naming_db_inode) naming_state" where
  "demo_empty = \<lparr>dbp1 = [], dbp_inode = Map.empty, oid_count = 0, naming_svc = Service_Descriptor 1\<rparr>"

definition demo_booted :: "(mem_db1, lwfs_oid \<rightharpoonup> naming_db_inode) naming_state" where
  "demo_booted = snd (naming_db_boot demo_names demo_empty)"

lemma demo_empty_holds: "holds map_of (\<lambda>i. i) demo_empty Map.empty Map.empty" "oid_count demo_empty + 4 \<le> mem_ids"
  by (simp_all add: holds_def demo_empty_def mem_ids_def)

lemma demo_booted_inv: "naming_inv demo_names map_of (\<lambda>i. i) mem_ids demo_booted"
  "oid_count demo_booted = 4"
proof -
  obtain r st' where "naming_db_boot demo_names demo_empty = (r, st')"
    "naming_inv demo_names map_of (\<lambda>i. i) mem_ids st'" "oid_count st' = oid_count demo_empty + 4"
    using mem_naming.boot_inv [OF demo_empty_holds] by blast
  then show "naming_inv demo_names map_of (\<lambda>i. i) mem_ids demo_booted" "oid_count demo_booted = 4"
    by (simp_all add: demo_booted_def demo_empty_def)
qed

text \<open>A capability for every operation, and the root as a parent.\<close>

definition demo_all_cap :: lwfs_cap where
  "demo_all_cap = \<lparr>cap_data = \<lparr>cid = 7, container_op = 62, cred = \<lparr>cred_data = \<lparr>uid = 5\<rparr>, cred_mac = 0\<rparr>\<rparr>, cap_mac = 0\<rparr>"

definition demo_root :: lwfs_ns_entry where
  "demo_root = \<lparr>ns_name = ''/'', dirent_oid = 2, inode_oid = 1, parent_oid = 0, link_cnt = 0,
     ns_entry_obj = zero_obj\<lparr>obj_type := LWFS_DIR_ENTRY\<rparr>, ns_file_obj = None\<rparr>"

definition demo_obj :: lwfs_obj where
  "demo_obj = zero_obj\<lparr>obj_type := LWFS_FILE_OBJ, obj_cid := 7, obj_oid := 99\<rparr>"

definition demo_filed :: "(mem_db1, lwfs_oid \<rightharpoonup> naming_db_inode) naming_state" where
  "demo_filed = snd (the (naming_create_file demo_names 3 demo_booted demo_root ''f'' demo_obj demo_all_cap))"

lemma demo_file: "\<exists>ns. naming_create_file demo_names 3 demo_booted demo_root ''f'' demo_obj demo_all_cap = Some (Inr ns, demo_filed)"
proof -
  have "(case naming_create_file demo_names 3 demo_booted demo_root ''f'' demo_obj demo_all_cap of
      Some (Inr ns, st) \<Rightarrow> True | _ \<Rightarrow> False)" by code_simp
  then show ?thesis by (auto simp: demo_filed_def split: option.splits prod.splits sum.splits)
qed

end
