(* ===== verification/Naming_Effects.thy ===== *)
theory Naming_Effects imports Naming_List begin

section \<open>The effect of the naming requests on the namespace\<close>

text \<open>
  A request that creates an entry adds one name and nothing else, or changes nothing; a request
  that removes one takes one name away, and the object with its last name; a reading request
  changes nothing. Every request but \<open>List_Namespaces\<close> has a defined return. The lemmas are
  proved under the contract \<open>naming_reliable\<close>; the properties of \<open>Naming_Properties\<close> are short
  consequences of them.
\<close>

text \<open>The key of the entry that a request creates, and of the one that it removes.\<close>

fun created_key :: "naming_request \<Rightarrow> db1_key option" where
  "created_key (Create_Dir t parent name c cap) = Some (db1_keygen (dirent_oid parent) name)"
| "created_key (Create_File t parent name ob cap) = Some (db1_keygen (dirent_oid parent) name)"
| "created_key (Create_Link parent name cap tparent tname tcap) = Some (db1_keygen (dirent_oid parent) name)"
| "created_key (Create_Namespace t name c) = Some (db1_keygen ROOT_OID name)"
| "created_key _ = None"

fun removed_key :: "naming_request \<Rightarrow> db1_key option" where
  "removed_key (Remove_Dir parent name cap) = Some (db1_keygen (dirent_oid parent) name)"
| "removed_key (Unlink parent name cap) = Some (db1_keygen (dirent_oid parent) name)"
| "removed_key (Remove_Namespace name cap) = Some (db1_keygen ROOT_OID name)"
| "removed_key _ = None"

definition rc_of :: "lwfs_return_code + 'a \<Rightarrow> lwfs_return_code" where
  "rc_of r = (case r of Inl rc \<Rightarrow> rc | Inr x \<Rightarrow> LWFS_OK)"

fun response_rc :: "naming_response \<Rightarrow> lwfs_return_code" where
  "response_rc (Entry_Response r) = rc_of r"
| "response_rc (Entries_Response r) = rc_of r"
| "response_rc (Stat_Response r) = rc_of r"
| "response_rc (Namespace_Response r) = rc_of r"
| "response_rc (Namespaces_Response r) = rc_of r"

lemma rc_of_simps [simp]: "rc_of (Inl rc) = rc" "rc_of (Inr x) = LWFS_OK"
  by (simp_all add: rc_of_def)

definition unchanged ::
  "('d \<Rightarrow> db1_key \<Rightarrow> naming_db_dirent option) \<Rightarrow> ('i \<Rightarrow> lwfs_oid \<Rightarrow> naming_db_inode option) \<Rightarrow>
     ('d, 'i) naming_state \<Rightarrow> ('d, 'i) naming_state \<Rightarrow> bool" where
  "unchanged C1 Ci st st' \<longleftrightarrow> C1 (dbp1 st') = C1 (dbp1 st) \<and> Ci (dbp_inode st') = Ci (dbp_inode st)"

text \<open>
  \<open>made\<close>: one entry with a new object was added, and \<open>ns\<close> describes it. \<open>linked\<close>: an entry was
  added that shares the object of another one.
\<close>

definition made ::
  "('d, 'i) naming_env \<Rightarrow> ('d \<Rightarrow> db1_key \<Rightarrow> naming_db_dirent option) \<Rightarrow>
     ('i \<Rightarrow> lwfs_oid \<Rightarrow> naming_db_inode option) \<Rightarrow> ('d, 'i) naming_state \<Rightarrow> lwfs_oid \<Rightarrow> string \<Rightarrow>
     lwfs_entry_type \<Rightarrow> lwfs_cid \<Rightarrow> lwfs_obj option \<Rightarrow> ('d, 'i) naming_state \<Rightarrow> lwfs_ns_entry \<Rightarrow> bool" where
  "made N C1 Ci st p name ty c fobj st' ns \<longleftrightarrow> (\<exists>e.
     C1 (dbp1 st) (db1_keygen p name) = None \<and> C1 (dbp1 st') = (C1 (dbp1 st))(db1_keygen p name \<mapsto> dirent e) \<and>
     Ci (dbp_inode st) (d_inode_oid (dirent e)) = None \<and>
     Ci (dbp_inode st') = (Ci (dbp_inode st))(d_inode_oid (dirent e) \<mapsto> inode e) \<and>
     ns = ns_of e \<and> obj_type (entry_obj (inode e)) = ty \<and> obj_cid (entry_obj (inode e)) = c \<and>
     ref_cnt (inode e) = 1 \<and> ns_file_obj ns = fobj \<and>
     (\<forall>k de. C1 (dbp1 st') k = Some de \<longrightarrow> d_oid de \<noteq> obj_oid (entry_obj (inode e))) \<and>
     naming_db_get_by_oid N st' (d_oid (dirent e)) = Inr e \<and> naming_db_get_by_name N st' p name = Inr e)"

definition linked ::
  "('d, 'i) naming_env \<Rightarrow> ('d \<Rightarrow> db1_key \<Rightarrow> naming_db_dirent option) \<Rightarrow>
     ('i \<Rightarrow> lwfs_oid \<Rightarrow> naming_db_inode option) \<Rightarrow> ('d, 'i) naming_state \<Rightarrow> lwfs_oid \<Rightarrow> string \<Rightarrow>
     lwfs_oid \<Rightarrow> string \<Rightarrow> ('d, 'i) naming_state \<Rightarrow> lwfs_ns_entry \<Rightarrow> bool" where
  "linked N C1 Ci st p name tp tname st' ns \<longleftrightarrow> (\<exists>target svc oid.
     naming_db_get_by_name N st tp tname = Inr target \<and> C1 (dbp1 st) (db1_keygen p name) = None \<and>
     C1 (dbp1 st') = (C1 (dbp1 st))(db1_keygen p name \<mapsto> dirent (link_entry target svc name p oid)) \<and>
     Ci (dbp_inode st') = (Ci (dbp_inode st))(d_inode_oid (dirent target) \<mapsto>
       (inode target)\<lparr>ref_cnt := ref_cnt (inode target) + 1\<rparr>) \<and>
     ns = ns_of (link_entry target svc name p oid))"

definition gone ::
  "('d, 'i) naming_env \<Rightarrow> ('d \<Rightarrow> db1_key \<Rightarrow> naming_db_dirent option) \<Rightarrow>
     ('i \<Rightarrow> lwfs_oid \<Rightarrow> naming_db_inode option) \<Rightarrow> ('d, 'i) naming_state \<Rightarrow> lwfs_oid \<Rightarrow> string \<Rightarrow>
     ('d, 'i) naming_state \<Rightarrow> lwfs_ns_entry \<Rightarrow> bool" where
  "gone N C1 Ci st p name st' ns \<longleftrightarrow> (\<exists>e. naming_db_get_by_name N st p name = Inr e \<and>
     C1 (dbp1 st') = (C1 (dbp1 st))(db1_keygen p name := None) \<and>
     Ci (dbp_inode st') = (if ref_cnt (inode e) = 1 then (Ci (dbp_inode st))(d_inode_oid (dirent e) := None)
       else (Ci (dbp_inode st))(d_inode_oid (dirent e) \<mapsto> (inode e)\<lparr>ref_cnt := ref_cnt (inode e) - 1\<rparr>)) \<and>
     ns = (ns_of e)\<lparr>link_cnt := ref_cnt (inode e) - 1\<rparr>)"

lemma get_errors: "naming_db_get_by_oid N st oid \<noteq> Inl LWFS_OK" "naming_db_get_by_name N st p name \<noteq> Inl LWFS_OK"
  by (auto simp: naming_db_get_by_oid_def naming_db_get_by_name_def db1_get_def db2_get_def
      inode_get_by_dirent_def inode_get_def split: sum.splits db_rc.splits)

lemma check_perm_entry:
  assumes "naming_check_perm N st oid cap op = LWFS_OK"
  obtains e where "naming_db_get_by_oid N st oid = Inr e" "verify_rpc N [cap] = LWFS_OK"
    "op AND container_op (cap_data cap) = op"
    "obj_cid (entry_obj (inode e)) = LWFS_CID_ANY \<or> obj_cid (entry_obj (inode e)) = cid (cap_data cap)"
  using assms get_errors(1) [of N st oid]
  by (auto simp: naming_check_perm_def split: sum.splits if_splits)

context naming_store begin

lemma put_rc_OK: "put_rc rc = LWFS_OK \<longleftrightarrow> rc = DB_OK"
  by (cases rc) (simp_all add: put_rc_def)

lemma db1_put_contents:
  "db1_put N d k de True = (rc, d') \<Longrightarrow>
   C1 d' = (if rc = LWFS_OK then (C1 d)(k \<mapsto> de) else C1 d) \<and> (rc = LWFS_OK \<longrightarrow> C1 d k = None)"
  using db1.put_contents db1.put_fresh
  by (fastforce simp: db1_put_def put_rc_OK split: prod.splits)

lemma inode_put_failed: "inode_put N i ikey ino noov = (rc, i') \<Longrightarrow> rc \<noteq> LWFS_OK \<Longrightarrow> Ci i' = Ci i"
  using ino.put_fail by (fastforce simp: inode_put_def put_rc_OK split: prod.splits)

lemma inode_increment_failed:
  "inode_increment_refcnt N i ikey = (rc, i') \<Longrightarrow> rc \<noteq> LWFS_OK \<Longrightarrow> Ci i' = Ci i"
  using inode_put_failed
  by (fastforce simp: inode_increment_refcnt_def Let_def split: sum.splits prod.splits if_splits)

lemma naming_db_put_failed:
  assumes "naming_db_put N st e True = (rc, st')" "rc \<noteq> LWFS_OK" "C1 (dbp1 st') \<noteq> C1 (dbp1 st)"
  shows "C1 (dbp1 st') = (C1 (dbp1 st))(key_of (dirent e) \<mapsto> dirent e) \<and> Ci (dbp_inode st') = Ci (dbp_inode st)"
proof -
  let ?ikey = "obj_oid (entry_obj (inode e))"
  obtain rc1 d1 where p1: "db1_put N (dbp1 st) (key_of (dirent e)) (dirent e) True = (rc1, d1)" by fastforce
  obtain rc2 i2 where p2: "(if d_link (dirent e) \<noteq> 0 then inode_increment_refcnt N (dbp_inode st) ?ikey
      else inode_put N (dbp_inode st) ?ikey (inode e) True) = (rc2, i2)" by fastforce
  have put: "(rc, st') = (if rc1 \<noteq> LWFS_OK then (rc1, st\<lparr>dbp1 := d1\<rparr>) else (rc2, st\<lparr>dbp1 := d1, dbp_inode := i2\<rparr>))"
    using assms(1) p1 p2 by (auto simp: naming_db_put_def Let_def)
  have "rc1 = LWFS_OK" using put assms(3) db1_put_contents [OF p1] by (auto split: if_splits)
  moreover have "rc2 \<noteq> LWFS_OK \<Longrightarrow> Ci i2 = Ci (dbp_inode st)"
    using p2 inode_put_failed inode_increment_failed by (simp split: if_splits)
  ultimately show ?thesis using put assms(2) db1_put_contents [OF p1] by simp
qed

lemma naming_db_put_taken:
  assumes "C1 (dbp1 st) (key_of (dirent e)) \<noteq> None"
  shows "fst (naming_db_put N st e True) \<noteq> LWFS_OK"
proof -
  obtain rc1 d1 where p1: "db1_put N (dbp1 st) (key_of (dirent e)) (dirent e) True = (rc1, d1)" by fastforce
  have "rc1 \<noteq> LWFS_OK" using db1_put_contents [OF p1] assms by auto
  with p1 show ?thesis by (simp add: naming_db_put_def)
qed

text \<open>A new namespace needs no capability; whatever the database answers, it keeps every entry and object
  and adds at most its own name.\<close>

lemma naming_db_put_adds:
  assumes "naming_db_put N st e True = (rc, st')" "d_link (dirent e) = 0"
  shows "C1 (dbp1 st) \<subseteq>\<^sub>m C1 (dbp1 st')"
    "dom (C1 (dbp1 st')) \<subseteq> insert (key_of (dirent e)) (dom (C1 (dbp1 st)))"
    "Ci (dbp_inode st) \<subseteq>\<^sub>m Ci (dbp_inode st')"
proof -
  let ?ikey = "obj_oid (entry_obj (inode e))"
  obtain rc1 d1 where p1: "db1_put N (dbp1 st) (key_of (dirent e)) (dirent e) True = (rc1, d1)" by fastforce
  obtain rc2 i2 where p2: "inode_put N (dbp_inode st) ?ikey (inode e) True = (rc2, i2)" by fastforce
  have st': "dbp1 st' = d1 \<and> (dbp_inode st' = dbp_inode st \<or> dbp_inode st' = i2)"
    using assms p1 p2 by (auto simp: naming_db_put_def Let_def split: if_splits)
  note d = db1_put_contents [OF p1]
  have i: "Ci (dbp_inode st) \<subseteq>\<^sub>m Ci i2"
    using p2 ino.put_contents ino.put_fresh
    by (fastforce simp: inode_put_def map_le_def split: prod.splits if_splits)
  from st' d show "C1 (dbp1 st) \<subseteq>\<^sub>m C1 (dbp1 st')"
    "dom (C1 (dbp1 st')) \<subseteq> insert (key_of (dirent e)) (dom (C1 (dbp1 st)))"
    by (auto simp: map_le_def split: if_splits)
  from st' i show "Ci (dbp_inode st) \<subseteq>\<^sub>m Ci (dbp_inode st')" by auto
qed

lemma create_namespace_adds:
  assumes "naming_create_namespace N t st name c = Some (r, st')"
  shows "C1 (dbp1 st) \<subseteq>\<^sub>m C1 (dbp1 st') \<and>
    dom (C1 (dbp1 st')) \<subseteq> insert (db1_keygen ROOT_OID name) (dom (C1 (dbp1 st))) \<and>
    Ci (dbp_inode st) \<subseteq>\<^sub>m Ci (dbp_inode st')"
proof -
  obtain e st1 where e: "new_entry N st t name ROOT_OID LWFS_NS_OBJ c None = (e, st1)" by fastforce
  then have f: "d_link (dirent e) = 0" "key_of (dirent e) = db1_keygen ROOT_OID name"
    "dbp1 st1 = dbp1 st" "dbp_inode st1 = dbp_inode st"
    by (auto simp: new_entry_def naming_db_gen_oid_def zero_dirent_def Let_def split: prod.splits)
  obtain rc st2 where put: "naming_db_put N st1 e True = (rc, st2)" by fastforce
  have "st' = st2"
    using assms e put by (auto simp: naming_create_namespace_def Let_def split: if_splits)
  with naming_db_put_adds [OF put f(1)] f show ?thesis by simp
qed

end

text \<open>The directory whose entries a request changes, and the capability it comes with.\<close>

fun request_dir :: "('d, 'i) naming_env \<Rightarrow> ('d, 'i) naming_state \<Rightarrow> naming_request \<Rightarrow> lwfs_oid option" where
  "request_dir N st (Create_Dir t parent name c cap) = Some (dirent_oid parent)"
| "request_dir N st (Create_File t parent name ob cap) = Some (dirent_oid parent)"
| "request_dir N st (Create_Link parent name cap tparent tname tcap) = Some (dirent_oid parent)"
| "request_dir N st (Remove_Dir parent name cap) = Some (dirent_oid parent)"
| "request_dir N st (Unlink parent name cap) = Some (dirent_oid parent)"
| "request_dir N st (Remove_Namespace name cap) =
     (case naming_db_get_by_name N st ROOT_OID name of Inl rc \<Rightarrow> None | Inr e \<Rightarrow> Some (d_oid (dirent e)))"
| "request_dir N st _ = None"

fun request_cap :: "naming_request \<Rightarrow> lwfs_cap option" where
  "request_cap (Create_Dir t parent name c cap) = Some cap"
| "request_cap (Create_File t parent name ob cap) = Some cap"
| "request_cap (Create_Link parent name cap tparent tname tcap) = Some cap"
| "request_cap (Remove_Dir parent name cap) = Some cap"
| "request_cap (Unlink parent name cap) = Some cap"
| "request_cap (Remove_Namespace name cap) = Some cap"
| "request_cap _ = None"

lemma change_checked:
  assumes run: "naming_dispatch N st req = Some (resp, st')"
    and change: "dbp1 st' \<noteq> dbp1 st \<or> dbp_inode st' \<noteq> dbp_inode st"
    and ns: "\<And>t name c. req \<noteq> Create_Namespace t name c"
  shows "\<exists>oid cap. request_dir N st req = Some oid \<and> request_cap req = Some cap \<and>
    naming_check_perm N st oid cap LWFS_CONTAINER_WRITE = LWFS_OK"
proof (cases req)
  case (Create_Dir t parent name c cap)
  with run change show ?thesis by (auto simp: naming_create_dir_def Let_def split: if_splits)
next
  case (Create_File t parent name ob cap)
  with run change show ?thesis by (auto simp: naming_create_file_def Let_def split: if_splits)
next
  case (Create_Link parent name cap tparent tname tcap)
  with run change show ?thesis by (auto simp: naming_create_link_def Let_def split: if_splits)
next
  case (Remove_Dir parent name cap)
  with run change show ?thesis by (auto simp: naming_remove_dir_def Let_def split: if_splits)
next
  case (Unlink parent name cap)
  with run change show ?thesis by (auto simp: naming_unlink_def Let_def split: if_splits)
next
  case (Remove_Namespace name cap)
  then obtain ns where ns: "namespace_lookup N st name = Some (Inr ns)"
    "naming_check_perm N st (dirent_oid (ns_entry ns)) cap LWFS_CONTAINER_WRITE = LWFS_OK"
    using run change by (auto simp: naming_remove_namespace_def Let_def split: if_splits option.splits sum.splits)
  then obtain e where "naming_db_get_by_name N st ROOT_OID name = Inr e" "copy_db_to_namespace N st e = Some ns"
    by (auto simp: namespace_lookup_def split: sum.splits)
  with ns(2) Remove_Namespace show ?thesis using copy_namespace_fields by fastforce
qed (use run change ns in auto)

context naming_reliable begin

lemma get_by_oid_iff:
  assumes inv: "naming_inv N C1 Ci M st"
  shows "naming_db_get_by_oid N st oid = Inr e \<longleftrightarrow>
    (\<exists>k. C1 (dbp1 st) k = Some (dirent e)) \<and> d_oid (dirent e) = oid \<and>
    Ci (dbp_inode st) (d_inode_oid (dirent e)) = Some (inode e)"
proof
  assume "naming_db_get_by_oid N st oid = Inr e"
  then show "(\<exists>k. C1 (dbp1 st) k = Some (dirent e)) \<and> d_oid (dirent e) = oid \<and>
      Ci (dbp_inode st) (d_inode_oid (dirent e)) = Some (inode e)"
    by (rule get_by_oid_sound)
next
  assume "(\<exists>k. C1 (dbp1 st) k = Some (dirent e)) \<and> d_oid (dirent e) = oid \<and>
      Ci (dbp_inode st) (d_inode_oid (dirent e)) = Some (inode e)"
  then obtain k where k: "C1 (dbp1 st) k = Some (dirent e)" "d_oid (dirent e) = oid"
    "Ci (dbp_inode st) (d_inode_oid (dirent e)) = Some (inode e)" by blast
  have uniq: "de' = dirent e" if "C1 (dbp1 st) k' = Some de'" "d_oid de' = oid" for k' de'
  proof -
    have "k' = k" using inv that k unfolding naming_inv_def db_inv_def oids_unique_def by blast
    with that k show ?thesis by simp
  qed
  have "holds C1 Ci st (C1 (dbp1 st)) (Ci (dbp_inode st))" by (simp add: holds_def)
  from get_by_oid_found [OF this k(1,2) uniq] k(3) show "naming_db_get_by_oid N st oid = Inr e"
    by simp
qed

lemma get_by_name_iff:
  "naming_db_get_by_name N st p name = Inr e \<longleftrightarrow>
   C1 (dbp1 st) (db1_keygen p name) = Some (dirent e) \<and> Ci (dbp_inode st) (d_inode_oid (dirent e)) = Some (inode e)"
proof -
  have "holds C1 Ci st (C1 (dbp1 st)) (Ci (dbp_inode st))" by (simp add: holds_def)
  then show ?thesis by (auto simp: get_by_name_eq split: option.splits)
qed

lemma get_by_name_absent:
  "C1 (dbp1 st) (db1_keygen p name) = None \<Longrightarrow> naming_db_get_by_name N st p name = Inl LWFS_ERR_NOENT"
  using get_by_name_eq [of st "C1 (dbp1 st)" "Ci (dbp_inode st)"] by (simp add: holds_def)

subsection \<open>Requests that create\<close>

text \<open>
  The common part of the three handlers that make a new object: after a success the new entry
  is in the tables under its key, and nothing else changed.
\<close>

lemma created_entry:
  assumes inv: "naming_inv N C1 Ci M st" and p: "plain_key p name" and ty: "ty \<noteq> LWFS_LINK_ENTRY"
    and M: "oid_count st + 2 \<le> M"
    and run: "new_entry N st t name p ty c fobj = (e, st1)" "naming_db_put N st1 e True = (rc, st2)"
  shows "if rc = LWFS_OK
    then C1 (dbp1 st) (db1_keygen p name) = None \<and> C1 (dbp1 st2) = (C1 (dbp1 st))(db1_keygen p name \<mapsto> dirent e) \<and>
      Ci (dbp_inode st) (d_inode_oid (dirent e)) = None \<and>
      Ci (dbp_inode st2) = (Ci (dbp_inode st))(d_inode_oid (dirent e) \<mapsto> inode e)
    else C1 (dbp1 st) (db1_keygen p name) \<noteq> None \<and> rc = LWFS_ERR_EXIST \<and>
      C1 (dbp1 st2) = C1 (dbp1 st) \<and> Ci (dbp_inode st2) = Ci (dbp_inode st)"
proof -
  have "Ci (dbp_inode st) (uuid_gen N (Suc (oid_count st))) = None"
    using inv M unfolding naming_inv_def db_inv_def oids_fresh_def by simp
  with put_new_entry(2) [OF inv run p ty M] new_entry_fields(3) [OF run(1)] show ?thesis
    by (auto split: if_splits)
qed

lemma created_get_by_oid:
  assumes inv: "naming_inv N C1 Ci M st" and p: "plain_key p name" and ty: "ty \<noteq> LWFS_LINK_ENTRY"
    and M: "oid_count st + 2 \<le> M"
    and run: "new_entry N st t name p ty c fobj = (e, st1)" "naming_db_put N st1 e True = (LWFS_OK, st2)"
  shows "naming_db_get_by_oid N st2 (d_oid (dirent e)) = Inr e"
    "naming_db_get_by_name N st2 p name = Inr e"
proof -
  have eff: "C1 (dbp1 st2) = (C1 (dbp1 st))(db1_keygen p name \<mapsto> dirent e)"
    "Ci (dbp_inode st2) = (Ci (dbp_inode st))(d_inode_oid (dirent e) \<mapsto> inode e)"
    using created_entry [OF inv p ty M run] by simp_all
  have inv2: "naming_inv N C1 Ci M st2" by (rule create_inv [OF inv p ty M run])
  show "naming_db_get_by_oid N st2 (d_oid (dirent e)) = Inr e"
    unfolding get_by_oid_iff [OF inv2] using eff by auto
  show "naming_db_get_by_name N st2 p name = Inr e"
    unfolding get_by_name_iff using eff by simp
qed

lemma create_made:
  assumes inv: "naming_inv N C1 Ci M st" and p: "plain_key p name" and ty: "ty \<noteq> LWFS_LINK_ENTRY"
    and M: "oid_count st + 2 \<le> M"
    and run: "new_entry N st t name p ty c fobj = (e, st1)" "naming_db_put N st1 e True = (rc, st2)"
  shows "rc \<noteq> LWFS_OK \<Longrightarrow> unchanged C1 Ci st st2" "rc = LWFS_OK \<Longrightarrow> made N C1 Ci st p name ty c fobj st2 (ns_of e)"
proof -
  note eff = created_entry [OF inv p ty M run] and f = new_entry_fields [OF run(1)]
  show "rc \<noteq> LWFS_OK \<Longrightarrow> unchanged C1 Ci st st2" using eff by (simp add: unchanged_def)
  assume rc: "rc = LWFS_OK"
  have fo: "ns_file_obj (ns_of e) = fobj" using f(10,11) by (cases fobj) (auto simp: ns_of_def)
  have lt: "oid_count st < M" "Suc (oid_count st) < M" using M by simp_all
  have "d_oid de \<noteq> uuid_gen N (Suc (oid_count st))" if "C1 (dbp1 st) k = Some de" for k de
    using inv lt that unfolding naming_inv_def db_inv_def oids_fresh_def by simp
  moreover have "d_oid (dirent e) \<noteq> uuid_gen N (Suc (oid_count st))"
    using gen_eq_iff [OF uuid_inj lt] f(2) by simp
  ultimately have ids: "\<forall>k de. C1 (dbp1 st2) k = Some de \<longrightarrow> d_oid de \<noteq> obj_oid (entry_obj (inode e))"
    using eff rc f(5) by auto
  show "made N C1 Ci st p name ty c fobj st2 (ns_of e)"
    unfolding made_def
    by (rule exI [of _ e])
      (use eff rc f(6-8) fo ids created_get_by_oid [OF inv p ty M run(1) run(2) [unfolded rc]] in simp)
qed

lemma put_link_eff:
  assumes inv: "naming_inv N C1 Ci M st" and get: "naming_db_get_by_name N st tp tname = Inr target"
    and gen: "naming_db_gen_oid N st = (oid, st1)"
    and put: "naming_db_put N st1 (link_entry target svc name p oid) True = (rc, st2)"
    and p: "plain_key p name" "plain_key tp tname" and M: "oid_count st + 2 \<le> M"
  shows "if rc = LWFS_OK
    then C1 (dbp1 st) (db1_keygen p name) = None \<and>
      C1 (dbp1 st2) = (C1 (dbp1 st))(db1_keygen p name \<mapsto> dirent (link_entry target svc name p oid)) \<and>
      Ci (dbp_inode st2) = (Ci (dbp_inode st))(d_inode_oid (dirent target) \<mapsto>
        (inode target)\<lparr>ref_cnt := ref_cnt (inode target) + 1\<rparr>)
    else C1 (dbp1 st) (db1_keygen p name) \<noteq> None \<and> rc = LWFS_ERR_EXIST \<and>
      C1 (dbp1 st2) = C1 (dbp1 st) \<and> Ci (dbp_inode st2) = Ci (dbp_inode st)"
  using put_link_entry(2) [OF assms] by (auto split: if_splits)

lemma link_type:
  "naming_inv N C1 Ci M st \<Longrightarrow> naming_db_get_by_name N st tp tname = Inr target \<Longrightarrow>
   obj_type (entry_obj (inode (link_entry target svc name p oid))) \<noteq> LWFS_LINK_ENTRY"
  using get_by_name_inode(4) by (simp add: link_entry_def)

text \<open>Each create handler has a defined return; it adds its entry or changes nothing.\<close>

lemma create_dir_effect:
  assumes inv: "naming_inv N C1 Ci M st" and p: "plain_key (dirent_oid parent) name" and M: "oid_count st + 2 \<le> M"
  shows "\<exists>r st'. naming_create_dir N t st parent name c cap = Some (r, st') \<and>
    (case r of Inl rc \<Rightarrow> rc \<noteq> LWFS_OK \<and> unchanged C1 Ci st st'
     | Inr ns \<Rightarrow> made N C1 Ci st (dirent_oid parent) name LWFS_DIR_ENTRY c None st' ns)"
proof -
  obtain e st1 where new: "new_entry N st t name (dirent_oid parent) LWFS_DIR_ENTRY c None = (e, st1)" by fastforce
  obtain rc st2 where put: "naming_db_put N st1 e True = (rc, st2)" by fastforce
  note made = create_made [OF inv p _ M new put]
  have ty: "obj_type (entry_obj (inode e)) \<noteq> LWFS_LINK_ENTRY" using new_entry_fields(6) [OF new] by simp
  show ?thesis
    using new put ty made by (auto simp: naming_create_dir_def reply_entry_def copy_plain Let_def unchanged_def)
qed

lemma create_namespace_effect:
  assumes inv: "naming_inv N C1 Ci M st" and p: "plain_key ROOT_OID name" and M: "oid_count st + 2 \<le> M"
  shows "\<exists>r st'. naming_create_namespace N t st name c = Some (r, st') \<and>
    (case r of Inl rc \<Rightarrow> rc \<noteq> LWFS_OK \<and> unchanged C1 Ci st st'
     | Inr nsp \<Rightarrow> made N C1 Ci st ROOT_OID name LWFS_NS_OBJ c None st' (ns_entry nsp))"
proof -
  obtain e st1 where new: "new_entry N st t name ROOT_OID LWFS_NS_OBJ c None = (e, st1)" by fastforce
  obtain rc st2 where put: "naming_db_put N st1 e True = (rc, st2)" by fastforce
  note made = create_made [OF inv p _ M new put]
  have ty: "obj_type (entry_obj (inode e)) \<noteq> LWFS_LINK_ENTRY" using new_entry_fields(6) [OF new] by simp
  show ?thesis
    using new put ty made
    by (auto simp: naming_create_namespace_def copy_db_to_namespace_def copy_plain Let_def unchanged_def)
qed

lemma create_file_effect:
  assumes inv: "naming_inv N C1 Ci M st" and p: "plain_key (dirent_oid parent) name" and M: "oid_count st + 2 \<le> M"
  shows "\<exists>r st'. naming_create_file N t st parent name ob cap = Some (r, st') \<and>
    (case r of Inl rc \<Rightarrow> rc \<noteq> LWFS_OK \<and> unchanged C1 Ci st st'
     | Inr ns \<Rightarrow> made N C1 Ci st (dirent_oid parent) name LWFS_FILE_ENTRY (obj_cid ob) (Some ob) st' ns)"
proof -
  obtain e st1 where new: "new_entry N st t name (dirent_oid parent) LWFS_FILE_ENTRY (obj_cid ob) (Some ob) = (e, st1)"
    by fastforce
  obtain rc st2 where put: "naming_db_put N st1 e True = (rc, st2)" by fastforce
  note made = create_made [OF inv p _ M new put]
  have ty: "obj_type (entry_obj (inode e)) \<noteq> LWFS_LINK_ENTRY" using new_entry_fields(6) [OF new] by simp
  have get: "rc = LWFS_OK \<Longrightarrow> naming_db_get_by_oid N st2 (d_oid (dirent e)) = Inr e"
    using created_get_by_oid(1) [OF inv p _ M new] put by simp
  show ?thesis
    using new put ty made get
    by (auto simp: naming_create_file_def reply_entry_def copy_plain Let_def unchanged_def)
qed

text \<open>A link adds a name and counts it in the inode of its target.\<close>

lemma create_link_effect:
  assumes inv: "naming_inv N C1 Ci M st" and p: "plain_key (dirent_oid parent) name"
    "plain_key (dirent_oid tparent) tname" and M: "oid_count st + 2 \<le> M"
  shows "\<exists>r st'. naming_create_link N st parent name cap tparent tname tcap = Some (r, st') \<and>
    (case r of Inl rc \<Rightarrow> rc \<noteq> LWFS_OK \<and> unchanged C1 Ci st st'
     | Inr ns \<Rightarrow> linked N C1 Ci st (dirent_oid parent) name (dirent_oid tparent) tname st' ns)"
proof (cases "naming_db_get_by_name N st (dirent_oid tparent) tname")
  case (Inl rc)
  then have "rc \<noteq> LWFS_OK" using get_errors(2) by auto
  with Inl show ?thesis by (simp add: naming_create_link_def Let_def unchanged_def)
next
  case (Inr target)
  obtain oid st1 where gen: "naming_db_gen_oid N st = (oid, st1)" by fastforce
  let ?e = "link_entry target (naming_svc st1) name (dirent_oid parent) oid"
  obtain rc st2 where put: "naming_db_put N st1 ?e True = (rc, st2)" by fastforce
  note eff = put_link_eff [OF inv Inr gen put p M] put_link_entry(1) [OF inv Inr gen put p M]
  have "copy_db_to_ns_entry N st2 ?e = Some (ns_of ?e)"
    by (rule copy_plain) (rule link_type [OF inv Inr])
  then show ?thesis
    using Inr gen put eff
    by (auto simp: naming_create_link_def reply_entry_def Let_def unchanged_def linked_def)
qed

subsection \<open>Requests that remove\<close>

lemma del_gone:
  assumes inv: "naming_inv N C1 Ci M st" and p: "plain_key p name"
  shows "\<exists>r st'. naming_db_del N st p name = Some (r, st') \<and> naming_inv N C1 Ci M st' \<and>
    (case r of Inl rc \<Rightarrow> rc \<noteq> LWFS_OK \<and> unchanged C1 Ci st st'
     | Inr e \<Rightarrow> gone N C1 Ci st p name st' (ns_of e) \<and> obj_type (entry_obj (inode e)) \<noteq> LWFS_LINK_ENTRY)"
proof (cases "naming_db_get_by_name N st p name")
  case (Inl rc)
  then have "rc \<noteq> LWFS_OK" using get_errors(2) by auto
  with Inl inv show ?thesis by (simp add: naming_db_del_def unchanged_def)
next
  case (Inr e)
  let ?e = "\<lparr>dirent = dirent e, inode = (inode e)\<lparr>ref_cnt := ref_cnt (inode e) - 1\<rparr>\<rparr>"
  obtain st' where st': "naming_db_del N st p name = Some (Inr ?e, st')" "naming_inv N C1 Ci M st'"
    "C1 (dbp1 st') = (C1 (dbp1 st))(db1_keygen p name := None)"
    "Ci (dbp_inode st') = (if ref_cnt (inode e) = 1 then (Ci (dbp_inode st))(d_inode_oid (dirent e) := None)
      else (Ci (dbp_inode st))(d_inode_oid (dirent e) \<mapsto> (inode e)\<lparr>ref_cnt := ref_cnt (inode e) - 1\<rparr>))"
    using del_entry [OF inv Inr p] by blast
  have "gone N C1 Ci st p name st' (ns_of ?e)"
    unfolding gone_def using Inr st' by (intro exI [of _ e]) (simp add: ns_of_def)
  moreover have "obj_type (entry_obj (inode ?e)) \<noteq> LWFS_LINK_ENTRY"
    using get_by_name_inode(4) [OF inv Inr] by simp
  ultimately show ?thesis using st' by auto
qed

lemma remove_dir_effect:
  assumes inv: "naming_inv N C1 Ci M st" and p: "plain_key (dirent_oid parent) name"
  shows "\<exists>r st'. naming_remove_dir N st parent name cap = Some (r, st') \<and>
    (case r of Inl rc \<Rightarrow> rc \<noteq> LWFS_OK \<and> unchanged C1 Ci st st'
     | Inr ns \<Rightarrow> gone N C1 Ci st (dirent_oid parent) name st' ns)"
proof -
  obtain r st' where "naming_db_del N st (dirent_oid parent) name = Some (r, st')"
    "case r of Inl rc \<Rightarrow> rc \<noteq> LWFS_OK \<and> unchanged C1 Ci st st'
     | Inr e \<Rightarrow> gone N C1 Ci st (dirent_oid parent) name st' (ns_of e) \<and> obj_type (entry_obj (inode e)) \<noteq> LWFS_LINK_ENTRY"
    using del_gone [OF inv p] by blast
  then show ?thesis
    by (auto simp: naming_remove_dir_def reply_entry_def copy_plain Let_def unchanged_def split: sum.splits)
qed

lemma unlink_effect:
  assumes inv: "naming_inv N C1 Ci M st" and p: "plain_key (dirent_oid parent) name"
  shows "\<exists>r st'. naming_unlink N st parent name cap = Some (r, st') \<and>
    (case r of Inl rc \<Rightarrow> rc \<noteq> LWFS_OK \<and> unchanged C1 Ci st st'
     | Inr ns \<Rightarrow> gone N C1 Ci st (dirent_oid parent) name st' ns)"
proof -
  obtain r st' where "naming_db_del N st (dirent_oid parent) name = Some (r, st')"
    "case r of Inl rc \<Rightarrow> rc \<noteq> LWFS_OK \<and> unchanged C1 Ci st st'
     | Inr e \<Rightarrow> gone N C1 Ci st (dirent_oid parent) name st' (ns_of e) \<and> obj_type (entry_obj (inode e)) \<noteq> LWFS_LINK_ENTRY"
    using del_gone [OF inv p] by blast
  then show ?thesis
    by (auto simp: naming_unlink_def reply_entry_def copy_plain Let_def unchanged_def split: sum.splits)
qed

lemma namespace_lookup_eq:
  assumes inv: "naming_inv N C1 Ci M st"
  shows "namespace_lookup N st name = Some (case naming_db_get_by_name N st ROOT_OID name of
      Inl rc \<Rightarrow> Inl rc | Inr e \<Rightarrow> Inr \<lparr>nsp_name = strncpy LWFS_NAME_LEN (d_name (dirent e)), ns_entry = ns_of e\<rparr>)"
    "naming_db_get_by_name N st ROOT_OID name = Inr e \<Longrightarrow> d_parent_oid (dirent e) = ROOT_OID"
proof -
  show "namespace_lookup N st name = Some (case naming_db_get_by_name N st ROOT_OID name of
      Inl rc \<Rightarrow> Inl rc | Inr e \<Rightarrow> Inr \<lparr>nsp_name = strncpy LWFS_NAME_LEN (d_name (dirent e)), ns_entry = ns_of e\<rparr>)"
    using get_by_name_inode(4) [OF inv]
    by (auto simp: namespace_lookup_def copy_db_to_namespace_def copy_plain split: sum.splits)
  assume "naming_db_get_by_name N st ROOT_OID name = Inr e"
  from get_by_name_inode(5) [OF inv this] show "d_parent_oid (dirent e) = ROOT_OID" by (simp add: db1_keygen_def)
qed

lemma remove_namespace_effect:
  assumes inv: "naming_inv N C1 Ci M st" and p: "plain_key ROOT_OID name"
  shows "\<exists>r st'. naming_remove_namespace N st name cap = Some (r, st') \<and>
    (case r of Inl rc \<Rightarrow> rc \<noteq> LWFS_OK \<and> unchanged C1 Ci st st'
     | Inr nsp \<Rightarrow> gone N C1 Ci st ROOT_OID name st' (ns_entry nsp))"
proof (cases "naming_db_get_by_name N st ROOT_OID name")
  case (Inl rc)
  then show ?thesis by (simp add: naming_remove_namespace_def namespace_lookup_eq(1) [OF inv] unchanged_def)
next
  case (Inr e)
  obtain r st' where "naming_db_del N st ROOT_OID name = Some (r, st')"
    "case r of Inl rc \<Rightarrow> rc \<noteq> LWFS_OK \<and> unchanged C1 Ci st st'
     | Inr e \<Rightarrow> gone N C1 Ci st ROOT_OID name st' (ns_of e) \<and> obj_type (entry_obj (inode e)) \<noteq> LWFS_LINK_ENTRY"
    using del_gone [OF inv p] by blast
  moreover have "parent_oid (ns_of e) = ROOT_OID" using namespace_lookup_eq(2) [OF inv Inr] by (simp add: ns_of_def)
  ultimately show ?thesis using Inr
    by (cases r) (simp_all add: naming_remove_namespace_def namespace_lookup_eq(1) [OF inv]
        copy_db_to_namespace_def copy_plain Let_def unchanged_def)
qed

subsection \<open>Requests that read\<close>

lemma lookup_eq:
  assumes inv: "naming_inv N C1 Ci M st" and dir: "is_dir_type (obj_type (ns_entry_obj parent))"
    and ok: "naming_check_perm N st (dirent_oid parent) cap LWFS_CONTAINER_READ = LWFS_OK"
  shows "naming_lookup N st parent name cap =
    Some (case naming_db_get_by_name N st (dirent_oid parent) name of Inl rc \<Rightarrow> Inl rc | Inr e \<Rightarrow> Inr (ns_of e))"
  using dir ok get_by_name_inode(4) [OF inv]
  by (auto simp: naming_lookup_def copy_plain split: sum.splits)

lemma lookup_defined: "naming_inv N C1 Ci M st \<Longrightarrow> \<exists>r. naming_lookup N st parent name cap = Some r"
  using get_by_name_inode(4) by (auto simp: naming_lookup_def copy_plain Let_def split: sum.splits)

text \<open>A listing, when there is memory for it, is the entries of the directory in some order.\<close>

lemma list_dir_eq:
  assumes inv: "naming_inv N C1 Ci M st" and dir: "is_dir_type (obj_type (ns_entry_obj parent))"
    and ok: "naming_check_perm N st (dirent_oid parent) cap LWFS_CONTAINER_READ = LWFS_OK"
  shows "(\<exists>rc. naming_list_dir N st parent cap = Some (Inl rc) \<and>
      (\<exists>n. \<not> can_malloc_dirents N n \<or> \<not> can_malloc_entries N n \<or> \<not> can_malloc_results N n)) \<or>
    (\<exists>es. naming_list_dir N st parent cap = Some (Inr (map ns_of es)) \<and> distinct (map (key_of \<circ> dirent) es) \<and>
      set es = {e. d_parent_oid (dirent e) = dirent_oid parent \<and>
        (\<exists>k. C1 (dbp1 st) k = Some (dirent e)) \<and> Ci (dbp_inode st) (d_inode_oid (dirent e)) = Some (inode e)})"
    (is "?short \<or> ?exact")
proof -
  obtain kvs where kvs: "distinct (map fst kvs)" "set kvs = children C1 (dbp1 st) (dirent_oid parent)"
    "cursor_lists N (dbp1 st) (dirent_oid parent) (map snd kvs)"
    "naming_db_get_size N st (dirent_oid parent) = Inr (length kvs)" using get_size_eq by blast
  show ?thesis
  proof (cases "kvs = []")
    case True
    with dir ok kvs have "naming_list_dir N st parent cap = Some (Inr [])" by (simp add: naming_list_dir_def)
    moreover have "C1 (dbp1 st) k \<noteq> Some de" if "d_parent_oid de = dirent_oid parent" for k de
      using kvs(2) True that by (auto simp: children_def)
    ultimately have ?exact by (intro exI [of _ "[]"]) auto
    then show ?thesis ..
  next
    case False
    show ?thesis
    proof (cases "can_malloc_dirents N (length kvs) \<and> can_malloc_entries N (length kvs) \<and> can_malloc_results N (length kvs)")
      case mem: False
      then have ?short
        using dir ok kvs(4) False by (auto simp: naming_list_dir_def naming_db_get_all_by_parent_def)
      then show ?thesis ..
    next
      case True
      then obtain es where es: "naming_db_get_all_by_parent N st (dirent_oid parent) (length kvs) (length kvs) = Some (Inr es)"
        "map dirent es = map snd kvs" "\<forall>e\<in>set es. Ci (dbp_inode st) (d_inode_oid (dirent e)) = Some (inode e)"
        "\<forall>e\<in>set es. obj_type (entry_obj (inode e)) \<noteq> LWFS_LINK_ENTRY"
        using list_entries [OF inv kvs(2,3) False order_refl] by blast
      have "copy_all (copy_db_to_ns_entry N st) es = Some (map ns_of es)"
        by (rule copy_all_plain) (use es(4) copy_plain in blast)
      then have run: "naming_list_dir N st parent cap = Some (Inr (map ns_of es))"
        using dir ok kvs(4) False True es(1) by (simp add: naming_list_dir_def)
      have keys: "fst kv = key_of (snd kv)" if "kv \<in> set kvs" for kv
        using inv that kvs(2) unfolding naming_inv_def db_inv_def entries_ok_def children_def by fastforce
      have "map (key_of \<circ> dirent) es = map key_of (map dirent es)" by simp
      also have "\<dots> = map fst kvs" using keys by (simp add: es(2))
      finally have dist: "distinct (map (key_of \<circ> dirent) es)" using kvs(1) by simp
      have mem: "e \<in> set es \<longleftrightarrow> d_parent_oid (dirent e) = dirent_oid parent \<and>
          (\<exists>k. C1 (dbp1 st) k = Some (dirent e)) \<and> Ci (dbp_inode st) (d_inode_oid (dirent e)) = Some (inode e)" for e
      proof -
        have "dirent e \<in> set (map dirent es) \<longleftrightarrow>
            d_parent_oid (dirent e) = dirent_oid parent \<and> (\<exists>k. C1 (dbp1 st) k = Some (dirent e))"
          unfolding es(2) using kvs(2) by (auto simp: children_def image_iff)
        moreover have "e = e'" if "e' \<in> set es" "dirent e' = dirent e"
          "Ci (dbp_inode st) (d_inode_oid (dirent e)) = Some (inode e)" for e'
          using es(3) that by auto
        ultimately show ?thesis using es(3) by auto
      qed
      with run dist have ?exact by (intro exI [of _ es]) auto
      then show ?thesis ..
    qed
  qed
qed

lemma list_dir_defined: "naming_inv N C1 Ci M st \<Longrightarrow> \<exists>r. naming_list_dir N st parent cap = Some r"
  using list_dir_eq [of st parent cap] by (fastforce simp: naming_list_dir_def Let_def)

lemma get_namespace_defined: "naming_inv N C1 Ci M st \<Longrightarrow> \<exists>r. naming_get_namespace N st name = Some r"
  by (auto simp: naming_get_namespace_def namespace_lookup_eq split: sum.splits)

subsection \<open>Sequences of requests\<close>

lemma made_get_by_oid:
  assumes inv: "naming_inv N C1 Ci M st" "naming_inv N C1 Ci M st'" and made: "made N C1 Ci st p name ty c fobj st' ns"
    and get: "naming_db_get_by_oid N st oid = Inr e"
  shows "naming_db_get_by_oid N st' oid = Inr e"
proof -
  note g = get [unfolded get_by_oid_iff [OF inv(1)]]
  then obtain k where k: "C1 (dbp1 st) k = Some (dirent e)" by blast
  obtain e' :: naming_db_entry where e': "C1 (dbp1 st) (db1_keygen p name) = None"
    "C1 (dbp1 st') = (C1 (dbp1 st))(db1_keygen p name \<mapsto> dirent e')"
    "Ci (dbp_inode st) (d_inode_oid (dirent e')) = None"
    "Ci (dbp_inode st') = (Ci (dbp_inode st))(d_inode_oid (dirent e') \<mapsto> inode e')"
    using made unfolding made_def by blast
  then have "C1 (dbp1 st') k = Some (dirent e)" using k by auto
  moreover have "Ci (dbp_inode st') (d_inode_oid (dirent e)) = Some (inode e)" using e' g by auto
  ultimately show ?thesis unfolding get_by_oid_iff [OF inv(2)] using g by blast
qed

lemma made_check_perm:
  assumes inv: "naming_inv N C1 Ci M st" "naming_inv N C1 Ci M st'" and made: "made N C1 Ci st p name ty c fobj st' ns"
    and ok: "naming_check_perm N st oid cap op = LWFS_OK"
  shows "naming_check_perm N st' oid cap op = LWFS_OK"
  using ok by (rule check_perm_entry)
    (use made_get_by_oid [OF inv made] in \<open>auto simp: naming_check_perm_def\<close>)

lemma file_made:
  assumes inv: "naming_inv N C1 Ci M st" and p: "plain_key (dirent_oid parent) name" and M: "oid_count st + 2 \<le> M"
    and run: "naming_create_file N t st parent name ob cap = Some (Inr ns, st')"
  shows "made N C1 Ci st (dirent_oid parent) name LWFS_FILE_ENTRY (obj_cid ob) (Some ob) st' ns"
    "naming_inv N C1 Ci M st'" "is_dir_type (obj_type (ns_entry_obj parent))"
proof -
  show "made N C1 Ci st (dirent_oid parent) name LWFS_FILE_ENTRY (obj_cid ob) (Some ob) st' ns"
    using create_file_effect [OF inv p M, of t ob cap] run by auto
  show "naming_inv N C1 Ci M st'"
    using dispatch_inv [OF inv _ M, of "Create_File t parent name ob cap"] p run by simp
  show "is_dir_type (obj_type (ns_entry_obj parent))"
    using run by (simp add: naming_create_file_def split: if_splits)
qed

lemma link_linked:
  assumes inv: "naming_inv N C1 Ci M st" and p: "plain_key (dirent_oid parent) name"
    "plain_key (dirent_oid tparent) tname" and M: "oid_count st + 2 \<le> M"
    and run: "naming_create_link N st parent name cap tparent tname tcap = Some (Inr ns, st')"
  shows "linked N C1 Ci st (dirent_oid parent) name (dirent_oid tparent) tname st' ns" "naming_inv N C1 Ci M st'"
    "is_dir_type (obj_type (ns_entry_obj parent))"
proof -
  show "linked N C1 Ci st (dirent_oid parent) name (dirent_oid tparent) tname st' ns"
    using create_link_effect [OF inv p M, of cap tcap] run by auto
  show "naming_inv N C1 Ci M st'"
    using dispatch_inv [OF inv _ M, of "Create_Link parent name cap tparent tname tcap"] p run by simp
  show "is_dir_type (obj_type (ns_entry_obj parent))"
    using run by (simp add: naming_create_link_def split: if_splits)
qed

lemma unlink_gone:
  assumes inv: "naming_inv N C1 Ci M st" and p: "plain_key (dirent_oid parent) name"
    and run: "naming_unlink N st parent name cap = Some (Inr ns, st')"
  shows "gone N C1 Ci st (dirent_oid parent) name st' ns" "is_dir_type (obj_type (ns_entry_obj parent))"
    "naming_inv N C1 Ci M st'"
proof -
  show "gone N C1 Ci st (dirent_oid parent) name st' ns" using unlink_effect [OF inv p, of cap] run by auto
  show "is_dir_type (obj_type (ns_entry_obj parent))"
    using run by (simp add: naming_unlink_def split: if_splits)
  have "\<exists>r. naming_db_del N st (dirent_oid parent) name = Some (r, st')"
    using run by (auto simp: naming_unlink_def reply_entry_def Let_def split: if_splits option.splits sum.splits)
  with del_entry_inv [OF inv p] show "naming_inv N C1 Ci M st'" by blast
qed

text \<open>A link, and then the removal of its target: the object is still there under the link.\<close>

lemma link_survives:
  assumes inv: "naming_inv N C1 Ci M st" "naming_inv N C1 Ci M st1" and tp: "plain_key tp tname"
    and l: "linked N C1 Ci st p name tp tname st1 ns" and g: "gone N C1 Ci st1 tp tname st2 ns'"
  shows "\<exists>target e. naming_db_get_by_name N st tp tname = Inr target \<and> naming_db_get_by_name N st2 p name = Inr e \<and>
    d_inode_oid (dirent e) = d_inode_oid (dirent target) \<and> inode e = inode target \<and>
    naming_db_get_by_name N st2 tp tname = Inl LWFS_ERR_NOENT"
proof -
  let ?k = "db1_keygen p name" and ?t = "db1_keygen tp tname"
  obtain target svc oid where t: "naming_db_get_by_name N st tp tname = Inr target" "C1 (dbp1 st) ?k = None"
    "C1 (dbp1 st1) = (C1 (dbp1 st))(?k \<mapsto> dirent (link_entry target svc name p oid))"
    "Ci (dbp_inode st1) = (Ci (dbp_inode st))(d_inode_oid (dirent target) \<mapsto>
       (inode target)\<lparr>ref_cnt := ref_cnt (inode target) + 1\<rparr>)"
    using l unfolding linked_def by blast
  note tn = t(1) [unfolded get_by_name_iff]
  obtain e where e: "naming_db_get_by_name N st1 tp tname = Inr e" "C1 (dbp1 st2) = (C1 (dbp1 st1))(?t := None)"
    "Ci (dbp_inode st2) = (if ref_cnt (inode e) = 1 then (Ci (dbp_inode st1))(d_inode_oid (dirent e) := None)
       else (Ci (dbp_inode st1))(d_inode_oid (dirent e) \<mapsto> (inode e)\<lparr>ref_cnt := ref_cnt (inode e) - 1\<rparr>))"
    using g unfolding gone_def by blast
  have ne: "?t \<noteq> ?k" using tn t(2) by auto
  have "dirent e = dirent target" "inode e = (inode target)\<lparr>ref_cnt := ref_cnt (inode target) + 1\<rparr>"
    using e(1) [unfolded get_by_name_iff] t(3,4) ne tn by auto
  moreover have "0 < ref_cnt (inode target)"
    using db_inv_count_pos(1) inv(1) tn tp unfolding naming_inv_def plain_key_def by blast
  ultimately have "Ci (dbp_inode st2) (d_inode_oid (dirent target)) = Some (inode target)"
    using e(3) by simp
  moreover have "C1 (dbp1 st2) ?k = Some (dirent (link_entry target svc name p oid))"
    using e(2) t(3) ne by simp
  ultimately have "naming_db_get_by_name N st2 p name =
      Inr \<lparr>dirent = dirent (link_entry target svc name p oid), inode = inode target\<rparr>"
    unfolding get_by_name_iff by (simp add: link_entry_def)
  moreover have "naming_db_get_by_name N st2 tp tname = Inl LWFS_ERR_NOENT"
    by (rule get_by_name_absent) (simp add: e(2))
  ultimately show ?thesis using t(1)
    by (intro exI [of _ target]
        exI [of _ "\<lparr>dirent = dirent (link_entry target svc name p oid), inode = inode target\<rparr>"])
      (simp add: link_entry_def)
qed

subsection \<open>All requests\<close>

lemma dispatch_returns:
  assumes inv: "naming_inv N C1 Ci M st" and ok: "naming_request_ok req" and M: "oid_count st + 2 \<le> M"
    and ns: "req \<noteq> List_Namespaces"
  shows "\<exists>resp st'. naming_dispatch N st req = Some (resp, st')"
proof (cases req)
  case (Create_Dir t parent name c cap)
  with ok create_dir_effect [OF inv _ M, of parent name t c cap] show ?thesis by auto
next
  case (Create_File t parent name ob cap)
  with ok create_file_effect [OF inv _ M, of parent name t ob cap] show ?thesis by auto
next
  case (Create_Link parent name cap tparent tname tcap)
  with ok create_link_effect [OF inv _ _ M, of parent name tparent tname cap tcap] show ?thesis by auto
next
  case (Create_Namespace t name c)
  with ok create_namespace_effect [OF inv _ M, of name t c] show ?thesis by auto
next
  case (Remove_Dir parent name cap)
  with ok remove_dir_effect [OF inv, of parent name cap] show ?thesis by auto
next
  case (Unlink parent name cap)
  with ok unlink_effect [OF inv, of parent name cap] show ?thesis by auto
next
  case (Remove_Namespace name cap)
  with ok remove_namespace_effect [OF inv, of name cap] show ?thesis by auto
next
  case (Lookup parent name cap)
  with lookup_defined [OF inv, of parent name cap] show ?thesis by auto
next
  case (List_Dir parent cap)
  with list_dir_defined [OF inv, of parent cap] show ?thesis by auto
next
  case (Get_Namespace name)
  with get_namespace_defined [OF inv, of name] show ?thesis by auto
qed (use ns in auto)

lemma dispatch_creates:
  assumes inv: "naming_inv N C1 Ci M st" and ok: "naming_request_ok req" and M: "oid_count st + 2 \<le> M"
    and key: "created_key req = Some k" and run: "naming_dispatch N st req = Some (resp, st')"
  shows "if response_rc resp = LWFS_OK
    then C1 (dbp1 st) k = None \<and> (\<exists>de. C1 (dbp1 st') = (C1 (dbp1 st))(k \<mapsto> de))
    else unchanged C1 Ci st st'"
proof (cases req)
  case (Create_Dir t parent name c cap)
  then obtain r where r: "naming_create_dir N t st parent name c cap = Some (r, st')" "resp = Entry_Response r"
    using run by auto
  with create_dir_effect [OF inv _ M, of parent name t c cap] Create_Dir ok key show ?thesis
    by (cases r) (auto simp: made_def)
next
  case (Create_File t parent name ob cap)
  then obtain r where r: "naming_create_file N t st parent name ob cap = Some (r, st')" "resp = Entry_Response r"
    using run by auto
  with create_file_effect [OF inv _ M, of parent name t ob cap] Create_File ok key show ?thesis
    by (cases r) (auto simp: made_def)
next
  case (Create_Link parent name cap tparent tname tcap)
  then obtain r where r: "naming_create_link N st parent name cap tparent tname tcap = Some (r, st')" "resp = Entry_Response r"
    using run by auto
  with create_link_effect [OF inv _ _ M, of parent name tparent tname cap tcap] Create_Link ok key show ?thesis
    by (cases r) (auto simp: linked_def)
next
  case (Create_Namespace t name c)
  then obtain r where r: "naming_create_namespace N t st name c = Some (r, st')" "resp = Namespace_Response r"
    using run by auto
  with create_namespace_effect [OF inv _ M, of name t c] Create_Namespace ok key show ?thesis
    by (cases r) (auto simp: made_def)
qed (use key in auto)

lemma dispatch_removes:
  assumes inv: "naming_inv N C1 Ci M st" and ok: "naming_request_ok req"
    and key: "removed_key req = Some k" and run: "naming_dispatch N st req = Some (resp, st')"
  shows "if response_rc resp = LWFS_OK
    then C1 (dbp1 st) k \<noteq> None \<and> C1 (dbp1 st') = (C1 (dbp1 st))(k := None)
    else unchanged C1 Ci st st'"
proof (cases req)
  case (Remove_Dir parent name cap)
  then obtain r where r: "naming_remove_dir N st parent name cap = Some (r, st')" "resp = Entry_Response r"
    using run by auto
  with remove_dir_effect [OF inv, of parent name cap] Remove_Dir ok key show ?thesis
    by (cases r) (auto simp: gone_def get_by_name_iff)
next
  case (Unlink parent name cap)
  then obtain r where r: "naming_unlink N st parent name cap = Some (r, st')" "resp = Entry_Response r"
    using run by auto
  with unlink_effect [OF inv, of parent name cap] Unlink ok key show ?thesis
    by (cases r) (auto simp: gone_def get_by_name_iff)
next
  case (Remove_Namespace name cap)
  then obtain r where r: "naming_remove_namespace N st name cap = Some (r, st')" "resp = Namespace_Response r"
    using run by auto
  with remove_namespace_effect [OF inv, of name cap] Remove_Namespace ok key show ?thesis
    by (cases r) (auto simp: gone_def get_by_name_iff)
qed (use key in auto)

end

text \<open>The states of a server that was started on an empty database.\<close>

definition naming_runs_to ::
  "('d, 'i) naming_env \<Rightarrow> ('d \<Rightarrow> db1_key \<Rightarrow> naming_db_dirent option) \<Rightarrow>
     ('i \<Rightarrow> lwfs_oid \<Rightarrow> naming_db_inode option) \<Rightarrow> nat \<Rightarrow> ('d, 'i) naming_state \<Rightarrow> bool" where
  "naming_runs_to N C1 Ci M st \<longleftrightarrow> (\<exists>st00 r st0. holds C1 Ci st00 Map.empty Map.empty \<and> oid_count st00 + 4 \<le> M \<and>
     naming_db_boot N st00 = (Inr r, st0) \<and> naming_reach N M st0 st)"

context naming_reliable begin

lemma runs_to_inv:
  assumes "naming_runs_to N C1 Ci M st"
  shows "naming_inv N C1 Ci M st"
proof -
  obtain st00 r st0 where st00: "holds C1 Ci st00 Map.empty Map.empty" "oid_count st00 + 4 \<le> M"
    "naming_db_boot N st00 = (Inr r, st0)" "naming_reach N M st0 st"
    using assms unfolding naming_runs_to_def by blast
  from boot_inv [OF st00(1,2)] st00(3) have "naming_inv N C1 Ci M st0" by auto
  with reach_inv st00(4) show ?thesis by blast
qed

end

text \<open>The started server of \<open>Naming_List\<close>, and the state with one file in it.\<close>

lemma demo_runs: "naming_runs_to demo_names map_of (\<lambda>i. i) mem_ids demo_booted"
  "naming_runs_to demo_names map_of (\<lambda>i. i) mem_ids demo_filed"
proof -
  obtain r st' where boot: "naming_db_boot demo_names demo_empty = (Inr r, st')"
    using mem_naming.boot_inv [OF demo_empty_holds] by blast
  then have st': "st' = demo_booted" by (simp add: demo_booted_def)
  have reach: "naming_reach demo_names mem_ids demo_booted demo_booted" by (rule naming_reach.start)
  then show "naming_runs_to demo_names map_of (\<lambda>i. i) mem_ids demo_booted"
    using boot st' demo_empty_holds unfolding naming_runs_to_def by blast
  obtain ns where ns: "naming_create_file demo_names 3 demo_booted demo_root ''f'' demo_obj demo_all_cap =
      Some (Inr ns, demo_filed)" using demo_file by blast
  have ok: "naming_request_ok (Create_File 3 demo_root ''f'' demo_obj demo_all_cap)" by code_simp
  have "oid_count demo_booted + 2 \<le> mem_ids" by (simp add: demo_booted_inv mem_ids_def)
  from naming_reach.step [OF reach ok this, of "Entry_Response (Inr ns)" demo_filed] ns
  have "naming_reach demo_names mem_ids demo_booted demo_filed" by simp
  then show "naming_runs_to demo_names map_of (\<lambda>i. i) mem_ids demo_filed"
    using boot st' demo_empty_holds unfolding naming_runs_to_def by blast
qed

end
