(* ===== verification/Naming_Properties.thy ===== *)
theory Naming_Properties imports Naming_Effects begin

section \<open>Properties of the naming server\<close>

text \<open>
  The properties of the server as closed statements, each with a witness on the server of
  \<open>Naming_List\<close>. The hypothesis \<open>naming_reliable N C1 Ci M\<close> is the documented behaviour of Berkeley DB with
  its indices, and distinct ids for the first \<open>M\<close> calls of the generator; \<open>naming_runs_to\<close> is
  a server that was started on an empty database and has served requests since.
\<close>

lemmas demo_reliable_names = mem_naming.naming_reliable_axioms [of "\<lambda>caps. LWFS_OK"]

lemma demo_counts: "oid_count demo_booted + 2 \<le> mem_ids" "oid_count demo_filed + 2 \<le> mem_ids"
proof -
  show "oid_count demo_booted + 2 \<le> mem_ids" by (simp add: demo_booted_inv mem_ids_def)
  have "oid_count demo_filed = 6" by code_simp
  then show "oid_count demo_filed + 2 \<le> mem_ids" by (simp add: mem_ids_def)
qed

lemma demo_filed_run:
  "naming_dispatch demo_names demo_booted (Create_File 3 demo_root ''f'' demo_obj demo_all_cap) =
     Some (Entry_Response (Inr (the (case fst (the (naming_create_file demo_names 3 demo_booted demo_root ''f''
       demo_obj demo_all_cap)) of Inl rc \<Rightarrow> None | Inr ns \<Rightarrow> Some ns))), demo_filed)"
  using demo_file by auto

text \<open>C5: Whatever requests the server has served that do not name the entries it starts with, no
  directory entry refers to a missing object, no object is without an entry, and the stored link count of an object that
  is not one of the entries of the start is the number of entries that refer to it. The three entries of the
  start are stored with a count of 0 under one name each, so the count is not exact for them; requests that name one of them
  (\<open>naming_request_ok\<close>) are left out of \<open>naming_runs_to\<close>, because they do break the invariant
  (\<open>link_to_root_dangles\<close>).\<close>

theorem link_counts_exact:
  assumes "naming_reliable N C1 Ci M" "naming_runs_to N C1 Ci M st"
  shows "(\<forall>k de. C1 (dbp1 st) k = Some de \<longrightarrow> Ci (dbp_inode st) (d_inode_oid de) \<noteq> None) \<and>
    (\<forall>oid i. Ci (dbp_inode st) oid = Some i \<longrightarrow>
      obj_oid (entry_obj i) = oid \<and> refs (C1 (dbp1 st)) oid \<noteq> {} \<and>
      (refs (C1 (dbp1 st)) oid \<inter> boot_keys = {} \<longrightarrow> ref_cnt i = int (card (refs (C1 (dbp1 st)) oid))))"
proof -
  have inv: "naming_inv N C1 Ci M st" by (rule naming_reliable.runs_to_inv [OF assms])
  show ?thesis
  proof (intro conjI allI impI)
    fix k de
    assume "C1 (dbp1 st) k = Some de"
    with inv show "Ci (dbp_inode st) (d_inode_oid de) \<noteq> None"
      unfolding naming_inv_def db_inv_def entries_ok_def by blast
  next
    fix oid i
    assume "Ci (dbp_inode st) oid = Some i"
    then have ok: "inode_ok (C1 (dbp1 st)) oid i" using inv unfolding naming_inv_def db_inv_def by blast
    then show "obj_oid (entry_obj i) = oid" "refs (C1 (dbp1 st)) oid \<noteq> {}" by (simp_all add: inode_ok_def)
    show "ref_cnt i = int (card (refs (C1 (dbp1 st)) oid))" if "refs (C1 (dbp1 st)) oid \<inter> boot_keys = {}"
      using ok that by (simp add: inode_ok_def)
  qed
qed

theorem link_counts_exact_witness:
  "\<exists>i. dbp_inode demo_filed 6 = Some i \<and> refs (map_of (dbp1 demo_filed)) 6 \<noteq> {}"
proof -
  have "map_option ref_cnt (dbp_inode demo_filed 6) = Some 1" by code_simp
  then obtain i where "dbp_inode demo_filed 6 = Some i" by blast
  with link_counts_exact [OF demo_reliable_names demo_runs(2)] show ?thesis by blast
qed

text \<open>C19: On a started server over a reliable database every request but \<open>List_Namespaces\<close> that does not name an
  entry of the start has a defined return, while the generator has two ids left: no assertion fails and no array is
  overrun. Of the requests left out, the removal of \<^verbatim>\<open>/\<close> aborts (\<open>remove_root_aborts\<close>) and
  the listing of namespaces overruns its array (\<open>list_namespaces_undefined\<close>).\<close>

theorem naming_requests_return:
  assumes "naming_reliable N C1 Ci M" "naming_runs_to N C1 Ci M st" "oid_count st + 2 \<le> M"
    "naming_request_ok req" "req \<noteq> List_Namespaces"
  shows "naming_dispatch N st req \<noteq> None"
  using naming_reliable.dispatch_returns [OF assms(1) naming_reliable.runs_to_inv [OF assms(1,2)] assms(4,3,5)]
  by auto

theorem naming_requests_return_witness:
  "naming_dispatch demo_names demo_filed (Unlink demo_root ''f'' demo_all_cap) \<noteq> None"
proof (rule naming_requests_return [OF demo_reliable_names demo_runs(2) demo_counts(2)])
  show "naming_request_ok (Unlink demo_root ''f'' demo_all_cap)" by code_simp
qed simp

text \<open>C17: A request that creates a directory, file, link or namespace succeeds only if its name is
  free in its directory; then exactly that name is added. Otherwise neither table changes.\<close>

theorem create_adds_one_name:
  assumes "naming_reliable N C1 Ci M" "naming_runs_to N C1 Ci M st" "oid_count st + 2 \<le> M"
    "naming_request_ok req" "created_key req = Some k" "naming_dispatch N st req = Some (resp, st')"
  shows "if response_rc resp = LWFS_OK
    then C1 (dbp1 st) k = None \<and> (\<exists>de. C1 (dbp1 st') = (C1 (dbp1 st))(k \<mapsto> de))
    else C1 (dbp1 st') = C1 (dbp1 st) \<and> Ci (dbp_inode st') = Ci (dbp_inode st)"
  using naming_reliable.dispatch_creates [OF assms(1) naming_reliable.runs_to_inv [OF assms(1,2)] assms(4,3,5,6)]
  by (simp add: unchanged_def split: if_splits)

theorem create_adds_one_name_witness:
  "map_of (dbp1 demo_booted) (db1_keygen 2 ''f'') = None \<and>
   (\<exists>de. map_of (dbp1 demo_filed) = (map_of (dbp1 demo_booted))(db1_keygen 2 ''f'' \<mapsto> de))"
proof -
  have ok: "naming_request_ok (Create_File 3 demo_root ''f'' demo_obj demo_all_cap)" by code_simp
  have key: "created_key (Create_File 3 demo_root ''f'' demo_obj demo_all_cap) = Some (db1_keygen 2 ''f'')"
    by (simp add: demo_root_def)
  from create_adds_one_name [OF demo_reliable_names demo_runs(1) demo_counts(1) ok key demo_filed_run]
  show ?thesis by simp
qed

text \<open>C18: A request that removes a directory, link or namespace succeeds only if the name is there;
  then exactly that name is taken away. Otherwise neither table changes.\<close>

theorem remove_takes_one_name:
  assumes "naming_reliable N C1 Ci M" "naming_runs_to N C1 Ci M st"
    "naming_request_ok req" "removed_key req = Some k" "naming_dispatch N st req = Some (resp, st')"
  shows "if response_rc resp = LWFS_OK
    then C1 (dbp1 st) k \<noteq> None \<and> C1 (dbp1 st') = (C1 (dbp1 st))(k := None)
    else C1 (dbp1 st') = C1 (dbp1 st) \<and> Ci (dbp_inode st') = Ci (dbp_inode st)"
  using naming_reliable.dispatch_removes [OF assms(1) naming_reliable.runs_to_inv [OF assms(1,2)] assms(3-5)]
  by (simp add: unchanged_def split: if_splits)

theorem remove_takes_one_name_witness:
  "\<exists>resp st'. naming_dispatch demo_names demo_filed (Unlink demo_root ''f'' demo_all_cap) = Some (resp, st') \<and>
     map_of (dbp1 st') = (map_of (dbp1 demo_filed))(db1_keygen 2 ''f'' := None)"
proof -
  let ?req = "Unlink demo_root ''f'' demo_all_cap"
  have ok: "naming_request_ok ?req" by code_simp
  have key: "removed_key ?req = Some (db1_keygen 2 ''f'')" by (simp add: demo_root_def)
  have "map_option (\<lambda>(resp, st'). response_rc resp) (naming_dispatch demo_names demo_filed ?req) = Some LWFS_OK"
    by code_simp
  then obtain resp st' where run: "naming_dispatch demo_names demo_filed ?req = Some (resp, st')"
    "response_rc resp = LWFS_OK" by auto
  from remove_takes_one_name [OF demo_reliable_names demo_runs(2) ok key run(1)] run show ?thesis by auto
qed

text \<open>After a file was created, a lookup with a capability to read the directory gives the
  entry that the creation answered with: a file with the given object and one link.\<close>

theorem create_file_then_lookup:
  assumes "naming_reliable N C1 Ci M" "naming_runs_to N C1 Ci M st" "oid_count st + 2 \<le> M"
    "plain_key (dirent_oid parent) name" "naming_create_file N t st parent name ob cap = Some (Inr ns, st')"
    "naming_check_perm N st (dirent_oid parent) cap' LWFS_CONTAINER_READ = LWFS_OK"
  shows "naming_lookup N st' parent name cap' = Some (Inr ns) \<and>
    obj_type (ns_entry_obj ns) = LWFS_FILE_ENTRY \<and> obj_cid (ns_entry_obj ns) = obj_cid ob \<and>
    ns_file_obj ns = Some ob \<and> link_cnt ns = 1"
proof -
  note inv = naming_reliable.runs_to_inv [OF assms(1,2)]
  note m = naming_reliable.file_made [OF assms(1) inv assms(4,3,5)]
  obtain e :: naming_db_entry where e: "naming_db_get_by_name N st' (dirent_oid parent) name = Inr e" "ns = ns_of e"
    "obj_type (entry_obj (inode e)) = LWFS_FILE_ENTRY" "obj_cid (entry_obj (inode e)) = obj_cid ob"
    "ref_cnt (inode e) = 1" "ns_file_obj ns = Some ob"
    using m(1) unfolding made_def by blast
  have "naming_check_perm N st' (dirent_oid parent) cap' LWFS_CONTAINER_READ = LWFS_OK"
    by (rule naming_reliable.made_check_perm [OF assms(1) inv m(2,1) assms(6)])
  from naming_reliable.lookup_eq [OF assms(1) m(2,3) this] e show ?thesis by (simp add: ns_of_def)
qed

theorem create_file_then_lookup_witness:
  "\<exists>ns. naming_lookup demo_names demo_filed demo_root ''f'' demo_all_cap = Some (Inr ns) \<and> ns_file_obj ns = Some demo_obj"
proof -
  have p: "plain_key (dirent_oid demo_root) ''f''" by code_simp
  have ok: "naming_check_perm demo_names demo_booted (dirent_oid demo_root) demo_all_cap LWFS_CONTAINER_READ = LWFS_OK"
    by code_simp
  obtain ns where run: "naming_create_file demo_names 3 demo_booted demo_root ''f'' demo_obj demo_all_cap =
      Some (Inr ns, demo_filed)" using demo_file by blast
  from create_file_then_lookup [OF demo_reliable_names demo_runs(1) demo_counts(1) p run ok] show ?thesis by blast
qed

text \<open>After an entry was unlinked, no lookup finds its name.\<close>

theorem unlink_then_lookup:
  assumes "naming_reliable N C1 Ci M" "naming_runs_to N C1 Ci M st" "plain_key (dirent_oid parent) name"
    "naming_unlink N st parent name cap = Some (Inr ns, st')"
    "naming_check_perm N st' (dirent_oid parent) cap' LWFS_CONTAINER_READ = LWFS_OK"
  shows "naming_lookup N st' parent name cap' = Some (Inl LWFS_ERR_NOENT)"
proof -
  note inv = naming_reliable.runs_to_inv [OF assms(1,2)]
  note g = naming_reliable.unlink_gone [OF assms(1) inv assms(3,4)]
  have "naming_db_get_by_name N st' (dirent_oid parent) name = Inl LWFS_ERR_NOENT"
    using g(1) by (intro naming_reliable.get_by_name_absent [OF assms(1)]) (auto simp: gone_def)
  with naming_reliable.lookup_eq [OF assms(1) g(3,2) assms(5)] show ?thesis by simp
qed

theorem unlink_then_lookup_witness:
  "\<exists>ns st'. naming_unlink demo_names demo_filed demo_root ''f'' demo_all_cap = Some (Inr ns, st') \<and>
     naming_lookup demo_names st' demo_root ''f'' demo_all_cap = Some (Inl LWFS_ERR_NOENT)"
proof -
  have p: "plain_key (dirent_oid demo_root) ''f''" by code_simp
  have "(case naming_unlink demo_names demo_filed demo_root ''f'' demo_all_cap of
      Some (Inr ns, st') \<Rightarrow> naming_check_perm demo_names st' (dirent_oid demo_root) demo_all_cap LWFS_CONTAINER_READ = LWFS_OK
    | _ \<Rightarrow> False)" by code_simp
  then obtain ns st' where run: "naming_unlink demo_names demo_filed demo_root ''f'' demo_all_cap = Some (Inr ns, st')"
    "naming_check_perm demo_names st' (dirent_oid demo_root) demo_all_cap LWFS_CONTAINER_READ = LWFS_OK"
    by (auto split: option.splits prod.splits sum.splits)
  from unlink_then_lookup [OF demo_reliable_names demo_runs(2) p run] run show ?thesis by blast
qed

text \<open>A hard link keeps its object: when the entry a link was made to is unlinked, the link
  still leads to the same object with the attributes and the link count it had before the link.\<close>

theorem hard_link_survives:
  assumes "naming_reliable N C1 Ci M" "naming_runs_to N C1 Ci M st" "oid_count st + 2 \<le> M"
    "plain_key (dirent_oid parent) name" "plain_key (dirent_oid tparent) tname"
    "naming_create_link N st parent name cap tparent tname tcap = Some (Inr ns, st1)"
    "naming_unlink N st1 tparent tname cap2 = Some (Inr ns2, st2)"
  shows "\<exists>target e. naming_db_get_by_name N st (dirent_oid tparent) tname = Inr target \<and>
    naming_db_get_by_name N st2 (dirent_oid parent) name = Inr e \<and>
    d_inode_oid (dirent e) = d_inode_oid (dirent target) \<and> inode e = inode target \<and>
    naming_db_get_by_name N st2 (dirent_oid tparent) tname = Inl LWFS_ERR_NOENT"
proof -
  note inv = naming_reliable.runs_to_inv [OF assms(1,2)]
  note l = naming_reliable.link_linked [OF assms(1) inv assms(4,5,3,6)]
  note g = naming_reliable.unlink_gone [OF assms(1) l(2) assms(5,7)]
  show ?thesis by (rule naming_reliable.link_survives [OF assms(1) inv l(2) assms(5) l(1) g(1)])
qed

theorem hard_link_survives_witness:
  "\<exists>st2 target e. naming_db_get_by_name demo_names demo_filed 2 ''f'' = Inr target \<and>
     naming_db_get_by_name demo_names st2 2 ''g'' = Inr e \<and> inode e = inode target \<and>
     naming_db_get_by_name demo_names st2 2 ''f'' = Inl LWFS_ERR_NOENT"
proof -
  have p: "plain_key (dirent_oid demo_root) ''f''" "plain_key (dirent_oid demo_root) ''g''" by code_simp+
  have r: "dirent_oid demo_root = 2" by (simp add: demo_root_def)
  have "(case naming_create_link demo_names demo_filed demo_root ''g'' demo_all_cap demo_root ''f'' demo_all_cap of
      Some (Inr ns, st1) \<Rightarrow>
        (case naming_unlink demo_names st1 demo_root ''f'' demo_all_cap of Some (Inr ns2, st2) \<Rightarrow> True | _ \<Rightarrow> False)
    | _ \<Rightarrow> False)" by code_simp
  then obtain ns st1 ns2 st2 where
    run: "naming_create_link demo_names demo_filed demo_root ''g'' demo_all_cap demo_root ''f'' demo_all_cap = Some (Inr ns, st1)"
    "naming_unlink demo_names st1 demo_root ''f'' demo_all_cap = Some (Inr ns2, st2)"
    by (auto split: option.splits prod.splits sum.splits)
  from hard_link_survives [OF demo_reliable_names demo_runs(2) demo_counts(2) p(2,1) run] show ?thesis
    unfolding r by blast
qed

text \<open>The tables change only for a request that creates a namespace, or one whose capability
  was verified, allows writing, and is for the container of the directory it changes (or that
  directory is in the container open to all).\<close>

theorem naming_changes_are_authorized:
  assumes "naming_dispatch N st req = Some (resp, st')" "dbp1 st' \<noteq> dbp1 st \<or> dbp_inode st' \<noteq> dbp_inode st"
    "\<forall>t name c. req \<noteq> Create_Namespace t name c"
  shows "\<exists>oid cap e. request_dir N st req = Some oid \<and> request_cap req = Some cap \<and>
    naming_db_get_by_oid N st oid = Inr e \<and> verify_rpc N [cap] = LWFS_OK \<and>
    LWFS_CONTAINER_WRITE AND container_op (cap_data cap) = LWFS_CONTAINER_WRITE \<and>
    (obj_cid (entry_obj (inode e)) = LWFS_CID_ANY \<or> obj_cid (entry_obj (inode e)) = cid (cap_data cap))"
proof -
  obtain oid cap where oid: "request_dir N st req = Some oid" "request_cap req = Some cap"
    "naming_check_perm N st oid cap LWFS_CONTAINER_WRITE = LWFS_OK"
    using change_checked [OF assms(1,2)] assms(3) by blast
  from oid(3) show ?thesis by (rule check_perm_entry) (use oid in blast)
qed

theorem naming_changes_are_authorized_witness:
  "\<exists>oid cap. request_dir demo_names demo_booted (Create_File 3 demo_root ''f'' demo_obj demo_all_cap) = Some oid \<and>
     request_cap (Create_File 3 demo_root ''f'' demo_obj demo_all_cap) = Some cap \<and>
     LWFS_CONTAINER_WRITE AND container_op (cap_data cap) = LWFS_CONTAINER_WRITE"
proof -
  have "dbp1 demo_filed \<noteq> dbp1 demo_booted \<or> dbp_inode demo_filed \<noteq> dbp_inode demo_booted" by code_simp
  from naming_changes_are_authorized [OF demo_filed_run this] show ?thesis by blast
qed

text \<open>C22: With memory for the result, a listing of a directory answers with each entry of that
  directory once, described with the attributes of its object.\<close>

theorem list_dir_exact:
  assumes "naming_reliable N C1 Ci M" "naming_runs_to N C1 Ci M st"
    "is_dir_type (obj_type (ns_entry_obj parent))"
    "naming_check_perm N st (dirent_oid parent) cap LWFS_CONTAINER_READ = LWFS_OK"
    "\<forall>n. can_malloc_dirents N n \<and> can_malloc_entries N n \<and> can_malloc_results N n"
  shows "\<exists>es. naming_list_dir N st parent cap = Some (Inr (map ns_of es)) \<and>
    distinct (map (key_of \<circ> dirent) es) \<and>
    set es = {e. d_parent_oid (dirent e) = dirent_oid parent \<and>
      (\<exists>k. C1 (dbp1 st) k = Some (dirent e)) \<and> Ci (dbp_inode st) (d_inode_oid (dirent e)) = Some (inode e)}"
  using naming_reliable.list_dir_eq [OF assms(1) naming_reliable.runs_to_inv [OF assms(1,2)] assms(3,4)] assms(5)
  by blast

theorem list_dir_exact_witness:
  "\<exists>es. naming_list_dir demo_names demo_filed demo_root demo_all_cap = Some (Inr (map ns_of es)) \<and>
     distinct (map (key_of \<circ> dirent) es)"
proof -
  have dir: "is_dir_type (obj_type (ns_entry_obj demo_root))" by code_simp
  have ok: "naming_check_perm demo_names demo_filed (dirent_oid demo_root) demo_all_cap LWFS_CONTAINER_READ = LWFS_OK"
    by code_simp
  have mem: "\<forall>n. can_malloc_dirents demo_names n \<and> can_malloc_entries demo_names n \<and> can_malloc_results demo_names n"
    by (simp add: mem_naming_def)
  from list_dir_exact [OF demo_reliable_names demo_runs(2) dir ok mem] show ?thesis by blast
qed

text \<open>The answer to the creation of a link reports one link less than the server stores.\<close>

theorem create_link_reports_old_count:
  assumes "naming_reliable N C1 Ci M" "naming_runs_to N C1 Ci M st" "oid_count st + 2 \<le> M"
    "plain_key (dirent_oid parent) name" "plain_key (dirent_oid tparent) tname"
    "naming_create_link N st parent name cap tparent tname tcap = Some (Inr ns, st')"
  shows "\<exists>e. naming_db_get_by_name N st' (dirent_oid parent) name = Inr e \<and> ref_cnt (inode e) = link_cnt ns + 1"
proof -
  note inv = naming_reliable.runs_to_inv [OF assms(1,2)]
  note l = naming_reliable.link_linked [OF assms(1) inv assms(4,5,3,6)]
  obtain target svc oid where t:
    "C1 (dbp1 st') = (C1 (dbp1 st))(db1_keygen (dirent_oid parent) name \<mapsto> dirent (link_entry target svc name (dirent_oid parent) oid))"
    "Ci (dbp_inode st') = (Ci (dbp_inode st))(d_inode_oid (dirent target) \<mapsto>
       (inode target)\<lparr>ref_cnt := ref_cnt (inode target) + 1\<rparr>)"
    "ns = ns_of (link_entry target svc name (dirent_oid parent) oid)"
    using l(1) unfolding linked_def by blast
  let ?e = "\<lparr>dirent = dirent (link_entry target svc name (dirent_oid parent) oid),
      inode = (inode target)\<lparr>ref_cnt := ref_cnt (inode target) + 1\<rparr>\<rparr>"
  have "naming_db_get_by_name N st' (dirent_oid parent) name = Inr ?e"
    unfolding naming_reliable.get_by_name_iff [OF assms(1)] using t by (simp add: link_entry_def)
  moreover have "ref_cnt (inode ?e) = link_cnt ns + 1" using t(3) by (simp add: ns_of_def link_entry_def)
  ultimately show ?thesis by blast
qed

theorem create_link_reports_old_count_witness:
  "\<exists>ns st'. naming_create_link demo_names demo_filed demo_root ''g'' demo_all_cap demo_root ''f'' demo_all_cap =
      Some (Inr ns, st') \<and>
    (\<exists>e. naming_db_get_by_name demo_names st' 2 ''g'' = Inr e \<and> ref_cnt (inode e) = link_cnt ns + 1)"
proof -
  have p: "plain_key (dirent_oid demo_root) ''g''" "plain_key (dirent_oid demo_root) ''f''" by code_simp+
  have r: "dirent_oid demo_root = 2" by (simp add: demo_root_def)
  have "(case naming_create_link demo_names demo_filed demo_root ''g'' demo_all_cap demo_root ''f'' demo_all_cap of
      Some (Inr ns, st1) \<Rightarrow> True | _ \<Rightarrow> False)" by code_simp
  then obtain ns st1 where
    run: "naming_create_link demo_names demo_filed demo_root ''g'' demo_all_cap demo_root ''f'' demo_all_cap = Some (Inr ns, st1)"
    by (auto split: option.splits prod.splits sum.splits)
  from create_link_reports_old_count [OF demo_reliable_names demo_runs(2) demo_counts(2) p run] run show ?thesis
    unfolding r by blast
qed

text \<open>A stat request with the object that the creation of a file answered with fails: the handler
  looks the id of the object up in the index of entry ids.\<close>

theorem stat_of_created_file_fails:
  assumes "naming_reliable N C1 Ci M" "naming_runs_to N C1 Ci M st" "oid_count st + 2 \<le> M"
    "plain_key (dirent_oid parent) name" "naming_create_file N t st parent name ob cap = Some (Inr ns, st')"
  shows "naming_stat N st' (ns_entry_obj ns) cap' = Inl LWFS_ERR_NAMING"
proof -
  note inv = naming_reliable.runs_to_inv [OF assms(1,2)]
  note m = naming_reliable.file_made [OF assms(1) inv assms(4,3,5)]
  obtain e :: naming_db_entry where e: "ns = ns_of e"
    "\<forall>k de. C1 (dbp1 st') k = Some de \<longrightarrow> d_oid de \<noteq> obj_oid (entry_obj (inode e))"
    using m(1) unfolding made_def by blast
  have "holds C1 Ci st' (C1 (dbp1 st')) (Ci (dbp_inode st'))" by (simp add: holds_def)
  from naming_reliable.get_by_oid_absent [OF assms(1) this] e
  have "naming_db_get_by_oid N st' (obj_oid (ns_entry_obj ns)) = Inl LWFS_ERR_NAMING" by (simp add: ns_of_def)
  then show ?thesis by (simp add: naming_stat_def naming_check_perm_def)
qed

theorem stat_of_created_file_fails_witness:
  "\<exists>ns. naming_create_file demo_names 3 demo_booted demo_root ''f'' demo_obj demo_all_cap = Some (Inr ns, demo_filed) \<and>
     naming_stat demo_names demo_filed (ns_entry_obj ns) demo_all_cap = Inl LWFS_ERR_NAMING"
proof -
  have p: "plain_key (dirent_oid demo_root) ''f''" by code_simp
  obtain ns where run: "naming_create_file demo_names 3 demo_booted demo_root ''f'' demo_obj demo_all_cap =
      Some (Inr ns, demo_filed)" using demo_file by blast
  from stat_of_created_file_fails [OF demo_reliable_names demo_runs(1) demo_counts(1) p run] run show ?thesis by blast
qed

text \<open>With a memory in which every allocation succeeds, \<^verbatim>\<open>naming_list_namespaces\<close> has no
  defined return as soon as the root has an entry: it asks for one entry more than there are and
  reads a directory entry that was never filled.\<close>

theorem list_namespaces_undefined:
  assumes "naming_reliable N C1 Ci M" "naming_runs_to N C1 Ci M st"
    "C1 (dbp1 st) k = Some de" "d_parent_oid de = ROOT_OID"
    "\<forall>n. can_malloc_dirents N n \<and> can_malloc_entries N n \<and> can_malloc_results N n"
  shows "naming_list_namespaces N st = None"
proof -
  note inv = naming_reliable.runs_to_inv [OF assms(1,2)]
  obtain kvs where kvs: "set kvs = children C1 (dbp1 st) ROOT_OID"
    "cursor_lists N (dbp1 st) ROOT_OID (map snd kvs)" "naming_db_get_size N st ROOT_OID = Inr (length kvs)"
    using naming_reliable.get_size_eq [OF assms(1)] by blast
  have "(k, de) \<in> set kvs" using kvs(1) assms(3,4) by (simp add: children_def)
  then have ne: "kvs \<noteq> []" by auto
  then have "naming_db_get_all_by_parent N st ROOT_OID (length kvs) (Suc (length kvs)) = None"
    using naming_reliable.list_one_more [OF assms(1) inv kvs(1,2)] assms(5) by blast
  with kvs(3) ne assms(5) show ?thesis by (simp add: naming_list_namespaces_def)
qed

theorem list_namespaces_undefined_witness: "naming_list_namespaces demo_names demo_booted = None"
proof -
  have "map_option d_parent_oid (map_of (dbp1 demo_booted) (db1_keygen 0 ''/'')) = Some ROOT_OID" by code_simp
  then obtain de where de: "map_of (dbp1 demo_booted) (db1_keygen 0 ''/'') = Some de" "d_parent_oid de = ROOT_OID"
    by blast
  have mem: "\<forall>n. can_malloc_dirents demo_names n \<and> can_malloc_entries demo_names n \<and> can_malloc_results demo_names n"
    by (simp add: mem_naming_def)
  show ?thesis by (rule list_namespaces_undefined [OF demo_reliable_names demo_runs(1) de mem])
qed

text \<open>The entry \<^verbatim>\<open>/\<close> of a new database can be removed like a namespace by whoever may write to
  it, and the removal does not return: its count is 0, and \<^verbatim>\<open>db_del\<close> calls
  \<^verbatim>\<open>abort\<close> when the count becomes negative.\<close>

theorem remove_root_aborts:
  assumes "naming_reliable N C1 Ci M" "holds C1 Ci st00 Map.empty Map.empty" "oid_count st00 + 4 \<le> M"
    "naming_db_boot N st00 = (Inr (root, orphans), st)"
    "naming_check_perm N st (d_oid (dirent root)) cap LWFS_CONTAINER_WRITE = LWFS_OK"
  shows "naming_remove_namespace N st ''/'' cap = None"
proof -
  note R = assms(1)
  have b: "naming_inv N C1 Ci M st" "C1 (dbp1 st) (db1_keygen 0 ''/'') = Some (dirent root)"
    "Ci (dbp_inode st) (d_inode_oid (dirent root)) = Some (inode root)" "ref_cnt (inode root) = 0"
    using naming_reliable.boot_inv [OF assms(1-3)] assms(4) by auto
  have get: "naming_db_get_by_name N st ROOT_OID ''/'' = Inr root"
    unfolding naming_reliable.get_by_name_iff [OF R] using b by (simp add: ROOT_OID_def)
  have "fst (db2_del_api N (dbp1 st) (d_oid (dirent root))) = DB_OK"
    using naming_reliable.index_del_total [OF R b(2) refl] .
  then have "naming_db_del N st ROOT_OID ''/'' = None"
    using get b(4) by (cases "db2_del_api N (dbp1 st) (d_oid (dirent root))")
      (simp add: naming_db_del_def db_del_def)
  moreover have "parent_oid (ns_of root) = ROOT_OID" "dirent_oid (ns_of root) = d_oid (dirent root)"
    using naming_reliable.namespace_lookup_eq(2) [OF R b(1) get] by (simp_all add: ns_of_def)
  ultimately show ?thesis
    using get assms(5) by (simp add: naming_remove_namespace_def naming_reliable.namespace_lookup_eq(1) [OF R b(1)])
qed

theorem remove_root_aborts_witness: "naming_remove_namespace demo_names demo_booted ''/'' demo_all_cap = None"
proof -
  obtain root orphans st' where boot: "naming_db_boot demo_names demo_empty = (Inr (root, orphans), st')"
    using mem_naming.boot_inv [OF demo_empty_holds] by blast
  then have st': "st' = demo_booted" by (simp add: demo_booted_def)
  have "(case fst (naming_db_boot demo_names demo_empty) of Inl rc \<Rightarrow> False
    | Inr (root, orphans) \<Rightarrow>
        naming_check_perm demo_names demo_booted (d_oid (dirent root)) demo_all_cap LWFS_CONTAINER_WRITE = LWFS_OK)"
    by code_simp
  with boot have "naming_check_perm demo_names demo_booted (d_oid (dirent root)) demo_all_cap LWFS_CONTAINER_WRITE = LWFS_OK"
    by simp
  from remove_root_aborts [OF demo_reliable_names demo_empty_holds boot [unfolded st'] this] show ?thesis .
qed

text \<open>The count of \<^verbatim>\<open>/\<close> goes wrong already by a link: after a link to it was made and removed, its
  object is deleted and its name is left without one.\<close>

theorem link_to_root_dangles:
  "case naming_create_link demo_names demo_booted demo_root ''l'' demo_all_cap (demo_root\<lparr>dirent_oid := ROOT_OID\<rparr>) ''/''
      (demo_all_cap\<lparr>cap_data := (cap_data demo_all_cap)\<lparr>cid := 0\<rparr>\<rparr>) of
    Some (Inr ns, st) \<Rightarrow> (case naming_unlink demo_names st demo_root ''l'' demo_all_cap of
        Some (Inr ns', st') \<Rightarrow> (case map_of (dbp1 st') (db1_keygen ROOT_OID ''/'') of
            Some de \<Rightarrow> dbp_inode st' (d_inode_oid de) = None
          | None \<Rightarrow> False)
      | _ \<Rightarrow> False)
  | _ \<Rightarrow> False"
  by code_simp

text \<open>Storing a new entry is not atomic: when the second step fails after the first, the
  error is reported but the name stays in the directory table without its object, and no later
  creation under that name succeeds.\<close>

theorem failed_put_blocks_name:
  assumes "naming_store N C1 Ci" "naming_db_put N st e True = (rc, st')" "rc \<noteq> LWFS_OK"
    "C1 (dbp1 st') \<noteq> C1 (dbp1 st)"
  shows "C1 (dbp1 st') = (C1 (dbp1 st))(key_of (dirent e) \<mapsto> dirent e) \<and>
    Ci (dbp_inode st') = Ci (dbp_inode st) \<and>
    (\<forall>e2. key_of (dirent e2) = key_of (dirent e) \<longrightarrow> fst (naming_db_put N st' e2 True) \<noteq> LWFS_OK)"
proof -
  note f = naming_store.naming_db_put_failed [OF assms]
  then have "C1 (dbp1 st') (key_of (dirent e)) \<noteq> None" by simp
  with f show ?thesis using naming_store.naming_db_put_taken [OF assms(1)] by metis
qed

text \<open>The witness runs on tables whose inode table has no room.\<close>

definition demo_full_names :: "(mem_db1, lwfs_oid \<rightharpoonup> naming_db_inode) naming_env" where
  "demo_full_names = demo_names\<lparr>inode_api := mem_bdb\<lparr>bdb_put := (\<lambda>db noov k v. (DB_ERROR 28, db))\<rparr>\<rparr>"

lemma demo_full_store: "naming_store demo_full_names map_of (\<lambda>i. i)"
proof (unfold naming_store_def, intro conjI)
  have n: "naming_store demo_names map_of (\<lambda>i. i)" by (rule mem_naming.naming_store_axioms)
  show "bdb_store (db1_api demo_full_names) map_of"
    using naming_store.axioms(1) [OF n] by (simp add: demo_full_names_def)
  show "bdb_store (inode_api demo_full_names) (\<lambda>i. i)"
    by unfold_locales (auto simp: demo_full_names_def mem_bdb_def split: option.splits if_splits)
  show "naming_store_axioms demo_full_names map_of"
    using naming_store.axioms(3) [OF n] by (simp add: demo_full_names_def naming_store_axioms_def)
qed

theorem failed_put_blocks_name_witness:
  "map_of (dbp1 (snd (naming_db_put demo_full_names demo_booted (boot_dir ''d'' 8 9) True))) =
     (map_of (dbp1 demo_booted))(key_of (dirent (boot_dir ''d'' 8 9)) \<mapsto> dirent (boot_dir ''d'' 8 9))"
proof -
  let ?put = "naming_db_put demo_full_names demo_booted (boot_dir ''d'' 8 9) True"
  have rc: "fst ?put \<noteq> LWFS_OK" by code_simp
  have "map_of (dbp1 (snd ?put)) (key_of (dirent (boot_dir ''d'' 8 9))) \<noteq>
      map_of (dbp1 demo_booted) (key_of (dirent (boot_dir ''d'' 8 9)))" by code_simp
  then have "map_of (dbp1 (snd ?put)) \<noteq> map_of (dbp1 demo_booted)" by metis
  from failed_put_blocks_name [OF demo_full_store prod.collapse [symmetric] rc this] show ?thesis by blast
qed

text \<open>Started on an empty or cleared database, the server comes up in a state that satisfies
  the invariant of the reachable ones, with a directory \<^verbatim>\<open>/\<close> at its root.\<close>

theorem naming_init_ready:
  assumes "naming_reliable N C1 Ci M" "n + 4 \<le> M" "service_init = LWFS_OK" "add_ops 12 = LWFS_OK"
    "malloc_ok L 0 \<and> malloc_ok L 1 \<and> malloc_ok L 2" "\<forall>k. remove_rc L k = 0 \<and> setup_rc L k = 0"
    "dbclear \<or> access_rc L \<noteq> 0" "opened L (dbclear \<and> access_rc L = 0) = (d, i)"
    "C1 d = Map.empty" "Ci i = Map.empty"
  shows "\<exists>st root. naming_server_init N service_init add_ops L dbclear n svc = Some (LWFS_OK, Some st) \<and>
    naming_runs_to N C1 Ci M st \<and> naming_db_get_by_name N st ROOT_OID ''/'' = Inr root \<and>
    obj_type (entry_obj (inode root)) = LWFS_DIR_ENTRY"
proof -
  let ?st0 = "\<lparr>dbp1 = d, dbp_inode = i, oid_count = n, naming_svc = svc\<rparr>"
  have e: "holds C1 Ci ?st0 Map.empty Map.empty" "oid_count ?st0 + 4 \<le> M"
    using assms(2,9,10) by (simp_all add: holds_def)
  obtain orphans st where b: "naming_db_boot N ?st0 =
      (Inr (boot_dir ''/'' (uuid_gen N n) (uuid_gen N (n + 1)), orphans), st)"
    "holds C1 Ci st
      [db1_keygen 0 GLOBAL_DB_KEY \<mapsto> dirent id_entry,
       db1_keygen 0 ''/'' \<mapsto> dirent (boot_dir ''/'' (uuid_gen N n) (uuid_gen N (n + 1))),
       db1_keygen 0 ''orphans'' \<mapsto> dirent (boot_dir ''orphans'' (uuid_gen N (n + 2)) (uuid_gen N (n + 3)))]
      [0 \<mapsto> inode id_entry, uuid_gen N n \<mapsto> inode (boot_dir ''/'' (uuid_gen N n) (uuid_gen N (n + 1))),
       uuid_gen N (n + 2) \<mapsto> inode (boot_dir ''orphans'' (uuid_gen N (n + 2)) (uuid_gen N (n + 3)))]"
    using naming_reliable.boot_run [OF assms(1) e, of n "uuid_gen N"] by auto
  have run: "naming_runs_to N C1 Ci M st"
    unfolding naming_runs_to_def using e b(1) naming_reach.start by blast
  have init: "naming_server_init N service_init add_ops L dbclear n svc = Some (LWFS_OK, Some st)"
    using assms(3-8) b(1) by (auto simp: naming_server_init_def naming_db_init_def)
  have "uuid_gen N n \<noteq> uuid_gen N (n + 2)"
    using gen_eq_iff [OF naming_reliable.uuid_inj [OF assms(1)], of n "n + 2"] assms(2) by simp
  then have "naming_db_get_by_name N st ROOT_OID ''/'' = Inr (boot_dir ''/'' (uuid_gen N n) (uuid_gen N (n + 1)))"
    unfolding naming_reliable.get_by_name_iff [OF assms(1)] using b(2) boot_names
    by (simp add: holds_def ROOT_OID_def boot_dir_fields)
  with run init boot_dir_fields(3) show ?thesis by blast
qed

definition demo_calls :: "(mem_db1, lwfs_oid \<rightharpoonup> naming_db_inode) naming_init_calls" where
  "demo_calls = \<lparr>malloc_ok = (\<lambda>n. True), access_rc = -1, remove_rc = (\<lambda>n. 0), setup_rc = (\<lambda>n. 0),
     opened = (\<lambda>rm. ([], Map.empty))\<rparr>"

theorem naming_init_ready_witness:
  "\<exists>st. naming_server_init demo_names LWFS_OK (\<lambda>n. LWFS_OK) demo_calls True 0 (Service_Descriptor 1) =
     Some (LWFS_OK, Some st)"
proof -
  have m: "(0::nat) + 4 \<le> mem_ids" by (simp add: mem_ids_def)
  show ?thesis
    using naming_init_ready [OF demo_reliable_names m refl, of "\<lambda>n. LWFS_OK" demo_calls True "[]" Map.empty
        "Service_Descriptor 1"]
    by (auto simp: demo_calls_def)
qed

end
