(* ===== verification/Storage_Db.thy ===== *)
theory Storage_Db imports Naming_Db begin

section \<open>The attribute database of the storage server\<close>

text \<open>
  \<^verbatim>\<open>server/storage_server/storage_db.c\<close>: the attributes of the objects under (object id,
  name), with an index by object id with duplicates. Berkeley DB maintains the index with the
  primary table, so the two handles are one value; the calls on them are the fields of
  \<open>ssdb_env\<close>. \<open>None\<close> is a call without a defined return, as in \<open>Naming_Db\<close>.
\<close>

subsection \<open>Data\<close>

definition LWFS_ATTR_SIZE :: int where "LWFS_ATTR_SIZE = 8192"

text \<open>\<open>a_value\<close> is the part of the value array that was written.\<close>

record ss_db_attr_entry =
  a_oid :: lwfs_oid
  a_name :: string
  a_value :: "u8 list"
  a_size :: u64

record ss_db1_key =
  sk_oid :: lwfs_oid
  sk_name :: string

record 'd ssdb_env =
  ssdb_api :: "('d, ss_db1_key, ss_db_attr_entry) bdb"
  ssdb_probe :: "'d \<Rightarrow> ss_db1_key \<Rightarrow> db_rc"
  ssdb2_cursor :: "'d \<Rightarrow> db_rc"
  ssdb2_set :: "'d \<Rightarrow> lwfs_oid \<Rightarrow> db_rc + ss_db_attr_entry"
  ssdb2_next :: "'d \<Rightarrow> lwfs_oid \<Rightarrow> nat \<Rightarrow> db_rc + ss_db_attr_entry"
  ssdb2_count :: "'d \<Rightarrow> lwfs_oid \<Rightarrow> db_rc + nat"
  ssdb2_close :: "'d \<Rightarrow> db_rc"

subsection \<open>The tables\<close>

definition ss_db1_keygen :: "lwfs_oid \<Rightarrow> string \<Rightarrow> ss_db1_key" where
  "ss_db1_keygen oid name =
     (let len = (if length (c_str name) < LWFS_NAME_LEN then length (c_str name) else LWFS_NAME_LEN) in
      \<lparr>sk_oid = oid, sk_name = strncpy len name\<rparr>)"

definition ss_db1_exists :: "'d ssdb_env \<Rightarrow> 'd \<Rightarrow> ss_db1_key \<Rightarrow> bool" where
  "ss_db1_exists D d key1 = (case ssdb_probe D d key1 of DB_OK \<Rightarrow> True | DB_NOTFOUND \<Rightarrow> False | _ \<Rightarrow> False)"

definition ss_db1_put ::
  "'d ssdb_env \<Rightarrow> 'd \<Rightarrow> ss_db1_key \<Rightarrow> ss_db_attr_entry \<Rightarrow> bool \<Rightarrow> lwfs_return_code \<times> 'd" where
  "ss_db1_put D d key1 attr noov =
     (let (rc, d') = bdb_put (ssdb_api D) d noov key1 attr in
      (case rc of DB_OK \<Rightarrow> LWFS_OK | DB_KEYEXIST \<Rightarrow> LWFS_ERR_EXIST | _ \<Rightarrow> LWFS_ERR_STORAGE, d'))"

definition ss_db1_get ::
  "'d ssdb_env \<Rightarrow> 'd \<Rightarrow> ss_db1_key \<Rightarrow> lwfs_return_code + ss_db_attr_entry" where
  "ss_db1_get D d key1 =
     (case bdb_get (ssdb_api D) d key1 of
        Inr attr \<Rightarrow> Inr attr
      | Inl rc \<Rightarrow> Inl (case rc of DB_NOTFOUND \<Rightarrow> LWFS_ERR_NOENT | _ \<Rightarrow> LWFS_ERR_STORAGE))"

text \<open>
  \<^verbatim>\<open>db2_get\<close> fills \<open>result[0]\<close> before it looks at \<open>maxlen\<close>, and compares \<open>i\<close> with
  \<open>maxlen\<close> before it fills the others. \<open>attr_cursor_rest\<close> is its loop from the state where \<open>i\<close>
  slots are filled. The cursor it closes is uninitialised when it could not be acquired.
\<close>

function attr_cursor_rest ::
  "(nat \<Rightarrow> db_rc + ss_db_attr_entry) \<Rightarrow> nat \<Rightarrow> nat \<Rightarrow> lwfs_return_code + string list" where
  "attr_cursor_rest get_next maxlen i =
     (case get_next (i - 1) of
        Inl rc \<Rightarrow> (if rc \<noteq> DB_NOTFOUND then Inl LWFS_ERR_STORAGE else Inr [])
      | Inr attr \<Rightarrow>
          if i \<ge> maxlen then Inr []
          else map_sum id (\<lambda>names. strncpy LWFS_NAME_LEN (a_name attr) # names)
            (attr_cursor_rest get_next maxlen (i + 1)))"
  by pat_completeness auto
termination
  by (relation "measure (\<lambda>(get_next, maxlen, i). maxlen - i)") auto

declare attr_cursor_rest.simps [simp del]

definition ss_db2_get ::
  "'d ssdb_env \<Rightarrow> 'd \<Rightarrow> lwfs_oid \<Rightarrow> nat \<Rightarrow> (lwfs_return_code + string list) option" where
  "ss_db2_get D d key2 maxlen =
     (if ssdb2_cursor D d \<noteq> DB_OK then None
      else
        (case (case ssdb2_set D d key2 of
                 Inl rc \<Rightarrow> Some (Inl (if rc = DB_NOTFOUND then LWFS_ERR_NOENT else LWFS_ERR_STORAGE))
               | Inr attr \<Rightarrow>
                   if maxlen = 0 then None
                   else Some (map_sum id (\<lambda>names. strncpy LWFS_NAME_LEN (a_name attr) # names)
                     (attr_cursor_rest (ssdb2_next D d key2) maxlen 1))) of
           None \<Rightarrow> None
         | Some r \<Rightarrow> Some (if ssdb2_close D d \<noteq> DB_OK then Inl LWFS_ERR_STORAGE else r)))"

definition ss_db2_size :: "'d ssdb_env \<Rightarrow> 'd \<Rightarrow> lwfs_oid \<Rightarrow> lwfs_return_code + nat" where
  "ss_db2_size D d key2 =
     (if ssdb2_cursor D d \<noteq> DB_OK then Inl LWFS_ERR_STORAGE
      else let r = (case ssdb2_set D d key2 of
                Inl rc \<Rightarrow> (if rc = DB_NOTFOUND then Inr 0 else Inl LWFS_ERR_STORAGE)
              | Inr attr \<Rightarrow> (case ssdb2_count D d key2 of Inl rc \<Rightarrow> Inl LWFS_ERR_STORAGE | Inr n \<Rightarrow> Inr n)) in
        if ssdb2_close D d \<noteq> DB_OK then Inl LWFS_ERR_STORAGE else r)"

definition ss_db_del :: "'d ssdb_env \<Rightarrow> 'd \<Rightarrow> ss_db_attr_entry \<Rightarrow> lwfs_return_code \<times> 'd" where
  "ss_db_del D d attr =
     (let (rc, d') = bdb_del (ssdb_api D) d (ss_db1_keygen (a_oid attr) (a_name attr)) in
      (if rc \<noteq> DB_OK then LWFS_ERR_STORAGE else LWFS_OK, d'))"

subsection \<open>The interface\<close>

definition ss_db_get_attr_by_name ::
  "'d ssdb_env \<Rightarrow> 'd \<Rightarrow> lwfs_oid \<Rightarrow> string \<Rightarrow> lwfs_return_code + ss_db_attr_entry" where
  "ss_db_get_attr_by_name D d oid name = ss_db1_get D d (ss_db1_keygen oid name)"

definition ss_db_get_all_attr_names_by_oid ::
  "'d ssdb_env \<Rightarrow> 'd \<Rightarrow> lwfs_oid \<Rightarrow> nat \<Rightarrow> (lwfs_return_code + string list) option" where
  "ss_db_get_all_attr_names_by_oid D d oid max_results = ss_db2_get D d oid max_results"

definition ss_db_exists :: "'d ssdb_env \<Rightarrow> 'd \<Rightarrow> ss_db_attr_entry \<Rightarrow> bool" where
  "ss_db_exists D d db_entry = ss_db1_exists D d (ss_db1_keygen (a_oid db_entry) (a_name db_entry))"

definition ss_db_attr_put ::
  "'d ssdb_env \<Rightarrow> 'd \<Rightarrow> ss_db_attr_entry \<Rightarrow> bool \<Rightarrow> lwfs_return_code \<times> 'd" where
  "ss_db_attr_put D d db_entry noov =
     ss_db1_put D d (ss_db1_keygen (a_oid db_entry) (a_name db_entry)) db_entry noov"

definition ss_db_attr_del :: "'d ssdb_env \<Rightarrow> 'd \<Rightarrow> lwfs_oid \<Rightarrow> string \<Rightarrow> lwfs_return_code \<times> 'd" where
  "ss_db_attr_del D d oid name =
     (case ss_db_get_attr_by_name D d oid name of
        Inl rc \<Rightarrow> (rc, d)
      | Inr attr \<Rightarrow> ss_db_del D d attr)"

definition ss_db_get_attr_count :: "'d ssdb_env \<Rightarrow> 'd \<Rightarrow> lwfs_oid \<Rightarrow> lwfs_return_code + nat" where
  "ss_db_get_attr_count D d oid = ss_db2_size D d oid"

subsection \<open>Opening and closing\<close>

text \<open>
  The library calls of \<^verbatim>\<open>ss_db_init\<close>: \<open>ss_remove_rc n\<close> for the two files and
  \<open>ss_setup_rc n\<close> for the calls on the handles, in the order of the code: 0 create, 1 page size,
  2 open (primary), 3 create, 4 flags, 5 open (secondary), 6 associate. The error path closes
  both handles; they are null until they are created.
\<close>

record 'd ssdb_init_calls =
  ss_fname_malloc :: bool
  ss_access_rc :: int
  ss_remove_rc :: "nat \<Rightarrow> int"
  ss_setup_rc :: "nat \<Rightarrow> int"
  ss_opened :: "bool \<Rightarrow> 'd"

definition ss_db_init :: "'d ssdb_init_calls \<Rightarrow> bool \<Rightarrow> (lwfs_return_code \<times> 'd option) option" where
  "ss_db_init L dbclear =
     (let newfile = (ss_access_rc L \<noteq> 0); rm = dbclear \<and> \<not> newfile in
      if \<not> ss_fname_malloc L then None
      else if rm \<and> (ss_remove_rc L 0 \<noteq> 0 \<or> ss_remove_rc L 1 \<noteq> 0) then None
      else if \<exists>k\<in>set [0..<4]. ss_setup_rc L k \<noteq> 0 then None
      else if \<exists>k\<in>set [4..<7]. ss_setup_rc L k \<noteq> 0 then Some (LWFS_ERR_STORAGE, None)
      else Some (LWFS_OK, Some (ss_opened L rm)))"

text \<open>Each result replaces the last, so the code reports the second handle's.\<close>

definition ss_db_fini :: "int option \<Rightarrow> int option \<Rightarrow> lwfs_return_code" where
  "ss_db_fini close1 close2 =
     (let rc = (case close1 of None \<Rightarrow> LWFS_OK | Some v \<Rightarrow> if v \<noteq> 0 then LWFS_ERR_STORAGE else LWFS_OK) in
      case close2 of None \<Rightarrow> rc | Some v \<Rightarrow> if v \<noteq> 0 then LWFS_ERR_STORAGE else LWFS_OK)"

subsection \<open>What the server relies on\<close>

text \<open>\<open>C d\<close> are the attributes in the database.\<close>

definition attr_cursor_lists :: "'d ssdb_env \<Rightarrow> 'd \<Rightarrow> lwfs_oid \<Rightarrow> ss_db_attr_entry list \<Rightarrow> bool" where
  "attr_cursor_lists D d oid as \<longleftrightarrow>
     ssdb2_set D d oid = (case as of [] \<Rightarrow> Inl DB_NOTFOUND | a # _ \<Rightarrow> Inr a) \<and>
     (\<forall>i. ssdb2_next D d oid i = (if Suc i < length as then Inr (as ! Suc i) else Inl DB_NOTFOUND)) \<and>
     (as \<noteq> [] \<longrightarrow> ssdb2_count D d oid = Inr (length as))"

definition attrs_of ::
  "('d \<Rightarrow> ss_db1_key \<Rightarrow> ss_db_attr_entry option) \<Rightarrow> 'd \<Rightarrow> lwfs_oid \<Rightarrow> (ss_db1_key \<times> ss_db_attr_entry) set" where
  "attrs_of C d oid = {(k, a). C d k = Some a \<and> a_oid a = oid}"

locale attr_store =
  bdb_reliable "ssdb_api D" C "\<lambda>_ _ _. True"
  for D :: "'d ssdb_env" and C :: "'d \<Rightarrow> ss_db1_key \<Rightarrow> ss_db_attr_entry option" +
  assumes attr_cursor_ok: "ssdb2_cursor D d = DB_OK" "ssdb2_close D d = DB_OK"
    and attr_cursor: "\<exists>kas. distinct (map fst kas) \<and> set kas = attrs_of C d oid \<and>
      attr_cursor_lists D d oid (map snd kas)"
begin

text \<open>An entry is stored under its own object and name.\<close>

definition attr_wf :: "'d \<Rightarrow> bool" where
  "attr_wf d \<longleftrightarrow> (\<forall>k a. C d k = Some a \<longrightarrow> k = ss_db1_keygen (a_oid a) (a_name a))"

lemma get_attr: "ss_db_get_attr_by_name D d oid name =
    (case C d (ss_db1_keygen oid name) of None \<Rightarrow> Inl LWFS_ERR_NOENT | Some a \<Rightarrow> Inr a)"
  by (simp add: ss_db_get_attr_by_name_def ss_db1_get_def get_eq split: option.splits)

lemma attr_put:
  assumes "ss_db_attr_put D d a False = (rc, d')"
  shows "rc = LWFS_OK \<and> C d' = (C d)(ss_db1_keygen (a_oid a) (a_name a) \<mapsto> a)"
proof -
  let ?k = "ss_db1_keygen (a_oid a) (a_name a)"
  obtain r where put: "bdb_put (ssdb_api D) d False ?k a = (r, d')"
    using assms by (auto simp: ss_db_attr_put_def ss_db1_put_def split: prod.splits)
  have "r = DB_OK" using put_overwrite [of d ?k a] put by simp
  with put assms show ?thesis
    using put_ok [of d False ?k a d'] by (simp add: ss_db_attr_put_def ss_db1_put_def)
qed

lemma attr_put_wf: "attr_wf d \<Longrightarrow> ss_db_attr_put D d a False = (rc, d') \<Longrightarrow> attr_wf d'"
  using attr_put by (fastforce simp: attr_wf_def split: if_splits)

lemma attr_del:
  assumes "attr_wf d" "ss_db_attr_del D d oid name = (rc, d')"
  shows "rc = (if C d (ss_db1_keygen oid name) = None then LWFS_ERR_NOENT else LWFS_OK) \<and>
    C d' = (C d)(ss_db1_keygen oid name := None)"
proof (cases "C d (ss_db1_keygen oid name)")
  case None
  with assms(2) show ?thesis by (auto simp: ss_db_attr_del_def get_attr fun_eq_iff)
next
  case (Some a)
  let ?k = "ss_db1_keygen oid name"
  have k: "ss_db1_keygen (a_oid a) (a_name a) = ?k" using assms(1) Some by (simp add: attr_wf_def)
  obtain r where del: "bdb_del (ssdb_api D) d ?k = (r, d')"
    using assms(2) Some by (auto simp: ss_db_attr_del_def get_attr ss_db_del_def k split: prod.splits)
  have "r = DB_OK" using del_present [of d ?k] Some del by simp
  with del assms(2) Some show ?thesis
    using del_ok [of d ?k d'] by (simp add: ss_db_attr_del_def get_attr ss_db_del_def k)
qed

lemma attr_del_wf: "attr_wf d \<Longrightarrow> ss_db_attr_del D d oid name = (rc, d') \<Longrightarrow> attr_wf d'"
  using attr_del [of d oid name rc d'] by (auto simp: attr_wf_def split: if_splits)

text \<open>The listing of an object has the name of each of its attributes once.\<close>

lemma attr_cursor_rest_lists:
  assumes "attr_cursor_lists D d oid as" "1 \<le> i" "i \<le> length as"
  shows "attr_cursor_rest (ssdb2_next D d oid) (length as) i =
    Inr (map (strncpy LWFS_NAME_LEN \<circ> a_name) (drop i as))"
  using assms(2,3)
proof (induction "length as - i" arbitrary: i)
  case 0
  then show ?case
    using assms(1) by (subst attr_cursor_rest.simps) (auto simp: attr_cursor_lists_def)
next
  case (Suc m)
  then have i: "i < length as" "Suc (i - 1) = i" by auto
  have "attr_cursor_rest (ssdb2_next D d oid) (length as) (i + 1) =
      Inr (map (strncpy LWFS_NAME_LEN \<circ> a_name) (drop (i + 1) as))"
    using Suc.hyps(2) i by (intro Suc.hyps(1)) auto
  moreover have "ssdb2_next D d oid (i - 1) = Inr (as ! i)"
    using assms(1) i by (simp add: attr_cursor_lists_def)
  ultimately show ?case
    using i(1) by (subst attr_cursor_rest.simps) (simp add: Cons_nth_drop_Suc [symmetric])
qed

lemma list_names:
  obtains kas where "distinct (map fst kas)" "set kas = attrs_of C d oid"
    "ss_db_get_attr_count D d oid = Inr (length kas)"
    "ss_db_get_all_attr_names_by_oid D d oid (length kas) =
       Some (if kas = [] then Inl LWFS_ERR_NOENT else Inr (map (\<lambda>(k, a). strncpy LWFS_NAME_LEN (a_name a)) kas))"
proof -
  obtain kas where kas: "distinct (map fst kas)" "set kas = attrs_of C d oid"
    "attr_cursor_lists D d oid (map snd kas)" using attr_cursor by blast
  have size: "ss_db_get_attr_count D d oid = Inr (length kas)"
    using kas(3) by (cases kas)
      (auto simp: ss_db_get_attr_count_def ss_db2_size_def attr_cursor_ok attr_cursor_lists_def)
  have "ss_db2_get D d oid (length kas) =
      Some (if kas = [] then Inl LWFS_ERR_NOENT else Inr (map (\<lambda>(k, a). strncpy LWFS_NAME_LEN (a_name a)) kas))"
  proof (cases kas)
    case Nil
    with kas(3) show ?thesis by (simp add: ss_db2_get_def attr_cursor_ok attr_cursor_lists_def)
  next
    case (Cons ka kas')
    have "attr_cursor_rest (ssdb2_next D d oid) (length kas) 1 =
        Inr (map (strncpy LWFS_NAME_LEN \<circ> a_name) (drop 1 (map snd kas)))"
      using attr_cursor_rest_lists [OF kas(3), of 1] Cons by simp
    with kas(3) Cons show ?thesis
      by (auto simp: ss_db2_get_def attr_cursor_ok attr_cursor_lists_def split: prod.splits)
  qed
  with that kas size show thesis by (simp add: ss_db_get_all_attr_names_by_oid_def)
qed

end

subsection \<open>An attribute database in memory\<close>

type_synonym mem_attrs = "(ss_db1_key \<times> ss_db_attr_entry) list"

definition mem_attrs_of :: "mem_attrs \<Rightarrow> lwfs_oid \<Rightarrow> mem_attrs" where
  "mem_attrs_of d oid = filter (\<lambda>(k, a). a_oid a = oid) (AList.clearjunk d)"

definition mem_ssdb :: "mem_attrs ssdb_env" where
  "mem_ssdb = \<lparr>ssdb_api = alist_bdb,
     ssdb_probe = (\<lambda>d k. if map_of d k = None then DB_NOTFOUND else DB_OK),
     ssdb2_cursor = (\<lambda>d. DB_OK),
     ssdb2_set = (\<lambda>d oid. case mem_attrs_of d oid of [] \<Rightarrow> Inl DB_NOTFOUND | (k, a) # r \<Rightarrow> Inr a),
     ssdb2_next = (\<lambda>d oid i. if Suc i < length (mem_attrs_of d oid) then Inr (snd (mem_attrs_of d oid ! Suc i))
       else Inl DB_NOTFOUND),
     ssdb2_count = (\<lambda>d oid. Inr (length (mem_attrs_of d oid))),
     ssdb2_close = (\<lambda>d. DB_OK)\<rparr>"

interpretation mem_ss: attr_store mem_ssdb map_of
proof -
  have api: "ssdb_api mem_ssdb = alist_bdb" by (simp add: mem_ssdb_def)
  have "\<exists>kas. distinct (map fst kas) \<and> set kas = attrs_of map_of d oid \<and>
      attr_cursor_lists mem_ssdb d oid (map snd kas)" for d oid
  proof (intro exI conjI)
    show "distinct (map fst (mem_attrs_of d oid))" by (simp add: mem_attrs_of_def distinct_map_filter)
    show "set (mem_attrs_of d oid) = attrs_of map_of d oid"
      by (auto simp: mem_attrs_of_def attrs_of_def set_clearjunk)
    show "attr_cursor_lists mem_ssdb d oid (map snd (mem_attrs_of d oid))"
      by (auto simp: attr_cursor_lists_def mem_ssdb_def split: list.splits)
  qed
  then show "attr_store mem_ssdb map_of"
    using alist_store.bdb_reliable_axioms
    by (simp add: attr_store_def attr_store_axioms_def api) (simp add: mem_ssdb_def)
qed

end
