(* ===== verification/Hashtable.thy ===== *)
theory Hashtable imports Lwfs_Prelude begin

section \<open>The hash table\<close>

text \<open>
  \<^verbatim>\<open>support/hashtable/hashtable.c\<close> (chained buckets over a prime number of slots) and the
  locked table of \<^verbatim>\<open>mt_hashtable.c\<close> around it, with the hash function
  \<^verbatim>\<open>RSHash\<close> of \<^verbatim>\<open>hash_funcs.c\<close>. A bucket is the list of its chain.
  The outcomes of the allocations of an insertion are an argument. The facts: the table is a
  multimap whose newest value is found first, and an expansion reverses the order of the values
  of a key. \<open>keyed_table\<close> is the contract clients rely on.
\<close>

subsection \<open>Data\<close>

record ('k, 'v) ht_entry =
  e_k :: 'k
  e_v :: 'v
  e_h :: u32

record ('k, 'v) hashtable =
  tablelength :: u32
  table :: "('k, 'v) ht_entry list list"
  entrycount :: u32
  loadlimit :: u32
  primeindex :: nat
  hashfn :: "'k \<Rightarrow> u32"
  eqfn :: "'k \<Rightarrow> 'k \<Rightarrow> bool"

record ht_mem =
  newtable_malloc :: bool \<comment> \<open>\<^verbatim>\<open>malloc\<close> of the larger table\<close>
  table_realloc :: bool \<comment> \<open>\<^verbatim>\<open>realloc\<close> of the old one\<close>
  entry_malloc :: bool

definition primes :: "u32 list" where
  "primes = [53, 97, 193, 389, 769, 1543, 3079, 6151, 12289, 24593, 49157, 98317,
     196613, 393241, 786433, 1572869, 3145739, 6291469, 12582917, 25165843,
     50331653, 100663319, 201326611, 402653189, 805306457, 1610612741]"

definition prime_table_length :: nat where "prime_table_length = 26"

subsection \<open>The load limit\<close>

text \<open>
  \<^verbatim>\<open>ceil(size * max_load_factor)\<close> with a \<^verbatim>\<open>float\<close> factor: the size and the
  product are rounded to 24 significant bits, ties to even. The float nearest to 0.65 is
  10905190 / 2^24, so the arithmetic is on integers scaled by 2^24.
\<close>

function excess_bits :: "int \<Rightarrow> nat" where
  "excess_bits n = (if n < 16777216 then 0 else Suc (excess_bits (n div 2)))"
  by pat_completeness auto
termination
  by (relation "measure nat") auto

declare excess_bits.simps [simp del]

definition to_float :: "int \<Rightarrow> int" where
  "to_float n =
     (let d = 2 ^ excess_bits n; q = n div d; r = n mod d in
      if 2 * r > d \<or> (2 * r = d \<and> odd q) then (q + 1) * d else q * d)"

definition load_limit :: "u32 \<Rightarrow> u32" where
  "load_limit sz = word_of_int ((to_float (to_float (uint sz) * 10905190) + 16777215) div 16777216)"

subsection \<open>Hashing\<close>

definition RSHash :: "u8 list \<Rightarrow> u32" where
  "RSHash str =
     fst (foldl (\<lambda>(hash, a) c. (hash * a + scast c, a * 378551)) (0, 63689) str) AND 0x7FFFFFFF"

definition hash_mix :: "u32 \<Rightarrow> u32" where
  "hash_mix i =
     (let i = i + NOT (push_bit 9 i);
          i = i XOR (drop_bit 14 i OR push_bit 18 i);
          i = i + push_bit 4 i in
      i XOR (drop_bit 10 i OR push_bit 22 i))"

text \<open>For evaluation: the equation applies once the value is known.\<close>

lemma hash_mix_code [code]:
  "hash_mix i = (if 0 \<le> uint i then
     (let i = i + NOT (push_bit 9 i);
          i = i XOR (drop_bit 14 i OR push_bit 18 i);
          i = i + push_bit 4 i in
      i XOR (drop_bit 10 i OR push_bit 22 i)) else 0)"
  by (simp add: hash_mix_def)

definition hash :: "('k, 'v) hashtable \<Rightarrow> 'k \<Rightarrow> u32" where
  "hash h k = hash_mix (hashfn h k)"

definition indexFor :: "u32 \<Rightarrow> u32 \<Rightarrow> nat" where
  "indexFor len hashvalue = unat (hashvalue mod len)"

subsection \<open>Operations\<close>

fun pick_prime :: "u32 \<Rightarrow> nat \<Rightarrow> u32 list \<Rightarrow> nat \<times> u32" where
  "pick_prime minsize pindex [] = (pindex, primes ! 0)"
| "pick_prime minsize pindex (p # ps) =
     (if p > minsize then (pindex, p) else pick_prime minsize (pindex + 1) ps)"

definition create_hashtable ::
  "bool \<Rightarrow> u32 \<Rightarrow> ('k \<Rightarrow> u32) \<Rightarrow> ('k \<Rightarrow> 'k \<Rightarrow> bool) \<Rightarrow> ('k, 'v) hashtable option" where
  "create_hashtable table_malloc minsize hashf eqf =
     (if minsize > push_bit 30 1 then None
      else let (pindex, sz) = pick_prime minsize 0 primes in
        if \<not> table_malloc then None
        else Some \<lparr>tablelength = sz, table = replicate (unat sz) [], entrycount = 0,
          loadlimit = load_limit sz, primeindex = pindex, hashfn = hashf, eqfn = eqf\<rparr>)"

text \<open>The entries move one by one to the heads of their new chains.\<close>

fun move_entries ::
  "u32 \<Rightarrow> ('k, 'v) ht_entry list \<Rightarrow> ('k, 'v) ht_entry list list \<Rightarrow> ('k, 'v) ht_entry list list" where
  "move_entries newsize [] newtable = newtable"
| "move_entries newsize (e # es) newtable =
     (let index = indexFor newsize (e_h e) in
      move_entries newsize es (newtable[index := e # newtable ! index]))"

text \<open>
  When the new table cannot be had but the old one can be extended, the code passes the unset
  pointer \<^verbatim>\<open>newtable[h->tablelength]\<close> to \<^verbatim>\<open>memset\<close>.
\<close>

definition hashtable_expand ::
  "ht_mem \<Rightarrow> ('k, 'v) hashtable \<Rightarrow> (bool \<times> ('k, 'v) hashtable) option" where
  "hashtable_expand mem h =
     (if primeindex h = prime_table_length - 1 then Some (False, h)
      else let pindex = primeindex h + 1; newsize = primes ! pindex in
        if newtable_malloc mem then
          Some (True, h\<lparr>primeindex := pindex,
            table := move_entries newsize (concat (table h)) (replicate (unat newsize) []),
            tablelength := newsize, loadlimit := load_limit newsize\<rparr>)
        else if \<not> table_realloc mem then Some (False, h)
        else None)"

definition hashtable_count :: "('k, 'v) hashtable \<Rightarrow> u32" where
  "hashtable_count h = entrycount h"

definition hashtable_insert ::
  "ht_mem \<Rightarrow> ('k, 'v) hashtable \<Rightarrow> 'k \<Rightarrow> 'v \<Rightarrow> (bool \<times> ('k, 'v) hashtable) option" where
  "hashtable_insert mem h k v =
     (let h = h\<lparr>entrycount := entrycount h + 1\<rparr> in
      case (if entrycount h > loadlimit h then hashtable_expand mem h else Some (True, h)) of
        None \<Rightarrow> None
      | Some (_, h) \<Rightarrow>
          if \<not> entry_malloc mem then Some (False, h\<lparr>entrycount := entrycount h - 1\<rparr>)
          else let e = \<lparr>e_k = k, e_v = v, e_h = hash h k\<rparr>;
                   index = indexFor (tablelength h) (e_h e) in
            Some (True, h\<lparr>table := (table h)[index := e # table h ! index]\<rparr>))"

fun bucket_search :: "('k \<Rightarrow> 'k \<Rightarrow> bool) \<Rightarrow> u32 \<Rightarrow> 'k \<Rightarrow> ('k, 'v) ht_entry list \<Rightarrow> 'v option" where
  "bucket_search eq hv k [] = None"
| "bucket_search eq hv k (e # es) =
     (if hv = e_h e \<and> eq k (e_k e) then Some (e_v e) else bucket_search eq hv k es)"

definition hashtable_search :: "('k, 'v) hashtable \<Rightarrow> 'k \<Rightarrow> 'v option" where
  "hashtable_search h k =
     (let hv = hash h k in bucket_search (eqfn h) hv k (table h ! indexFor (tablelength h) hv))"

fun bucket_remove ::
  "('k \<Rightarrow> 'k \<Rightarrow> bool) \<Rightarrow> u32 \<Rightarrow> 'k \<Rightarrow> ('k, 'v) ht_entry list \<Rightarrow> ('v \<times> ('k, 'v) ht_entry list) option" where
  "bucket_remove eq hv k [] = None"
| "bucket_remove eq hv k (e # es) =
     (if hv = e_h e \<and> eq k (e_k e) then Some (e_v e, es)
      else map_option (map_prod id (\<lambda>es'. e # es')) (bucket_remove eq hv k es))"

definition hashtable_remove :: "('k, 'v) hashtable \<Rightarrow> 'k \<Rightarrow> 'v option \<times> ('k, 'v) hashtable" where
  "hashtable_remove h k =
     (let hv = hash h k; index = indexFor (tablelength h) (hash h k) in
      case bucket_remove (eqfn h) hv k (table h ! index) of
        None \<Rightarrow> (None, h)
      | Some (v, es) \<Rightarrow>
          (Some v, h\<lparr>table := (table h)[index := es], entrycount := entrycount h - 1\<rparr>))"

text \<open>What \<^verbatim>\<open>hashtable_destroy\<close> frees: the keys, and the values when it is given a
  function for them, in the order it does.\<close>

definition hashtable_destroy :: "('k, 'v) hashtable \<Rightarrow> bool \<Rightarrow> ('k \<times> 'v option) list" where
  "hashtable_destroy h dealloc =
     map (\<lambda>e. (e_k e, if dealloc then Some (e_v e) else None)) (concat (table h))"

subsection \<open>The locked table\<close>

text \<open>
  Each operation takes the mutex of the table. \<open>None\<close> is a call that never returns: it waits
  for a mutex that nobody releases.
\<close>

record ('k, 'v) mt_hashtable =
  mt_table :: "('k, 'v) hashtable"
  mt_locked :: bool

definition create_mt_hashtable ::
  "bool \<Rightarrow> u32 \<Rightarrow> ('k \<Rightarrow> u32) \<Rightarrow> ('k \<Rightarrow> 'k \<Rightarrow> bool) \<Rightarrow> ('k, 'v) mt_hashtable option" where
  "create_mt_hashtable table_malloc minsize hashf eqf =
     map_option (\<lambda>h. \<lparr>mt_table = h, mt_locked = False\<rparr>) (create_hashtable table_malloc minsize hashf eqf)"

definition mt_hashtable_insert ::
  "ht_mem \<Rightarrow> ('k, 'v) mt_hashtable \<Rightarrow> 'k \<Rightarrow> 'v \<Rightarrow> (bool \<times> ('k, 'v) mt_hashtable) option" where
  "mt_hashtable_insert mem t k v =
     (if mt_locked t then None
      else let t = t\<lparr>mt_locked := True\<rparr> in
        (case hashtable_insert mem (mt_table t) k v of
           None \<Rightarrow> None
         | Some (rc, h) \<Rightarrow>
             let t = t\<lparr>mt_table := h\<rparr> in
             if \<not> rc then Some (False, t) else Some (True, t\<lparr>mt_locked := False\<rparr>)))"

definition mt_hashtable_search ::
  "('k, 'v) mt_hashtable \<Rightarrow> 'k \<Rightarrow> ('v option \<times> ('k, 'v) mt_hashtable) option" where
  "mt_hashtable_search t k =
     (if mt_locked t then None else Some (hashtable_search (mt_table t) k, t))"

definition mt_hashtable_remove ::
  "('k, 'v) mt_hashtable \<Rightarrow> 'k \<Rightarrow> ('v option \<times> ('k, 'v) mt_hashtable) option" where
  "mt_hashtable_remove t k =
     (if mt_locked t then None
      else let (v, h) = hashtable_remove (mt_table t) k in Some (v, t\<lparr>mt_table := h\<rparr>))"

definition mt_hashtable_count :: "('k, 'v) mt_hashtable \<Rightarrow> (u32 \<times> ('k, 'v) mt_hashtable) option" where
  "mt_hashtable_count t =
     (if mt_locked t then None else Some (hashtable_count (mt_table t), t))"

text \<open>
  \<^verbatim>\<open>mt_hashtable_destroy\<close> frees the values of the entries in the order of the
  iterator, which must have been allocated when there are any.
\<close>

definition mt_hashtable_destroy ::
  "bool \<Rightarrow> ('k, 'v) mt_hashtable \<Rightarrow> bool \<Rightarrow> 'v list option" where
  "mt_hashtable_destroy itr_malloc t dealloc =
     (if mt_locked t then None
      else if hashtable_count (mt_table t) > 0 then
        (if \<not> itr_malloc then None
         else Some (if dealloc then map e_v (concat (table (mt_table t))) else []))
      else Some [])"

end
