(* ===== verification/Hashtable_Map.thy ===== *)
theory Hashtable_Map imports Hashtable begin

section \<open>The hash table is a multimap\<close>

text \<open>
  \<open>ht_ok\<close>: every entry is in the bucket of its hash and the count is the number of entries.
  \<open>ht_vals h k\<close> is the list of the values of a key, in the order a search meets them. The
  operations of the locked table meet the contract \<open>keyed_table\<close>, in which the storage server's
  object table is verified.
\<close>

subsection \<open>Buckets\<close>

definition ht_wf :: "('k, 'v) hashtable \<Rightarrow> bool" where
  "ht_wf h \<longleftrightarrow> length (table h) = unat (tablelength h) \<and> tablelength h \<noteq> 0 \<and>
     primeindex h < prime_table_length"

definition in_bucket :: "('k, 'v) hashtable \<Rightarrow> nat \<Rightarrow> ('k, 'v) ht_entry \<Rightarrow> bool" where
  "in_bucket h i e \<longleftrightarrow> e_h e = hash h (e_k e) \<and> indexFor (tablelength h) (e_h e) = i"

definition ht_ok :: "('k, 'v) hashtable \<Rightarrow> bool" where
  "ht_ok h \<longleftrightarrow> ht_wf h \<and> eqfn h = (=) \<and>
     (\<forall>i<length (table h). \<forall>e\<in>set (table h ! i). in_bucket h i e) \<and>
     unat (entrycount h) = length (concat (table h))"

definition ht_bucket :: "('k, 'v) hashtable \<Rightarrow> 'k \<Rightarrow> ('k, 'v) ht_entry list" where
  "ht_bucket h k = table h ! indexFor (tablelength h) (hash h k)"

definition ht_vals :: "('k, 'v) hashtable \<Rightarrow> 'k \<Rightarrow> 'v list" where
  "ht_vals h k = map e_v (filter (\<lambda>e. e_k e = k) (ht_bucket h k))"

lemma indexFor_less: "ht_wf h \<Longrightarrow> indexFor (tablelength h) hv < length (table h)"
  by (simp add: ht_wf_def indexFor_def unat_mod unat_gt_0)

lemma indexFor_bound: "n \<noteq> 0 \<Longrightarrow> indexFor n hv < unat n"
  by (simp add: indexFor_def unat_mod unat_gt_0)

lemma length_concat_update:
  "i < length xss \<Longrightarrow> length (concat (xss[i := ys])) + length (xss ! i) = length (concat xss) + length ys"
proof (induction xss arbitrary: i)
  case (Cons xs xss)
  then show ?case by (cases i) auto
qed simp

lemma filter_concat_bucket:
  assumes "i < length xss" "\<And>j x. j < length xss \<Longrightarrow> x \<in> set (xss ! j) \<Longrightarrow> P x \<Longrightarrow> j = i"
  shows "filter P (concat xss) = filter P (xss ! i)"
  using assms
proof (induction xss arbitrary: i)
  case (Cons xs xss)
  have rest: "j < length xss \<Longrightarrow> x \<in> set (xss ! j) \<Longrightarrow> P x \<Longrightarrow> Suc j = i" for j x
    using Cons.prems(2) [of "Suc j" x] by simp
  show ?case
  proof (cases i)
    case 0
    have "filter P (concat xss) = []"
      using rest 0 by (force simp: filter_empty_conv in_set_conv_nth)
    with 0 show ?thesis by simp
  next
    case (Suc i')
    have "filter P xs = []"
      using Cons.prems(2) [of 0] Suc by (auto simp: filter_empty_conv)
    moreover have "filter P (concat xss) = filter P (xss ! i')"
      using Cons.IH [of i'] Cons.prems(1) rest Suc by simp
    ultimately show ?thesis using Suc by simp
  qed
qed simp

lemma ht_ok_entry:
  "ht_ok h \<Longrightarrow> i < length (table h) \<Longrightarrow> e \<in> set (table h ! i) \<Longrightarrow>
   e_h e = hash h (e_k e) \<and> indexFor (tablelength h) (hash h (e_k e)) = i"
  unfolding ht_ok_def in_bucket_def by metis

lemma filter_key_concat:
  assumes "ht_ok h"
  shows "filter (\<lambda>e. e_k e = k) (concat (table h)) = filter (\<lambda>e. e_k e = k) (ht_bucket h k)"
  unfolding ht_bucket_def
proof (rule filter_concat_bucket)
  show "indexFor (tablelength h) (hash h k) < length (table h)"
    using assms by (simp add: ht_ok_def indexFor_less)
  show "j < length (table h) \<Longrightarrow> e \<in> set (table h ! j) \<Longrightarrow> e_k e = k \<Longrightarrow>
      j = indexFor (tablelength h) (hash h k)" for j e
    using ht_ok_entry [OF assms] by metis
qed

lemma ht_vals_concat: "ht_ok h \<Longrightarrow> ht_vals h k = map e_v (filter (\<lambda>e. e_k e = k) (concat (table h)))"
  by (simp add: ht_vals_def filter_key_concat)

subsection \<open>Searching and removing\<close>

text \<open>In the bucket of a key its entries are those with its hash that compare equal.\<close>

lemma bucket_search_vals:
  "\<forall>e\<in>set es. e_k e = k \<longrightarrow> e_h e = hv \<Longrightarrow>
   bucket_search (=) hv k es = (case map e_v (filter (\<lambda>e. e_k e = k) es) of [] \<Rightarrow> None | v # _ \<Rightarrow> Some v)"
  by (induction es) auto

lemma bucket_hash: "ht_ok h \<Longrightarrow> \<forall>e\<in>set (ht_bucket h k). e_k e = k \<longrightarrow> e_h e = hash h k"
proof -
  assume ok: "ht_ok h"
  then have "indexFor (tablelength h) (hash h k) < length (table h)" by (simp add: ht_ok_def indexFor_less)
  then show ?thesis using ht_ok_entry [OF ok] by (metis ht_bucket_def)
qed

definition first_val :: "'v list \<Rightarrow> 'v option" where
  "first_val vs = (case vs of [] \<Rightarrow> None | v # _ \<Rightarrow> Some v)"

lemma first_val_simps [simp]: "first_val [] = None" "first_val (v # vs) = Some v"
  by (simp_all add: first_val_def)

lemma search_vals: "ht_ok h \<Longrightarrow> hashtable_search h k = first_val (ht_vals h k)"
  using bucket_search_vals [OF bucket_hash, of h k]
  by (simp add: hashtable_search_def Let_def ht_ok_def ht_vals_def ht_bucket_def first_val_def)

lemma bucket_remove_vals:
  assumes "\<forall>e\<in>set es. e_k e = k \<longrightarrow> e_h e = hv"
  shows "case bucket_remove (=) hv k es of
      None \<Rightarrow> filter (\<lambda>e. e_k e = k) es = []
    | Some (v, es') \<Rightarrow> map e_v (filter (\<lambda>e. e_k e = k) es) = v # map e_v (filter (\<lambda>e. e_k e = k) es') \<and>
        (\<forall>k'. k' \<noteq> k \<longrightarrow> filter (\<lambda>e. e_k e = k') es = filter (\<lambda>e. e_k e = k') es') \<and>
        set es' \<subseteq> set es \<and> length es = Suc (length es')"
  using assms
proof (induction es)
  case (Cons e es)
  then show ?case
    by (cases "e_k e = k"; cases "bucket_remove (=) hv k es") (auto split: prod.splits)
qed simp

lemma bucket_of_update:
  assumes "ht_wf h" "tablelength h' = tablelength h" "hashfn h' = hashfn h" "table h' = (table h)[i := es]"
  shows "ht_bucket h' k = (if indexFor (tablelength h) (hash h k) = i then es else ht_bucket h k)"
  using assms indexFor_less [OF assms(1)] by (auto simp: ht_bucket_def hash_def)

lemma unat_dec: "n \<noteq> 0 \<Longrightarrow> unat (n - 1) = unat n - 1" for n :: u32
  by (metis unat_minus_one)

lemma remove_vals:
  assumes ok: "ht_ok h" and rm: "hashtable_remove h k = (r, h')"
  shows "ht_ok h' \<and> r = first_val (ht_vals h k) \<and> ht_vals h' = (ht_vals h)(k := tl (ht_vals h k)) \<and>
    hashfn h' = hashfn h"
proof -
  let ?i = "indexFor (tablelength h) (hash h k)"
  have i: "?i < length (table h)" using ok by (simp add: ht_ok_def indexFor_less)
  have spec: "case bucket_remove (=) (hash h k) k (ht_bucket h k) of
      None \<Rightarrow> filter (\<lambda>e. e_k e = k) (ht_bucket h k) = []
    | Some (v, es') \<Rightarrow> ht_vals h k = v # map e_v (filter (\<lambda>e. e_k e = k) es') \<and>
        (\<forall>k'. k' \<noteq> k \<longrightarrow> filter (\<lambda>e. e_k e = k') (ht_bucket h k) = filter (\<lambda>e. e_k e = k') es') \<and>
        set es' \<subseteq> set (ht_bucket h k) \<and> length (ht_bucket h k) = Suc (length es')"
    unfolding ht_vals_def by (rule bucket_remove_vals [OF bucket_hash [OF ok]])
  show ?thesis
  proof (cases "bucket_remove (=) (hash h k) k (ht_bucket h k)")
    case None
    with rm spec ok show ?thesis
      by (auto simp: hashtable_remove_def Let_def ht_ok_def ht_bucket_def ht_vals_def)
  next
    case (Some ves)
    obtain v es where ves: "ves = (v, es)" by (cases ves)
    have h': "r = Some v" "h' = h\<lparr>table := (table h)[?i := es], entrycount := entrycount h - 1\<rparr>"
      using rm Some ves ok by (auto simp: hashtable_remove_def Let_def ht_ok_def ht_bucket_def)
    have sp: "ht_vals h k = v # map e_v (filter (\<lambda>e. e_k e = k) es)"
      "\<And>k'. k' \<noteq> k \<Longrightarrow> filter (\<lambda>e. e_k e = k') (ht_bucket h k) = filter (\<lambda>e. e_k e = k') es"
      "set es \<subseteq> set (ht_bucket h k)" "length (ht_bucket h k) = Suc (length es)"
      using spec Some ves by auto
    have bucket: "ht_bucket h' k' = (if indexFor (tablelength h) (hash h k') = ?i then es else ht_bucket h k')" for k'
      using ok h'(2) by (intro bucket_of_update) (auto simp: ht_ok_def)
    have vals: "ht_vals h' k' = ((ht_vals h)(k := tl (ht_vals h k))) k'" for k'
    proof (cases "k' = k")
      case True
      then show ?thesis using sp(1) by (simp add: ht_vals_def [of h'] bucket)
    next
      case False
      show ?thesis
      proof (cases "indexFor (tablelength h) (hash h k') = ?i")
        case True
        then have "ht_bucket h k' = ht_bucket h k" by (simp add: ht_bucket_def)
        with True False sp(2) [OF False] show ?thesis by (simp add: ht_vals_def bucket)
      qed (use False in \<open>simp add: ht_vals_def bucket\<close>)
    qed
    have len: "length (concat ((table h)[?i := es])) + 1 = length (concat (table h))"
      using length_concat_update [OF i, of es] sp(4) by (simp add: ht_bucket_def)
    moreover have "unat (entrycount h) = length (concat (table h))" using ok by (simp add: ht_ok_def)
    ultimately have "entrycount h \<noteq> 0" by (metis Suc_eq_plus1 nat.simps(3) unat_0)
    then have "unat (entrycount h') = length (concat (table h'))"
      using ok len h'(2) by (simp add: ht_ok_def unat_dec)
    moreover have "\<forall>j<length (table h'). \<forall>e\<in>set (table h' ! j). in_bucket h' j e"
    proof (intro allI impI ballI)
      fix j e assume je: "j < length (table h')" "e \<in> set (table h' ! j)"
      then have "j < length (table h)" "e \<in> set (table h ! j)"
        using h'(2) sp(3) i by (auto simp: ht_bucket_def nth_list_update split: if_splits)
      from ht_ok_entry [OF ok this] show "in_bucket h' j e"
        using h'(2) by (simp add: in_bucket_def hash_def)
    qed
    ultimately have "ht_ok h'" using ok h'(2) by (auto simp: ht_ok_def ht_wf_def)
    with vals h' sp(1) show ?thesis by (auto simp: fun_eq_iff)
  qed
qed

subsection \<open>Expanding and inserting\<close>

lemma move_entries_nth:
  assumes "n \<noteq> 0" "length nt = unat n" "j < unat n"
  shows "move_entries n es nt ! j = rev (filter (\<lambda>e. indexFor n (e_h e) = j) es) @ nt ! j"
  using assms(2,3)
proof (induction n es nt rule: move_entries.induct)
  case (2 n e es nt)
  then show ?case
    using indexFor_bound [of n "e_h e"] by (auto simp: Let_def nth_list_update)
qed simp

lemma length_move_entries: "length (move_entries n es nt) = length nt"
  by (induction n es nt rule: move_entries.induct) (auto simp: Let_def)

lemma length_concat_move:
  assumes "n \<noteq> 0" "length nt = unat n"
  shows "length (concat (move_entries n es nt)) = length es + length (concat nt)"
  using assms
proof (induction n es nt rule: move_entries.induct)
  case (2 n e es nt)
  let ?i = "indexFor n (e_h e)"
  have "?i < length nt" using 2 indexFor_bound [of n "e_h e"] by simp
  from length_concat_update [OF this, of "e # nt ! ?i"] 2 show ?case by (simp add: Let_def)
qed simp

lemma primes_pos: "i < prime_table_length \<Longrightarrow> primes ! i \<noteq> 0"
proof -
  assume i: "i < prime_table_length"
  have "\<forall>p\<in>set primes. p \<noteq> 0" "length primes = prime_table_length"
    by (simp_all add: primes_def prime_table_length_def)
  with i show ?thesis by auto
qed

lemma concat_replicate_nil: "concat (replicate n []) = []"
  by (induction n) auto

text \<open>An expansion keeps every entry and reverses the order of the values of each key.\<close>

lemma expand_vals:
  assumes ok: "ht_ok h" and ex: "hashtable_expand mem h = Some (r, h')"
  shows "ht_ok h' \<and> hashfn h' = hashfn h \<and> entrycount h' = entrycount h \<and>
    ht_vals h' = (if r then \<lambda>k. rev (ht_vals h k) else ht_vals h)"
proof (cases r)
  case False
  with ex ok show ?thesis by (auto simp: hashtable_expand_def Let_def split: if_splits)
next
  case True
  define n where "n = primes ! (primeindex h + 1)"
  define nt where "nt = move_entries n (concat (table h)) (replicate (unat n) [])"
  have h': "h' = h\<lparr>primeindex := primeindex h + 1, table := nt, tablelength := n, loadlimit := load_limit n\<rparr>"
    "primeindex h \<noteq> prime_table_length - 1"
    using ex True by (auto simp: hashtable_expand_def Let_def n_def nt_def split: if_splits)
  have pi: "primeindex h + 1 < prime_table_length" using ok h'(2) by (auto simp: ht_ok_def ht_wf_def)
  then have n: "n \<noteq> 0" unfolding n_def by (rule primes_pos)
  have nth: "nt ! j = rev (filter (\<lambda>e. indexFor n (e_h e) = j) (concat (table h)))" if "j < unat n" for j
    unfolding nt_def using n that by (simp add: move_entries_nth)
  have len: "length nt = unat n" by (simp add: nt_def length_move_entries)
  have hashed: "e \<in> set (concat (table h)) \<Longrightarrow> e_h e = hash h (e_k e)" for e
    using ht_ok_entry [OF ok] by (fastforce simp: in_set_conv_nth)
  have "length (concat nt) = length (concat (table h))"
    unfolding nt_def using n by (subst length_concat_move) (auto simp: concat_replicate_nil)
  moreover have "\<forall>j<length nt. \<forall>e\<in>set (nt ! j). in_bucket h' j e"
  proof (intro allI impI ballI)
    fix j e assume "j < length nt" "e \<in> set (nt ! j)"
    then have "e \<in> set (concat (table h))" "indexFor n (e_h e) = j" using nth len by auto
    with hashed [of e] show "in_bucket h' j e" by (simp add: in_bucket_def h'(1) hash_def)
  qed
  ultimately have ok': "ht_ok h'"
    using ok h'(1) n pi len by (simp add: ht_ok_def ht_wf_def)
  have "ht_vals h' k = rev (ht_vals h k)" for k
  proof -
    let ?j = "indexFor n (hash h k)"
    have "ht_bucket h' k = nt ! ?j" by (simp add: ht_bucket_def h'(1) hash_def)
    moreover have "filter (\<lambda>e. e_k e = k) (nt ! ?j) = rev (filter (\<lambda>e. e_k e = k) (concat (table h)))"
      using hashed indexFor_bound [OF n] by (auto simp: nth rev_filter intro!: filter_cong)
    ultimately show ?thesis using ok by (simp add: ht_vals_def [of h'] ht_vals_concat rev_map)
  qed
  with True ok' h'(1) show ?thesis by (simp add: fun_eq_iff)
qed

text \<open>Inserting puts the value in front, behind an expansion or not.\<close>

definition ht_room :: "('k, 'v) hashtable \<Rightarrow> bool" where
  "ht_room h \<longleftrightarrow> entrycount h \<noteq> -1"

lemma insert_entry_ok:
  assumes ok: "ht_ok (h\<lparr>entrycount := entrycount h - 1\<rparr>)" and nz: "entrycount h \<noteq> 0"
    and h': "h' = h\<lparr>table := (table h)[indexFor (tablelength h) (hash h k) :=
      \<lparr>e_k = k, e_v = v, e_h = hash h k\<rparr> # table h ! indexFor (tablelength h) (hash h k)]\<rparr>"
  shows "ht_ok h' \<and> ht_vals h' = (ht_vals h)(k := v # ht_vals h k)"
proof -
  let ?i = "indexFor (tablelength h) (hash h k)" and ?e = "\<lparr>e_k = k, e_v = v, e_h = hash h k\<rparr>"
  let ?h = "h\<lparr>entrycount := entrycount h - 1\<rparr>"
  have wf: "ht_wf h" using ok by (simp add: ht_ok_def ht_wf_def)
  have i: "?i < length (table h)" using wf by (rule indexFor_less)
  have count: "unat (entrycount h) = Suc (length (concat (table h)))"
    using ok nz by (simp add: ht_ok_def unat_dec unat_gt_0 Suc_diff_1 [symmetric] del: Suc_diff_1)
      (metis Suc_pred unat_gt_0)
  have "length (concat (table h')) = Suc (length (concat (table h)))"
    using length_concat_update [OF i, of "?e # table h ! ?i"] by (simp add: h')
  moreover have "\<forall>j<length (table h'). \<forall>e\<in>set (table h' ! j). in_bucket h' j e"
  proof (intro allI impI ballI)
    fix j e assume "j < length (table h')" "e \<in> set (table h' ! j)"
    then have "e = ?e \<and> j = ?i \<or> j < length (table ?h) \<and> e \<in> set (table ?h ! j)"
      using i by (auto simp: h' nth_list_update split: if_splits)
    then show "in_bucket h' j e"
      using ht_ok_entry [OF ok, of j e] by (auto simp: h' in_bucket_def hash_def)
  qed
  ultimately have "ht_ok h'" using ok wf count by (simp add: ht_ok_def ht_wf_def h')
  moreover have "ht_bucket h' k' = (if indexFor (tablelength h) (hash h k') = ?i
      then ?e # table h ! ?i else ht_bucket h k')" for k'
    using wf by (rule bucket_of_update) (simp_all add: h')
  then have "ht_vals h' k' = ((ht_vals h)(k := v # ht_vals h k)) k'" for k'
    by (cases "k' = k") (auto simp: ht_vals_def ht_bucket_def)
  ultimately show ?thesis by (simp add: fun_eq_iff)
qed

lemma expand_count:
  "hashtable_expand mem (h\<lparr>entrycount := c\<rparr>) =
   map_option (map_prod id (\<lambda>h. h\<lparr>entrycount := c\<rparr>)) (hashtable_expand mem h)"
  by (simp add: hashtable_expand_def Let_def)

text \<open>An insertion expands the table when the new count is over the load limit.\<close>

definition overfull :: "('k, 'v) hashtable \<Rightarrow> bool" where
  "overfull h \<longleftrightarrow> entrycount h + 1 > loadlimit h \<and> primeindex h \<noteq> prime_table_length - 1"

definition reordered :: "ht_mem \<Rightarrow> ('k, 'v) hashtable \<Rightarrow> 'v list \<Rightarrow> 'v list" where
  "reordered mem h vs = (if overfull h \<and> newtable_malloc mem then rev vs else vs)"

lemma length_reordered [simp]: "length (reordered mem h vs) = length vs"
  by (simp add: reordered_def)

lemma reordered_single: "length vs \<le> 1 \<Longrightarrow> reordered mem h vs = vs"
  by (cases vs) (auto simp: reordered_def)

lemma expand_step:
  assumes ok: "ht_ok h" and
    ex: "(if entrycount h + 1 > loadlimit h then hashtable_expand mem (h\<lparr>entrycount := entrycount h + 1\<rparr>)
      else Some (True, h\<lparr>entrycount := entrycount h + 1\<rparr>)) = Some (r, h1)"
  obtains h2 where "h1 = h2\<lparr>entrycount := entrycount h + 1\<rparr>" "ht_ok h2" "hashfn h2 = hashfn h"
    "entrycount h2 = entrycount h" "ht_vals h2 = (\<lambda>k. reordered mem h (ht_vals h k))"
proof (cases "entrycount h + 1 > loadlimit h")
  case False
  with ex ok show thesis by (intro that [of h]) (auto simp: reordered_def overfull_def)
next
  case True
  with ex obtain h2 where h2: "hashtable_expand mem h = Some (r, h2)" "h1 = h2\<lparr>entrycount := entrycount h + 1\<rparr>"
    by (auto simp: expand_count)
  have "r \<longleftrightarrow> overfull h \<and> newtable_malloc mem"
    using h2(1) True by (auto simp: hashtable_expand_def Let_def overfull_def split: if_splits)
  then show thesis
    using expand_vals [OF ok h2(1)] h2(2) by (intro that [of h2]) (auto simp: reordered_def fun_eq_iff)
qed

lemma ht_vals_count [simp]: "ht_vals (h\<lparr>entrycount := c\<rparr>) = ht_vals h"
  by (simp add: fun_eq_iff ht_vals_def ht_bucket_def hash_def)

lemma insert_vals:
  assumes ok: "ht_ok h" and room: "ht_room h" and ins: "hashtable_insert mem h k v = Some (r, h')"
  shows "ht_ok h' \<and> hashfn h' = hashfn h \<and> r = entry_malloc mem \<and>
    ht_vals h' = (\<lambda>k'. (if r \<and> k' = k then [v] else []) @ reordered mem h (ht_vals h k'))"
proof -
  let ?c = "entrycount h + 1"
  obtain b h1 where step: "(if ?c > loadlimit h then hashtable_expand mem (h\<lparr>entrycount := ?c\<rparr>)
      else Some (True, h\<lparr>entrycount := ?c\<rparr>)) = Some (b, h1)"
    using ins by (auto simp: hashtable_insert_def Let_def split: option.splits if_splits)
  obtain h2 where h2: "h1 = h2\<lparr>entrycount := ?c\<rparr>" "ht_ok h2" "hashfn h2 = hashfn h"
    "entrycount h2 = entrycount h" "ht_vals h2 = (\<lambda>k. reordered mem h (ht_vals h k))"
    using expand_step [OF ok step] by blast
  have ok1: "ht_ok (h1\<lparr>entrycount := entrycount h1 - 1\<rparr>)" and nz: "entrycount h1 \<noteq> 0"
  proof -
    have "h1\<lparr>entrycount := entrycount h1 - 1\<rparr> = h2\<lparr>entrycount := entrycount h2\<rparr>" using h2(1,4) by simp
    also have "\<dots> = h2" by (cases h2) simp
    finally show "ht_ok (h1\<lparr>entrycount := entrycount h1 - 1\<rparr>)" using h2(2) by (simp only:)
    show "entrycount h1 \<noteq> 0" using h2 room by (auto simp: ht_room_def eq_neg_iff_add_eq_0)
  qed
  show ?thesis
  proof (cases "entry_malloc mem")
    case False
    then have "r = False" "h' = h1\<lparr>entrycount := entrycount h1 - 1\<rparr>"
      using ins step by (simp_all add: hashtable_insert_def Let_def)
    with False ok1 h2 show ?thesis by simp
  next
    case True
    then have "r = True" "h' = h1\<lparr>table := (table h1)[indexFor (tablelength h1) (hash h1 k) :=
        \<lparr>e_k = k, e_v = v, e_h = hash h1 k\<rparr> # table h1 ! indexFor (tablelength h1) (hash h1 k)]\<rparr>"
      using ins step by (simp_all add: hashtable_insert_def Let_def)
    with True insert_entry_ok [OF ok1 nz this(2)] h2 show ?thesis by (auto simp: fun_eq_iff)
  qed
qed

lemma insert_returns:
  "hashtable_insert mem h k v = None \<longleftrightarrow> overfull h \<and> \<not> newtable_malloc mem \<and> table_realloc mem"
  by (auto simp: hashtable_insert_def hashtable_expand_def Let_def overfull_def split: option.splits)

lemma pick_prime_found:
  "pick_prime n i ps = (j, p) \<Longrightarrow> \<exists>q\<in>set ps. n < q \<Longrightarrow> j < i + length ps \<and> n < p"
  by (induction n i ps rule: pick_prime.induct) (auto split: if_splits)

lemma create_vals:
  assumes "create_hashtable b n f (=) = Some h"
  shows "ht_ok h \<and> hashfn h = f \<and> ht_vals h = (\<lambda>k. []) \<and> entrycount h = 0"
proof -
  obtain j p where jp: "pick_prime n 0 primes = (j, p)" by (cases "pick_prime n 0 primes")
  have n: "n \<le> push_bit 30 1" and h: "h = \<lparr>tablelength = p, table = replicate (unat p) [], entrycount = 0,
      loadlimit = load_limit p, primeindex = j, hashfn = f, eqfn = (=)\<rparr>"
    using assms jp by (auto simp: create_hashtable_def split: if_splits)
  have "n < 1610612741" using n by (rule le_less_trans) simp
  then have "\<exists>q\<in>set primes. n < q" by (auto simp: primes_def)
  from pick_prime_found [OF jp this] have j: "j < prime_table_length" "p \<noteq> 0"
    by (auto simp: primes_def prime_table_length_def)
  have "indexFor p hv < unat p" for hv using j(2) by (rule indexFor_bound)
  with j show ?thesis
    by (simp add: h ht_ok_def ht_wf_def concat_replicate_nil ht_vals_def ht_bucket_def fun_eq_iff)
qed

subsection \<open>The contract of the locked table\<close>

text \<open>
  \<open>M t k\<close> is the list of the values a client has stored under \<open>k\<close>. An insertion that has memory for its entry,
  and for a larger table or for no extension at all (the table then stays as it is), returns, and the order of the values of
  a key may change. A client that
  keeps at most one value per key has a finite map (\<open>single\<close>, \<open>lookup\<close>).
\<close>

definition enough :: "ht_mem \<Rightarrow> bool" where
  "enough mem \<longleftrightarrow> entry_malloc mem \<and> (newtable_malloc mem \<or> \<not> table_realloc mem)"

locale keyed_table =
  fixes ins :: "ht_mem \<Rightarrow> 't \<Rightarrow> 'k \<Rightarrow> 'v \<Rightarrow> (bool \<times> 't) option"
    and srch :: "'t \<Rightarrow> 'k \<Rightarrow> ('v option \<times> 't) option"
    and rmv :: "'t \<Rightarrow> 'k \<Rightarrow> ('v option \<times> 't) option"
    and inv :: "'t \<Rightarrow> bool" and room :: "'t \<Rightarrow> bool" and M :: "'t \<Rightarrow> 'k \<Rightarrow> 'v list"
  assumes srch: "inv t \<Longrightarrow> srch t k = Some (first_val (M t k), t)"
    and rmv: "inv t \<Longrightarrow> \<exists>t'. rmv t k = Some (first_val (M t k), t') \<and> inv t' \<and> M t' = (M t)(k := tl (M t k))"
    and ins: "inv t \<Longrightarrow> room t \<Longrightarrow> enough mem \<Longrightarrow>
      \<exists>t' g. ins mem t k v = Some (True, t') \<and> inv t' \<and> (g = rev \<or> g = id) \<and>
        M t' = (\<lambda>k'. (if k' = k then [v] else []) @ g (M t k'))"
begin

definition single :: "'t \<Rightarrow> bool" where
  "single t \<longleftrightarrow> inv t \<and> (\<forall>k. length (M t k) \<le> 1)"

definition lookup :: "'t \<Rightarrow> 'k \<Rightarrow> 'v option" where
  "lookup t k = first_val (M t k)"

lemma single_cases: "single t \<Longrightarrow> M t k = (case lookup t k of None \<Rightarrow> [] | Some v \<Rightarrow> [v])"
  unfolding single_def lookup_def by (cases "M t k") (auto dest: spec [of _ k])

lemma find_single: "single t \<Longrightarrow> srch t k = Some (lookup t k, t)"
  by (simp add: single_def lookup_def srch)

lemma remove_single:
  assumes "single t"
  shows "\<exists>t'. rmv t k = Some (lookup t k, t') \<and> single t' \<and> lookup t' = (lookup t)(k := None)"
proof -
  obtain t' where t': "rmv t k = Some (first_val (M t k), t')" "inv t'" "M t' = (M t)(k := tl (M t k))"
    using rmv [of t k] assms by (auto simp: single_def)
  have tl: "tl (M t k) = []" using single_cases [OF assms, of k] by (simp split: option.splits)
  have "single t'" using assms t' tl by (simp add: single_def)
  moreover have "lookup t' = (lookup t)(k := None)" using t'(3) tl by (auto simp: lookup_def fun_eq_iff)
  ultimately show ?thesis using t'(1) by (auto simp: lookup_def)
qed

lemma insert_single:
  assumes "single t" "room t" "enough mem" "lookup t k = None"
  shows "\<exists>t'. ins mem t k v = Some (True, t') \<and> single t' \<and> lookup t' = (lookup t)(k \<mapsto> v)"
proof -
  obtain t' g where t': "ins mem t k v = Some (True, t')" "inv t'" "g = rev \<or> g = id"
    "M t' = (\<lambda>k'. (if k' = k then [v] else []) @ g (M t k'))"
    using ins [of t mem k v] assms by (auto simp: single_def)
  have "g (M t k') = M t k'" for k'
    using t'(3) single_cases [OF assms(1), of k'] by (auto split: option.splits)
  with t' have M: "M t' = (\<lambda>k'. (if k' = k then [v] else []) @ M t k')" by simp
  have "M t k = []" using single_cases [OF assms(1), of k] assms(4) by simp
  then have "single t'" using assms(1) t'(2) M by (auto simp: single_def)
  moreover have "lookup t' = (lookup t)(k \<mapsto> v)" by (auto simp: lookup_def M fun_eq_iff)
  ultimately show ?thesis using t'(1) by blast
qed

end

text \<open>The table without a lock meets the same contract.\<close>

lemma insert_count:
  assumes "hashtable_insert mem h k v = Some (True, h')"
  shows "entrycount h' = entrycount h + 1"
proof -
  have "entrycount h1 = entrycount h0" if "hashtable_expand mem h0 = Some (b, h1)" for h0 :: "('a, 'b) hashtable" and h1 b
    using that by (auto simp: hashtable_expand_def Let_def split: if_splits)
  with assms show ?thesis
    by (fastforce simp: hashtable_insert_def Let_def split: option.splits if_splits)
qed

lemma count_room:
  assumes "Suc (unat (entrycount h)) < 2 ^ 32"
  shows "ht_room h" "hashtable_insert mem h k v = Some (True, h') \<Longrightarrow> unat (entrycount h') = Suc (unat (entrycount h))"
proof -
  have "unat (entrycount h) \<noteq> unat (-1 :: u32)" using assms by (simp add: unsigned_minus_1_eq_mask mask_eq_exp_minus_1)
  then have "entrycount h \<noteq> -1" by metis
  then have "1 + entrycount h \<noteq> 0" by (metis add.commute eq_neg_iff_add_eq_0)
  with \<open>entrycount h \<noteq> -1\<close>
  show "ht_room h" "hashtable_insert mem h k v = Some (True, h') \<Longrightarrow> unat (entrycount h') = Suc (unat (entrycount h))"
    using insert_count [of mem h k v h'] by (auto simp: ht_room_def add.commute [of "entrycount h" 1] unatSuc)
qed

interpretation ht: keyed_table hashtable_insert "\<lambda>h k. Some (hashtable_search h k, h)" "\<lambda>h k. Some (hashtable_remove h k)"
  ht_ok ht_room ht_vals
proof
  fix h :: "('k, 'v) hashtable" and k v and mem :: ht_mem
  assume ok: "ht_ok h"
  then show "Some (hashtable_search h k, h) = Some (first_val (ht_vals h k), h)" by (simp add: search_vals)
  obtain r h' where rm: "hashtable_remove h k = (r, h')" by (cases "hashtable_remove h k")
  from remove_vals [OF ok this] rm
  show "\<exists>h'. Some (hashtable_remove h k) = Some (first_val (ht_vals h k), h') \<and> ht_ok h' \<and>
      ht_vals h' = (ht_vals h)(k := tl (ht_vals h k))" by auto
  assume room: "ht_room h" and mem: "enough mem"
  then obtain r h' where ins: "hashtable_insert mem h k v = Some (r, h')"
    using insert_returns [of mem h k v] by (auto simp: enough_def)
  from insert_vals [OF ok room ins] mem have h: "ht_ok h'" "r"
    "ht_vals h' = (\<lambda>k'. (if k' = k then [v] else []) @ reordered mem h (ht_vals h k'))"
    by (auto simp: enough_def)
  have "reordered mem h = rev \<or> reordered mem h = (id :: 'v list \<Rightarrow> 'v list)"
    by (auto simp: reordered_def fun_eq_iff)
  then show "\<exists>h' g. hashtable_insert mem h k v = Some (True, h') \<and> ht_ok h' \<and> (g = rev \<or> g = id) \<and>
      ht_vals h' = (\<lambda>k'. (if k' = k then [v] else []) @ g (ht_vals h k'))"
    using h ins by (intro exI [of _ h'] exI [of _ "reordered mem h"]) auto
qed

definition mt_ok :: "('k, 'v) mt_hashtable \<Rightarrow> bool" where
  "mt_ok t \<longleftrightarrow> ht_ok (mt_table t) \<and> \<not> mt_locked t"

definition mt_room :: "('k, 'v) mt_hashtable \<Rightarrow> bool" where
  "mt_room t \<longleftrightarrow> ht_room (mt_table t)"

definition mt_vals :: "('k, 'v) mt_hashtable \<Rightarrow> 'k \<Rightarrow> 'v list" where
  "mt_vals t = ht_vals (mt_table t)"

interpretation mt: keyed_table mt_hashtable_insert mt_hashtable_search mt_hashtable_remove mt_ok mt_room mt_vals
proof
  fix t :: "('k, 'v) mt_hashtable" and k v and mem :: ht_mem
  assume ok: "mt_ok t"
  then show "mt_hashtable_search t k = Some (first_val (mt_vals t k), t)"
    by (simp add: mt_ok_def mt_hashtable_search_def mt_vals_def search_vals)
  obtain r h where rm: "hashtable_remove (mt_table t) k = (r, h)" by (cases "hashtable_remove (mt_table t) k")
  from remove_vals [OF _ this] ok rm
  show "\<exists>t'. mt_hashtable_remove t k = Some (first_val (mt_vals t k), t') \<and> mt_ok t' \<and>
      mt_vals t' = (mt_vals t)(k := tl (mt_vals t k))"
    by (auto simp: mt_ok_def mt_hashtable_remove_def mt_vals_def)
  assume room: "mt_room t" and mem: "enough mem"
  then obtain r h where ins: "hashtable_insert mem (mt_table t) k v = Some (r, h)"
    using insert_returns [of mem "mt_table t" k v] by (auto simp: enough_def)
  from insert_vals [OF _ _ ins] ok room mem have h: "ht_ok h" "r"
    "ht_vals h = (\<lambda>k'. (if k' = k then [v] else []) @ reordered mem (mt_table t) (ht_vals (mt_table t) k'))"
    by (auto simp: mt_ok_def mt_room_def enough_def)
  have "reordered mem (mt_table t) = rev \<or> reordered mem (mt_table t) = (id :: 'v list \<Rightarrow> 'v list)"
    by (auto simp: reordered_def fun_eq_iff)
  then show "\<exists>t' g. mt_hashtable_insert mem t k v = Some (True, t') \<and> mt_ok t' \<and> (g = rev \<or> g = id) \<and>
      mt_vals t' = (\<lambda>k'. (if k' = k then [v] else []) @ g (mt_vals t k'))"
    using h ins ok
    by (intro exI [of _ "t\<lparr>mt_table := h\<rparr>"] exI [of _ "reordered mem (mt_table t)"])
      (auto simp: mt_hashtable_insert_def Let_def mt_ok_def mt_vals_def)
qed

lemma create_mt:
  assumes "create_mt_hashtable b n f (=) = Some t"
  shows "mt.single t \<and> mt.lookup t = (\<lambda>k. None) \<and> entrycount (mt_table t) = 0"
  using assms
  by (auto simp: create_mt_hashtable_def mt.single_def mt.lookup_def mt_ok_def mt_vals_def fun_eq_iff dest: create_vals)

end
