(* ===== verification/Posix_Files.thy ===== *)
theory Posix_Files imports Lwfs_Prelude Hashtable_Map "HOL-Library.AList" begin

section \<open>The file system interface\<close>

text \<open>
  The system calls the storage server makes, as the fields of a record over the state \<open>'os\<close> of
  the operating system. \<open>posix_files\<close> states their documented behaviour relative to the files
  \<open>F os\<close>: names refer to inodes, open descriptors to an inode and an offset. It also states that
  calls do not fail without a reason, and that descriptor 0 is taken, so that no call hands it
  out. The in-memory instance is \<open>mem_posix\<close>.
\<close>

record posix_stat =
  ps_size :: u64
  ps_atime :: u32
  ps_mtime :: u32
  ps_ctime :: u32

datatype mkdir_rc = MKDIR_OK | MKDIR_EEXIST | MKDIR_FAILED

record 'os posix =
  os_access :: "'os \<Rightarrow> string \<Rightarrow> bool"
  os_creat :: "'os \<Rightarrow> string \<Rightarrow> int \<times> 'os"
  os_open :: "'os \<Rightarrow> string \<Rightarrow> int \<times> 'os"
  os_close :: "'os \<Rightarrow> int \<Rightarrow> int \<times> 'os"
  os_remove :: "'os \<Rightarrow> string \<Rightarrow> int \<times> 'os"
  os_lseek :: "'os \<Rightarrow> int \<Rightarrow> u64 \<Rightarrow> int \<times> 'os"
  os_read :: "'os \<Rightarrow> int \<Rightarrow> u64 \<Rightarrow> u8 list option \<times> 'os"
  os_write :: "'os \<Rightarrow> int \<Rightarrow> u8 list \<Rightarrow> int \<times> 'os"
  os_fsync :: "'os \<Rightarrow> int \<Rightarrow> int \<times> 'os"
  os_fstat :: "'os \<Rightarrow> int \<Rightarrow> posix_stat option"
  os_ftruncate :: "'os \<Rightarrow> int \<Rightarrow> u64 \<Rightarrow> int \<times> 'os"
  os_mkdir :: "'os \<Rightarrow> string \<Rightarrow> mkdir_rc \<times> 'os"
  os_readdir :: "'os \<Rightarrow> string \<Rightarrow> string list option"
  os_malloc :: "'os \<Rightarrow> bool \<times> 'os"
  os_calloc :: "'os \<Rightarrow> nat \<Rightarrow> bool \<times> 'os"
  os_ht_mem :: "'os \<Rightarrow> ht_mem \<times> 'os"

record files =
  f_names :: "string \<rightharpoonup> nat"
  f_data :: "nat \<Rightarrow> u8 list"
  f_fds :: "int \<rightharpoonup> nat \<times> nat"

text \<open>Writing \<open>bs\<close> at offset \<open>off\<close>; a gap behind the old end reads as zeros.\<close>

definition overlay :: "u8 list \<Rightarrow> nat \<Rightarrow> u8 list \<Rightarrow> u8 list" where
  "overlay d off bs = take off (d @ replicate (off - length d) 0) @ bs @ drop (off + length bs) d"

definition resize :: "u8 list \<Rightarrow> nat \<Rightarrow> u8 list" where
  "resize d n = take n (d @ replicate (n - length d) 0)"

lemma overlay_slice: "take (length bs) (drop off (overlay d off bs)) = bs"
proof -
  have "length (take off (d @ replicate (off - length d) 0)) = off" by simp
  then show ?thesis by (simp add: overlay_def)
qed

lemma length_overlay: "length (overlay d off bs) = max (length d) (off + length bs)"
  by (simp add: overlay_def)

lemma length_resize: "length (resize d n) = n"
  by (simp add: resize_def)

definition valid_off :: "u64 \<Rightarrow> bool" where
  "valid_off off \<longleftrightarrow> off < 0x8000000000000000"

locale posix_files =
  fixes P :: "'os posix" and F :: "'os \<Rightarrow> files"
  assumes access_iff: "os_access P os f \<longleftrightarrow> f_names (F os) f \<noteq> None"
    and open_some: "f_names (F os) f = Some ino \<Longrightarrow> \<exists>fd os'. os_open P os f = (fd, os') \<and> fd > 0 \<and>
      f_fds (F os) fd = None \<and> F os' = (F os)\<lparr>f_fds := (f_fds (F os))(fd \<mapsto> (ino, 0))\<rparr>"
    and open_none: "f_names (F os) f = None \<Longrightarrow> \<exists>os'. os_open P os f = (-1, os') \<and> F os' = F os"
    and creat_new: "f_names (F os) f = None \<Longrightarrow> \<exists>fd ino os'. os_creat P os f = (fd, os') \<and> fd > 0 \<and>
      f_fds (F os) fd = None \<and> ino \<notin> ran (f_names (F os)) \<and> ino \<notin> fst ` ran (f_fds (F os)) \<and>
      F os' = (F os)\<lparr>f_names := (f_names (F os))(f \<mapsto> ino), f_data := (f_data (F os))(ino := []),
        f_fds := (f_fds (F os))(fd \<mapsto> (ino, 0))\<rparr>"
    and close_open: "f_fds (F os) fd \<noteq> None \<Longrightarrow> \<exists>os'. os_close P os fd = (0, os') \<and>
      F os' = (F os)\<lparr>f_fds := (f_fds (F os))(fd := None)\<rparr>"
    and remove_some: "f_names (F os) f \<noteq> None \<Longrightarrow> \<exists>os'. os_remove P os f = (0, os') \<and>
      F os' = (F os)\<lparr>f_names := (f_names (F os))(f := None)\<rparr>"
    and lseek_open: "f_fds (F os) fd = Some (ino, n) \<Longrightarrow> valid_off off \<Longrightarrow> \<exists>os'.
      os_lseek P os fd off = (int (unat off), os') \<and>
      F os' = (F os)\<lparr>f_fds := (f_fds (F os))(fd \<mapsto> (ino, unat off))\<rparr>"
    and read_open: "f_fds (F os) fd = Some (ino, n) \<Longrightarrow> \<exists>os'.
      os_read P os fd len = (Some (take (unat len) (drop n (f_data (F os) ino))), os') \<and>
      F os' = (F os)\<lparr>f_fds := (f_fds (F os))(fd \<mapsto>
        (ino, n + min (unat len) (length (f_data (F os) ino) - n)))\<rparr>"
    and write_open: "f_fds (F os) fd = Some (ino, n) \<Longrightarrow> \<exists>os'.
      os_write P os fd bs = (int (length bs), os') \<and>
      F os' = (F os)\<lparr>f_data := (f_data (F os))(ino := overlay (f_data (F os) ino) n bs),
        f_fds := (f_fds (F os))(fd \<mapsto> (ino, n + length bs))\<rparr>"
    and fsync_open: "f_fds (F os) fd \<noteq> None \<Longrightarrow> \<exists>os'. os_fsync P os fd = (0, os') \<and> F os' = F os"
    and fstat_open: "f_fds (F os) fd = Some (ino, n) \<Longrightarrow> \<exists>ps. os_fstat P os fd = Some ps \<and>
      ps_size ps = of_nat (length (f_data (F os) ino))"
    and ftruncate_open: "f_fds (F os) fd = Some (ino, n) \<Longrightarrow> valid_off len \<Longrightarrow> \<exists>os'.
      os_ftruncate P os fd len = (0, os') \<and>
      F os' = (F os)\<lparr>f_data := (f_data (F os))(ino := resize (f_data (F os) ino) (unat len))\<rparr>"
    and malloc_ok: "\<exists>os'. os_malloc P os = (True, os') \<and> F os' = F os"
    and calloc_ok: "\<exists>os'. os_calloc P os n = (True, os') \<and> F os' = F os"
    and ht_mem_ok: "\<exists>mem os'. os_ht_mem P os = (mem, os') \<and> enough mem \<and> F os' = F os"

subsection \<open>Files in memory\<close>

text \<open>The three tables are association lists; inodes and descriptors are numbered above those in use.\<close>

record mem_os =
  m_names :: "(string \<times> nat) list"
  m_data :: "(nat \<times> u8 list) list"
  m_fds :: "(int \<times> nat \<times> nat) list"

definition m_file :: "mem_os \<Rightarrow> nat \<Rightarrow> u8 list" where
  "m_file os ino = (case map_of (m_data os) ino of None \<Rightarrow> [] | Some d \<Rightarrow> d)"

definition mem_files :: "mem_os \<Rightarrow> files" where
  "mem_files os = \<lparr>f_names = map_of (m_names os), f_data = m_file os, f_fds = map_of (m_fds os)\<rparr>"

definition m_new_fd :: "mem_os \<Rightarrow> int" where
  "m_new_fd os = 1 + fold max (map fst (m_fds os)) 2"

definition m_new_ino :: "mem_os \<Rightarrow> nat" where
  "m_new_ino os = 1 + fold max (map snd (m_names os) @ map (fst \<circ> snd) (m_fds os)) 0"

definition mem_posix :: "mem_os posix" where
  "mem_posix = \<lparr>
     os_access = (\<lambda>os f. map_of (m_names os) f \<noteq> None),
     os_creat = (\<lambda>os f. let ino = m_new_ino os; fd = m_new_fd os in
       (fd, \<lparr>m_names = AList.update f ino (m_names os), m_data = AList.update ino [] (m_data os),
          m_fds = AList.update fd (ino, 0) (m_fds os)\<rparr>)),
     os_open = (\<lambda>os f. let fd = m_new_fd os in
       (case map_of (m_names os) f of
          None \<Rightarrow> (-1, os)
        | Some ino \<Rightarrow> (fd, os\<lparr>m_fds := AList.update fd (ino, 0) (m_fds os)\<rparr>))),
     os_close = (\<lambda>os fd.
       if map_of (m_fds os) fd = None then (-1, os) else (0, os\<lparr>m_fds := AList.delete fd (m_fds os)\<rparr>)),
     os_remove = (\<lambda>os f.
       if map_of (m_names os) f = None then (-1, os) else (0, os\<lparr>m_names := AList.delete f (m_names os)\<rparr>)),
     os_lseek = (\<lambda>os fd off.
       (case map_of (m_fds os) fd of
          None \<Rightarrow> (-1, os)
        | Some (ino, n) \<Rightarrow>
            if \<not> valid_off off then (-1, os)
            else (int (unat off), os\<lparr>m_fds := AList.update fd (ino, unat off) (m_fds os)\<rparr>))),
     os_read = (\<lambda>os fd len.
       (case map_of (m_fds os) fd of
          None \<Rightarrow> (None, os)
        | Some (ino, n) \<Rightarrow> let bs = take (unat len) (drop n (m_file os ino)) in
            (Some bs, os\<lparr>m_fds := AList.update fd (ino, n + length bs) (m_fds os)\<rparr>))),
     os_write = (\<lambda>os fd bs.
       (case map_of (m_fds os) fd of
          None \<Rightarrow> (-1, os)
        | Some (ino, n) \<Rightarrow> (int (length bs), os\<lparr>
            m_data := AList.update ino (overlay (m_file os ino) n bs) (m_data os),
            m_fds := AList.update fd (ino, n + length bs) (m_fds os)\<rparr>))),
     os_fsync = (\<lambda>os fd. if map_of (m_fds os) fd = None then (-1, os) else (0, os)),
     os_fstat = (\<lambda>os fd. map_option (\<lambda>(ino, n). \<lparr>ps_size = of_nat (length (m_file os ino)),
       ps_atime = 0, ps_mtime = 0, ps_ctime = 0\<rparr>) (map_of (m_fds os) fd)),
     os_ftruncate = (\<lambda>os fd len.
       (case map_of (m_fds os) fd of
          None \<Rightarrow> (-1, os)
        | Some (ino, n) \<Rightarrow>
            if \<not> valid_off len then (-1, os)
            else (0, os\<lparr>m_data := AList.update ino (resize (m_file os ino) (unat len)) (m_data os)\<rparr>))),
     os_mkdir = (\<lambda>os d. (MKDIR_OK, os)),
     os_readdir = (\<lambda>os d. Some (map (drop (length d + 1))
       (filter (\<lambda>f. take (length d + 1) f = d @ ''/'') (map fst (m_names os))))),
     os_malloc = (\<lambda>os. (True, os)),
     os_calloc = (\<lambda>os n. (True, os)),
     os_ht_mem = (\<lambda>os. (\<lparr>newtable_malloc = True, table_realloc = True, entry_malloc = True\<rparr>, os))\<rparr>"

lemma fold_max_le: "x \<in> set xs \<or> x = a \<Longrightarrow> x \<le> fold max xs (a :: 'a::linorder)"
  by (simp flip: Max.set_eq_fold) (auto simp: Max_ge_iff)

lemma m_new_fd: "m_new_fd os > 0 \<and> map_of (m_fds os) (m_new_fd os) = None"
proof -
  have "2 \<le> fold max (map fst (m_fds os)) 2" by (rule fold_max_le) simp
  moreover have "m_new_fd os \<notin> set (map fst (m_fds os))"
    using fold_max_le [of "m_new_fd os" "map fst (m_fds os)" 2] by (auto simp: m_new_fd_def)
  ultimately show ?thesis by (auto simp: m_new_fd_def map_of_eq_None_iff)
qed

lemma m_new_ino: "m_new_ino os \<notin> ran (map_of (m_names os)) \<and> m_new_ino os \<notin> fst ` ran (map_of (m_fds os))"
proof -
  let ?xs = "map snd (m_names os) @ map (fst \<circ> snd) (m_fds os)"
  have "m_new_ino os \<notin> set ?xs"
    using fold_max_le [of "m_new_ino os" ?xs 0] by (auto simp: m_new_ino_def)
  then show ?thesis by (force simp: ran_def dest: map_of_SomeD)
qed

lemma m_file_update: "m_file (os\<lparr>m_data := AList.update ino d (m_data os)\<rparr>) = (m_file os)(ino := d)"
  by (auto simp: m_file_def fun_eq_iff update_conv')

interpretation mem_posix: posix_files mem_posix mem_files
proof
qed (use m_new_fd m_new_ino in \<open>auto simp: mem_posix_def mem_files_def m_file_def fun_eq_iff update_conv' delete_conv'
  Let_def enough_def split: option.splits\<close>)

end
