(* ===== verification/Tclist.thy ===== *)
theory Tclist imports Main begin

section \<open>Linked lists\<close>

text \<open>
  \<^verbatim>\<open>support/list/list.c\<close> as the storage server uses it: between two calls no item is
  locked or marked as deleted, so a list is the data of its items from \<^verbatim>\<open>start\<close> to
  \<^verbatim>\<open>end\<close>. A comparison may have no defined result (\<open>None\<close>): it follows pointers that the
  list does not own. The argument of the two insertions is whether the item could be allocated.
\<close>

definition tclist_push :: "bool \<Rightarrow> 'a list \<Rightarrow> 'a \<Rightarrow> bool \<times> 'a list" where
  "tclist_push item_malloc lst p = (if \<not> item_malloc then (False, lst) else (True, lst @ [p]))"

definition tclist_unshift :: "bool \<Rightarrow> 'a list \<Rightarrow> 'a \<Rightarrow> bool \<times> 'a list" where
  "tclist_unshift item_malloc lst p = (if \<not> item_malloc then (False, lst) else (True, p # lst))"

definition tclist_shift :: "'a list \<Rightarrow> 'a option \<times> 'a list" where
  "tclist_shift lst = (case lst of [] \<Rightarrow> (None, []) | x # xs \<Rightarrow> (Some x, xs))"

definition tclist_pop :: "'a list \<Rightarrow> 'a option \<times> 'a list" where
  "tclist_pop lst = (if lst = [] then (None, []) else (Some (last lst), butlast lst))"

text \<open>The position of the first item whose data compares equal.\<close>

fun list_find_item :: "('a \<Rightarrow> bool option) \<Rightarrow> 'a list \<Rightarrow> nat option option" where
  "list_find_item cmp [] = Some None"
| "list_find_item cmp (x # xs) =
     (case cmp x of
        None \<Rightarrow> None
      | Some b \<Rightarrow> if b then Some (Some 0) else map_option (map_option Suc) (list_find_item cmp xs))"

definition tclist_find :: "('a \<Rightarrow> bool option) \<Rightarrow> 'a list \<Rightarrow> 'a option option" where
  "tclist_find cmp lst = map_option (map_option (\<lambda>i. lst ! i)) (list_find_item cmp lst)"

definition tclist_delete :: "('a \<Rightarrow> bool option) \<Rightarrow> 'a list \<Rightarrow> (bool \<times> 'a list) option" where
  "tclist_delete cmp lst =
     (case list_find_item cmp lst of
        None \<Rightarrow> None
      | Some None \<Rightarrow> Some (False, lst)
      | Some (Some i) \<Rightarrow> Some (True, take i lst @ drop (Suc i) lst))"

definition tclist_items :: "'a list \<Rightarrow> nat" where "tclist_items lst = length lst"

definition tclist_head :: "'a list \<Rightarrow> 'a option" where
  "tclist_head lst = (if lst = [] then None else Some (hd lst))"

definition tclist_tail :: "'a list \<Rightarrow> 'a option" where
  "tclist_tail lst = (if lst = [] then None else Some (last lst))"

text \<open>With a comparison that is equality on the list, deleting removes the first occurrence.\<close>

lemma find_item_eq:
  "\<forall>x\<in>set xs. cmp x = Some (x = p) \<Longrightarrow>
   list_find_item cmp xs = Some (if p \<in> set xs then Some (length (takeWhile (\<lambda>x. x \<noteq> p) xs)) else None)"
  by (induction xs) auto

lemma remove1_takeWhile:
  "p \<in> set xs \<Longrightarrow> take (length (takeWhile (\<lambda>x. x \<noteq> p) xs)) xs @
     drop (Suc (length (takeWhile (\<lambda>x. x \<noteq> p) xs))) xs = remove1 p xs"
  by (induction xs) auto

lemma tclist_delete_eq:
  "\<forall>x\<in>set xs. cmp x = Some (x = p) \<Longrightarrow> tclist_delete cmp xs = Some (p \<in> set xs, remove1 p xs)"
  using find_item_eq [of xs cmp p] by (simp add: tclist_delete_def remove1_takeWhile remove1_idem)

text \<open>A comparison without a result on an item that is reached leaves the deletion without one.\<close>

lemma tclist_delete_stuck: "cmp x = None \<Longrightarrow> tclist_delete cmp (x # xs) = None"
  by (simp add: tclist_delete_def)

end
