(* ===== verification/Sysio_Obj.thy ===== *)
theory Sysio_Obj imports Storage_Db Posix_Files Tclist "HOL-Library.Monad_Syntax" begin

section \<open>Objects as files\<close>

text \<open>
  \<^verbatim>\<open>server/storage_server/sysio_obj.c\<close>: an object is a file named after its id; a hash
  table has an element for each object, and the elements of the objects whose files may be open
  are also in the list of open files. Table and list hold pointers to the same elements, so the
  elements are in a store (\<open>oid_els\<close>, from addresses), and following a pointer to an element
  that was freed or never initialised has no defined result (\<open>None\<close>). Addresses are not reused.
\<close>

text \<open>For evaluation, a bind is a case distinction, whose branches wait for its argument.\<close>

lemma bind_case [code_unfold]: "Option.bind m f = (case m of None \<Rightarrow> None | Some x \<Rightarrow> f x)"
  by (cases m) auto

subsection \<open>Data\<close>

record oid_el =
  el_fd :: int
  el_id :: lwfs_oid
  el_mode :: string \<comment> \<open>\<^verbatim>\<open>char mode[3]\<close>\<close>

record ('os, 'd) sysio_env =
  posix_of :: "'os posix"
  ssdb_of :: "'d ssdb_env"

record ('os, 'd) sysio_state =
  oid_hash :: "(lwfs_oid, nat) mt_hashtable"
  open_files_list :: "nat list"
  oid_els :: "nat \<rightharpoonup> oid_el"
  next_el :: nat
  sysio_root :: string
  os_st :: 'os
  attr_db :: 'd

record lwfs_attr =
  attr_name :: string
  attr_value :: "u8 list"

definition MAX_OPEN_FILES :: int where "MAX_OPEN_FILES = 1024 - 10"
definition MAX_HASHTABLE :: u32 where "MAX_HASHTABLE = 100"
definition MAX_ROOT_LEN :: nat where "MAX_ROOT_LEN = 256"

definition deref :: "('os, 'd) sysio_state \<Rightarrow> nat \<Rightarrow> oid_el option" where
  "deref st p = oid_els st p"

definition set_el :: "nat \<Rightarrow> oid_el \<Rightarrow> ('os, 'd) sysio_state \<Rightarrow> ('os, 'd) sysio_state" where
  "set_el p el st = st\<lparr>oid_els := (oid_els st)(p \<mapsto> el)\<rparr>"

subsection \<open>Names of files\<close>

definition hex_digit :: "nat \<Rightarrow> char" where
  "hex_digit n = (if n < 10 then char_of (48 + n) else char_of (55 + n))"

text \<open>\<^verbatim>\<open>%08X\<close>\<close>

definition hex8 :: "u32 \<Rightarrow> string" where
  "hex8 w = map (\<lambda>i. hex_digit (unat (drop_bit (28 - 4 * i) w AND 15))) [0..<8]"

definition lwfs_oid_to_string :: "lwfs_oid \<Rightarrow> string" where
  "lwfs_oid_to_string oid = concat (map (\<lambda>j. hex8 (ucast (drop_bit (32 * j) oid))) [0..<4])"

lemma lwfs_oid_to_string_code [code]:
  "lwfs_oid_to_string oid =
     (if 0 \<le> uint oid then concat (map (\<lambda>j. hex8 (ucast (drop_bit (32 * j) oid))) [0..<4]) else [])"
  by (simp add: lwfs_oid_to_string_def)

definition hex_val :: "char \<Rightarrow> nat option" where
  "hex_val c = (let n = of_char c in
     if 48 \<le> n \<and> n \<le> 57 then Some (n - 48)
     else if 65 \<le> n \<and> n \<le> 70 then Some (n - 55)
     else if 97 \<le> n \<and> n \<le> 102 then Some (n - 87) else None)"

fun hex_word :: "string \<Rightarrow> u32 \<Rightarrow> u32 option" where
  "hex_word [] w = Some w"
| "hex_word (c # cs) w = (case hex_val c of None \<Rightarrow> None | Some n \<Rightarrow> hex_word cs (push_bit 4 w OR of_nat n))"

text \<open>
  \<^verbatim>\<open>sscanf\<close> fills the four words from 32 hexadecimal digits. For any other string the id
  is left partly uninitialised, or is read in another way, and is not modelled (\<open>None\<close>).
\<close>

definition lwfs_string_to_oid :: "string \<Rightarrow> lwfs_oid option" where
  "lwfs_string_to_oid ostr =
     (if length ostr < 32 then None
      else do {
        w0 \<leftarrow> hex_word (take 8 ostr) 0;
        w1 \<leftarrow> hex_word (take 8 (drop 8 ostr)) 0;
        w2 \<leftarrow> hex_word (take 8 (drop 16 ostr)) 0;
        w3 \<leftarrow> hex_word (take 8 (drop 24 ostr)) 0;
        Some (ucast w0 OR push_bit 32 (ucast w1) OR push_bit 64 (ucast w2) OR push_bit 96 (ucast w3)) })"

text \<open>\<open>snprintf(file_name, n, PATH_STR, root, ...)\<close>: the buffer has 64 bytes, in \<open>open_oid\<close> 256.\<close>

definition oid_path :: "nat \<Rightarrow> string \<Rightarrow> lwfs_oid \<Rightarrow> string" where
  "oid_path n rt oid = snprintf n (rt @ ''/0x'' @ lwfs_oid_to_string oid)"

subsection \<open>The table of objects\<close>

definition oid_hash_func :: "lwfs_oid \<Rightarrow> u32" where
  "oid_hash_func oid = RSHash (le_bytes 16 oid)"

lemma oid_hash_func_code [code]:
  "oid_hash_func oid = (if 0 \<le> uint oid then RSHash (le_bytes 16 oid) else 0)"
  by (simp add: oid_hash_func_def)

definition compare_oids :: "lwfs_oid \<Rightarrow> lwfs_oid \<Rightarrow> bool" where
  "compare_oids = (=)"

text \<open>
  The two allocations of \<open>add_oid\<close>: when only the first fails, the pointer to the element is
  returned although the element was not initialised. The result of the insertion is ignored.
\<close>

definition new_el :: "lwfs_oid \<Rightarrow> oid_el" where
  "new_el oid = \<lparr>el_fd = 0, el_id = oid, el_mode = [CHR 0x00, CHR 0x00, CHR 0x00]\<rparr>"

definition add_oid ::
  "('os, 'd) sysio_env \<Rightarrow> ('os, 'd) sysio_state \<Rightarrow> lwfs_oid \<Rightarrow> (nat option \<times> ('os, 'd) sysio_state) option" where
  "add_oid S st oid =
     (let (ok1, os) = os_malloc (posix_of S) (os_st st); (ok2, os) = os_malloc (posix_of S) os; p = next_el st;
          st = st\<lparr>os_st := os, next_el := p + 1\<rparr> in
      if \<not> ok1 \<or> \<not> ok2 then Some (if ok2 then Some p else None, st)
      else let (mem, os) = os_ht_mem (posix_of S) os; st = set_el p (new_el oid) (st\<lparr>os_st := os\<rparr>) in do {
        (rc, t) \<leftarrow> mt_hashtable_insert mem (oid_hash st) oid p;
        Some (Some p, st\<lparr>oid_hash := t\<rparr>) })"

definition find_oid ::
  "('os, 'd) sysio_state \<Rightarrow> lwfs_oid \<Rightarrow> (nat option \<times> ('os, 'd) sysio_state) option" where
  "find_oid st oid = do {
     (r, t) \<leftarrow> mt_hashtable_search (oid_hash st) oid;
     Some (r, st\<lparr>oid_hash := t\<rparr>) }"

subsection \<open>The list of open files\<close>

text \<open>The elements are compared byte by byte; the padding byte is cleared at their creation.\<close>

definition compare_oid_els :: "('os, 'd) sysio_state \<Rightarrow> nat \<Rightarrow> nat \<Rightarrow> bool option" where
  "compare_oid_els st a b = do { x \<leftarrow> deref st a; y \<leftarrow> deref st b; Some (x = y) }"

definition close_the_open_file ::
  "('os, 'd) sysio_env \<Rightarrow> ('os, 'd) sysio_state \<Rightarrow> nat \<Rightarrow> ('os, 'd) sysio_state option" where
  "close_the_open_file S st p = do {
     el \<leftarrow> deref st p;
     if el_fd el = 0 then Some st
     else let (rc, os) = os_close (posix_of S) (os_st st) (el_fd el); st = st\<lparr>os_st := os\<rparr> in
       if rc = -1 then Some st
       else Some (set_el p (el\<lparr>el_fd := 0, el_mode := (el_mode el)[0 := CHR 0x00]\<rparr>) st) }"

definition remove_from_open_files ::
  "('os, 'd) sysio_env \<Rightarrow> ('os, 'd) sysio_state \<Rightarrow> nat \<Rightarrow> ('os, 'd) sysio_state option" where
  "remove_from_open_files S st p = do {
     (r, l) \<leftarrow> tclist_delete (compare_oid_els st p) (open_files_list st);
     close_the_open_file S (st\<lparr>open_files_list := l\<rparr>) p }"

text \<open>The last step logs the id of the element.\<close>

definition add_to_open_files ::
  "('os, 'd) sysio_env \<Rightarrow> ('os, 'd) sysio_state \<Rightarrow> nat \<Rightarrow> ('os, 'd) sysio_state option" where
  "add_to_open_files S st p =
     (let open_files_count = int (tclist_items (open_files_list st)) in
      if open_files_count > MAX_OPEN_FILES then Some st
      else do {
        st \<leftarrow> (if open_files_count = MAX_OPEN_FILES
               then (case tclist_tail (open_files_list st) of
                   None \<Rightarrow> None
                 | Some q \<Rightarrow> remove_from_open_files S st q)
               else Some st);
        let (ok, os) = os_malloc (posix_of S) (os_st st) in
        let (rc, l) = tclist_unshift ok (open_files_list st) p in do {
        el \<leftarrow> deref st p;
        Some (st\<lparr>os_st := os, open_files_list := l\<rparr>) } })"

text \<open>
  A failed \<^verbatim>\<open>open\<close> leaves -1 in the element, which later calls take for an open file.
\<close>

definition open_oid ::
  "('os, 'd) sysio_env \<Rightarrow> ('os, 'd) sysio_state \<Rightarrow> lwfs_oid \<Rightarrow> (nat option \<times> ('os, 'd) sysio_state) option" where
  "open_oid S st oid = do {
     (r, st) \<leftarrow> find_oid st oid;
     case r of
       None \<Rightarrow> Some (None, st)
     | Some p \<Rightarrow> do {
         el \<leftarrow> deref st p;
         if el_fd el \<noteq> 0 then Some (Some p, st)
         else let (f, os) = os_open (posix_of S) (os_st st) (oid_path 256 (sysio_root st) oid);
                  st = set_el p (el\<lparr>el_fd := f\<rparr>) (st\<lparr>os_st := os\<rparr>) in
           if f < 0 then Some (None, st)
           else do {
             st \<leftarrow> add_to_open_files S (set_el p (el\<lparr>el_fd := f, el_mode := ''r+'' @ [CHR 0x00]\<rparr>) st) p;
             Some (Some p, st) } } }"

definition remove_oid ::
  "('os, 'd) sysio_env \<Rightarrow> ('os, 'd) sysio_state \<Rightarrow> lwfs_oid \<Rightarrow> (bool \<times> ('os, 'd) sysio_state) option" where
  "remove_oid S st oid = do {
     (r, t) \<leftarrow> mt_hashtable_remove (oid_hash st) oid;
     let st = st\<lparr>oid_hash := t\<rparr> in
     case r of
       None \<Rightarrow> Some (False, st)
     | Some p \<Rightarrow> do {
         el \<leftarrow> deref st p;
         st \<leftarrow> (if el_fd el \<noteq> 0 then remove_from_open_files S st p else Some st);
         Some (True, st\<lparr>oid_els := (oid_els st)(p := None)\<rparr>) } }"

definition can_read_file :: "string \<Rightarrow> bool" where
  "can_read_file m = (if m ! 0 = CHR ''r'' then True
     else if m ! 0 = CHR ''w'' \<or> m ! 0 = CHR ''a'' then m ! 1 = CHR ''+'' else False)"

definition can_write_file :: "string \<Rightarrow> bool" where
  "can_write_file m = (if m ! 0 = CHR ''r'' then m ! 1 = CHR ''+''
     else if m ! 0 = CHR ''w'' then True else False)"

text \<open>The open files are closed from the end of the list; one step removes one item.\<close>

partial_function (option) close_files ::
  "('os, 'd) sysio_env \<Rightarrow> ('os, 'd) sysio_state \<Rightarrow> ('os, 'd) sysio_state option" where
  "close_files S st =
     (case tclist_tail (open_files_list st) of
        None \<Rightarrow> Some st
      | Some el \<Rightarrow> do { st \<leftarrow> remove_from_open_files S st el; close_files S st })"

declare close_files.simps [code]

definition close_all_open_files ::
  "('os, 'd) sysio_env \<Rightarrow> ('os, 'd) sysio_state \<Rightarrow> ('os, 'd) sysio_state option" where
  "close_all_open_files S st = do {
     (open_file_count, t) \<leftarrow> mt_hashtable_count (oid_hash st);
     let st = st\<lparr>oid_hash := t\<rparr> in
     if open_file_count = 0 then Some st else close_files S st }"

definition remove_obj_by_oid ::
  "('os, 'd) sysio_env \<Rightarrow> ('os, 'd) sysio_state \<Rightarrow> lwfs_oid \<Rightarrow>
     (lwfs_return_code \<times> ('os, 'd) sysio_state) option" where
  "remove_obj_by_oid S st oid = do {
     (ok, st) \<leftarrow> remove_oid S st oid;
     if \<not> ok then Some (LWFS_OK, st)
     else let (rc, os) = os_remove (posix_of S) (os_st st) (oid_path 64 (sysio_root st) oid); st = st\<lparr>os_st := os\<rparr> in
       Some (if rc \<noteq> 0 then LWFS_ERR_STORAGE else LWFS_OK, st) }"

subsection \<open>Creating and removing objects\<close>

definition sysio_obj_exists ::
  "('os, 'd) sysio_state \<Rightarrow> lwfs_obj \<Rightarrow> (bool \<times> ('os, 'd) sysio_state) option" where
  "sysio_obj_exists st ob = do {
     (r, st) \<leftarrow> find_oid st (obj_oid ob);
     Some (r \<noteq> None, st) }"

definition sysio_obj_create ::
  "('os, 'd) sysio_env \<Rightarrow> ('os, 'd) sysio_state \<Rightarrow> lwfs_obj \<Rightarrow>
     (lwfs_return_code \<times> ('os, 'd) sysio_state) option" where
  "sysio_obj_create S st ob =
     (let file_name = oid_path 64 (sysio_root st) (obj_oid ob) in
      if os_access (posix_of S) (os_st st) file_name then Some (LWFS_ERR_EXIST, st)
      else let (f, os) = os_creat (posix_of S) (os_st st) file_name in
        if f = -1 then Some (LWFS_ERR_STORAGE, st\<lparr>os_st := os\<rparr>)
        else let (rc, os) = os_close (posix_of S) os f; st = st\<lparr>os_st := os\<rparr> in
          if rc = -1 then Some (LWFS_ERR_STORAGE, st)
          else do {
            (r, st) \<leftarrow> add_oid S st (obj_oid ob);
            case r of
              None \<Rightarrow> Some (LWFS_ERR_STORAGE, st)
            | Some p \<Rightarrow> do {
                el \<leftarrow> deref st p;
                st \<leftarrow> add_to_open_files S (set_el p (el\<lparr>el_mode := (el_mode el)[0 := CHR 0x00]\<rparr>) st) p;
                Some (LWFS_OK, st) } })"

subsection \<open>Attributes\<close>

text \<open>
  \<open>fill_attr\<close> is \<^verbatim>\<open>strcpy(attr.name, ...)\<close> and \<^verbatim>\<open>memcpy(attr.value, ...)\<close> into
  the arrays of an entry, without a check of their bounds.
\<close>

definition fill_attr :: "lwfs_oid \<Rightarrow> string \<Rightarrow> u8 list \<Rightarrow> ss_db_attr_entry option" where
  "fill_attr oid name value =
     (if length (c_str name) \<ge> LWFS_NAME_LEN \<or> int (length value) > LWFS_ATTR_SIZE then None
      else Some \<lparr>a_oid = oid, a_name = c_str name, a_value = value, a_size = of_nat (length value)\<rparr>)"

text \<open>The copies of an entry for the reply, two allocations each.\<close>

definition copy_attr ::
  "('os, 'd) sysio_env \<Rightarrow> ('os, 'd) sysio_state \<Rightarrow> ss_db_attr_entry \<Rightarrow>
     (lwfs_attr \<times> ('os, 'd) sysio_state) option" where
  "copy_attr S st attr =
     (let (ok, os) = os_calloc (posix_of S) (os_st st) 2 in
      if \<not> ok \<or> unat (a_size attr) > length (a_value attr) then None
      else Some (\<lparr>attr_name = a_name attr, attr_value = take (unat (a_size attr)) (a_value attr)\<rparr>, st\<lparr>os_st := os\<rparr>))"

definition sysio_obj_listattrs ::
  "('os, 'd) sysio_env \<Rightarrow> ('os, 'd) sysio_state \<Rightarrow> lwfs_obj \<Rightarrow>
     (lwfs_return_code \<times> string list \<times> ('os, 'd) sysio_state) option" where
  "sysio_obj_listattrs S st ob =
     (let count = (case ss_db_get_attr_count (ssdb_of S) (attr_db st) (obj_oid ob) of Inl rc \<Rightarrow> 0 | Inr n \<Rightarrow> n);
          (ok, os) = os_calloc (posix_of S) (os_st st) (count + 1); st = st\<lparr>os_st := os\<rparr> in
      if \<not> ok then None
      else do {
        r \<leftarrow> ss_db_get_all_attr_names_by_oid (ssdb_of S) (attr_db st) (obj_oid ob) count;
        case r of
          Inl rc \<Rightarrow> Some (rc, replicate count '''', st)
        | Inr names \<Rightarrow> Some (LWFS_OK, names @ replicate (count - length names) '''', st) })"

text \<open>The attributes that were read; after a failure the array of the source goes on with cleared entries, which are not sent
  to a client.\<close>

fun sysio_obj_getattrs ::
  "('os, 'd) sysio_env \<Rightarrow> ('os, 'd) sysio_state \<Rightarrow> lwfs_obj \<Rightarrow> string list \<Rightarrow>
     (lwfs_return_code \<times> lwfs_attr list \<times> ('os, 'd) sysio_state) option" where
  "sysio_obj_getattrs S st ob [] = Some (LWFS_OK, [], st)"
| "sysio_obj_getattrs S st ob (name # names) =
     (case ss_db_get_attr_by_name (ssdb_of S) (attr_db st) (obj_oid ob) name of
        Inl rc \<Rightarrow> Some (rc, [], st)
      | Inr attr \<Rightarrow> do {
          (a, st) \<leftarrow> copy_attr S st attr;
          (rc, as, st) \<leftarrow> sysio_obj_getattrs S st ob names;
          Some (rc, a # as, st) })"

definition put_attr ::
  "('os, 'd) sysio_env \<Rightarrow> ('os, 'd) sysio_state \<Rightarrow> lwfs_oid \<Rightarrow> string \<Rightarrow> u8 list \<Rightarrow>
     (lwfs_return_code \<times> ('os, 'd) sysio_state) option" where
  "put_attr S st oid name value = do {
     attr \<leftarrow> fill_attr oid name value;
     let (rc, d) = ss_db_attr_put (ssdb_of S) (attr_db st) attr False in
     Some (rc, st\<lparr>attr_db := d\<rparr>) }"

fun sysio_obj_setattrs ::
  "('os, 'd) sysio_env \<Rightarrow> ('os, 'd) sysio_state \<Rightarrow> lwfs_obj \<Rightarrow> lwfs_attr list \<Rightarrow>
     (lwfs_return_code \<times> ('os, 'd) sysio_state) option" where
  "sysio_obj_setattrs S st ob [] = Some (LWFS_OK, st)"
| "sysio_obj_setattrs S st ob (a # as) = do {
     (rc, st) \<leftarrow> put_attr S st (obj_oid ob) (attr_name a) (attr_value a);
     if rc \<noteq> LWFS_OK then Some (rc, st) else sysio_obj_setattrs S st ob as }"

fun sysio_obj_rmattrs ::
  "('os, 'd) sysio_env \<Rightarrow> ('os, 'd) sysio_state \<Rightarrow> lwfs_obj \<Rightarrow> string list \<Rightarrow>
     lwfs_return_code \<times> ('os, 'd) sysio_state" where
  "sysio_obj_rmattrs S st ob [] = (LWFS_OK, st)"
| "sysio_obj_rmattrs S st ob (name # names) =
     (let (rc, d) = ss_db_attr_del (ssdb_of S) (attr_db st) (obj_oid ob) name; st = st\<lparr>attr_db := d\<rparr> in
      if rc \<noteq> LWFS_OK then (rc, st) else sysio_obj_rmattrs S st ob names)"

definition sysio_obj_getattr ::
  "('os, 'd) sysio_env \<Rightarrow> ('os, 'd) sysio_state \<Rightarrow> lwfs_obj \<Rightarrow> string \<Rightarrow>
     ((lwfs_return_code + lwfs_attr) \<times> ('os, 'd) sysio_state) option" where
  "sysio_obj_getattr S st ob name =
     (case ss_db_get_attr_by_name (ssdb_of S) (attr_db st) (obj_oid ob) name of
        Inl rc \<Rightarrow> Some (Inl rc, st)
      | Inr attr \<Rightarrow> map_option (map_prod Inr id) (copy_attr S st attr))"

definition sysio_obj_setattr ::
  "('os, 'd) sysio_env \<Rightarrow> ('os, 'd) sysio_state \<Rightarrow> lwfs_obj \<Rightarrow> string \<Rightarrow> u8 list \<Rightarrow>
     (lwfs_return_code \<times> ('os, 'd) sysio_state) option" where
  "sysio_obj_setattr S st ob name value = put_attr S st (obj_oid ob) name value"

definition sysio_obj_rmattr ::
  "('os, 'd) sysio_env \<Rightarrow> ('os, 'd) sysio_state \<Rightarrow> lwfs_obj \<Rightarrow> string \<Rightarrow>
     lwfs_return_code \<times> ('os, 'd) sysio_state" where
  "sysio_obj_rmattr S st ob name =
     (let (rc, d) = ss_db_attr_del (ssdb_of S) (attr_db st) (obj_oid ob) name in (rc, st\<lparr>attr_db := d\<rparr>))"

text \<open>Removing an object: its element and file first, then its attributes.\<close>

definition sysio_obj_remove ::
  "('os, 'd) sysio_env \<Rightarrow> ('os, 'd) sysio_state \<Rightarrow> lwfs_obj \<Rightarrow>
     (lwfs_return_code \<times> ('os, 'd) sysio_state) option" where
  "sysio_obj_remove S st ob = do {
     (rc, st) \<leftarrow> remove_obj_by_oid S st (obj_oid ob);
     if rc \<noteq> LWFS_OK then Some (rc, st)
     else do {
       (rc, attr_names, st) \<leftarrow> sysio_obj_listattrs S st ob;
       if rc = LWFS_ERR_NOENT then Some (LWFS_OK, st)
       else if rc \<noteq> LWFS_OK then Some (rc, st)
       else Some (sysio_obj_rmattrs S st ob attr_names) } }"

subsection \<open>Reading and writing\<close>

text \<open>
  The second opening in \<open>sysio_obj_read\<close> and \<open>sysio_obj_write\<close>, through the buffer of 64 bytes;
  the result is whether there is a descriptor.
\<close>

definition reopen ::
  "('os, 'd) sysio_env \<Rightarrow> ('os, 'd) sysio_state \<Rightarrow> nat \<Rightarrow> lwfs_oid \<Rightarrow> (int \<Rightarrow> bool) \<Rightarrow>
     (bool \<times> ('os, 'd) sysio_state) option" where
  "reopen S st p oid failed = do {
     el \<leftarrow> deref st p;
     if el_fd el \<noteq> 0 then Some (True, st)
     else let (f, os) = os_open (posix_of S) (os_st st) (oid_path 64 (sysio_root st) oid);
              st = set_el p (el\<lparr>el_fd := f\<rparr>) (st\<lparr>os_st := os\<rparr>) in
       if failed f then Some (False, st)
       else do {
         st \<leftarrow> add_to_open_files S (set_el p (el\<lparr>el_fd := f, el_mode := ''r+'' @ [CHR 0x00]\<rparr>) st) p;
         Some (True, st) } }"

text \<open>
  \<open>sysio_obj_read\<close> returns a count and the bytes it left in \<open>dest\<close>. A failed \<^verbatim>\<open>lseek\<close> is
  reported as \<^verbatim>\<open>LWFS_ERR\<close>, which is 1, and every other failure as 0.
\<close>

definition sysio_obj_read ::
  "('os, 'd) sysio_env \<Rightarrow> ('os, 'd) sysio_state \<Rightarrow> lwfs_obj \<Rightarrow> u64 \<Rightarrow> u64 \<Rightarrow>
     (u64 \<times> u8 list \<times> ('os, 'd) sysio_state) option" where
  "sysio_obj_read S st ob src_offset len = do {
     (r, st) \<leftarrow> open_oid S st (obj_oid ob);
     case r of
       None \<Rightarrow> Some (0, [], st)
     | Some p \<Rightarrow> do {
         el \<leftarrow> deref st p;
         st \<leftarrow> (if el_fd el \<noteq> 0 \<and> \<not> can_read_file (el_mode el) then remove_from_open_files S st p else Some st);
         (ok, st) \<leftarrow> reopen S st p (obj_oid ob) (\<lambda>f. f = -1);
         if \<not> ok then Some (0, [], st)
         else do {
           el \<leftarrow> deref st p;
           let (off, os) = os_lseek (posix_of S) (os_st st) (el_fd el) src_offset; st = st\<lparr>os_st := os\<rparr> in
           if off = -1 then Some (1, [], st)
           else if len > 0 then
             (let (bytes, os) = os_read (posix_of S) (os_st st) (el_fd el) len; st = st\<lparr>os_st := os\<rparr> in
              case bytes of
                None \<Rightarrow> Some (0, [], st)
              | Some bs \<Rightarrow> Some (of_nat (length bs), bs, st))
           else Some (0, [], st) } } }"

text \<open>
  \<open>sysio_obj_write\<close> returns a count and whether it has freed \<open>src\<close>. When the object cannot be
  opened it logs the id of the element it does not have.
\<close>

definition sysio_obj_write ::
  "('os, 'd) sysio_env \<Rightarrow> ('os, 'd) sysio_state \<Rightarrow> lwfs_obj \<Rightarrow> u64 \<Rightarrow> u8 list \<Rightarrow> u64 \<Rightarrow>
     (u64 \<times> bool \<times> ('os, 'd) sysio_state) option" where
  "sysio_obj_write S st ob dest_offset src len = do {
     (r, st) \<leftarrow> open_oid S st (obj_oid ob);
     case r of
       None \<Rightarrow> None
     | Some p \<Rightarrow> do {
         el \<leftarrow> deref st p;
         st \<leftarrow> (if el_fd el \<noteq> 0 \<and> \<not> can_write_file (el_mode el) then remove_from_open_files S st p else Some st);
         (ok, st) \<leftarrow> reopen S st p (el_id el) (\<lambda>f. f < 0);
         if \<not> ok then Some (0, False, st)
         else do {
           el \<leftarrow> deref st p;
           let (off, os) = os_lseek (posix_of S) (os_st st) (el_fd el) dest_offset; st = st\<lparr>os_st := os\<rparr> in
           if off = -1 then Some (0, True, st)
           else if len > 0 then
             (let (n, os) = os_write (posix_of S) (os_st st) (el_fd el) src in
              Some (of_int n, True, st\<lparr>os_st := os\<rparr>))
           else Some (0, True, st) } } }"

definition sysio_obj_fsync ::
  "('os, 'd) sysio_env \<Rightarrow> ('os, 'd) sysio_state \<Rightarrow> lwfs_obj \<Rightarrow>
     (lwfs_return_code \<times> ('os, 'd) sysio_state) option" where
  "sysio_obj_fsync S st ob = do {
     (r, st) \<leftarrow> open_oid S st (obj_oid ob);
     case r of
       None \<Rightarrow> Some (LWFS_ERR_STORAGE, st)
     | Some p \<Rightarrow> do {
         el \<leftarrow> deref st p;
         let (rc, os) = os_fsync (posix_of S) (os_st st) (el_fd el) in
         Some (if rc = -1 then LWFS_ERR_STORAGE else LWFS_OK, st\<lparr>os_st := os\<rparr>) } }"

text \<open>The result structure is filled (\<open>Some\<close>) only when the file could be opened and examined.\<close>

definition sysio_obj_stat ::
  "('os, 'd) sysio_env \<Rightarrow> ('os, 'd) sysio_state \<Rightarrow> lwfs_obj \<Rightarrow>
     (lwfs_return_code \<times> lwfs_stat_data option \<times> ('os, 'd) sysio_state) option" where
  "sysio_obj_stat S st ob = do {
     (r, st) \<leftarrow> open_oid S st (obj_oid ob);
     case r of
       None \<Rightarrow> Some (LWFS_OK, None, st)
     | Some p \<Rightarrow> do {
         el \<leftarrow> deref st p;
         case os_fstat (posix_of S) (os_st st) (el_fd el) of
           None \<Rightarrow> Some (LWFS_ERR, None, st)
         | Some ps \<Rightarrow> Some (LWFS_OK, Some \<lparr>atime = \<lparr>seconds = ps_atime ps, nseconds = 0\<rparr>,
             mtime = \<lparr>seconds = ps_mtime ps, nseconds = 0\<rparr>, ctime = \<lparr>seconds = ps_ctime ps, nseconds = 0\<rparr>,
             st_size = ps_size ps\<rparr>, st) } }"

text \<open>The result is 1 when the file was truncated and 0 otherwise.\<close>

definition sysio_obj_trunc ::
  "('os, 'd) sysio_env \<Rightarrow> ('os, 'd) sysio_state \<Rightarrow> lwfs_obj \<Rightarrow> u64 \<Rightarrow>
     (int \<times> ('os, 'd) sysio_state) option" where
  "sysio_obj_trunc S st ob sz = do {
     (r, st) \<leftarrow> open_oid S st (obj_oid ob);
     case r of
       None \<Rightarrow> Some (0, st)
     | Some p \<Rightarrow> do {
         el \<leftarrow> deref st p;
         let (rc, os) = os_ftruncate (posix_of S) (os_st st) (el_fd el) sz; st = st\<lparr>os_st := os\<rparr> in
         Some (if rc = -1 then 0 else 1, st) } }"

definition sysio_obj_getfd ::
  "('os, 'd) sysio_env \<Rightarrow> ('os, 'd) sysio_state \<Rightarrow> lwfs_obj \<Rightarrow> (int \<times> ('os, 'd) sysio_state) option" where
  "sysio_obj_getfd S st ob = do {
     (r, st) \<leftarrow> open_oid S st (obj_oid ob);
     case r of
       None \<Rightarrow> Some (-1, st)
     | Some p \<Rightarrow> do { el \<leftarrow> deref st p; Some (el_fd el, st) } }"

subsection \<open>Starting and stopping\<close>

text \<open>
  The files of an earlier run become objects again. The loop ends with the directory, or at a
  file it cannot access through the 64 bytes of its buffer. \<open>have_table\<close> is whether the hash
  table could be created: the code goes on without it, with a table of zeros whose hash
  function is a null pointer.
\<close>

fun repopulate_loop ::
  "('os, 'd) sysio_env \<Rightarrow> bool \<Rightarrow> ('os, 'd) sysio_state \<Rightarrow> string list \<Rightarrow>
     (lwfs_return_code \<times> ('os, 'd) sysio_state) option" where
  "repopulate_loop S have_table st [] = Some (LWFS_OK, st)"
| "repopulate_loop S have_table st (dname # dents) =
     (if dname = ''.'' \<or> dname = ''..'' then repopulate_loop S have_table st dents
      else if \<not> os_access (posix_of S) (os_st st) (snprintf 64 (sysio_root st @ ''/'' @ dname))
      then Some (LWFS_ERR_NO_OBJ, st)
      else
        let (ok1, os) = os_malloc (posix_of S) (os_st st); (ok2, os) = os_malloc (posix_of S) os;
            p = next_el st; st = st\<lparr>os_st := os, next_el := p + 1\<rparr> in
        if \<not> ok1 \<or> \<not> ok2 then repopulate_loop S have_table st dents
        else if \<not> have_table then None
        else do {
          oid \<leftarrow> lwfs_string_to_oid (drop 2 dname);
          let (mem, os) = os_ht_mem (posix_of S) os; st = set_el p (new_el oid) (st\<lparr>os_st := os\<rparr>) in do {
          (rc, t) \<leftarrow> mt_hashtable_insert mem (oid_hash st) oid p;
          repopulate_loop S have_table (st\<lparr>oid_hash := t\<rparr>) dents } })"

definition repopulate_oid_hashtable ::
  "('os, 'd) sysio_env \<Rightarrow> bool \<Rightarrow> ('os, 'd) sysio_state \<Rightarrow> (lwfs_return_code \<times> ('os, 'd) sysio_state) option" where
  "repopulate_oid_hashtable S have_table st = do {
     dents \<leftarrow> os_readdir (posix_of S) (os_st st) (sysio_root st);
     repopulate_loop S have_table st dents }"

text \<open>
  A root of 256 bytes or more would leave \<open>root\<close> without a terminator. The result has a state
  only on success: the server stops otherwise.
\<close>

definition zero_hashtable :: "(lwfs_oid, nat) mt_hashtable" where
  "zero_hashtable = \<lparr>mt_table = \<lparr>tablelength = 0, table = [], entrycount = 0, loadlimit = 0, primeindex = 0,
     hashfn = (\<lambda>k. 0), eqfn = compare_oids\<rparr>, mt_locked = False\<rparr>"

definition sysio_obj_init ::
  "('os, 'd) sysio_env \<Rightarrow> 'os \<Rightarrow> 'd \<Rightarrow> string \<Rightarrow> (lwfs_return_code \<times> ('os, 'd) sysio_state option) option" where
  "sysio_obj_init S os d root_dir =
     (if length root_dir \<ge> MAX_ROOT_LEN then None
      else let (mk, os) = os_mkdir (posix_of S) os root_dir in
        if mk = MKDIR_FAILED then Some (LWFS_ERR_STORAGE, None)
        else let (ok, os) = os_malloc (posix_of S) os;
                 t = create_mt_hashtable ok MAX_HASHTABLE oid_hash_func compare_oids in do {
          (rc, st) \<leftarrow> repopulate_oid_hashtable S (t \<noteq> None)
            \<lparr>oid_hash = (case t of None \<Rightarrow> zero_hashtable | Some t \<Rightarrow> t), open_files_list = [],
              oid_els = (\<lambda>p. None), next_el = 0, sysio_root = root_dir, os_st = os, attr_db = d\<rparr>;
          let (ok, os) = os_malloc (posix_of S) (os_st st) in
          Some (if t = None \<or> rc \<noteq> LWFS_OK \<or> \<not> ok then (LWFS_ERR, None)
                else (LWFS_OK, Some (st\<lparr>os_st := os\<rparr>))) })"

text \<open>The values of the table are the elements, which are freed; a null iterator is followed.\<close>

definition sysio_obj_fini ::
  "('os, 'd) sysio_env \<Rightarrow> ('os, 'd) sysio_state \<Rightarrow> (lwfs_return_code \<times> 'os) option" where
  "sysio_obj_fini S st = do {
     st \<leftarrow> close_all_open_files S st;
     let (itr_malloc, os) = os_malloc (posix_of S) (os_st st) in do {
     freed \<leftarrow> mt_hashtable_destroy itr_malloc (oid_hash st) True;
     if \<exists>p\<in>set freed. deref st p = None then None else Some (LWFS_OK, os) } }"

end
