(* ===== verification/Oid_Names.thy ===== *)
theory Oid_Names imports Sysio_Obj begin

section \<open>Object ids as file names\<close>

text \<open>
  The printed form of an object id can be read back, so different objects have different
  files, as long as the root directory leaves room for the 35 characters in the buffer of 64.
\<close>

lemma hex_val_digit: "n < 16 \<Longrightarrow> hex_val (hex_digit n) = Some n"
  by (auto simp: hex_val_def hex_digit_def Let_def)

lemma of_nat_nibble: "word_of_nat (unat (w AND 15)) = (w AND 15 :: u32)"
  by simp

lemma nibble_less: "unat (w AND 15 :: u32) < 16"
proof -
  have "w AND 15 \<le> 15" by (rule word_and_le1)
  then show ?thesis by (simp add: word_le_nat_alt)
qed

lemma nibble_join:
  "push_bit (4 * n) (drop_bit (4 * n) w AND 15) OR take_bit (4 * n) w = take_bit (4 * Suc n) (w :: u32)"
proof -
  have mask: "(15 :: u32) = mask 4" by (simp add: mask_eq_exp_minus_1)
  show ?thesis unfolding mask by (rule bit_word_eqI) (auto simp: bit_simps)
qed

lemma hex_word_nibbles:
  "hex_word (map (\<lambda>i. hex_digit (unat (drop_bit (4 * (n - 1 - i)) w AND 15))) [0..<n]) a =
   Some (push_bit (4 * n) a OR take_bit (4 * n) w)"
proof (induction n arbitrary: a)
  case (Suc n)
  have list: "map (\<lambda>i. hex_digit (unat (drop_bit (4 * (Suc n - 1 - i)) w AND 15))) [0..<Suc n] =
      hex_digit (unat (drop_bit (4 * n) w AND 15)) #
      map (\<lambda>i. hex_digit (unat (drop_bit (4 * (n - 1 - i)) w AND 15))) [0..<n]"
    by (subst upt_conv_Cons) (simp_all add: map_Suc_upt [symmetric] del: upt_Suc)
  have "push_bit (4 * n) (push_bit 4 a OR (drop_bit (4 * n) w AND 15)) OR take_bit (4 * n) w =
      push_bit (4 * Suc n) a OR take_bit (4 * Suc n) w"
    unfolding nibble_join [symmetric] by (simp add: push_bit_or or.assoc add.commute)
  moreover have "hex_word (hex_digit (unat (drop_bit (4 * n) w AND 15)) # xs) a =
      hex_word xs (push_bit 4 a OR (drop_bit (4 * n) w AND 15))" for xs
    using hex_val_digit [OF nibble_less] by simp
  ultimately show ?case unfolding list by (simp only: Suc.IH)
qed simp

lemma hex_word_hex8: "hex_word (hex8 w) 0 = Some w"
proof -
  have "hex8 w = map (\<lambda>i. hex_digit (unat (drop_bit (4 * (8 - 1 - i)) w AND 15))) [0..<8]"
    unfolding hex8_def by (rule map_cong) (auto simp: diff_mult_distrib2)
  then show ?thesis using hex_word_nibbles [of 8 w 0] by (simp add: take_bit_word_eq_self)
qed

lemma length_hex8 [simp]: "length (hex8 w) = 8"
  by (simp add: hex8_def)

lemma oid_string_parts:
  "lwfs_oid_to_string oid = hex8 (ucast oid) @ hex8 (ucast (drop_bit 32 oid)) @
     hex8 (ucast (drop_bit 64 oid)) @ hex8 (ucast (drop_bit 96 oid))"
  by (simp add: lwfs_oid_to_string_def eval_nat_numeral)

lemma length_oid_string [simp]: "length (lwfs_oid_to_string oid) = 32"
  by (simp add: oid_string_parts)

lemma join_words:
  "ucast (ucast oid :: u32) OR push_bit 32 (ucast (ucast (drop_bit 32 oid) :: u32)) OR
   push_bit 64 (ucast (ucast (drop_bit 64 oid) :: u32)) OR
   push_bit 96 (ucast (ucast (drop_bit 96 oid) :: u32)) = (oid :: lwfs_oid)"
proof (rule bit_word_eqI)
  fix n :: nat
  consider "n < 32" | "32 \<le> n" "n < 64" | "64 \<le> n" "n < 96" | "96 \<le> n" by linarith
  then show "n < LENGTH(128) \<Longrightarrow> bit (ucast (ucast oid :: u32) OR push_bit 32 (ucast (ucast (drop_bit 32 oid) :: u32)) OR
      push_bit 64 (ucast (ucast (drop_bit 64 oid) :: u32)) OR
      push_bit 96 (ucast (ucast (drop_bit 96 oid) :: u32)) :: lwfs_oid) n = bit oid n"
    by cases (auto simp: bit_simps)
qed

lemma oid_string_roundtrip: "lwfs_string_to_oid (lwfs_oid_to_string oid) = Some oid"
  by (simp add: lwfs_string_to_oid_def oid_string_parts hex_word_hex8 join_words)

lemma oid_string_inject: "lwfs_oid_to_string a = lwfs_oid_to_string b \<longleftrightarrow> a = b"
  by (metis oid_string_roundtrip option.inject)

definition short_root :: "string \<Rightarrow> bool" where
  "short_root rt \<longleftrightarrow> length rt \<le> 28"

lemma oid_path_short: "short_root rt \<Longrightarrow> 64 \<le> n \<Longrightarrow> oid_path n rt oid = rt @ ''/0x'' @ lwfs_oid_to_string oid"
  by (simp add: oid_path_def snprintf_def short_root_def)

lemma oid_path_inject: "short_root rt \<Longrightarrow> oid_path 64 rt a = oid_path 64 rt b \<longleftrightarrow> a = b"
  by (simp add: oid_path_short oid_string_inject)

text \<open>A longer root cuts the name short, and objects share files.\<close>

lemma oid_path_collides:
  "61 \<le> length rt \<Longrightarrow> oid_path 64 rt a = oid_path 64 rt b"
  by (cases "length rt - 61") (auto simp: oid_path_def snprintf_def take_Cons split: nat.splits)

end
