(* ===== verification/Storage_Server.thy ===== *)
theory Storage_Server imports Sysio_Obj begin

section \<open>The storage server\<close>

text \<open>
  The handlers of \<^verbatim>\<open>server/storage_server/storage_server.c\<close>. They reach the object
  library through a structure of function pointers, \<open>obj_funcs\<close>; a null pointer is \<open>None\<close>, and
  calling it has no defined result. A handler gets the outcome of its transfer to or from the
  client's memory and of its own allocation as arguments, and is written over the state \<open>'s\<close> of
  any object library. The counters of the statistics, which no operation reads, are \<^verbatim>\<open>long\<close> in C and
  have no bound here.
\<close>

subsection \<open>The object library\<close>

type_synonym 's obj_op = "'s \<Rightarrow> lwfs_obj \<Rightarrow> (lwfs_return_code \<times> 's) option"

record 's obj_funcs =
  of_exists :: "('s \<Rightarrow> lwfs_obj \<Rightarrow> (bool \<times> 's) option) option"
  of_create :: "'s obj_op option"
  of_remove :: "'s obj_op option"
  of_read :: "('s \<Rightarrow> lwfs_obj \<Rightarrow> u64 \<Rightarrow> u64 \<Rightarrow> (u64 \<times> u8 list \<times> 's) option) option"
  of_write :: "('s \<Rightarrow> lwfs_obj \<Rightarrow> u64 \<Rightarrow> u8 list \<Rightarrow> u64 \<Rightarrow> (u64 \<times> bool \<times> 's) option) option"
  of_listattrs :: "('s \<Rightarrow> lwfs_obj \<Rightarrow> (lwfs_return_code \<times> string list \<times> 's) option) option"
  of_getattrs :: "('s \<Rightarrow> lwfs_obj \<Rightarrow> string list \<Rightarrow> (lwfs_return_code \<times> lwfs_attr list \<times> 's) option) option"
  of_setattrs :: "('s \<Rightarrow> lwfs_obj \<Rightarrow> lwfs_attr list \<Rightarrow> (lwfs_return_code \<times> 's) option) option"
  of_rmattrs :: "('s \<Rightarrow> lwfs_obj \<Rightarrow> string list \<Rightarrow> (lwfs_return_code \<times> 's) option) option"
  of_getattr :: "('s \<Rightarrow> lwfs_obj \<Rightarrow> string \<Rightarrow> ((lwfs_return_code + lwfs_attr) \<times> 's) option) option"
  of_setattr :: "('s \<Rightarrow> lwfs_obj \<Rightarrow> string \<Rightarrow> u8 list \<Rightarrow> (lwfs_return_code \<times> 's) option) option"
  of_rmattr :: "('s \<Rightarrow> lwfs_obj \<Rightarrow> string \<Rightarrow> (lwfs_return_code \<times> 's) option) option"
  of_stat :: "('s \<Rightarrow> lwfs_obj \<Rightarrow> (lwfs_return_code \<times> lwfs_stat_data option \<times> 's) option) option"
  of_fsync :: "'s obj_op option"
  of_trunc :: "('s \<Rightarrow> lwfs_obj \<Rightarrow> u64 \<Rightarrow> (int \<times> 's) option) option"

definition sysio_obj_funcs :: "('os, 'd) sysio_env \<Rightarrow> ('os, 'd) sysio_state obj_funcs" where
  "sysio_obj_funcs S = \<lparr>
     of_exists = Some sysio_obj_exists, of_create = Some (sysio_obj_create S),
     of_remove = Some (sysio_obj_remove S), of_read = Some (sysio_obj_read S),
     of_write = Some (sysio_obj_write S), of_listattrs = Some (sysio_obj_listattrs S),
     of_getattrs = Some (sysio_obj_getattrs S), of_setattrs = Some (sysio_obj_setattrs S),
     of_rmattrs = Some (\<lambda>st ob names. Some (sysio_obj_rmattrs S st ob names)),
     of_getattr = Some (sysio_obj_getattr S), of_setattr = Some (sysio_obj_setattr S),
     of_rmattr = Some (\<lambda>st ob name. Some (sysio_obj_rmattr S st ob name)),
     of_stat = Some (sysio_obj_stat S), of_fsync = Some (sysio_obj_fsync S),
     of_trunc = Some (sysio_obj_trunc S)\<rparr>"

record ss_counter =
  n_create_obj :: int
  n_remove_obj :: int
  n_read :: int
  n_write :: int
  n_fsync :: int
  n_listattrs :: int
  n_getattrs :: int
  n_setattrs :: int
  n_rmattrs :: int
  n_listattr :: int
  n_getattr :: int
  n_setattr :: int
  n_rmattr :: int
  n_stat :: int
  n_trunc :: int

record 's ss_state =
  ss_lib :: 's
  ss_funcs :: "'s obj_funcs"
  ss_counts :: ss_counter

text \<open>\<open>ss_verify\<close> is \<^verbatim>\<open>lwfs_verify_caps_sync\<close> at the authorization service.\<close>

type_synonym ss_verify = "lwfs_cap list \<Rightarrow> lwfs_return_code"

definition in_lib :: "'s ss_state \<Rightarrow> ('a \<times> 's) option \<Rightarrow> ('a \<times> 's ss_state) option" where
  "in_lib st r = map_option (\<lambda>(a, s). (a, st\<lparr>ss_lib := s\<rparr>)) r"

subsection \<open>Checking a capability\<close>

text \<open>The comparison of the container ids is commented out in the source.\<close>

definition ss_verify_cap ::
  "ss_verify \<Rightarrow> lwfs_cap \<Rightarrow> lwfs_obj option \<Rightarrow> lwfs_container_op \<Rightarrow> lwfs_return_code" where
  "ss_verify_cap V cap ob op =
     (if op = 0 then LWFS_ERR
      else if op AND container_op (cap_data cap) \<noteq> op then LWFS_ERR_ACCESS
      else V [cap])"

text \<open>
  What every handler on an existing object does first: the object must exist, and then the
  capability is checked.
\<close>

definition checked ::
  "ss_verify \<Rightarrow> 's ss_state \<Rightarrow> lwfs_obj \<Rightarrow> lwfs_cap \<Rightarrow> lwfs_container_op \<Rightarrow>
     (lwfs_return_code \<times> 's ss_state) option" where
  "checked V st ob cap op = do {
     f \<leftarrow> of_exists (ss_funcs st);
     (found, st) \<leftarrow> in_lib st (f (ss_lib st) ob);
     Some (if \<not> found then LWFS_ERR_NO_OBJ else ss_verify_cap V cap (Some ob) op, st) }"

subsection \<open>Handlers\<close>

definition ss_create_obj ::
  "ss_verify \<Rightarrow> 's ss_state \<Rightarrow> lwfs_obj \<Rightarrow> lwfs_cap \<Rightarrow> (lwfs_return_code \<times> 's ss_state) option" where
  "ss_create_obj V st ob cap =
     (let st = st\<lparr>ss_counts := (ss_counts st)\<lparr>n_create_obj := n_create_obj (ss_counts st) + 1\<rparr>\<rparr>;
          rc = ss_verify_cap V cap None LWFS_CONTAINER_WRITE in
      if rc \<noteq> LWFS_OK then Some (rc, st)
      else do {
        f \<leftarrow> of_create (ss_funcs st);
        (rc, st) \<leftarrow> in_lib st (f (ss_lib st) ob);
        if rc \<noteq> LWFS_OK then Some (rc, st)
        else do {
          g \<leftarrow> of_setattr (ss_funcs st);
          (rc, st) \<leftarrow> in_lib st (g (ss_lib st) ob ''_lwfs_cid'' (le_bytes 8 (cid (cap_data cap))));
          Some (if rc \<noteq> LWFS_OK then LWFS_ERR_STORAGE else LWFS_OK, st) } })"

definition ss_remove_obj ::
  "ss_verify \<Rightarrow> 's ss_state \<Rightarrow> lwfs_obj \<Rightarrow> lwfs_cap \<Rightarrow> (lwfs_return_code \<times> 's ss_state) option" where
  "ss_remove_obj V st ob cap = do {
     (rc, st) \<leftarrow> checked V (st\<lparr>ss_counts := (ss_counts st)\<lparr>n_remove_obj := n_remove_obj (ss_counts st) + 1\<rparr>\<rparr>)
       ob cap LWFS_CONTAINER_WRITE;
     if rc \<noteq> LWFS_OK then Some (rc, st)
     else do {
       f \<leftarrow> of_remove (ss_funcs st);
       in_lib st (f (ss_lib st) ob) } }"

text \<open>
  The bytes sent to the client are \<open>None\<close> where the buffer was not written. The count is kept in
  32 bits; \<open>sent_rc\<close> is what \<^verbatim>\<open>lwfs_put_data\<close> returns. The result is the code, the value
  of \<^verbatim>\<open>*res\<close> when it is set, and the bytes sent.
\<close>

definition ss_read ::
  "ss_verify \<Rightarrow> 's ss_state \<Rightarrow> lwfs_obj \<Rightarrow> u64 \<Rightarrow> u64 \<Rightarrow> lwfs_cap \<Rightarrow> bool \<Rightarrow> lwfs_return_code \<Rightarrow>
     ((lwfs_return_code \<times> u64 option \<times> u8 option list) \<times> 's ss_state) option" where
  "ss_read V st ob src_offset len cap buf_malloc sent_rc = do {
     (rc, st) \<leftarrow> checked V (st\<lparr>ss_counts := (ss_counts st)\<lparr>n_read := n_read (ss_counts st) + 1\<rparr>\<rparr>)
       ob cap LWFS_CONTAINER_READ;
     if rc \<noteq> LWFS_OK then Some ((rc, None, []), st)
     else if len \<noteq> 0 \<and> \<not> buf_malloc then Some ((LWFS_ERR_NOSPACE, None, []), st)
     else do {
       f \<leftarrow> of_read (ss_funcs st);
       (n, bs, s) \<leftarrow> f (ss_lib st) ob src_offset len;
       let st = st\<lparr>ss_lib := s\<rparr>; count = (ucast n :: u32) in
       if count = -1 then Some ((LWFS_ERR_STORAGE, Some 0, []), st)
       else if count > 0 then
         (if ucast count > len then None
          else Some ((sent_rc, Some (ucast count),
            map Some (take (unat count) bs) @ replicate (unat count - length bs) None), st))
       else Some ((LWFS_OK, Some 0, []), st) } }"

text \<open>
  \<open>got\<close> is what \<^verbatim>\<open>lwfs_get_data\<close> does: an error, or \<open>len\<close> bytes in the buffer, which is
  null when it could not be allocated. The write function frees the buffer, and the handler
  frees it again when fewer bytes were written.
\<close>

definition ss_write ::
  "ss_verify \<Rightarrow> 's ss_state \<Rightarrow> lwfs_obj \<Rightarrow> u64 \<Rightarrow> u64 \<Rightarrow> lwfs_cap \<Rightarrow> bool \<Rightarrow> lwfs_return_code + u8 list \<Rightarrow>
     (lwfs_return_code \<times> 's ss_state) option" where
  "ss_write V st ob dest_offset len cap buf_malloc got = do {
     (rc, st) \<leftarrow> checked V (st\<lparr>ss_counts := (ss_counts st)\<lparr>n_write := n_write (ss_counts st) + 1\<rparr>\<rparr>)
       ob cap LWFS_CONTAINER_WRITE;
     if rc \<noteq> LWFS_OK then Some (rc, st)
     else if \<not> buf_malloc \<and> len \<noteq> 0 then None
     else (case got of
         Inl rc \<Rightarrow> Some (rc, st)
       | Inr buf \<Rightarrow> do {
           f \<leftarrow> of_write (ss_funcs st);
           (bytes_written, freed, s) \<leftarrow> f (ss_lib st) ob dest_offset buf len;
           let st = st\<lparr>ss_lib := s\<rparr> in
           if bytes_written = len then Some (LWFS_OK, st)
           else if freed then None
           else Some (LWFS_ERR_STORAGE, st) }) }"

definition ss_fsync ::
  "ss_verify \<Rightarrow> 's ss_state \<Rightarrow> lwfs_obj \<Rightarrow> lwfs_cap \<Rightarrow> (lwfs_return_code \<times> 's ss_state) option" where
  "ss_fsync V st ob cap = do {
     (rc, st) \<leftarrow> checked V (st\<lparr>ss_counts := (ss_counts st)\<lparr>n_fsync := n_fsync (ss_counts st) + 1\<rparr>\<rparr>)
       ob cap LWFS_CONTAINER_WRITE;
     if rc \<noteq> LWFS_OK then Some (rc, st)
     else do {
       f \<leftarrow> of_fsync (ss_funcs st);
       in_lib st (f (ss_lib st) ob) } }"

text \<open>The handlers of the attributes report every failure of the library as \<^verbatim>\<open>LWFS_ERR_STORAGE\<close>.\<close>

definition storage_rc :: "lwfs_return_code \<Rightarrow> lwfs_return_code" where
  "storage_rc rc = (if rc \<noteq> LWFS_OK then LWFS_ERR_STORAGE else LWFS_OK)"

definition ss_listattrs ::
  "ss_verify \<Rightarrow> 's ss_state \<Rightarrow> lwfs_obj \<Rightarrow> lwfs_cap \<Rightarrow>
     ((lwfs_return_code \<times> string list) \<times> 's ss_state) option" where
  "ss_listattrs V st ob cap =
     (let st = st\<lparr>ss_counts := (ss_counts st)\<lparr>n_listattrs := n_listattrs (ss_counts st) + 1\<rparr>\<rparr> in
      case of_listattrs (ss_funcs st) of
        None \<Rightarrow> Some ((LWFS_ERR_NOTSUPP, []), st)
      | Some f \<Rightarrow> do {
          (rc, st) \<leftarrow> checked V st ob cap LWFS_CONTAINER_READ;
          if rc \<noteq> LWFS_OK then Some ((rc, []), st)
          else do {
            (rc, names, s) \<leftarrow> f (ss_lib st) ob;
            Some ((storage_rc rc, names), st\<lparr>ss_lib := s\<rparr>) } })"

definition ss_getattrs ::
  "ss_verify \<Rightarrow> 's ss_state \<Rightarrow> lwfs_obj \<Rightarrow> string list \<Rightarrow> lwfs_cap \<Rightarrow>
     ((lwfs_return_code \<times> lwfs_attr list) \<times> 's ss_state) option" where
  "ss_getattrs V st ob names cap =
     (let st = st\<lparr>ss_counts := (ss_counts st)\<lparr>n_getattrs := n_getattrs (ss_counts st) + 1\<rparr>\<rparr> in
      case of_getattrs (ss_funcs st) of
        None \<Rightarrow> Some ((LWFS_ERR_NOTSUPP, []), st)
      | Some f \<Rightarrow> do {
          (rc, st) \<leftarrow> checked V st ob cap LWFS_CONTAINER_READ;
          if rc \<noteq> LWFS_OK then Some ((rc, []), st)
          else do {
            (rc, attrs, s) \<leftarrow> f (ss_lib st) ob names;
            Some ((storage_rc rc, attrs), st\<lparr>ss_lib := s\<rparr>) } })"

definition ss_setattrs ::
  "ss_verify \<Rightarrow> 's ss_state \<Rightarrow> lwfs_obj \<Rightarrow> lwfs_attr list \<Rightarrow> lwfs_cap \<Rightarrow>
     (lwfs_return_code \<times> 's ss_state) option" where
  "ss_setattrs V st ob attrs cap =
     (let st = st\<lparr>ss_counts := (ss_counts st)\<lparr>n_setattrs := n_setattrs (ss_counts st) + 1\<rparr>\<rparr> in
      case of_setattrs (ss_funcs st) of
        None \<Rightarrow> Some (LWFS_ERR_NOTSUPP, st)
      | Some f \<Rightarrow> do {
          (rc, st) \<leftarrow> checked V st ob cap LWFS_CONTAINER_WRITE;
          if rc \<noteq> LWFS_OK then Some (rc, st)
          else do {
            (rc, s) \<leftarrow> f (ss_lib st) ob attrs;
            Some (storage_rc rc, st\<lparr>ss_lib := s\<rparr>) } })"

text \<open>The two removals of attributes ask for the right to read.\<close>

definition ss_rmattrs ::
  "ss_verify \<Rightarrow> 's ss_state \<Rightarrow> lwfs_obj \<Rightarrow> string list \<Rightarrow> lwfs_cap \<Rightarrow>
     (lwfs_return_code \<times> 's ss_state) option" where
  "ss_rmattrs V st ob names cap =
     (let st = st\<lparr>ss_counts := (ss_counts st)\<lparr>n_rmattrs := n_rmattrs (ss_counts st) + 1\<rparr>\<rparr> in
      case of_rmattrs (ss_funcs st) of
        None \<Rightarrow> Some (LWFS_ERR_NOTSUPP, st)
      | Some f \<Rightarrow> do {
          (rc, st) \<leftarrow> checked V st ob cap LWFS_CONTAINER_READ;
          if rc \<noteq> LWFS_OK then Some (rc, st)
          else do {
            (rc, s) \<leftarrow> f (ss_lib st) ob names;
            Some (storage_rc rc, st\<lparr>ss_lib := s\<rparr>) } })"

definition ss_getattr ::
  "ss_verify \<Rightarrow> 's ss_state \<Rightarrow> lwfs_obj \<Rightarrow> string \<Rightarrow> lwfs_cap \<Rightarrow>
     ((lwfs_return_code + lwfs_attr) \<times> 's ss_state) option" where
  "ss_getattr V st ob name cap =
     (let st = st\<lparr>ss_counts := (ss_counts st)\<lparr>n_getattr := n_getattr (ss_counts st) + 1\<rparr>\<rparr> in
      case of_getattr (ss_funcs st) of
        None \<Rightarrow> Some (Inl LWFS_ERR_NOTSUPP, st)
      | Some f \<Rightarrow> do {
          (rc, st) \<leftarrow> checked V st ob cap LWFS_CONTAINER_READ;
          if rc \<noteq> LWFS_OK then Some (Inl rc, st)
          else do {
            (r, s) \<leftarrow> f (ss_lib st) ob name;
            Some (case r of Inl rc \<Rightarrow> Inl LWFS_ERR_STORAGE | Inr a \<Rightarrow> Inr a, st\<lparr>ss_lib := s\<rparr>) } })"

definition ss_setattr ::
  "ss_verify \<Rightarrow> 's ss_state \<Rightarrow> lwfs_obj \<Rightarrow> lwfs_attr \<Rightarrow> lwfs_cap \<Rightarrow>
     (lwfs_return_code \<times> 's ss_state) option" where
  "ss_setattr V st ob attr cap =
     (let st = st\<lparr>ss_counts := (ss_counts st)\<lparr>n_setattr := n_setattr (ss_counts st) + 1\<rparr>\<rparr> in
      case of_setattr (ss_funcs st) of
        None \<Rightarrow> Some (LWFS_ERR_NOTSUPP, st)
      | Some f \<Rightarrow> do {
          (rc, st) \<leftarrow> checked V st ob cap LWFS_CONTAINER_WRITE;
          if rc \<noteq> LWFS_OK then Some (rc, st)
          else do {
            (rc, s) \<leftarrow> f (ss_lib st) ob (attr_name attr) (attr_value attr);
            Some (storage_rc rc, st\<lparr>ss_lib := s\<rparr>) } })"

definition ss_rmattr ::
  "ss_verify \<Rightarrow> 's ss_state \<Rightarrow> lwfs_obj \<Rightarrow> string \<Rightarrow> lwfs_cap \<Rightarrow>
     (lwfs_return_code \<times> 's ss_state) option" where
  "ss_rmattr V st ob name cap =
     (let st = st\<lparr>ss_counts := (ss_counts st)\<lparr>n_rmattr := n_rmattr (ss_counts st) + 1\<rparr>\<rparr> in
      case of_rmattr (ss_funcs st) of
        None \<Rightarrow> Some (LWFS_ERR_NOTSUPP, st)
      | Some f \<Rightarrow> do {
          (rc, st) \<leftarrow> checked V st ob cap LWFS_CONTAINER_READ;
          if rc \<noteq> LWFS_OK then Some (rc, st)
          else do {
            (rc, s) \<leftarrow> f (ss_lib st) ob name;
            Some (storage_rc rc, st\<lparr>ss_lib := s\<rparr>) } })"

definition ss_stat ::
  "ss_verify \<Rightarrow> 's ss_state \<Rightarrow> lwfs_obj \<Rightarrow> lwfs_cap \<Rightarrow>
     ((lwfs_return_code \<times> lwfs_stat_data option) \<times> 's ss_state) option" where
  "ss_stat V st ob cap =
     (let st = st\<lparr>ss_counts := (ss_counts st)\<lparr>n_stat := n_stat (ss_counts st) + 1\<rparr>\<rparr> in
      case of_stat (ss_funcs st) of
        None \<Rightarrow> Some ((LWFS_ERR_NOTSUPP, None), st)
      | Some f \<Rightarrow> do {
          (rc, st) \<leftarrow> checked V st ob cap LWFS_CONTAINER_READ;
          if rc \<noteq> LWFS_OK then Some ((rc, None), st)
          else do {
            (rc, res, s) \<leftarrow> f (ss_lib st) ob;
            Some ((storage_rc rc, res), st\<lparr>ss_lib := s\<rparr>) } })"

definition ss_truncate ::
  "ss_verify \<Rightarrow> 's ss_state \<Rightarrow> lwfs_obj \<Rightarrow> u64 \<Rightarrow> lwfs_cap \<Rightarrow> (lwfs_return_code \<times> 's ss_state) option" where
  "ss_truncate V st ob sz cap = do {
     (rc, st) \<leftarrow> checked V (st\<lparr>ss_counts := (ss_counts st)\<lparr>n_trunc := n_trunc (ss_counts st) + 1\<rparr>\<rparr>)
       ob cap LWFS_CONTAINER_WRITE;
     if rc \<noteq> LWFS_OK then Some (rc, st)
     else do {
       f \<leftarrow> of_trunc (ss_funcs st);
       (rc, st) \<leftarrow> in_lib st (f (ss_lib st) ob sz);
       Some (if rc \<noteq> 0 then LWFS_ERR_STORAGE else LWFS_OK, st) } }"

subsection \<open>Requests\<close>

text \<open>The operations of \<^verbatim>\<open>_op_array\<close>, with what their clients' memory does.\<close>

datatype ss_request =
    SS_Create lwfs_obj lwfs_cap
  | SS_Remove lwfs_obj lwfs_cap
  | SS_Read lwfs_obj u64 u64 lwfs_cap bool lwfs_return_code
  | SS_Write lwfs_obj u64 u64 lwfs_cap bool "lwfs_return_code + u8 list"
  | SS_Fsync lwfs_obj lwfs_cap
  | SS_Listattrs lwfs_obj lwfs_cap
  | SS_Getattrs lwfs_obj "string list" lwfs_cap
  | SS_Setattrs lwfs_obj "lwfs_attr list" lwfs_cap
  | SS_Rmattrs lwfs_obj "string list" lwfs_cap
  | SS_Getattr lwfs_obj string lwfs_cap
  | SS_Setattr lwfs_obj lwfs_attr lwfs_cap
  | SS_Rmattr lwfs_obj string lwfs_cap
  | SS_Stat lwfs_obj lwfs_cap
  | SS_Truncate lwfs_obj u64 lwfs_cap

datatype ss_response =
    Rc_Response lwfs_return_code
  | Read_Response lwfs_return_code "u64 option" "u8 option list"
  | Names_Response lwfs_return_code "string list"
  | Attrs_Response lwfs_return_code "lwfs_attr list"
  | Attr_Response "lwfs_return_code + lwfs_attr"
  | Obj_Stat_Response lwfs_return_code "lwfs_stat_data option"

fun ss_dispatch ::
  "ss_verify \<Rightarrow> 's ss_state \<Rightarrow> ss_request \<Rightarrow> (ss_response \<times> 's ss_state) option" where
  "ss_dispatch V st (SS_Create ob cap) = map_option (map_prod Rc_Response id) (ss_create_obj V st ob cap)"
| "ss_dispatch V st (SS_Remove ob cap) = map_option (map_prod Rc_Response id) (ss_remove_obj V st ob cap)"
| "ss_dispatch V st (SS_Read ob off len cap bm prc) =
     map_option (map_prod (\<lambda>(rc, res, sent). Read_Response rc res sent) id) (ss_read V st ob off len cap bm prc)"
| "ss_dispatch V st (SS_Write ob off len cap bm got) =
     map_option (map_prod Rc_Response id) (ss_write V st ob off len cap bm got)"
| "ss_dispatch V st (SS_Fsync ob cap) = map_option (map_prod Rc_Response id) (ss_fsync V st ob cap)"
| "ss_dispatch V st (SS_Listattrs ob cap) =
     map_option (map_prod (\<lambda>(rc, ns). Names_Response rc ns) id) (ss_listattrs V st ob cap)"
| "ss_dispatch V st (SS_Getattrs ob ns cap) =
     map_option (map_prod (\<lambda>(rc, as). Attrs_Response rc as) id) (ss_getattrs V st ob ns cap)"
| "ss_dispatch V st (SS_Setattrs ob as cap) = map_option (map_prod Rc_Response id) (ss_setattrs V st ob as cap)"
| "ss_dispatch V st (SS_Rmattrs ob ns cap) = map_option (map_prod Rc_Response id) (ss_rmattrs V st ob ns cap)"
| "ss_dispatch V st (SS_Getattr ob n cap) = map_option (map_prod Attr_Response id) (ss_getattr V st ob n cap)"
| "ss_dispatch V st (SS_Setattr ob a cap) = map_option (map_prod Rc_Response id) (ss_setattr V st ob a cap)"
| "ss_dispatch V st (SS_Rmattr ob n cap) = map_option (map_prod Rc_Response id) (ss_rmattr V st ob n cap)"
| "ss_dispatch V st (SS_Stat ob cap) =
     map_option (map_prod (\<lambda>(rc, res). Obj_Stat_Response rc res) id) (ss_stat V st ob cap)"
| "ss_dispatch V st (SS_Truncate ob sz cap) = map_option (map_prod Rc_Response id) (ss_truncate V st ob sz cap)"

end
