(* ===== verification/Sysio_Inv.thy ===== *)
theory Sysio_Inv imports Oid_Names Storage_Server begin

section \<open>Objects are files of bytes\<close>

text \<open>
  \<open>sysio_ok\<close>: the table has one element for each object, the elements agree with the files, and a
  descriptor in an element is open on the object's file. Every operation keeps it, and acts on
  \<open>objects\<close>, the map from object ids to contents, as its name says. The operations that open a
  file need room in the list of open files (\<open>open_room\<close>); what happens without it is shown in
  \<open>Storage_Properties\<close>. The list itself is not part of the invariant: removing an object can leave
  the freed element in it.
\<close>

subsection \<open>The invariant\<close>

abbreviation obj_path :: "string \<Rightarrow> lwfs_oid \<Rightarrow> string" where
  "obj_path \<equiv> oid_path 64"

definition el_ok :: "files \<Rightarrow> string \<Rightarrow> oid_el \<Rightarrow> bool" where
  "el_ok Fs rt el \<longleftrightarrow> (el_fd el \<noteq> 0 \<longrightarrow> el_fd el > 0 \<and> el_mode el = ''r+'' @ [CHR 0x00] \<and>
     (\<exists>ino n. f_names Fs (obj_path rt (el_id el)) = Some ino \<and> f_fds Fs (el_fd el) = Some (ino, n)))"

definition sysio_ok :: "('os \<Rightarrow> files) \<Rightarrow> ('os, 'd) sysio_state \<Rightarrow> bool" where
  "sysio_ok F st \<longleftrightarrow> short_root (sysio_root st) \<and> mt.single (oid_hash st) \<and>
     (\<forall>oid p. mt.lookup (oid_hash st) oid = Some p \<longrightarrow>
        (\<exists>el. oid_els st p = Some el \<and> el_id el = oid)) \<and>
     (\<forall>p el. oid_els st p = Some el \<longrightarrow> mt.lookup (oid_hash st) (el_id el) = Some p \<and> p < next_el st \<and>
        el_ok (F (os_st st)) (sysio_root st) el) \<and>
     (\<forall>oid. mt.lookup (oid_hash st) oid \<noteq> None \<longleftrightarrow>
        f_names (F (os_st st)) (obj_path (sysio_root st) oid) \<noteq> None) \<and>
     inj_on (f_names (F (os_st st))) (dom (f_names (F (os_st st)))) \<and>
     (\<forall>p q e e'. oid_els st p = Some e \<longrightarrow> oid_els st q = Some e' \<longrightarrow> el_fd e = el_fd e' \<longrightarrow>
        el_fd e \<noteq> 0 \<longrightarrow> p = q)"

definition objects :: "('os \<Rightarrow> files) \<Rightarrow> ('os, 'd) sysio_state \<Rightarrow> lwfs_oid \<Rightarrow> u8 list option" where
  "objects F st oid =
     map_option (f_data (F (os_st st))) (f_names (F (os_st st)) (obj_path (sysio_root st) oid))"

definition open_room :: "('os, 'd) sysio_state \<Rightarrow> bool" where
  "open_room st \<longleftrightarrow> int (length (open_files_list st)) < MAX_OPEN_FILES"

lemma same_fields [simp]:
  "st\<lparr>oid_hash := oid_hash st\<rparr> = st" "st\<lparr>attr_db := attr_db st\<rparr> = st" "st\<lparr>os_st := os_st st\<rparr> = st"
  for st :: "('os, 'd) sysio_state"
  by (cases st; simp)+

lemma sysio_okD:
  assumes "sysio_ok F st"
  shows "short_root (sysio_root st)" "mt.single (oid_hash st)"
    "mt.lookup (oid_hash st) oid = Some p \<Longrightarrow> \<exists>el. oid_els st p = Some el \<and> el_id el = oid"
    "oid_els st p = Some el \<Longrightarrow> mt.lookup (oid_hash st) (el_id el) = Some p \<and> p < next_el st \<and>
        el_ok (F (os_st st)) (sysio_root st) el"
    "mt.lookup (oid_hash st) oid \<noteq> None \<longleftrightarrow> objects F st oid \<noteq> None"
    "inj_on (f_names (F (os_st st))) (dom (f_names (F (os_st st))))"
    "oid_els st p = Some e \<Longrightarrow> oid_els st q = Some e' \<Longrightarrow> el_fd e = el_fd e' \<Longrightarrow> el_fd e \<noteq> 0 \<Longrightarrow> p = q"
proof -
  note ok = assms [unfolded sysio_ok_def]
  show "short_root (sysio_root st)" "mt.single (oid_hash st)"
    "inj_on (f_names (F (os_st st))) (dom (f_names (F (os_st st))))" using ok by blast+
  show "mt.lookup (oid_hash st) oid = Some p \<Longrightarrow> \<exists>el. oid_els st p = Some el \<and> el_id el = oid"
    using ok by blast
  show "oid_els st p = Some el \<Longrightarrow> mt.lookup (oid_hash st) (el_id el) = Some p \<and> p < next_el st \<and>
        el_ok (F (os_st st)) (sysio_root st) el" using ok by blast
  have "mt.lookup (oid_hash st) oid \<noteq> None \<longleftrightarrow> f_names (F (os_st st)) (obj_path (sysio_root st) oid) \<noteq> None"
    using ok by blast
  then show "mt.lookup (oid_hash st) oid \<noteq> None \<longleftrightarrow> objects F st oid \<noteq> None" by (simp add: objects_def)
  show "oid_els st p = Some e \<Longrightarrow> oid_els st q = Some e' \<Longrightarrow> el_fd e = el_fd e' \<Longrightarrow> el_fd e \<noteq> 0 \<Longrightarrow> p = q"
    using ok by blast
qed

lemma sysio_okI:
  assumes "short_root (sysio_root st)" "mt.single (oid_hash st)"
    "\<And>oid p. mt.lookup (oid_hash st) oid = Some p \<Longrightarrow> \<exists>el. oid_els st p = Some el \<and> el_id el = oid"
    "\<And>p el. oid_els st p = Some el \<Longrightarrow> mt.lookup (oid_hash st) (el_id el) = Some p \<and> p < next_el st"
    "\<And>p el. oid_els st p = Some el \<Longrightarrow> el_ok (F (os_st st)) (sysio_root st) el"
    "\<And>oid. mt.lookup (oid_hash st) oid \<noteq> None \<longleftrightarrow> objects F st oid \<noteq> None"
    "inj_on (f_names (F (os_st st))) (dom (f_names (F (os_st st))))"
    "\<And>p q e e'. oid_els st p = Some e \<Longrightarrow> oid_els st q = Some e' \<Longrightarrow> el_fd e = el_fd e' \<Longrightarrow>
      el_fd e \<noteq> 0 \<Longrightarrow> p = q"
  shows "sysio_ok F st"
proof -
  have "\<forall>oid. mt.lookup (oid_hash st) oid \<noteq> None \<longleftrightarrow> f_names (F (os_st st)) (obj_path (sysio_root st) oid) \<noteq> None"
    using assms(6) by (simp add: objects_def)
  then show ?thesis
    unfolding sysio_ok_def using assms(1-5,7,8) by (intro conjI allI impI) (assumption | blast)+
qed

text \<open>What keeps the invariant: the same elements, and descriptors on the same files.\<close>

lemma ok_same_elements:
  assumes ok: "sysio_ok F st"
    and same: "oid_hash st' = oid_hash st" "oid_els st' = oid_els st" "next_el st' = next_el st"
      "sysio_root st' = sysio_root st"
    and names: "f_names (F (os_st st')) = f_names (F (os_st st))"
    and fds: "\<And>fd. map_option fst (f_fds (F (os_st st')) fd) = map_option fst (f_fds (F (os_st st)) fd)"
  shows "sysio_ok F st'"
proof -
  have "el_ok (F (os_st st)) rt el \<Longrightarrow> el_ok (F (os_st st')) rt el" for rt el
    using fds [of "el_fd el"] by (force simp: el_ok_def names)
  with ok show ?thesis unfolding sysio_ok_def by (simp add: same names)
qed

context posix_files begin

lemma find_ok: "sysio_ok F st \<Longrightarrow> find_oid st oid = Some (mt.lookup (oid_hash st) oid, st)"
  by (simp add: find_oid_def mt.find_single [OF sysio_okD(2)])

lemma add_open:
  assumes "open_room st" "oid_els st p \<noteq> None" "posix_of S = P"
  shows "\<exists>os'. add_to_open_files S st p = Some (st\<lparr>os_st := os', open_files_list := p # open_files_list st\<rparr>) \<and>
    F os' = F (os_st st)"
proof -
  obtain os' where os': "os_malloc P (os_st st) = (True, os')" "F os' = F (os_st st)" using malloc_ok by blast
  then show ?thesis
    using assms by (auto simp: add_to_open_files_def open_room_def tclist_items_def tclist_unshift_def deref_def Let_def)
qed

text \<open>An opened object: its element has a descriptor on its file.\<close>

definition has_fd :: "('os, 'd) sysio_state \<Rightarrow> nat \<Rightarrow> lwfs_oid \<Rightarrow> int \<Rightarrow> nat \<Rightarrow> nat \<Rightarrow> bool" where
  "has_fd st p oid f ino n \<longleftrightarrow> oid_els st p = Some \<lparr>el_fd = f, el_id = oid, el_mode = ''r+'' @ [CHR 0x00]\<rparr> \<and>
     f > 0 \<and> f_names (F (os_st st)) (obj_path (sysio_root st) oid) = Some ino \<and>
     f_fds (F (os_st st)) f = Some (ino, n)"

definition same_data :: "('os, 'd) sysio_state \<Rightarrow> ('os, 'd) sysio_state \<Rightarrow> bool" where
  "same_data st st' \<longleftrightarrow> oid_hash st' = oid_hash st \<and> attr_db st' = attr_db st \<and> sysio_root st' = sysio_root st \<and>
     f_names (F (os_st st')) = f_names (F (os_st st)) \<and> f_data (F (os_st st')) = f_data (F (os_st st))"

lemma same_data_objects: "same_data st st' \<Longrightarrow> objects F st' = objects F st"
  by (rule ext) (simp add: same_data_def objects_def)

lemma open_ok:
  assumes ok: "sysio_ok F st" and room: "open_room st" and found: "mt.lookup (oid_hash st) oid = Some p"
    and P: "posix_of S = P"
  shows "\<exists>st' f ino n. open_oid S st oid = Some (Some p, st') \<and> sysio_ok F st' \<and> has_fd st' p oid f ino n \<and>
    same_data st st'"
proof -
  obtain el where el: "oid_els st p = Some el" "el_id el = oid" using sysio_okD(3) [OF ok found] by blast
  have elok: "el_ok (F (os_st st)) (sysio_root st) el" using sysio_okD(4) [OF ok el(1)] by blast
  show ?thesis
  proof (cases "el_fd el = 0")
    case False
    then obtain ino n where "has_fd st p oid (el_fd el) ino n"
      using elok el by (cases el) (auto simp: el_ok_def has_fd_def)
    with False el show ?thesis
      using ok by (auto simp: open_oid_def find_ok [OF ok] found deref_def same_data_def)
  next
    case True
    let ?path = "obj_path (sysio_root st) oid" and ?F = "F (os_st st)"
    have path: "oid_path 256 (sysio_root st) oid = ?path"
      using sysio_okD(1) [OF ok] by (simp add: oid_path_short)
    obtain ino where ino: "f_names ?F ?path = Some ino"
      using sysio_okD(5) [OF ok, of oid] found by (auto simp: objects_def)
    obtain f os1 where opn: "os_open P (os_st st) ?path = (f, os1)" "f > 0" "f_fds ?F f = None"
      "F os1 = ?F\<lparr>f_fds := (f_fds ?F)(f \<mapsto> (ino, 0))\<rparr>" using open_some [OF ino] by blast
    define el' where "el' = \<lparr>el_fd = f, el_id = oid, el_mode = ''r+'' @ [CHR 0x00]\<rparr>"
    define st1 where "st1 = set_el p el' (st\<lparr>os_st := os1\<rparr>)"
    have st1: "set_el p (el\<lparr>el_fd := f, el_mode := ''r+'' @ [CHR 0x00]\<rparr>) (set_el p (el\<lparr>el_fd := f\<rparr>) (st\<lparr>os_st := os1\<rparr>)) = st1"
      using el(2) by (cases el) (simp add: st1_def set_el_def el'_def)
    have "open_room st1" using room by (simp add: st1_def set_el_def open_room_def)
    then obtain os2 where os2: "add_to_open_files S st1 p =
        Some (st1\<lparr>os_st := os2, open_files_list := p # open_files_list st1\<rparr>)" "F os2 = F os1"
      using add_open [of st1 p S] P by (auto simp: st1_def set_el_def)
    define st' where "st' = st1\<lparr>os_st := os2, open_files_list := p # open_files_list st1\<rparr>"
    have run: "open_oid S st oid = Some (Some p, st')"
      using True el opn os2(1) st1 P
      by (simp add: open_oid_def find_ok [OF ok] found deref_def path Let_def st'_def)
    have st': "oid_els st' = (oid_els st)(p \<mapsto> el')" "oid_hash st' = oid_hash st" "sysio_root st' = sysio_root st"
      "attr_db st' = attr_db st" "next_el st' = next_el st" "F (os_st st') = ?F\<lparr>f_fds := (f_fds ?F)(f \<mapsto> (ino, 0))\<rparr>"
      by (simp_all add: st'_def st1_def set_el_def os2(2) opn(4))
    have has: "has_fd st' p oid f ino 0" using ino opn(2) by (simp add: has_fd_def st' el'_def)
    have fds: "oid_els st q = Some e \<Longrightarrow> el_fd e \<noteq> 0 \<Longrightarrow> el_fd e \<noteq> f" for q e
      using sysio_okD(4) [OF ok, of q e] opn(3) by (auto simp: el_ok_def)
    have "el_ok (F (os_st st')) (sysio_root st') e" if "oid_els st' q = Some e" for q e
    proof (cases "q = p")
      case True
      with that ino opn(2) show ?thesis by (auto simp: st' el_ok_def el'_def)
    next
      case False
      with that have "oid_els st q = Some e" by (simp add: st')
      with fds [OF this] sysio_okD(4) [OF ok this] show ?thesis by (auto simp: st' el_ok_def)
    qed
    moreover have "q = r" if "oid_els st' q = Some e" "oid_els st' r = Some e'" "el_fd e = el_fd e'" "el_fd e \<noteq> 0" for q r e e'
      using that fds [of q e] fds [of r e'] sysio_okD(7) [OF ok, of q e r e'] by (auto simp: st' el'_def split: if_splits)
    moreover have "mt.lookup (oid_hash st') (el_id e) = Some q \<and> q < next_el st'" if "oid_els st' q = Some e" for q e
      using that sysio_okD(4) [OF ok] el found by (auto simp: st' el'_def split: if_splits)
    moreover have "\<exists>e. oid_els st' q = Some e \<and> el_id e = o'" if "mt.lookup (oid_hash st') o' = Some q" for o' q
      using sysio_okD(3) [OF ok, of o' q] that el by (auto simp: st' el'_def)
    moreover have same: "same_data st st'" by (simp add: same_data_def st')
    moreover have "short_root (sysio_root st')" "mt.single (oid_hash st')"
      "inj_on (f_names (F (os_st st'))) (dom (f_names (F (os_st st'))))"
      using sysio_okD(1,2,6) [OF ok] by (simp_all add: st')
    moreover have "mt.lookup (oid_hash st') o' \<noteq> None \<longleftrightarrow> objects F st' o' \<noteq> None" for o'
      using sysio_okD(5) [OF ok] by (simp add: same_data_objects [OF same] st'(2))
    ultimately have "sysio_ok F st'" by (intro sysio_okI) assumption+
    with run has same show ?thesis by blast
  qed
qed

end

subsection \<open>Operations on contents\<close>

definition write_obj :: "u8 list \<Rightarrow> nat \<Rightarrow> u8 list \<Rightarrow> u8 list" where
  "write_obj d off bs = (if bs = [] then d else overlay d off bs)"

definition read_obj :: "u8 list \<Rightarrow> nat \<Rightarrow> nat \<Rightarrow> u8 list" where
  "read_obj d off len = take len (drop off d)"

lemma uint_not_minus: "uint w \<noteq> - 1"
  using uint_ge_0 [of w] by linarith

lemma read_write_obj: "read_obj (write_obj d off bs) off (length bs) = bs"
  by (simp add: read_obj_def write_obj_def overlay_slice)

locale sysio_server =
  posix_files "posix_of S" F + attr_store "ssdb_of S" C
  for S :: "('os, 'd) sysio_env" and F :: "'os \<Rightarrow> files"
    and C :: "'d \<Rightarrow> ss_db1_key \<Rightarrow> ss_db_attr_entry option"
begin

lemma open_objects:
  assumes ok: "sysio_ok F st" and room: "open_room st" and d: "objects F st oid = Some d"
  obtains st' p f ino n where "open_oid S st oid = Some (Some p, st')" "sysio_ok F st'" "has_fd st' p oid f ino n"
    "same_data st st'" "objects F st' = objects F st" "f_data (F (os_st st')) ino = d"
proof -
  obtain p where p: "mt.lookup (oid_hash st) oid = Some p" using sysio_okD(5) [OF ok, of oid] d by auto
  obtain st' f ino n where st': "open_oid S st oid = Some (Some p, st')" "sysio_ok F st'" "has_fd st' p oid f ino n"
    "same_data st st'" using open_ok [OF ok room p refl] by blast
  have objs: "objects F st' = objects F st" by (rule same_data_objects [OF st'(4)])
  then have "objects F st' oid = Some d" using d by simp
  then have "f_data (F (os_st st')) ino = d" using st'(3) by (simp add: objects_def has_fd_def)
  with that st' objs show thesis by blast
qed

text \<open>An update of the data behind a descriptor changes one object.\<close>

lemma update_data:
  assumes ok: "sysio_ok F st" and has: "has_fd st p oid f ino n"
    and F': "f_names (F os') = f_names (F (os_st st))" "f_data (F os') = (f_data (F (os_st st)))(ino := d)"
    and fds: "\<And>fd. map_option fst (f_fds (F os') fd) = map_option fst (f_fds (F (os_st st)) fd)"
  shows "sysio_ok F (st\<lparr>os_st := os'\<rparr>) \<and> objects F (st\<lparr>os_st := os'\<rparr>) = (objects F st)(oid \<mapsto> d)"
proof
  show "sysio_ok F (st\<lparr>os_st := os'\<rparr>)"
    by (rule ok_same_elements [OF ok]) (simp_all add: F' fds)
  let ?N = "f_names (F (os_st st))"
  have oid: "?N (obj_path (sysio_root st) oid) = Some ino" using has by (simp add: has_fd_def)
  have "?N (obj_path (sysio_root st) o') = Some ino \<longleftrightarrow> o' = oid" for o'
  proof
    assume "?N (obj_path (sysio_root st) o') = Some ino"
    with oid have "obj_path (sysio_root st) o' = obj_path (sysio_root st) oid"
      using inj_onD [OF sysio_okD(6) [OF ok]] by (metis domI)
    then show "o' = oid" using sysio_okD(1) [OF ok] by (simp add: oid_path_inject)
  qed (use oid in simp)
  note ino = this
  show "objects F (st\<lparr>os_st := os'\<rparr>) = (objects F st)(oid \<mapsto> d)"
  proof
    fix o'
    show "objects F (st\<lparr>os_st := os'\<rparr>) o' = ((objects F st)(oid \<mapsto> d)) o'"
      using oid ino [of o'] by (cases "?N (obj_path (sysio_root st) o')") (auto simp: objects_def F')
  qed
qed

lemma move_offset:
  assumes ok: "sysio_ok F st"
    and F': "f_names (F os') = f_names (F (os_st st))" "f_data (F os') = f_data (F (os_st st))"
    and fds: "\<And>fd. map_option fst (f_fds (F os') fd) = map_option fst (f_fds (F (os_st st)) fd)"
  shows "sysio_ok F (st\<lparr>os_st := os'\<rparr>) \<and> same_data st (st\<lparr>os_st := os'\<rparr>)"
  using ok_same_elements [OF ok, of "st\<lparr>os_st := os'\<rparr>"] by (simp add: F' fds same_data_def)

lemma same_data_trans: "same_data a b \<Longrightarrow> same_data b c \<Longrightarrow> same_data a c"
  by (simp add: same_data_def)

lemma readable: "can_read_file (''r+'' @ [CHR 0x00])" "can_write_file (''r+'' @ [CHR 0x00])"
  by (simp_all add: can_read_file_def can_write_file_def)

lemma no_reopen: "has_fd st p oid f ino n \<Longrightarrow> reopen S st p o' failed = Some (True, st)"
  by (simp add: reopen_def has_fd_def deref_def)

lemma seek:
  assumes ok: "sysio_ok F st" and has: "has_fd st p oid f ino n" and off: "valid_off off"
  obtains os' where "os_lseek (posix_of S) (os_st st) f off = (int (unat off), os')"
    "sysio_ok F (st\<lparr>os_st := os'\<rparr>)" "same_data st (st\<lparr>os_st := os'\<rparr>)"
    "has_fd (st\<lparr>os_st := os'\<rparr>) p oid f ino (unat off)" "f_data (F os') = f_data (F (os_st st))"
proof -
  have fd: "f_fds (F (os_st st)) f = Some (ino, n)" using has by (simp add: has_fd_def)
  obtain os' where os': "os_lseek (posix_of S) (os_st st) f off = (int (unat off), os')"
    "F os' = (F (os_st st))\<lparr>f_fds := (f_fds (F (os_st st)))(f \<mapsto> (ino, unat off))\<rparr>"
    using lseek_open [OF fd off] by blast
  have "sysio_ok F (st\<lparr>os_st := os'\<rparr>) \<and> same_data st (st\<lparr>os_st := os'\<rparr>)"
    by (rule move_offset [OF ok]) (simp_all add: os'(2) fd)
  moreover have "has_fd (st\<lparr>os_st := os'\<rparr>) p oid f ino (unat off)" using has by (simp add: has_fd_def os'(2))
  ultimately show thesis using that os' by simp
qed

lemma exists_ok: "sysio_ok F st \<Longrightarrow> sysio_obj_exists st ob = Some (objects F st (obj_oid ob) \<noteq> None, st)"
  using sysio_okD(5) [of F st "obj_oid ob"] by (simp add: sysio_obj_exists_def find_ok)

lemma read_ok:
  assumes ok: "sysio_ok F st" and room: "open_room st" and d: "objects F st (obj_oid ob) = Some d"
    and off: "valid_off off"
  shows "\<exists>st'. sysio_obj_read S st ob off len =
      Some (of_nat (length (read_obj d (unat off) (unat len))), read_obj d (unat off) (unat len), st') \<and>
    sysio_ok F st' \<and> same_data st st'"
proof -
  obtain st1 p f ino n where o1: "open_oid S st (obj_oid ob) = Some (Some p, st1)" "sysio_ok F st1"
    "has_fd st1 p (obj_oid ob) f ino n" "same_data st st1" "f_data (F (os_st st1)) ino = d"
    using open_objects [OF ok room d] by metis
  obtain os2 where o2: "os_lseek (posix_of S) (os_st st1) f off = (int (unat off), os2)"
    "sysio_ok F (st1\<lparr>os_st := os2\<rparr>)" "same_data st1 (st1\<lparr>os_st := os2\<rparr>)"
    "has_fd (st1\<lparr>os_st := os2\<rparr>) p (obj_oid ob) f ino (unat off)" "f_data (F os2) = f_data (F (os_st st1))"
    using seek [OF o1(2,3) off] by blast
  have el: "deref st1 p = Some \<lparr>el_fd = f, el_id = obj_oid ob, el_mode = ''r+'' @ [CHR 0x00]\<rparr>" "f > 0"
    using o1(3) by (simp_all add: has_fd_def deref_def)
  have start: "sysio_obj_read S st ob off len =
      (if len > 0 then
         (let (bytes, os) = os_read (posix_of S) os2 f len; st = st1\<lparr>os_st := os\<rparr> in
          case bytes of None \<Rightarrow> Some (0, [], st) | Some bs \<Rightarrow> Some (of_nat (length bs), bs, st))
       else Some (0, [], st1\<lparr>os_st := os2\<rparr>))"
    using readable el uint_not_minus [of off] by (simp add: sysio_obj_read_def o1(1) no_reopen [OF o1(3)] o2(1) Let_def)
  show ?thesis
  proof (cases "len > 0")
    case False
    then have "len = 0" using word_neq_0_conv by blast
    then show ?thesis
      using start o2(2,3) o1(4) by (auto simp: read_obj_def intro: same_data_trans)
  next
    case True
    have fd: "f_fds (F os2) f = Some (ino, unat off)" using o2(4) by (simp add: has_fd_def)
    obtain os3 where os3: "os_read (posix_of S) os2 f len = (Some (take (unat len) (drop (unat off) (f_data (F os2) ino))), os3)"
      "F os3 = (F os2)\<lparr>f_fds := (f_fds (F os2))(f \<mapsto>
        (ino, unat off + min (unat len) (length (f_data (F os2) ino) - unat off)))\<rparr>"
      using read_open [OF fd] by blast
    have "sysio_ok F (st1\<lparr>os_st := os2\<rparr>\<lparr>os_st := os3\<rparr>) \<and> same_data (st1\<lparr>os_st := os2\<rparr>) (st1\<lparr>os_st := os2\<rparr>\<lparr>os_st := os3\<rparr>)"
      by (rule move_offset [OF o2(2)]) (simp_all add: os3(2) fd)
    then show ?thesis
      using start True os3(1) o2(3,5) o1(4,5) by (auto simp: read_obj_def intro: same_data_trans)
  qed
qed

lemma write_ok:
  assumes ok: "sysio_ok F st" and room: "open_room st" and d: "objects F st (obj_oid ob) = Some d"
    and off: "valid_off off" and len: "unat len = length bs"
  shows "\<exists>st'. sysio_obj_write S st ob off bs len = Some (len, True, st') \<and>
    sysio_ok F st' \<and> objects F st' = (objects F st)(obj_oid ob \<mapsto> write_obj d (unat off) bs) \<and> attr_db st' = attr_db st"
proof -
  obtain st1 p f ino n where o1: "open_oid S st (obj_oid ob) = Some (Some p, st1)" "sysio_ok F st1"
    "has_fd st1 p (obj_oid ob) f ino n" "same_data st st1" "f_data (F (os_st st1)) ino = d"
    using open_objects [OF ok room d] by metis
  obtain os2 where o2: "os_lseek (posix_of S) (os_st st1) f off = (int (unat off), os2)"
    "sysio_ok F (st1\<lparr>os_st := os2\<rparr>)" "same_data st1 (st1\<lparr>os_st := os2\<rparr>)"
    "has_fd (st1\<lparr>os_st := os2\<rparr>) p (obj_oid ob) f ino (unat off)" "f_data (F os2) = f_data (F (os_st st1))"
    using seek [OF o1(2,3) off] by blast
  have el: "deref st1 p = Some \<lparr>el_fd = f, el_id = obj_oid ob, el_mode = ''r+'' @ [CHR 0x00]\<rparr>" "f > 0"
    using o1(3) by (simp_all add: has_fd_def deref_def)
  have same: "same_data st (st1\<lparr>os_st := os2\<rparr>)" using o1(4) o2(3) by (rule same_data_trans)
  have start: "sysio_obj_write S st ob off bs len =
      (if len > 0 then
         (let (n, os) = os_write (posix_of S) os2 f bs in Some (of_int n, True, st1\<lparr>os_st := os\<rparr>))
       else Some (0, True, st1\<lparr>os_st := os2\<rparr>))"
    using readable el uint_not_minus [of off] by (simp add: sysio_obj_write_def o1(1) no_reopen [OF o1(3)] o2(1) Let_def)
  show ?thesis
  proof (cases "len > 0")
    case False
    then have "len = 0" using word_neq_0_conv by blast
    moreover from this have "bs = []" using len by simp
    ultimately have "len = 0" "bs = []" by simp_all
    with start o2(2) same_data_objects [OF same] same show ?thesis
      using d by (auto simp: write_obj_def same_data_def fun_upd_idem)
  next
    case True
    have fd: "f_fds (F os2) f = Some (ino, unat off)" using o2(4) by (simp add: has_fd_def)
    obtain os3 where os3: "os_write (posix_of S) os2 f bs = (int (length bs), os3)"
      "F os3 = (F os2)\<lparr>f_data := (f_data (F os2))(ino := overlay (f_data (F os2) ino) (unat off) bs),
        f_fds := (f_fds (F os2))(f \<mapsto> (ino, unat off + length bs))\<rparr>" using write_open [OF fd] by blast
    let ?st = "st1\<lparr>os_st := os2\<rparr>"
    have upd: "sysio_ok F (?st\<lparr>os_st := os3\<rparr>) \<and>
        objects F (?st\<lparr>os_st := os3\<rparr>) = (objects F ?st)(obj_oid ob \<mapsto> overlay (f_data (F os2) ino) (unat off) bs)"
      by (rule update_data [OF o2(2,4)]) (simp_all add: os3(2) fd)
    have "bs \<noteq> []" using True len by (auto simp: unat_eq_zero)
    moreover have "of_int (int (length bs)) = len" by (simp flip: len)
    ultimately show ?thesis
      using start True os3(1) upd same_data_objects [OF same] same o2(5) o1(5)
      by (simp add: write_obj_def same_data_def)
  qed
qed

lemma trunc_ok:
  assumes ok: "sysio_ok F st" and room: "open_room st" and d: "objects F st (obj_oid ob) = Some d"
    and sz: "valid_off sz"
  shows "\<exists>st'. sysio_obj_trunc S st ob sz = Some (1, st') \<and>
    sysio_ok F st' \<and> objects F st' = (objects F st)(obj_oid ob \<mapsto> resize d (unat sz)) \<and> attr_db st' = attr_db st"
proof -
  obtain st1 p f ino n where o1: "open_oid S st (obj_oid ob) = Some (Some p, st1)" "sysio_ok F st1"
    "has_fd st1 p (obj_oid ob) f ino n" "same_data st st1" "objects F st1 = objects F st"
    "f_data (F (os_st st1)) ino = d"
    by (rule open_objects [OF ok room d])
  have fd: "f_fds (F (os_st st1)) f = Some (ino, n)" using o1(3) by (simp add: has_fd_def)
  obtain os2 where os2: "os_ftruncate (posix_of S) (os_st st1) f sz = (0, os2)"
    "F os2 = (F (os_st st1))\<lparr>f_data := (f_data (F (os_st st1)))(ino := resize (f_data (F (os_st st1)) ino) (unat sz))\<rparr>"
    using ftruncate_open [OF fd sz] by blast
  have upd: "sysio_ok F (st1\<lparr>os_st := os2\<rparr>) \<and>
      objects F (st1\<lparr>os_st := os2\<rparr>) = (objects F st1)(obj_oid ob \<mapsto> resize d (unat sz))"
    by (rule update_data [OF o1(2,3)]) (simp_all add: os2(2) o1(6))
  have "deref st1 p = Some \<lparr>el_fd = f, el_id = obj_oid ob, el_mode = ''r+'' @ [CHR 0x00]\<rparr>"
    using o1(3) by (simp add: has_fd_def deref_def)
  then show ?thesis
    using upd os2(1) o1(4,5) by (simp add: sysio_obj_trunc_def o1(1) same_data_def)
qed

lemma stat_ok:
  assumes ok: "sysio_ok F st" and room: "open_room st" and d: "objects F st (obj_oid ob) = Some d"
  shows "\<exists>st' s. sysio_obj_stat S st ob = Some (LWFS_OK, Some s, st') \<and> st_size s = of_nat (length d) \<and>
    sysio_ok F st' \<and> same_data st st'"
proof -
  obtain st1 p f ino n where o1: "open_oid S st (obj_oid ob) = Some (Some p, st1)" "sysio_ok F st1"
    "has_fd st1 p (obj_oid ob) f ino n" "same_data st st1" "f_data (F (os_st st1)) ino = d"
    by (rule open_objects [OF ok room d])
  then show ?thesis
    using fstat_open [of "os_st st1" f ino n] by (auto simp: sysio_obj_stat_def has_fd_def deref_def)
qed

lemma fsync_ok:
  assumes ok: "sysio_ok F st" and room: "open_room st" and d: "objects F st (obj_oid ob) = Some d"
  shows "\<exists>st'. sysio_obj_fsync S st ob = Some (LWFS_OK, st') \<and> sysio_ok F st' \<and> same_data st st'"
proof -
  obtain st1 p f ino n where o1: "open_oid S st (obj_oid ob) = Some (Some p, st1)" "sysio_ok F st1"
    "has_fd st1 p (obj_oid ob) f ino n" "same_data st st1" "f_data (F (os_st st1)) ino = d"
    by (rule open_objects [OF ok room d])
  have "f_fds (F (os_st st1)) f \<noteq> None" using o1(3) by (simp add: has_fd_def)
  then obtain os2 where os2: "os_fsync (posix_of S) (os_st st1) f = (0, os2)" "F os2 = F (os_st st1)"
    using fsync_open by blast
  have "sysio_ok F (st1\<lparr>os_st := os2\<rparr>) \<and> same_data st1 (st1\<lparr>os_st := os2\<rparr>)"
    by (rule move_offset [OF o1(2)]) (simp_all add: os2(2))
  moreover have "deref st1 p = Some \<lparr>el_fd = f, el_id = obj_oid ob, el_mode = ''r+'' @ [CHR 0x00]\<rparr>"
    using o1(3) by (simp add: has_fd_def deref_def)
  ultimately show ?thesis
    using os2(1) same_data_trans [OF o1(4)] by (auto simp: sysio_obj_fsync_def o1(1))
qed

text \<open>Creating an object: a new element, not yet open, and an empty file.\<close>

lemma add_element:
  assumes ok: "sysio_ok F st" and fresh: "mt.lookup (oid_hash st) oid = None"
    and t: "mt.single t" "mt.lookup t = (mt.lookup (oid_hash st))(oid \<mapsto> next_el st)"
    and st': "oid_els st' = (oid_els st)(next_el st \<mapsto> new_el oid)" "oid_hash st' = t"
      "next_el st' = next_el st + 1" "sysio_root st' = sysio_root st"
    and F': "f_names (F (os_st st')) = (f_names (F (os_st st)))(obj_path (sysio_root st) oid \<mapsto> ino)"
      "f_data (F (os_st st')) = (f_data (F (os_st st)))(ino := [])" "f_fds (F (os_st st')) = f_fds (F (os_st st))"
      "ino \<notin> ran (f_names (F (os_st st)))"
  shows "sysio_ok F st' \<and> objects F st' = (objects F st)(oid \<mapsto> [])"
proof -
  let ?N = "f_names (F (os_st st))" and ?path = "obj_path (sysio_root st)"
  have inj: "?path a = ?path b \<longleftrightarrow> a = b" for a b
    using sysio_okD(1) [OF ok] by (simp add: oid_path_inject)
  have new: "?N a \<noteq> Some ino" for a using F'(4) by (auto intro: ranI)
  have objs: "objects F st' o' = ((objects F st)(oid \<mapsto> [])) o'" for o'
    using new by (cases "?N (?path o')") (auto simp: objects_def F' st' inj)
  have none: "objects F st oid = None" using sysio_okD(5) [OF ok, of oid] fresh by auto
  have "sysio_ok F st'"
  proof (rule sysio_okI)
    show "short_root (sysio_root st')" "mt.single (oid_hash st')" using sysio_okD(1) [OF ok] t st' by simp_all
    show "\<exists>el. oid_els st' p = Some el \<and> el_id el = o'" if "mt.lookup (oid_hash st') o' = Some p" for o' p
    proof (cases "o' = oid")
      case True
      with that show ?thesis by (simp add: st' t new_el_def)
    next
      case False
      with that sysio_okD(3) [OF ok, of o' p] obtain el where "oid_els st p = Some el" "el_id el = o'"
        by (auto simp: st' t)
      moreover from this have "p \<noteq> next_el st" using sysio_okD(4) [OF ok] by blast
      ultimately show ?thesis by (simp add: st')
    qed
    show "mt.lookup (oid_hash st') (el_id el) = Some p \<and> p < next_el st'" if "oid_els st' p = Some el" for p el
      using that sysio_okD(4) [OF ok, of p el] fresh by (auto simp: st' t new_el_def split: if_splits)
    show "el_ok (F (os_st st')) (sysio_root st') el" if "oid_els st' p = Some el" for p el
    proof (cases "p = next_el st")
      case True
      with that have "el = new_el oid" by (simp add: st')
      then show ?thesis by (simp add: el_ok_def new_el_def)
    next
      case False
      with that have "oid_els st p = Some el" by (simp add: st')
      from sysio_okD(4) [OF ok this] fresh have "el_ok (F (os_st st)) (sysio_root st) el" "el_id el \<noteq> oid"
        by auto
      then show ?thesis by (auto simp: el_ok_def F' st' inj)
    qed
    show "mt.lookup (oid_hash st') o' \<noteq> None \<longleftrightarrow> objects F st' o' \<noteq> None" for o'
      using sysio_okD(5) [OF ok, of o'] by (simp add: objs st' t)
    show "inj_on (f_names (F (os_st st'))) (dom (f_names (F (os_st st'))))"
      using sysio_okD(6) [OF ok] new unfolding F' inj_on_def by (auto simp: dom_def)
    show "p = q" if "oid_els st' p = Some e" "oid_els st' q = Some e'" "el_fd e = el_fd e'" "el_fd e \<noteq> 0" for p q e e'
      using that sysio_okD(7) [OF ok, of p e q e'] by (auto simp: st' new_el_def split: if_splits)
  qed
  then show ?thesis using objs by (simp add: fun_eq_iff)
qed

end

end
