(* ===== verification/Sysio_Ops.thy ===== *)
theory Sysio_Ops imports Sysio_Inv begin

section \<open>Creating, removing and describing objects\<close>

text \<open>
  The operations of \<open>Sysio_Obj\<close> that change which objects there are, on the invariant and on the
  map \<open>objects\<close> of \<open>Sysio_Inv\<close>; the attributes of an object; and the start of the library.
\<close>

context sysio_server begin

subsection \<open>Creation\<close>

lemma add_oid_ok:
  assumes "mt.single (oid_hash st)" "mt_room (oid_hash st)" "mt.lookup (oid_hash st) oid = None"
  obtains t os' where "add_oid S st oid = Some (Some (next_el st), st\<lparr>oid_hash := t,
      oid_els := (oid_els st)(next_el st \<mapsto> new_el oid), next_el := next_el st + 1, os_st := os'\<rparr>)"
    "mt.single t" "mt.lookup t = (mt.lookup (oid_hash st))(oid \<mapsto> next_el st)" "F os' = F (os_st st)"
proof -
  obtain os1 where os1: "os_malloc (posix_of S) (os_st st) = (True, os1)" "F os1 = F (os_st st)"
    using malloc_ok by blast
  obtain os2 where os2: "os_malloc (posix_of S) os1 = (True, os2)" "F os2 = F os1" using malloc_ok by blast
  obtain mem os3 where os3: "os_ht_mem (posix_of S) os2 = (mem, os3)" "enough mem" "F os3 = F os2"
    using ht_mem_ok by blast
  obtain t where t: "mt_hashtable_insert mem (oid_hash st) oid (next_el st) = Some (True, t)" "mt.single t"
    "mt.lookup t = (mt.lookup (oid_hash st))(oid \<mapsto> next_el st)"
    using mt.insert_single [OF assms(1,2) os3(2) assms(3)] by blast
  show thesis
    by (rule that [of os3 t]) (simp_all add: add_oid_def Let_def os1 os2 os3 t set_el_def)
qed

lemma creat_closed:
  assumes "f_names (F os) f = None"
  obtains fd ino os1 os2 where "os_creat (posix_of S) os f = (fd, os1)" "fd > 0"
    "os_close (posix_of S) os1 fd = (0, os2)" "ino \<notin> ran (f_names (F os))"
    "F os2 = (F os)\<lparr>f_names := (f_names (F os))(f \<mapsto> ino), f_data := (f_data (F os))(ino := [])\<rparr>"
proof -
  obtain fd ino os1 where cr: "os_creat (posix_of S) os f = (fd, os1)" "fd > 0"
    "f_fds (F os) fd = None" "ino \<notin> ran (f_names (F os))"
    "F os1 = (F os)\<lparr>f_names := (f_names (F os))(f \<mapsto> ino), f_data := (f_data (F os))(ino := []),
        f_fds := (f_fds (F os))(fd \<mapsto> (ino, 0))\<rparr>" using creat_new [OF assms] by blast
  have "f_fds (F os1) fd \<noteq> None" by (simp add: cr(5))
  then obtain os2 where cl: "os_close (posix_of S) os1 fd = (0, os2)"
    "F os2 = (F os1)\<lparr>f_fds := (f_fds (F os1))(fd := None)\<rparr>" using close_open by blast
  have "F os2 = (F os)\<lparr>f_names := (f_names (F os))(f \<mapsto> ino), f_data := (f_data (F os))(ino := [])\<rparr>"
    using cr(3) by (simp add: cl(2) cr(5) fun_upd_idem)
  with that cr cl show thesis by blast
qed

lemma create_ok:
  assumes ok: "sysio_ok F st" and room: "open_room st" and ht: "mt_room (oid_hash st)"
    and new: "objects F st (obj_oid ob) = None"
  shows "\<exists>st'. sysio_obj_create S st ob = Some (LWFS_OK, st') \<and> sysio_ok F st' \<and>
    objects F st' = (objects F st)(obj_oid ob \<mapsto> []) \<and> attr_db st' = attr_db st"
proof -
  let ?oid = "obj_oid ob" and ?p = "next_el st"
  let ?path = "obj_path (sysio_root st) ?oid"
  have nm: "f_names (F (os_st st)) ?path = None" using new by (simp add: objects_def)
  obtain fd ino os1 os2 where cr: "os_creat (posix_of S) (os_st st) ?path = (fd, os1)" "fd > 0"
    "os_close (posix_of S) os1 fd = (0, os2)" "ino \<notin> ran (f_names (F (os_st st)))"
    "F os2 = (F (os_st st))\<lparr>f_names := (f_names (F (os_st st)))(?path \<mapsto> ino),
      f_data := (f_data (F (os_st st)))(ino := [])\<rparr>" by (rule creat_closed [OF nm])
  have fresh: "mt.lookup (oid_hash st) ?oid = None" using sysio_okD(5) [OF ok, of ?oid] new by auto
  define st2 where "st2 = st\<lparr>os_st := os2\<rparr>"
  have *: "mt.single (oid_hash st2)" "mt_room (oid_hash st2)" "mt.lookup (oid_hash st2) ?oid = None"
    using sysio_okD(2) [OF ok] ht fresh by (simp_all add: st2_def)
  obtain t os3 where add: "add_oid S st2 ?oid = Some (Some (next_el st2), st2\<lparr>oid_hash := t,
      oid_els := (oid_els st2)(next_el st2 \<mapsto> new_el ?oid), next_el := next_el st2 + 1, os_st := os3\<rparr>)"
    "mt.single t" "mt.lookup t = (mt.lookup (oid_hash st2))(?oid \<mapsto> next_el st2)" "F os3 = F (os_st st2)"
    by (rule add_oid_ok [OF *])
  define st3 where "st3 = st\<lparr>oid_hash := t, oid_els := (oid_els st)(?p \<mapsto> new_el ?oid),
      next_el := ?p + 1, os_st := os3\<rparr>"
  have add': "add_oid S (st\<lparr>os_st := os2\<rparr>) ?oid = Some (Some ?p, st3)"
    using add(1) by (simp add: st2_def st3_def)
  have "open_room st3" "oid_els st3 ?p \<noteq> None" using room by (simp_all add: open_room_def st3_def)
  then obtain os4 where opn: "add_to_open_files S st3 ?p =
      Some (st3\<lparr>os_st := os4, open_files_list := ?p # open_files_list st3\<rparr>)" "F os4 = F (os_st st3)"
    using add_open [OF _ _ refl] by blast
  define st' where "st' = st3\<lparr>os_st := os4, open_files_list := ?p # open_files_list st3\<rparr>"
  have "set_el ?p ((new_el ?oid)\<lparr>el_mode := (el_mode (new_el ?oid))[0 := CHR 0x00]\<rparr>) st3 = st3"
    by (simp add: set_el_def new_el_def st3_def)
  moreover have "\<not> os_access (posix_of S) (os_st st) ?path" using nm by (simp add: access_iff)
  ultimately have "sysio_obj_create S st ob = Some (LWFS_OK, st')"
    using cr(1-3) add' opn(1)
    by (simp add: sysio_obj_create_def Let_def st'_def deref_def) (simp add: st3_def)
  moreover have "sysio_ok F st' \<and> objects F st' = (objects F st)(?oid \<mapsto> [])"
    by (rule add_element [OF ok fresh add(2)])
      (use add(3,4) opn(2) cr(4,5) in \<open>simp_all add: st'_def st3_def st2_def\<close>)
  moreover have "attr_db st' = attr_db st" by (simp add: st'_def st3_def)
  ultimately show ?thesis by blast
qed

lemma create_exists:
  assumes "objects F st (obj_oid ob) \<noteq> None"
  shows "sysio_obj_create S st ob = Some (LWFS_ERR_EXIST, st)"
  using assms by (simp add: sysio_obj_create_def objects_def access_iff)

end

context sysio_server begin

subsection \<open>Removal\<close>

lemma drop_element:
  assumes ok: "sysio_ok F st" and el: "oid_els st p = Some el" "el_id el = oid"
    and t: "mt.single t" "mt.lookup t = (mt.lookup (oid_hash st))(oid := None)"
    and st': "oid_els st' = (oid_els st)(p := None)" "oid_hash st' = t"
      "next_el st' = next_el st" "sysio_root st' = sysio_root st"
    and F': "f_names (F (os_st st')) = (f_names (F (os_st st)))(obj_path (sysio_root st) oid := None)"
      "f_data (F (os_st st')) = f_data (F (os_st st))"
      "\<And>fd. fd \<noteq> 0 \<Longrightarrow> fd \<noteq> el_fd el \<Longrightarrow> f_fds (F (os_st st')) fd = f_fds (F (os_st st)) fd"
  shows "sysio_ok F st' \<and> objects F st' = (objects F st)(oid := None)"
proof -
  let ?path = "obj_path (sysio_root st)"
  have inj: "?path a = ?path b \<longleftrightarrow> a = b" for a b
    using sysio_okD(1) [OF ok] by (simp add: oid_path_inject)
  have objs: "objects F st' o' = ((objects F st)(oid := None)) o'" for o'
    by (simp add: objects_def F' st' inj)
  have found: "mt.lookup (oid_hash st) oid = Some p" using sysio_okD(4) [OF ok el(1)] el(2) by simp
  have other: "el_id e \<noteq> oid" "el_fd e = 0 \<or> el_fd e \<noteq> el_fd el" if "oid_els st q = Some e" "q \<noteq> p" for q e
  proof -
    show "el_id e \<noteq> oid" using sysio_okD(4) [OF ok that(1)] that(2) found by auto
    show "el_fd e = 0 \<or> el_fd e \<noteq> el_fd el" using sysio_okD(7) [OF ok that(1) el(1)] that(2) by blast
  qed
  have "sysio_ok F st'"
  proof (rule sysio_okI)
    show "short_root (sysio_root st')" "mt.single (oid_hash st')" using sysio_okD(1) [OF ok] t st' by simp_all
    show "\<exists>el. oid_els st' q = Some el \<and> el_id el = o'" if "mt.lookup (oid_hash st') o' = Some q" for o' q
    proof -
      have o': "mt.lookup (oid_hash st) o' = Some q" "o' \<noteq> oid"
        using that by (auto simp: st' t split: if_splits)
      obtain e where e: "oid_els st q = Some e" "el_id e = o'" using sysio_okD(3) [OF ok o'(1)] by blast
      with el o'(2) have "q \<noteq> p" by auto
      with e show ?thesis by (simp add: st')
    qed
    show "mt.lookup (oid_hash st') (el_id e) = Some q \<and> q < next_el st'" if "oid_els st' q = Some e" for q e
      using that sysio_okD(4) [OF ok, of q e] other [of q e] by (simp add: st' t split: if_splits)
    show "el_ok (F (os_st st')) (sysio_root st') e" if "oid_els st' q = Some e" for q e
    proof -
      have q: "oid_els st q = Some e" "q \<noteq> p" using that by (auto simp: st' split: if_splits)
      then have "el_ok (F (os_st st)) (sysio_root st) e" using sysio_okD(4) [OF ok] by blast
      with other [OF q] show ?thesis by (auto simp: el_ok_def F' st' inj)
    qed
    show "mt.lookup (oid_hash st') o' \<noteq> None \<longleftrightarrow> objects F st' o' \<noteq> None" for o'
      using sysio_okD(5) [OF ok, of o'] by (simp add: objs st' t)
    show "inj_on (f_names (F (os_st st'))) (dom (f_names (F (os_st st'))))"
      using sysio_okD(6) [OF ok] unfolding F' inj_on_def by (auto simp: dom_def)
    show "q = r" if "oid_els st' q = Some e" "oid_els st' r = Some e'" "el_fd e = el_fd e'" "el_fd e \<noteq> 0" for q r e e'
      using that sysio_okD(7) [OF ok, of q e r e'] by (auto simp: st' split: if_splits)
  qed
  then show ?thesis using objs by (simp add: fun_eq_iff)
qed

text \<open>Taking an element off the list closes its file.\<close>

lemma leave_list:
  assumes el: "oid_els st p = Some el" and fd: "el_fd el \<noteq> 0 \<Longrightarrow> f_fds (F (os_st st)) (el_fd el) \<noteq> None"
    and run: "remove_from_open_files S st p = Some st'"
  shows "\<exists>os' l el'. st' = st\<lparr>oid_els := (oid_els st)(p \<mapsto> el'), os_st := os', open_files_list := l\<rparr> \<and>
    f_names (F os') = f_names (F (os_st st)) \<and> f_data (F os') = f_data (F (os_st st)) \<and>
    (\<forall>fd. fd \<noteq> 0 \<longrightarrow> fd \<noteq> el_fd el \<longrightarrow> f_fds (F os') fd = f_fds (F (os_st st)) fd)"
proof -
  obtain r l where l: "tclist_delete (compare_oid_els st p) (open_files_list st) = Some (r, l)"
    "close_the_open_file S (st\<lparr>open_files_list := l\<rparr>) p = Some st'"
    using run by (auto simp: remove_from_open_files_def bind_eq_Some_conv)
  show ?thesis
  proof (cases "el_fd el = 0")
    case True
    with l(2) el have "st' = st\<lparr>open_files_list := l\<rparr>" by (simp add: close_the_open_file_def deref_def)
    moreover have "st\<lparr>open_files_list := l\<rparr> = st\<lparr>oid_els := (oid_els st)(p \<mapsto> el), os_st := os_st st, open_files_list := l\<rparr>"
      using el by (cases st) (simp add: fun_upd_idem)
    ultimately show ?thesis by blast
  next
    case False
    obtain os' where os': "os_close (posix_of S) (os_st st) (el_fd el) = (0, os')"
      "F os' = (F (os_st st))\<lparr>f_fds := (f_fds (F (os_st st)))(el_fd el := None)\<rparr>"
      using close_open [OF fd [OF False]] by blast
    define el' where "el' = el\<lparr>el_fd := 0, el_mode := (el_mode el)[0 := CHR 0x00]\<rparr>"
    have "st' = st\<lparr>oid_els := (oid_els st)(p \<mapsto> el'), os_st := os', open_files_list := l\<rparr>"
      using l(2) [symmetric] False os'(1) el by (simp add: close_the_open_file_def deref_def set_el_def el'_def)
    then show ?thesis using os'(2)
      by (intro exI [of _ os'] exI [of _ l] exI [of _ el']) simp
  qed
qed

lemma remove_by_oid_ok:
  assumes ok: "sysio_ok F st" and d: "objects F st oid = Some d"
    and run: "remove_obj_by_oid S st oid = Some (rc, st')"
  shows "rc = LWFS_OK \<and> sysio_ok F st' \<and> objects F st' = (objects F st)(oid := None) \<and> attr_db st' = attr_db st"
proof -
  obtain p where p: "mt.lookup (oid_hash st) oid = Some p" using sysio_okD(5) [OF ok, of oid] d by auto
  obtain el where el: "oid_els st p = Some el" "el_id el = oid" using sysio_okD(3) [OF ok p] by blast
  have elok: "el_ok (F (os_st st)) (sysio_root st) el" using sysio_okD(4) [OF ok el(1)] by blast
  obtain t where t: "mt_hashtable_remove (oid_hash st) oid = Some (Some p, t)" "mt.single t"
    "mt.lookup t = (mt.lookup (oid_hash st))(oid := None)"
    using mt.remove_single [OF sysio_okD(2) [OF ok], of oid] p by auto
  define st1 where "st1 = st\<lparr>oid_hash := t\<rparr>"
  have rmv: "remove_oid S st oid =
      (case (if el_fd el \<noteq> 0 then remove_from_open_files S st1 p else Some st1) of
         None \<Rightarrow> None | Some st2 \<Rightarrow> Some (True, st2\<lparr>oid_els := (oid_els st2)(p := None)\<rparr>))"
    using el(1) by (simp add: remove_oid_def t(1) deref_def bind_case st1_def)
  have "remove_oid S st oid \<noteq> None"
    using run by (cases "remove_oid S st oid") (simp_all add: remove_obj_by_oid_def)
  then obtain st2 where st2: "(if el_fd el \<noteq> 0 then remove_from_open_files S st1 p else Some st1) = Some st2"
    "remove_oid S st oid = Some (True, st2\<lparr>oid_els := (oid_els st2)(p := None)\<rparr>)"
    using rmv by (auto split: option.splits)
  have "\<exists>os' l el'. st2 = st1\<lparr>oid_els := (oid_els st1)(p \<mapsto> el'), os_st := os', open_files_list := l\<rparr> \<and>
      f_names (F os') = f_names (F (os_st st1)) \<and> f_data (F os') = f_data (F (os_st st1)) \<and>
      (\<forall>fd. fd \<noteq> 0 \<longrightarrow> fd \<noteq> el_fd el \<longrightarrow> f_fds (F os') fd = f_fds (F (os_st st1)) fd)"
  proof (cases "el_fd el = 0")
    case True
    then have "st2 = st1" using st2(1) by simp
    moreover have "st1 = st1\<lparr>oid_els := (oid_els st1)(p \<mapsto> el), os_st := os_st st1, open_files_list := open_files_list st1\<rparr>"
      using el by (cases st) (simp add: fun_upd_idem st1_def)
    ultimately show ?thesis by blast
  next
    case False
    with st2(1) have "remove_from_open_files S st1 p = Some st2" by simp
    from leave_list [OF _ _ this, of el] show ?thesis using el elok False by (auto simp: st1_def el_ok_def)
  qed
  then obtain os2 l el' where os2: "st2 = st1\<lparr>oid_els := (oid_els st1)(p \<mapsto> el'), os_st := os2, open_files_list := l\<rparr>"
    "f_names (F os2) = f_names (F (os_st st))" "f_data (F os2) = f_data (F (os_st st))"
    "\<And>fd. fd \<noteq> 0 \<Longrightarrow> fd \<noteq> el_fd el \<Longrightarrow> f_fds (F os2) fd = f_fds (F (os_st st)) fd" by (auto simp: st1_def)
  have "f_names (F os2) (obj_path (sysio_root st) oid) \<noteq> None" using d os2(2) by (auto simp: objects_def)
  then obtain os3 where os3: "os_remove (posix_of S) os2 (obj_path (sysio_root st) oid) = (0, os3)"
    "F os3 = (F os2)\<lparr>f_names := (f_names (F os2))(obj_path (sysio_root st) oid := None)\<rparr>"
    using remove_some by blast
  have st': "rc = LWFS_OK" "st' = st2\<lparr>oid_els := (oid_els st2)(p := None), os_st := os3\<rparr>"
    using run os3(1) by (auto simp: remove_obj_by_oid_def st2(2) os2(1) st1_def)
  have "sysio_ok F st' \<and> objects F st' = (objects F st)(oid := None)"
    by (rule drop_element [OF ok el t(2,3)])
      (use os2(2-) in \<open>simp_all add: st' os2(1) st1_def os3(2) fun_eq_iff\<close>)
  with st' show ?thesis by (simp add: os2(1) st1_def)
qed

end

subsection \<open>Attributes\<close>

text \<open>The value of an attribute: the part of the stored array that counts.\<close>

definition obj_attrs ::
  "('d \<Rightarrow> ss_db1_key \<Rightarrow> ss_db_attr_entry option) \<Rightarrow> ('os, 'd) sysio_state \<Rightarrow> lwfs_oid \<Rightarrow> string \<Rightarrow> u8 list option" where
  "obj_attrs C st oid name = map_option a_value (C (attr_db st) \<lparr>sk_oid = oid, sk_name = name\<rparr>)"

lemma keygen_eq: "ss_db1_keygen oid name = \<lparr>sk_oid = oid, sk_name = strncpy LWFS_NAME_LEN name\<rparr>"
  by (simp add: ss_db1_keygen_def Let_def strncpy_def)

lemma keygen_strncpy: "ss_db1_keygen oid (strncpy LWFS_NAME_LEN name) = ss_db1_keygen oid name"
  by (simp add: keygen_eq)

text \<open>A name that fits in the array of an entry.\<close>

definition plain_name :: "string \<Rightarrow> bool" where
  "plain_name n \<longleftrightarrow> CHR 0x00 \<notin> set n \<and> length n < LWFS_NAME_LEN"

lemma plain_nameD: "plain_name n \<Longrightarrow> strncpy LWFS_NAME_LEN n = n" "plain_name n \<Longrightarrow> c_str n = n"
  by (simp_all add: plain_name_def strncpy_def c_str_no_nul)

definition attrs_ok :: "('d \<Rightarrow> ss_db1_key \<Rightarrow> ss_db_attr_entry option) \<Rightarrow> 'd \<Rightarrow> bool" where
  "attrs_ok C d \<longleftrightarrow> (\<forall>k a. C d k = Some a \<longrightarrow>
     k = \<lparr>sk_oid = a_oid a, sk_name = a_name a\<rparr> \<and> strncpy LWFS_NAME_LEN (a_name a) = a_name a \<and>
     unat (a_size a) = length (a_value a) \<and> int (length (a_value a)) \<le> LWFS_ATTR_SIZE)"

context sysio_server begin

lemma attrs_wf: "attrs_ok C d \<Longrightarrow> attr_wf d"
  by (fastforce simp: attrs_ok_def attr_wf_def keygen_eq)

lemma attrs_of_oid: "attrs_ok C d \<Longrightarrow> ka \<in> attrs_of C d oid \<longleftrightarrow> C d (fst ka) = Some (snd ka) \<and> sk_oid (fst ka) = oid"
  by (cases ka) (fastforce simp: attrs_of_def attrs_ok_def)

text \<open>Writing an attribute that fits.\<close>

lemma put_attr_ok:
  assumes ok: "attrs_ok C (attr_db st)" and fits: "plain_name name" "int (length value) \<le> LWFS_ATTR_SIZE"
  shows "\<exists>d'. put_attr S st oid name value = Some (LWFS_OK, st\<lparr>attr_db := d'\<rparr>) \<and> attrs_ok C d' \<and>
    C d' = (C (attr_db st))(\<lparr>sk_oid = oid, sk_name = name\<rparr> \<mapsto>
      \<lparr>a_oid = oid, a_name = name, a_value = value, a_size = of_nat (length value)\<rparr>)"
proof -
  let ?a = "\<lparr>a_oid = oid, a_name = name, a_value = value, a_size = of_nat (length value)\<rparr> :: ss_db_attr_entry"
  have name: "c_str name = name" "strncpy LWFS_NAME_LEN name = name" using plain_nameD [OF fits(1)] by simp_all
  have fill: "fill_attr oid name value = Some ?a" using fits by (simp add: fill_attr_def name plain_name_def)
  obtain rc d' where put: "ss_db_attr_put (ssdb_of S) (attr_db st) ?a False = (rc, d')"
    by (cases "ss_db_attr_put (ssdb_of S) (attr_db st) ?a False")
  have d': "rc = LWFS_OK" "C d' = (C (attr_db st))(\<lparr>sk_oid = oid, sk_name = name\<rparr> \<mapsto> ?a)"
    using attr_put [OF put] by (simp_all add: keygen_eq name)
  have "int (length value) \<le> 8192" using fits by (simp add: LWFS_ATTR_SIZE_def)
  then have "unat (of_nat (length value) :: u64) = length value" by (simp add: unat_of_nat)
  then have "attrs_ok C d'"
    using ok fits by (auto simp: attrs_ok_def d'(2) name)
  then show ?thesis using put d' by (auto simp: put_attr_def fill)
qed

lemma copy_attr_ok:
  assumes "unat (a_size a) = length (a_value a)"
  shows "\<exists>os'. copy_attr S st a = Some (\<lparr>attr_name = a_name a, attr_value = a_value a\<rparr>, st\<lparr>os_st := os'\<rparr>) \<and>
    F os' = F (os_st st)"
proof -
  obtain os' where "os_calloc (posix_of S) (os_st st) 2 = (True, os')" "F os' = F (os_st st)" using calloc_ok by blast
  then show ?thesis using assms by (auto simp: copy_attr_def)
qed

lemma getattr_ok:
  assumes ok: "attrs_ok C (attr_db st)" and name: "strncpy LWFS_NAME_LEN name = name"
  shows "\<exists>os'. sysio_obj_getattr S st ob name =
      Some (case obj_attrs C st (obj_oid ob) name of None \<Rightarrow> Inl LWFS_ERR_NOENT
        | Some v \<Rightarrow> Inr \<lparr>attr_name = name, attr_value = v\<rparr>, st\<lparr>os_st := os'\<rparr>) \<and> F os' = F (os_st st)"
proof (cases "C (attr_db st) \<lparr>sk_oid = obj_oid ob, sk_name = name\<rparr>")
  case None
  then show ?thesis
    by (intro exI [of _ "os_st st"]) (simp add: sysio_obj_getattr_def get_attr keygen_eq name obj_attrs_def)
next
  case (Some a)
  then have a: "a_name a = name" "unat (a_size a) = length (a_value a)" using ok by (auto simp: attrs_ok_def)
  obtain os' where "copy_attr S st a = Some (\<lparr>attr_name = a_name a, attr_value = a_value a\<rparr>, st\<lparr>os_st := os'\<rparr>)"
    "F os' = F (os_st st)" using copy_attr_ok [OF a(2)] by blast
  with Some a show ?thesis
    by (auto simp: sysio_obj_getattr_def get_attr keygen_eq name obj_attrs_def)
qed

lemma rmattr_ok:
  assumes ok: "attrs_ok C (attr_db st)" and run: "sysio_obj_rmattr S st ob name = (rc, st')"
  shows "\<exists>d'. st' = st\<lparr>attr_db := d'\<rparr> \<and> attrs_ok C d' \<and>
    rc = (if C (attr_db st) (ss_db1_keygen (obj_oid ob) name) = None then LWFS_ERR_NOENT else LWFS_OK) \<and>
    C d' = (C (attr_db st))(ss_db1_keygen (obj_oid ob) name := None)"
proof -
  obtain r d' where del: "ss_db_attr_del (ssdb_of S) (attr_db st) (obj_oid ob) name = (r, d')"
    by (cases "ss_db_attr_del (ssdb_of S) (attr_db st) (obj_oid ob) name")
  note r = attr_del [OF attrs_wf [OF ok] del]
  moreover have "attrs_ok C d'" using ok r by (auto simp: attrs_ok_def split: if_splits)
  ultimately show ?thesis using del run by (auto simp: sysio_obj_rmattr_def)
qed

lemma rmattrs_ok:
  assumes "attrs_ok C (attr_db st)" "sysio_obj_rmattrs S st ob names = (rc, st')"
    "distinct (map (ss_db1_keygen (obj_oid ob)) names)"
    "\<forall>n\<in>set names. C (attr_db st) (ss_db1_keygen (obj_oid ob) n) \<noteq> None"
  shows "\<exists>d'. st' = st\<lparr>attr_db := d'\<rparr> \<and> attrs_ok C d' \<and> rc = LWFS_OK \<and>
    C d' = (\<lambda>k. if k \<in> ss_db1_keygen (obj_oid ob) ` set names then None else C (attr_db st) k)"
  using assms
proof (induction names arbitrary: st)
  case Nil
  then show ?case by (intro exI [of _ "attr_db st"]) auto
next
  case (Cons n names)
  obtain r st1 where st1: "sysio_obj_rmattr S st ob n = (r, st1)" by (cases "sysio_obj_rmattr S st ob n")
  obtain d1 where d1: "st1 = st\<lparr>attr_db := d1\<rparr>" "attrs_ok C d1" "r = LWFS_OK"
    "C d1 = (C (attr_db st))(ss_db1_keygen (obj_oid ob) n := None)"
    using rmattr_ok [OF Cons.prems(1) st1] Cons.prems(4) by auto
  have run: "sysio_obj_rmattrs S st1 ob names = (rc, st')"
    using Cons.prems(2) st1 d1(3) by (auto simp: sysio_obj_rmattr_def split: prod.splits)
  have rest: "\<forall>m\<in>set names. C (attr_db st1) (ss_db1_keygen (obj_oid ob) m) \<noteq> None"
    using Cons.prems(3,4) by (auto simp: d1(1,4)) (metis imageI)
  obtain d2 where d2: "st' = st1\<lparr>attr_db := d2\<rparr>" "attrs_ok C d2" "rc = LWFS_OK"
    "C d2 = (\<lambda>k. if k \<in> ss_db1_keygen (obj_oid ob) ` set names then None else C (attr_db st1) k)"
    using Cons.IH [OF _ run _ rest] Cons.prems(3) d1(1,2) by auto
  then show ?case by (intro exI [of _ d2]) (auto simp: d1 fun_eq_iff)
qed

text \<open>Listing: every name once, and with \<open>rmattrs_ok\<close> removal of all of them.\<close>

lemma listattrs_ok:
  assumes ok: "attrs_ok C (attr_db st)"
  shows "\<exists>os' names. sysio_obj_listattrs S st ob =
      Some (if names = [] then LWFS_ERR_NOENT else LWFS_OK, names, st\<lparr>os_st := os'\<rparr>) \<and> F os' = F (os_st st) \<and>
    distinct names \<and> set names = {n. obj_attrs C st (obj_oid ob) n \<noteq> None}"
proof -
  obtain kas where kas: "distinct (map fst kas)" "set kas = attrs_of C (attr_db st) (obj_oid ob)"
    "ss_db_get_attr_count (ssdb_of S) (attr_db st) (obj_oid ob) = Inr (length kas)"
    "ss_db_get_all_attr_names_by_oid (ssdb_of S) (attr_db st) (obj_oid ob) (length kas) =
       Some (if kas = [] then Inl LWFS_ERR_NOENT else Inr (map (\<lambda>(k, a). strncpy LWFS_NAME_LEN (a_name a)) kas))"
    by (rule list_names)
  obtain os' where os': "os_calloc (posix_of S) (os_st st) (length kas + 1) = (True, os')" "F os' = F (os_st st)"
    using calloc_ok by blast
  have entry: "C (attr_db st) (fst ka) = Some (snd ka) \<and> sk_oid (fst ka) = obj_oid ob \<and>
      strncpy LWFS_NAME_LEN (a_name (snd ka)) = sk_name (fst ka)" if "ka \<in> set kas" for ka
  proof -
    have ka: "C (attr_db st) (fst ka) = Some (snd ka)" "sk_oid (fst ka) = obj_oid ob"
      using that unfolding kas(2) attrs_of_oid [OF ok] by simp_all
    from this(1) ok have "fst ka = \<lparr>sk_oid = a_oid (snd ka), sk_name = a_name (snd ka)\<rparr>"
      "strncpy LWFS_NAME_LEN (a_name (snd ka)) = a_name (snd ka)" by (simp_all add: attrs_ok_def)
    with ka show ?thesis by simp
  qed
  have names: "map (\<lambda>(k, a). strncpy LWFS_NAME_LEN (a_name a)) kas = map (sk_name \<circ> fst) kas"
    using entry by auto
  have "distinct (map (sk_name \<circ> fst) kas)"
  proof -
    have "inj_on (sk_name \<circ> fst) (set kas)"
    proof (rule inj_onI)
      fix x y assume "x \<in> set kas" "y \<in> set kas" "(sk_name \<circ> fst) x = (sk_name \<circ> fst) y"
      then have "fst x = fst y" using entry [of x] entry [of y] by (cases "fst x"; cases "fst y") auto
      with kas(1) \<open>x \<in> set kas\<close> \<open>y \<in> set kas\<close> show "x = y" by (auto simp: distinct_map dest: inj_onD)
    qed
    with kas(1) show ?thesis by (simp add: distinct_map)
  qed
  moreover have "set (map (sk_name \<circ> fst) kas) = {n. obj_attrs C st (obj_oid ob) n \<noteq> None}"
  proof (intro set_eqI iffI)
    fix n assume "n \<in> {n. obj_attrs C st (obj_oid ob) n \<noteq> None}"
    then obtain a where "C (attr_db st) \<lparr>sk_oid = obj_oid ob, sk_name = n\<rparr> = Some a" by (auto simp: obj_attrs_def)
    then have "(\<lparr>sk_oid = obj_oid ob, sk_name = n\<rparr>, a) \<in> set kas" unfolding kas(2) attrs_of_oid [OF ok] by simp
    then show "n \<in> set (map (sk_name \<circ> fst) kas)" by force
  next
    fix n assume "n \<in> set (map (sk_name \<circ> fst) kas)"
    then obtain ka where ka: "ka \<in> set kas" "n = sk_name (fst ka)" by auto
    then have "fst ka = \<lparr>sk_oid = obj_oid ob, sk_name = n\<rparr>" using entry [of ka] by simp
    with entry [OF ka(1)] show "n \<in> {n. obj_attrs C st (obj_oid ob) n \<noteq> None}" by (simp add: obj_attrs_def)
  qed
  moreover have "sysio_obj_listattrs S st ob =
      Some (if map (sk_name \<circ> fst) kas = [] then LWFS_ERR_NOENT else LWFS_OK, map (sk_name \<circ> fst) kas, st\<lparr>os_st := os'\<rparr>)"
    using os'(1) names by (simp add: sysio_obj_listattrs_def kas(3,4) Let_def)
  ultimately show ?thesis using os'(2) by blast
qed

text \<open>Removing an object takes its attributes with it.\<close>

lemma remove_ok:
  assumes ok: "sysio_ok F st" and attrs: "attrs_ok C (attr_db st)" and d: "objects F st (obj_oid ob) = Some d"
    and run: "sysio_obj_remove S st ob = Some (rc, st')"
  shows "rc = LWFS_OK \<and> sysio_ok F st' \<and> objects F st' = (objects F st)(obj_oid ob := None) \<and>
    attrs_ok C (attr_db st') \<and>
    C (attr_db st') = (\<lambda>k. if sk_oid k = obj_oid ob then None else C (attr_db st) k)"
proof -
  let ?oid = "obj_oid ob"
  obtain r st1 where st1: "remove_obj_by_oid S st ?oid = Some (r, st1)"
    using run by (cases "remove_obj_by_oid S st ?oid") (auto simp: sysio_obj_remove_def)
  note rem = remove_by_oid_ok [OF ok d st1]
  have attrs1: "attrs_ok C (attr_db st1)" using attrs rem by simp
  obtain os2 names where ls: "sysio_obj_listattrs S st1 ob =
      Some (if names = [] then LWFS_ERR_NOENT else LWFS_OK, names, st1\<lparr>os_st := os2\<rparr>)" "F os2 = F (os_st st1)"
    "distinct names" "set names = {n. obj_attrs C st1 ?oid n \<noteq> None}" using listattrs_ok [OF attrs1] by blast
  have keep: "sysio_ok F st2 \<and> objects F st2 = objects F st1"
    if "st2 = st1\<lparr>os_st := os2\<rparr> \<or> st2 = st1\<lparr>os_st := os2, attr_db := d'\<rparr>" for st2 d'
  proof
    have same: "oid_hash st2 = oid_hash st1" "oid_els st2 = oid_els st1" "next_el st2 = next_el st1"
      "sysio_root st2 = sysio_root st1" "F (os_st st2) = F (os_st st1)" using that ls(2) by auto
    from rem show "sysio_ok F st2" by (auto intro!: ok_same_elements [of F st1] simp: same)
    show "objects F st2 = objects F st1" by (simp add: objects_def fun_eq_iff same)
  qed
  have mine: "C (attr_db st) k = None" if "sk_oid k = ?oid" "sk_name k \<notin> set names" for k
    using that rem unfolding ls(4) by (cases k) (simp add: obj_attrs_def)
  show ?thesis
  proof (cases "names = []")
    case True
    then have "rc = LWFS_OK" "st' = st1\<lparr>os_st := os2\<rparr>"
      using run st1 rem ls(1) by (simp_all add: sysio_obj_remove_def)
    with rem keep [of st'] attrs mine True show ?thesis by (auto simp: fun_eq_iff)
  next
    case False
    then have del: "sysio_obj_rmattrs S (st1\<lparr>os_st := os2\<rparr>) ob names = (rc, st')"
      using run st1 rem ls(1) by (simp add: sysio_obj_remove_def)
    have stored: "ss_db1_keygen ?oid n = \<lparr>sk_oid = ?oid, sk_name = n\<rparr> \<and>
        C (attr_db st1) \<lparr>sk_oid = ?oid, sk_name = n\<rparr> \<noteq> None" if "n \<in> set names" for n
      using that attrs1 unfolding ls(4) by (force simp: obj_attrs_def keygen_eq attrs_ok_def)
    have "map (ss_db1_keygen ?oid) names = map (\<lambda>n. \<lparr>sk_oid = ?oid, sk_name = n\<rparr>) names"
      using stored by simp
    then have "distinct (map (ss_db1_keygen ?oid) names)" using ls(3) by (simp add: distinct_map inj_on_def)
    moreover have db: "attr_db (st1\<lparr>os_st := os2\<rparr>) = attr_db st1" by simp
    ultimately obtain d' where d': "st' = st1\<lparr>os_st := os2, attr_db := d'\<rparr>" "attrs_ok C d'"
      "rc = LWFS_OK" "C d' = (\<lambda>k. if k \<in> ss_db1_keygen ?oid ` set names then None else C (attr_db st1) k)"
      using rmattrs_ok [OF _ del, unfolded db] attrs1 stored by auto
    have "k \<in> ss_db1_keygen ?oid ` set names \<longleftrightarrow> sk_oid k = ?oid \<and> sk_name k \<in> set names" for k
      using stored by (cases k) (force simp: image_iff)
    with d' keep [of st' d'] rem mine show ?thesis by (auto simp: fun_eq_iff)
  qed
qed

end

end
