(* ===== verification/Storage_Spec.thy ===== *)
theory Storage_Spec imports Sysio_Ops begin

section \<open>What the storage server promises\<close>

text \<open>
  The abstract server is a map from object ids to bytes, and for every id the named values. It is
  described by \<open>store_step\<close>, request by request and with every refusal. \<open>storage_step_ok\<close> shows that
  the server of \<open>Storage_Server\<close> over the files of \<open>Sysio_Obj\<close> implements it, given the documented
  behaviour of the file system and the database (\<open>sysio_server\<close>).
\<close>

subsection \<open>The abstract store\<close>

record store =
  sp_objects :: "lwfs_oid \<rightharpoonup> u8 list"
  sp_attrs :: "lwfs_oid \<Rightarrow> string \<rightharpoonup> u8 list"

definition spec_guard :: "ss_verify \<Rightarrow> store \<Rightarrow> lwfs_obj \<Rightarrow> lwfs_cap \<Rightarrow> lwfs_container_op \<Rightarrow> lwfs_return_code" where
  "spec_guard V a ob cap op =
     (if sp_objects a (obj_oid ob) = None then LWFS_ERR_NO_OBJ else ss_verify_cap V cap (Some ob) op)"

definition set_object :: "lwfs_oid \<Rightarrow> u8 list option \<Rightarrow> store \<Rightarrow> store" where
  "set_object oid d a = a\<lparr>sp_objects := (sp_objects a)(oid := d)\<rparr>"

definition set_attrs :: "lwfs_oid \<Rightarrow> (string \<rightharpoonup> u8 list) \<Rightarrow> store \<Rightarrow> store" where
  "set_attrs oid m a = a\<lparr>sp_attrs := (sp_attrs a)(oid := m)\<rparr>"

definition spec_setattrs :: "(string \<rightharpoonup> u8 list) \<Rightarrow> lwfs_attr list \<Rightarrow> string \<rightharpoonup> u8 list" where
  "spec_setattrs m as = foldl (\<lambda>m a. m(attr_name a \<mapsto> attr_value a)) m as"

fun spec_rmattrs :: "(string \<rightharpoonup> u8 list) \<Rightarrow> string list \<Rightarrow> lwfs_return_code \<times> (string \<rightharpoonup> u8 list)" where
  "spec_rmattrs m [] = (LWFS_OK, m)"
| "spec_rmattrs m (n # ns) = (if m n = None then (LWFS_ERR_STORAGE, m) else spec_rmattrs (m(n := None)) ns)"

fun spec_getattrs :: "(string \<rightharpoonup> u8 list) \<Rightarrow> string list \<Rightarrow> lwfs_return_code \<times> lwfs_attr list" where
  "spec_getattrs m [] = (LWFS_OK, [])"
| "spec_getattrs m (n # ns) =
     (case m n of
        None \<Rightarrow> (LWFS_ERR_STORAGE, [])
      | Some v \<Rightarrow> map_prod id (Cons \<lparr>attr_name = n, attr_value = v\<rparr>) (spec_getattrs m ns))"

definition spec_read :: "u8 list \<Rightarrow> lwfs_return_code \<Rightarrow> ss_response" where
  "spec_read bs sent_rc = (if bs = [] then Read_Response LWFS_OK (Some 0) []
     else Read_Response sent_rc (Some (of_nat (length bs))) (map Some bs))"

text \<open>A refused request changes nothing; \<open>spec_case\<close> is what an accepted one does.\<close>

definition spec_case :: "lwfs_return_code \<Rightarrow> (lwfs_return_code \<Rightarrow> ss_response) \<Rightarrow> bool \<Rightarrow> ss_response \<Rightarrow> bool \<Rightarrow> bool" where
  "spec_case rc refused same r accepted \<longleftrightarrow> (if rc \<noteq> LWFS_OK then r = refused rc \<and> same else accepted)"

fun store_step :: "ss_verify \<Rightarrow> store \<Rightarrow> ss_request \<Rightarrow> ss_response \<Rightarrow> store \<Rightarrow> bool" where
  "store_step V a (SS_Create ob cap) r a' \<longleftrightarrow>
     spec_case (ss_verify_cap V cap None LWFS_CONTAINER_WRITE) Rc_Response (a' = a) r
       (if sp_objects a (obj_oid ob) \<noteq> None then r = Rc_Response LWFS_ERR_EXIST \<and> a' = a
        else r = Rc_Response LWFS_OK \<and> a' = set_attrs (obj_oid ob)
          ((sp_attrs a (obj_oid ob))(''_lwfs_cid'' \<mapsto> le_bytes 8 (cid (cap_data cap)))) (set_object (obj_oid ob) (Some []) a))"
| "store_step V a (SS_Remove ob cap) r a' \<longleftrightarrow>
     spec_case (spec_guard V a ob cap LWFS_CONTAINER_WRITE) Rc_Response (a' = a) r
       (r = Rc_Response LWFS_OK \<and> a' = set_attrs (obj_oid ob) (\<lambda>n. None) (set_object (obj_oid ob) None a))"
| "store_step V a (SS_Read ob off len cap bm sent_rc) r a' \<longleftrightarrow>
     a' = a \<and> spec_case (spec_guard V a ob cap LWFS_CONTAINER_READ) (\<lambda>rc. Read_Response rc None []) True r
       (r = (if len \<noteq> 0 \<and> \<not> bm then Read_Response LWFS_ERR_NOSPACE None []
          else spec_read (read_obj (the (sp_objects a (obj_oid ob))) (unat off) (unat len)) sent_rc))"
| "store_step V a (SS_Write ob off len cap bm got) r a' \<longleftrightarrow>
     spec_case (spec_guard V a ob cap LWFS_CONTAINER_WRITE) Rc_Response (a' = a) r
       (case got of
          Inl rc \<Rightarrow> r = Rc_Response rc \<and> a' = a
        | Inr buf \<Rightarrow> r = Rc_Response LWFS_OK \<and>
            a' = set_object (obj_oid ob) (Some (write_obj (the (sp_objects a (obj_oid ob))) (unat off) buf)) a)"
| "store_step V a (SS_Fsync ob cap) r a' \<longleftrightarrow>
     a' = a \<and> spec_case (spec_guard V a ob cap LWFS_CONTAINER_WRITE) Rc_Response True r (r = Rc_Response LWFS_OK)"
| "store_step V a (SS_Listattrs ob cap) r a' \<longleftrightarrow>
     a' = a \<and> spec_case (spec_guard V a ob cap LWFS_CONTAINER_READ) (\<lambda>rc. Names_Response rc []) True r
       (\<exists>names. distinct names \<and> set names = dom (sp_attrs a (obj_oid ob)) \<and>
          r = Names_Response (if names = [] then LWFS_ERR_STORAGE else LWFS_OK) names)"
| "store_step V a (SS_Getattrs ob ns cap) r a' \<longleftrightarrow>
     a' = a \<and> spec_case (spec_guard V a ob cap LWFS_CONTAINER_READ) (\<lambda>rc. Attrs_Response rc []) True r
       (r = (case spec_getattrs (sp_attrs a (obj_oid ob)) ns of (rc, as) \<Rightarrow> Attrs_Response rc as))"
| "store_step V a (SS_Setattrs ob as cap) r a' \<longleftrightarrow>
     spec_case (spec_guard V a ob cap LWFS_CONTAINER_WRITE) Rc_Response (a' = a) r
       (r = Rc_Response LWFS_OK \<and> a' = set_attrs (obj_oid ob) (spec_setattrs (sp_attrs a (obj_oid ob)) as) a)"
| "store_step V a (SS_Rmattrs ob ns cap) r a' \<longleftrightarrow>
     spec_case (spec_guard V a ob cap LWFS_CONTAINER_READ) Rc_Response (a' = a) r
       (case spec_rmattrs (sp_attrs a (obj_oid ob)) ns of (rc, m) \<Rightarrow> r = Rc_Response rc \<and> a' = set_attrs (obj_oid ob) m a)"
| "store_step V a (SS_Getattr ob n cap) r a' \<longleftrightarrow>
     a' = a \<and> spec_case (spec_guard V a ob cap LWFS_CONTAINER_READ) (\<lambda>rc. Attr_Response (Inl rc)) True r
       (r = Attr_Response (case sp_attrs a (obj_oid ob) n of None \<Rightarrow> Inl LWFS_ERR_STORAGE
          | Some v \<Rightarrow> Inr \<lparr>attr_name = n, attr_value = v\<rparr>))"
| "store_step V a (SS_Setattr ob at cap) r a' \<longleftrightarrow>
     spec_case (spec_guard V a ob cap LWFS_CONTAINER_WRITE) Rc_Response (a' = a) r
       (r = Rc_Response LWFS_OK \<and> a' = set_attrs (obj_oid ob) (spec_setattrs (sp_attrs a (obj_oid ob)) [at]) a)"
| "store_step V a (SS_Rmattr ob n cap) r a' \<longleftrightarrow>
     spec_case (spec_guard V a ob cap LWFS_CONTAINER_READ) Rc_Response (a' = a) r
       (case spec_rmattrs (sp_attrs a (obj_oid ob)) [n] of (rc, m) \<Rightarrow> r = Rc_Response rc \<and> a' = set_attrs (obj_oid ob) m a)"
| "store_step V a (SS_Stat ob cap) r a' \<longleftrightarrow>
     a' = a \<and> spec_case (spec_guard V a ob cap LWFS_CONTAINER_READ) (\<lambda>rc. Obj_Stat_Response rc None) True r
       (\<exists>s. r = Obj_Stat_Response LWFS_OK (Some s) \<and> st_size s = of_nat (length (the (sp_objects a (obj_oid ob)))))"
| "store_step V a (SS_Truncate ob sz cap) r a' \<longleftrightarrow>
     spec_case (spec_guard V a ob cap LWFS_CONTAINER_WRITE) Rc_Response (a' = a) r
       (r = Rc_Response LWFS_ERR_STORAGE \<and>
          a' = set_object (obj_oid ob) (Some (resize (the (sp_objects a (obj_oid ob))) (unat sz))) a)"

text \<open>
  The requests for which this is promised: offsets and sizes a file can have, a count that fits in
  the 32 bits of the handlers, for a write a buffer that could be allocated and was filled, and names and
  values within the arrays of an entry. Outside of them the handlers do other things: a seek to an offset of
  \<open>2 ^ 63\<close> or more fails and the read reports one byte, a write without a buffer follows a null pointer, and longer names and
  values overrun the entry.
\<close>

definition attr_fits :: "lwfs_attr \<Rightarrow> bool" where
  "attr_fits a \<longleftrightarrow> plain_name (attr_name a) \<and> int (length (attr_value a)) \<le> LWFS_ATTR_SIZE"

fun request_fits :: "ss_request \<Rightarrow> bool" where
  "request_fits (SS_Read ob off len cap bm prc) \<longleftrightarrow> valid_off off \<and> len < 0xFFFFFFFF"
| "request_fits (SS_Write ob off len cap bm got) \<longleftrightarrow> valid_off off \<and> (bm \<or> len = 0) \<and>
     (case got of Inl rc \<Rightarrow> True | Inr buf \<Rightarrow> length buf = unat len)"
| "request_fits (SS_Truncate ob sz cap) \<longleftrightarrow> valid_off sz"
| "request_fits (SS_Getattrs ob ns cap) \<longleftrightarrow> list_all plain_name ns"
| "request_fits (SS_Rmattrs ob ns cap) \<longleftrightarrow> list_all plain_name ns"
| "request_fits (SS_Getattr ob n cap) \<longleftrightarrow> plain_name n"
| "request_fits (SS_Rmattr ob n cap) \<longleftrightarrow> plain_name n"
| "request_fits (SS_Setattrs ob as cap) \<longleftrightarrow> list_all attr_fits as"
| "request_fits (SS_Setattr ob a cap) \<longleftrightarrow> attr_fits a"
| "request_fits _ \<longleftrightarrow> True"

subsection \<open>The server implements it\<close>

definition storage_ok ::
  "('os, 'd) sysio_env \<Rightarrow> ('os \<Rightarrow> files) \<Rightarrow> ('d \<Rightarrow> ss_db1_key \<Rightarrow> ss_db_attr_entry option) \<Rightarrow>
     ('os, 'd) sysio_state ss_state \<Rightarrow> bool" where
  "storage_ok S F C st \<longleftrightarrow> ss_funcs st = sysio_obj_funcs S \<and> sysio_ok F (ss_lib st) \<and> attrs_ok C (attr_db (ss_lib st))"

definition ss_abs ::
  "('os \<Rightarrow> files) \<Rightarrow> ('d \<Rightarrow> ss_db1_key \<Rightarrow> ss_db_attr_entry option) \<Rightarrow> ('os, 'd) sysio_state ss_state \<Rightarrow> store" where
  "ss_abs F C st = \<lparr>sp_objects = objects F (ss_lib st), sp_attrs = obj_attrs C (ss_lib st)\<rparr>"

text \<open>Room for one more open file and one more object.\<close>

definition storage_room :: "('os, 'd) sysio_state ss_state \<Rightarrow> bool" where
  "storage_room st \<longleftrightarrow> open_room (ss_lib st) \<and> mt_room (oid_hash (ss_lib st))"

lemma obj_attrs_upd:
  "C (attr_db st') = (C (attr_db st))(\<lparr>sk_oid = oid, sk_name = n\<rparr> := x) \<Longrightarrow>
   obj_attrs C st' = (obj_attrs C st)(oid := (obj_attrs C st oid)(n := map_option a_value x))"
  by (auto simp: obj_attrs_def fun_eq_iff)

lemma obj_attrs_same: "C (attr_db st') = C (attr_db st) \<Longrightarrow> obj_attrs C st' = obj_attrs C st"
  by (simp add: obj_attrs_def fun_eq_iff)

lemma abs_fields [simp]: "sp_objects (ss_abs F C st) = objects F (ss_lib st)"
  "sp_attrs (ss_abs F C st) = obj_attrs C (ss_lib st)"
  by (simp_all add: ss_abs_def)

lemma abs_eq:
  "objects F (ss_lib st') = objects F (ss_lib st) \<Longrightarrow> obj_attrs C (ss_lib st') = obj_attrs C (ss_lib st) \<Longrightarrow>
   ss_abs F C st' = ss_abs F C st"
  by (simp add: ss_abs_def)

lemmas library = sysio_obj_funcs_def

context sysio_server begin

text \<open>What the proofs conclude for a request.\<close>

definition serves :: "ss_verify \<Rightarrow> ('os, 'd) sysio_state ss_state \<Rightarrow> ss_request \<Rightarrow> bool" where
  "serves V st req \<longleftrightarrow> (\<exists>r st'. ss_dispatch V st req = Some (r, st') \<and> storage_ok S F C st' \<and>
     store_step V (ss_abs F C st) req r (ss_abs F C st'))"

lemma servesI:
  assumes "ss_dispatch V st req = Some (r, st')" "ss_funcs st' = sysio_obj_funcs S"
    "sysio_ok F (ss_lib st')" "attrs_ok C (attr_db (ss_lib st'))"
    "store_step V (ss_abs F C st) req r (ss_abs F C st')"
  shows "serves V st req"
  using assms by (auto simp: serves_def storage_ok_def)

lemma storage_okD:
  assumes "storage_ok S F C st"
  shows "ss_funcs st = sysio_obj_funcs S" "sysio_ok F (ss_lib st)" "attrs_ok C (attr_db (ss_lib st))"
  using assms by (simp_all add: storage_ok_def)

lemma checked_run:
  "storage_ok S F C st \<Longrightarrow> checked V (st\<lparr>ss_counts := c\<rparr>) ob cap op =
     Some (spec_guard V (ss_abs F C st) ob cap op, st\<lparr>ss_counts := c\<rparr>)"
  by (simp add: checked_def storage_ok_def library in_lib_def exists_ok spec_guard_def)

lemma guard_object:
  assumes "spec_guard V (ss_abs F C st) ob cap op = LWFS_OK"
  obtains d where "objects F (ss_lib st) (obj_oid ob) = Some d"
  using assms that by (cases "objects F (ss_lib st) (obj_oid ob)") (auto simp: spec_guard_def)

text \<open>The count of a read goes through 32 bits.\<close>

lemma count32:
  assumes "n < 0x100000000"
  shows "unat (ucast (of_nat n :: u64) :: u32) = n" "ucast (ucast (of_nat n :: u64) :: u32) = (of_nat n :: u64)"
proof -
  show u: "unat (ucast (of_nat n :: u64) :: u32) = n"
    using assms by (simp add: unsigned_ucast_eq unsigned_of_nat take_bit_nat_eq_self)
  show "ucast (ucast (of_nat n :: u64) :: u32) = (of_nat n :: u64)"
    by (metis u unsigned_of_nat word_unat_eq_iff of_nat_unat)
qed

text \<open>A refused request.\<close>

lemma refused:
  assumes "storage_ok S F C st" "ss_dispatch V st req = Some (r, st\<lparr>ss_counts := c\<rparr>)"
    "store_step V (ss_abs F C st) req r (ss_abs F C st)"
  shows "serves V st req"
  using assms by (auto simp: serves_def storage_ok_def ss_abs_def)

lemma serve_create:
  assumes ok: "storage_ok S F C st" and room: "storage_room st"
  shows "serves V st (SS_Create ob cap)"
proof -
  let ?oid = "obj_oid ob" and ?rc = "ss_verify_cap V cap None LWFS_CONTAINER_WRITE"
  note st = storage_okD [OF ok]
  consider "?rc \<noteq> LWFS_OK" | "?rc = LWFS_OK" "objects F (ss_lib st) ?oid \<noteq> None"
    | "?rc = LWFS_OK" "objects F (ss_lib st) ?oid = None" by blast
  then show ?thesis
  proof cases
    case 1
    then show ?thesis
      by (intro refused [OF ok]) (auto simp: ss_create_obj_def Let_def spec_case_def)
  next
    case 2
    have "sysio_obj_create S (ss_lib st) ob = Some (LWFS_ERR_EXIST, ss_lib st)" by (rule create_exists) (rule 2)
    with 2 show ?thesis
      by (intro refused [OF ok]) (auto simp: ss_create_obj_def Let_def spec_case_def st library in_lib_def)
  next
    case 3
    obtain s1 where s1: "sysio_obj_create S (ss_lib st) ob = Some (LWFS_OK, s1)" "sysio_ok F s1"
      "objects F s1 = (objects F (ss_lib st))(?oid \<mapsto> [])" "attr_db s1 = attr_db (ss_lib st)"
      using create_ok [OF st(2) _ _ 3(2)] room by (auto simp: storage_room_def)
    let ?v = "le_bytes 8 (cid (cap_data cap))"
    have "attrs_ok C (attr_db s1)" "plain_name ''_lwfs_cid''" "int (length ?v) \<le> LWFS_ATTR_SIZE"
      using st(3) s1(4) by (simp_all add: plain_name_def LWFS_NAME_LEN_def LWFS_ATTR_SIZE_def)
    from put_attr_ok [OF this, of ?oid] obtain d' where d': "put_attr S s1 ?oid ''_lwfs_cid'' ?v = Some (LWFS_OK, s1\<lparr>attr_db := d'\<rparr>)"
      "attrs_ok C d'" "C d' = (C (attr_db s1))(\<lparr>sk_oid = ?oid, sk_name = ''_lwfs_cid''\<rparr> \<mapsto>
        \<lparr>a_oid = ?oid, a_name = ''_lwfs_cid'', a_value = ?v, a_size = of_nat (length ?v)\<rparr>)" by blast
    let ?s = "s1\<lparr>attr_db := d'\<rparr>"
    have db: "attr_db ?s = d'" by simp
    have objs: "objects F ?s = (objects F (ss_lib st))(?oid \<mapsto> [])" by (simp add: objects_def fun_eq_iff flip: s1(3))
    have attrs: "obj_attrs C ?s = (obj_attrs C (ss_lib st))(?oid := (obj_attrs C (ss_lib st) ?oid)(''_lwfs_cid'' \<mapsto> ?v))"
      using obj_attrs_upd [of C ?s "ss_lib st"] d'(3) s1(4) by simp
    have sok: "sysio_ok F ?s" by (rule ok_same_elements [OF s1(2)]) simp_all
    show ?thesis
      by (rule servesI [where r = "Rc_Response LWFS_OK" and st' = "st\<lparr>ss_counts := (ss_counts st)\<lparr>n_create_obj :=
          n_create_obj (ss_counts st) + 1\<rparr>, ss_lib := ?s\<rparr>"])
        (use 3 s1(1) d'(1,2) objs attrs sok in \<open>simp_all add: ss_create_obj_def Let_def st library in_lib_def
          sysio_obj_setattr_def spec_case_def ss_abs_def set_attrs_def set_object_def\<close>)
  qed
qed

end

context sysio_server begin

text \<open>An accepted request whose only effect on the store is \<open>f\<close>.\<close>

lemma accepted:
  assumes ok: "storage_ok S F C st" and run: "ss_dispatch V st req = Some (r, st\<lparr>ss_counts := c, ss_lib := s\<rparr>)"
    and s: "sysio_ok F s" "attrs_ok C (attr_db s)"
    and step: "store_step V (ss_abs F C st) req r \<lparr>sp_objects = objects F s, sp_attrs = obj_attrs C s\<rparr>"
  shows "serves V st req"
  by (rule servesI [OF run]) (use storage_okD [OF ok] s step in \<open>simp_all add: ss_abs_def\<close>)

lemma abs_same:
  assumes "objects F s = objects F (ss_lib st)" "C (attr_db s) = C (attr_db (ss_lib st))"
  shows "\<lparr>sp_objects = objects F s, sp_attrs = obj_attrs C s\<rparr> = ss_abs F C st"
  using assms by (simp add: ss_abs_def obj_attrs_same [of C s "ss_lib st"])

lemma abs_object:
  assumes "objects F s = (objects F (ss_lib st))(oid := d)" "C (attr_db s) = C (attr_db (ss_lib st))"
  shows "\<lparr>sp_objects = objects F s, sp_attrs = obj_attrs C s\<rparr> = set_object oid d (ss_abs F C st)"
  using assms by (simp add: ss_abs_def set_object_def obj_attrs_same [of C s "ss_lib st"])

lemma serve_read_bytes:
  assumes ok: "storage_ok S F C st" and room: "storage_room st" and fits: "valid_off off" "len < 0xFFFFFFFF"
    and True: "spec_guard V (ss_abs F C st) ob cap LWFS_CONTAINER_READ = LWFS_OK" and mem: "\<not> (len \<noteq> 0 \<and> \<not> bm)"
  shows "serves V st (SS_Read ob off len cap bm sent_rc)"
proof -
  note st = storage_okD [OF ok]
  obtain d where d: "objects F (ss_lib st) (obj_oid ob) = Some d" by (rule guard_object [OF True])
  let ?bs = "read_obj d (unat off) (unat len)"
  obtain s where s: "sysio_obj_read S (ss_lib st) ob off len = Some (of_nat (length ?bs), ?bs, s)" "sysio_ok F s"
    "same_data (ss_lib st) s" using read_ok [OF st(2) _ d fits(1)] room by (auto simp: storage_room_def)
  have "length ?bs \<le> unat len" by (simp add: read_obj_def)
  moreover have len: "unat len < 0xFFFFFFFF" using fits(2) by (simp add: word_less_nat_alt)
  ultimately have n: "length ?bs < 0xFFFFFFFF" by simp
  define count where "count = (ucast (of_nat (length ?bs) :: u64) :: u32)"
  have ucount: "unat count = length ?bs" and small: "ucast count = (of_nat (length ?bs) :: u64)"
    unfolding count_def by (rule count32; use n in simp)+
  have not_minus: "count \<noteq> -1"
  proof
    assume "count = -1"
    then have "unat count = 0xFFFFFFFF" by (simp add: unsigned_minus_1_eq_mask mask_eq_exp_minus_1)
    with ucount n show False by simp
  qed
  have le: "\<not> (ucast count :: u64) > len"
    using \<open>length ?bs \<le> unat len\<close> n by (simp add: small not_less word_le_nat_alt unat_of_nat)
  have zero: "count > 0 \<longleftrightarrow> ?bs \<noteq> []" using ucount by (simp add: word_neq_0_conv [symmetric] unat_eq_0 [symmetric] del: unat_eq_0)
  have run: "ss_dispatch V st (SS_Read ob off len cap bm sent_rc) = Some (spec_read ?bs sent_rc,
      st\<lparr>ss_counts := (ss_counts st)\<lparr>n_read := n_read (ss_counts st) + 1\<rparr>, ss_lib := s\<rparr>)"
    using mem not_minus le zero ucount small
    by (auto simp: ss_read_def checked_run [OF ok] True st library s(1) Let_def spec_read_def count_def [symmetric])
  show ?thesis
    by (rule accepted [OF ok run s(2)])
      (use True mem d st(3) same_data_objects [OF s(3)] s(3) abs_same [of s st] in
        \<open>auto simp: spec_case_def same_data_def\<close>)
qed

lemma serve_read:
  assumes ok: "storage_ok S F C st" and room: "storage_room st" and fits: "valid_off off" "len < 0xFFFFFFFF"
  shows "serves V st (SS_Read ob off len cap bm sent_rc)"
proof (cases "spec_guard V (ss_abs F C st) ob cap LWFS_CONTAINER_READ = LWFS_OK")
  case False
  then show ?thesis
    by (intro refused [OF ok]) (auto simp: ss_read_def checked_run [OF ok] spec_case_def)
next
  case granted: True
  show ?thesis
  proof (cases "len \<noteq> 0 \<and> \<not> bm")
    case True
    then show ?thesis
      using granted by (intro refused [OF ok]) (auto simp: ss_read_def checked_run [OF ok] spec_case_def)
  next
    case False
    then show ?thesis using serve_read_bytes [OF ok room fits granted] by blast
  qed
qed

lemma serve_write:
  assumes ok: "storage_ok S F C st" and room: "storage_room st" and fits: "valid_off off" "bm \<or> len = 0"
    "\<And>buf. got = Inr buf \<Longrightarrow> length buf = unat len"
  shows "serves V st (SS_Write ob off len cap bm got)"
proof (cases "spec_guard V (ss_abs F C st) ob cap LWFS_CONTAINER_WRITE = LWFS_OK")
  case False
  then show ?thesis
    by (intro refused [OF ok]) (auto simp: ss_write_def checked_run [OF ok] spec_case_def)
next
  case True
  note st = storage_okD [OF ok]
  show ?thesis
  proof (cases got)
    case (Inl rc)
    with True fits(2) show ?thesis
      by (intro refused [OF ok]) (auto simp: ss_write_def checked_run [OF ok] spec_case_def)
  next
    case (Inr buf)
    obtain d where d: "objects F (ss_lib st) (obj_oid ob) = Some d" by (rule guard_object [OF True])
    have len: "unat len = length buf" using fits(3) [OF Inr] by simp
    obtain s where s: "sysio_obj_write S (ss_lib st) ob off buf len = Some (len, True, s)" "sysio_ok F s"
      "objects F s = (objects F (ss_lib st))(obj_oid ob \<mapsto> write_obj d (unat off) buf)" "attr_db s = attr_db (ss_lib st)"
      using write_ok [OF st(2) _ d fits(1) len] room by (auto simp: storage_room_def)
    have run: "ss_dispatch V st (SS_Write ob off len cap bm got) = Some (Rc_Response LWFS_OK,
        st\<lparr>ss_counts := (ss_counts st)\<lparr>n_write := n_write (ss_counts st) + 1\<rparr>, ss_lib := s\<rparr>)"
      using fits(2) Inr by (simp add: ss_write_def checked_run [OF ok] True st library s(1))
    show ?thesis
      by (rule accepted [OF ok run s(2)])
        (use True d st(3) s(3,4) Inr abs_object [of s st "obj_oid ob" "Some (write_obj d (unat off) buf)"] in
          \<open>simp_all add: spec_case_def\<close>)
  qed
qed

lemma serve_fsync:
  assumes ok: "storage_ok S F C st" and room: "storage_room st"
  shows "serves V st (SS_Fsync ob cap)"
proof (cases "spec_guard V (ss_abs F C st) ob cap LWFS_CONTAINER_WRITE = LWFS_OK")
  case False
  then show ?thesis
    by (intro refused [OF ok]) (auto simp: ss_fsync_def checked_run [OF ok] spec_case_def)
next
  case True
  note st = storage_okD [OF ok]
  obtain d where d: "objects F (ss_lib st) (obj_oid ob) = Some d" by (rule guard_object [OF True])
  obtain s where s: "sysio_obj_fsync S (ss_lib st) ob = Some (LWFS_OK, s)" "sysio_ok F s" "same_data (ss_lib st) s"
    using fsync_ok [OF st(2) _ d] room by (auto simp: storage_room_def)
  have run: "ss_dispatch V st (SS_Fsync ob cap) = Some (Rc_Response LWFS_OK,
      st\<lparr>ss_counts := (ss_counts st)\<lparr>n_fsync := n_fsync (ss_counts st) + 1\<rparr>, ss_lib := s\<rparr>)"
    by (simp add: ss_fsync_def checked_run [OF ok] True st library s(1) in_lib_def)
  show ?thesis
    by (rule accepted [OF ok run s(2)])
      (use True st(3) same_data_objects [OF s(3)] s(3) abs_same [of s st] in \<open>simp_all add: spec_case_def same_data_def\<close>)
qed

lemma serve_truncate:
  assumes ok: "storage_ok S F C st" and room: "storage_room st" and fits: "valid_off sz"
  shows "serves V st (SS_Truncate ob sz cap)"
proof (cases "spec_guard V (ss_abs F C st) ob cap LWFS_CONTAINER_WRITE = LWFS_OK")
  case False
  then show ?thesis
    by (intro refused [OF ok]) (auto simp: ss_truncate_def checked_run [OF ok] spec_case_def)
next
  case True
  note st = storage_okD [OF ok]
  obtain d where d: "objects F (ss_lib st) (obj_oid ob) = Some d" by (rule guard_object [OF True])
  obtain s where s: "sysio_obj_trunc S (ss_lib st) ob sz = Some (1, s)" "sysio_ok F s"
    "objects F s = (objects F (ss_lib st))(obj_oid ob \<mapsto> resize d (unat sz))" "attr_db s = attr_db (ss_lib st)"
    using trunc_ok [OF st(2) _ d fits] room by (auto simp: storage_room_def)
  have run: "ss_dispatch V st (SS_Truncate ob sz cap) = Some (Rc_Response LWFS_ERR_STORAGE,
      st\<lparr>ss_counts := (ss_counts st)\<lparr>n_trunc := n_trunc (ss_counts st) + 1\<rparr>, ss_lib := s\<rparr>)"
    by (simp add: ss_truncate_def checked_run [OF ok] True st library s(1) in_lib_def)
  show ?thesis
    by (rule accepted [OF ok run s(2)])
      (use True d st(3) s(3,4) abs_object [of s st "obj_oid ob" "Some (resize d (unat sz))"] in
        \<open>simp_all add: spec_case_def\<close>)
qed

lemma serve_stat:
  assumes ok: "storage_ok S F C st" and room: "storage_room st"
  shows "serves V st (SS_Stat ob cap)"
proof (cases "spec_guard V (ss_abs F C st) ob cap LWFS_CONTAINER_READ = LWFS_OK")
  case False
  then show ?thesis
    by (intro refused [OF ok]) (auto simp: ss_stat_def checked_run [OF ok] spec_case_def storage_okD [OF ok] library)
next
  case True
  note st = storage_okD [OF ok]
  obtain d where d: "objects F (ss_lib st) (obj_oid ob) = Some d" by (rule guard_object [OF True])
  obtain s sd where s: "sysio_obj_stat S (ss_lib st) ob = Some (LWFS_OK, Some sd, s)" "st_size sd = of_nat (length d)"
    "sysio_ok F s" "same_data (ss_lib st) s"
    using stat_ok [OF st(2) _ d] room by (auto simp: storage_room_def)
  have run: "ss_dispatch V st (SS_Stat ob cap) = Some (Obj_Stat_Response LWFS_OK (Some sd),
      st\<lparr>ss_counts := (ss_counts st)\<lparr>n_stat := n_stat (ss_counts st) + 1\<rparr>, ss_lib := s\<rparr>)"
    by (simp add: ss_stat_def checked_run [OF ok] True st library s(1) storage_rc_def)
  show ?thesis
    by (rule accepted [OF ok run s(3)])
      (use True d st(3) same_data_objects [OF s(4)] s(2,4) abs_same [of s st] in \<open>simp_all add: spec_case_def same_data_def\<close>)
qed

end

subsection \<open>Requests on attributes\<close>

context sysio_server begin

lemma setattrs_spec:
  assumes "attrs_ok C (attr_db st)" "list_all attr_fits as"
  shows "\<exists>d'. sysio_obj_setattrs S st ob as = Some (LWFS_OK, st\<lparr>attr_db := d'\<rparr>) \<and> attrs_ok C d' \<and>
    obj_attrs C (st\<lparr>attr_db := d'\<rparr>) =
      (obj_attrs C st)(obj_oid ob := spec_setattrs (obj_attrs C st (obj_oid ob)) as)"
  using assms
proof (induction as arbitrary: st)
  case Nil
  then show ?case by (intro exI [of _ "attr_db st"]) (simp add: spec_setattrs_def fun_upd_idem)
next
  case (Cons a as)
  then have fits: "plain_name (attr_name a)" "int (length (attr_value a)) \<le> LWFS_ATTR_SIZE"
    by (simp_all add: attr_fits_def)
  obtain d1 where d1: "put_attr S st (obj_oid ob) (attr_name a) (attr_value a) = Some (LWFS_OK, st\<lparr>attr_db := d1\<rparr>)"
    "attrs_ok C d1" "C d1 = (C (attr_db st))(\<lparr>sk_oid = obj_oid ob, sk_name = attr_name a\<rparr> \<mapsto>
      \<lparr>a_oid = obj_oid ob, a_name = attr_name a, a_value = attr_value a, a_size = of_nat (length (attr_value a))\<rparr>)"
    using put_attr_ok [OF Cons.prems(1) fits] by blast
  have upd: "obj_attrs C (st\<lparr>attr_db := d1\<rparr>) = (obj_attrs C st)(obj_oid ob :=
      (obj_attrs C st (obj_oid ob))(attr_name a \<mapsto> attr_value a))"
    using obj_attrs_upd [of C "st\<lparr>attr_db := d1\<rparr>" st] d1(3) by simp
  obtain d' where "sysio_obj_setattrs S (st\<lparr>attr_db := d1\<rparr>) ob as = Some (LWFS_OK, st\<lparr>attr_db := d'\<rparr>)"
    "attrs_ok C d'" "obj_attrs C (st\<lparr>attr_db := d'\<rparr>) = (obj_attrs C (st\<lparr>attr_db := d1\<rparr>))
      (obj_oid ob := spec_setattrs (obj_attrs C (st\<lparr>attr_db := d1\<rparr>) (obj_oid ob)) as)"
    using Cons.IH [of "st\<lparr>attr_db := d1\<rparr>"] Cons.prems(2) d1(2) by (auto simp del: fun_upd_apply)
  then show ?case
    by (intro exI [of _ d']) (simp add: d1(1) upd spec_setattrs_def)
qed

lemma rmattrs_spec:
  assumes "attrs_ok C (attr_db st)" "list_all plain_name ns" "sysio_obj_rmattrs S st ob ns = (rc, st')"
  shows "\<exists>d'. st' = st\<lparr>attr_db := d'\<rparr> \<and> attrs_ok C d' \<and>
    (let (rc', m) = spec_rmattrs (obj_attrs C st (obj_oid ob)) ns in
     storage_rc rc = rc' \<and> obj_attrs C st' = (obj_attrs C st)(obj_oid ob := m))"
  using assms
proof (induction ns arbitrary: st)
  case Nil
  then show ?case by (intro exI [of _ "attr_db st"]) (auto simp: storage_rc_def fun_eq_iff)
next
  case (Cons n ns)
  obtain r st1 where st1: "sysio_obj_rmattr S st ob n = (r, st1)" by (cases "sysio_obj_rmattr S st ob n")
  have key: "ss_db1_keygen (obj_oid ob) n = \<lparr>sk_oid = obj_oid ob, sk_name = n\<rparr>"
    using Cons.prems(2) by (simp add: keygen_eq plain_nameD)
  obtain d1 where d1: "st1 = st\<lparr>attr_db := d1\<rparr>" "attrs_ok C d1"
    "r = (if obj_attrs C st (obj_oid ob) n = None then LWFS_ERR_NOENT else LWFS_OK)"
    "C d1 = (C (attr_db st))(\<lparr>sk_oid = obj_oid ob, sk_name = n\<rparr> := None)"
    using rmattr_ok [OF Cons.prems(1) st1] by (auto simp: key obj_attrs_def split: if_splits)
  have upd: "obj_attrs C st1 = (obj_attrs C st)(obj_oid ob := (obj_attrs C st (obj_oid ob))(n := None))"
    using obj_attrs_upd [of C st1 st] d1(1,4) by simp
  have run: "(if r \<noteq> LWFS_OK then (r, st1) else sysio_obj_rmattrs S st1 ob ns) = (rc, st')"
    using Cons.prems(3) st1 by (auto simp: sysio_obj_rmattr_def split: prod.splits)
  show ?case
  proof (cases "obj_attrs C st (obj_oid ob) n = None")
    case True
    then have "obj_attrs C st1 = obj_attrs C st" using upd by (simp add: fun_upd_idem)
    moreover have "st' = st1" "storage_rc rc = LWFS_ERR_STORAGE" using True run d1(3) by (auto simp: storage_rc_def)
    ultimately show ?thesis using True d1(1,2) by (intro exI [of _ d1]) (simp add: fun_eq_iff)
  next
    case False
    with run d1(3) have "sysio_obj_rmattrs S st1 ob ns = (rc, st')" by simp
    from Cons.IH [OF _ _ this] Cons.prems(2) d1(1,2) False upd show ?thesis
      by (auto simp del: fun_upd_apply simp: fun_upd_same split: prod.splits)
  qed
qed

lemma getattrs_spec:
  assumes "attrs_ok C (attr_db st)" "list_all plain_name ns"
  shows "\<exists>rc as os'. sysio_obj_getattrs S st ob ns = Some (rc, as, st\<lparr>os_st := os'\<rparr>) \<and> F os' = F (os_st st) \<and>
    (storage_rc rc, as) = spec_getattrs (obj_attrs C st (obj_oid ob)) ns"
  using assms
proof (induction ns arbitrary: st)
  case Nil
  then show ?case by (intro exI) (auto simp: storage_rc_def intro: exI [of _ "os_st st"])
next
  case (Cons n ns)
  have key: "ss_db1_keygen (obj_oid ob) n = \<lparr>sk_oid = obj_oid ob, sk_name = n\<rparr>"
    using Cons.prems(2) by (simp add: keygen_eq plain_nameD)
  show ?case
  proof (cases "C (attr_db st) \<lparr>sk_oid = obj_oid ob, sk_name = n\<rparr>")
    case None
    then show ?thesis
      by (intro exI [of _ LWFS_ERR_NOENT] exI [of _ "[]"] exI [of _ "os_st st"])
        (simp add: get_attr key obj_attrs_def storage_rc_def)
  next
    case (Some a)
    then have a: "a_name a = n" "unat (a_size a) = length (a_value a)" using Cons.prems(1) by (auto simp: attrs_ok_def)
    obtain os1 where os1: "copy_attr S st a = Some (\<lparr>attr_name = n, attr_value = a_value a\<rparr>, st\<lparr>os_st := os1\<rparr>)"
      "F os1 = F (os_st st)" using copy_attr_ok [OF a(2)] a(1) by auto
    have same: "obj_attrs C (st\<lparr>os_st := os1\<rparr>) = obj_attrs C st" by (simp add: obj_attrs_def fun_eq_iff)
    obtain rc as os' where "sysio_obj_getattrs S (st\<lparr>os_st := os1\<rparr>) ob ns = Some (rc, as, st\<lparr>os_st := os'\<rparr>)"
      "F os' = F os1" "(storage_rc rc, as) = spec_getattrs (obj_attrs C st (obj_oid ob)) ns"
      using Cons.IH [of "st\<lparr>os_st := os1\<rparr>"] Cons.prems by (auto simp: same)
    moreover have "obj_attrs C st (obj_oid ob) n = Some (a_value a)" using Some by (simp add: obj_attrs_def)
    ultimately show ?thesis
      using Some os1
      by (intro exI [of _ rc] exI [of _ "\<lparr>attr_name = n, attr_value = a_value a\<rparr> # as"] exI [of _ os'])
        (auto simp: get_attr key map_prod_def split: prod.splits)
  qed
qed

end

context sysio_server begin

text \<open>A change of the database alone, and a change of the state of the operating system alone.\<close>

lemma change_db:
  assumes "sysio_ok F s"
  shows "sysio_ok F (s\<lparr>attr_db := d\<rparr>)" "objects F (s\<lparr>attr_db := d\<rparr>) = objects F s"
  by (rule ok_same_elements [OF assms]) (simp_all add: objects_def fun_eq_iff)

lemma change_os:
  assumes "sysio_ok F s" "F os = F (os_st s)"
  shows "sysio_ok F (s\<lparr>os_st := os\<rparr>)" "objects F (s\<lparr>os_st := os\<rparr>) = objects F s"
  by (rule ok_same_elements [OF assms(1)]) (simp_all add: objects_def fun_eq_iff assms(2))

lemma abs_attrs:
  assumes "objects F s = objects F (ss_lib st)" "obj_attrs C s = (obj_attrs C (ss_lib st))(oid := m)"
  shows "\<lparr>sp_objects = objects F s, sp_attrs = obj_attrs C s\<rparr> = set_attrs oid m (ss_abs F C st)"
  using assms by (simp add: ss_abs_def set_attrs_def)

lemma serve_setattrs:
  assumes ok: "storage_ok S F C st" and fits: "list_all attr_fits as"
  shows "serves V st (SS_Setattrs ob as cap)"
proof (cases "spec_guard V (ss_abs F C st) ob cap LWFS_CONTAINER_WRITE = LWFS_OK")
  case False
  then show ?thesis
    by (intro refused [OF ok]) (auto simp: ss_setattrs_def checked_run [OF ok] spec_case_def storage_okD [OF ok] library)
next
  case True
  note st = storage_okD [OF ok]
  obtain d' where d': "sysio_obj_setattrs S (ss_lib st) ob as = Some (LWFS_OK, (ss_lib st)\<lparr>attr_db := d'\<rparr>)"
    "attrs_ok C d'" "obj_attrs C ((ss_lib st)\<lparr>attr_db := d'\<rparr>) =
      (obj_attrs C (ss_lib st))(obj_oid ob := spec_setattrs (obj_attrs C (ss_lib st) (obj_oid ob)) as)"
    using setattrs_spec [OF st(3) fits] by blast
  have run: "ss_dispatch V st (SS_Setattrs ob as cap) = Some (Rc_Response LWFS_OK,
      st\<lparr>ss_counts := (ss_counts st)\<lparr>n_setattrs := n_setattrs (ss_counts st) + 1\<rparr>, ss_lib := (ss_lib st)\<lparr>attr_db := d'\<rparr>\<rparr>)"
    by (simp add: ss_setattrs_def checked_run [OF ok] True st library d'(1) storage_rc_def Let_def)
  show ?thesis
    by (rule accepted [OF ok run change_db(1) [OF st(2)]])
      (use True d'(2) abs_attrs [OF change_db(2) [OF st(2)] d'(3)] in \<open>simp_all add: spec_case_def\<close>)
qed

lemma serve_setattr:
  assumes ok: "storage_ok S F C st" and fits: "attr_fits a"
  shows "serves V st (SS_Setattr ob a cap)"
proof (cases "spec_guard V (ss_abs F C st) ob cap LWFS_CONTAINER_WRITE = LWFS_OK")
  case False
  then show ?thesis
    by (intro refused [OF ok]) (auto simp: ss_setattr_def checked_run [OF ok] spec_case_def storage_okD [OF ok] library)
next
  case True
  note st = storage_okD [OF ok]
  obtain d' where d': "sysio_obj_setattrs S (ss_lib st) ob [a] = Some (LWFS_OK, (ss_lib st)\<lparr>attr_db := d'\<rparr>)"
    "attrs_ok C d'" "obj_attrs C ((ss_lib st)\<lparr>attr_db := d'\<rparr>) =
      (obj_attrs C (ss_lib st))(obj_oid ob := spec_setattrs (obj_attrs C (ss_lib st) (obj_oid ob)) [a])"
    using setattrs_spec [OF st(3), of "[a]" ob] fits by auto
  obtain rc s where p: "put_attr S (ss_lib st) (obj_oid ob) (attr_name a) (attr_value a) = Some (rc, s)"
    using d'(1) by (cases "put_attr S (ss_lib st) (obj_oid ob) (attr_name a) (attr_value a)") auto
  have p': "rc = LWFS_OK" "s = (ss_lib st)\<lparr>attr_db := d'\<rparr>" using d'(1) p by (auto split: if_splits)
  have run: "ss_dispatch V st (SS_Setattr ob a cap) = Some (Rc_Response LWFS_OK,
      st\<lparr>ss_counts := (ss_counts st)\<lparr>n_setattr := n_setattr (ss_counts st) + 1\<rparr>, ss_lib := (ss_lib st)\<lparr>attr_db := d'\<rparr>\<rparr>)"
    by (simp add: ss_setattr_def sysio_obj_setattr_def checked_run [OF ok] True st library p p' storage_rc_def Let_def)
  show ?thesis
    by (rule accepted [OF ok run change_db(1) [OF st(2)]])
      (use True d'(2) abs_attrs [OF change_db(2) [OF st(2)] d'(3)] in \<open>simp_all add: spec_case_def\<close>)
qed

lemma serve_rmattrs:
  assumes ok: "storage_ok S F C st" and fits: "list_all plain_name ns"
  shows "serves V st (SS_Rmattrs ob ns cap)"
proof (cases "spec_guard V (ss_abs F C st) ob cap LWFS_CONTAINER_READ = LWFS_OK")
  case False
  then show ?thesis
    by (intro refused [OF ok]) (auto simp: ss_rmattrs_def checked_run [OF ok] spec_case_def storage_okD [OF ok] library)
next
  case True
  note st = storage_okD [OF ok]
  obtain rc s where s: "sysio_obj_rmattrs S (ss_lib st) ob ns = (rc, s)" by (cases "sysio_obj_rmattrs S (ss_lib st) ob ns")
  obtain rc' m where m: "spec_rmattrs (obj_attrs C (ss_lib st) (obj_oid ob)) ns = (rc', m)"
    by (cases "spec_rmattrs (obj_attrs C (ss_lib st) (obj_oid ob)) ns")
  obtain d' where d': "s = (ss_lib st)\<lparr>attr_db := d'\<rparr>" "attrs_ok C d'" "storage_rc rc = rc'"
    "obj_attrs C ((ss_lib st)\<lparr>attr_db := d'\<rparr>) = (obj_attrs C (ss_lib st))(obj_oid ob := m)"
    using rmattrs_spec [OF st(3) fits s] m by auto
  have run: "ss_dispatch V st (SS_Rmattrs ob ns cap) = Some (Rc_Response rc',
      st\<lparr>ss_counts := (ss_counts st)\<lparr>n_rmattrs := n_rmattrs (ss_counts st) + 1\<rparr>, ss_lib := (ss_lib st)\<lparr>attr_db := d'\<rparr>\<rparr>)"
    by (simp add: ss_rmattrs_def checked_run [OF ok] True st library s d' Let_def flip: d'(3))
  show ?thesis
    by (rule accepted [OF ok run change_db(1) [OF st(2)]])
      (use True d'(2) m abs_attrs [OF change_db(2) [OF st(2)] d'(4)] in \<open>simp_all add: spec_case_def\<close>)
qed

lemma serve_rmattr:
  assumes ok: "storage_ok S F C st" and fits: "plain_name n"
  shows "serves V st (SS_Rmattr ob n cap)"
proof (cases "spec_guard V (ss_abs F C st) ob cap LWFS_CONTAINER_READ = LWFS_OK")
  case False
  then show ?thesis
    by (intro refused [OF ok]) (auto simp: ss_rmattr_def checked_run [OF ok] spec_case_def storage_okD [OF ok] library)
next
  case True
  note st = storage_okD [OF ok]
  obtain rc s where s: "sysio_obj_rmattr S (ss_lib st) ob n = (rc, s)" by (cases "sysio_obj_rmattr S (ss_lib st) ob n")
  then have ss: "sysio_obj_rmattrs S (ss_lib st) ob [n] = (rc, s)"
    by (auto simp: sysio_obj_rmattr_def split: prod.splits)
  obtain rc' m where m: "spec_rmattrs (obj_attrs C (ss_lib st) (obj_oid ob)) [n] = (rc', m)"
    by (cases "spec_rmattrs (obj_attrs C (ss_lib st) (obj_oid ob)) [n]")
  obtain d' where d': "s = (ss_lib st)\<lparr>attr_db := d'\<rparr>" "attrs_ok C d'" "storage_rc rc = rc'"
    "obj_attrs C ((ss_lib st)\<lparr>attr_db := d'\<rparr>) = (obj_attrs C (ss_lib st))(obj_oid ob := m)"
    using rmattrs_spec [OF st(3) _ ss] fits m by auto
  have run: "ss_dispatch V st (SS_Rmattr ob n cap) = Some (Rc_Response rc',
      st\<lparr>ss_counts := (ss_counts st)\<lparr>n_rmattr := n_rmattr (ss_counts st) + 1\<rparr>, ss_lib := (ss_lib st)\<lparr>attr_db := d'\<rparr>\<rparr>)"
    by (simp add: ss_rmattr_def checked_run [OF ok] True st library s d' Let_def flip: d'(3))
  show ?thesis
    by (rule accepted [OF ok run change_db(1) [OF st(2)]])
      (use True d'(2) m abs_attrs [OF change_db(2) [OF st(2)] d'(4)] in \<open>simp_all add: spec_case_def\<close>)
qed

lemma serve_getattrs:
  assumes ok: "storage_ok S F C st" and fits: "list_all plain_name ns"
  shows "serves V st (SS_Getattrs ob ns cap)"
proof (cases "spec_guard V (ss_abs F C st) ob cap LWFS_CONTAINER_READ = LWFS_OK")
  case False
  then show ?thesis
    by (intro refused [OF ok]) (auto simp: ss_getattrs_def checked_run [OF ok] spec_case_def storage_okD [OF ok] library)
next
  case True
  note st = storage_okD [OF ok]
  obtain rc as os where g: "sysio_obj_getattrs S (ss_lib st) ob ns = Some (rc, as, (ss_lib st)\<lparr>os_st := os\<rparr>)"
    "F os = F (os_st (ss_lib st))" "spec_getattrs (obj_attrs C (ss_lib st) (obj_oid ob)) ns = (storage_rc rc, as)"
    using getattrs_spec [OF st(3) fits, of ob] by auto
  have run: "ss_dispatch V st (SS_Getattrs ob ns cap) = Some (Attrs_Response (storage_rc rc) as,
      st\<lparr>ss_counts := (ss_counts st)\<lparr>n_getattrs := n_getattrs (ss_counts st) + 1\<rparr>, ss_lib := (ss_lib st)\<lparr>os_st := os\<rparr>\<rparr>)"
    by (simp add: ss_getattrs_def checked_run [OF ok] True st library g(1) Let_def)
  show ?thesis
    by (rule accepted [OF ok run change_os(1) [OF st(2) g(2)]])
      (use True st(3) g(3) abs_same [of "(ss_lib st)\<lparr>os_st := os\<rparr>" st, OF change_os(2) [OF st(2) g(2)]] in
        \<open>simp_all add: spec_case_def\<close>)
qed

lemma serve_getattr:
  assumes ok: "storage_ok S F C st" and fits: "plain_name n"
  shows "serves V st (SS_Getattr ob n cap)"
proof (cases "spec_guard V (ss_abs F C st) ob cap LWFS_CONTAINER_READ = LWFS_OK")
  case False
  then show ?thesis
    by (intro refused [OF ok]) (auto simp: ss_getattr_def checked_run [OF ok] spec_case_def storage_okD [OF ok] library)
next
  case True
  note st = storage_okD [OF ok]
  let ?v = "obj_attrs C (ss_lib st) (obj_oid ob) n"
  obtain os where g: "sysio_obj_getattr S (ss_lib st) ob n =
      Some (case ?v of None \<Rightarrow> Inl LWFS_ERR_NOENT | Some v \<Rightarrow> Inr \<lparr>attr_name = n, attr_value = v\<rparr>, (ss_lib st)\<lparr>os_st := os\<rparr>)"
    "F os = F (os_st (ss_lib st))" using getattr_ok [OF st(3)] plain_nameD(1) [OF fits] by blast
  have run: "ss_dispatch V st (SS_Getattr ob n cap) = Some (Attr_Response (case ?v of None \<Rightarrow> Inl LWFS_ERR_STORAGE
        | Some v \<Rightarrow> Inr \<lparr>attr_name = n, attr_value = v\<rparr>),
      st\<lparr>ss_counts := (ss_counts st)\<lparr>n_getattr := n_getattr (ss_counts st) + 1\<rparr>, ss_lib := (ss_lib st)\<lparr>os_st := os\<rparr>\<rparr>)"
    by (simp add: ss_getattr_def checked_run [OF ok] True st library g(1) Let_def split: option.split)
  show ?thesis
    by (rule accepted [OF ok run change_os(1) [OF st(2) g(2)]])
      (use True st(3) abs_same [of "(ss_lib st)\<lparr>os_st := os\<rparr>" st, OF change_os(2) [OF st(2) g(2)]] in
        \<open>simp_all add: spec_case_def\<close>)
qed

lemma serve_listattrs:
  assumes ok: "storage_ok S F C st"
  shows "serves V st (SS_Listattrs ob cap)"
proof (cases "spec_guard V (ss_abs F C st) ob cap LWFS_CONTAINER_READ = LWFS_OK")
  case False
  then show ?thesis
    by (intro refused [OF ok]) (auto simp: ss_listattrs_def checked_run [OF ok] spec_case_def storage_okD [OF ok] library)
next
  case True
  note st = storage_okD [OF ok]
  obtain os names where g: "sysio_obj_listattrs S (ss_lib st) ob =
      Some (if names = [] then LWFS_ERR_NOENT else LWFS_OK, names, (ss_lib st)\<lparr>os_st := os\<rparr>)"
    "F os = F (os_st (ss_lib st))" "distinct names" "set names = {n. obj_attrs C (ss_lib st) (obj_oid ob) n \<noteq> None}"
    using listattrs_ok [OF st(3)] by blast
  have run: "ss_dispatch V st (SS_Listattrs ob cap) = Some (Names_Response (if names = [] then LWFS_ERR_STORAGE else LWFS_OK) names,
      st\<lparr>ss_counts := (ss_counts st)\<lparr>n_listattrs := n_listattrs (ss_counts st) + 1\<rparr>, ss_lib := (ss_lib st)\<lparr>os_st := os\<rparr>\<rparr>)"
    by (simp add: ss_listattrs_def checked_run [OF ok] True st library g(1) storage_rc_def Let_def)
  show ?thesis
    by (rule accepted [OF ok run change_os(1) [OF st(2) g(2)]])
      (use True st(3) g(3,4) abs_same [of "(ss_lib st)\<lparr>os_st := os\<rparr>" st, OF change_os(2) [OF st(2) g(2)]] in
        \<open>auto simp: spec_case_def dom_def\<close>)
qed

end

subsection \<open>All requests\<close>

text \<open>
  The elements in the list of open files are still there. Removing an object that was created and
  not opened since breaks this, and a later removal may follow the pointer to the freed element.
\<close>

definition no_dangling :: "('os, 'd) sysio_state \<Rightarrow> bool" where
  "no_dangling st \<longleftrightarrow> (\<forall>p\<in>set (open_files_list st). oid_els st p \<noteq> None)"

lemma find_item_defined: "\<forall>x\<in>set xs. cmp x \<noteq> None \<Longrightarrow> list_find_item cmp xs \<noteq> None"
  by (induction xs) (auto split: option.splits)

lemma delete_defined: "\<forall>x\<in>set xs. cmp x \<noteq> None \<Longrightarrow> tclist_delete cmp xs \<noteq> None"
  using find_item_defined [of xs cmp] by (auto simp: tclist_delete_def split: option.splits)

context sysio_server begin

lemma serve_remove:
  assumes ok: "storage_ok S F C st" and ret: "ss_dispatch V st (SS_Remove ob cap) \<noteq> None"
  shows "serves V st (SS_Remove ob cap)"
proof (cases "spec_guard V (ss_abs F C st) ob cap LWFS_CONTAINER_WRITE = LWFS_OK")
  case False
  then show ?thesis
    by (intro refused [OF ok]) (auto simp: ss_remove_obj_def checked_run [OF ok] spec_case_def)
next
  case True
  note st = storage_okD [OF ok]
  obtain d where d: "objects F (ss_lib st) (obj_oid ob) = Some d" by (rule guard_object [OF True])
  obtain rc s where s: "sysio_obj_remove S (ss_lib st) ob = Some (rc, s)"
    using ret by (cases "sysio_obj_remove S (ss_lib st) ob")
      (auto simp: ss_remove_obj_def checked_run [OF ok] True st library in_lib_def)
  note r = remove_ok [OF st(2,3) d s]
  have attrs: "obj_attrs C s = (obj_attrs C (ss_lib st))(obj_oid ob := (\<lambda>n. None))"
    using r by (simp add: obj_attrs_def fun_eq_iff)
  have run: "ss_dispatch V st (SS_Remove ob cap) = Some (Rc_Response LWFS_OK,
      st\<lparr>ss_counts := (ss_counts st)\<lparr>n_remove_obj := n_remove_obj (ss_counts st) + 1\<rparr>, ss_lib := s\<rparr>)"
    using r by (simp add: ss_remove_obj_def checked_run [OF ok] True st library in_lib_def s)
  have "\<lparr>sp_objects = objects F s, sp_attrs = obj_attrs C s\<rparr> =
      set_attrs (obj_oid ob) (\<lambda>n. None) (set_object (obj_oid ob) None (ss_abs F C st))"
    using r attrs by (simp add: ss_abs_def set_attrs_def set_object_def)
  then show ?thesis
    by (intro accepted [OF ok run]) (use True r in \<open>simp_all add: spec_case_def\<close>)
qed

lemma remove_returns:
  assumes ok: "storage_ok S F C st" and live: "no_dangling (ss_lib st)"
  shows "ss_dispatch V st (SS_Remove ob cap) \<noteq> None"
proof (cases "spec_guard V (ss_abs F C st) ob cap LWFS_CONTAINER_WRITE = LWFS_OK")
  case False
  then show ?thesis by (simp add: ss_remove_obj_def checked_run [OF ok])
next
  case True
  note st = storage_okD [OF ok]
  let ?oid = "obj_oid ob" and ?s = "ss_lib st"
  obtain d where d: "objects F ?s ?oid = Some d" by (rule guard_object [OF True])
  obtain p where p: "mt.lookup (oid_hash ?s) ?oid = Some p" using sysio_okD(5) [OF st(2), of ?oid] d by auto
  obtain el where el: "oid_els ?s p = Some el" using sysio_okD(3) [OF st(2) p] by blast
  obtain t where t: "mt_hashtable_remove (oid_hash ?s) ?oid = Some (Some p, t)"
    using mt.remove_single [OF sysio_okD(2) [OF st(2)], of ?oid] p by auto
  have "tclist_delete (compare_oid_els (?s\<lparr>oid_hash := t\<rparr>) p) (open_files_list ?s) \<noteq> None"
    by (rule delete_defined) (use live el in \<open>auto simp: no_dangling_def compare_oid_els_def deref_def\<close>)
  then obtain r l where l: "tclist_delete (compare_oid_els (?s\<lparr>oid_hash := t\<rparr>) p) (open_files_list ?s) = Some (r, l)"
    by auto
  have "close_the_open_file S (?s\<lparr>oid_hash := t, open_files_list := l\<rparr>) p \<noteq> None"
    using el by (auto simp: close_the_open_file_def deref_def Let_def split: prod.splits)
  then have "remove_from_open_files S (?s\<lparr>oid_hash := t\<rparr>) p \<noteq> None"
    by (simp add: remove_from_open_files_def l)
  then have "remove_oid S ?s ?oid \<noteq> None"
    using el by (auto simp: remove_oid_def t deref_def Let_def)
  then obtain b s1 where "remove_oid S ?s ?oid = Some (b, s1)" by auto
  then have "remove_obj_by_oid S ?s ?oid \<noteq> None"
    by (auto simp: remove_obj_by_oid_def Let_def split: prod.splits)
  then obtain rc s2 where s2: "remove_obj_by_oid S ?s ?oid = Some (rc, s2)" by auto
  note rem = remove_by_oid_ok [OF st(2) d s2]
  obtain os3 names where "sysio_obj_listattrs S s2 ob =
      Some (if names = [] then LWFS_ERR_NOENT else LWFS_OK, names, s2\<lparr>os_st := os3\<rparr>)"
    using listattrs_ok [of s2 ob] rem st(3) by auto
  then have "sysio_obj_remove S ?s ob \<noteq> None" using rem s2 by (simp add: sysio_obj_remove_def)
  then show ?thesis
    by (auto simp: ss_remove_obj_def checked_run [OF ok] True st library in_lib_def)
qed

lemma storage_serves:
  assumes ok: "storage_ok S F C st" and room: "storage_room st" and fits: "request_fits req"
    and rem: "(\<exists>ob cap. req = SS_Remove ob cap) \<Longrightarrow> ss_dispatch V st req \<noteq> None"
  shows "serves V st req"
proof (cases req)
  case (SS_Remove ob cap)
  with rem show ?thesis using serve_remove [OF ok] by simp
next
  case (SS_Write ob off len cap bm got)
  with fits show ?thesis by (auto intro: serve_write [OF ok room])
qed (use fits in \<open>auto intro: serve_create [OF ok room] serve_read [OF ok room] serve_fsync [OF ok room]
  serve_truncate [OF ok room] serve_stat [OF ok room] serve_listattrs [OF ok] serve_getattrs [OF ok]
  serve_setattrs [OF ok] serve_rmattrs [OF ok] serve_getattr [OF ok] serve_setattr [OF ok] serve_rmattr [OF ok]\<close>)

lemma storage_step_ok:
  assumes "storage_ok S F C st" "storage_room st" "request_fits req" "ss_dispatch V st req = Some (r, st')"
  shows "storage_ok S F C st' \<and> store_step V (ss_abs F C st) req r (ss_abs F C st')"
  using storage_serves [OF assms(1-3), of V] assms(4) by (auto simp: serves_def)

lemma storage_returns:
  assumes "storage_ok S F C st" "storage_room st" "request_fits req" "no_dangling (ss_lib st)"
  shows "ss_dispatch V st req \<noteq> None"
proof -
  have "serves V st req"
  proof (rule storage_serves [OF assms(1-3)])
    assume "\<exists>ob cap. req = SS_Remove ob cap"
    then show "ss_dispatch V st req \<noteq> None" using remove_returns [OF assms(1,4), of V] by blast
  qed
  then show ?thesis by (auto simp: serves_def)
qed

end

end
