(* ===== verification/Sysio_Start.thy ===== *)
theory Sysio_Start imports Sysio_Ops begin

section \<open>Starting over the files of an earlier run\<close>

text \<open>
  A table in which every key has at most one value counts its keys, so the number of objects says
  whether there is room for another. \<open>init_ok\<close>: starting the library over a directory that holds
  the files of objects makes exactly these objects, with their contents.
\<close>

lemma distinct_by_filter: "(\<And>k. length (filter (\<lambda>x. f x = k) xs) \<le> 1) \<Longrightarrow> distinct (map f xs)"
proof (induction xs)
  case (Cons x xs)
  have "f x \<notin> f ` set xs"
  proof
    assume "f x \<in> f ` set xs"
    then have "filter (\<lambda>y. f y = f x) xs \<noteq> []" by (auto simp: filter_empty_conv)
    with Cons.prems [of "f x"] show False by simp
  qed
  moreover have "length (filter (\<lambda>y. f y = k) xs) \<le> 1" for k
    using Cons.prems [of k] by (simp split: if_splits)
  ultimately show ?case using Cons.IH by simp
qed simp

lemma single_count:
  assumes "mt.single t"
  shows "finite (dom (mt.lookup t)) \<and> card (dom (mt.lookup t)) = unat (entrycount (mt_table t))"
proof -
  let ?h = "mt_table t"
  let ?es = "concat (table ?h)"
  have ok: "ht_ok ?h" and one: "\<And>k. length (ht_vals ?h k) \<le> 1"
    using assms by (simp_all add: mt.single_def mt_ok_def mt_vals_def)
  have vals: "ht_vals ?h k = map e_v (filter (\<lambda>e. e_k e = k) ?es)" for k by (rule ht_vals_concat [OF ok])
  have "distinct (map e_k ?es)" by (rule distinct_by_filter) (use one in \<open>simp add: vals\<close>)
  moreover have "dom (mt.lookup t) = set (map e_k ?es)"
  proof (rule set_eqI)
    fix k
    have "k \<in> dom (mt.lookup t) \<longleftrightarrow> ht_vals ?h k \<noteq> []"
      by (cases "ht_vals ?h k") (auto simp: mt.lookup_def mt_vals_def)
    also have "\<dots> \<longleftrightarrow> k \<in> set (map e_k ?es)" by (force simp: vals filter_empty_conv)
    finally show "k \<in> dom (mt.lookup t) \<longleftrightarrow> k \<in> set (map e_k ?es)" .
  qed
  moreover have "unat (entrycount ?h) = length ?es" using ok by (simp add: ht_ok_def)
  ultimately show ?thesis by (metis List.finite_set distinct_card length_map)
qed

lemma room_card:
  assumes "mt.single t" "card (dom (mt.lookup t)) < 0xFFFFFFFF"
  shows "mt_room t"
proof -
  have "unat (entrycount (mt_table t)) < 0xFFFFFFFF" using single_count [OF assms(1)] assms(2) by simp
  then have "entrycount (mt_table t) \<noteq> -1" by (auto simp: unsigned_minus_1_eq_mask mask_eq_exp_minus_1)
  then show ?thesis by (simp add: mt_room_def ht_room_def eq_neg_iff_add_eq_0 add.commute)
qed

text \<open>The name of an object's file in its directory.\<close>

definition oid_file :: "lwfs_oid \<Rightarrow> string" where
  "oid_file oid = ''0x'' @ lwfs_oid_to_string oid"

lemma oid_file_inject: "oid_file a = oid_file b \<longleftrightarrow> a = b"
  by (simp add: oid_file_def oid_string_inject)

lemma oid_file_no_dot: "oid_file oid \<noteq> ''.''" "oid_file oid \<noteq> ''..''"
  by (simp_all add: oid_file_def)

lemma oid_file_path: "snprintf 64 (rt @ ''/'' @ oid_file oid) = obj_path rt oid"
  by (simp add: oid_path_def oid_file_def)

lemma oid_file_id: "lwfs_string_to_oid (drop 2 (oid_file oid)) = Some oid"
  by (simp add: oid_file_def oid_string_roundtrip)

text \<open>The table while the directory is read: an element for every file so far, none open.\<close>

definition loaded :: "('os, 'd) sysio_state \<Rightarrow> bool" where
  "loaded st \<longleftrightarrow> mt.single (oid_hash st) \<and>
     (\<forall>oid p. mt.lookup (oid_hash st) oid = Some p \<longrightarrow> oid_els st p = Some (new_el oid)) \<and>
     (\<forall>p e. oid_els st p = Some e \<longrightarrow> e = new_el (el_id e) \<and> mt.lookup (oid_hash st) (el_id e) = Some p \<and> p < next_el st)"

definition object_dents :: "('os, 'd) sysio_state \<Rightarrow> ('os \<Rightarrow> files) \<Rightarrow> string list \<Rightarrow> bool" where
  "object_dents st F dents \<longleftrightarrow> (\<forall>d\<in>set dents. d = ''.'' \<or> d = ''..'' \<or>
     (\<exists>oid. d = oid_file oid \<and> mt.lookup (oid_hash st) oid = None \<and>
       f_names (F (os_st st)) (obj_path (sysio_root st) oid) \<noteq> None))"

context sysio_server begin

lemma load_one:
  assumes ld: "loaded st" and room: "mt_room (oid_hash st)" and new: "mt.lookup (oid_hash st) oid = None"
    and there: "f_names (F (os_st st)) (obj_path (sysio_root st) oid) \<noteq> None"
  shows "\<exists>st'. repopulate_loop S True st (oid_file oid # dents) = repopulate_loop S True st' dents \<and> loaded st' \<and>
    mt.lookup (oid_hash st') = (mt.lookup (oid_hash st))(oid \<mapsto> next_el st) \<and> F (os_st st') = F (os_st st) \<and>
    sysio_root st' = sysio_root st \<and> attr_db st' = attr_db st \<and> open_files_list st' = open_files_list st"
proof -
  have single: "mt.single (oid_hash st)" using ld by (simp add: loaded_def)
  obtain os1 where os1: "os_malloc (posix_of S) (os_st st) = (True, os1)" "F os1 = F (os_st st)"
    using malloc_ok by blast
  obtain os2 where os2: "os_malloc (posix_of S) os1 = (True, os2)" "F os2 = F os1" using malloc_ok by blast
  obtain mem os3 where os3: "os_ht_mem (posix_of S) os2 = (mem, os3)" "enough mem" "F os3 = F os2"
    using ht_mem_ok by blast
  obtain t where t: "mt_hashtable_insert mem (oid_hash st) oid (next_el st) = Some (True, t)" "mt.single t"
    "mt.lookup t = (mt.lookup (oid_hash st))(oid \<mapsto> next_el st)"
    using mt.insert_single [OF single room os3(2) new] by blast
  define st' where "st' = st\<lparr>next_el := next_el st + 1, os_st := os3,
      oid_els := (oid_els st)(next_el st \<mapsto> new_el oid), oid_hash := t\<rparr>"
  have acc: "os_access (posix_of S) (os_st st) (snprintf 64 (sysio_root st @ ''/'' @ oid_file oid))"
    unfolding oid_file_path access_iff by (rule there)
  have run: "repopulate_loop S True st (oid_file oid # dents) = repopulate_loop S True st' dents"
    using acc os1(1) os2(1) os3(1) t(1) oid_file_id [of oid]
    by (simp add: oid_file_no_dot Let_def set_el_def st'_def)
  have "loaded st'"
    unfolding loaded_def
  proof (intro conjI allI impI)
    show "mt.single (oid_hash st')" using t(2) by (simp add: st'_def)
    fix o' p assume "mt.lookup (oid_hash st') o' = Some p"
    then have "o' = oid \<and> p = next_el st \<or> o' \<noteq> oid \<and> mt.lookup (oid_hash st) o' = Some p"
      by (auto simp: st'_def t(3) split: if_splits)
    moreover have "mt.lookup (oid_hash st) o' = Some p \<Longrightarrow> p \<noteq> next_el st \<and> oid_els st p = Some (new_el o')"
      using ld unfolding loaded_def by (metis less_irrefl)
    ultimately show "oid_els st' p = Some (new_el o')" by (auto simp: st'_def)
  next
    fix p e assume "oid_els st' p = Some e"
    then have e: "p = next_el st \<and> e = new_el oid \<or> p \<noteq> next_el st \<and> oid_els st p = Some e"
      by (auto simp: st'_def split: if_splits)
    moreover have "oid_els st p = Some e \<Longrightarrow> e = new_el (el_id e) \<and> mt.lookup (oid_hash st) (el_id e) = Some p \<and> p < next_el st"
      using ld unfolding loaded_def by blast
    ultimately show "e = new_el (el_id e)" "mt.lookup (oid_hash st') (el_id e) = Some p" "p < next_el st'"
      using new by (auto simp: st'_def t(3) new_el_def)
  qed
  moreover have "mt.lookup (oid_hash st') = (mt.lookup (oid_hash st))(oid \<mapsto> next_el st)" "F (os_st st') = F (os_st st)"
    "sysio_root st' = sysio_root st" "attr_db st' = attr_db st" "open_files_list st' = open_files_list st"
    by (simp_all add: st'_def t(3) os1(2) os2(2) os3(3))
  ultimately show ?thesis using run by blast
qed

lemma load_all:
  assumes "loaded st" "object_dents st F dents" "distinct dents"
    "card (dom (mt.lookup (oid_hash st))) + length dents \<le> 0xFFFFFFFF"
  shows "\<exists>st'. repopulate_loop S True st dents = Some (LWFS_OK, st') \<and> loaded st' \<and> F (os_st st') = F (os_st st) \<and>
    sysio_root st' = sysio_root st \<and> attr_db st' = attr_db st \<and> open_files_list st' = open_files_list st \<and>
    dom (mt.lookup (oid_hash st')) = dom (mt.lookup (oid_hash st)) \<union> {oid. oid_file oid \<in> set dents}"
  using assms
proof (induction dents arbitrary: st)
  case (Cons d dents)
  have fin: "finite (dom (mt.lookup (oid_hash st)))" using Cons.prems(1) single_count by (auto simp: loaded_def)
  show ?case
  proof (cases "d = ''.'' \<or> d = ''..''")
    case True
    then have "repopulate_loop S True st (d # dents) = repopulate_loop S True st dents" by auto
    moreover have "{oid. oid_file oid \<in> set (d # dents)} = {oid. oid_file oid \<in> set dents}"
      using True oid_file_no_dot by fastforce
    moreover have "object_dents st F dents" "distinct dents"
      "card (dom (mt.lookup (oid_hash st))) + length dents \<le> 0xFFFFFFFF"
      using Cons.prems by (simp_all add: object_dents_def)
    ultimately show ?thesis using Cons.IH [OF Cons.prems(1)] by simp
  next
    case False
    then obtain oid where oid: "d = oid_file oid" "mt.lookup (oid_hash st) oid = None"
      "f_names (F (os_st st)) (obj_path (sysio_root st) oid) \<noteq> None"
      using Cons.prems(2) by (auto simp: object_dents_def)
    have "mt_room (oid_hash st)"
      using Cons.prems(1,4) by (intro room_card) (auto simp: loaded_def)
    from load_one [OF Cons.prems(1) this oid(2,3), of dents] obtain st1 where
      st1: "repopulate_loop S True st (d # dents) = repopulate_loop S True st1 dents" "loaded st1"
      "mt.lookup (oid_hash st1) = (mt.lookup (oid_hash st))(oid \<mapsto> next_el st)" "F (os_st st1) = F (os_st st)"
      "sysio_root st1 = sysio_root st" "attr_db st1 = attr_db st" "open_files_list st1 = open_files_list st"
      unfolding oid(1) by blast
    have od: "object_dents st1 F dents"
      unfolding object_dents_def
    proof
      fix d' assume d': "d' \<in> set dents"
      with Cons.prems(3) have "d' \<noteq> oid_file oid" by (auto simp: oid(1))
      moreover from d' Cons.prems(2) have "d' = ''.'' \<or> d' = ''..'' \<or> (\<exists>oid. d' = oid_file oid \<and>
          mt.lookup (oid_hash st) oid = None \<and> f_names (F (os_st st)) (obj_path (sysio_root st) oid) \<noteq> None)"
        unfolding object_dents_def by (blast intro: list.set_intros)
      ultimately show "d' = ''.'' \<or> d' = ''..'' \<or> (\<exists>oid. d' = oid_file oid \<and>
          mt.lookup (oid_hash st1) oid = None \<and> f_names (F (os_st st1)) (obj_path (sysio_root st1) oid) \<noteq> None)"
        unfolding st1 by (metis fun_upd_other)
    qed
    have size: "card (dom (mt.lookup (oid_hash st1))) + length dents \<le> 0xFFFFFFFF"
      using Cons.prems(4) fin oid(2) by (simp add: st1(3) card_insert_disjoint domIff)
    have "distinct dents" using Cons.prems(3) by simp
    from Cons.IH [OF st1(2) od this size]
    obtain st' where "repopulate_loop S True st1 dents = Some (LWFS_OK, st')" "loaded st'"
      "F (os_st st') = F (os_st st1)" "sysio_root st' = sysio_root st1" "attr_db st' = attr_db st1"
      "open_files_list st' = open_files_list st1"
      "dom (mt.lookup (oid_hash st')) = dom (mt.lookup (oid_hash st1)) \<union> {oid. oid_file oid \<in> set dents}"
      by blast
    with st1 show ?thesis by (auto simp: oid(1) oid_file_inject)
  qed
qed simp

text \<open>The directory has the files of the objects and nothing else.\<close>

lemma init_ok:
  assumes short: "short_root root_dir" and inj: "inj_on (f_names (F os)) (dom (f_names (F os)))"
    and mk: "os_mkdir (posix_of S) os root_dir = (mk, os1)" "mk \<noteq> MKDIR_FAILED" "F os1 = F os"
    and dir: "os_readdir (posix_of S) (snd (os_malloc (posix_of S) os1)) root_dir = Some dents"
    and dents: "distinct dents" "length dents \<le> 0xFFFFFFFF"
      "\<And>d. d \<in> set dents \<Longrightarrow> d = ''.'' \<or> d = ''..'' \<or> (\<exists>oid. d = oid_file oid)"
      "\<And>oid. oid_file oid \<in> set dents \<longleftrightarrow> f_names (F os) (obj_path root_dir oid) \<noteq> None"
  shows "\<exists>st. sysio_obj_init S os d root_dir = Some (LWFS_OK, Some st) \<and> sysio_ok F st \<and>
    objects F st = (\<lambda>oid. map_option (f_data (F os)) (f_names (F os) (obj_path root_dir oid))) \<and>
    attr_db st = d \<and> open_files_list st = []"
proof -
  obtain os2 where os2: "os_malloc (posix_of S) os1 = (True, os2)" "F os2 = F os1" using malloc_ok by blast
  have "create_mt_hashtable True MAX_HASHTABLE oid_hash_func (=) \<noteq> (None :: (lwfs_oid, nat) mt_hashtable option)"
    by (simp add: create_mt_hashtable_def create_hashtable_def MAX_HASHTABLE_def split: prod.splits)
  then obtain t :: "(lwfs_oid, nat) mt_hashtable" where t: "create_mt_hashtable True MAX_HASHTABLE oid_hash_func (=) = Some t" by blast
  note tt = create_mt [OF t]
  define st0 where "st0 = \<lparr>oid_hash = t, open_files_list = [], oid_els = (\<lambda>p. None), next_el = 0,
      sysio_root = root_dir, os_st = os2, attr_db = d\<rparr>"
  have ld: "loaded st0" using tt by (simp add: loaded_def st0_def)
  have fs: "F (os_st st0) = F os" using os2(2) mk(3) by (simp add: st0_def)
  have empty: "mt.lookup (oid_hash st0) oid = None" "sysio_root st0 = root_dir" for oid using tt by (simp_all add: st0_def)
  have od: "object_dents st0 F dents"
    unfolding object_dents_def fs empty using dents(3,4) by blast
  have "card (dom (mt.lookup (oid_hash st0))) + length dents \<le> 0xFFFFFFFF" using dents(2) tt by (simp add: st0_def)
  from load_all [OF ld od dents(1) this] obtain st1 where st1: "repopulate_loop S True st0 dents = Some (LWFS_OK, st1)"
    "loaded st1" "F (os_st st1) = F os" "sysio_root st1 = root_dir" "attr_db st1 = d" "open_files_list st1 = []"
    "dom (mt.lookup (oid_hash st1)) = {oid. oid_file oid \<in> set dents}"
    using tt by (auto simp: fs) (auto simp: st0_def)
  obtain os3 where os3: "os_malloc (posix_of S) (os_st st1) = (True, os3)" "F os3 = F (os_st st1)" using malloc_ok by blast
  define st where "st = st1\<lparr>os_st := os3\<rparr>"
  have run: "sysio_obj_init S os d root_dir = Some (LWFS_OK, Some st)"
  proof -
    have "\<not> MAX_ROOT_LEN \<le> length root_dir" using short by (simp add: short_root_def MAX_ROOT_LEN_def)
    moreover have "repopulate_oid_hashtable S True st0 = Some (LWFS_OK, st1)"
      using dir st1(1) by (simp add: repopulate_oid_hashtable_def st0_def os2(1))
    ultimately show ?thesis
      using mk(1,2) os2(1) t os3(1) by (simp add: sysio_obj_init_def compare_oids_def st0_def st_def)
  qed
  have objs: "objects F st = (\<lambda>oid. map_option (f_data (F os)) (f_names (F os) (obj_path root_dir oid)))"
    by (simp add: objects_def st_def st1 os3 fun_eq_iff)
  have "sysio_ok F st"
  proof (rule sysio_okI)
    show "short_root (sysio_root st)" "mt.single (oid_hash st)" using short st1(2) by (simp_all add: st_def st1 loaded_def)
    show "\<exists>el. oid_els st p = Some el \<and> el_id el = oid" if "mt.lookup (oid_hash st) oid = Some p" for oid p
      using that st1(2) by (auto simp: st_def loaded_def new_el_def)
    have els: "el_fd e = 0 \<and> mt.lookup (oid_hash st) (el_id e) = Some p \<and> p < next_el st" if "oid_els st p = Some e" for p e
    proof -
      from that st1(2) have "e = new_el (el_id e)" "mt.lookup (oid_hash st) (el_id e) = Some p" "p < next_el st"
        unfolding loaded_def by (simp_all add: st_def)
      moreover from this(1) have "el_fd e = 0" by (metis new_el_def oid_el.select_convs(1))
      ultimately show ?thesis by simp
    qed
    show "mt.lookup (oid_hash st) (el_id e) = Some p \<and> p < next_el st" if "oid_els st p = Some e" for p e
      using els [OF that] by simp
    show "el_ok (F (os_st st)) (sysio_root st) e" if "oid_els st p = Some e" for p e
      using els [OF that] by (simp add: el_ok_def)
    show "mt.lookup (oid_hash st) oid \<noteq> None \<longleftrightarrow> objects F st oid \<noteq> None" for oid
    proof -
      have "mt.lookup (oid_hash st) oid \<noteq> None \<longleftrightarrow> oid \<in> dom (mt.lookup (oid_hash st1))" by (auto simp: st_def)
      also have "\<dots> \<longleftrightarrow> f_names (F os) (obj_path root_dir oid) \<noteq> None" using dents(4) by (simp add: st1(7))
      finally show ?thesis by (simp add: objs)
    qed
    show "inj_on (f_names (F (os_st st))) (dom (f_names (F (os_st st))))" using inj by (simp add: st_def os3 st1)
    show "p = q" if "oid_els st p = Some e" "oid_els st q = Some e'" "el_fd e = el_fd e'" "el_fd e \<noteq> 0" for p q e e'
      using els [OF that(1)] that(4) by simp
  qed
  then show ?thesis using run objs st1 by (auto simp: st_def)
qed

end

end
