(* ===== verification/Storage_Properties.thy ===== *)
theory Storage_Properties imports Storage_Spec Sysio_Start begin

section \<open>Properties of the storage server\<close>

text \<open>
  The properties of the storage server and of its libraries as closed statements. Their
  hypothesis \<open>sysio_server S F C\<close> is the documented behaviour of the file system (\<open>posix_files\<close>) and of
  Berkeley DB (\<open>attr_store\<close>); it holds for the files and the database in memory.
\<close>

subsection \<open>A server in memory\<close>

definition demo_S :: "(mem_os, mem_attrs) sysio_env" where
  "demo_S = \<lparr>posix_of = mem_posix, ssdb_of = mem_ssdb\<rparr>"

interpretation mem_storage: sysio_server demo_S mem_files map_of
proof -
  have "posix_of demo_S = mem_posix" "ssdb_of demo_S = mem_ssdb" by (simp_all add: demo_S_def)
  then show "sysio_server demo_S mem_files map_of"
    using mem_posix.posix_files_axioms mem_ss.attr_store_axioms by (simp add: sysio_server_def)
qed

lemmas demo_storage = mem_storage.sysio_server_axioms

text \<open>A directory with the file of object 77.\<close>

definition demo_os :: mem_os where
  "demo_os = \<lparr>m_names = [(obj_path ''/r'' 77, 1)], m_data = [(1, [5, 6, 7])], m_fds = []\<rparr>"

definition zero_ss_counter :: ss_counter where
  "zero_ss_counter = \<lparr>n_create_obj = 0, n_remove_obj = 0, n_read = 0, n_write = 0, n_fsync = 0,
     n_listattrs = 0, n_getattrs = 0, n_setattrs = 0, n_rmattrs = 0, n_listattr = 0, n_getattr = 0,
     n_setattr = 0, n_rmattr = 0, n_stat = 0, n_trunc = 0\<rparr>"

definition demo_ss :: "(mem_os, mem_attrs) sysio_state ss_state" where
  "demo_ss = \<lparr>ss_lib = the (snd (the (sysio_obj_init demo_S demo_os [] ''/r''))), ss_funcs = sysio_obj_funcs demo_S,
     ss_counts = zero_ss_counter\<rparr>"

definition demo_ob :: lwfs_obj where
  "demo_ob = zero_obj\<lparr>obj_oid := 77\<rparr>"

definition demo_cap_for :: "lwfs_cid \<Rightarrow> lwfs_container_op \<Rightarrow> lwfs_cap" where
  "demo_cap_for c ops = snd (generate_cap (\<lambda>k m. 0) [1, 2, 3] \<lparr>cid = c, container_op = ops, cred = undefined\<rparr>)"

abbreviation demo_V :: ss_verify where "demo_V \<equiv> \<lambda>caps. LWFS_OK"

lemma demo_mkdir: "os_mkdir mem_posix os d = (MKDIR_OK, os)"
  and demo_malloc: "os_malloc mem_posix os = (True, os)"
  by (simp_all add: mem_posix_def)

lemma demo_path: "obj_path ''/r'' oid = ''/r/'' @ oid_file oid"
  by (simp add: oid_path_short short_root_def oid_file_def)

lemma demo_dir: "os_readdir mem_posix demo_os ''/r'' = Some [oid_file 77]"
  by (simp add: mem_posix_def demo_os_def demo_path)

lemma demo_names: "f_names (mem_files demo_os) = [''/r/'' @ oid_file 77 \<mapsto> 1]"
  by (simp add: mem_files_def demo_os_def demo_path)

lemma demo_data: "f_data (mem_files demo_os) (Suc 0) = [5, 6, 7]"
proof -
  have "m_file demo_os (Suc 0) = [5, 6, 7]" unfolding m_file_def by (simp add: demo_os_def)
  then show ?thesis by (simp add: mem_files_def)
qed

lemma demo_started:
  "\<exists>st. sysio_obj_init demo_S demo_os [] ''/r'' = Some (LWFS_OK, Some st) \<and> sysio_ok mem_files st \<and>
    objects mem_files st = [77 \<mapsto> [5, 6, 7]] \<and> attr_db st = [] \<and> open_files_list st = []"
proof -
  have "\<exists>st. sysio_obj_init demo_S demo_os [] ''/r'' = Some (LWFS_OK, Some st) \<and> sysio_ok mem_files st \<and>
    objects mem_files st = (\<lambda>oid. map_option (f_data (mem_files demo_os)) (f_names (mem_files demo_os) (obj_path ''/r'' oid))) \<and>
    attr_db st = [] \<and> open_files_list st = []"
    by (rule mem_storage.init_ok [where mk = MKDIR_OK and ?os1.0 = demo_os and dents = "[oid_file 77]"])
      (auto simp: demo_S_def demo_mkdir demo_malloc demo_dir demo_names demo_path short_root_def oid_file_inject)
  moreover have "(\<lambda>oid. map_option (f_data (mem_files demo_os)) (f_names (mem_files demo_os) (obj_path ''/r'' oid))) =
      [77 \<mapsto> [5, 6, 7]]" by (auto simp: fun_eq_iff demo_names demo_data demo_path oid_file_inject)
  ultimately show ?thesis by simp
qed

lemma demo_ss_ok:
  "storage_ok demo_S mem_files map_of demo_ss" "storage_room demo_ss" "no_dangling (ss_lib demo_ss)"
  "sp_objects (ss_abs mem_files map_of demo_ss) = [77 \<mapsto> [5, 6, 7]]"
proof -
  obtain st where st: "sysio_obj_init demo_S demo_os [] ''/r'' = Some (LWFS_OK, Some st)" "sysio_ok mem_files st"
    "objects mem_files st = [77 \<mapsto> [5, 6, 7]]" "attr_db st = []" "open_files_list st = []" using demo_started by blast
  have lib: "ss_lib demo_ss = st" "ss_funcs demo_ss = sysio_obj_funcs demo_S" by (simp_all add: demo_ss_def st(1))
  show "storage_ok demo_S mem_files map_of demo_ss"
    by (simp add: storage_ok_def lib st(2,4) attrs_ok_def)
  have "mt.lookup (oid_hash st) oid \<noteq> None \<longleftrightarrow> oid = 77" for oid
    using sysio_okD(5) [OF st(2), of oid] by (simp add: st(3))
  then have "dom (mt.lookup (oid_hash st)) = {77}" by (simp add: dom_def)
  then have "mt_room (oid_hash st)" using sysio_okD(2) [OF st(2)] by (intro room_card) simp_all
  then show "storage_room demo_ss" by (simp add: storage_room_def lib open_room_def st(5) MAX_OPEN_FILES_def)
  show "no_dangling (ss_lib demo_ss)" by (simp add: lib no_dangling_def st(5))
  show "sp_objects (ss_abs mem_files map_of demo_ss) = [77 \<mapsto> [5, 6, 7]]" by (simp add: lib st(3))
qed

lemma demo_object: "obj_oid demo_ob = 77" by (simp add: demo_ob_def)

lemma demo_cap: "ss_verify_cap demo_V (demo_cap_for c ops) ob op =
    (if op = 0 then LWFS_ERR else if op AND ops \<noteq> op then LWFS_ERR_ACCESS else LWFS_OK)"
  by (simp add: ss_verify_cap_def demo_cap_for_def generate_cap_eq)

lemma demo_rights: "LWFS_CONTAINER_WRITE AND 24 = LWFS_CONTAINER_WRITE" "LWFS_CONTAINER_READ AND 24 = LWFS_CONTAINER_READ"
  "LWFS_CONTAINER_WRITE \<noteq> 0" "LWFS_CONTAINER_READ \<noteq> 0"
  by code_simp+

lemma demo_guard:
  "spec_guard demo_V (ss_abs mem_files map_of demo_ss) demo_ob (demo_cap_for c 24) LWFS_CONTAINER_WRITE = LWFS_OK"
  "spec_guard demo_V (ss_abs mem_files map_of demo_ss) demo_ob (demo_cap_for c 24) LWFS_CONTAINER_READ = LWFS_OK"
  using demo_ss_ok(4) by (simp_all add: spec_guard_def demo_cap demo_rights demo_object)

subsection \<open>The server and its specification\<close>

text \<open>C4: Every response and every change of the store is the one of the abstract store: a map from
  object ids to bytes with named values for each id, that answers request by request, refusals included. This holds in
  any state of the invariant with room for another open file and another object, for every request that fits: offsets and sizes
  below \<open>2 ^ 63\<close>, a read of less than \<open>2 ^ 32 - 1\<close> bytes, for a write a buffer that was allocated, and names and values of attributes
  within the arrays of an entry.\<close>

theorem storage_refines:
  assumes "sysio_server S F C" "storage_ok S F C st" "storage_room st" "request_fits req"
    "ss_dispatch V st req = Some (r, st')"
  shows "storage_ok S F C st' \<and> store_step V (ss_abs F C st) req r (ss_abs F C st')"
  by (rule sysio_server.storage_step_ok [OF assms])

theorem storage_refines_witness:
  "\<exists>r st'. ss_dispatch demo_V demo_ss (SS_Write demo_ob 1 2 (demo_cap_for 7 24) True (Inr [8, 9])) = Some (r, st') \<and>
    r = Rc_Response LWFS_OK \<and> sp_objects (ss_abs mem_files map_of st') 77 = Some [5, 8, 9]"
proof -
  let ?req = "SS_Write demo_ob 1 2 (demo_cap_for 7 24) True (Inr [8, 9])"
  have fits: "request_fits ?req" by (simp add: valid_off_def)
  obtain r st' where run: "ss_dispatch demo_V demo_ss ?req = Some (r, st')"
    using mem_storage.storage_returns [OF demo_ss_ok(1,2) fits demo_ss_ok(3), of demo_V] by auto
  note step = storage_refines [OF demo_storage demo_ss_ok(1,2) fits run]
  have "write_obj [5, 6, 7] 1 [8, 9] = [5, 8, 9]" by (simp add: write_obj_def overlay_def)
  with step run demo_ss_ok(4) show ?thesis
    by (simp add: spec_case_def demo_guard set_object_def demo_object del: abs_fields)
qed

text \<open>C24: In a state of the invariant with room for another open file and another object, every request that fits (as for the
  refinement: offsets and sizes a file can have, an allocated buffer for a write, names and values within the arrays) gets an answer, if the list of
  open files has no element that was freed.\<close>

theorem storage_requests_return:
  assumes "sysio_server S F C" "storage_ok S F C st" "storage_room st" "request_fits req" "no_dangling (ss_lib st)"
  shows "ss_dispatch V st req \<noteq> None"
  by (rule sysio_server.storage_returns [OF assms])

theorem storage_requests_return_witness:
  "ss_dispatch demo_V demo_ss (SS_Remove demo_ob (demo_cap_for 7 24)) \<noteq> None"
  by (rule storage_requests_return [OF demo_storage demo_ss_ok(1,2) _ demo_ss_ok(3)]) simp

text \<open>Bytes that were written are read back, whatever rights the reader's capability has besides.\<close>

theorem write_then_read:
  assumes "sysio_server S F C" "storage_ok S F C st" "storage_room st" "valid_off off" "unat len = length buf"
    "len < 0xFFFFFFFF" "buf \<noteq> []"
    and run: "ss_dispatch V st (SS_Write ob off len cap True (Inr buf)) = Some (Rc_Response LWFS_OK, st1)"
    and cap: "spec_guard V (ss_abs F C st) ob cap LWFS_CONTAINER_WRITE = LWFS_OK"
    and rd: "storage_room st1" "ss_verify_cap V rcap (Some ob) LWFS_CONTAINER_READ = LWFS_OK"
  shows "\<exists>st2. ss_dispatch V st1 (SS_Read ob off len rcap True LWFS_OK) =
    Some (Read_Response LWFS_OK (Some len) (map Some buf), st2)"
proof -
  have "request_fits (SS_Write ob off len cap True (Inr buf))" using assms(4,5) by simp
  note w = sysio_server.storage_step_ok [OF assms(1-3) this run]
  obtain d where d: "sp_objects (ss_abs F C st1) (obj_oid ob) = Some (write_obj d (unat off) buf)"
    using w cap by (simp add: spec_case_def set_object_def del: abs_fields)
  then have guard: "spec_guard V (ss_abs F C st1) ob rcap LWFS_CONTAINER_READ = LWFS_OK"
    using rd(2) by (simp add: spec_guard_def)
  have "sysio_server.serves S F C V st1 (SS_Read ob off len rcap True LWFS_OK)"
    by (rule sysio_server.serve_read [OF assms(1) _ rd(1) assms(4,6)]) (use w in simp_all)
  then obtain r st2 where r: "ss_dispatch V st1 (SS_Read ob off len rcap True LWFS_OK) = Some (r, st2)"
    "store_step V (ss_abs F C st1) (SS_Read ob off len rcap True LWFS_OK) r (ss_abs F C st2)"
    unfolding sysio_server.serves_def [OF assms(1)] by blast
  have "r = spec_read (read_obj (write_obj d (unat off) buf) (unat off) (unat len)) LWFS_OK"
    using r(2) guard d by (simp add: spec_case_def)
  also have "read_obj (write_obj d (unat off) buf) (unat off) (unat len) = buf"
    by (simp add: assms(5) read_write_obj)
  also have "spec_read buf LWFS_OK = Read_Response LWFS_OK (Some len) (map Some buf)"
    using assms(7) by (simp add: spec_read_def flip: assms(5))
  finally show ?thesis using r(1) by blast
qed

text \<open>A request changes the store only with a capability that the authorization server has
  verified and that allows to write, or, to remove attributes, to read.\<close>

fun storage_cap :: "ss_request \<Rightarrow> lwfs_cap" where
  "storage_cap (SS_Create ob cap) = cap"
| "storage_cap (SS_Remove ob cap) = cap"
| "storage_cap (SS_Read ob off len cap bm prc) = cap"
| "storage_cap (SS_Write ob off len cap bm got) = cap"
| "storage_cap (SS_Fsync ob cap) = cap"
| "storage_cap (SS_Listattrs ob cap) = cap"
| "storage_cap (SS_Getattrs ob ns cap) = cap"
| "storage_cap (SS_Setattrs ob as cap) = cap"
| "storage_cap (SS_Rmattrs ob ns cap) = cap"
| "storage_cap (SS_Getattr ob n cap) = cap"
| "storage_cap (SS_Setattr ob a cap) = cap"
| "storage_cap (SS_Rmattr ob n cap) = cap"
| "storage_cap (SS_Stat ob cap) = cap"
| "storage_cap (SS_Truncate ob sz cap) = cap"

fun storage_right :: "ss_request \<Rightarrow> lwfs_container_op" where
  "storage_right (SS_Rmattrs ob ns cap) = LWFS_CONTAINER_READ"
| "storage_right (SS_Rmattr ob n cap) = LWFS_CONTAINER_READ"
| "storage_right req = LWFS_CONTAINER_WRITE"

lemma verified_cap:
  assumes "ss_verify_cap V cap ob op = LWFS_OK"
  shows "V [cap] = LWFS_OK \<and> op AND container_op (cap_data cap) = op"
  using assms by (simp add: ss_verify_cap_def split: if_splits)

lemma guarded_cap: "spec_guard V a ob cap op = LWFS_OK \<Longrightarrow> V [cap] = LWFS_OK \<and> op AND container_op (cap_data cap) = op"
  using verified_cap [of V cap "Some ob" op] by (simp add: spec_guard_def split: if_splits)

lemma step_changes_checked:
  assumes "store_step V a req r a'" "a' \<noteq> a"
  shows "V [storage_cap req] = LWFS_OK \<and>
    storage_right req AND container_op (cap_data (storage_cap req)) = storage_right req"
  using assms by (cases req) (auto simp: spec_case_def split: if_splits dest!: guarded_cap verified_cap)

theorem storage_changes_need_cap:
  assumes "sysio_server S F C" "storage_ok S F C st" "storage_room st" "request_fits req"
    "ss_dispatch V st req = Some (r, st')" "ss_abs F C st' \<noteq> ss_abs F C st"
  shows "V [storage_cap req] = LWFS_OK \<and>
    storage_right req AND container_op (cap_data (storage_cap req)) = storage_right req"
  using sysio_server.storage_step_ok [OF assms(1-5)] step_changes_checked [OF _ assms(6)] by blast

text \<open>C10: Starting over a directory that holds the files of objects and nothing else makes exactly these
  objects, with the contents of their files.\<close>

theorem restart_recovers_objects:
  assumes "sysio_server S F C" "short_root root_dir" "inj_on (f_names (F os)) (dom (f_names (F os)))"
    "os_mkdir (posix_of S) os root_dir = (mk, os1)" "mk \<noteq> MKDIR_FAILED" "F os1 = F os"
    "os_readdir (posix_of S) (snd (os_malloc (posix_of S) os1)) root_dir = Some dents"
    "distinct dents" "length dents \<le> 0xFFFFFFFF"
    "\<And>n. n \<in> set dents \<Longrightarrow> n = ''.'' \<or> n = ''..'' \<or> (\<exists>oid. n = oid_file oid)"
    "\<And>oid. oid_file oid \<in> set dents \<longleftrightarrow> f_names (F os) (obj_path root_dir oid) \<noteq> None"
  shows "\<exists>st. sysio_obj_init S os d root_dir = Some (LWFS_OK, Some st) \<and> sysio_ok F st \<and>
    objects F st = (\<lambda>oid. map_option (f_data (F os)) (f_names (F os) (obj_path root_dir oid))) \<and>
    attr_db st = d \<and> open_files_list st = []"
  by (rule sysio_server.init_ok [OF assms])

theorem restart_recovers_objects_witness:
  "\<exists>st. sysio_obj_init demo_S demo_os [] ''/r'' = Some (LWFS_OK, Some st) \<and> objects mem_files st 77 = Some [5, 6, 7]"
proof -
  have "\<exists>st. sysio_obj_init demo_S demo_os [] ''/r'' = Some (LWFS_OK, Some st) \<and> sysio_ok mem_files st \<and>
    objects mem_files st = (\<lambda>oid. map_option (f_data (mem_files demo_os)) (f_names (mem_files demo_os) (obj_path ''/r'' oid))) \<and>
    attr_db st = [] \<and> open_files_list st = []"
    by (rule restart_recovers_objects [OF demo_storage, where mk = MKDIR_OK and ?os1.0 = demo_os and dents = "[oid_file 77]"])
      (auto simp: demo_S_def demo_mkdir demo_malloc demo_dir demo_names demo_path short_root_def oid_file_inject)
  then show ?thesis by (auto simp: demo_names demo_data demo_path)
qed

lemma demo_write_room:
  "(case ss_dispatch demo_V demo_ss (SS_Write demo_ob 1 2 (demo_cap_for 7 24) True (Inr [8, 9])) of
      None \<Rightarrow> False | Some (r, st) \<Rightarrow> r = Rc_Response LWFS_OK \<and> storage_room st)"
  by code_simp

theorem write_then_read_witness:
  "\<exists>st1 st2. ss_dispatch demo_V demo_ss (SS_Write demo_ob 1 2 (demo_cap_for 7 24) True (Inr [8, 9])) =
      Some (Rc_Response LWFS_OK, st1) \<and>
    ss_dispatch demo_V st1 (SS_Read demo_ob 1 2 (demo_cap_for 7 24) True LWFS_OK) =
      Some (Read_Response LWFS_OK (Some 2) [Some 8, Some 9], st2)"
proof -
  let ?w = "SS_Write demo_ob 1 2 (demo_cap_for 7 24) True (Inr [8, 9])"
  obtain st1 where st1: "ss_dispatch demo_V demo_ss ?w = Some (Rc_Response LWFS_OK, st1)" "storage_room st1"
    using demo_write_room by (cases "ss_dispatch demo_V demo_ss ?w") auto
  have "ss_verify_cap demo_V (demo_cap_for 7 24) (Some demo_ob) LWFS_CONTAINER_READ = LWFS_OK"
    by (simp add: demo_cap demo_rights)
  from write_then_read [OF demo_storage demo_ss_ok(1,2) _ _ _ _ st1(1) demo_guard(1) st1(2) this] st1(1)
  show ?thesis by (auto simp: valid_off_def)
qed

theorem storage_changes_need_cap_witness:
  "\<exists>r st'. ss_dispatch demo_V demo_ss (SS_Write demo_ob 1 2 (demo_cap_for 7 24) True (Inr [8, 9])) = Some (r, st') \<and>
    LWFS_CONTAINER_WRITE AND container_op (cap_data (demo_cap_for 7 24)) = LWFS_CONTAINER_WRITE"
proof -
  let ?req = "SS_Write demo_ob 1 2 (demo_cap_for 7 24) True (Inr [8, 9])"
  have fits: "request_fits ?req" by (simp add: valid_off_def)
  obtain r st' where run: "ss_dispatch demo_V demo_ss ?req = Some (r, st')"
    using mem_storage.storage_returns [OF demo_ss_ok(1,2) fits demo_ss_ok(3), of demo_V] by auto
  have "write_obj [5, 6, 7] 1 [8, 9] = [5, 8, 9]" by (simp add: write_obj_def overlay_def)
  with mem_storage.storage_step_ok [OF demo_ss_ok(1,2) fits run]
  have "sp_objects (ss_abs mem_files map_of st') 77 = Some [5, 8, 9]"
    by (simp add: spec_case_def demo_guard set_object_def demo_object demo_ss_ok(4) del: abs_fields)
  then have "ss_abs mem_files map_of st' \<noteq> ss_abs mem_files map_of demo_ss"
    using demo_ss_ok(4) by (auto simp del: abs_fields)
  from storage_changes_need_cap [OF demo_storage demo_ss_ok(1,2) fits run this] run show ?thesis
    by (simp del: ss_dispatch.simps)
qed

subsection \<open>Where the server differs from its documentation\<close>

text \<open>A truncation that was done is answered with \<^verbatim>\<open>LWFS_ERR_STORAGE\<close>: the library returns 1 for
  success, and the handler takes everything but 0 for a failure.\<close>

theorem truncate_reports_failure:
  assumes "sysio_server S F C" "storage_ok S F C st" "storage_room st" "valid_off sz"
    "sp_objects (ss_abs F C st) (obj_oid ob) = Some d" "ss_verify_cap V cap (Some ob) LWFS_CONTAINER_WRITE = LWFS_OK"
  shows "\<exists>st'. ss_truncate V st ob sz cap = Some (LWFS_ERR_STORAGE, st') \<and>
    sp_objects (ss_abs F C st') (obj_oid ob) = Some (resize d (unat sz))"
proof -
  let ?req = "SS_Truncate ob sz cap"
  obtain r st' where st': "ss_dispatch V st ?req = Some (r, st')" "store_step V (ss_abs F C st) ?req r (ss_abs F C st')"
    using sysio_server.serve_truncate [OF assms(1-4), of V ob cap] unfolding sysio_server.serves_def [OF assms(1)] by blast
  have "spec_guard V (ss_abs F C st) ob cap LWFS_CONTAINER_WRITE = LWFS_OK" using assms(5,6) by (simp add: spec_guard_def)
  with st'(2) assms(5) have "r = Rc_Response LWFS_ERR_STORAGE"
    "sp_objects (ss_abs F C st') (obj_oid ob) = Some (resize d (unat sz))"
    by (simp_all add: spec_case_def set_object_def del: abs_fields)
  with st'(1) show ?thesis by (cases "ss_truncate V st ob sz cap") auto
qed

theorem truncate_reports_failure_witness:
  "\<exists>st'. ss_truncate demo_V demo_ss demo_ob 1 (demo_cap_for 7 24) = Some (LWFS_ERR_STORAGE, st') \<and>
    sp_objects (ss_abs mem_files map_of st') 77 = Some [5]"
proof -
  have "ss_verify_cap demo_V (demo_cap_for 7 24) (Some demo_ob) LWFS_CONTAINER_WRITE = LWFS_OK"
    by (simp add: demo_cap demo_rights)
  from truncate_reports_failure [OF demo_storage demo_ss_ok(1,2) _ _ this, of 1 "[5, 6, 7]"] demo_ss_ok(4)
  show ?thesis by (simp add: valid_off_def demo_object resize_def)
qed

text \<open>C35: The container of an object is never compared with the container of the capability: two
  capabilities that verify and allow the same operations do the same to any object.\<close>

theorem container_not_checked:
  assumes "V [cap1] = V [cap2]" "container_op (cap_data cap1) = container_op (cap_data cap2)"
  shows "ss_read V st ob off len cap1 bm prc = ss_read V st ob off len cap2 bm prc \<and>
    ss_write V st ob off len cap1 bm got = ss_write V st ob off len cap2 bm got \<and>
    ss_truncate V st ob sz cap1 = ss_truncate V st ob sz cap2 \<and>
    ss_remove_obj V st ob cap1 = ss_remove_obj V st ob cap2"
proof -
  have "ss_verify_cap V cap1 x op = ss_verify_cap V cap2 x op" for x op
    using assms by (simp add: ss_verify_cap_def)
  then have "checked V s ob cap1 op = checked V s ob cap2 op" for s :: "'a ss_state" and op
    unfolding checked_def by presburger
  then show ?thesis by (simp add: ss_read_def ss_write_def ss_truncate_def ss_remove_obj_def)
qed

theorem container_not_checked_witness:
  "cid (cap_data (demo_cap_for 7 24)) \<noteq> cid (cap_data (demo_cap_for 8 24)) \<and>
   ss_remove_obj demo_V demo_ss demo_ob (demo_cap_for 7 24) = ss_remove_obj demo_V demo_ss demo_ob (demo_cap_for 8 24)"
  using container_not_checked [of demo_V "demo_cap_for 7 24" "demo_cap_for 8 24" demo_ss demo_ob]
  by (simp add: demo_cap_for_def generate_cap_eq)

text \<open>Removing an object that was created and not opened since leaves its freed element in the
  list of open files, and the next removal of an open object follows the pointer.\<close>

fun ss_runs :: "ss_verify \<Rightarrow> 's ss_state \<Rightarrow> ss_request list \<Rightarrow> (ss_response list \<times> 's ss_state) option" where
  "ss_runs V st [] = Some ([], st)"
| "ss_runs V st (req # reqs) = do {
     (r, st) \<leftarrow> ss_dispatch V st req;
     (rs, st) \<leftarrow> ss_runs V st reqs;
     Some (r # rs, st) }"

definition demo_obj1 :: lwfs_obj where "demo_obj1 = zero_obj\<lparr>obj_oid := 78\<rparr>"

definition demo_removals :: "ss_request list" where
  "demo_removals = [SS_Stat demo_ob (demo_cap_for 7 24), SS_Create demo_obj1 (demo_cap_for 7 24),
     SS_Remove demo_obj1 (demo_cap_for 7 24), SS_Remove demo_ob (demo_cap_for 7 24)]"

lemma demo_removals_none: "ss_runs demo_V demo_ss demo_removals = None" by code_simp

lemma demo_removals_some: "ss_runs demo_V demo_ss (butlast demo_removals) \<noteq> None" by code_simp

theorem removal_follows_freed_element:
  "ss_runs demo_V demo_ss demo_removals = None \<and> ss_runs demo_V demo_ss (butlast demo_removals) \<noteq> None"
  by (rule conjI [OF demo_removals_none demo_removals_some])

text \<open>When the file of an object cannot be opened, the element keeps the descriptor -1. The first
  read fails silently, with no bytes; the next one reports a byte that was never read.\<close>

definition demo_closed_ss :: "(mem_os, mem_attrs) sysio_state ss_state" where
  "demo_closed_ss = demo_ss\<lparr>ss_funcs :=
     sysio_obj_funcs (demo_S\<lparr>posix_of := mem_posix\<lparr>os_open := \<lambda>os f. (-1, os)\<rparr>\<rparr>)\<rparr>"

theorem failed_open_reads_garbage:
  "map_option fst (ss_runs demo_V demo_closed_ss
     (replicate 2 (SS_Read demo_ob 0 3 (demo_cap_for 7 24) True LWFS_OK))) =
   Some [Read_Response LWFS_OK (Some 0) [], Read_Response LWFS_OK (Some 1) [None]]"
  by code_simp

subsection \<open>Names of files and the table of objects\<close>

text \<open>C25: The printed form of an object id is read back as the id, so, with a root directory of at most
  28 characters, different objects have different files.\<close>

theorem oid_names_roundtrip:
  assumes "short_root rt"
  shows "lwfs_string_to_oid (lwfs_oid_to_string oid) = Some oid \<and>
    (oid_path 64 rt oid = oid_path 64 rt oid') = (oid = oid')"
  using oid_string_roundtrip [of oid] oid_path_inject [OF assms, of oid oid'] by blast

theorem oid_names_roundtrip_witness:
  "lwfs_string_to_oid (lwfs_oid_to_string 77) = Some 77 \<and> oid_path 64 ''/r'' 77 \<noteq> oid_path 64 ''/r'' 78"
  using oid_names_roundtrip [of "''/r''" 77 78] by (simp add: short_root_def)

text \<open>With a root directory of 61 characters or more the buffer of 64 cuts the name before the id, and
  all objects share one file.\<close>

theorem long_root_shares_files:
  assumes "61 \<le> length rt"
  shows "oid_path 64 rt oid = oid_path 64 rt oid'"
  by (rule oid_path_collides [OF assms])

theorem long_root_shares_files_witness:
  "oid_path 64 (replicate 61 CHR ''r'') 77 = oid_path 64 (replicate 61 CHR ''r'') 78"
  by (rule long_root_shares_files) simp

text \<open>C12: The hash table is a map from keys to values, for a table that has each key at most once: a search finds the value of
  a key; a removal of any key, wherever its entry is in its chain, gives the value back and leaves all other keys
  with theirs; and the insertion of a key that is not there, with an expansion of the table or without, adds it and leaves all other keys
  with theirs. An insertion needs room for the count (32 bits) and memory for the entry, and for the larger table or not
  even for an extension of the old one.\<close>

theorem hashtable_is_a_map:
  assumes "mt.single t"
  shows "mt_hashtable_search t k = Some (mt.lookup t k, t) \<and>
    (\<exists>t'. mt_hashtable_remove t k = Some (mt.lookup t k, t') \<and> mt.single t' \<and>
       (\<forall>k'. mt_hashtable_search t' k' = Some (if k' = k then None else mt.lookup t k', t'))) \<and>
    (mt_room t \<and> enough mem \<and> mt.lookup t k = None \<longrightarrow>
       (\<exists>t'. mt_hashtable_insert mem t k v = Some (True, t') \<and> mt.single t' \<and>
         (\<forall>k'. mt_hashtable_search t' k' = Some (if k' = k then Some v else mt.lookup t k', t'))))"
proof (intro conjI impI)
  show "mt_hashtable_search t k = Some (mt.lookup t k, t)" by (rule mt.find_single [OF assms])
  show "\<exists>t'. mt_hashtable_remove t k = Some (mt.lookup t k, t') \<and> mt.single t' \<and>
       (\<forall>k'. mt_hashtable_search t' k' = Some (if k' = k then None else mt.lookup t k', t'))"
    using mt.remove_single [OF assms, of k] by (auto simp: mt.find_single)
  assume "mt_room t \<and> enough mem \<and> mt.lookup t k = None"
  then show "\<exists>t'. mt_hashtable_insert mem t k v = Some (True, t') \<and> mt.single t' \<and>
         (\<forall>k'. mt_hashtable_search t' k' = Some (if k' = k then Some v else mt.lookup t k', t'))"
    using mt.insert_single [OF assms, of mem k v] by (auto simp: mt.find_single)
qed

definition demo_table :: "(u32, nat) mt_hashtable" where
  "demo_table = the (create_mt_hashtable True 100 (\<lambda>k. k) (=))"

lemma demo_table: "mt.single demo_table \<and> mt.lookup demo_table = (\<lambda>k. None) \<and> entrycount (mt_table demo_table) = 0"
proof -
  have "create_mt_hashtable True 100 (\<lambda>k. k) (=) \<noteq> (None :: (u32, nat) mt_hashtable option)"
    by (simp add: create_mt_hashtable_def create_hashtable_def split: prod.splits)
  then show ?thesis unfolding demo_table_def by (intro create_mt) auto
qed

text \<open>A table whose keys all fall into one chain: the first of two keys, behind the second in the chain, is removed.\<close>

definition chain_table :: "(u32, nat) mt_hashtable" where
  "chain_table = the (create_mt_hashtable True 100 (\<lambda>k. 0) (=))"

lemma chain_table: "mt.single chain_table" "mt.lookup chain_table = (\<lambda>k. None)"
proof -
  have "create_mt_hashtable True 100 (\<lambda>k. 0) (=) \<noteq> (None :: (u32, nat) mt_hashtable option)"
    by (simp add: create_mt_hashtable_def create_hashtable_def split: prod.splits)
  then show "mt.single chain_table" "mt.lookup chain_table = (\<lambda>k. None)" unfolding chain_table_def by (auto dest: create_mt)
qed

theorem hashtable_is_a_map_witness:
  "\<exists>t1 t2 t3. mt_hashtable_insert \<lparr>newtable_malloc = False, table_realloc = False, entry_malloc = True\<rparr> chain_table 5 6 = Some (True, t1) \<and>
    mt_hashtable_insert \<lparr>newtable_malloc = True, table_realloc = True, entry_malloc = True\<rparr> t1 7 8 = Some (True, t2) \<and>
    mt_hashtable_remove t2 5 = Some (Some 6, t3) \<and> mt_hashtable_search t3 5 = Some (None, t3) \<and>
    mt_hashtable_search t3 7 = Some (Some 8, t3)"
proof -
  let ?m1 = "\<lparr>newtable_malloc = False, table_realloc = False, entry_malloc = True\<rparr>"
    and ?m2 = "\<lparr>newtable_malloc = True, table_realloc = True, entry_malloc = True\<rparr>"
  have mem: "enough ?m1" "enough ?m2" by (simp_all add: enough_def)
  have room: "mt_room chain_table" by (rule room_card [OF chain_table(1)]) (simp_all add: chain_table(2))
  from hashtable_is_a_map [OF chain_table(1), where mem = ?m1 and k = 5 and v = 6] room mem(1) chain_table(2) obtain t1 where
    t1: "mt_hashtable_insert ?m1 chain_table 5 6 = Some (True, t1)" "mt.single t1"
    "\<forall>k'. mt_hashtable_search t1 k' = Some (if k' = 5 then Some 6 else None, t1)" by auto
  have l1: "mt.lookup t1 = (\<lambda>k. None)(5 \<mapsto> 6)" using t1(2,3) by (auto simp: fun_eq_iff mt.find_single)
  then have "mt_room t1" by (intro room_card [OF t1(2)]) simp_all
  with hashtable_is_a_map [OF t1(2), where mem = ?m2 and k = 7 and v = 8] mem(2) l1 obtain t2 where
    t2: "mt_hashtable_insert ?m2 t1 7 8 = Some (True, t2)" "mt.single t2"
    "\<forall>k'. mt_hashtable_search t2 k' = Some (if k' = 7 then Some 8 else mt.lookup t1 k', t2)" by auto
  have l2: "mt.lookup t2 5 = Some 6" "mt.lookup t2 7 = Some 8" using t2(2,3) by (simp_all add: mt.find_single l1)
  from hashtable_is_a_map [OF t2(2), where k = 5] t1(1) t2(1) l2 show ?thesis by auto
qed

text \<open>An insertion that cannot allocate its entry returns without unlocking the table: no later
  operation on it returns.\<close>

theorem failed_insertion_locks:
  assumes "\<not> mt_locked t" "\<not> entry_malloc mem" "newtable_malloc mem"
  shows "\<exists>t'. mt_hashtable_insert mem t k v = Some (False, t') \<and>
    (\<forall>mem k v. mt_hashtable_insert mem t' k v = None) \<and> (\<forall>k. mt_hashtable_search t' k = None) \<and>
    (\<forall>k. mt_hashtable_remove t' k = None) \<and> mt_hashtable_count t' = None"
proof -
  obtain r h where h: "hashtable_insert mem (mt_table t) k v = Some (r, h)"
    using insert_returns [of mem "mt_table t" k v] assms(3) by auto
  then have "\<not> r" using assms(2) by (auto simp: hashtable_insert_def Let_def split: option.splits if_splits prod.splits)
  with h assms(1) show ?thesis
    by (auto simp: mt_hashtable_insert_def mt_hashtable_search_def mt_hashtable_remove_def mt_hashtable_count_def Let_def)
qed

theorem failed_insertion_locks_witness:
  "\<exists>t'. mt_hashtable_insert \<lparr>newtable_malloc = True, table_realloc = True, entry_malloc = False\<rparr> demo_table 5 6 =
    Some (False, t') \<and> mt_hashtable_search t' 5 = None"
proof -
  have "\<not> mt_locked demo_table" using demo_table by (simp add: mt.single_def mt_ok_def)
  from failed_insertion_locks [OF this] show ?thesis by force
qed

end
