(* ===== verification/Io_Queue.thy ===== *)
theory Io_Queue imports Lwfs_Prelude "HOL-Library.Monad_Syntax" begin

section \<open>The I/O queue and the stack of buffers\<close>

text \<open>
  \<^verbatim>\<open>server/storage_server/{queue,buffer_stack}.c\<close>: a doubly linked queue and a linked stack,
  each under a mutex with a condition for arrivals. Nodes live in a store of addresses; following a
  pointer that is null or freed has no defined result (\<open>None\<close>). What \<^verbatim>\<open>pthread\<close> calls return
  is an argument (\<open>sync\<close>), and so are the states that a waiting thread finds when it wakes up,
  for other threads may have used the queue in between. An operation that is still
  waiting when this list is used up is \<open>Blocked\<close>.
\<close>

record 'q sync =
  sy_lock :: int
  sy_waits :: "(bool \<times> 'q) list" \<comment> \<open>whether the wait timed out, and the queue then\<close>
  sy_unlock :: int

datatype 'r blocking = Blocked | Returned 'r

definition no_wait :: "'q sync" where
  "no_wait = \<lparr>sy_lock = 0, sy_waits = [], sy_unlock = 0\<rparr>"

text \<open>The loop around \<^verbatim>\<open>pthread_cond_timedwait\<close>; the result is whether there is an item.\<close>

fun wait_item :: "('q \<Rightarrow> bool) \<Rightarrow> (bool \<times> 'q) list \<Rightarrow> 'q \<Rightarrow> (bool \<times> 'q) blocking" where
  "wait_item is_empty [] q = (if is_empty q then Blocked else Returned (True, q))"
| "wait_item is_empty ((timeout, q') # ws) q =
     (if \<not> is_empty q then Returned (True, q)
      else if timeout then Returned (False, q')
      else wait_item is_empty ws q')"

subsection \<open>The queue\<close>

record 'a queue_node =
  qn_data :: 'a
  qn_next :: "nat option"
  qn_prev :: "nat option"

record 'a queue =
  q_head :: "nat option"
  q_tail :: "nat option"
  q_nodes :: "nat \<rightharpoonup> 'a queue_node"
  q_fresh :: nat

definition queue_init :: "'a queue" where
  "queue_init = \<lparr>q_head = None, q_tail = None, q_nodes = (\<lambda>p. None), q_fresh = 0\<rparr>"

definition queue_empty :: "'a queue \<Rightarrow> bool" where
  "queue_empty q \<longleftrightarrow> q_head q = None"

text \<open>The steps of \<^verbatim>\<open>queue_pop\<close> and \<^verbatim>\<open>queue_append\<close> between locking and unlocking.
  The tail pointer is left dangling when the last item is removed.\<close>

definition queue_unlink :: "'a queue \<Rightarrow> ('a \<times> 'a queue) option" where
  "queue_unlink q = do {
     p \<leftarrow> q_head q;
     node \<leftarrow> q_nodes q p;
     let q = q\<lparr>q_head := qn_next node\<rparr> in do {
     q \<leftarrow> (case q_head q of
         None \<Rightarrow> Some q
       | Some h \<Rightarrow> do { n \<leftarrow> q_nodes q h; Some (q\<lparr>q_nodes := (q_nodes q)(h \<mapsto> n\<lparr>qn_prev := None\<rparr>)\<rparr>) });
     Some (qn_data node, q\<lparr>q_nodes := (q_nodes q)(p := None)\<rparr>) } }"

definition queue_link :: "'a queue \<Rightarrow> 'a \<Rightarrow> 'a queue option" where
  "queue_link q x =
     (let p = q_fresh q; node = \<lparr>qn_data = x, qn_next = None, qn_prev = None\<rparr>; q = q\<lparr>q_fresh := p + 1\<rparr> in
      if queue_empty q then Some (q\<lparr>q_nodes := (q_nodes q)(p \<mapsto> node), q_head := Some p, q_tail := Some p\<rparr>)
      else do {
        t \<leftarrow> q_tail q;
        tn \<leftarrow> q_nodes q t;
        Some (q\<lparr>q_nodes := (q_nodes q)(t \<mapsto> tn\<lparr>qn_next := Some p\<rparr>, p \<mapsto> node\<lparr>qn_prev := Some t\<rparr>),
          q_tail := Some p\<rparr>) })"

text \<open>The result of \<^verbatim>\<open>queue_pop\<close> is null (\<open>None\<close>) after a timeout or a failed call.\<close>

definition queue_pop :: "'a queue sync \<Rightarrow> 'a queue \<Rightarrow> ('a option \<times> 'a queue) blocking option" where
  "queue_pop sy q =
     (if sy_lock sy \<noteq> 0 then Some (Returned (None, q))
      else (case wait_item queue_empty (sy_waits sy) q of
          Blocked \<Rightarrow> Some Blocked
        | Returned (ready, q) \<Rightarrow> do {
            (x, q) \<leftarrow> (if \<not> ready then Some (None, q) else map_option (map_prod Some id) (queue_unlink q));
            Some (Returned (if sy_unlock sy \<noteq> 0 then None else x, q)) }))"

text \<open>A node that cannot be allocated is not reported: the code returns \<^verbatim>\<open>LWFS_OK\<close>.\<close>

definition queue_append :: "'a queue sync \<Rightarrow> bool \<Rightarrow> 'a queue \<Rightarrow> 'a \<Rightarrow> (lwfs_return_code \<times> 'a queue) option" where
  "queue_append sy node_malloc q x =
     (if sy_lock sy \<noteq> 0 then Some (LWFS_ERR, q)
      else do {
        q \<leftarrow> (if \<not> node_malloc then Some q else queue_link q x);
        Some (if sy_unlock sy \<noteq> 0 then LWFS_ERR else LWFS_OK, q) })"

text \<open>The items freed by \<^verbatim>\<open>queue_destroy\<close>; \<open>sys n\<close> is what the calls of the \<open>n\<close>-th pop return.\<close>

partial_function (option) queue_free_items ::
  "(nat \<Rightarrow> 'a queue sync) \<Rightarrow> nat \<Rightarrow> 'a queue \<Rightarrow> ('a list \<times> 'a queue) option" where
  "queue_free_items sys n q =
     (if queue_empty q then Some ([], q)
      else do {
        r \<leftarrow> queue_pop (sys n) q;
        case r of
          Blocked \<Rightarrow> None
        | Returned (x, q) \<Rightarrow> do {
            (xs, q) \<leftarrow> queue_free_items sys (n + 1) q;
            Some (case x of None \<Rightarrow> xs | Some y \<Rightarrow> y # xs, q) } })"

definition queue_destroy ::
  "(nat \<Rightarrow> 'a queue sync) \<Rightarrow> int \<Rightarrow> int \<Rightarrow> 'a queue \<Rightarrow> (lwfs_return_code \<times> 'a list) option" where
  "queue_destroy sys mutex_rc cond_rc q = do {
     (xs, q) \<leftarrow> queue_free_items sys 0 q;
     Some (if mutex_rc \<noteq> 0 \<or> cond_rc \<noteq> 0 then LWFS_ERR else LWFS_OK, xs) }"

subsection \<open>The stack\<close>

record 'a stack_node =
  sn_buf :: 'a
  sn_next :: "nat option"

record 'a buffer_stack =
  bs_node :: "nat option"
  bs_nodes :: "nat \<rightharpoonup> 'a stack_node"
  bs_fresh :: nat

definition buffer_stack_init :: "'a buffer_stack" where
  "buffer_stack_init = \<lparr>bs_node = None, bs_nodes = (\<lambda>p. None), bs_fresh = 0\<rparr>"

definition buffer_stack_empty :: "'a buffer_stack \<Rightarrow> bool" where
  "buffer_stack_empty s \<longleftrightarrow> bs_node s = None"

definition stack_unlink :: "'a buffer_stack \<Rightarrow> ('a \<times> 'a buffer_stack) option" where
  "stack_unlink s = do {
     p \<leftarrow> bs_node s;
     node \<leftarrow> bs_nodes s p;
     Some (sn_buf node, s\<lparr>bs_node := sn_next node, bs_nodes := (bs_nodes s)(p := None)\<rparr>) }"

definition stack_link :: "'a buffer_stack \<Rightarrow> 'a \<Rightarrow> 'a buffer_stack" where
  "stack_link s x =
     (let p = bs_fresh s in
      s\<lparr>bs_node := Some p, bs_nodes := (bs_nodes s)(p \<mapsto> \<lparr>sn_buf = x, sn_next = bs_node s\<rparr>), bs_fresh := p + 1\<rparr>)"

definition buffer_stack_pop ::
  "'a buffer_stack sync \<Rightarrow> 'a buffer_stack \<Rightarrow> ('a option \<times> 'a buffer_stack) blocking option" where
  "buffer_stack_pop sy s =
     (if sy_lock sy \<noteq> 0 then Some (Returned (None, s))
      else (case wait_item buffer_stack_empty (sy_waits sy) s of
          Blocked \<Rightarrow> Some Blocked
        | Returned (ready, s) \<Rightarrow> do {
            (x, s) \<leftarrow> (if \<not> ready then Some (None, s) else map_option (map_prod Some id) (stack_unlink s));
            Some (Returned (if sy_unlock sy \<noteq> 0 then None else x, s)) }))"

definition buffer_stack_push ::
  "'a buffer_stack sync \<Rightarrow> bool \<Rightarrow> 'a buffer_stack \<Rightarrow> 'a \<Rightarrow> lwfs_return_code \<times> 'a buffer_stack" where
  "buffer_stack_push sy node_malloc s x =
     (if sy_lock sy \<noteq> 0 then (LWFS_ERR, s)
      else let s = (if \<not> node_malloc then s else stack_link s x) in
        (if sy_unlock sy \<noteq> 0 then LWFS_ERR else LWFS_OK, s))"

partial_function (option) buffer_stack_free ::
  "(nat \<Rightarrow> 'a buffer_stack sync) \<Rightarrow> nat \<Rightarrow> 'a buffer_stack \<Rightarrow> ('a list \<times> 'a buffer_stack) option" where
  "buffer_stack_free sys n s =
     (if buffer_stack_empty s then Some ([], s)
      else do {
        r \<leftarrow> buffer_stack_pop (sys n) s;
        case r of
          Blocked \<Rightarrow> None
        | Returned (x, s) \<Rightarrow> do {
            (xs, s) \<leftarrow> buffer_stack_free sys (n + 1) s;
            Some (case x of None \<Rightarrow> xs | Some y \<Rightarrow> y # xs, s) } })"

definition buffer_stack_destroy ::
  "(nat \<Rightarrow> 'a buffer_stack sync) \<Rightarrow> int \<Rightarrow> int \<Rightarrow> 'a buffer_stack \<Rightarrow> (lwfs_return_code \<times> 'a list) option" where
  "buffer_stack_destroy sys mutex_rc cond_rc s = do {
     (xs, s) \<leftarrow> buffer_stack_free sys 0 s;
     Some (if mutex_rc \<noteq> 0 \<or> cond_rc \<noteq> 0 then LWFS_ERR else LWFS_OK, xs) }"

declare queue_free_items.simps [code] buffer_stack_free.simps [code]

end
