(* ===== verification/Queue_Fifo.thy ===== *)
theory Queue_Fifo imports Io_Queue begin

section \<open>Queues and stacks as lists\<close>

text \<open>
  \<open>fifo\<close> is the contract of a queue: a relation to lists, insertion at the end, removal at the front.
  Whatever is put in and taken out, the items come out in the order they went in. \<open>queue_rep\<close> relates
  the linked queue to lists; \<open>stack_rep\<close> the stack.
\<close>

datatype 'a queue_use = Put 'a | Get

fun uses :: "('q \<Rightarrow> 'a \<Rightarrow> 'q option) \<Rightarrow> ('q \<Rightarrow> ('a \<times> 'q) option) \<Rightarrow> 'q \<Rightarrow> 'a queue_use list \<Rightarrow> ('a list \<times> 'q) option" where
  "uses put_item get_item q [] = Some ([], q)"
| "uses put_item get_item q (Put x # us) = do { q \<leftarrow> put_item q x; uses put_item get_item q us }"
| "uses put_item get_item q (Get # us) = do {
     (x, q) \<leftarrow> get_item q;
     (xs, q) \<leftarrow> uses put_item get_item q us;
     Some (x # xs, q) }"

fun items_put :: "'a queue_use list \<Rightarrow> 'a list" where
  "items_put [] = []"
| "items_put (Put x # us) = x # items_put us"
| "items_put (Get # us) = items_put us"

locale fifo =
  fixes rep :: "'q \<Rightarrow> 'a list \<Rightarrow> bool"
    and put_item :: "'q \<Rightarrow> 'a \<Rightarrow> 'q option"
    and get_item :: "'q \<Rightarrow> ('a \<times> 'q) option"
  assumes put_rep: "rep q xs \<Longrightarrow> \<exists>q'. put_item q x = Some q' \<and> rep q' (xs @ [x])"
    and get_rep: "rep q (x # xs) \<Longrightarrow> \<exists>q'. get_item q = Some (x, q') \<and> rep q' xs"
    and get_empty: "rep q [] \<Longrightarrow> get_item q = None"
begin

text \<open>Every item taken is the oldest: what was there and what was put in is what was taken and what is left.\<close>

lemma in_order:
  "rep q xs \<Longrightarrow> uses put_item get_item q us = Some (out, q') \<Longrightarrow> \<exists>ys. rep q' ys \<and> xs @ items_put us = out @ ys"
proof (induction us arbitrary: q xs out)
  case (Cons u us)
  show ?case
  proof (cases u)
    case (Put x)
    obtain q1 where "put_item q x = Some q1" "rep q1 (xs @ [x])" using put_rep [OF Cons.prems(1)] by blast
    with Cons.IH [of q1 "xs @ [x]" out] Cons.prems(2) Put show ?thesis by simp
  next
    case Get
    show ?thesis
    proof (cases xs)
      case Nil
      with Cons.prems Get show ?thesis by (simp add: get_empty)
    next
      case (Cons x xs')
      obtain q1 where q1: "get_item q = Some (x, q1)" "rep q1 xs'" using get_rep Cons.prems(1) Cons by blast
      then obtain out' where "uses put_item get_item q1 us = Some (out', q')" "out = x # out'"
        using \<open>uses put_item get_item q (u # us) = Some (out, q')\<close> Get by (auto simp: bind_eq_Some_conv)
      with Cons.IH [OF q1(2)] Cons Get show ?thesis by fastforce
    qed
  qed
qed auto

text \<open>As long as nothing is taken from an empty queue, every use has its effect.\<close>

lemma uses_defined:
  "rep q xs \<Longrightarrow> \<forall>n\<le>length us. length (filter (\<lambda>u. u = Get) (take n us)) \<le> length xs + length (items_put (take n us)) \<Longrightarrow>
    uses put_item get_item q us \<noteq> None"
proof (induction us arbitrary: q xs)
  case (Cons u us)
  have bound: "length (filter (\<lambda>u. u = Get) (u # take n us)) \<le> length xs + length (items_put (u # take n us))"
    if "n \<le> length us" for n using Cons.prems(2) that by (metis Suc_le_mono length_Cons take_Suc_Cons)
  show ?case
  proof (cases u)
    case (Put x)
    obtain q1 where q1: "put_item q x = Some q1" "rep q1 (xs @ [x])" using put_rep [OF Cons.prems(1)] by blast
    have "uses put_item get_item q1 us \<noteq> None"
      by (rule Cons.IH [OF q1(2)]) (use bound Put in auto)
    with q1 Put show ?thesis by simp
  next
    case Get
    with bound [of 0] obtain x xs' where xs: "xs = x # xs'" by (cases xs) auto
    obtain q1 where q1: "get_item q = Some (x, q1)" "rep q1 xs'" using get_rep Cons.prems(1) xs by blast
    have "uses put_item get_item q1 us \<noteq> None"
      by (rule Cons.IH [OF q1(2)]) (use bound Get xs in auto)
    with q1 Get show ?thesis by auto
  qed
qed simp

end

subsection \<open>The linked queue\<close>

fun chain :: "(nat \<rightharpoonup> 'a queue_node) \<Rightarrow> nat option \<Rightarrow> nat option \<Rightarrow> (nat \<times> 'a) list \<Rightarrow> bool" where
  "chain N prv p [] \<longleftrightarrow> p = None"
| "chain N prv p ((a, x) # axs) \<longleftrightarrow> p = Some a \<and>
     (\<exists>nxt. N a = Some \<lparr>qn_data = x, qn_next = nxt, qn_prev = prv\<rparr> \<and> chain N (Some a) nxt axs)"

lemma chain_other: "a \<notin> fst ` set axs \<Longrightarrow> chain (N(a := z)) prv p axs = chain N prv p axs"
proof (induction axs arbitrary: prv p)
  case (Cons bx axs)
  obtain b x where bx: "bx = (b, x)" by (cases bx)
  with Cons.prems have ab: "b \<noteq> a" "a \<notin> fst ` set axs" by force+
  have "chain (N(a := z)) (Some b) nxt axs = chain N (Some b) nxt axs" for nxt by (rule Cons.IH [OF ab(2)])
  with ab show ?case by (simp add: bx del: fun_upd_apply) (simp add: fun_upd_other del: fun_upd_apply)
qed simp

lemma chain_snoc:
  assumes "chain N prv p (axs @ [(t, x)])" "distinct (map fst (axs @ [(t, x)]))" "b \<notin> fst ` set (axs @ [(t, x)])"
    "N t = Some tn"
  shows "chain (N(t \<mapsto> tn\<lparr>qn_next := Some b\<rparr>, b \<mapsto> \<lparr>qn_data = y, qn_next = None, qn_prev = Some t\<rparr>)) prv p
    (axs @ [(t, x), (b, y)])"
  using assms
proof (induction axs arbitrary: prv p)
  case Nil
  then show ?case by (cases tn) auto
next
  case (Cons ax axs)
  obtain a z where ax: "ax = (a, z)" by (cases ax)
  with Cons.prems have ne: "a \<noteq> t" "a \<noteq> b" by force+
  from Cons.prems(1) obtain nxt where nxt: "p = Some a" "N a = Some \<lparr>qn_data = z, qn_next = nxt, qn_prev = prv\<rparr>"
    "chain N (Some a) nxt (axs @ [(t, x)])" by (auto simp: ax)
  have "chain (N(t \<mapsto> tn\<lparr>qn_next := Some b\<rparr>, b \<mapsto> \<lparr>qn_data = y, qn_next = None, qn_prev = Some t\<rparr>)) (Some a) nxt
      (axs @ [(t, x), (b, y)])"
    by (rule Cons.IH [OF nxt(3)]) (use Cons.prems in \<open>auto simp: ax\<close>)
  with nxt ne show ?case by (simp add: ax fun_upd_other del: fun_upd_apply)
qed

lemma chain_last: "chain N prv p (axs @ [(t, x)]) \<Longrightarrow> \<exists>tn. N t = Some tn"
  by (induction axs arbitrary: prv p) auto

definition queue_nodes_rep :: "'a queue \<Rightarrow> (nat \<times> 'a) list \<Rightarrow> bool" where
  "queue_nodes_rep q axs \<longleftrightarrow> chain (q_nodes q) None (q_head q) axs \<and> distinct (map fst axs) \<and>
     (\<forall>a\<in>fst ` set axs. a < q_fresh q) \<and> (axs \<noteq> [] \<longrightarrow> q_tail q = Some (fst (last axs)))"

definition queue_rep :: "'a queue \<Rightarrow> 'a list \<Rightarrow> bool" where
  "queue_rep q xs \<longleftrightarrow> (\<exists>axs. queue_nodes_rep q axs \<and> xs = map snd axs)"

lemma queue_init_rep: "queue_rep queue_init []"
  by (auto simp: queue_rep_def queue_nodes_rep_def queue_init_def)

lemma queue_empty_rep: "queue_rep q xs \<Longrightarrow> queue_empty q \<longleftrightarrow> xs = []"
proof -
  assume "queue_rep q xs"
  then obtain axs where axs: "queue_nodes_rep q axs" "xs = map snd axs" by (auto simp: queue_rep_def)
  then show ?thesis by (cases axs) (auto simp: queue_nodes_rep_def queue_empty_def)
qed

lemma queue_link_rep:
  assumes "queue_rep q xs"
  shows "\<exists>q'. queue_link q x = Some q' \<and> queue_rep q' (xs @ [x])"
proof -
  obtain axs where axs: "queue_nodes_rep q axs" "xs = map snd axs" using assms by (auto simp: queue_rep_def)
  let ?p = "q_fresh q" and ?node = "\<lparr>qn_data = x, qn_next = None, qn_prev = None\<rparr>"
  have fresh: "?p \<notin> fst ` set axs" using axs(1) by (auto simp: queue_nodes_rep_def)
  show ?thesis
  proof (cases axs rule: rev_cases)
    case Nil
    then have "queue_empty q" using queue_empty_rep [OF assms] axs(2) by simp
    then have "queue_link q x = Some (q\<lparr>q_fresh := ?p + 1, q_nodes := (q_nodes q)(?p \<mapsto> ?node),
        q_head := Some ?p, q_tail := Some ?p\<rparr>)" by (simp add: queue_link_def queue_empty_def Let_def)
    moreover have "queue_nodes_rep (q\<lparr>q_fresh := ?p + 1, q_nodes := (q_nodes q)(?p \<mapsto> ?node),
        q_head := Some ?p, q_tail := Some ?p\<rparr>) [(?p, x)]" by (simp add: queue_nodes_rep_def)
    ultimately show ?thesis unfolding queue_rep_def using axs(2) Nil by (intro exI conjI) auto
  next
    case (snoc bxs tx)
    obtain t y where tx: "tx = (t, y)" by (cases tx)
    have ne: "\<not> queue_empty q" using queue_empty_rep [OF assms] axs(2) snoc by simp
    have tl: "q_tail q = Some t" using axs(1) by (simp add: queue_nodes_rep_def snoc tx)
    have "chain (q_nodes q) None (q_head q) (bxs @ [(t, y)])" using axs(1) by (simp add: queue_nodes_rep_def snoc tx)
    from chain_last [OF this] obtain tn where tn: "q_nodes q t = Some tn" by blast
    define q' where "q' = q\<lparr>q_fresh := ?p + 1, q_nodes := (q_nodes q)(t \<mapsto> tn\<lparr>qn_next := Some ?p\<rparr>,
        ?p \<mapsto> ?node\<lparr>qn_prev := Some t\<rparr>), q_tail := Some ?p\<rparr>"
    have "queue_link q x = Some q'" using ne tl tn by (auto simp: queue_link_def queue_empty_def Let_def q'_def)
    moreover have "queue_nodes_rep q' (bxs @ [(t, y), (?p, x)])"
    proof -
      have "chain (q_nodes q') None (q_head q) (bxs @ [(t, y), (?p, x)])"
        using chain_snoc [of "q_nodes q" None "q_head q" bxs t y ?p tn x] axs(1) fresh tn
        by (simp add: queue_nodes_rep_def snoc tx q'_def)
      moreover have "distinct (map fst (bxs @ [(t, y), (?p, x)]))" using axs(1) fresh by (auto simp: queue_nodes_rep_def snoc tx)
      moreover have "\<forall>a\<in>fst ` set (bxs @ [(t, y), (?p, x)]). a < q_fresh q'"
        using axs(1) by (fastforce simp: queue_nodes_rep_def snoc tx q'_def less_Suc_eq)
      ultimately show ?thesis by (simp add: queue_nodes_rep_def q'_def)
    qed
    ultimately show ?thesis unfolding queue_rep_def using axs(2) snoc tx by (intro exI conjI) auto
  qed
qed

lemma queue_unlink_rep:
  assumes "queue_rep q (x # xs)"
  shows "\<exists>q'. queue_unlink q = Some (x, q') \<and> queue_rep q' xs"
proof -
  obtain a axs where axs: "queue_nodes_rep q ((a, x) # axs)" "xs = map snd axs"
    using assms by (auto simp: queue_rep_def)
  obtain nxt where nxt: "q_head q = Some a" "q_nodes q a = Some \<lparr>qn_data = x, qn_next = nxt, qn_prev = None\<rparr>"
    "chain (q_nodes q) (Some a) nxt axs" using axs(1) by (auto simp: queue_nodes_rep_def)
  show ?thesis
  proof (cases axs)
    case Nil
    then have "nxt = None" using nxt(3) by simp
    then have "queue_unlink q = Some (x, q\<lparr>q_head := None, q_nodes := (q_nodes q)(a := None)\<rparr>)"
      using nxt by (simp add: queue_unlink_def)
    moreover have "queue_nodes_rep (q\<lparr>q_head := None, q_nodes := (q_nodes q)(a := None)\<rparr>) []"
      by (simp add: queue_nodes_rep_def)
    ultimately show ?thesis unfolding queue_rep_def using axs(2) Nil by (intro exI conjI) auto
  next
    case (Cons bz bxs)
    obtain b z where bz: "bz = (b, z)" by (cases bz)
    obtain n2 where n2: "nxt = Some b" "q_nodes q b = Some \<lparr>qn_data = z, qn_next = n2, qn_prev = Some a\<rparr>"
      "chain (q_nodes q) (Some b) n2 bxs" using nxt(3) by (auto simp: Cons bz)
    have ne: "a \<noteq> b" "a \<notin> fst ` set bxs" "b \<notin> fst ` set bxs" using axs(1) by (auto simp: queue_nodes_rep_def Cons bz)
    define q' where "q' = q\<lparr>q_head := Some b, q_nodes := (q_nodes q)(b \<mapsto> \<lparr>qn_data = z, qn_next = n2, qn_prev = None\<rparr>,
        a := None)\<rparr>"
    have "queue_unlink q = Some (x, q')" using nxt n2 by (simp add: queue_unlink_def q'_def Let_def)
    moreover have "queue_nodes_rep q' ((b, z) # bxs)"
      using axs(1) n2(3) ne by (auto simp: queue_nodes_rep_def q'_def Cons bz chain_other)
    ultimately show ?thesis unfolding queue_rep_def using axs(2) Cons bz by (intro exI conjI) auto
  qed
qed

interpretation io_fifo: fifo queue_rep queue_link queue_unlink
proof
  show "queue_rep q [] \<Longrightarrow> queue_unlink q = None" for q :: "'a queue"
    using queue_empty_rep [of q "[]"] by (simp add: queue_unlink_def queue_empty_def)
qed (rule queue_link_rep queue_unlink_rep; assumption)+

text \<open>Destroying a queue frees what is in it, from the front, when the calls do not fail.\<close>

lemma queue_pop_rep:
  assumes "queue_rep q (x # xs)" "sy_lock sy = 0" "sy_unlock sy = 0"
  shows "\<exists>q'. queue_pop sy q = Some (Returned (Some x, q')) \<and> queue_rep q' xs"
proof -
  have ne: "\<not> queue_empty q" using queue_empty_rep [OF assms(1)] by simp
  then have "wait_item queue_empty (sy_waits sy) q = Returned (True, q)"
    by (cases "sy_waits sy") (auto simp: split_paired_all)
  with queue_unlink_rep [OF assms(1)] assms(2,3) show ?thesis by (auto simp: queue_pop_def)
qed

lemma queue_free_rep:
  assumes "\<forall>n. sy_lock (sys n) = 0 \<and> sy_unlock (sys n) = 0"
  shows "queue_rep q xs \<Longrightarrow> \<exists>q'. queue_free_items sys n q = Some (xs, q') \<and> queue_rep q' []"
proof (induction xs arbitrary: q n)
  case Nil
  then show ?case using queue_empty_rep [OF Nil] by (subst queue_free_items.simps) auto
next
  case (Cons x xs)
  have ne: "\<not> queue_empty q" using queue_empty_rep [OF Cons.prems] by simp
  obtain q1 where q1: "queue_pop (sys n) q = Some (Returned (Some x, q1))" "queue_rep q1 xs"
    using queue_pop_rep [OF Cons.prems] assms by blast
  obtain q' where "queue_free_items sys (n + 1) q1 = Some (xs, q')" "queue_rep q' []" using Cons.IH [OF q1(2)] by blast
  with q1(1) ne show ?case by (subst queue_free_items.simps) auto
qed

subsection \<open>The linked stack\<close>

fun stack_chain :: "(nat \<rightharpoonup> 'a stack_node) \<Rightarrow> nat option \<Rightarrow> (nat \<times> 'a) list \<Rightarrow> bool" where
  "stack_chain N p [] \<longleftrightarrow> p = None"
| "stack_chain N p ((a, x) # axs) \<longleftrightarrow> p = Some a \<and>
     (\<exists>nxt. N a = Some \<lparr>sn_buf = x, sn_next = nxt\<rparr> \<and> stack_chain N nxt axs)"

lemma stack_chain_other: "a \<notin> fst ` set axs \<Longrightarrow> stack_chain (N(a := z)) p axs = stack_chain N p axs"
proof (induction axs arbitrary: p)
  case (Cons bx axs)
  obtain b x where bx: "bx = (b, x)" by (cases bx)
  with Cons.prems have ab: "b \<noteq> a" "a \<notin> fst ` set axs" by force+
  have "stack_chain (N(a := z)) nxt axs = stack_chain N nxt axs" for nxt by (rule Cons.IH [OF ab(2)])
  with ab show ?case by (simp add: bx del: fun_upd_apply) (simp add: fun_upd_other del: fun_upd_apply)
qed simp

definition stack_rep :: "'a buffer_stack \<Rightarrow> 'a list \<Rightarrow> bool" where
  "stack_rep s xs \<longleftrightarrow> (\<exists>axs. stack_chain (bs_nodes s) (bs_node s) axs \<and> distinct (map fst axs) \<and>
     (\<forall>a\<in>fst ` set axs. a < bs_fresh s) \<and> xs = map snd axs)"

lemma stack_init_rep: "stack_rep buffer_stack_init []"
  by (simp add: stack_rep_def buffer_stack_init_def)

lemma stack_empty_rep: "stack_rep s xs \<Longrightarrow> buffer_stack_empty s \<longleftrightarrow> xs = []"
proof -
  assume "stack_rep s xs"
  then obtain axs where "stack_chain (bs_nodes s) (bs_node s) axs" "xs = map snd axs" by (auto simp: stack_rep_def)
  then show ?thesis by (cases axs) (auto simp: buffer_stack_empty_def)
qed

lemma stack_link_rep:
  assumes "stack_rep s xs"
  shows "stack_rep (stack_link s x) (x # xs)"
proof -
  obtain axs where axs: "stack_chain (bs_nodes s) (bs_node s) axs" "distinct (map fst axs)"
    "\<forall>a\<in>fst ` set axs. a < bs_fresh s" "xs = map snd axs" using assms by (auto simp: stack_rep_def)
  then have fresh: "bs_fresh s \<notin> fst ` set axs" by auto
  show ?thesis
    unfolding stack_rep_def
    by (rule exI [of _ "(bs_fresh s, x) # axs"])
      (use axs fresh in \<open>auto simp: stack_link_def Let_def stack_chain_other fun_upd_same less_Suc_eq simp del: fun_upd_apply\<close>)
qed

lemma stack_unlink_rep:
  assumes "stack_rep s (x # xs)"
  shows "\<exists>s'. stack_unlink s = Some (x, s') \<and> stack_rep s' xs"
proof -
  obtain a axs nxt where axs: "bs_node s = Some a" "bs_nodes s a = Some \<lparr>sn_buf = x, sn_next = nxt\<rparr>"
    "stack_chain (bs_nodes s) nxt axs" "a \<notin> fst ` set axs" "distinct (map fst axs)"
    "\<forall>b\<in>fst ` set axs. b < bs_fresh s" "xs = map snd axs" using assms by (auto simp: stack_rep_def)
  then have "stack_rep (s\<lparr>bs_node := nxt, bs_nodes := (bs_nodes s)(a := None)\<rparr>) xs"
    unfolding stack_rep_def by (intro exI [of _ axs]) (simp add: stack_chain_other)
  with axs show ?thesis by (simp add: stack_unlink_def)
qed

end
