(* ===== verification/Requests_Queue.thy ===== *)
theory Requests_Queue imports Queue_Fifo begin

section \<open>The lists of the thread pool\<close>

text \<open>
  \<^verbatim>\<open>support/threadpool/requests_queue.c\<close> and the list of
  \<^verbatim>\<open>handler_threads_pool.c\<close>: linked lists with a pointer to the last element and a count.
  The two C types have the same shape and share \<open>tp_list\<close>. The elements live in a store of addresses;
  following a pointer that is null or freed has no defined result. The mutex calls, whose results
  the code does not look at, and the condition variable are in \<open>Thread_Pool\<close>.
\<close>

record 'a tp_node =
  tn_data :: 'a
  tn_next :: "nat option"

record 'a tp_list =
  tl_first :: "nat option"
  tl_last :: "nat option"
  tl_num :: int
  tl_nodes :: "nat \<rightharpoonup> 'a tp_node"
  tl_fresh :: nat

definition init_requests_queue :: "'a tp_list" where
  "init_requests_queue = \<lparr>tl_first = None, tl_last = None, tl_num = 0, tl_nodes = (\<lambda>p. None), tl_fresh = 0\<rparr>"

text \<open>\<^verbatim>\<open>calloc\<close> and \<^verbatim>\<open>free\<close> of an element.\<close>

definition new_node :: "'a tp_list \<Rightarrow> 'a \<Rightarrow> nat \<times> 'a tp_list" where
  "new_node l x =
     (let p = tl_fresh l in
      (p, l\<lparr>tl_nodes := (tl_nodes l)(p \<mapsto> \<lparr>tn_data = x, tn_next = None\<rparr>), tl_fresh := p + 1\<rparr>))"

definition free_node :: "'a tp_list \<Rightarrow> nat \<Rightarrow> 'a tp_list option" where
  "free_node l p = (if tl_nodes l p = None then None else Some (l\<lparr>tl_nodes := (tl_nodes l)(p := None)\<rparr>))"

text \<open>Linking an element at the end, and \<^verbatim>\<open>add_request\<close>, which clears its pointer first.\<close>

definition link_last :: "'a tp_list \<Rightarrow> nat \<Rightarrow> 'a tp_list option" where
  "link_last l p =
     (if tl_num l = 0 then Some (l\<lparr>tl_first := Some p, tl_last := Some p, tl_num := tl_num l + 1\<rparr>)
      else do {
        t \<leftarrow> tl_last l;
        node \<leftarrow> tl_nodes l t;
        Some (l\<lparr>tl_nodes := (tl_nodes l)(t \<mapsto> node\<lparr>tn_next := Some p\<rparr>), tl_last := Some p, tl_num := tl_num l + 1\<rparr>) })"

definition add_request :: "'a tp_list \<Rightarrow> nat \<Rightarrow> 'a tp_list option" where
  "add_request queue p = do {
     node \<leftarrow> tl_nodes queue p;
     link_last (queue\<lparr>tl_nodes := (tl_nodes queue)(p \<mapsto> node\<lparr>tn_next := None\<rparr>)\<rparr>) p }"

definition get_request :: "'a tp_list \<Rightarrow> (nat option \<times> 'a tp_list) option" where
  "get_request queue =
     (if tl_num queue > 0 then do {
        p \<leftarrow> tl_first queue;
        node \<leftarrow> tl_nodes queue p;
        Some (Some p, queue\<lparr>tl_first := tn_next node,
          tl_last := (if tn_next node = None then None else tl_last queue), tl_num := tl_num queue - 1\<rparr>) }
      else Some (None, queue))"

definition get_requests_number :: "'a tp_list \<Rightarrow> int" where
  "get_requests_number queue = tl_num queue"

text \<open>\<^verbatim>\<open>delete_requests_queue\<close>; the result is what was still in the queue.\<close>

partial_function (option) delete_requests_queue :: "'a tp_list \<Rightarrow> 'a list option" where
  "delete_requests_queue queue =
     (if tl_num queue > 0 then do {
        (r, queue) \<leftarrow> get_request queue;
        p \<leftarrow> r;
        node \<leftarrow> tl_nodes queue p;
        queue \<leftarrow> free_node queue p;
        xs \<leftarrow> delete_requests_queue queue;
        Some (tn_data node # xs) }
      else Some [])"

declare delete_requests_queue.simps [code]

text \<open>Taking the first element out of the list of threads; the pointer to the last one stays.\<close>

definition unlink_first :: "'a tp_list \<Rightarrow> (nat option \<times> 'a tp_list) option" where
  "unlink_first l =
     (if tl_num l > 0 \<and> tl_first l \<noteq> None then do {
        p \<leftarrow> tl_first l;
        node \<leftarrow> tl_nodes l p;
        Some (Some p, l\<lparr>tl_first := tn_next node, tl_nodes := (tl_nodes l)(p \<mapsto> node\<lparr>tn_next := None\<rparr>),
          tl_num := tl_num l - 1\<rparr>) }
      else Some (None, l))"

subsection \<open>As lists\<close>

fun links :: "(nat \<rightharpoonup> 'a tp_node) \<Rightarrow> nat option \<Rightarrow> (nat \<times> 'a) list \<Rightarrow> bool" where
  "links N p [] \<longleftrightarrow> p = None"
| "links N p ((a, x) # axs) \<longleftrightarrow> p = Some a \<and> (\<exists>nxt. N a = Some \<lparr>tn_data = x, tn_next = nxt\<rparr> \<and> links N nxt axs)"

lemma links_other: "a \<notin> fst ` set axs \<Longrightarrow> links (N(a := z)) p axs = links N p axs"
proof (induction axs arbitrary: p)
  case (Cons bx axs)
  obtain b x where bx: "bx = (b, x)" by (cases bx)
  with Cons.prems have ab: "b \<noteq> a" "a \<notin> fst ` set axs" by force+
  have "links (N(a := z)) nxt axs = links N nxt axs" for nxt by (rule Cons.IH [OF ab(2)])
  with ab show ?case by (simp add: bx del: fun_upd_apply) (simp add: fun_upd_other del: fun_upd_apply)
qed simp

lemma links_data: "links N p axs \<Longrightarrow> (a, x) \<in> set axs \<Longrightarrow> \<exists>nxt. N a = Some \<lparr>tn_data = x, tn_next = nxt\<rparr>"
proof (induction axs arbitrary: p)
  case (Cons bx axs)
  then show ?case by (cases bx) auto
qed simp

lemma links_snoc:
  assumes "links N p (axs @ [(t, x)])" "distinct (map fst (axs @ [(t, x)]))" "b \<notin> fst ` set (axs @ [(t, x)])"
    "N t = Some tn" "N b = Some \<lparr>tn_data = y, tn_next = None\<rparr>"
  shows "links (N(t \<mapsto> tn\<lparr>tn_next := Some b\<rparr>)) p (axs @ [(t, x), (b, y)])"
  using assms
proof (induction axs arbitrary: p)
  case Nil
  then show ?case by (cases tn) auto
next
  case (Cons ax axs)
  obtain a z where ax: "ax = (a, z)" by (cases ax)
  with Cons.prems have ne: "a \<noteq> t" "a \<noteq> b" by force+
  from Cons.prems(1) obtain nxt where nxt: "p = Some a" "N a = Some \<lparr>tn_data = z, tn_next = nxt\<rparr>"
    "links N nxt (axs @ [(t, x)])" by (auto simp: ax)
  have "links (N(t \<mapsto> tn\<lparr>tn_next := Some b\<rparr>)) nxt (axs @ [(t, x), (b, y)])"
    by (rule Cons.IH [OF nxt(3)]) (use Cons.prems in \<open>auto simp: ax\<close>)
  with nxt ne show ?case by (simp add: ax fun_upd_other del: fun_upd_apply)
qed

text \<open>The list \<open>axs\<close> of addresses and data; elements outside it may exist.\<close>

definition list_rep :: "'a tp_list \<Rightarrow> (nat \<times> 'a) list \<Rightarrow> bool" where
  "list_rep l axs \<longleftrightarrow> links (tl_nodes l) (tl_first l) axs \<and> distinct (map fst axs) \<and>
     (\<forall>a. tl_nodes l a \<noteq> None \<longrightarrow> a < tl_fresh l) \<and> tl_num l = int (length axs) \<and>
     (axs \<noteq> [] \<longrightarrow> tl_last l = Some (fst (last axs)))"

lemma init_list_rep: "list_rep init_requests_queue []"
  by (simp add: list_rep_def init_requests_queue_def)

lemma list_rep_data: "list_rep l axs \<Longrightarrow> (a, x) \<in> set axs \<Longrightarrow> \<exists>nxt. tl_nodes l a = Some \<lparr>tn_data = x, tn_next = nxt\<rparr>"
  by (auto simp: list_rep_def intro: links_data)

lemma list_rep_fresh: "list_rep l axs \<Longrightarrow> tl_nodes l (tl_fresh l) = None \<and> tl_fresh l \<notin> fst ` set axs"
proof -
  assume rep: "list_rep l axs"
  then have none: "tl_nodes l (tl_fresh l) = None" by (force simp: list_rep_def)
  with list_rep_data [OF rep, of "tl_fresh l"] show ?thesis by fastforce
qed

lemma link_last_rep:
  assumes "list_rep l axs" "tl_nodes l p = Some \<lparr>tn_data = x, tn_next = None\<rparr>" "p \<notin> fst ` set axs"
  obtains l' where "link_last l p = Some l'" "list_rep l' (axs @ [(p, x)])" "tl_fresh l' = tl_fresh l"
    "\<forall>a. a \<notin> fst ` set axs \<longrightarrow> tl_nodes l' a = tl_nodes l a"
proof (cases axs rule: rev_cases)
  case Nil
  then have "link_last l p = Some (l\<lparr>tl_first := Some p, tl_last := Some p, tl_num := tl_num l + 1\<rparr>)"
    using assms(1) by (simp add: link_last_def list_rep_def)
  then show thesis using assms Nil by (elim that) (auto simp: list_rep_def)
next
  case (snoc bxs tx)
  obtain t y where tx: "tx = (t, y)" by (cases tx)
  have num: "tl_num l \<noteq> 0" "tl_last l = Some t" using assms(1) by (auto simp: list_rep_def snoc tx)
  obtain tn where tn: "tl_nodes l t = Some tn" using list_rep_data [OF assms(1), of t y] by (auto simp: snoc tx)
  have "links ((tl_nodes l)(t \<mapsto> tn\<lparr>tn_next := Some p\<rparr>)) (tl_first l) (bxs @ [(t, y), (p, x)])"
    by (rule links_snoc) (use assms tn in \<open>auto simp: list_rep_def snoc tx\<close>)
  then have "list_rep (l\<lparr>tl_nodes := (tl_nodes l)(t \<mapsto> tn\<lparr>tn_next := Some p\<rparr>), tl_last := Some p, tl_num := tl_num l + 1\<rparr>)
      (axs @ [(p, x)])" using assms tn by (auto simp: list_rep_def snoc tx)
  then show thesis using num tn by (elim that [rotated]) (auto simp: link_last_def snoc tx)
qed

lemma add_request_rep:
  assumes "list_rep q axs" "tl_nodes q p = Some \<lparr>tn_data = x, tn_next = None\<rparr>" "p \<notin> fst ` set axs"
  obtains q' where "add_request q p = Some q'" "list_rep q' (axs @ [(p, x)])" "tl_fresh q' = tl_fresh q"
    "\<forall>a. a \<notin> fst ` set axs \<longrightarrow> tl_nodes q' a = tl_nodes q a"
proof -
  have "q\<lparr>tl_nodes := (tl_nodes q)(p \<mapsto> \<lparr>tn_data = x, tn_next = None\<rparr>)\<rparr> = q"
    using assms(2) by (simp add: fun_upd_idem)
  then have "add_request q p = link_last q p" using assms(2) by (simp add: add_request_def)
  then show thesis using link_last_rep [OF assms] that by metis
qed

lemma new_node_rep:
  assumes "list_rep l axs" "new_node l x = (p, l')"
  shows "list_rep l' axs" "tl_nodes l' = (tl_nodes l)(p \<mapsto> \<lparr>tn_data = x, tn_next = None\<rparr>)" "p = tl_fresh l"
    "p \<notin> fst ` set axs"
  using assms list_rep_fresh [OF assms(1)]
  by (auto simp: new_node_def Let_def list_rep_def links_other less_Suc_eq)

lemma get_request_rep:
  assumes "list_rep q ((p, x) # axs)"
  obtains q' where "get_request q = Some (Some p, q')" "list_rep q' axs" "tl_nodes q' = tl_nodes q" "tl_fresh q' = tl_fresh q"
proof -
  obtain nxt where nxt: "tl_nodes q p = Some \<lparr>tn_data = x, tn_next = nxt\<rparr>" "links (tl_nodes q) nxt axs" "tl_first q = Some p"
    using assms by (auto simp: list_rep_def)
  have "nxt = None \<longleftrightarrow> axs = []" using nxt(2) by (cases axs) auto
  then show thesis using that [of "q\<lparr>tl_first := nxt, tl_last := if nxt = None then None else tl_last q, tl_num := tl_num q - 1\<rparr>"]
      assms nxt by (auto simp: list_rep_def get_request_def)
qed

lemma get_request_empty: "list_rep q [] \<Longrightarrow> get_request q = Some (None, q)"
  by (simp add: get_request_def list_rep_def)

lemma free_node_rep:
  assumes "list_rep l axs" "tl_nodes l p \<noteq> None" "p \<notin> fst ` set axs"
  obtains l' where "free_node l p = Some l'" "list_rep l' axs" "tl_nodes l' = (tl_nodes l)(p := None)"
  by (rule that [of "l\<lparr>tl_nodes := (tl_nodes l)(p := None)\<rparr>"])
    (use assms in \<open>auto simp: free_node_def list_rep_def links_other\<close>)

lemma unlink_first_rep:
  assumes "list_rep l ((p, x) # axs)"
  obtains l' where "unlink_first l = Some (Some p, l')" "list_rep l' axs" "tl_fresh l' = tl_fresh l"
    "tl_nodes l' = (tl_nodes l)(p \<mapsto> \<lparr>tn_data = x, tn_next = None\<rparr>)"
proof -
  obtain nxt where nxt: "tl_nodes l p = Some \<lparr>tn_data = x, tn_next = nxt\<rparr>" "links (tl_nodes l) nxt axs" "tl_first l = Some p"
    using assms by (auto simp: list_rep_def)
  then show thesis
    using that [of "l\<lparr>tl_first := nxt, tl_nodes := (tl_nodes l)(p \<mapsto> \<lparr>tn_data = x, tn_next = None\<rparr>), tl_num := tl_num l - 1\<rparr>"]
      assms by (auto simp: list_rep_def unlink_first_def links_other)
qed

lemma delete_requests_rep: "list_rep q axs \<Longrightarrow> delete_requests_queue q = Some (map snd axs)"
proof (induction axs arbitrary: q)
  case Nil
  then show ?case by (subst delete_requests_queue.simps) (simp add: list_rep_def)
next
  case (Cons px axs)
  obtain p x where px: "px = (p, x)" by (cases px)
  obtain q1 where q1: "get_request q = Some (Some p, q1)" "list_rep q1 axs" "tl_nodes q1 = tl_nodes q"
    by (rule get_request_rep [OF Cons.prems [unfolded px]])
  obtain nxt where node: "tl_nodes q p = Some \<lparr>tn_data = x, tn_next = nxt\<rparr>"
    using list_rep_data [OF Cons.prems, of p x] by (auto simp: px)
  obtain q2 where "free_node q1 p = Some q2" "list_rep q2 axs"
    by (rule free_node_rep [OF q1(2), of p]) (use q1(3) node Cons.prems in \<open>auto simp: list_rep_def px\<close>)
  moreover have "tl_num q > 0" using Cons.prems by (simp add: list_rep_def)
  ultimately show ?case using q1 node Cons.IH [of q2] by (subst delete_requests_queue.simps) (simp add: px)
qed

text \<open>The queue of requests keeps the contract of a queue: a request that is created and added,
  and one that is taken and freed.\<close>

definition post_request :: "'a tp_list \<Rightarrow> 'a \<Rightarrow> 'a tp_list option" where
  "post_request q x = (let (p, q) = new_node q x in add_request q p)"

definition take_request :: "'a tp_list \<Rightarrow> ('a \<times> 'a tp_list) option" where
  "take_request q = do {
     (r, q) \<leftarrow> get_request q;
     p \<leftarrow> r;
     node \<leftarrow> tl_nodes q p;
     q \<leftarrow> free_node q p;
     Some (tn_data node, q) }"

definition requests_rep :: "'a tp_list \<Rightarrow> 'a list \<Rightarrow> bool" where
  "requests_rep q xs \<longleftrightarrow> (\<exists>axs. list_rep q axs \<and> xs = map snd axs)"

interpretation requests_fifo: fifo requests_rep post_request take_request
proof
  fix q :: "'a tp_list" and xs x
  assume "requests_rep q xs"
  then obtain axs where axs: "list_rep q axs" "xs = map snd axs" by (auto simp: requests_rep_def)
  obtain p q1 where q1: "new_node q x = (p, q1)" by fastforce
  note new = new_node_rep [OF axs(1) q1]
  obtain q2 where "add_request q1 p = Some q2" "list_rep q2 (axs @ [(p, x)])"
    by (rule add_request_rep [OF new(1) _ new(4)]) (simp_all add: new(2))
  then show "\<exists>q'. post_request q x = Some q' \<and> requests_rep q' (xs @ [x])"
    using q1 axs(2) by (auto simp: post_request_def requests_rep_def intro!: exI [of _ "axs @ [(p, x)]"])
next
  fix q :: "'a tp_list" and x xs
  assume "requests_rep q (x # xs)"
  then obtain p axs where axs: "list_rep q ((p, x) # axs)" "xs = map snd axs" by (auto simp: requests_rep_def)
  obtain q1 where q1: "get_request q = Some (Some p, q1)" "list_rep q1 axs" "tl_nodes q1 = tl_nodes q"
    by (rule get_request_rep [OF axs(1)])
  obtain nxt where node: "tl_nodes q p = Some \<lparr>tn_data = x, tn_next = nxt\<rparr>" using list_rep_data [OF axs(1), of p x] by auto
  obtain q2 where "free_node q1 p = Some q2" "list_rep q2 axs"
    by (rule free_node_rep [OF q1(2), of p]) (use q1(3) node axs(1) in \<open>auto simp: list_rep_def\<close>)
  with q1 node axs(2) show "\<exists>q'. take_request q = Some (x, q') \<and> requests_rep q' xs"
    by (auto simp: take_request_def requests_rep_def)
next
  fix q :: "'a tp_list"
  assume "requests_rep q []"
  then show "take_request q = None" by (auto simp: requests_rep_def take_request_def get_request_empty)
qed

end
