(* ===== verification/Thread_Pool.thy ===== *)
theory Thread_Pool imports Requests_Queue begin

section \<open>The thread pool\<close>

text \<open>
  \<^verbatim>\<open>support/threadpool/{thread_pool,handler_thread,handler_threads_pool}.c\<close>. The threads share the
  pool under one mutex, so what a thread does between taking and releasing the mutex is one step, a function on
  the state; a thread that waits for the condition or runs a handler has released it. What is
  run when is not determined: the steps are a relation (\<open>pool_step\<close>). \<^verbatim>\<open>exit(1)\<close> after a failed
  \<^verbatim>\<open>malloc\<close>, a null pointer and a deleted key are steps with no result (\<open>None\<close>).
\<close>

subsection \<open>Arguments and ranks\<close>

record thread_pool_options =
  initial_thread_count :: int
  min_thread_count :: int
  max_thread_count :: int
  low_watermark :: int
  high_watermark :: int

definition MIN_HANDLER_THREADS :: int where "MIN_HANDLER_THREADS = 3"
definition MAX_HANDLER_THREADS :: int where "MAX_HANDLER_THREADS = 14"
definition LOW_WATERMARK :: int where "LOW_WATERMARK = 3"
definition HIGH_WATERMARK :: int where "HIGH_WATERMARK = 15"

text \<open>Signed addition at 32 bits, with no result on overflow.\<close>

definition int_range :: "int \<Rightarrow> bool" where
  "int_range i \<longleftrightarrow> - (2 ^ 31) \<le> i \<and> i < 2 ^ 31"

definition int_plus :: "int \<Rightarrow> int \<Rightarrow> int option" where
  "int_plus a b = (if int_range (a + b) then Some (a + b) else None)"

text \<open>The arguments as \<^verbatim>\<open>lwfs_thread_pool_init\<close> corrects them.\<close>

definition pool_args :: "thread_pool_options \<Rightarrow> thread_pool_options option" where
  "pool_args given = do {
     min \<leftarrow> Some (if min_thread_count given < 1 then MIN_HANDLER_THREADS else min_thread_count given);
     max \<leftarrow> (if max_thread_count given < min then int_plus min (MAX_HANDLER_THREADS - MIN_HANDLER_THREADS)
       else Some (max_thread_count given));
     initial \<leftarrow> Some (if initial_thread_count given < min then min
       else if initial_thread_count given > max then max else initial_thread_count given);
     low \<leftarrow> Some (if low_watermark given < 1 then LOW_WATERMARK else low_watermark given);
     high \<leftarrow> (if high_watermark given < low then int_plus low (HIGH_WATERMARK - LOW_WATERMARK)
       else Some (high_watermark given));
     Some \<lparr>initial_thread_count = initial, min_thread_count = min, max_thread_count = max,
       low_watermark = low, high_watermark = high\<rparr> }"

text \<open>The key of the ranks, with the two static flags \<^verbatim>\<open>initialized\<close> of its functions. Using the
  key after its deletion has no defined result.\<close>

record rank_keys =
  rk_init :: bool
  rk_fini :: bool
  rk_valid :: bool
  rk_ranks :: "nat \<rightharpoonup> int"

definition no_rank_key :: rank_keys where
  "no_rank_key = \<lparr>rk_init = False, rk_fini = False, rk_valid = False, rk_ranks = (\<lambda>t. None)\<rparr>"

definition init_rank_key :: "rank_keys \<Rightarrow> rank_keys" where
  "init_rank_key R = (if rk_init R then R else R\<lparr>rk_valid := True, rk_ranks := (\<lambda>t. None), rk_init := True\<rparr>)"

definition delete_rank_key :: "rank_keys \<Rightarrow> rank_keys" where
  "delete_rank_key R = (if rk_fini R then R else R\<lparr>rk_valid := False, rk_fini := True\<rparr>)"

definition lwfs_thread_pool_setrank :: "bool \<Rightarrow> nat \<Rightarrow> int \<Rightarrow> rank_keys \<Rightarrow> rank_keys option" where
  "lwfs_thread_pool_setrank rank_malloc self rank R =
     (let R = init_rank_key R in
      if \<not> rk_valid R then None
      else if rk_ranks R self = None then
        if rank_malloc then Some (R\<lparr>rk_ranks := (rk_ranks R)(self \<mapsto> rank)\<rparr>) else None
      else Some R)"

definition lwfs_thread_pool_getrank :: "nat \<Rightarrow> rank_keys \<Rightarrow> (int \<times> rank_keys) option" where
  "lwfs_thread_pool_getrank self R =
     (let R = init_rank_key R in
      if \<not> rk_valid R then None
      else Some (case rk_ranks R self of None \<Rightarrow> - 1 | Some rank \<Rightarrow> rank, R))"

subsection \<open>The state\<close>

record handler_thread =
  thr_id :: nat
  ht_thread :: bool \<comment> \<open>whether \<^verbatim>\<open>pthread_create\<close> made the thread\<close>

datatype thread_phase =
    Absent \<comment> \<open>never created\<close>
  | Created \<comment> \<open>not yet at the loop\<close>
  | Looking \<comment> \<open>about to look at the queue with the mutex\<close>
  | Waiting \<comment> \<open>in \<^verbatim>\<open>pthread_cond_wait\<close>\<close>
  | Handling nat \<comment> \<open>running the handler of a request\<close>
  | Exited

datatype main_phase = Serving | Added | Stopping | Stopped

text \<open>The last four fields record what happened to the requests; the code does not have them.\<close>

record 'a lwfs_thread_pool =
  tp_args :: thread_pool_options
  tp_shutdown_now :: bool
  tp_requests :: "'a tp_list"
  tp_threads :: "handler_thread tp_list"
  tp_max_thr_id :: nat
  tp_ranks :: rank_keys
  tp_exit_now :: bool
  tp_phases :: "thread_phase list"
  tp_main :: main_phase
  tp_accepted :: "'a list"
  tp_started :: "('a \<times> int) list"
  tp_finished :: "'a list"
  tp_dropped :: "'a list"

definition set_phase :: "nat \<Rightarrow> thread_phase \<Rightarrow> 'a lwfs_thread_pool \<Rightarrow> 'a lwfs_thread_pool" where
  "set_phase t ph st = st\<lparr>tp_phases := (tp_phases st)[t := ph]\<rparr>"

definition in_phase :: "nat \<Rightarrow> thread_phase \<Rightarrow> 'a lwfs_thread_pool \<Rightarrow> bool" where
  "in_phase t ph st \<longleftrightarrow> t < length (tp_phases st) \<and> tp_phases st ! t = ph"

subsection \<open>Threads\<close>

text \<open>The three results: the two allocations, and \<^verbatim>\<open>pthread_create\<close>, whose result the code does
  not look at.\<close>

record spawn =
  sp_thread_malloc :: bool
  sp_params_malloc :: bool
  sp_created :: bool

definition add_handler_thread :: "spawn \<Rightarrow> 'a lwfs_thread_pool \<Rightarrow> 'a lwfs_thread_pool option" where
  "add_handler_thread sp pool =
     (if \<not> sp_thread_malloc sp \<or> \<not> sp_params_malloc sp then None
      else let id = tp_max_thr_id pool;
        (p, threads) = new_node (tp_threads pool) \<lparr>thr_id = id, ht_thread = sp_created sp\<rparr> in do {
        threads \<leftarrow> link_last threads p;
        Some (pool\<lparr>tp_max_thr_id := id + 1, tp_threads := threads,
          tp_phases := tp_phases pool @ [if sp_created sp then Created else Absent]\<rparr>) })"

fun add_threads :: "(nat \<Rightarrow> spawn) \<Rightarrow> nat \<Rightarrow> nat \<Rightarrow> 'a lwfs_thread_pool \<Rightarrow> 'a lwfs_thread_pool option" where
  "add_threads sps i 0 pool = Some pool"
| "add_threads sps i (Suc n) pool = do { pool \<leftarrow> add_handler_thread (sps i) pool; add_threads sps (i + 1) n pool }"

definition get_handler_threads_number :: "'a lwfs_thread_pool \<Rightarrow> int" where
  "get_handler_threads_number pool = tl_num (tp_threads pool)"

text \<open>The pool before its threads are made.\<close>

definition empty_pool :: "rank_keys \<Rightarrow> bool \<Rightarrow> thread_pool_options \<Rightarrow> 'a lwfs_thread_pool" where
  "empty_pool R exit_now args = \<lparr>tp_args = args, tp_shutdown_now = False, tp_requests = init_requests_queue,
     tp_threads = init_requests_queue, tp_max_thr_id = 0, tp_ranks = init_rank_key R, tp_exit_now = exit_now,
     tp_phases = [], tp_main = Serving, tp_accepted = [], tp_started = [], tp_finished = [], tp_dropped = []\<rparr>"

definition lwfs_thread_pool_init ::
  "rank_keys \<Rightarrow> bool \<Rightarrow> bool \<Rightarrow> bool \<Rightarrow> (nat \<Rightarrow> spawn) \<Rightarrow> thread_pool_options \<Rightarrow> 'a lwfs_thread_pool option" where
  "lwfs_thread_pool_init R exit_now queue_malloc pool_malloc sps given = do {
     args \<leftarrow> pool_args given;
     if \<not> queue_malloc \<or> \<not> pool_malloc then None
     else add_threads sps 0 (nat (initial_thread_count args)) (empty_pool R exit_now args) }"

subsection \<open>The handler threads\<close>

text \<open>The start of \<^verbatim>\<open>handle_requests_loop\<close> in a new thread, which has no rank yet.\<close>

definition handler_start :: "bool \<Rightarrow> nat \<Rightarrow> 'a lwfs_thread_pool \<Rightarrow> 'a lwfs_thread_pool option" where
  "handler_start rank_malloc t pool = do {
     R \<leftarrow> lwfs_thread_pool_setrank rank_malloc t (int t + 1)
       ((tp_ranks pool)\<lparr>rk_ranks := (rk_ranks (tp_ranks pool))(t := None)\<rparr>);
     Some (set_phase t Looking (pool\<lparr>tp_ranks := R\<rparr>)) }"

text \<open>One turn of the loop with the mutex, up to the handler or the wait.\<close>

definition handler_turn :: "nat \<Rightarrow> 'a lwfs_thread_pool \<Rightarrow> 'a lwfs_thread_pool option" where
  "handler_turn t pool =
     (if tp_exit_now pool then Some (set_phase t Exited pool)
      else if get_requests_number (tp_requests pool) > 0 then do {
        (r, requests) \<leftarrow> get_request (tp_requests pool);
        let pool = pool\<lparr>tp_requests := requests\<rparr> in
        (case r of
          None \<Rightarrow> Some pool
        | Some p \<Rightarrow> do {
            node \<leftarrow> tl_nodes requests p;
            (rank, R) \<leftarrow> lwfs_thread_pool_getrank t (tp_ranks pool);
            Some (set_phase t (Handling p) (pool\<lparr>tp_ranks := R, tp_started := tp_started pool @ [(tn_data node, rank)]\<rparr>)) }) }
      else if tp_shutdown_now pool then Some (set_phase t Exited pool)
      else Some (set_phase t Waiting pool))"

text \<open>The return of the handler: the request is freed, the mutex is taken again.\<close>

definition handler_done :: "nat \<Rightarrow> nat \<Rightarrow> 'a lwfs_thread_pool \<Rightarrow> 'a lwfs_thread_pool option" where
  "handler_done t p pool = do {
     node \<leftarrow> tl_nodes (tp_requests pool) p;
     requests \<leftarrow> free_node (tp_requests pool) p;
     Some (set_phase t Looking (pool\<lparr>tp_requests := requests, tp_finished := tp_finished pool @ [tn_data node]\<rparr>)) }"

subsection \<open>The thread that uses the pool\<close>

text \<open>\<open>woken\<close> is the thread that the signal wakes; there is one when a thread waits.\<close>

definition signal_wakes :: "nat option \<Rightarrow> 'a lwfs_thread_pool \<Rightarrow> bool" where
  "signal_wakes woken pool \<longleftrightarrow>
     (case woken of None \<Rightarrow> Waiting \<notin> set (tp_phases pool) | Some t \<Rightarrow> in_phase t Waiting pool)"

definition wake :: "nat option \<Rightarrow> 'a lwfs_thread_pool \<Rightarrow> 'a lwfs_thread_pool" where
  "wake woken pool = (case woken of None \<Rightarrow> pool | Some t \<Rightarrow> set_phase t Looking pool)"

text \<open>\<^verbatim>\<open>lwfs_thread_pool_add_request\<close> has two parts, for other threads may take the mutex between them:
  the request is added, then the number of requests is read.\<close>

definition pool_enqueue :: "bool \<Rightarrow> 'a \<Rightarrow> nat option \<Rightarrow> 'a lwfs_thread_pool \<Rightarrow> (int \<times> 'a lwfs_thread_pool) option" where
  "pool_enqueue request_calloc x woken pool =
     (if \<not> request_calloc then Some (1, pool)
      else let (p, requests) = new_node (tp_requests pool) x in do {
        requests \<leftarrow> add_request requests p;
        Some (0, wake woken (pool\<lparr>tp_requests := requests, tp_accepted := tp_accepted pool @ [x]\<rparr>)) })"

definition pool_grow :: "spawn \<Rightarrow> 'a lwfs_thread_pool \<Rightarrow> 'a lwfs_thread_pool option" where
  "pool_grow sp pool =
     (let num_requests = get_requests_number (tp_requests pool); num_threads = get_handler_threads_number pool in
      if num_requests > high_watermark (tp_args pool) \<and> num_threads < max_thread_count (tp_args pool)
      then add_handler_thread sp pool else Some pool)"

definition lwfs_thread_pool_add_request ::
  "bool \<Rightarrow> spawn \<Rightarrow> 'a \<Rightarrow> nat option \<Rightarrow> 'a lwfs_thread_pool \<Rightarrow> (int \<times> 'a lwfs_thread_pool) option" where
  "lwfs_thread_pool_add_request request_calloc sp x woken pool = do {
     (rc, pool) \<leftarrow> pool_enqueue request_calloc x woken pool;
     if rc \<noteq> 0 then Some (rc, pool) else map_option (Pair 0) (pool_grow sp pool) }"

text \<open>\<^verbatim>\<open>cancel_handler_threads\<close>: the broadcast, then one \<^verbatim>\<open>pthread_join\<close> after the other; a join is a
  step once the thread has exited. Then the queue and the key are deleted.\<close>

definition pool_shutdown :: "'a lwfs_thread_pool \<Rightarrow> 'a lwfs_thread_pool" where
  "pool_shutdown pool = pool\<lparr>tp_shutdown_now := True,
     tp_phases := map (\<lambda>ph. if ph = Waiting then Looking else ph) (tp_phases pool)\<rparr>"

definition remove_first_handler_thread :: "'a lwfs_thread_pool \<Rightarrow> (nat option \<times> 'a lwfs_thread_pool) option" where
  "remove_first_handler_thread pool = do {
     (r, threads) \<leftarrow> unlink_first (tp_threads pool);
     Some (r, pool\<lparr>tp_threads := threads\<rparr>) }"

definition pool_join :: "'a lwfs_thread_pool \<Rightarrow> 'a lwfs_thread_pool option" where
  "pool_join pool = do {
     (r, pool) \<leftarrow> remove_first_handler_thread pool;
     p \<leftarrow> r;
     node \<leftarrow> tl_nodes (tp_threads pool) p;
     if \<not> ht_thread (tn_data node) \<or> \<not> in_phase (thr_id (tn_data node)) Exited pool then None
     else do {
       threads \<leftarrow> free_node (tp_threads pool) p;
       Some (pool\<lparr>tp_threads := threads\<rparr>) } }"

definition pool_delete :: "'a lwfs_thread_pool \<Rightarrow> 'a lwfs_thread_pool option" where
  "pool_delete pool = do {
     xs \<leftarrow> delete_requests_queue (tp_requests pool);
     Some (pool\<lparr>tp_ranks := delete_rank_key (tp_ranks pool), tp_dropped := xs, tp_main := Stopped\<rparr>) }"

subsection \<open>Steps\<close>

inductive pool_step :: "'a lwfs_thread_pool \<Rightarrow> 'a lwfs_thread_pool \<Rightarrow> bool" where
  enqueue: "tp_main pool = Serving \<Longrightarrow> signal_wakes woken pool \<Longrightarrow>
     pool_enqueue request_calloc x woken pool = Some (rc, pool') \<Longrightarrow>
     pool_step pool (pool'\<lparr>tp_main := if rc = 0 then Added else Serving\<rparr>)"
| grow: "tp_main pool = Added \<Longrightarrow> pool_grow sp pool = Some pool' \<Longrightarrow> pool_step pool (pool'\<lparr>tp_main := Serving\<rparr>)"
| start: "in_phase t Created pool \<Longrightarrow> handler_start rank_malloc t pool = Some pool' \<Longrightarrow> pool_step pool pool'"
| turn: "in_phase t Looking pool \<Longrightarrow> handler_turn t pool = Some pool' \<Longrightarrow> pool_step pool pool'"
| finish: "in_phase t (Handling p) pool \<Longrightarrow> handler_done t p pool = Some pool' \<Longrightarrow> pool_step pool pool'"
| spurious: "in_phase t Waiting pool \<Longrightarrow> pool_step pool (set_phase t Looking pool)"
| signalled: "\<not> tp_exit_now pool \<Longrightarrow> pool_step pool (pool\<lparr>tp_exit_now := True\<rparr>)"
| shutdown: "tp_main pool = Serving \<Longrightarrow> pool_step pool (pool_shutdown pool\<lparr>tp_main := Stopping\<rparr>)"
| join: "tp_main pool = Stopping \<Longrightarrow> tl_num (tp_threads pool) > 0 \<Longrightarrow> pool_join pool = Some pool' \<Longrightarrow> pool_step pool pool'"
| delete: "tp_main pool = Stopping \<Longrightarrow> tl_num (tp_threads pool) = 0 \<Longrightarrow> pool_delete pool = Some pool' \<Longrightarrow>
     pool_step pool pool'"

text \<open>The pools that a start with valid arguments and an unused or valid key leads to.\<close>

inductive pool_reach :: "'a lwfs_thread_pool \<Rightarrow> bool" where
  started: "\<not> rk_init R \<or> rk_valid R \<Longrightarrow>
     lwfs_thread_pool_init R exit_now queue_malloc pool_malloc sps given = Some pool \<Longrightarrow> pool_reach pool"
| step: "pool_reach pool \<Longrightarrow> pool_step pool pool' \<Longrightarrow> pool_reach pool'"

lemma in_phase_set_phase [simp]: "in_phase t ph (set_phase u ph' st) \<longleftrightarrow>
    (if t = u then t < length (tp_phases st) \<and> ph = ph' else in_phase t ph st)"
  by (auto simp: in_phase_def set_phase_def)

lemma set_phase_sel [simp]: "tp_args (set_phase t ph st) = tp_args st" "tp_shutdown_now (set_phase t ph st) = tp_shutdown_now st"
  "tp_requests (set_phase t ph st) = tp_requests st" "tp_threads (set_phase t ph st) = tp_threads st"
  "tp_max_thr_id (set_phase t ph st) = tp_max_thr_id st" "tp_ranks (set_phase t ph st) = tp_ranks st"
  "tp_exit_now (set_phase t ph st) = tp_exit_now st" "tp_main (set_phase t ph st) = tp_main st"
  "tp_accepted (set_phase t ph st) = tp_accepted st" "tp_started (set_phase t ph st) = tp_started st"
  "tp_finished (set_phase t ph st) = tp_finished st" "tp_dropped (set_phase t ph st) = tp_dropped st"
  "tp_phases (set_phase t ph st) = (tp_phases st)[t := ph]"
  by (simp_all add: set_phase_def)

end
