(* ===== verification/Thread_Pool_Inv.thy ===== *)
theory Thread_Pool_Inv imports Thread_Pool begin

section \<open>What holds in every reachable pool\<close>

text \<open>
  Four invariants: the queue and what became of the accepted requests (\<open>requests_inv\<close>), the threads and their
  ranks (\<open>threads_inv\<close>), no request waits beside a sleeping thread (\<open>work_inv\<close>), and what is left when threads exit
  (\<open>stop_inv\<close>). Each operation keeps each of them.
\<close>

subsection \<open>Sums over the phases\<close>

lemma sum_list_update_eq:
  fixes f :: "'b \<Rightarrow> 'c :: comm_monoid_add"
  shows "t < length xs \<Longrightarrow> sum_list (map f (xs[t := b])) + f (xs ! t) = sum_list (map f xs) + f b"
proof (induction xs arbitrary: t)
  case (Cons x xs)
  show ?case
  proof (cases t)
    case (Suc k)
    with Cons.IH [of k] Cons.prems show ?thesis by (simp add: add.assoc)
  qed (simp add: ac_simps)
qed simp

fun handled :: "thread_phase \<Rightarrow> nat multiset" where
  "handled (Handling p) = {#p#}"
| "handled _ = {#}"

definition running :: "thread_phase list \<Rightarrow> nat multiset" where
  "running phs = sum_list (map handled phs)"

definition looking :: "thread_phase list \<Rightarrow> int" where
  "looking phs = sum_list (map (\<lambda>ph. if ph = Looking \<or> ph = Created then 1 else 0) phs)"

fun phase_work :: "thread_phase \<Rightarrow> nat" where
  "phase_work Created = 2"
| "phase_work Looking = 1"
| "phase_work Waiting = 2"
| "phase_work (Handling p) = 2"
| "phase_work _ = 0"

definition threads_work :: "thread_phase list \<Rightarrow> nat" where
  "threads_work phs = sum_list (map phase_work phs)"

lemma running_update: "t < length phs \<Longrightarrow> running (phs[t := ph]) + handled (phs ! t) = running phs + handled ph"
  unfolding running_def by (rule sum_list_update_eq)

lemma looking_update: "t < length phs \<Longrightarrow>
    looking (phs[t := ph]) + (if phs ! t = Looking \<or> phs ! t = Created then 1 else 0) =
    looking phs + (if ph = Looking \<or> ph = Created then 1 else 0)"
  unfolding looking_def by (rule sum_list_update_eq)

lemma threads_work_update: "t < length phs \<Longrightarrow>
    threads_work (phs[t := ph]) + phase_work (phs ! t) = threads_work phs + phase_work ph"
  unfolding threads_work_def by (rule sum_list_update_eq)

lemma running_append [simp]: "running (phs @ [ph]) = running phs + handled ph"
  by (simp add: running_def)

lemma running_wake [simp]: "running (map (\<lambda>ph. if ph = Waiting then Looking else ph) phs) = running phs"
  by (induction phs) (auto simp: running_def)

lemma in_running: "p \<in># running phs \<longleftrightarrow> Handling p \<in> set phs"
proof (induction phs)
  case (Cons ph phs)
  then show ?case by (cases ph) (auto simp: running_def)
qed (simp add: running_def)

subsection \<open>The requests\<close>

definition requests_inv :: "'a tp_list \<Rightarrow> (nat \<times> 'a) list \<Rightarrow> thread_phase list \<Rightarrow> 'a list \<Rightarrow> ('a \<times> int) list \<Rightarrow> 'a list \<Rightarrow> bool" where
  "requests_inv q axs phs acc started fin \<longleftrightarrow> list_rep q axs \<and> acc = map fst started @ map snd axs \<and>
     (\<forall>p\<in>#running phs. tl_nodes q p \<noteq> None \<and> p \<notin> fst ` set axs \<and> count (running phs) p = 1) \<and>
     mset (map fst started) = mset fin + image_mset (\<lambda>p. tn_data (the (tl_nodes q p))) (running phs)"

definition pool_requests :: "'a lwfs_thread_pool \<Rightarrow> bool" where
  "pool_requests pool \<longleftrightarrow> (\<exists>axs. requests_inv (tp_requests pool) axs (tp_phases pool) (tp_accepted pool) (tp_started pool)
     (tp_finished pool) \<and> (tp_main pool = Stopped \<longrightarrow> tp_dropped pool = map snd axs))"

lemma requests_inv_phases: "requests_inv q axs phs acc started fin \<Longrightarrow> running phs' = running phs \<Longrightarrow>
    requests_inv q axs phs' acc started fin"
  by (simp add: requests_inv_def)

text \<open>A phase changes between two that handle nothing.\<close>

lemma running_idle: "in_phase t ph pool \<Longrightarrow> handled ph = {#} \<Longrightarrow> handled ph' = {#} \<Longrightarrow>
    running ((tp_phases pool)[t := ph']) = running (tp_phases pool)"
  using running_update [of t "tp_phases pool" ph'] by (auto simp: in_phase_def)

lemma requests_enqueue:
  assumes "requests_inv q axs phs acc started fin" "new_node q x = (p, q1)"
  obtains q2 where "add_request q1 p = Some q2" "requests_inv q2 (axs @ [(p, x)]) phs (acc @ [x]) started fin"
proof -
  have rep: "list_rep q axs" using assms(1) by (simp add: requests_inv_def)
  note new = new_node_rep [OF rep assms(2)]
  obtain q2 where q2: "add_request q1 p = Some q2" "list_rep q2 (axs @ [(p, x)])"
    "\<forall>a. a \<notin> fst ` set axs \<longrightarrow> tl_nodes q2 a = tl_nodes q1 a"
    by (rule add_request_rep [OF new(1) _ new(4)]) (simp_all add: new(2))
  have same: "r \<noteq> p \<and> tl_nodes q2 r = tl_nodes q r" if "r \<in># running phs" for r
    using that assms(1) q2(3) new(2) list_rep_fresh [OF rep] new(3) by (auto simp: requests_inv_def)
  have "image_mset (\<lambda>r. tn_data (the (tl_nodes q2 r))) (running phs) = image_mset (\<lambda>r. tn_data (the (tl_nodes q r))) (running phs)"
    using same by (intro image_mset_cong) simp
  with assms(1) q2(2) same have "requests_inv q2 (axs @ [(p, x)]) phs (acc @ [x]) started fin"
    by (auto simp: requests_inv_def)
  with q2(1) show thesis by (rule that)
qed

lemma requests_get:
  assumes "requests_inv q ((p, x) # axs) phs acc started fin" "t < length phs" "handled (phs ! t) = {#}"
  obtains q' nxt where "get_request q = Some (Some p, q')" "tl_nodes q' p = Some \<lparr>tn_data = x, tn_next = nxt\<rparr>"
    "requests_inv q' axs (phs[t := Handling p]) acc (started @ [(x, r)]) fin"
proof -
  have rep: "list_rep q ((p, x) # axs)" using assms(1) by (simp add: requests_inv_def)
  obtain q' where q': "get_request q = Some (Some p, q')" "list_rep q' axs" "tl_nodes q' = tl_nodes q"
    by (rule get_request_rep [OF rep])
  obtain nxt where node: "tl_nodes q p = Some \<lparr>tn_data = x, tn_next = nxt\<rparr>" using list_rep_data [OF rep, of p x] by auto
  have run: "running (phs[t := Handling p]) = running phs + {#p#}" using running_update [OF assms(2), of "Handling p"] assms(3) by simp
  have new: "p \<notin># running phs" "p \<notin> fst ` set axs" using assms(1) rep by (auto simp: requests_inv_def list_rep_def)
  have "requests_inv q' axs (phs[t := Handling p]) acc (started @ [(x, r)]) fin"
    using assms(1) q'(2,3) node new by (auto simp: requests_inv_def run not_in_iff)
  with q' node show thesis by (intro that) auto
qed

lemma requests_done:
  assumes "requests_inv q axs phs acc started fin" "t < length phs" "phs ! t = Handling p"
  obtains q' node where "tl_nodes q p = Some node" "free_node q p = Some q'"
    "requests_inv q' axs (phs[t := Looking]) acc started (fin @ [tn_data node])"
proof -
  have run: "running phs = running (phs[t := Looking]) + {#p#}" using running_update [OF assms(2), of Looking] assms(3) by simp
  then have p: "tl_nodes q p \<noteq> None" "p \<notin> fst ` set axs" "count (running phs) p = 1" "list_rep q axs"
    using assms(1) by (auto simp: requests_inv_def)
  then have gone: "p \<notin># running (phs[t := Looking])" by (simp add: run not_in_iff)
  obtain q' where q': "free_node q p = Some q'" "list_rep q' axs" "tl_nodes q' = (tl_nodes q)(p := None)"
    by (rule free_node_rep [OF p(4,1,2)])
  obtain node where node: "tl_nodes q p = Some node" using p(1) by auto
  have same: "r \<noteq> p" if "r \<in># running (phs[t := Looking])" for r using that gone by auto
  have "image_mset (\<lambda>r. tn_data (the (tl_nodes q' r))) (running (phs[t := Looking])) =
      image_mset (\<lambda>r. tn_data (the (tl_nodes q r))) (running (phs[t := Looking]))"
    using same by (intro image_mset_cong) (simp add: q'(3))
  moreover have "tl_nodes q' r \<noteq> None \<and> r \<notin> fst ` set axs \<and> count (running (phs[t := Looking])) r = 1"
    if "r \<in># running (phs[t := Looking])" for r
  proof -
    have "r \<in># running phs" "count (running phs) r = count (running (phs[t := Looking])) r"
      using that same [OF that] by (simp_all add: run)
    then show ?thesis using assms(1) same [OF that] by (auto simp: requests_inv_def q'(3))
  qed
  ultimately have "requests_inv q' axs (phs[t := Looking]) acc started (fin @ [tn_data node])"
    using assms(1) q'(2) node by (simp add: requests_inv_def run)
  with node q'(1) show thesis by (rule that)
qed


subsection \<open>The threads and their ranks\<close>

definition threads_inv :: "handler_thread tp_list \<Rightarrow> (nat \<times> handler_thread) list \<Rightarrow> thread_phase list \<Rightarrow> bool" where
  "threads_inv l ths phs \<longleftrightarrow> list_rep l ths \<and> distinct (map (thr_id \<circ> snd) ths) \<and>
     (\<forall>h\<in>snd ` set ths. thr_id h < length phs \<and> (ht_thread h \<longleftrightarrow> phs ! thr_id h \<noteq> Absent)) \<and>
     (\<forall>t<length phs. t \<notin> thr_id ` snd ` set ths \<longrightarrow> phs ! t = Exited)"

definition ranked :: "thread_phase \<Rightarrow> bool" where
  "ranked ph \<longleftrightarrow> ph \<noteq> Absent \<and> ph \<noteq> Created \<and> ph \<noteq> Exited"

definition ranks_inv :: "rank_keys \<Rightarrow> thread_phase list \<Rightarrow> ('a \<times> int) list \<Rightarrow> bool" where
  "ranks_inv R phs started \<longleftrightarrow> rk_init R \<and> (\<forall>t<length phs. ranked (phs ! t) \<longrightarrow> rk_ranks R t = Some (int t + 1)) \<and>
     (\<forall>r\<in>snd ` set started. 1 \<le> r \<and> r \<le> int (length phs))"

definition pool_threads :: "'a lwfs_thread_pool \<Rightarrow> bool" where
  "pool_threads pool \<longleftrightarrow> (\<exists>ths. threads_inv (tp_threads pool) ths (tp_phases pool)) \<and>
     tp_max_thr_id pool = length (tp_phases pool) \<and> ranks_inv (tp_ranks pool) (tp_phases pool) (tp_started pool) \<and>
     (tp_main pool \<noteq> Stopped \<longrightarrow> rk_valid (tp_ranks pool)) \<and> (tp_main pool = Stopped \<longrightarrow> tl_num (tp_threads pool) = 0)"

lemma threads_invD:
  assumes "threads_inv l ths phs"
  shows "list_rep l ths" "distinct (map (thr_id \<circ> snd) ths)"
    "h \<in> snd ` set ths \<Longrightarrow> thr_id h < length phs \<and> (ht_thread h \<longleftrightarrow> phs ! thr_id h \<noteq> Absent)"
    "t < length phs \<Longrightarrow> t \<notin> thr_id ` snd ` set ths \<Longrightarrow> phs ! t = Exited"
  using assms unfolding threads_inv_def by blast+

lemma threads_invI:
  assumes "list_rep l ths" "distinct (map (thr_id \<circ> snd) ths)"
    "\<And>h. h \<in> snd ` set ths \<Longrightarrow> thr_id h < length phs \<and> (ht_thread h \<longleftrightarrow> phs ! thr_id h \<noteq> Absent)"
    "\<And>t. t < length phs \<Longrightarrow> t \<notin> thr_id ` snd ` set ths \<Longrightarrow> phs ! t = Exited"
  shows "threads_inv l ths phs"
  using assms unfolding threads_inv_def by blast

lemma threads_phase:
  assumes "threads_inv l ths phs" "phs ! t \<noteq> Absent" "phs ! t \<noteq> Exited" "ph \<noteq> Absent"
  shows "threads_inv l ths (phs[t := ph])"
proof (rule threads_invI)
  note old = threads_invD [OF assms(1)]
  show "list_rep l ths" "distinct (map (thr_id \<circ> snd) ths)" by (rule old)+
  show "thr_id h < length (phs[t := ph]) \<and> (ht_thread h \<longleftrightarrow> phs[t := ph] ! thr_id h \<noteq> Absent)" if "h \<in> snd ` set ths" for h
    using old(3) [OF that] assms(2,4) by (cases "thr_id h = t") auto
  show "phs[t := ph] ! u = Exited" if "u < length (phs[t := ph])" "u \<notin> thr_id ` snd ` set ths" for u
    using old(4) [of u] that assms(3) by (cases "u = t") auto
qed

lemma threads_wake: "threads_inv l ths phs \<Longrightarrow> threads_inv l ths (map (\<lambda>ph. if ph = Waiting then Looking else ph) phs)"
proof (rule threads_invI)
  assume inv: "threads_inv l ths phs"
  let ?phs = "map (\<lambda>ph. if ph = Waiting then Looking else ph) phs"
  note old = threads_invD [OF inv]
  show "list_rep l ths" "distinct (map (thr_id \<circ> snd) ths)" by (rule old)+
  show "thr_id h < length ?phs \<and> (ht_thread h \<longleftrightarrow> ?phs ! thr_id h \<noteq> Absent)" if "h \<in> snd ` set ths" for h
    using old(3) [OF that] by auto
  show "?phs ! u = Exited" if "u < length ?phs" "u \<notin> thr_id ` snd ` set ths" for u
    using old(4) [of u] that by simp
qed

lemma threads_add:
  assumes "threads_inv l ths phs" "new_node l \<lparr>thr_id = length phs, ht_thread = ph \<noteq> Absent\<rparr> = (p, l1)"
  obtains l2 where "link_last l1 p = Some l2"
    "threads_inv l2 (ths @ [(p, \<lparr>thr_id = length phs, ht_thread = ph \<noteq> Absent\<rparr>)]) (phs @ [ph])"
proof -
  have rep: "list_rep l ths" using assms(1) by (simp add: threads_inv_def)
  note new = new_node_rep [OF rep assms(2)]
  obtain l2 where l2: "link_last l1 p = Some l2"
    "list_rep l2 (ths @ [(p, \<lparr>thr_id = length phs, ht_thread = ph \<noteq> Absent\<rparr>)])"
    by (rule link_last_rep [OF new(1) _ new(4)]) (simp_all add: new(2))
  note old = threads_invD [OF assms(1)]
  let ?h = "\<lparr>thr_id = length phs, ht_thread = ph \<noteq> Absent\<rparr>"
  have "threads_inv l2 (ths @ [(p, ?h)]) (phs @ [ph])"
  proof (rule threads_invI)
    show "list_rep l2 (ths @ [(p, ?h)])" by (rule l2(2))
    have "thr_id (snd a) \<noteq> length phs" if "a \<in> set ths" for a using old(3) [of "snd a"] that by auto
    then show "distinct (map (thr_id \<circ> snd) (ths @ [(p, ?h)]))" using old(2) by force
    show "thr_id h < length (phs @ [ph]) \<and> (ht_thread h \<longleftrightarrow> (phs @ [ph]) ! thr_id h \<noteq> Absent)"
      if "h \<in> snd ` set (ths @ [(p, ?h)])" for h
    proof (cases "h = ?h")
      case False
      with that have "h \<in> snd ` set ths" by auto
      from old(3) [OF this] show ?thesis by (simp add: nth_append)
    qed simp
    show "(phs @ [ph]) ! u = Exited" if "u < length (phs @ [ph])" "u \<notin> thr_id ` snd ` set (ths @ [(p, ?h)])" for u
      using that old(4) [of u] by (auto simp: nth_append less_Suc_eq)
  qed
  with l2(1) show thesis by (rule that)
qed

lemma threads_join:
  assumes "threads_inv l ths phs" "tl_num l > 0"
  obtains p h l1 l2 ths' where "unlink_first l = Some (Some p, l1)" "tl_nodes l1 p = Some \<lparr>tn_data = h, tn_next = None\<rparr>"
    "free_node l1 p = Some l2" "thr_id h < length phs" "ht_thread h \<longleftrightarrow> phs ! thr_id h \<noteq> Absent" "tl_num l2 = tl_num l - 1"
    "phs ! thr_id h = Exited \<longrightarrow> threads_inv l2 ths' phs"
proof -
  have rep: "list_rep l ths" using assms(1) by (simp add: threads_inv_def)
  with assms(2) obtain p h ths' where ths: "ths = (p, h) # ths'" by (cases ths) (auto simp: list_rep_def)
  obtain l1 where l1: "unlink_first l = Some (Some p, l1)" "list_rep l1 ths'"
    "tl_nodes l1 = (tl_nodes l)(p \<mapsto> \<lparr>tn_data = h, tn_next = None\<rparr>)"
    by (rule unlink_first_rep [OF rep [unfolded ths]])
  have out: "p \<notin> fst ` set ths'" using rep by (auto simp: list_rep_def ths)
  obtain l2 where l2: "free_node l1 p = Some l2" "list_rep l2 ths'"
    by (rule free_node_rep [OF l1(2) _ out]) (simp add: l1(3))
  have num: "tl_num l2 = tl_num l - 1" using rep l2(2) by (simp add: list_rep_def ths)
  note old = threads_invD [OF assms(1)]
  have "threads_inv l2 ths' phs" if "phs ! thr_id h = Exited"
  proof (rule threads_invI)
    show "phs ! u = Exited" if "u < length phs" "u \<notin> thr_id ` snd ` set ths'" for u
      using that old(4) [of u] \<open>phs ! thr_id h = Exited\<close> by (cases "u = thr_id h") (auto simp: ths)
  qed (use l2(2) old(2,3) in \<open>auto simp: ths\<close>)
  with l1 l2 num old(3) [of h] show thesis by (intro that [of p l1 h l2 ths']) (auto simp: ths)
qed

lemma ranks_phase:
  assumes "ranks_inv R phs started" "ranked ph \<longrightarrow> rk_ranks R t = Some (int t + 1)"
  shows "ranks_inv R (phs[t := ph]) started"
  unfolding ranks_inv_def
proof (intro conjI allI impI)
  show "rk_ranks R u = Some (int u + 1)" if "u < length (phs[t := ph])" "ranked (phs[t := ph] ! u)" for u
    using that assms by (cases "u = t") (auto simp: ranks_inv_def)
qed (use assms in \<open>auto simp: ranks_inv_def\<close>)

lemma ranks_started: "ranks_inv R phs started \<Longrightarrow> 1 \<le> r \<Longrightarrow> r \<le> int (length phs) \<Longrightarrow> ranks_inv R phs (started @ [(x, r)])"
  by (auto simp: ranks_inv_def)

lemma ranks_wake: "ranks_inv R phs started \<Longrightarrow>
    ranks_inv R (map (\<lambda>ph. if ph = Waiting then Looking else ph) phs) started"
  by (auto simp: ranks_inv_def ranked_def split: if_splits)

lemma ranks_add: "ranks_inv R phs started \<Longrightarrow> \<not> ranked ph \<Longrightarrow> ranks_inv R (phs @ [ph]) started"
  unfolding ranks_inv_def
  by (intro conjI allI impI) (auto simp: nth_append less_Suc_eq)

lemma ranks_set:
  assumes "ranks_inv R phs started" "rk_valid R" "lwfs_thread_pool_setrank True t (int t + 1) (R\<lparr>rk_ranks := (rk_ranks R)(t := None)\<rparr>) = Some R'"
  shows "ranks_inv R' (phs[t := Looking]) started" "rk_valid R'"
  using assms by (auto simp: ranks_inv_def lwfs_thread_pool_setrank_def init_rank_key_def Let_def nth_list_update ranked_def)

subsection \<open>Work and shutdown\<close>

text \<open>Unless the process was signalled, a request waits beside a sleeping thread only when other threads are on
  their way to it.\<close>

definition work_inv :: "'a lwfs_thread_pool \<Rightarrow> bool" where
  "work_inv pool \<longleftrightarrow> tp_exit_now pool \<or> Waiting \<notin> set (tp_phases pool) \<or>
     tl_num (tp_requests pool) \<le> looking (tp_phases pool)"

definition stop_inv :: "'a lwfs_thread_pool \<Rightarrow> bool" where
  "stop_inv pool \<longleftrightarrow> (tp_shutdown_now pool \<longleftrightarrow> tp_main pool = Stopping \<or> tp_main pool = Stopped) \<and>
     (tp_shutdown_now pool \<longrightarrow> Waiting \<notin> set (tp_phases pool)) \<and>
     (Exited \<in> set (tp_phases pool) \<longrightarrow> tp_exit_now pool \<or> tp_shutdown_now pool \<and> tl_num (tp_requests pool) = 0)"

definition pool_ok :: "'a lwfs_thread_pool \<Rightarrow> bool" where
  "pool_ok pool \<longleftrightarrow> pool_requests pool \<and> pool_threads pool \<and> work_inv pool \<and> stop_inv pool"

lemma pool_ok_lists:
  assumes "pool_ok pool"
  obtains axs ths where "requests_inv (tp_requests pool) axs (tp_phases pool) (tp_accepted pool) (tp_started pool) (tp_finished pool)"
    "tl_num (tp_requests pool) = int (length axs)" "threads_inv (tp_threads pool) ths (tp_phases pool)"
  using assms by (auto simp: pool_ok_def pool_requests_def pool_threads_def requests_inv_def list_rep_def)

lemma in_set_update: "x \<in> set (xs[t := y]) \<Longrightarrow> x = y \<or> x \<in> set xs"
  using set_update_subset_insert [of xs t y] by auto

text \<open>A pool that has stopped has no thread left.\<close>

lemma alive:
  assumes "pool_ok pool" "in_phase t ph pool" "ph \<noteq> Exited"
  shows "tp_main pool \<noteq> Stopped" "rk_valid (tp_ranks pool)"
proof -
  obtain ths where ths: "threads_inv (tp_threads pool) ths (tp_phases pool)" using assms(1) by (auto simp: pool_ok_def pool_threads_def)
  then have "tl_num (tp_threads pool) = 0 \<Longrightarrow> ths = []" by (simp add: threads_inv_def list_rep_def)
  with threads_invD(4) [OF ths] assms(2,3) have "tl_num (tp_threads pool) \<noteq> 0" by (auto simp: in_phase_def)
  with assms(1) show "tp_main pool \<noteq> Stopped" "rk_valid (tp_ranks pool)" by (auto simp: pool_ok_def pool_threads_def)
qed

text \<open>A change of phase between two that handle nothing.\<close>

lemma phase_ok:
  assumes ok: "pool_ok pool" and t: "in_phase t a pool" "a \<noteq> Absent" "a \<noteq> Exited" "handled a = {#}"
    and b: "b \<noteq> Absent" "handled b = {#}" "ranked b \<longrightarrow> ranked a"
    and work: "b = Waiting \<or> a \<noteq> Waiting \<and> b = Exited \<longrightarrow> tl_num (tp_requests pool) = 0 \<or> tp_exit_now pool"
    and stop: "b = Waiting \<longrightarrow> \<not> tp_shutdown_now pool" "b = Exited \<longrightarrow> tp_exit_now pool \<or> tp_shutdown_now pool \<and> tl_num (tp_requests pool) = 0"
  shows "pool_ok (set_phase t b pool)"
proof -
  let ?phs = "tp_phases pool"
  obtain axs ths where inv: "requests_inv (tp_requests pool) axs ?phs (tp_accepted pool) (tp_started pool) (tp_finished pool)"
    "tl_num (tp_requests pool) = int (length axs)" "threads_inv (tp_threads pool) ths ?phs"
    by (rule pool_ok_lists [OF ok])
  have len: "t < length ?phs" "?phs ! t = a" using t(1) by (auto simp: in_phase_def)
  have run: "running (?phs[t := b]) = running ?phs" by (rule running_idle [OF t(1,4) b(2)])
  have "pool_requests (set_phase t b pool)"
    using ok alive(1) [OF ok t(1,3)] run by (auto simp: pool_ok_def pool_requests_def requests_inv_def)
  moreover have "pool_threads (set_phase t b pool)"
  proof -
    have "threads_inv (tp_threads pool) ths (?phs[t := b])" by (rule threads_phase [OF inv(3)]) (use t b(1) len in auto)
    moreover have "ranks_inv (tp_ranks pool) (?phs[t := b]) (tp_started pool)"
      by (rule ranks_phase) (use ok b(3) len in \<open>auto simp: pool_ok_def pool_threads_def ranks_inv_def\<close>)
    ultimately show ?thesis using ok by (auto simp: pool_ok_def pool_threads_def)
  qed
  moreover have "work_inv (set_phase t b pool)"
  proof -
    have look: "looking (?phs[t := b]) + (if a = Looking \<or> a = Created then 1 else 0) = looking ?phs + (if b = Looking \<or> b = Created then 1 else 0)"
      using looking_update [OF len(1), of b] len(2) by simp
    have "looking phs \<ge> 0" for phs by (induction phs) (auto simp: looking_def)
    with look ok work b t show ?thesis
      by (cases b) (auto simp: work_inv_def pool_ok_def ranked_def dest!: in_set_update split: if_splits)
  qed
  moreover have "stop_inv (set_phase t b pool)"
    using ok stop by (auto simp: stop_inv_def pool_ok_def dest!: in_set_update)
  ultimately show ?thesis by (simp add: pool_ok_def)
qed

lemma spurious_ok: "pool_ok pool \<Longrightarrow> in_phase t Waiting pool \<Longrightarrow> pool_ok (set_phase t Looking pool)"
  by (rule phase_ok) (auto simp: ranked_def)

lemma main_ok: "pool_ok pool \<Longrightarrow> tp_main pool \<in> {Serving, Added} \<Longrightarrow> m \<in> {Serving, Added} \<Longrightarrow> pool_ok (pool\<lparr>tp_main := m\<rparr>)"
proof -
  assume ok: "pool_ok pool" and "tp_main pool \<in> {Serving, Added}" "m \<in> {Serving, Added}"
  then have "tp_main pool \<noteq> Stopped" "tp_main pool \<noteq> Stopping" "m \<noteq> Stopped" "m \<noteq> Stopping" by auto
  with ok show ?thesis
    by (simp add: pool_ok_def pool_requests_def pool_threads_def work_inv_def stop_inv_def) blast
qed

lemma signalled_ok: "pool_ok pool \<Longrightarrow> pool_ok (pool\<lparr>tp_exit_now := True\<rparr>)"
  by (auto simp: pool_ok_def pool_requests_def pool_threads_def work_inv_def stop_inv_def)

lemma start_ok:
  assumes ok: "pool_ok pool" and t: "in_phase t Created pool"
  shows "\<exists>pool'. handler_start True t pool = Some pool'" "handler_start m t pool = Some pool' \<Longrightarrow> pool_ok pool'"
proof -
  have valid: "rk_valid (tp_ranks pool)" "tp_main pool \<noteq> Stopped" using alive [OF ok t] by simp_all
  then show "\<exists>pool'. handler_start True t pool = Some pool'"
    using ok by (simp add: handler_start_def lwfs_thread_pool_setrank_def init_rank_key_def pool_ok_def pool_threads_def ranks_inv_def)
  assume run: "handler_start m t pool = Some pool'"
  then obtain R where R: "lwfs_thread_pool_setrank m t (int t + 1) ((tp_ranks pool)\<lparr>rk_ranks := (rk_ranks (tp_ranks pool))(t := None)\<rparr>) = Some R"
    "pool' = set_phase t Looking (pool\<lparr>tp_ranks := R\<rparr>)" by (auto simp: handler_start_def bind_eq_Some_conv)
  then have "m = True" using ok valid
    by (auto simp: lwfs_thread_pool_setrank_def init_rank_key_def Let_def pool_ok_def pool_threads_def ranks_inv_def split: if_splits)
  obtain axs ths where inv: "requests_inv (tp_requests pool) axs (tp_phases pool) (tp_accepted pool) (tp_started pool) (tp_finished pool)"
    "tl_num (tp_requests pool) = int (length axs)" "threads_inv (tp_threads pool) ths (tp_phases pool)"
    by (rule pool_ok_lists [OF ok])
  have len: "t < length (tp_phases pool)" "tp_phases pool ! t = Created" using t by (auto simp: in_phase_def)
  have old: "ranks_inv (tp_ranks pool) (tp_phases pool) (tp_started pool)" using ok by (simp add: pool_ok_def pool_threads_def)
  note ranks = ranks_set [OF old valid(1) R(1) [unfolded \<open>m = True\<close>]]
  have "pool_requests pool'"
    using ok valid(2) running_idle [OF t, of Looking] by (auto simp: R(2) pool_ok_def pool_requests_def requests_inv_def)
  moreover have "pool_threads pool'"
    using threads_phase [OF inv(3), of t Looking] len ok ranks valid(2) by (auto simp: R(2) pool_ok_def pool_threads_def)
  moreover have "work_inv pool'"
    using looking_update [OF len(1), of Looking] len ok
    by (auto simp: R(2) pool_ok_def work_inv_def dest!: in_set_update)
  moreover have "stop_inv pool'" using ok by (auto simp: R(2) pool_ok_def stop_inv_def dest!: in_set_update)
  ultimately show "pool_ok pool'" by (simp add: pool_ok_def)
qed

lemma turn_ok:
  assumes ok: "pool_ok pool" and t: "in_phase t Looking pool"
  shows "\<exists>pool'. handler_turn t pool = Some pool' \<and> pool_ok pool'"
proof (cases "tp_exit_now pool \<or> \<not> tl_num (tp_requests pool) > 0")
  case True
  have num: "0 \<le> tl_num (tp_requests pool)" by (rule pool_ok_lists [OF ok]) simp
  have exit: "pool_ok (set_phase t Exited pool)" if "tp_exit_now pool \<or> tp_shutdown_now pool"
    by (rule phase_ok [OF ok t]) (use True that num in \<open>auto simp: ranked_def\<close>)
  have wait: "pool_ok (set_phase t Waiting pool)" if "\<not> tp_exit_now pool" "\<not> tp_shutdown_now pool"
    by (rule phase_ok [OF ok t]) (use True that num in \<open>auto simp: ranked_def\<close>)
  from exit wait True show ?thesis by (auto simp: handler_turn_def get_requests_number_def)
next
  case False
  obtain axs ths where inv: "requests_inv (tp_requests pool) axs (tp_phases pool) (tp_accepted pool) (tp_started pool) (tp_finished pool)"
    "tl_num (tp_requests pool) = int (length axs)" "threads_inv (tp_threads pool) ths (tp_phases pool)"
    by (rule pool_ok_lists [OF ok])
  obtain p x bxs where axs: "axs = (p, x) # bxs" using False inv(2) by (cases axs) auto
  have len: "t < length (tp_phases pool)" "tp_phases pool ! t = Looking" using t by (auto simp: in_phase_def)
  obtain q nxt where q: "get_request (tp_requests pool) = Some (Some p, q)" "tl_nodes q p = Some \<lparr>tn_data = x, tn_next = nxt\<rparr>"
    "requests_inv q bxs ((tp_phases pool)[t := Handling p]) (tp_accepted pool) (tp_started pool @ [(x, int t + 1)]) (tp_finished pool)"
    by (rule requests_get [OF inv(1) [unfolded axs] len(1), where r = "int t + 1"]) (use len(2) in auto)
  have live: "rk_valid (tp_ranks pool)" "tp_main pool \<noteq> Stopped" using alive [OF ok t] by simp_all
  have ranks: "ranks_inv (tp_ranks pool) (tp_phases pool) (tp_started pool)" using ok by (simp add: pool_ok_def pool_threads_def)
  have rank: "lwfs_thread_pool_getrank t (tp_ranks pool) = Some (int t + 1, tp_ranks pool)"
    using ranks live(1) len by (simp add: lwfs_thread_pool_getrank_def init_rank_key_def ranks_inv_def ranked_def Let_def)
  define pool' where "pool' = set_phase t (Handling p) (pool\<lparr>tp_requests := q, tp_started := tp_started pool @ [(x, int t + 1)]\<rparr>)"
  have run: "handler_turn t pool = Some pool'"
    using False q(1,2) rank by (simp add: handler_turn_def get_requests_number_def pool'_def Let_def)
  have "pool_requests pool'" using q(3) live(2) by (auto simp: pool_requests_def pool'_def)
  moreover have "pool_threads pool'"
  proof -
    have "ranks_inv (tp_ranks pool) ((tp_phases pool)[t := Handling p]) (tp_started pool @ [(x, int t + 1)])"
      by (intro ranks_started ranks_phase [OF ranks]) (use ranks len in \<open>auto simp: ranks_inv_def ranked_def\<close>)
    then show ?thesis using threads_phase [OF inv(3), of t "Handling p"] len ok live
      by (auto simp: pool_ok_def pool_threads_def pool'_def)
  qed
  moreover have num: "tl_num q = tl_num (tp_requests pool) - 1"
    using q(3) inv(1) by (simp add: requests_inv_def list_rep_def axs)
  then have "work_inv pool'"
    using looking_update [OF len(1), of "Handling p"] len ok
    by (auto simp: pool'_def pool_ok_def work_inv_def dest!: in_set_update)
  moreover have "stop_inv pool'"
    using ok num inv(2) by (auto simp: pool'_def pool_ok_def stop_inv_def axs dest!: in_set_update)
  ultimately show ?thesis using run by (simp add: pool_ok_def)
qed

lemma done_ok:
  assumes ok: "pool_ok pool" and t: "in_phase t (Handling p) pool"
  shows "\<exists>pool'. handler_done t p pool = Some pool' \<and> pool_ok pool'"
proof -
  obtain axs ths where inv: "requests_inv (tp_requests pool) axs (tp_phases pool) (tp_accepted pool) (tp_started pool) (tp_finished pool)"
    "tl_num (tp_requests pool) = int (length axs)" "threads_inv (tp_threads pool) ths (tp_phases pool)"
    by (rule pool_ok_lists [OF ok])
  have len: "t < length (tp_phases pool)" "tp_phases pool ! t = Handling p" using t by (auto simp: in_phase_def)
  obtain q node where q: "tl_nodes (tp_requests pool) p = Some node" "free_node (tp_requests pool) p = Some q"
    "requests_inv q axs ((tp_phases pool)[t := Looking]) (tp_accepted pool) (tp_started pool) (tp_finished pool @ [tn_data node])"
    by (rule requests_done [OF inv(1) len])
  define pool' where "pool' = set_phase t Looking (pool\<lparr>tp_requests := q, tp_finished := tp_finished pool @ [tn_data node]\<rparr>)"
  have run: "handler_done t p pool = Some pool'" using q(1,2) by (simp add: handler_done_def pool'_def)
  have live: "rk_valid (tp_ranks pool)" "tp_main pool \<noteq> Stopped" using alive [OF ok t] by simp_all
  have "pool_requests pool'" using q(3) live(2) by (auto simp: pool_requests_def pool'_def)
  moreover have "pool_threads pool'"
  proof -
    have "ranks_inv (tp_ranks pool) ((tp_phases pool)[t := Looking]) (tp_started pool)"
      by (rule ranks_phase) (use ok len in \<open>auto simp: pool_ok_def pool_threads_def ranks_inv_def ranked_def\<close>)
    then show ?thesis using threads_phase [OF inv(3), of t Looking] len ok live
      by (auto simp: pool_ok_def pool_threads_def pool'_def)
  qed
  moreover have num: "tl_num q = tl_num (tp_requests pool)"
    using q(3) inv(1) by (simp add: requests_inv_def list_rep_def)
  then have "work_inv pool'"
    using looking_update [OF len(1), of Looking] len ok
    by (auto simp: pool'_def pool_ok_def work_inv_def dest!: in_set_update)
  moreover have "stop_inv pool'"
    using ok num by (auto simp: pool'_def pool_ok_def stop_inv_def dest!: in_set_update)
  ultimately show ?thesis using run by (simp add: pool_ok_def)
qed

text \<open>The thread that uses the pool.\<close>

lemma wake_sel [simp]: "tp_requests (wake woken pool) = tp_requests pool" "tp_threads (wake woken pool) = tp_threads pool"
  "tp_main (wake woken pool) = tp_main pool" "tp_exit_now (wake woken pool) = tp_exit_now pool"
  "tp_accepted (wake woken pool) = tp_accepted pool" "tp_args (wake woken pool) = tp_args pool"
  by (simp_all add: wake_def split: option.splits)

lemma enqueue_ok:
  assumes ok: "pool_ok pool" and main: "tp_main pool = Serving" and woken: "signal_wakes woken pool"
  shows "\<exists>pool'. pool_enqueue True x woken pool = Some (0, pool') \<and> pool_ok pool' \<and> tp_main pool' = Serving \<and>
    tp_accepted pool' = tp_accepted pool @ [x]"
proof -
  obtain axs ths where inv: "requests_inv (tp_requests pool) axs (tp_phases pool) (tp_accepted pool) (tp_started pool) (tp_finished pool)"
    "tl_num (tp_requests pool) = int (length axs)" "threads_inv (tp_threads pool) ths (tp_phases pool)"
    by (rule pool_ok_lists [OF ok])
  obtain p q1 where q1: "new_node (tp_requests pool) x = (p, q1)" by fastforce
  obtain q2 where q2: "add_request q1 p = Some q2"
    "requests_inv q2 (axs @ [(p, x)]) (tp_phases pool) (tp_accepted pool @ [x]) (tp_started pool) (tp_finished pool)"
    by (rule requests_enqueue [OF inv(1) q1])
  define pool1 where "pool1 = pool\<lparr>tp_requests := q2, tp_accepted := tp_accepted pool @ [x]\<rparr>"
  have run: "pool_enqueue True x woken pool = Some (0, wake woken pool1)"
    using q1 q2(1) by (simp add: pool_enqueue_def pool1_def)
  have num: "tl_num q2 = tl_num (tp_requests pool) + 1" using q2(2) inv(2) by (simp add: requests_inv_def list_rep_def)
  have rest: "pool_requests pool1" "pool_threads pool1"
    using q2(2) main ok by (auto simp: pool1_def pool_requests_def pool_ok_def pool_threads_def)
  have stop: "stop_inv pool1" using ok main by (auto simp: pool_ok_def stop_inv_def pool1_def)
  have "pool_ok (wake woken pool1)"
  proof (cases woken)
    case None
    then have "Waiting \<notin> set (tp_phases pool)" using woken by (simp add: signal_wakes_def)
    then show ?thesis using rest stop None by (simp add: pool_ok_def wake_def work_inv_def pool1_def)
  next
    case (Some t)
    then have t: "in_phase t Waiting pool" using woken by (simp add: signal_wakes_def)
    then have "Waiting \<in> set (tp_phases pool)" by (force simp: in_phase_def set_conv_nth)
    from spurious_ok [OF ok t] have old: "pool_requests (set_phase t Looking pool)" "pool_threads (set_phase t Looking pool)"
      "stop_inv (set_phase t Looking pool)" by (simp_all add: pool_ok_def)
    have "pool_requests (set_phase t Looking pool1)"
      using requests_inv_phases [OF q2(2) running_idle [OF t, of Looking]] main by (auto simp: pool_requests_def pool1_def)
    moreover have "pool_threads (set_phase t Looking pool1)" using old(2) by (simp add: pool_threads_def pool1_def)
    moreover have "work_inv (set_phase t Looking pool1)"
      using looking_update [of t "tp_phases pool" Looking] t ok num \<open>Waiting \<in> set (tp_phases pool)\<close>
      by (auto simp: work_inv_def pool1_def pool_ok_def in_phase_def)
    moreover have "stop_inv (set_phase t Looking pool1)" using old(3) main by (auto simp: stop_inv_def pool1_def)
    ultimately show ?thesis using Some by (simp add: pool_ok_def wake_def)
  qed
  with run main show ?thesis by (simp add: pool1_def)
qed

lemma add_thread_ok:
  assumes ok: "pool_ok pool" and main: "tp_main pool \<noteq> Stopped"
  shows "sp_thread_malloc sp \<Longrightarrow> sp_params_malloc sp \<Longrightarrow> \<exists>pool'. add_handler_thread sp pool = Some pool'"
    "add_handler_thread sp pool = Some pool' \<Longrightarrow> pool_ok pool' \<and> tp_main pool' = tp_main pool \<and> tp_args pool' = tp_args pool \<and>
       tl_num (tp_threads pool') = tl_num (tp_threads pool) + 1"
proof -
  let ?ph = "if sp_created sp then Created else Absent" and ?phs = "tp_phases pool"
  obtain axs ths where inv: "requests_inv (tp_requests pool) axs ?phs (tp_accepted pool) (tp_started pool) (tp_finished pool)"
    "tl_num (tp_requests pool) = int (length axs)" "threads_inv (tp_threads pool) ths ?phs"
    by (rule pool_ok_lists [OF ok])
  have max: "tp_max_thr_id pool = length ?phs" using ok by (simp add: pool_ok_def pool_threads_def)
  obtain p l1 where l1: "new_node (tp_threads pool) \<lparr>thr_id = length ?phs, ht_thread = ?ph \<noteq> Absent\<rparr> = (p, l1)" by fastforce
  obtain l2 where l2: "link_last l1 p = Some l2"
    "threads_inv l2 (ths @ [(p, \<lparr>thr_id = length ?phs, ht_thread = ?ph \<noteq> Absent\<rparr>)]) (?phs @ [?ph])"
    by (rule threads_add [OF inv(3) l1])
  define pool1 where "pool1 = pool\<lparr>tp_max_thr_id := length ?phs + 1, tp_threads := l2, tp_phases := ?phs @ [?ph]\<rparr>"
  have ph: "(?ph \<noteq> Absent) = sp_created sp" by simp
  have run: "add_handler_thread sp pool = (if \<not> sp_thread_malloc sp \<or> \<not> sp_params_malloc sp then None else Some pool1)"
    using l1 [unfolded ph] l2(1) by (simp add: add_handler_thread_def pool1_def max Let_def)
  have num: "tl_num l2 = tl_num (tp_threads pool) + 1" using l2(2) inv(3) by (simp add: threads_inv_def list_rep_def)
  have "pool_requests pool1"
    using ok main by (auto simp: pool1_def pool_ok_def pool_requests_def requests_inv_def)
  moreover have "pool_threads pool1"
    using ok main l2(2) ranks_add [of "tp_ranks pool" ?phs "tp_started pool" ?ph]
    by (auto simp: pool1_def pool_ok_def pool_threads_def ranked_def)
  moreover have "looking (?phs @ [?ph]) \<ge> looking ?phs" by (simp add: looking_def)
  then have "work_inv pool1" using ok by (auto simp: pool1_def pool_ok_def work_inv_def)
  moreover have "stop_inv pool1" using ok by (auto simp: pool1_def pool_ok_def stop_inv_def)
  ultimately have ok1: "pool_ok pool1" by (simp add: pool_ok_def)
  show "sp_thread_malloc sp \<Longrightarrow> sp_params_malloc sp \<Longrightarrow> \<exists>pool'. add_handler_thread sp pool = Some pool'"
    by (simp add: run)
  show "add_handler_thread sp pool = Some pool' \<Longrightarrow> pool_ok pool' \<and> tp_main pool' = tp_main pool \<and> tp_args pool' = tp_args pool \<and>
       tl_num (tp_threads pool') = tl_num (tp_threads pool) + 1"
    using ok1 num by (auto simp: run pool1_def split: if_splits)
qed

lemma grow_ok: "pool_ok pool \<Longrightarrow> tp_main pool \<noteq> Stopped \<Longrightarrow> pool_grow sp pool = Some pool' \<Longrightarrow>
    pool_ok pool' \<and> tp_main pool' = tp_main pool"
  using add_thread_ok(2) [of pool sp pool'] by (auto simp: pool_grow_def Let_def split: if_splits)

lemma shutdown_ok:
  assumes ok: "pool_ok pool" and main: "tp_main pool = Serving"
  shows "pool_ok (pool_shutdown pool\<lparr>tp_main := Stopping\<rparr>)"
proof -
  let ?phs = "map (\<lambda>ph. if ph = Waiting then Looking else ph) (tp_phases pool)"
  obtain axs ths where inv: "requests_inv (tp_requests pool) axs (tp_phases pool) (tp_accepted pool) (tp_started pool) (tp_finished pool)"
    "tl_num (tp_requests pool) = int (length axs)" "threads_inv (tp_threads pool) ths (tp_phases pool)"
    by (rule pool_ok_lists [OF ok])
  have "pool_requests (pool_shutdown pool\<lparr>tp_main := Stopping\<rparr>)"
    using requests_inv_phases [OF inv(1), of ?phs] by (auto simp: pool_requests_def pool_shutdown_def)
  moreover have "pool_threads (pool_shutdown pool\<lparr>tp_main := Stopping\<rparr>)"
    using threads_wake [OF inv(3)] ranks_wake [of "tp_ranks pool" "tp_phases pool" "tp_started pool"] ok main
    by (auto simp: pool_threads_def pool_shutdown_def pool_ok_def)
  moreover have "Waiting \<notin> set ?phs" "Exited \<in> set ?phs \<Longrightarrow> Exited \<in> set (tp_phases pool)" by auto
  then have "work_inv (pool_shutdown pool\<lparr>tp_main := Stopping\<rparr>)" "stop_inv (pool_shutdown pool\<lparr>tp_main := Stopping\<rparr>)"
    using ok main unfolding work_inv_def stop_inv_def pool_shutdown_def pool_ok_def by (simp_all del: set_map) blast
  ultimately show ?thesis by (simp add: pool_ok_def)
qed

lemma join_ok:
  assumes ok: "pool_ok pool" and main: "tp_main pool = Stopping" and num: "tl_num (tp_threads pool) > 0"
  obtains h where "h < length (tp_phases pool)"
    "tp_phases pool ! h = Exited \<Longrightarrow> \<exists>pool'. pool_join pool = Some pool'"
    "\<And>pool'. pool_join pool = Some pool' \<Longrightarrow> pool_ok pool' \<and> tp_phases pool' = tp_phases pool \<and>
       tl_num (tp_threads pool') = tl_num (tp_threads pool) - 1"
proof -
  obtain axs ths where inv: "requests_inv (tp_requests pool) axs (tp_phases pool) (tp_accepted pool) (tp_started pool) (tp_finished pool)"
    "tl_num (tp_requests pool) = int (length axs)" "threads_inv (tp_threads pool) ths (tp_phases pool)"
    by (rule pool_ok_lists [OF ok])
  obtain p h l1 l2 ths' where l: "unlink_first (tp_threads pool) = Some (Some p, l1)" "tl_nodes l1 p = Some \<lparr>tn_data = h, tn_next = None\<rparr>"
    "free_node l1 p = Some l2" "thr_id h < length (tp_phases pool)" "ht_thread h \<longleftrightarrow> tp_phases pool ! thr_id h \<noteq> Absent"
    "tl_num l2 = tl_num (tp_threads pool) - 1" "tp_phases pool ! thr_id h = Exited \<longrightarrow> threads_inv l2 ths' (tp_phases pool)"
    by (rule threads_join [OF inv(3) num])
  have run: "pool_join pool = (if tp_phases pool ! thr_id h = Exited then Some (pool\<lparr>tp_threads := l2\<rparr>) else None)"
    using l(1-5) by (auto simp: pool_join_def remove_first_handler_thread_def in_phase_def)
  have "pool_ok (pool\<lparr>tp_threads := l2\<rparr>)" if "tp_phases pool ! thr_id h = Exited"
    using ok l(7) that main by (auto simp: pool_ok_def pool_requests_def pool_threads_def work_inv_def stop_inv_def)
  then show thesis using l(4,6) run by (intro that [of "thr_id h"]) (auto split: if_splits)
qed

lemma delete_ok:
  assumes ok: "pool_ok pool" and main: "tp_main pool = Stopping" and num: "tl_num (tp_threads pool) = 0"
  shows "\<exists>pool'. pool_delete pool = Some pool' \<and> pool_ok pool'"
proof -
  obtain axs ths where inv: "requests_inv (tp_requests pool) axs (tp_phases pool) (tp_accepted pool) (tp_started pool) (tp_finished pool)"
    "tl_num (tp_requests pool) = int (length axs)" "threads_inv (tp_threads pool) ths (tp_phases pool)"
    by (rule pool_ok_lists [OF ok])
  define pool' where "pool' = pool\<lparr>tp_ranks := delete_rank_key (tp_ranks pool), tp_dropped := map snd axs, tp_main := Stopped\<rparr>"
  have "pool_delete pool = Some pool'"
    using delete_requests_rep [of "tp_requests pool" axs] inv(1) by (simp add: pool_delete_def pool'_def requests_inv_def)
  moreover have "pool_requests pool'" using inv(1) by (auto simp: pool_requests_def pool'_def)
  moreover have "pool_threads pool'" using ok num
    by (auto simp: pool_threads_def pool'_def pool_ok_def ranks_inv_def delete_rank_key_def)
  moreover have "work_inv pool'" "stop_inv pool'" using ok main by (auto simp: pool_ok_def work_inv_def stop_inv_def pool'_def)
  ultimately show ?thesis by (simp add: pool_ok_def)
qed

lemma add_threads_ok: "pool_ok pool \<Longrightarrow> tp_main pool \<noteq> Stopped \<Longrightarrow> add_threads sps i n pool = Some pool' \<Longrightarrow>
    pool_ok pool' \<and> tp_main pool' = tp_main pool \<and> tp_args pool' = tp_args pool \<and> tl_num (tp_threads pool') = tl_num (tp_threads pool) + int n"
proof (induction n arbitrary: i pool)
  case (Suc n)
  then obtain pool1 where "add_handler_thread (sps i) pool = Some pool1" "add_threads sps (i + 1) n pool1 = Some pool'"
    by (auto simp: bind_eq_Some_conv)
  with Suc.IH [of pool1 "i + 1"] add_thread_ok(2) [OF Suc.prems(1,2), of "sps i" pool1] Suc.prems(2) show ?case by auto
qed simp

lemma empty_pool_ok: "\<not> rk_init R \<or> rk_valid R \<Longrightarrow> pool_ok (empty_pool R exit_now args)"
  by (auto simp: pool_ok_def pool_requests_def pool_threads_def work_inv_def stop_inv_def empty_pool_def requests_inv_def
      init_list_rep running_def threads_inv_def ranks_inv_def init_rank_key_def init_requests_queue_def
      intro!: exI [of _ "[]"] init_list_rep [unfolded init_requests_queue_def])

lemma pool_init_ok:
  assumes R: "\<not> rk_init R \<or> rk_valid R" and run: "lwfs_thread_pool_init R exit_now qm pm sps given = Some pool"
  shows "pool_ok pool" "tp_main pool = Serving" "pool_args given = Some (tp_args pool)"
    "tl_num (tp_threads pool) = int (nat (initial_thread_count (tp_args pool)))"
proof -
  obtain args where args: "pool_args given = Some args"
    "add_threads sps 0 (nat (initial_thread_count args)) (empty_pool R exit_now args) = Some pool"
    using run by (auto simp: lwfs_thread_pool_init_def bind_eq_Some_conv split: if_splits)
  have "tp_main (empty_pool R exit_now args :: 'a lwfs_thread_pool) \<noteq> Stopped" by (simp add: empty_pool_def)
  from add_threads_ok [OF empty_pool_ok [OF R] this args(2)] args(1)
  show "pool_ok pool" "tp_main pool = Serving" "pool_args given = Some (tp_args pool)"
    "tl_num (tp_threads pool) = int (nat (initial_thread_count (tp_args pool)))"
    by (simp_all add: empty_pool_def init_requests_queue_def)
qed

theorem pool_step_ok: "pool_step pool pool' \<Longrightarrow> pool_ok pool \<Longrightarrow> pool_ok pool'"
proof (induction rule: pool_step.induct)
  case (enqueue pool woken m x rc pool')
  show ?case
  proof (cases m)
    case True
    with enqueue_ok [OF enqueue.prems enqueue.hyps(1,2), of x] enqueue.hyps(3) show ?thesis by (auto intro!: main_ok)
  next
    case False
    with enqueue show ?thesis by (auto simp: pool_enqueue_def intro!: main_ok)
  qed
next
  case (grow pool sp pool')
  with grow_ok [of pool sp pool'] show ?case by (auto intro!: main_ok)
next
  case (turn t pool pool')
  with turn_ok [of pool t] show ?case by auto
next
  case (finish t p pool pool')
  with done_ok [of pool t p] show ?case by auto
next
  case (join pool pool')
  show ?case by (rule join_ok [OF join(4,1,2)]) (use join(3) in auto)
next
  case (delete pool pool')
  with delete_ok [of pool] show ?case by auto
qed (auto intro: start_ok spurious_ok signalled_ok shutdown_ok)

theorem pool_reach_ok: "pool_reach pool \<Longrightarrow> pool_ok pool"
  by (induction rule: pool_reach.induct) (auto intro: pool_init_ok pool_step_ok)

end
