(* ===== verification/Thread_Pool_Properties.thy ===== *)
theory Thread_Pool_Properties imports Thread_Pool_Inv begin

section \<open>Properties of the queues and of the thread pool\<close>

subsection \<open>Shutdown\<close>

text \<open>What is left to do: steps, handler runs, joins.\<close>

definition pool_work :: "'a lwfs_thread_pool \<Rightarrow> nat" where
  "pool_work pool = 2 * nat (tl_num (tp_requests pool)) + threads_work (tp_phases pool) + nat (tl_num (tp_threads pool)) +
     (if tp_main pool = Stopped then 0 else 1) + (if tp_exit_now pool then 0 else 1)"

definition pool_stops :: "'a lwfs_thread_pool \<Rightarrow> bool" where
  "pool_stops pool \<longleftrightarrow> tp_main pool = Stopping \<or> tp_main pool = Stopped"

lemma phase_work_less: "in_phase t a pool \<Longrightarrow> phase_work b < phase_work a \<Longrightarrow> pool_work (set_phase t b pool) < pool_work pool"
  using threads_work_update [of t "tp_phases pool" b] by (auto simp: pool_work_def in_phase_def)

lemma start_work:
  assumes "in_phase t Created pool" "handler_start m t pool = Some pool'"
  shows "pool_work pool' < pool_work pool" "tp_main pool' = tp_main pool"
proof -
  obtain R where R: "pool' = set_phase t Looking (pool\<lparr>tp_ranks := R\<rparr>)"
    using assms(2) by (auto simp: handler_start_def bind_eq_Some_conv)
  show "pool_work pool' < pool_work pool" "tp_main pool' = tp_main pool"
    using threads_work_update [of t "tp_phases pool" Looking] assms(1) by (auto simp: R pool_work_def in_phase_def)
qed

lemma get_request_num: "get_request q = Some (r, q') \<Longrightarrow> tl_num q > 0 \<Longrightarrow> tl_num q' = tl_num q - 1 \<and> r \<noteq> None"
  by (auto simp: get_request_def bind_eq_Some_conv)

lemma turn_cases:
  assumes "handler_turn t pool = Some pool'"
  obtains ph where "pool' = set_phase t ph pool" "ph = Exited \<or> ph = Waiting" "tp_shutdown_now pool \<longrightarrow> ph = Exited"
  | q p R xs where "tl_num (tp_requests pool) > 0" "get_request (tp_requests pool) = Some (Some p, q)"
      "pool' = set_phase t (Handling p) (pool\<lparr>tp_requests := q, tp_ranks := R, tp_started := xs\<rparr>)"
proof (cases "tp_exit_now pool \<or> \<not> tl_num (tp_requests pool) > 0")
  case True
  then show thesis
    using assms that(1) [of Exited] that(1) [of Waiting] by (auto simp: handler_turn_def get_requests_number_def split: if_splits)
next
  case False
  then obtain r q where q: "get_request (tp_requests pool) = Some (r, q)"
    using assms by (auto simp: handler_turn_def get_requests_number_def bind_eq_Some_conv)
  with False get_request_num obtain p where p: "r = Some p" by blast
  with q False assms show thesis
    by (auto simp: handler_turn_def get_requests_number_def bind_eq_Some_conv Let_def intro!: that(2))
qed

lemma turn_work:
  assumes "in_phase t Looking pool" "handler_turn t pool = Some pool'" "tp_shutdown_now pool"
  shows "pool_work pool' < pool_work pool"
  using assms(2)
proof (cases rule: turn_cases)
  case (1 ph)
  then show ?thesis using phase_work_less [OF assms(1), of Exited] assms(3) by simp
next
  case (2 q p R xs)
  with get_request_num [OF 2(2,1)] threads_work_update [of t "tp_phases pool" "Handling p"] assms(1)
  show ?thesis by (auto simp: pool_work_def in_phase_def)
qed

text \<open>What the steps of threads and joins leave alone.\<close>

lemma step_frame:
  "handler_start m t pool = Some pool' \<Longrightarrow> tp_exit_now pool' = tp_exit_now pool \<and> tp_main pool' = tp_main pool"
  "handler_turn t pool = Some pool' \<Longrightarrow> tp_exit_now pool' = tp_exit_now pool \<and> tp_main pool' = tp_main pool"
  "handler_done t p pool = Some pool' \<Longrightarrow> tp_exit_now pool' = tp_exit_now pool \<and> tp_main pool' = tp_main pool"
  "pool_join pool = Some pool' \<Longrightarrow> tp_exit_now pool' = tp_exit_now pool \<and> tp_main pool' = tp_main pool"
  "pool_delete pool = Some pool' \<Longrightarrow> tp_exit_now pool' = tp_exit_now pool"
  by (auto simp: handler_start_def handler_done_def pool_join_def remove_first_handler_thread_def pool_delete_def
      bind_eq_Some_conv split: if_splits elim: turn_cases)

lemma done_work:
  assumes "in_phase t (Handling p) pool" "handler_done t p pool = Some pool'"
  shows "pool_work pool' < pool_work pool" "tp_main pool' = tp_main pool"
proof -
  obtain q xs where q: "free_node (tp_requests pool) p = Some q" "pool' = set_phase t Looking (pool\<lparr>tp_requests := q, tp_finished := xs\<rparr>)"
    using assms(2) by (auto simp: handler_done_def bind_eq_Some_conv)
  then have "tl_num q = tl_num (tp_requests pool)" by (auto simp: free_node_def split: if_splits)
  with q(2) threads_work_update [of t "tp_phases pool" Looking] assms(1)
  show "pool_work pool' < pool_work pool" "tp_main pool' = tp_main pool" by (auto simp: pool_work_def in_phase_def)
qed

lemma join_work:
  assumes "pool_ok pool" "tp_main pool = Stopping" "tl_num (tp_threads pool) > 0" "pool_join pool = Some pool'"
  shows "pool_work pool' < pool_work pool" "tp_main pool' = tp_main pool"
proof -
  obtain l where l: "pool' = pool\<lparr>tp_threads := l\<rparr>"
    using assms(4) by (auto simp: pool_join_def remove_first_handler_thread_def bind_eq_Some_conv split: if_splits)
  have "tl_num l = tl_num (tp_threads pool) - 1"
    by (rule join_ok [OF assms(1-3)]) (use assms(4) l in auto)
  with assms(3) show "pool_work pool' < pool_work pool" "tp_main pool' = tp_main pool" by (auto simp: l pool_work_def)
qed

lemma stopping_work: "pool_step pool pool' \<Longrightarrow> pool_ok pool \<Longrightarrow> pool_stops pool \<Longrightarrow> pool_work pool' < pool_work pool \<and> pool_stops pool'"
proof (induction rule: pool_step.induct)
  case (start t pool m pool')
  with start_work [OF start(1,2)] show ?case by (simp add: pool_stops_def)
next
  case (turn t pool pool')
  then have "tp_shutdown_now pool" by (simp add: pool_ok_def stop_inv_def pool_stops_def)
  with turn_work [OF turn(1,2)] step_frame(2) [OF turn(2)] turn show ?case by (simp add: pool_stops_def)
next
  case (finish t p pool pool')
  with done_work [OF finish(1,2)] show ?case by (simp add: pool_stops_def)
next
  case (spurious t pool)
  then show ?case using phase_work_less [of t Waiting pool Looking] by (simp add: pool_stops_def)
next
  case (join pool pool')
  with join_work [of pool pool'] show ?case by (simp add: pool_stops_def)
next
  case (delete pool pool')
  then show ?case by (auto simp: pool_delete_def bind_eq_Some_conv pool_stops_def pool_work_def)
qed (auto simp: pool_stops_def pool_work_def)

text \<open>Until it has stopped there is a step that is not a signal, if every thread was created.\<close>

lemma stopping_step:
  assumes ok: "pool_ok pool" and main: "tp_main pool = Stopping" and all: "Absent \<notin> set (tp_phases pool)"
  shows "\<exists>pool'. pool_step pool pool' \<and> tp_exit_now pool' = tp_exit_now pool"
proof (cases "\<exists>t<length (tp_phases pool). tp_phases pool ! t \<noteq> Exited")
  case True
  then obtain t where t: "t < length (tp_phases pool)" "tp_phases pool ! t \<noteq> Exited" by blast
  then have "tp_phases pool ! t \<noteq> Absent" using all by (metis nth_mem)
  with t consider "in_phase t Created pool" | "in_phase t Looking pool" | "in_phase t Waiting pool" | p where "in_phase t (Handling p) pool"
    by (cases "tp_phases pool ! t") (auto simp: in_phase_def)
  then show ?thesis
  proof cases
    case 1
    then obtain pool' where "handler_start True t pool = Some pool'" using start_ok(1) [OF ok] by blast
    with pool_step.start [OF 1 this] step_frame(1) [OF this] show ?thesis by blast
  next
    case 2
    then obtain pool' where "handler_turn t pool = Some pool'" using turn_ok [OF ok] by blast
    with pool_step.turn [OF 2 this] step_frame(2) [OF this] show ?thesis by blast
  next
    case 3
    then show ?thesis by (intro exI [of _ "set_phase t Looking pool"]) (auto intro: pool_step.spurious)
  next
    case 4
    then obtain pool' where "handler_done t p pool = Some pool'" using done_ok [OF ok] by blast
    with pool_step.finish [OF 4 this] step_frame(3) [OF this] show ?thesis by blast
  qed
next
  case False
  show ?thesis
  proof (cases "tl_num (tp_threads pool) > 0")
    case True
    obtain h pool' where "h < length (tp_phases pool)" "pool_join pool = Some pool'"
      by (rule join_ok [OF ok main True]) (use False in blast)
    from pool_step.join [OF main True this(2)] step_frame(4) [OF this(2)] show ?thesis by blast
  next
    case no: False
    obtain axs ths where "threads_inv (tp_threads pool) ths (tp_phases pool)" by (rule pool_ok_lists [OF ok])
    with no have num: "tl_num (tp_threads pool) = 0" by (simp add: threads_inv_def list_rep_def)
    obtain pool' where "pool_delete pool = Some pool'" using delete_ok [OF ok main num] by blast
    from pool_step.delete [OF main num this] step_frame(5) [OF this] show ?thesis by blast
  qed
qed

text \<open>No thread is created while the pool stops.\<close>

lemma absent_update: "Absent \<notin> set phs \<Longrightarrow> ph \<noteq> Absent \<Longrightarrow> Absent \<notin> set (phs[t := ph])"
  by (auto dest: in_set_update)

lemma step_created:
  "handler_start m t pool = Some pool' \<Longrightarrow> Absent \<notin> set (tp_phases pool) \<Longrightarrow> Absent \<notin> set (tp_phases pool')"
  "handler_turn t pool = Some pool' \<Longrightarrow> Absent \<notin> set (tp_phases pool) \<Longrightarrow> Absent \<notin> set (tp_phases pool')"
  "handler_done t p pool = Some pool' \<Longrightarrow> Absent \<notin> set (tp_phases pool) \<Longrightarrow> Absent \<notin> set (tp_phases pool')"
  "pool_join pool = Some pool' \<Longrightarrow> tp_phases pool' = tp_phases pool"
  "pool_delete pool = Some pool' \<Longrightarrow> tp_phases pool' = tp_phases pool"
  by (auto simp: handler_start_def handler_done_def pool_join_def remove_first_handler_thread_def pool_delete_def
      bind_eq_Some_conv absent_update split: if_splits elim!: turn_cases)

lemma stopping_created: "pool_step pool pool' \<Longrightarrow> pool_stops pool \<Longrightarrow> Absent \<notin> set (tp_phases pool) \<Longrightarrow> Absent \<notin> set (tp_phases pool')"
  by (induction rule: pool_step.induct) (auto simp: pool_stops_def absent_update dest: step_created)

lemma stopping_run:
  assumes "(pool_step ^^ n) pool pool'" "pool_ok pool" "pool_stops pool" "Absent \<notin> set (tp_phases pool)"
  shows "n + pool_work pool' \<le> pool_work pool \<and> pool_ok pool' \<and> pool_stops pool' \<and> Absent \<notin> set (tp_phases pool')"
  using assms(1)
proof (induction n arbitrary: pool')
  case (Suc n)
  then obtain mid where mid: "(pool_step ^^ n) pool mid" "pool_step mid pool'" by auto
  with Suc.IH [OF mid(1)] stopping_work [OF mid(2)] pool_step_ok [OF mid(2)] stopping_created [OF mid(2)] show ?case by auto
qed (use assms in simp)

subsection \<open>The size of the pool\<close>

definition args_ok :: "thread_pool_options \<Rightarrow> bool" where
  "args_ok a \<longleftrightarrow> 1 \<le> min_thread_count a \<and> min_thread_count a \<le> initial_thread_count a \<and>
     initial_thread_count a \<le> max_thread_count a \<and> 1 \<le> low_watermark a \<and> low_watermark a \<le> high_watermark a"

lemma pool_args_ok: "pool_args given = Some a \<Longrightarrow> args_ok a"
  by (auto simp: pool_args_def args_ok_def int_plus_def MIN_HANDLER_THREADS_def MAX_HANDLER_THREADS_def LOW_WATERMARK_def
      HIGH_WATERMARK_def bind_eq_Some_conv split: if_splits)

lemma pool_args_defined:
  assumes "min_thread_count given < 2 ^ 31 - 11" "low_watermark given < 2 ^ 31 - 12"
  shows "pool_args given \<noteq> None"
  using assms by (auto simp: pool_args_def int_plus_def int_range_def MIN_HANDLER_THREADS_def MAX_HANDLER_THREADS_def
      LOW_WATERMARK_def HIGH_WATERMARK_def)

definition sized :: "'a lwfs_thread_pool \<Rightarrow> bool" where
  "sized pool \<longleftrightarrow> args_ok (tp_args pool) \<and> tp_phases pool \<noteq> [] \<and>
     tl_num (tp_threads pool) \<le> max_thread_count (tp_args pool) \<and> (\<not> pool_stops pool \<longrightarrow> 1 \<le> tl_num (tp_threads pool))"

lemma step_size:
  "handler_start m t pool = Some pool' \<Longrightarrow> tp_args pool' = tp_args pool \<and> tp_threads pool' = tp_threads pool \<and> length (tp_phases pool') = length (tp_phases pool)"
  "handler_turn t pool = Some pool' \<Longrightarrow> tp_args pool' = tp_args pool \<and> tp_threads pool' = tp_threads pool \<and> length (tp_phases pool') = length (tp_phases pool)"
  "handler_done t p pool = Some pool' \<Longrightarrow> tp_args pool' = tp_args pool \<and> tp_threads pool' = tp_threads pool \<and> length (tp_phases pool') = length (tp_phases pool)"
  "pool_enqueue m x w pool = Some (rc, pool') \<Longrightarrow> tp_args pool' = tp_args pool \<and> tp_threads pool' = tp_threads pool \<and> length (tp_phases pool') = length (tp_phases pool)"
  "pool_join pool = Some pool' \<Longrightarrow> tp_args pool' = tp_args pool \<and> length (tp_phases pool') = length (tp_phases pool)"
  "pool_delete pool = Some pool' \<Longrightarrow> tp_args pool' = tp_args pool \<and> tp_threads pool' = tp_threads pool \<and> length (tp_phases pool') = length (tp_phases pool)"
  by (auto simp: handler_start_def handler_done_def pool_join_def remove_first_handler_thread_def pool_delete_def pool_enqueue_def
      wake_def bind_eq_Some_conv split: if_splits option.splits prod.splits elim!: turn_cases)

lemma add_thread_sized: "add_handler_thread sp pool = Some pool' \<Longrightarrow> tp_phases pool' \<noteq> []"
  by (auto simp: add_handler_thread_def bind_eq_Some_conv Let_def split: if_splits prod.splits)

lemma grow_sized:
  assumes "pool_ok pool" "tp_main pool = Added" "sized pool" "pool_grow sp pool = Some pool'"
  shows "sized (pool'\<lparr>tp_main := Serving\<rparr>)"
proof (cases "add_handler_thread sp pool = Some pool' \<and> tl_num (tp_threads pool) < max_thread_count (tp_args pool)")
  case True
  with add_thread_ok(2) [of pool sp pool'] add_thread_sized [of sp pool pool'] assms(1-3) show ?thesis
    by (auto simp: sized_def pool_stops_def)
next
  case False
  with assms(4) have "pool' = pool" by (auto simp: pool_grow_def get_handler_threads_number_def Let_def split: if_splits)
  with assms show ?thesis by (auto simp: sized_def pool_stops_def)
qed

lemma join_sized: "pool_ok pool \<Longrightarrow> tp_main pool = Stopping \<Longrightarrow> tl_num (tp_threads pool) > 0 \<Longrightarrow> pool_join pool = Some pool' \<Longrightarrow>
    tl_num (tp_threads pool') = tl_num (tp_threads pool) - 1"
  by (rule join_ok [of pool]) auto

lemma step_sized: "pool_step pool pool' \<Longrightarrow> pool_ok pool \<Longrightarrow> sized pool \<Longrightarrow> sized pool'"
proof (induction rule: pool_step.induct)
  case (enqueue pool woken m x rc pool')
  from step_size(4) [OF enqueue(3)] enqueue(1,5) show ?case by (auto simp: sized_def pool_stops_def)
next
  case (grow pool sp pool')
  from grow_sized [OF grow(3,1,4,2)] show ?case .
next
  case (start t pool m pool')
  from step_size(1) [OF start(2)] step_frame(1) [OF start(2)] start(4) show ?case by (auto simp: sized_def pool_stops_def)
next
  case (turn t pool pool')
  from step_size(2) [OF turn(2)] step_frame(2) [OF turn(2)] turn(4) show ?case by (auto simp: sized_def pool_stops_def)
next
  case (finish t p pool pool')
  from step_size(3) [OF finish(2)] step_frame(3) [OF finish(2)] finish(4) show ?case by (auto simp: sized_def pool_stops_def)
next
  case (join pool pool')
  from step_size(5) [OF join(3)] step_frame(4) [OF join(3)] join_sized [OF join(4,1-3)] join(1,2,5) show ?case
    by (auto simp: sized_def pool_stops_def)
next
  case (delete pool pool')
  then show ?case using step_size(6) [OF delete(3)] by (auto simp: sized_def pool_stops_def pool_delete_def bind_eq_Some_conv)
qed (auto simp: sized_def pool_stops_def pool_shutdown_def)

lemma reach_sized: "pool_reach pool \<Longrightarrow> sized pool"
proof (induction rule: pool_reach.induct)
  case (started R exit_now qm pm sps given pool)
  note init = pool_init_ok [OF started]
  have args: "args_ok (tp_args pool)" by (rule pool_args_ok [OF init(3)])
  then have num: "tl_num (tp_threads pool) = initial_thread_count (tp_args pool)" "1 \<le> initial_thread_count (tp_args pool)"
    using init(4) by (auto simp: args_ok_def)
  obtain axs ths where ths: "threads_inv (tp_threads pool) ths (tp_phases pool)" by (rule pool_ok_lists [OF init(1)])
  then have "tl_num (tp_threads pool) = int (length ths)" by (simp add: threads_inv_def list_rep_def)
  with num obtain a h where "(a, h) \<in> set ths" by (cases ths) auto
  with threads_invD(3) [OF ths, of h] have "tp_phases pool \<noteq> []" by force
  with args num show ?case by (simp add: sized_def args_ok_def)
next
  case (step pool pool')
  with step_sized pool_reach_ok show ?case by blast
qed

subsection \<open>Runs under a schedule\<close>

datatype 'a move = Start nat | Turn nat | Finish nat nat | Enqueue 'a "nat option" | Grow | Shutdown | Join | Delete

fun do_move :: "'a move \<Rightarrow> 'a lwfs_thread_pool \<Rightarrow> 'a lwfs_thread_pool option" where
  "do_move (Start t) pool = (if in_phase t Created pool then handler_start True t pool else None)"
| "do_move (Turn t) pool = (if in_phase t Looking pool then handler_turn t pool else None)"
| "do_move (Finish t p) pool = (if in_phase t (Handling p) pool then handler_done t p pool else None)"
| "do_move (Enqueue x woken) pool = (if tp_main pool = Serving \<and> signal_wakes woken pool then
     map_option (\<lambda>(rc, pool). pool\<lparr>tp_main := if rc = 0 then Added else Serving\<rparr>) (pool_enqueue True x woken pool) else None)"
| "do_move Grow pool = (if tp_main pool = Added then
     map_option (\<lambda>pool. pool\<lparr>tp_main := Serving\<rparr>) (pool_grow \<lparr>sp_thread_malloc = True, sp_params_malloc = True, sp_created = True\<rparr> pool)
     else None)"
| "do_move Shutdown pool = (if tp_main pool = Serving then Some (pool_shutdown pool\<lparr>tp_main := Stopping\<rparr>) else None)"
| "do_move Join pool = (if tp_main pool = Stopping \<and> tl_num (tp_threads pool) > 0 then pool_join pool else None)"
| "do_move Delete pool = (if tp_main pool = Stopping \<and> tl_num (tp_threads pool) = 0 then pool_delete pool else None)"

fun do_moves :: "'a move list \<Rightarrow> 'a lwfs_thread_pool \<Rightarrow> 'a lwfs_thread_pool option" where
  "do_moves [] pool = Some pool"
| "do_moves (m # ms) pool = do { pool \<leftarrow> do_move m pool; do_moves ms pool }"

lemma do_move_step: "do_move m pool = Some pool' \<Longrightarrow> pool_step pool pool'"
proof (cases m)
  case (Enqueue x woken)
  assume "do_move m pool = Some pool'"
  with Enqueue obtain rc mid where "pool_enqueue True x woken pool = Some (rc, mid)" "tp_main pool = Serving" "signal_wakes woken pool"
    "pool' = mid\<lparr>tp_main := if rc = 0 then Added else Serving\<rparr>" by (auto split: if_splits)
  then show ?thesis using pool_step.enqueue by metis
qed (auto split: if_splits intro: pool_step.intros)

lemma do_moves_reach: "do_moves ms pool = Some pool' \<Longrightarrow> pool_reach pool \<Longrightarrow> pool_reach pool'"
proof (induction ms arbitrary: pool)
  case (Cons m ms)
  then obtain mid where "do_move m pool = Some mid" "do_moves ms mid = Some pool'" by (auto simp: bind_eq_Some_conv)
  with Cons do_move_step pool_reach.step show ?case by blast
qed simp

text \<open>A pool of two threads: both wait, two requests come, and the pool is stopped while one is handled.\<close>

definition demo_options :: thread_pool_options where
  "demo_options = \<lparr>initial_thread_count = 2, min_thread_count = 1, max_thread_count = 3, low_watermark = 1, high_watermark = 1\<rparr>"

definition demo_pool :: "nat lwfs_thread_pool" where
  "demo_pool = the (lwfs_thread_pool_init no_rank_key False True True
     (\<lambda>i. \<lparr>sp_thread_malloc = True, sp_params_malloc = True, sp_created = True\<rparr>) demo_options)"

definition demo_busy :: "nat lwfs_thread_pool" where
  "demo_busy = the (do_moves [Start 0, Turn 0, Start 1, Turn 1, Enqueue 7 (Some 0), Grow, Turn 0] demo_pool)"

definition demo_stopping :: "nat lwfs_thread_pool" where
  "demo_stopping = the (do_moves [Enqueue 8 (Some 1), Grow, Shutdown] demo_busy)"

definition demo_stopped :: "nat lwfs_thread_pool" where
  "demo_stopped = the (do_moves [Turn 1, Finish 0 0, Turn 0, Finish 1 1, Turn 1, Join, Join, Delete] demo_stopping)"

lemma reach_the: "pool_reach pool \<Longrightarrow> do_moves ms pool \<noteq> None \<Longrightarrow> pool_reach (the (do_moves ms pool))"
  by (auto intro: do_moves_reach)

lemma demo_pool_reach: "pool_reach demo_pool"
proof (rule pool_reach.started)
  have "lwfs_thread_pool_init no_rank_key False True True
     (\<lambda>i. \<lparr>sp_thread_malloc = True, sp_params_malloc = True, sp_created = True\<rparr>) demo_options \<noteq> (None :: nat lwfs_thread_pool option)"
    by code_simp
  then show "lwfs_thread_pool_init no_rank_key False True True
     (\<lambda>i. \<lparr>sp_thread_malloc = True, sp_params_malloc = True, sp_created = True\<rparr>) demo_options = Some demo_pool"
    by (auto simp: demo_pool_def)
qed (simp add: no_rank_key_def)

lemma demo_busy_reach: "pool_reach demo_busy"
  unfolding demo_busy_def by (rule reach_the [OF demo_pool_reach]) code_simp

lemma demo_stopping_reach: "pool_reach demo_stopping"
  unfolding demo_stopping_def by (rule reach_the [OF demo_busy_reach]) code_simp

lemma demo_stopped_reach: "pool_reach demo_stopped"
  unfolding demo_stopped_def by (rule reach_the [OF demo_stopping_reach]) code_simp

lemma demo_pools: "tp_phases demo_busy = [Handling 0, Waiting]" "tp_main demo_stopping = Stopping"
  "tp_phases demo_stopping = [Handling 0, Looking]" "tp_main demo_stopped = Stopped" "tp_finished demo_stopped = [7, 8]"
  "\<not> tp_exit_now demo_stopped" "tp_accepted demo_stopped = [7, 8]"
  by code_simp+

subsection \<open>Properties\<close>

text \<open>C13: In every reachable pool the accepted requests are those that threads have started, in the order they
  were accepted, followed by those in the queue; and every started request has been finished by its handler or is the
  one that some thread is handling. So no request is lost, and none is handled twice.\<close>

theorem requests_start_in_order:
  assumes "pool_reach pool"
  shows "\<exists>waiting. requests_rep (tp_requests pool) waiting \<and>
    tp_accepted pool = map fst (tp_started pool) @ waiting \<and>
    mset (map fst (tp_started pool)) = mset (tp_finished pool) +
      image_mset (\<lambda>p. tn_data (the (tl_nodes (tp_requests pool) p))) (running (tp_phases pool))"
  using pool_reach_ok [OF assms] by (auto simp: pool_ok_def pool_requests_def requests_inv_def requests_rep_def)

theorem requests_start_in_order_witness:
  "\<exists>waiting. tp_accepted demo_busy = map fst (tp_started demo_busy) @ waiting \<and> tp_started demo_busy = [(7, 1)]"
proof -
  have "tp_started demo_busy = [(7, 1)]" by code_simp
  with requests_start_in_order [OF demo_busy_reach] show ?thesis by auto
qed

text \<open>C14: No wake-up is lost: unless the process was signalled to exit, whenever a thread sleeps the requests in
  the queue are no more than the threads on their way to it, so that no request waits beside an idle thread.\<close>

theorem no_wakeup_lost:
  assumes "pool_reach pool" "\<not> tp_exit_now pool" "in_phase t Waiting pool"
  shows "get_requests_number (tp_requests pool) \<le> looking (tp_phases pool)"
proof -
  have "Waiting \<in> set (tp_phases pool)" using assms(3) by (force simp: in_phase_def set_conv_nth)
  with pool_reach_ok [OF assms(1)] assms(2) show ?thesis by (simp add: pool_ok_def work_inv_def get_requests_number_def)
qed

theorem no_wakeup_lost_witness: "get_requests_number (tp_requests demo_busy) \<le> looking (tp_phases demo_busy)"
proof (rule no_wakeup_lost [OF demo_busy_reach])
  show "\<not> tp_exit_now demo_busy" "in_phase 1 Waiting demo_busy" by code_simp+
qed

text \<open>C15: Shutting down ends: once the pool stops, there is always a next step until it has stopped (no deadlock), and
  every run has at most \<open>pool_work\<close> steps, provided that all threads were created and handlers return.\<close>

theorem shutdown_completes:
  assumes "pool_reach pool" "tp_main pool = Stopping" "Absent \<notin> set (tp_phases pool)" "(pool_step ^^ n) pool pool'"
  shows "n \<le> pool_work pool \<and> (tp_main pool' = Stopped \<or>
    (tp_main pool' = Stopping \<and> (\<exists>next. pool_step pool' next \<and> tp_exit_now next = tp_exit_now pool')))"
proof -
  have "pool_stops pool" using assms(2) by (simp add: pool_stops_def)
  from stopping_run [OF assms(4) pool_reach_ok [OF assms(1)] this assms(3)]
  have "n + pool_work pool' \<le> pool_work pool" "pool_ok pool'" "pool_stops pool'" "Absent \<notin> set (tp_phases pool')" by simp_all
  with stopping_step [of pool'] show ?thesis by (auto simp: pool_stops_def)
qed

theorem shutdown_completes_witness: "0 \<le> pool_work demo_stopping \<and>
    (\<exists>next. pool_step demo_stopping next \<and> tp_exit_now next = tp_exit_now demo_stopping)"
  using shutdown_completes [OF demo_stopping_reach demo_pools(2), of 0 demo_stopping] demo_pools by simp

text \<open>C26: When the pool has stopped, every request that was started is finished and what was dropped are the last
  requests accepted; without a signal to exit nothing was dropped and every accepted request was handled.\<close>

theorem stopped_pool_served_all:
  assumes "pool_reach pool" "tp_main pool = Stopped"
  shows "tp_accepted pool = map fst (tp_started pool) @ tp_dropped pool \<and> mset (tp_finished pool) = mset (map fst (tp_started pool)) \<and>
    (tp_exit_now pool \<or> tp_dropped pool = [] \<and> mset (tp_finished pool) = mset (tp_accepted pool))"
proof -
  note ok = pool_reach_ok [OF assms(1)]
  obtain axs where axs: "requests_inv (tp_requests pool) axs (tp_phases pool) (tp_accepted pool) (tp_started pool) (tp_finished pool)"
    "tp_dropped pool = map snd axs" using ok assms(2) by (auto simp: pool_ok_def pool_requests_def)
  obtain axs' ths where ths: "threads_inv (tp_threads pool) ths (tp_phases pool)" by (rule pool_ok_lists [OF ok])
  have "tl_num (tp_threads pool) = 0" using ok assms(2) by (simp add: pool_ok_def pool_threads_def)
  then have "ths = []" using ths by (simp add: threads_inv_def list_rep_def)
  with threads_invD(4) [OF ths] have exited: "ph = Exited" if "ph \<in> set (tp_phases pool)" for ph using that by (auto simp: set_conv_nth)
  have "p \<notin># running (tp_phases pool)" for p using exited [of "Handling p"] by (auto simp: in_running)
  then have run: "running (tp_phases pool) = {#}" by (metis multiset_nonemptyE)
  from reach_sized [OF assms(1)] have "tp_phases pool \<noteq> []" by (simp add: sized_def)
  with exited have "Exited \<in> set (tp_phases pool)" by (cases "tp_phases pool") auto
  with ok have "tp_exit_now pool \<or> tl_num (tp_requests pool) = 0" by (auto simp: pool_ok_def stop_inv_def)
  with axs run show ?thesis by (auto simp: requests_inv_def list_rep_def)
qed

theorem stopped_pool_served_all_witness: "mset (tp_finished demo_stopped) = mset (tp_accepted demo_stopped) \<and>
    tp_accepted demo_stopped = [7, 8]"
  using stopped_pool_served_all [OF demo_stopped_reach demo_pools(4)] demo_pools(6,7) by simp

text \<open>C27: Whatever the configuration says, a pool starts with at least one thread, its corrected arguments are ordered
  (\<open>1 \<le> min \<le> initial \<le> max\<close>, \<open>1 \<le> low \<le> high\<close>), and it never has more threads than the maximum.\<close>

theorem pool_size_bounds:
  assumes "pool_reach pool"
  shows "args_ok (tp_args pool) \<and> get_handler_threads_number pool \<le> max_thread_count (tp_args pool) \<and>
    (tp_main pool = Stopping \<or> tp_main pool = Stopped \<or> 1 \<le> get_handler_threads_number pool)"
  using reach_sized [OF assms] by (auto simp: sized_def pool_stops_def get_handler_threads_number_def)

theorem pool_size_bounds_witness: "args_ok (tp_args demo_busy) \<and> get_handler_threads_number demo_busy \<le> 3"
proof -
  have "max_thread_count (tp_args demo_busy) = 3" by code_simp
  with pool_size_bounds [OF demo_busy_reach] show ?thesis by simp
qed

text \<open>No step of a reachable pool is undefined: every thread that is to look at the queue, to free its request or to
  start finds what it needs, and so does the thread that adds a request or joins an exited thread.\<close>

theorem pool_steps_defined:
  assumes "pool_reach pool"
  shows "(\<forall>t. in_phase t Looking pool \<longrightarrow> handler_turn t pool \<noteq> None) \<and>
    (\<forall>t p. in_phase t (Handling p) pool \<longrightarrow> handler_done t p pool \<noteq> None) \<and>
    (\<forall>t. in_phase t Created pool \<longrightarrow> handler_start True t pool \<noteq> None) \<and>
    (\<forall>x woken. tp_main pool = Serving \<and> signal_wakes woken pool \<longrightarrow> pool_enqueue True x woken pool \<noteq> None) \<and>
    (tp_main pool = Stopping \<and> tl_num (tp_threads pool) = 0 \<longrightarrow> pool_delete pool \<noteq> None)"
proof -
  note ok = pool_reach_ok [OF assms]
  show ?thesis
    using turn_ok [OF ok] done_ok [OF ok] start_ok(1) [OF ok] enqueue_ok [OF ok] delete_ok [OF ok] by fastforce
qed

theorem pool_steps_defined_witness: "handler_done 0 0 demo_busy \<noteq> None"
  using pool_steps_defined [OF demo_busy_reach] by (simp add: in_phase_def demo_pools)

text \<open>After a pool has stopped, the key of the ranks is deleted for good, for \<^verbatim>\<open>init_rank_key\<close> and
  \<^verbatim>\<open>delete_rank_key\<close> have a flag each: no thread of a second pool can start.\<close>

theorem second_pool_uses_deleted_key:
  assumes "rk_init R" "\<not> rk_fini R"
    "lwfs_thread_pool_init (delete_rank_key R) exit_now qm pm sps given = Some pool"
  shows "handler_start m t pool = None"
proof -
  obtain args where "add_threads sps 0 (nat (initial_thread_count args)) (empty_pool (delete_rank_key R) exit_now args) = Some pool"
    using assms(3) by (auto simp: lwfs_thread_pool_init_def bind_eq_Some_conv split: if_splits)
  moreover have "tp_ranks pool2 = tp_ranks pool1" if "add_threads sps i n pool1 = Some pool2" for i n and pool1 pool2 :: "'a lwfs_thread_pool"
    using that by (induction n arbitrary: i pool1)
      (auto simp: bind_eq_Some_conv add_handler_thread_def Let_def split: if_splits prod.splits)
  ultimately have "tp_ranks pool = init_rank_key (delete_rank_key R)" by (fastforce simp: empty_pool_def)
  with assms(1,2) show ?thesis
    by (simp add: handler_start_def lwfs_thread_pool_setrank_def init_rank_key_def delete_rank_key_def Let_def)
qed

definition demo_second :: "nat lwfs_thread_pool" where
  "demo_second = the (lwfs_thread_pool_init (delete_rank_key (tp_ranks demo_busy)) False True True
     (\<lambda>i. \<lparr>sp_thread_malloc = True, sp_params_malloc = True, sp_created = True\<rparr>) demo_options)"

lemma demo_second_init: "lwfs_thread_pool_init (delete_rank_key (tp_ranks demo_busy)) False True True
     (\<lambda>i. \<lparr>sp_thread_malloc = True, sp_params_malloc = True, sp_created = True\<rparr>) demo_options = Some demo_second"
proof -
  have "lwfs_thread_pool_init (delete_rank_key (tp_ranks demo_busy)) False True True
     (\<lambda>i. \<lparr>sp_thread_malloc = True, sp_params_malloc = True, sp_created = True\<rparr>) demo_options \<noteq> (None :: nat lwfs_thread_pool option)"
    by code_simp
  then show ?thesis by (auto simp: demo_second_def)
qed

theorem second_pool_uses_deleted_key_witness: "handler_start True 0 demo_second = None \<and> in_phase 0 Created demo_second"
proof
  have "rk_init (tp_ranks demo_busy)" "\<not> rk_fini (tp_ranks demo_busy)" by code_simp+
  from second_pool_uses_deleted_key [OF this demo_second_init] show "handler_start True 0 demo_second = None" .
  show "in_phase 0 Created demo_second" by code_simp
qed

subsection \<open>The I/O queue\<close>

text \<open>\<^verbatim>\<open>queue_append\<close> and \<^verbatim>\<open>queue_pop\<close> when the calls they make do not fail and nothing is waited for.\<close>

definition append_item :: "'a queue \<Rightarrow> 'a \<Rightarrow> 'a queue option" where
  "append_item q x = (case queue_append no_wait True q x of Some (LWFS_OK, q) \<Rightarrow> Some q | _ \<Rightarrow> None)"

definition pop_item :: "'a queue \<Rightarrow> ('a \<times> 'a queue) option" where
  "pop_item q = (case queue_pop no_wait q of Some (Returned (Some x, q)) \<Rightarrow> Some (x, q) | _ \<Rightarrow> None)"

interpretation io_calls: fifo queue_rep append_item pop_item
proof
  show "\<exists>q'. append_item q x = Some q' \<and> queue_rep q' (xs @ [x])" if "queue_rep q xs" for q :: "'a queue" and xs x
    using queue_link_rep [OF that, of x] by (auto simp: append_item_def queue_append_def no_wait_def)
  show "\<exists>q'. pop_item q = Some (x, q') \<and> queue_rep q' xs" if "queue_rep q (x # xs)" for q :: "'a queue" and xs x
    using queue_pop_rep [OF that, of no_wait] by (auto simp: pop_item_def no_wait_def)
  show "pop_item q = None" if "queue_rep q []" for q :: "'a queue"
    using queue_empty_rep [OF that] by (simp add: pop_item_def queue_pop_def no_wait_def)
qed

text \<open>The I/O queue is first in, first out: whatever is appended and popped, what is popped followed by what
  \<^verbatim>\<open>queue_destroy\<close> frees is what was appended, in order.\<close>

theorem io_queue_in_order:
  assumes "uses append_item pop_item queue_init us = Some (out, q)"
  shows "\<exists>rest. items_put us = out @ rest \<and> queue_destroy (\<lambda>n. no_wait) 0 0 q = Some (LWFS_OK, rest)"
proof -
  obtain rest where "queue_rep q rest" "[] @ items_put us = out @ rest"
    using io_calls.in_order [OF queue_init_rep assms] by blast
  with queue_free_rep [of "\<lambda>n. no_wait" q rest 0] show ?thesis by (auto simp: queue_destroy_def no_wait_def)
qed

theorem io_queue_in_order_witness:
  "\<exists>q. uses append_item pop_item queue_init [Put 1, Put 2, Get, Put (3::nat), Get] = Some ([1, 2], q) \<and>
     queue_destroy (\<lambda>n. no_wait) 0 0 q = Some (LWFS_OK, [3])"
proof -
  let ?us = "[Put 1, Put 2, Get, Put (3::nat), Get]"
  have "map_option fst (uses append_item pop_item queue_init ?us) = Some [1, 2]" by code_simp
  then obtain q where q: "uses append_item pop_item queue_init ?us = Some ([1, 2], q)" by auto
  from io_queue_in_order [OF this] q show ?thesis by auto
qed

text \<open>When the node cannot be allocated the item is lost, though the call reports success.\<close>

lemma failed_append_reports_ok:
  "queue_append no_wait False q x = Some (LWFS_OK, q)" "buffer_stack_push no_wait False s y = (LWFS_OK, s)"
  by (simp_all add: queue_append_def buffer_stack_push_def no_wait_def)

end
