(* ===== verification/Xdr.thy ===== *)
theory Xdr imports Lwfs_Prelude "HOL-Library.Monad_Syntax" begin

section \<open>The external data representation\<close>

text \<open>
  The XDR procedures of the C library, with which \<^verbatim>\<open>common/types/xdr_types.c\<close> and the other
  files of rpcgen encode and decode. A C procedure does both, depending on the stream; here it is a
  pair. \<open>None\<close> is a procedure that returns FALSE: a value without an encoding, or a stream that ends too
  early. \<open>xdr_proc\<close> is what the code relies on: an encoded value is decoded, whatever follows it.
\<close>

record 'a xdr =
  xdr_encode :: "'a \<Rightarrow> u8 list option"
  xdr_decode :: "u8 list \<Rightarrow> ('a \<times> u8 list) option"

locale xdr_proc =
  fixes X :: "'a xdr"
  assumes decode_encode: "xdr_encode X v = Some bs \<Longrightarrow> xdr_decode X (bs @ rest) = Some (v, rest)"
begin

lemma decode_all: "xdr_encode X v = Some bs \<Longrightarrow> xdr_decode X bs = Some (v, [])"
  using decode_encode [of v bs "[]"] by simp

text \<open>No encoding is a prefix of another, so that a stream of values has one reading.\<close>

lemma encode_inject: "xdr_encode X v = Some bs \<Longrightarrow> xdr_encode X w = Some cs \<Longrightarrow> bs @ r = cs @ s \<Longrightarrow> v = w \<and> r = s"
  using decode_encode [of v bs r] decode_encode [of w cs s] by simp

end

text \<open>\<^verbatim>\<open>xdr_sizeof\<close>, which is 0 for a value without an encoding.\<close>

definition xdr_sizeof :: "'a xdr \<Rightarrow> 'a \<Rightarrow> nat" where
  "xdr_sizeof X v = (case xdr_encode X v of None \<Rightarrow> 0 | Some bs \<Rightarrow> length bs)"

text \<open>A memory stream for encoding: what is written so far, in a buffer of a given size.\<close>

definition xdrmem_put :: "nat \<Rightarrow> 'a xdr \<Rightarrow> 'a \<Rightarrow> u8 list \<Rightarrow> u8 list option" where
  "xdrmem_put cap X v written = do {
     bs \<leftarrow> xdr_encode X v;
     if length written + length bs \<le> cap then Some (written @ bs) else None }"

subsection \<open>Words and fixed blocks\<close>

definition be_bytes :: "nat \<Rightarrow> 'a::len word \<Rightarrow> u8 list" where
  "be_bytes n w = rev (le_bytes n w)"

definition be_word :: "u8 list \<Rightarrow> 'a::len word" where
  "be_word bs = le_word (rev bs)"

lemma length_be_bytes [simp]: "length (be_bytes n w) = n"
  by (simp add: be_bytes_def)

lemma be_word_bytes: "8 * n = LENGTH('a) \<Longrightarrow> be_word (be_bytes n (w :: 'a::len word)) = w"
  by (simp add: be_word_def be_bytes_def le_word_le_bytes)

text \<open>A block of \<open>n\<close> bytes with its two readings.\<close>

definition xdr_block :: "nat \<Rightarrow> ('a \<Rightarrow> u8 list) \<Rightarrow> (u8 list \<Rightarrow> 'a) \<Rightarrow> 'a xdr" where
  "xdr_block n to from = \<lparr>xdr_encode = (\<lambda>v. Some (to v)),
     xdr_decode = (\<lambda>bs. if length bs < n then None else Some (from (take n bs), drop n bs))\<rparr>"

lemma xdr_block_proc: "(\<And>v. length (to v) = n \<and> from (to v) = v) \<Longrightarrow> xdr_proc (xdr_block n to from)"
  by unfold_locales (auto simp: xdr_block_def)

definition xdr_uint32_t :: "u32 xdr" where
  "xdr_uint32_t = xdr_block 4 (be_bytes 4) be_word"

definition xdr_uint64_t :: "u64 xdr" where
  "xdr_uint64_t = xdr_block 8 (be_bytes 8) be_word"

text \<open>Fixed opaque data of a multiple of four bytes, the bytes in the order of memory.\<close>

definition xdr_opaque :: "nat \<Rightarrow> 'a::len word xdr" where
  "xdr_opaque n = xdr_block n (le_bytes n) le_word"

text \<open>\<^verbatim>\<open>xdr_u_long\<close> writes four bytes and fails for a value that needs more.\<close>

definition xdr_u_long :: "u64 xdr" where
  "xdr_u_long = \<lparr>xdr_encode = (\<lambda>v. if unat v < 2 ^ 32 then Some (be_bytes 4 (ucast v :: u32)) else None),
     xdr_decode = (\<lambda>bs. map_option (map_prod ucast id) (xdr_decode xdr_uint32_t bs))\<rparr>"

text \<open>A flag (\<^verbatim>\<open>lwfs_bool\<close>, encoded as an int) is true when it is not 0.\<close>

definition xdr_flag :: "bool xdr" where
  "xdr_flag = xdr_block 4 (\<lambda>b. be_bytes 4 (of_bool b :: u32)) (\<lambda>bs. (be_word bs :: u32) \<noteq> 0)"

definition xdr_void :: "unit xdr" where
  "xdr_void = xdr_block 0 (\<lambda>_. []) (\<lambda>_. ())"

lemma xdr_uint32_proc: "xdr_proc xdr_uint32_t"
  unfolding xdr_uint32_t_def by (rule xdr_block_proc) (simp add: be_word_bytes)

lemma xdr_uint64_proc: "xdr_proc xdr_uint64_t"
  unfolding xdr_uint64_t_def by (rule xdr_block_proc) (simp add: be_word_bytes)

lemma xdr_opaque_proc: "8 * n = LENGTH('a) \<Longrightarrow> xdr_proc (xdr_opaque n :: 'a::len word xdr)"
  unfolding xdr_opaque_def by (rule xdr_block_proc) (simp add: le_word_le_bytes)

lemma xdr_flag_proc: "xdr_proc xdr_flag"
  unfolding xdr_flag_def by (rule xdr_block_proc) (simp add: be_word_bytes)

lemma xdr_void_proc: "xdr_proc xdr_void"
  unfolding xdr_void_def by (rule xdr_block_proc) simp

lemma xdr_u_long_proc: "xdr_proc xdr_u_long"
proof
  fix v :: u64 and bs rest
  assume "xdr_encode xdr_u_long v = Some bs"
  then have v: "unat v < 2 ^ 32" "bs = be_bytes 4 (ucast v :: u32)" by (auto simp: xdr_u_long_def split: if_splits)
  have "xdr_decode xdr_uint32_t (bs @ rest) = Some (ucast v, rest)"
    by (rule xdr_proc.decode_encode [OF xdr_uint32_proc]) (simp add: xdr_uint32_t_def xdr_block_def v(2))
  moreover have "ucast (ucast v :: u32) = v"
  proof (rule word_unat_eq_iff [THEN iffD2])
    show "unat (ucast (ucast v :: u32) :: u64) = unat v" 
      using v(1) by (simp add: unsigned_ucast_eq take_bit_word_eq_self unsigned_take_bit_eq take_bit_nat_eq_self)
  qed
  ultimately show "xdr_decode xdr_u_long (bs @ rest) = Some (v, rest)" by (simp add: xdr_u_long_def)
qed

subsection \<open>Structures\<close>

text \<open>The fields of a structure one after the other, and a structure as the tuple of its fields.\<close>

definition xdr_pair :: "'a xdr \<Rightarrow> 'b xdr \<Rightarrow> ('a \<times> 'b) xdr" where
  "xdr_pair A B = \<lparr>
     xdr_encode = (\<lambda>(a, b). do { as \<leftarrow> xdr_encode A a; bs \<leftarrow> xdr_encode B b; Some (as @ bs) }),
     xdr_decode = (\<lambda>bs. do { (a, bs) \<leftarrow> xdr_decode A bs; (b, bs) \<leftarrow> xdr_decode B bs; Some ((a, b), bs) })\<rparr>"

definition xdr_struct :: "('b \<Rightarrow> 'a) \<Rightarrow> ('a \<Rightarrow> 'b) \<Rightarrow> 'a xdr \<Rightarrow> 'b xdr" where
  "xdr_struct to from A = \<lparr>xdr_encode = (\<lambda>v. xdr_encode A (to v)),
     xdr_decode = (\<lambda>bs. map_option (map_prod from id) (xdr_decode A bs))\<rparr>"

lemma xdr_pair_proc: "xdr_proc A \<Longrightarrow> xdr_proc B \<Longrightarrow> xdr_proc (xdr_pair A B)"
proof
  fix v bs rest
  assume AB: "xdr_proc A" "xdr_proc B" and enc: "xdr_encode (xdr_pair A B) v = Some bs"
  obtain a b where v: "v = (a, b)" by (cases v)
  from enc obtain as cs where e: "xdr_encode A a = Some as" "xdr_encode B b = Some cs" "bs = as @ cs"
    by (auto simp: xdr_pair_def v bind_eq_Some_conv)
  from xdr_proc.decode_encode [OF AB(1) e(1), of "cs @ rest"] xdr_proc.decode_encode [OF AB(2) e(2), of rest]
  show "xdr_decode (xdr_pair A B) (bs @ rest) = Some (v, rest)" by (simp add: xdr_pair_def e(3) v)
qed

lemma xdr_struct_proc: "xdr_proc A \<Longrightarrow> (\<And>v. from (to v) = v) \<Longrightarrow> xdr_proc (xdr_struct to from A)"
proof
  fix v bs rest
  assume A: "xdr_proc A" and inv: "\<And>v. from (to v) = v" and enc: "xdr_encode (xdr_struct to from A) v = Some bs"
  from enc have "xdr_encode A (to v) = Some bs" by (simp add: xdr_struct_def)
  from xdr_proc.decode_encode [OF A this] inv show "xdr_decode (xdr_struct to from A) (bs @ rest) = Some (v, rest)"
    by (simp add: xdr_struct_def)
qed

text \<open>\<^verbatim>\<open>xdr_pointer\<close>: a flag, then the data when the pointer is not null.\<close>

definition xdr_pointer :: "'a xdr \<Rightarrow> 'a option xdr" where
  "xdr_pointer A = \<lparr>
     xdr_encode = (\<lambda>p. do {
       fs \<leftarrow> xdr_encode xdr_flag (p \<noteq> None);
       bs \<leftarrow> (case p of None \<Rightarrow> Some [] | Some v \<Rightarrow> xdr_encode A v);
       Some (fs @ bs) }),
     xdr_decode = (\<lambda>bs. do {
       (more, bs) \<leftarrow> xdr_decode xdr_flag bs;
       if more then map_option (map_prod Some id) (xdr_decode A bs) else Some (None, bs) })\<rparr>"

lemma xdr_pointer_proc: "xdr_proc A \<Longrightarrow> xdr_proc (xdr_pointer A)"
proof
  fix v bs rest
  assume A: "xdr_proc A" and enc: "xdr_encode (xdr_pointer A) v = Some bs"
  then obtain fs cs where e: "xdr_encode xdr_flag (v \<noteq> None) = Some fs" "bs = fs @ cs"
    "(case v of None \<Rightarrow> Some [] | Some x \<Rightarrow> xdr_encode A x) = Some cs" by (auto simp: xdr_pointer_def bind_eq_Some_conv)
  have flag: "xdr_decode xdr_flag (bs @ rest) = Some (v \<noteq> None, cs @ rest)"
    using xdr_proc.decode_encode [OF xdr_flag_proc e(1), of "cs @ rest"] by (simp add: e(2))
  show "xdr_decode (xdr_pointer A) (bs @ rest) = Some (v, rest)"
  proof (cases v)
    case None
    with flag e(3) show ?thesis by (simp add: xdr_pointer_def)
  next
    case (Some x)
    with e(3) have "xdr_encode A x = Some cs" by simp
    from xdr_proc.decode_encode [OF A this, of rest] flag Some show ?thesis by (simp add: xdr_pointer_def)
  qed
qed

text \<open>\<^verbatim>\<open>xdr_array\<close>: the number of elements, then the elements.\<close>

fun encode_elems :: "'a xdr \<Rightarrow> 'a list \<Rightarrow> u8 list option" where
  "encode_elems A [] = Some []"
| "encode_elems A (v # vs) = do { bs \<leftarrow> xdr_encode A v; cs \<leftarrow> encode_elems A vs; Some (bs @ cs) }"

fun decode_elems :: "'a xdr \<Rightarrow> nat \<Rightarrow> u8 list \<Rightarrow> ('a list \<times> u8 list) option" where
  "decode_elems A 0 bs = Some ([], bs)"
| "decode_elems A (Suc n) bs = do {
     (v, bs) \<leftarrow> xdr_decode A bs;
     (vs, bs) \<leftarrow> decode_elems A n bs;
     Some (v # vs, bs) }"

definition xdr_array :: "'a xdr \<Rightarrow> 'a list xdr" where
  "xdr_array A = \<lparr>
     xdr_encode = (\<lambda>vs. if length vs < 2 ^ 32 then do {
       ns \<leftarrow> xdr_encode xdr_uint32_t (of_nat (length vs));
       bs \<leftarrow> encode_elems A vs;
       Some (ns @ bs) } else None),
     xdr_decode = (\<lambda>bs. do { (n, bs) \<leftarrow> xdr_decode xdr_uint32_t bs; decode_elems A (unat n) bs })\<rparr>"

lemma decode_encode_elems: "xdr_proc A \<Longrightarrow> encode_elems A vs = Some bs \<Longrightarrow> decode_elems A (length vs) (bs @ rest) = Some (vs, rest)"
proof (induction vs arbitrary: bs)
  case (Cons v vs)
  then obtain as cs where e: "xdr_encode A v = Some as" "encode_elems A vs = Some cs" "bs = as @ cs"
    by (auto simp: bind_eq_Some_conv)
  from xdr_proc.decode_encode [OF Cons.prems(1) e(1), of "cs @ rest"] Cons.IH [OF Cons.prems(1) e(2)]
  show ?case by (simp add: e(3))
qed simp

lemma xdr_array_proc: "xdr_proc A \<Longrightarrow> xdr_proc (xdr_array A)"
proof
  fix vs bs rest
  assume A: "xdr_proc A" and enc: "xdr_encode (xdr_array A) vs = Some bs"
  then obtain ns cs where e: "length vs < 2 ^ 32" "xdr_encode xdr_uint32_t (of_nat (length vs)) = Some ns" "encode_elems A vs = Some cs"
    "bs = ns @ cs" by (auto simp: xdr_array_def bind_eq_Some_conv split: if_splits)
  from xdr_proc.decode_encode [OF xdr_uint32_proc e(2), of "cs @ rest"] decode_encode_elems [OF A e(3)] e(1)
  show "xdr_decode (xdr_array A) (bs @ rest) = Some (vs, rest)"
    by (simp add: xdr_array_def e(4) unat_of_nat take_bit_nat_eq_self)
qed

text \<open>\<^verbatim>\<open>xdr_string\<close> and \<^verbatim>\<open>xdr_bytes\<close>: the length, which is limited, the bytes, and zeros up to a
  multiple of four.\<close>

definition xdr_pad :: "nat \<Rightarrow> nat" where
  "xdr_pad n = (4 - n mod 4) mod 4"

definition xdr_bytes :: "nat \<Rightarrow> u8 list xdr" where
  "xdr_bytes maxsize = \<lparr>
     xdr_encode = (\<lambda>bs. if length bs \<le> maxsize \<and> length bs < 2 ^ 32
       then map_option (\<lambda>ns. ns @ bs @ replicate (xdr_pad (length bs)) 0) (xdr_encode xdr_uint32_t (of_nat (length bs))) else None),
     xdr_decode = (\<lambda>bs. do {
       (n, bs) \<leftarrow> xdr_decode xdr_uint32_t bs;
       let n = unat n in
       if n \<le> maxsize \<and> n + xdr_pad n \<le> length bs then Some (take n bs, drop (n + xdr_pad n) bs) else None })\<rparr>"

lemma xdr_bytes_proc: "xdr_proc (xdr_bytes maxsize)"
proof
  fix v bs rest
  assume "xdr_encode (xdr_bytes maxsize) v = Some bs"
  then obtain ns where e: "length v \<le> maxsize" "length v < 2 ^ 32" "xdr_encode xdr_uint32_t (of_nat (length v)) = Some ns"
    "bs = ns @ v @ replicate (xdr_pad (length v)) 0" by (auto simp: xdr_bytes_def split: if_splits)
  from xdr_proc.decode_encode [OF xdr_uint32_proc e(3), of "v @ replicate (xdr_pad (length v)) 0 @ rest"] e(1,2)
  show "xdr_decode (xdr_bytes maxsize) (bs @ rest) = Some (v, rest)"
    by (simp add: xdr_bytes_def e(4) unat_of_nat take_bit_nat_eq_self)
qed

lemmas xdr_procs = xdr_uint32_proc xdr_uint64_proc xdr_opaque_proc xdr_flag_proc xdr_void_proc xdr_u_long_proc
  xdr_pair_proc xdr_struct_proc xdr_pointer_proc xdr_array_proc xdr_bytes_proc

interpretation xdr_words: xdr_proc xdr_uint32_t by (rule xdr_uint32_proc)

end
