(* ===== verification/Xdr_Types.thy ===== *)
theory Xdr_Types imports Xdr Lwfs_Types begin

section \<open>Encodings of the shared types\<close>

text \<open>
  \<^verbatim>\<open>common/types/xdr_types.c\<close> and \<^verbatim>\<open>common/authr_common/authr_args.c\<close>: each procedure
  encodes the fields of its structure in order. A null pointer is \<open>None\<close>. The type of an object is a number on the
  wire; a number that is no \<open>lwfs_entry_type\<close>, which C would keep, is not decoded.
\<close>

definition xdr_lwfs_remote_pid :: "lwfs_remote_pid xdr" where
  "xdr_lwfs_remote_pid = xdr_struct (\<lambda>p. (nid p, pid p)) (\<lambda>(n, p). \<lparr>nid = n, pid = p\<rparr>) (xdr_pair xdr_uint32_t xdr_uint32_t)"

definition xdr_lwfs_rma :: "lwfs_rma xdr" where
  "xdr_lwfs_rma = xdr_struct
     (\<lambda>a. (match_id a, buffer_id a, rma_offset a, match_bits a, rma_len a, local_buf a))
     (\<lambda>(i, b, ofs, m, l, p). \<lparr>match_id = i, buffer_id = b, rma_offset = ofs, match_bits = m, rma_len = l, local_buf = p\<rparr>)
     (xdr_pair xdr_lwfs_remote_pid (xdr_pair xdr_uint32_t (xdr_pair xdr_uint64_t (xdr_pair xdr_uint64_t
       (xdr_pair xdr_uint64_t xdr_uint64_t)))))"

definition xdr_lwfs_rpc_encode :: "lwfs_rpc_encode xdr" where
  "xdr_lwfs_rpc_encode = xdr_struct (\<lambda>_. 0) (\<lambda>_. LWFS_RPC_XDR) xdr_uint32_t"

definition xdr_lwfs_service :: "lwfs_service xdr" where
  "xdr_lwfs_service = xdr_struct
     (\<lambda>s. (rpc_encode s, req_addr s, max_reqs s, req_thread s, svc_thread_pool s))
     (\<lambda>(e, a, m, t, p). \<lparr>rpc_encode = e, req_addr = a, max_reqs = m, req_thread = t, svc_thread_pool = p\<rparr>)
     (xdr_pair xdr_lwfs_rpc_encode (xdr_pair xdr_lwfs_rma (xdr_pair xdr_uint32_t (xdr_pair xdr_uint64_t xdr_uint64_t))))"

definition xdr_lwfs_request_header :: "lwfs_request_header xdr" where
  "xdr_lwfs_request_header = xdr_struct
     (\<lambda>h. (rq_id h, rq_opcode h, rq_fetch_args h, rq_args_addr h, rq_data_addr h, rq_res_addr h))
     (\<lambda>(i, opc, f, a, d, r). \<lparr>rq_id = i, rq_opcode = opc, rq_fetch_args = f, rq_args_addr = a, rq_data_addr = d, rq_res_addr = r\<rparr>)
     (xdr_pair xdr_u_long (xdr_pair xdr_uint32_t (xdr_pair xdr_flag (xdr_pair xdr_lwfs_rma (xdr_pair xdr_lwfs_rma xdr_lwfs_rma)))))"

definition xdr_lwfs_result_header :: "lwfs_result_header xdr" where
  "xdr_lwfs_result_header = xdr_struct
     (\<lambda>h. (rs_id h, rs_fetch_result h, rs_result_addr h, rs_rc h))
     (\<lambda>(i, f, a, c). \<lparr>rs_id = i, rs_fetch_result = f, rs_result_addr = a, rs_rc = c\<rparr>)
     (xdr_pair xdr_u_long (xdr_pair xdr_flag (xdr_pair xdr_lwfs_rma xdr_uint32_t)))"

definition xdr_lwfs_uuid :: "lwfs_uuid xdr" where "xdr_lwfs_uuid = xdr_opaque 16"

definition xdr_lwfs_mac :: "lwfs_mac xdr" where "xdr_lwfs_mac = xdr_opaque 20"

definition xdr_lwfs_entry_type :: "lwfs_entry_type xdr" where
  "xdr_lwfs_entry_type = \<lparr>xdr_encode = (\<lambda>t. xdr_encode xdr_uint32_t (entry_type_code t)),
     xdr_decode = (\<lambda>bs. do {
       (n, bs) \<leftarrow> xdr_decode xdr_uint32_t bs;
       if unat n < length entry_types then Some (entry_types ! unat n, bs) else None })\<rparr>"

definition xdr_lwfs_obj :: "lwfs_obj xdr" where
  "xdr_lwfs_obj = xdr_struct
     (\<lambda>b. (obj_svc b, obj_type b, obj_cid b, obj_oid b, obj_lock b))
     (\<lambda>(s, t, c, i, l). \<lparr>obj_svc = s, obj_type = t, obj_cid = c, obj_oid = i, obj_lock = l\<rparr>)
     (xdr_pair xdr_lwfs_service (xdr_pair xdr_lwfs_entry_type (xdr_pair xdr_uint64_t (xdr_pair xdr_lwfs_uuid xdr_uint32_t))))"

definition xdr_lwfs_cred :: "lwfs_cred xdr" where
  "xdr_lwfs_cred = xdr_struct (\<lambda>c. (uid (cred_data c), cred_mac c)) (\<lambda>(u, m). \<lparr>cred_data = \<lparr>uid = u\<rparr>, cred_mac = m\<rparr>)
     (xdr_pair xdr_lwfs_uuid xdr_lwfs_mac)"

definition xdr_lwfs_cap_data :: "lwfs_cap_data xdr" where
  "xdr_lwfs_cap_data = xdr_struct (\<lambda>d. (cid d, container_op d, cred d)) (\<lambda>(c, opn, r). \<lparr>cid = c, container_op = opn, cred = r\<rparr>)
     (xdr_pair xdr_uint64_t (xdr_pair xdr_uint32_t xdr_lwfs_cred))"

definition xdr_lwfs_cap :: "lwfs_cap xdr" where
  "xdr_lwfs_cap = xdr_struct (\<lambda>c. (cap_data c, cap_mac c)) (\<lambda>(d, m). \<lparr>cap_data = d, cap_mac = m\<rparr>)
     (xdr_pair xdr_lwfs_cap_data xdr_lwfs_mac)"

definition xdr_lwfs_uid_array :: "lwfs_uid list xdr" where "xdr_lwfs_uid_array = xdr_array xdr_lwfs_uuid"

definition xdr_lwfs_cap_array :: "lwfs_cap list xdr" where "xdr_lwfs_cap_array = xdr_array xdr_lwfs_cap"

subsection \<open>The laws\<close>

lemma xdr_lwfs_remote_pid_proc: "xdr_proc xdr_lwfs_remote_pid"
  unfolding xdr_lwfs_remote_pid_def by (intro xdr_procs) simp

lemma xdr_lwfs_rma_proc: "xdr_proc xdr_lwfs_rma"
  unfolding xdr_lwfs_rma_def by (intro xdr_procs xdr_lwfs_remote_pid_proc) simp

lemma rpc_encode_only: "LWFS_RPC_XDR = v"
  by (cases v) simp

lemma xdr_lwfs_service_proc: "xdr_proc xdr_lwfs_service"
  unfolding xdr_lwfs_service_def xdr_lwfs_rpc_encode_def
  by (intro xdr_procs xdr_lwfs_rma_proc) (simp_all add: rpc_encode_only)

lemma xdr_lwfs_request_header_proc: "xdr_proc xdr_lwfs_request_header"
  unfolding xdr_lwfs_request_header_def by (intro xdr_procs xdr_lwfs_rma_proc) simp

lemma xdr_lwfs_result_header_proc: "xdr_proc xdr_lwfs_result_header"
  unfolding xdr_lwfs_result_header_def by (intro xdr_procs xdr_lwfs_rma_proc) simp

lemma xdr_lwfs_uuid_proc: "xdr_proc xdr_lwfs_uuid"
  unfolding xdr_lwfs_uuid_def by (rule xdr_opaque_proc) simp

lemma xdr_lwfs_mac_proc: "xdr_proc xdr_lwfs_mac"
  unfolding xdr_lwfs_mac_def by (rule xdr_opaque_proc) simp

lemma xdr_lwfs_entry_type_proc: "xdr_proc xdr_lwfs_entry_type"
proof
  fix t bs rest
  assume "xdr_encode xdr_lwfs_entry_type t = Some bs"
  then have "xdr_decode xdr_uint32_t (bs @ rest) = Some (entry_type_code t, rest)"
    by (intro xdr_proc.decode_encode [OF xdr_uint32_proc]) (simp add: xdr_lwfs_entry_type_def)
  moreover have "unat (entry_type_code t) = position t entry_types"
    using entry_type_position [of t] by (simp add: entry_type_code_def unat_of_nat take_bit_nat_eq_self)
  moreover have "length entry_types = 7" by (simp add: entry_types_def)
  ultimately show "xdr_decode xdr_lwfs_entry_type (bs @ rest) = Some (t, rest)"
    using entry_type_position [of t] by (simp add: xdr_lwfs_entry_type_def)
qed

lemma xdr_lwfs_obj_proc: "xdr_proc xdr_lwfs_obj"
  unfolding xdr_lwfs_obj_def by (intro xdr_procs xdr_lwfs_service_proc xdr_lwfs_entry_type_proc xdr_lwfs_uuid_proc) simp

lemma xdr_lwfs_cred_proc: "xdr_proc xdr_lwfs_cred"
  unfolding xdr_lwfs_cred_def by (intro xdr_procs xdr_lwfs_uuid_proc xdr_lwfs_mac_proc) simp

lemma xdr_lwfs_cap_proc: "xdr_proc xdr_lwfs_cap"
  unfolding xdr_lwfs_cap_def xdr_lwfs_cap_data_def by (intro xdr_procs xdr_lwfs_cred_proc xdr_lwfs_mac_proc) simp_all

lemma xdr_lwfs_uid_array_proc: "xdr_proc xdr_lwfs_uid_array"
  unfolding xdr_lwfs_uid_array_def by (intro xdr_procs xdr_lwfs_uuid_proc)

lemma xdr_lwfs_cap_array_proc: "xdr_proc xdr_lwfs_cap_array"
  unfolding xdr_lwfs_cap_array_def by (intro xdr_procs xdr_lwfs_cap_proc)

interpretation request_header: xdr_proc xdr_lwfs_request_header by (rule xdr_lwfs_request_header_proc)
interpretation result_header: xdr_proc xdr_lwfs_result_header by (rule xdr_lwfs_result_header_proc)
interpretation caps: xdr_proc xdr_lwfs_cap_array by (rule xdr_lwfs_cap_array_proc)

subsection \<open>Sizes\<close>

definition encoded_size :: "'a xdr \<Rightarrow> nat \<Rightarrow> bool" where
  "encoded_size X n \<longleftrightarrow> (\<forall>v bs. xdr_encode X v = Some bs \<longrightarrow> length bs = n)"

lemma block_size: "(\<And>v. length (to v) = n) \<Longrightarrow> encoded_size (xdr_block n to from) n"
  by (simp add: encoded_size_def xdr_block_def)

lemma word_sizes: "encoded_size xdr_uint32_t 4" "encoded_size xdr_uint64_t 8" "encoded_size xdr_flag 4" "encoded_size xdr_u_long 4"
  "encoded_size (xdr_opaque n) n" "encoded_size xdr_void 0"
  by (auto simp: encoded_size_def xdr_uint32_t_def xdr_uint64_t_def xdr_flag_def xdr_u_long_def xdr_opaque_def xdr_void_def
      xdr_block_def split: if_splits)

lemma pair_size: "encoded_size A m \<Longrightarrow> encoded_size B n \<Longrightarrow> encoded_size (xdr_pair A B) (m + n)"
  by (auto simp: encoded_size_def xdr_pair_def bind_eq_Some_conv)

lemma struct_size: "encoded_size A m \<Longrightarrow> encoded_size (xdr_struct to from A) m"
  by (simp add: encoded_size_def xdr_struct_def)

lemma rma_size: "encoded_size xdr_lwfs_rma 44"
proof -
  have "encoded_size xdr_lwfs_rma ((4 + 4) + (4 + (8 + (8 + (8 + 8)))))"
    unfolding xdr_lwfs_rma_def xdr_lwfs_remote_pid_def by (intro struct_size pair_size word_sizes)
  then show ?thesis by simp
qed

lemma request_header_size: "encoded_size xdr_lwfs_request_header 144"
proof -
  have "encoded_size xdr_lwfs_request_header (4 + (4 + (4 + (44 + (44 + 44)))))"
    unfolding xdr_lwfs_request_header_def by (intro struct_size pair_size word_sizes rma_size)
  then show ?thesis by simp
qed

lemma result_header_size: "encoded_size xdr_lwfs_result_header 56"
proof -
  have "encoded_size xdr_lwfs_result_header (4 + (4 + (44 + 4)))"
    unfolding xdr_lwfs_result_header_def by (intro struct_size pair_size word_sizes rma_size)
  then show ?thesis by simp
qed

text \<open>A header has an encoding as long as its id fits in 32 bits.\<close>

lemma uint_encodes: "xdr_encode xdr_uint32_t v = Some (be_bytes 4 v)" "xdr_encode xdr_uint64_t w = Some (be_bytes 8 w)"
  "xdr_encode xdr_flag b = Some (be_bytes 4 (of_bool b :: u32))"
  by (simp_all add: xdr_uint32_t_def xdr_uint64_t_def xdr_flag_def xdr_block_def)

lemma rma_encodes: "\<exists>bs. xdr_encode xdr_lwfs_rma a = Some bs"
  by (simp add: xdr_lwfs_rma_def xdr_lwfs_remote_pid_def xdr_struct_def xdr_pair_def uint_encodes)

lemma u_long_encodes: "unat i < 2 ^ 32 \<Longrightarrow> xdr_encode xdr_u_long i = Some (be_bytes 4 (ucast i :: u32))"
  by (simp add: xdr_u_long_def)

lemma request_header_encodes: "unat (rq_id h) < 2 ^ 32 \<Longrightarrow> \<exists>bs. xdr_encode xdr_lwfs_request_header h = Some bs \<and> length bs = 144"
proof -
  assume i: "unat (rq_id h) < 2 ^ 32"
  obtain a d r where "xdr_encode xdr_lwfs_rma (rq_args_addr h) = Some a" "xdr_encode xdr_lwfs_rma (rq_data_addr h) = Some d"
    "xdr_encode xdr_lwfs_rma (rq_res_addr h) = Some r" using rma_encodes by blast
  with i have "\<exists>bs. xdr_encode xdr_lwfs_request_header h = Some bs"
    by (simp add: xdr_lwfs_request_header_def xdr_struct_def xdr_pair_def uint_encodes u_long_encodes)
  with request_header_size show ?thesis by (auto simp: encoded_size_def)
qed

lemma result_header_encodes: "unat (rs_id h) < 2 ^ 32 \<Longrightarrow> \<exists>bs. xdr_encode xdr_lwfs_result_header h = Some bs \<and> length bs = 56"
proof -
  assume i: "unat (rs_id h) < 2 ^ 32"
  obtain a where "xdr_encode xdr_lwfs_rma (rs_result_addr h) = Some a" using rma_encodes by blast
  with i have "\<exists>bs. xdr_encode xdr_lwfs_result_header h = Some bs"
    by (simp add: xdr_lwfs_result_header_def xdr_struct_def xdr_pair_def uint_encodes u_long_encodes)
  with result_header_size show ?thesis by (auto simp: encoded_size_def)
qed

end
