(* ===== verification/Lwfs_Ptls.thy ===== *)
theory Lwfs_Ptls imports Lwfs_Types "HOL-Library.Monad_Syntax" begin

section \<open>Waiting for Portals\<close>

text \<open>
  \<^verbatim>\<open>common/rpc_common/lwfs_ptls.c\<close>: polling event queues, and putting and getting a buffer. Portals is an
  argument: the results of its calls and what each poll brings (\<open>poll_step\<close>). A poll that brings no event leaves the event
  of the caller as it was. \<open>None\<close> is a poll that goes on for ever. \<^verbatim>\<open>PTL_EQ_EMPTY\<close> as a return code and
  an event of zeros are arguments too, for they depend on the version of Portals.
\<close>

datatype ptl_rc = PTL_OK | PTL_EQ_EMPTY | PTL_EQ_DROPPED | PTL_IFACE_DUP | PTL_FAIL

datatype ptl_event_kind =
    PTL_EVENT_GET_START | PTL_EVENT_GET_END | PTL_EVENT_PUT_START | PTL_EVENT_PUT_END
  | PTL_EVENT_REPLY_START | PTL_EVENT_REPLY_END | PTL_EVENT_SEND_START | PTL_EVENT_SEND_END | PTL_EVENT_ACK
  | PTL_EVENT_UNLINK | PTL_EVENT_OTHER

record portals_event =
  pe_kind :: ptl_event_kind
  pe_ok :: bool \<comment> \<open>\<^verbatim>\<open>ni_fail_type\<close> is \<^verbatim>\<open>PTL_NI_OK\<close>\<close>

text \<open>The exit flag is seen before a poll; an event, with others dropped or not; nothing, and then the exit flag; a failure.\<close>

datatype poll_step = Exit_Now | Got_Event bool int portals_event | Got_Nothing bool | Poll_Failed

definition MIN_TIMEOUT :: u32 where "MIN_TIMEOUT = 100"

subsection \<open>Polling\<close>

text \<open>The elapsed time is a signed \<^verbatim>\<open>int\<close>. It wraps around here; in C the addition overflows, which is undefined, when
  a poll without a limit has brought nothing for \<open>2 ^ 31\<close> ms.\<close>

fun poll_loop ::
  "lwfs_return_code \<Rightarrow> u32 \<Rightarrow> u32 \<Rightarrow> u32 \<Rightarrow> int \<Rightarrow> portals_event \<Rightarrow> poll_step list \<Rightarrow>
     (lwfs_return_code \<times> int \<times> portals_event \<times> poll_step list) option" where
  "poll_loop eq_empty timeout per_call elapsed_time which ev [] = None"
| "poll_loop eq_empty timeout per_call elapsed_time which ev (Exit_Now # ps) = Some (eq_empty, which, ev, ps)"
| "poll_loop eq_empty timeout per_call elapsed_time which ev (Got_Event dropped which' ev' # ps) = Some (LWFS_OK, which', ev', ps)"
| "poll_loop eq_empty timeout per_call elapsed_time which ev (Got_Nothing exit_now # ps) =
     (let elapsed_time = elapsed_time + per_call in
      if (0 < sint timeout \<and> sint timeout \<le> sint elapsed_time) \<or> exit_now then Some (LWFS_ERR_TIMEDOUT, which, ev, ps)
      else poll_loop eq_empty timeout per_call elapsed_time which ev ps)"
| "poll_loop eq_empty timeout per_call elapsed_time which ev (Poll_Failed # ps) = Some (LWFS_ERR_RPC, which, ev, ps)"

definition timeout_per_call :: "u32 \<Rightarrow> u32" where
  "timeout_per_call timeout = (if sint timeout < 0 then MIN_TIMEOUT else if sint timeout < sint MIN_TIMEOUT then timeout else MIN_TIMEOUT)"

text \<open>The event is looked at after every poll, also when the poll brought none.\<close>

definition lwfs_ptl_eq_poll ::
  "lwfs_return_code \<Rightarrow> u32 \<Rightarrow> int \<Rightarrow> portals_event \<Rightarrow> poll_step list \<Rightarrow> (lwfs_return_code \<times> int \<times> portals_event \<times> poll_step list) option" where
  "lwfs_ptl_eq_poll eq_empty timeout which ev ps = do {
     (rc, which, ev, ps) \<leftarrow> poll_loop eq_empty timeout (timeout_per_call timeout) 0 which ev ps;
     Some (if \<not> pe_ok ev then LWFS_ERR_RPC else rc, which, ev, ps) }"

definition lwfs_ptl_eq_wait ::
  "lwfs_return_code \<Rightarrow> portals_event \<Rightarrow> poll_step list \<Rightarrow> (lwfs_return_code \<times> int \<times> portals_event \<times> poll_step list) option" where
  "lwfs_ptl_eq_wait eq_empty ev ps = lwfs_ptl_eq_poll eq_empty (- 1) 0 ev ps"

definition lwfs_ptl_eq_timedwait ::
  "lwfs_return_code \<Rightarrow> u32 \<Rightarrow> portals_event \<Rightarrow> poll_step list \<Rightarrow> (lwfs_return_code \<times> int \<times> portals_event \<times> poll_step list) option" where
  "lwfs_ptl_eq_timedwait eq_empty timeout ev ps = lwfs_ptl_eq_poll eq_empty timeout 0 ev ps"

lemma poll_loop_rest:
  "poll_loop eq_empty timeout per_call elapsed which ev ps = Some (rc, which', ev', ps') \<Longrightarrow> \<exists>s ss. ps = (s # ss) @ ps'"
proof (induction eq_empty timeout per_call elapsed which ev ps rule: poll_loop.induct)
  case (4 eq_empty timeout per_call elapsed which ev exit_now ps)
  show ?case
  proof (cases "(0 < sint timeout \<and> sint timeout \<le> sint (elapsed + per_call)) \<or> exit_now")
    case False
    with "4.prems" have "poll_loop eq_empty timeout per_call (elapsed + per_call) which ev ps = Some (rc, which', ev', ps')"
      by (simp add: Let_def)
    from "4.IH" [OF refl False this] show ?thesis by auto
  qed (use "4.prems" in \<open>simp add: Let_def\<close>)
qed simp_all

lemma poll_shorter: "lwfs_ptl_eq_poll eq_empty timeout which ev ps = Some (rc, which', ev', ps') \<Longrightarrow> length ps' < length ps"
  using poll_loop_rest by (fastforce simp: lwfs_ptl_eq_poll_def bind_eq_Some_conv)

lemma poll_event: "pe_ok ev' \<Longrightarrow> lwfs_ptl_eq_poll eq_empty timeout which ev (Got_Event d w ev' # ps) = Some (LWFS_OK, w, ev', ps)"
  by (simp add: lwfs_ptl_eq_poll_def)

subsection \<open>Transfers\<close>

text \<open>The loops of put and get: each event is polled for with the least timeout, of 100 ms. A poll that times out ends the
  loop: the counter of the retries, which is meant to allow three, is never increased, and its test is the wrong way round.
  The flags of the events that came are a set; \<open>reset\<close> clears the event before a poll, or leaves it.\<close>

function await_events ::
  "lwfs_return_code \<Rightarrow> (portals_event \<Rightarrow> portals_event) \<Rightarrow> ptl_event_kind set \<Rightarrow> (ptl_event_kind set \<Rightarrow> bool) \<Rightarrow> ptl_event_kind set \<Rightarrow>
     portals_event \<Rightarrow> poll_step list \<Rightarrow> (lwfs_return_code \<times> poll_step list) option" where
  "await_events eq_empty reset known finished got ev ps =
     (case lwfs_ptl_eq_poll eq_empty MIN_TIMEOUT 0 (reset ev) ps of
        None \<Rightarrow> None
      | Some (rc, which, ev, ps') \<Rightarrow>
          if rc = LWFS_ERR_TIMEDOUT then Some (rc, ps')
          else if rc \<noteq> LWFS_OK then Some (LWFS_ERR_RPC, ps')
          else if pe_kind ev \<notin> known then Some (LWFS_ERR_RPC, ps')
          else if \<not> pe_ok ev then Some (LWFS_ERR_RPC, ps')
          else let got = insert (pe_kind ev) got in
          if finished got then Some (LWFS_OK, ps') else await_events eq_empty reset known finished got ev ps')"
  by pat_completeness auto

termination await_events
  by (relation "measure (\<lambda>(eq_empty, reset, known, finished, got, ev, ps). length ps)") (auto dest: poll_shorter)

declare await_events.simps [simp del]

record transfer_calls =
  tc_eq_alloc :: ptl_rc
  tc_md_bind :: ptl_rc
  tc_start :: ptl_rc \<comment> \<open>\<^verbatim>\<open>PtlPut\<close> or \<^verbatim>\<open>PtlGet\<close>\<close>
  tc_eq_free :: ptl_rc

definition put_events :: "ptl_event_kind set" where
  "put_events = {PTL_EVENT_SEND_START, PTL_EVENT_SEND_END, PTL_EVENT_ACK, PTL_EVENT_UNLINK}"

definition get_events :: "ptl_event_kind set" where
  "get_events = {PTL_EVENT_SEND_START, PTL_EVENT_SEND_END, PTL_EVENT_REPLY_START, PTL_EVENT_REPLY_END, PTL_EVENT_UNLINK}"

text \<open>The end of a transfer: the queue is freed.\<close>

definition transfer_end :: "transfer_calls \<Rightarrow> lwfs_return_code \<times> poll_step list \<Rightarrow> lwfs_return_code \<times> poll_step list" where
  "transfer_end T = map_prod (\<lambda>rc. if tc_eq_free T \<noteq> PTL_OK then LWFS_ERR_RPC else rc) id"

definition lwfs_ptl_put ::
  "lwfs_return_code \<Rightarrow> portals_event \<Rightarrow> transfer_calls \<Rightarrow> u32 \<Rightarrow> lwfs_rma \<Rightarrow> poll_step list \<Rightarrow> (lwfs_return_code \<times> poll_step list) option" where
  "lwfs_ptl_put eq_empty zero_event T len dest ps =
     (if tc_eq_alloc T \<noteq> PTL_OK then Some (LWFS_ERR_RPC, ps)
      else map_option (transfer_end T)
        (if rma_len dest < scast len then Some (LWFS_ERR_RPC, ps)
         else if tc_md_bind T \<noteq> PTL_OK then Some (LWFS_ERR_RPC, ps)
         else if tc_start T \<noteq> PTL_OK then Some (LWFS_ERR_RPC, ps)
         else await_events eq_empty (\<lambda>_. zero_event) put_events (\<lambda>got. put_events \<subseteq> got) {} zero_event ps))"

definition lwfs_ptl_send ::
  "lwfs_return_code \<Rightarrow> portals_event \<Rightarrow> transfer_calls \<Rightarrow> u32 \<Rightarrow> lwfs_rma \<Rightarrow> poll_step list \<Rightarrow> (lwfs_return_code \<times> poll_step list) option" where
  "lwfs_ptl_send eq_empty zero_event T len dest ps = lwfs_ptl_put eq_empty zero_event T len dest ps"

text \<open>\<open>garbage\<close> is the event before the first poll.\<close>

definition lwfs_ptl_get ::
  "lwfs_return_code \<Rightarrow> portals_event \<Rightarrow> transfer_calls \<Rightarrow> poll_step list \<Rightarrow> (lwfs_return_code \<times> poll_step list) option" where
  "lwfs_ptl_get eq_empty garbage T ps =
     (if tc_eq_alloc T \<noteq> PTL_OK then Some (LWFS_ERR_RPC, ps)
      else map_option (transfer_end T)
        (if tc_md_bind T \<noteq> PTL_OK then Some (LWFS_ERR_RPC, ps)
         else if tc_start T \<noteq> PTL_OK then Some (LWFS_ERR_RPC, ps)
         else await_events eq_empty id get_events
           (\<lambda>got. {PTL_EVENT_REPLY_START, PTL_EVENT_REPLY_END, PTL_EVENT_UNLINK} \<subseteq> got \<or> get_events \<subseteq> got) {} garbage ps))"

text \<open>The other calls: every failure is LWFS_ERR_RPC.\<close>

definition ptl_result :: "ptl_rc \<Rightarrow> lwfs_return_code" where
  "ptl_result rc = (if rc \<noteq> PTL_OK then LWFS_ERR_RPC else LWFS_OK)"

definition lwfs_ptl_eq_alloc :: "ptl_rc \<Rightarrow> lwfs_return_code" where "lwfs_ptl_eq_alloc rc = ptl_result rc"
definition lwfs_ptl_me_attach :: "ptl_rc \<Rightarrow> lwfs_return_code" where "lwfs_ptl_me_attach rc = ptl_result rc"
definition lwfs_ptl_md_attach :: "ptl_rc \<Rightarrow> lwfs_return_code" where "lwfs_ptl_md_attach rc = ptl_result rc"
definition lwfs_ptl_md_unlink :: "ptl_rc \<Rightarrow> lwfs_return_code" where "lwfs_ptl_md_unlink rc = ptl_result rc"
definition lwfs_ptl_eq_free :: "ptl_rc \<Rightarrow> lwfs_return_code" where "lwfs_ptl_eq_free rc = ptl_result rc"

definition lwfs_ptl_get_id :: "ptl_rc \<Rightarrow> lwfs_remote_pid \<Rightarrow> lwfs_remote_pid \<Rightarrow> lwfs_return_code \<times> lwfs_remote_pid" where
  "lwfs_ptl_get_id rc ptl_id old = (if rc \<noteq> PTL_OK then (LWFS_ERR_RPC, old) else (LWFS_OK, ptl_id))"

subsection \<open>What a transfer waits for\<close>

text \<open>After a success every event that ends a transfer was brought by a poll, without a failure of the network.\<close>

lemma poll_loop_ok:
  "poll_loop eq_empty timeout per_call elapsed which ev ps = Some (rc, which', ev', ps') \<Longrightarrow> eq_empty \<noteq> LWFS_OK \<Longrightarrow> rc = LWFS_OK \<Longrightarrow>
   \<exists>d w ms. ps = ms @ Got_Event d w ev' # ps'"
proof (induction eq_empty timeout per_call elapsed which ev ps rule: poll_loop.induct)
  case (4 eq_empty timeout per_call elapsed which ev exit_now ps)
  then have go: "\<not> ((0 < sint timeout \<and> sint timeout \<le> sint (elapsed + per_call)) \<or> exit_now)" by (auto simp: Let_def split: if_splits)
  with "4.prems" have "poll_loop eq_empty timeout per_call (elapsed + per_call) which ev ps = Some (rc, which', ev', ps')"
    by (simp add: Let_def)
  from "4.IH" [OF refl go this] "4.prems" obtain d w ms where "ps = ms @ Got_Event d w ev' # ps'" by blast
  then have "Got_Nothing exit_now # ps = (Got_Nothing exit_now # ms) @ Got_Event d w ev' # ps'" by simp
  then show ?case by blast
qed fastforce+

definition brought :: "poll_step list \<Rightarrow> ptl_event_kind set" where
  "brought ps = {k. \<exists>d w. Got_Event d w \<lparr>pe_kind = k, pe_ok = True\<rparr> \<in> set ps}"

lemma brought_append: "brought (ps @ qs) = brought ps \<union> brought qs"
  by (auto simp: brought_def)

lemma poll_brings:
  assumes "lwfs_ptl_eq_poll eq_empty timeout which ev ps = Some (LWFS_OK, which', ev', ps')" "eq_empty \<noteq> LWFS_OK"
  shows "\<exists>ms. ps = ms @ ps' \<and> pe_ok ev' \<and> pe_kind ev' \<in> brought ms"
proof -
  from assms(1) have ok: "pe_ok ev'" "poll_loop eq_empty timeout (timeout_per_call timeout) 0 which ev ps = Some (LWFS_OK, which', ev', ps')"
    by (auto simp: lwfs_ptl_eq_poll_def bind_eq_Some_conv split: if_splits)
  from poll_loop_ok [OF ok(2) assms(2)] obtain d w ms where "ps = ms @ Got_Event d w ev' # ps'" by blast
  then have "ps = (ms @ [Got_Event d w ev']) @ ps'" by simp
  moreover have "ev' = \<lparr>pe_kind = pe_kind ev', pe_ok = True\<rparr>" using ok(1) by (cases ev') simp
  then have "pe_kind ev' \<in> brought (ms @ [Got_Event d w ev'])" by (auto simp: brought_def)
  ultimately show ?thesis using ok(1) by blast
qed

lemma await_events_ok:
  "await_events eq_empty reset known finished got ev ps = Some (LWFS_OK, ps') \<Longrightarrow> eq_empty \<noteq> LWFS_OK \<Longrightarrow>
   \<exists>ms. ps = ms @ ps' \<and> (\<exists>new \<subseteq> brought ms. finished (new \<union> got))"
proof (induction eq_empty reset known finished got ev ps rule: await_events.induct)
  case (1 eq_empty reset known finished got ev ps)
  from "1.prems"(1) obtain rc which ev' qs where poll: "lwfs_ptl_eq_poll eq_empty MIN_TIMEOUT 0 (reset ev) ps = Some (rc, which, ev', qs)"
    by (auto simp: await_events.simps [of _ _ _ _ _ _ ps] split: option.splits)
  with "1.prems"(1) have rc: "rc = LWFS_OK" "pe_kind ev' \<in> known" "pe_ok ev'"
    and go: "if finished (insert (pe_kind ev') got) then qs = ps'
      else await_events eq_empty reset known finished (insert (pe_kind ev') got) ev' qs = Some (LWFS_OK, ps')"
    by (auto simp: await_events.simps [of _ _ _ _ _ _ ps] Let_def split: if_splits)
  from poll_brings [OF poll [unfolded rc(1)] "1.prems"(2)] obtain ms where ms: "ps = ms @ qs" "pe_kind ev' \<in> brought ms" by blast
  show ?case
  proof (cases "finished (insert (pe_kind ev') got)")
    case True
    with go ms show ?thesis by (intro exI [of _ ms] conjI exI [of _ "{pe_kind ev'}"]) auto
  next
    case False
    with go have next_one: "await_events eq_empty reset known finished (insert (pe_kind ev') got) ev' qs = Some (LWFS_OK, ps')" by simp
    have "\<exists>ns. qs = ns @ ps' \<and> (\<exists>new \<subseteq> brought ns. finished (new \<union> insert (pe_kind ev') got))"
      by (rule "1.IH" [OF poll refl refl refl _ _ _ _ refl _ next_one "1.prems"(2)]) (use rc False in simp_all)
    then obtain ns new where ns: "qs = ns @ ps'" "new \<subseteq> brought ns" "finished (new \<union> insert (pe_kind ev') got)" by blast
    then show ?thesis using ms
      by (intro exI [of _ "ms @ ns"] conjI exI [of _ "insert (pe_kind ev') new"]) (auto simp: brought_append)
  qed
qed

lemma await_first_empty:
  "pe_ok (reset ev) \<Longrightarrow> await_events eq_empty reset known finished got ev (Got_Nothing exit_now # ps) = Some (LWFS_ERR_TIMEDOUT, ps)"
  by (simp add: await_events.simps [of _ _ _ _ _ _ "_ # _"] lwfs_ptl_eq_poll_def timeout_per_call_def MIN_TIMEOUT_def Let_def)

lemma await_event:
  "pe_ok ev' \<Longrightarrow> pe_kind ev' \<in> known \<Longrightarrow>
   await_events eq_empty reset known finished got ev (Got_Event d w ev' # ps) =
     (if finished (insert (pe_kind ev') got) then Some (LWFS_OK, ps)
      else await_events eq_empty reset known finished (insert (pe_kind ev') got) ev' ps)"
  by (simp add: await_events.simps [of _ _ _ _ _ _ "_ # _"] poll_event Let_def)

end
