(* ===== verification/Rpc_Server.thy ===== *)
theory Rpc_Server imports Xdr_Types Lwfs_Ptls begin

section \<open>The RPC server\<close>

text \<open>
  \<^verbatim>\<open>server/rpc_server/rpc_server.c\<close>: the table of operations, and what happens to a request between
  its arrival and the answer. Portals is not part of the repository: the results and the events of its calls
  are arguments (\<open>ptl_calls\<close>); what the server sends and posts is recorded in its state. A function without
  a defined return is \<open>None\<close>: \<^verbatim>\<open>abort\<close>, a null pointer, a C value that does not fit in its
  buffer, a wait without a further event. Allocations, which the code does not check, succeed.
\<close>

subsection \<open>Operations\<close>

text \<open>An operation works on the globals of the RPC library and on the state of the server. \<open>op_args_size\<close> and
  \<open>op_res_size\<close> are the bytes of the C values on a 64-bit machine, none for \<^verbatim>\<open>xdr_void\<close>;
  \<open>op_zero_args\<close> is how the handler reads arguments that are all zero.\<close>

record rpc_globals =
  local_service :: lwfs_service
  svc_exit_now :: bool
  trace_settings :: "u32 \<times> u8 list \<times> u32"

type_synonym ('a, 'r, 's) lwfs_rpc_proc =
  "lwfs_remote_pid \<Rightarrow> 'a \<Rightarrow> lwfs_rma \<Rightarrow> rpc_globals \<times> 's \<Rightarrow> (lwfs_return_code \<times> 'r \<times> rpc_globals \<times> 's) option"

record ('a, 'r, 's) lwfs_svc_op =
  op_opcode :: lwfs_opcode
  op_func :: "('a, 'r, 's) lwfs_rpc_proc option" \<comment> \<open>\<open>None\<close> is null\<close>
  op_args_size :: nat
  op_decode_args :: "'a xdr option"
  op_zero_args :: 'a
  op_res_size :: nat
  op_encode_res :: "'r xdr option"

text \<open>Arguments and results are those of the library or of the application.\<close>

datatype 'a rpc_args = No_Args | Trace_Reset_Args u32 "u8 list" u32 | App_Args 'a
datatype 'r rpc_res = No_Res | Service_Res lwfs_service | App_Res 'r

definition xdr_case :: "('a \<Rightarrow> 'b) \<Rightarrow> ('b \<Rightarrow> 'a option) \<Rightarrow> 'a xdr \<Rightarrow> 'b xdr" where
  "xdr_case mk get_it A = \<lparr>
     xdr_encode = (\<lambda>v. do { x \<leftarrow> get_it v; xdr_encode A x }),
     xdr_decode = (\<lambda>bs. map_option (map_prod mk id) (xdr_decode A bs))\<rparr>"

lemma xdr_case_proc: "xdr_proc A \<Longrightarrow> (\<And>v x. get_it v = Some x \<Longrightarrow> mk x = v) \<Longrightarrow> xdr_proc (xdr_case mk get_it A)"
proof
  fix v bs rest
  assume A: "xdr_proc A" and inv: "\<And>v x. get_it v = Some x \<Longrightarrow> mk x = v" and "xdr_encode (xdr_case mk get_it A) v = Some bs"
  then obtain x where x: "get_it v = Some x" "xdr_encode A x = Some bs" by (auto simp: xdr_case_def bind_eq_Some_conv)
  from xdr_proc.decode_encode [OF A x(2)] inv [OF x(1)] show "xdr_decode (xdr_case mk get_it A) (bs @ rest) = Some (v, rest)"
    by (simp add: xdr_case_def)
qed

fun app_args :: "'a rpc_args \<Rightarrow> 'a option" where
  "app_args (App_Args a) = Some a"
| "app_args _ = None"

fun app_res :: "'r rpc_res \<Rightarrow> 'r option" where
  "app_res (App_Res r) = Some r"
| "app_res _ = None"

fun no_args :: "'a rpc_args \<Rightarrow> unit option" where
  "no_args No_Args = Some ()"
| "no_args _ = None"

fun no_res :: "'r rpc_res \<Rightarrow> unit option" where
  "no_res No_Res = Some ()"
| "no_res _ = None"

fun service_res :: "'r rpc_res \<Rightarrow> lwfs_service option" where
  "service_res (Service_Res s) = Some s"
| "service_res _ = None"

fun trace_args :: "'a rpc_args \<Rightarrow> (u32 \<times> u8 list \<times> u32) option" where
  "trace_args (Trace_Reset_Args ftype fname enable) = Some (ftype, fname, enable)"
| "trace_args _ = None"

definition xdr_lwfs_trace_reset_args :: "'a rpc_args xdr" where
  "xdr_lwfs_trace_reset_args = xdr_case (\<lambda>(ftype, fname, enable). Trace_Reset_Args ftype fname enable) trace_args
     (xdr_pair xdr_uint32_t (xdr_pair (xdr_bytes 256) xdr_uint32_t))"

subsection \<open>The operations of every service\<close>

definition rpc_get_service :: "('a rpc_args, 'r rpc_res, 's) lwfs_rpc_proc" where
  "rpc_get_service caller args data_addr gs = Some (LWFS_OK, Service_Res (local_service (fst gs)), gs)"

definition rpc_kill_service :: "('a rpc_args, 'r rpc_res, 's) lwfs_rpc_proc" where
  "rpc_kill_service caller args data_addr gs =
     (case gs of (g, s) \<Rightarrow> Some (LWFS_OK, No_Res, g\<lparr>svc_exit_now := True\<rparr>, s))"

definition rpc_trace_reset :: "('a rpc_args, 'r rpc_res, 's) lwfs_rpc_proc" where
  "rpc_trace_reset caller args data_addr gs = do {
     new \<leftarrow> trace_args args;
     Some (LWFS_OK, No_Res, (fst gs)\<lparr>trace_settings := new\<rparr>, snd gs) }"

text \<open>The entry that ends every array of operations.\<close>

definition null_op :: "('a rpc_args, 'r rpc_res, 's) lwfs_svc_op" where
  "null_op = \<lparr>op_opcode = LWFS_OP_NULL, op_func = None, op_args_size = 0, op_decode_args = None, op_zero_args = No_Args,
     op_res_size = 0, op_encode_res = None\<rparr>"

definition svc_op_array :: "('a rpc_args, 'r rpc_res, 's) lwfs_svc_op list" where
  "svc_op_array =
     [\<lparr>op_opcode = 1, op_func = Some rpc_get_service,
       op_args_size = 0, op_decode_args = Some (xdr_case (\<lambda>_. No_Args) no_args xdr_void), op_zero_args = No_Args,
       op_res_size = 80, op_encode_res = Some (xdr_case Service_Res service_res xdr_lwfs_service)\<rparr>,
      \<lparr>op_opcode = 2, op_func = Some rpc_kill_service,
       op_args_size = 0, op_decode_args = Some (xdr_case (\<lambda>_. No_Args) no_args xdr_void), op_zero_args = No_Args,
       op_res_size = 0, op_encode_res = Some (xdr_case (\<lambda>_. No_Res) no_res xdr_void)\<rparr>,
      \<lparr>op_opcode = 3, op_func = Some rpc_trace_reset,
       op_args_size = 24, op_decode_args = Some xdr_lwfs_trace_reset_args, op_zero_args = Trace_Reset_Args 0 [] 0,
       op_res_size = 0, op_encode_res = Some (xdr_case (\<lambda>_. No_Res) no_res xdr_void)\<rparr>,
      null_op]"

subsection \<open>The state of the server\<close>

record ('a, 'r, 's) rpc_server =
  rpc_globals :: rpc_globals
  supported_ops :: "('a, 'r, 's) lwfs_svc_op list option" \<comment> \<open>\<open>None\<close> is null\<close>
  num_supported_ops :: nat
  res_counter :: u32
  server_state :: 's
  sent :: "(lwfs_rma \<times> u8 list) list" \<comment> \<open>what was put to clients\<close>
  posted :: "(lwfs_rma \<times> u8 list) list" \<comment> \<open>long results for clients to get\<close>

text \<open>Adding operations reads \<open>n\<close> entries of the array. After a failed \<^verbatim>\<open>realloc\<close> the table is null while the
  count stays; another call then leaves the old entries uninitialised.\<close>

definition lwfs_service_add_ops ::
  "bool \<Rightarrow> ('a, 'r, 's) lwfs_svc_op list \<Rightarrow> nat \<Rightarrow> ('a, 'r, 's) rpc_server \<Rightarrow> (lwfs_return_code \<times> ('a, 'r, 's) rpc_server) option" where
  "lwfs_service_add_ops realloc_ok ops n st =
     (if \<not> realloc_ok then Some (LWFS_ERR_NOSPACE, st\<lparr>supported_ops := None\<rparr>)
      else if length ops < n then None
      else (case supported_ops st of
          None \<Rightarrow> if num_supported_ops st = 0 then Some (LWFS_OK, st\<lparr>supported_ops := Some (take n ops), num_supported_ops := n\<rparr>)
            else None
        | Some old \<Rightarrow> Some (LWFS_OK, st\<lparr>supported_ops := Some (old @ take n ops), num_supported_ops := num_supported_ops st + n\<rparr>)))"

text \<open>The result of adding the default operations is not passed on.\<close>

definition lwfs_service_init ::
  "lwfs_remote_pid \<Rightarrow> bool \<Rightarrow> u64 \<Rightarrow> u64 \<Rightarrow> ('a rpc_args, 'r rpc_res, 's) rpc_server \<Rightarrow>
     (lwfs_return_code \<times> lwfs_service \<times> ('a rpc_args, 'r rpc_res, 's) rpc_server) option" where
  "lwfs_service_init my_id realloc_ok bits short_req_len st =
     (let service = zero_service\<lparr>rpc_encode := LWFS_RPC_XDR, req_addr := zero_rma\<lparr>match_id := my_id,
        buffer_id := LWFS_REQ_PT_INDEX, rma_offset := 0, match_bits := bits, rma_len := short_req_len\<rparr>\<rparr>;
        st = st\<lparr>rpc_globals := (rpc_globals st)\<lparr>local_service := service\<rparr>\<rparr> in do {
      (rc, st) \<leftarrow> lwfs_service_add_ops realloc_ok svc_op_array 3 st;
      Some (LWFS_OK, service, st) })"

text \<open>The table is freed but neither the pointer nor the count is reset; a dangling table is one whose
  entries cannot be read.\<close>

definition lwfs_service_fini :: "('a, 'r, 's) rpc_server \<Rightarrow> lwfs_return_code \<times> ('a, 'r, 's) rpc_server" where
  "lwfs_service_fini st = (LWFS_OK, st\<lparr>supported_ops := None\<rparr>)"

text \<open>A list of operations: the new one is pushed onto the front.\<close>

definition lwfs_add_svc_op :: "'o \<Rightarrow> 'o list \<Rightarrow> lwfs_return_code \<times> 'o list" where
  "lwfs_add_svc_op opn ops = (LWFS_OK, opn # ops)"

subsection \<open>Portals\<close>

record ptl_event =
  ev_rc :: lwfs_return_code \<comment> \<open>what the wait returned\<close>
  ev_kind :: ptl_event_kind
  ev_ok :: bool \<comment> \<open>\<^verbatim>\<open>ni_fail_type\<close> is \<^verbatim>\<open>PTL_NI_OK\<close>\<close>

record ptl_calls =
  ptl_get :: "lwfs_rma \<Rightarrow> nat \<Rightarrow> lwfs_return_code \<times> u8 list"
  ptl_put :: "lwfs_rma \<Rightarrow> u8 list \<Rightarrow> lwfs_return_code"
  ptl_eq_alloc :: lwfs_return_code
  ptl_me_attach :: lwfs_return_code
  ptl_md_attach :: lwfs_return_code
  ptl_events :: "ptl_event list"
  ptl_my_id :: lwfs_remote_pid

definition lwfs_get_data :: "ptl_calls \<Rightarrow> nat \<Rightarrow> lwfs_rma \<Rightarrow> lwfs_return_code \<times> u8 list" where
  "lwfs_get_data P n addr = (if n = 0 then (LWFS_OK, []) else ptl_get P addr n)"

definition lwfs_put_data :: "ptl_calls \<Rightarrow> u8 list \<Rightarrow> lwfs_rma \<Rightarrow> lwfs_return_code" where
  "lwfs_put_data P data addr = (if data = [] then LWFS_OK else ptl_put P addr data)"

subsection \<open>The arguments\<close>

text \<open>The arguments are decoded from what the client has posted. A get that fails is not reported: the
  arguments stay as they are.\<close>

definition fetch_args :: "ptl_calls \<Rightarrow> lwfs_request_header \<Rightarrow> 'a xdr \<Rightarrow> 'a \<Rightarrow> lwfs_return_code \<times> 'a" where
  "fetch_args P hdr X args =
     (let (rc, bs) = ptl_get P (rq_args_addr hdr) (unat (rma_len (rq_args_addr hdr))) in
      if rc \<noteq> LWFS_OK then (LWFS_OK, args)
      else (case xdr_decode X bs of
          None \<Rightarrow> (LWFS_ERR_DECODE, args)
        | Some (args, _) \<Rightarrow> (LWFS_OK, args)))"

subsection \<open>The result\<close>

text \<open>Waiting until the client has fetched a long result.\<close>

fun await_fetch :: "ptl_event list \<Rightarrow> bool \<Rightarrow> bool \<Rightarrow> bool \<Rightarrow> lwfs_return_code option" where
  "await_fetch [] got_start got_end got_unlink = None"
| "await_fetch (e # es) got_start got_end got_unlink =
     (if ev_rc e \<noteq> LWFS_OK then Some (ev_rc e)
      else if ev_kind e \<notin> {PTL_EVENT_GET_START, PTL_EVENT_GET_END, PTL_EVENT_UNLINK} then Some LWFS_ERR_RPC
      else if \<not> ev_ok e then Some LWFS_ERR_RPC
      else let got_start = (got_start \<or> ev_kind e = PTL_EVENT_GET_START);
        got_end = (got_end \<or> ev_kind e = PTL_EVENT_GET_END);
        got_unlink = (got_unlink \<or> ev_kind e = PTL_EVENT_UNLINK) in
      if got_start \<and> got_end \<and> got_unlink then Some LWFS_OK else await_fetch es got_start got_end got_unlink)"

text \<open>The buffer of the short result is zero behind what was encoded.\<close>

definition result_bytes :: "u64 \<Rightarrow> u8 list \<Rightarrow> u32 \<Rightarrow> u8 list" where
  "result_bytes dest_len written valid = take (unat valid) (written @ replicate (unat dest_len - length written) 0)"

definition send_result ::
  "ptl_calls \<Rightarrow> u64 \<Rightarrow> lwfs_rma \<Rightarrow> 'r xdr \<Rightarrow> lwfs_return_code \<Rightarrow> 'r \<Rightarrow> ('a, 'r, 's) rpc_server \<Rightarrow>
     (lwfs_return_code \<times> ('a, 'r, 's) rpc_server) option" where
  "send_result P req_id dest X return_code res st =
     (let X = (if return_code \<noteq> LWFS_OK then \<lparr>xdr_encode = (\<lambda>_. Some []), xdr_decode = xdr_decode X\<rparr> else X);
        hdr_size = (of_nat (xdr_sizeof xdr_lwfs_result_header zero_result_header) :: u32);
        res_size = (of_nat (xdr_sizeof X res) :: u32);
        remaining = ucast (rma_len dest) - hdr_size;
        header = zero_result_header\<lparr>rs_id := req_id, rs_rc := rc_code return_code\<rparr> in
      if rma_len dest = 0 then None
      else if res_size < remaining then
        let header = header\<lparr>rs_fetch_result := False, rs_result_addr := zero_rma\<lparr>rma_len := ucast res_size\<rparr>\<rparr> in
        (case xdrmem_put (unat (rma_len dest)) xdr_lwfs_result_header header [] of
          None \<Rightarrow> Some (LWFS_ERR_ENCODE, st)
        | Some written \<Rightarrow> (case xdrmem_put (unat (rma_len dest)) X res written of
            None \<Rightarrow> Some (LWFS_ERR_ENCODE, st)
          | Some written \<Rightarrow>
              let msg = result_bytes (rma_len dest) written (hdr_size + res_size) in
              Some (ptl_put P dest msg, st\<lparr>sent := sent st @ [(dest, msg)]\<rparr>)))
      else
        let bits = res_counter st; st = st\<lparr>res_counter := bits + 1\<rparr> in
        if ptl_eq_alloc P \<noteq> LWFS_OK \<or> ptl_me_attach P \<noteq> LWFS_OK \<or> ptl_md_attach P \<noteq> LWFS_OK then Some (LWFS_ERR_RPC, st)
        else let header = header\<lparr>rs_fetch_result := True, rs_result_addr := zero_rma\<lparr>match_id := ptl_my_id P,
            buffer_id := LWFS_LONG_RES_PT_INDEX, rma_offset := 0, match_bits := ucast bits, rma_len := ucast res_size\<rparr>\<rparr> in
        (case xdrmem_put (unat (rma_len dest)) xdr_lwfs_result_header header [] of
          None \<Rightarrow> Some (LWFS_ERR_ENCODE, st)
        | Some written \<Rightarrow> (case xdrmem_put (unat res_size) X res [] of
            None \<Rightarrow> Some (LWFS_ERR_ENCODE, st)
          | Some long_res \<Rightarrow>
              let msg = result_bytes (rma_len dest) written hdr_size;
                st = st\<lparr>sent := sent st @ [(dest, msg)], posted := posted st @ [(rs_result_addr header, long_res)]\<rparr> in
              if ptl_put P dest msg \<noteq> LWFS_OK then Some (ptl_put P dest msg, st)
              else map_option (\<lambda>rc. (rc, st)) (await_fetch (ptl_events P) False False False))))"

subsection \<open>A request\<close>

text \<open>The search for the operation: \<open>Some None\<close> when there is none; an index outside of the table has no value.\<close>

fun find_op :: "('a, 'r, 's) lwfs_svc_op list option \<Rightarrow> nat \<Rightarrow> nat \<Rightarrow> lwfs_opcode \<Rightarrow> ('a, 'r, 's) lwfs_svc_op option option" where
  "find_op table i 0 opcode = Some None"
| "find_op table i (Suc n) opcode = do {
     ops \<leftarrow> table;
     if i < length ops then
       if op_opcode (ops ! i) = opcode then Some (Some (ops ! i)) else find_op table (i + 1) n opcode
     else None }"

text \<open>The arguments, from the request or from the client.\<close>

definition request_args :: "ptl_calls \<Rightarrow> lwfs_request_header \<Rightarrow> u8 list \<Rightarrow> 'a xdr \<Rightarrow> 'a \<Rightarrow> lwfs_return_code \<times> 'a" where
  "request_args P hdr stream X zero_args =
     (if \<not> rq_fetch_args hdr then
        (case xdr_decode X stream of None \<Rightarrow> (LWFS_ERR_DECODE, zero_args) | Some (args, _) \<Rightarrow> (LWFS_OK, args))
      else fetch_args P hdr X zero_args)"

text \<open>The buffers for arguments and result have the sizes that the header of the client gives; when one is smaller than
  the structure of a 64-bit machine, the behaviour of the C code is undefined (it writes behind the buffer), and so is the value here.\<close>

definition run_op ::
  "ptl_calls \<Rightarrow> lwfs_remote_pid \<Rightarrow> lwfs_request_header \<Rightarrow> u8 list \<Rightarrow> ('a, 'r, 's) lwfs_svc_op \<Rightarrow> ('a, 'r, 's) rpc_server \<Rightarrow>
     (lwfs_return_code \<times> ('a, 'r, 's) rpc_server) option" where
  "run_op P caller hdr stream opn st = do {
     X \<leftarrow> op_decode_args opn;
     if unat (rma_len (rq_args_addr hdr)) < op_args_size opn \<or> unat (rma_len (rq_res_addr hdr)) < op_res_size opn then None
     else let (rc, args) = request_args P hdr stream X (op_zero_args opn) in
     if rc \<noteq> LWFS_OK then Some (rc, st)
     else do {
       f \<leftarrow> op_func opn;
       (rc, res, g, s) \<leftarrow> f caller args (rq_data_addr hdr) (rpc_globals st, server_state st);
       Y \<leftarrow> op_encode_res opn;
       send_result P (rq_id hdr) (rq_res_addr hdr) Y rc res (st\<lparr>rpc_globals := g, server_state := s\<rparr>) } }"

record thr_request =
  thr_caller :: lwfs_remote_pid
  thr_req_buf :: "u8 list" \<comment> \<open>its first \<^verbatim>\<open>short_req_len\<close> bytes\<close>

definition process_request ::
  "ptl_calls \<Rightarrow> nat \<Rightarrow> nat \<Rightarrow> thr_request \<Rightarrow> ('a, 'r, 's) rpc_server \<Rightarrow> (lwfs_return_code \<times> ('a, 'r, 's) rpc_server) option" where
  "process_request P max_mem_allowed main_memory_in_use data st =
     (if max_mem_allowed > 0 \<and> main_memory_in_use > max_mem_allowed then Some (LWFS_OK, st)
      else do {
        (hdr, stream) \<leftarrow> xdr_decode xdr_lwfs_request_header (thr_req_buf data);
        found \<leftarrow> find_op (supported_ops st) 0 (num_supported_ops st) (rq_opcode hdr);
        case found of
          None \<Rightarrow> Some (LWFS_ERR_RPC, st)
        | Some opn \<Rightarrow> run_op P (thr_caller data) hdr stream opn st })"

end
