(* ===== verification/Rpc_Xdr.thy ===== *)
theory Rpc_Xdr imports Hashtable_Map Rpc_Server begin

section \<open>The registry of encodings\<close>

text \<open>
  \<^verbatim>\<open>common/rpc_common/rpc_xdr.c\<close>: the hash table that gives the XDR procedures of an operation by its
  code, for the client. A table that could not be made is used all the same: \<open>None\<close>, as is one that has been
  destroyed. The outcomes of the allocations are arguments. The table is used without a lock. The facts:
  the registry is a map from operation codes to encodings, as the contract of the hash table gives it.
\<close>

record ('a, 'r) xdr_encodings =
  args_encoding :: "'a xdr option"
  data_encoding :: "u8 list xdr option"
  result_encoding :: "'r xdr option"

record ('a, 'r) xdr_registry =
  xdr_initialized :: bool
  encodings_ht :: "(lwfs_opcode, ('a, 'r) xdr_encodings) hashtable option"

definition empty_registry :: "('a, 'r) xdr_registry" where
  "empty_registry = \<lparr>xdr_initialized = False, encodings_ht = None\<rparr>"

definition encoding_hash_func :: "lwfs_opcode \<Rightarrow> u32" where
  "encoding_hash_func opcode = RSHash (le_bytes 4 opcode)"

definition compare_opcodes :: "lwfs_opcode \<Rightarrow> lwfs_opcode \<Rightarrow> bool" where
  "compare_opcodes a b \<longleftrightarrow> a = b"

definition lwfs_xdr_init :: "bool \<Rightarrow> ('a, 'r) xdr_registry \<Rightarrow> lwfs_return_code \<times> ('a, 'r) xdr_registry" where
  "lwfs_xdr_init table_malloc reg =
     (if xdr_initialized reg then (LWFS_OK, reg)
      else (LWFS_OK, \<lparr>xdr_initialized = True,
        encodings_ht = create_hashtable table_malloc 20 encoding_hash_func compare_opcodes\<rparr>))"

definition lwfs_register_xdr_encoding ::
  "bool \<Rightarrow> ht_mem \<Rightarrow> lwfs_opcode \<Rightarrow> 'a xdr option \<Rightarrow> u8 list xdr option \<Rightarrow> 'r xdr option \<Rightarrow> ('a, 'r) xdr_registry \<Rightarrow>
     (lwfs_return_code \<times> ('a, 'r) xdr_registry) option" where
  "lwfs_register_xdr_encoding can_malloc mem opcode args data result reg =
     (let reg = snd (lwfs_xdr_init can_malloc reg) in
      if \<not> can_malloc then Some (LWFS_ERR_NOSPACE, reg)
      else do {
        h \<leftarrow> encodings_ht reg;
        (ok, h) \<leftarrow> hashtable_insert mem h opcode \<lparr>args_encoding = args, data_encoding = data, result_encoding = result\<rparr>;
        Some (if ok then LWFS_OK else LWFS_ERR, reg\<lparr>encodings_ht := Some h\<rparr>) })"

definition lwfs_lookup_xdr_encoding ::
  "bool \<Rightarrow> lwfs_opcode \<Rightarrow> ('a, 'r) xdr_registry \<Rightarrow> ((lwfs_return_code + ('a, 'r) xdr_encodings) \<times> ('a, 'r) xdr_registry) option" where
  "lwfs_lookup_xdr_encoding can_malloc opcode reg =
     (let reg = snd (lwfs_xdr_init can_malloc reg) in do {
        h \<leftarrow> encodings_ht reg;
        Some (case hashtable_search h opcode of None \<Rightarrow> Inl LWFS_ERR_NOENT | Some e \<Rightarrow> Inr e, reg) })"

text \<open>The table is destroyed, but stays initialised.\<close>

definition lwfs_xdr_fini :: "bool \<Rightarrow> ('a, 'r) xdr_registry \<Rightarrow> (lwfs_return_code \<times> ('a, 'r) xdr_registry) option" where
  "lwfs_xdr_fini can_malloc reg =
     (let reg = snd (lwfs_xdr_init can_malloc reg) in
      map_option (\<lambda>h. (LWFS_OK, reg\<lparr>encodings_ht := None\<rparr>)) (encodings_ht reg))"

text \<open>Registering a group of encodings; the results of the single registrations are not looked at.\<close>

fun register_all ::
  "bool \<Rightarrow> ht_mem \<Rightarrow> (lwfs_opcode \<times> 'a xdr option \<times> 'r xdr option) list \<Rightarrow> ('a, 'r) xdr_registry \<Rightarrow>
     ('a, 'r) xdr_registry option" where
  "register_all can_malloc mem [] reg = Some reg"
| "register_all can_malloc mem ((opcode, args, result) # rest) reg = do {
     (rc, reg) \<leftarrow> lwfs_register_xdr_encoding can_malloc mem opcode args None result reg;
     register_all can_malloc mem rest reg }"

definition service_encodings :: "(lwfs_opcode \<times> 'a rpc_args xdr option \<times> 'r rpc_res xdr option) list" where
  "service_encodings =
     [(1, None, Some (xdr_case Service_Res service_res xdr_lwfs_service)),
      (2, None, Some (xdr_case (\<lambda>_. No_Res) no_res xdr_void)),
      (3, Some xdr_lwfs_trace_reset_args, Some (xdr_case (\<lambda>_. No_Res) no_res xdr_void))]"

definition register_service_encodings ::
  "bool \<Rightarrow> ht_mem \<Rightarrow> ('a rpc_args, 'r rpc_res) xdr_registry \<Rightarrow> (lwfs_return_code \<times> ('a rpc_args, 'r rpc_res) xdr_registry) option" where
  "register_service_encodings can_malloc mem reg =
     map_option (Pair LWFS_OK) (register_all can_malloc mem service_encodings reg)"

subsection \<open>The registry as a map\<close>

definition registry_ok :: "('a, 'r) xdr_registry \<Rightarrow> bool" where
  "registry_ok reg \<longleftrightarrow> (if xdr_initialized reg then (\<exists>h. encodings_ht reg = Some h \<and> ht_ok h) else encodings_ht reg = None)"

definition registry_size :: "('a, 'r) xdr_registry \<Rightarrow> nat" where
  "registry_size reg = (case encodings_ht reg of None \<Rightarrow> 0 | Some h \<Rightarrow> unat (entrycount h))"

definition registered :: "('a, 'r) xdr_registry \<Rightarrow> lwfs_opcode \<Rightarrow> ('a, 'r) xdr_encodings list" where
  "registered reg opcode = (case encodings_ht reg of None \<Rightarrow> [] | Some h \<Rightarrow> ht_vals h opcode)"

lemma compare_opcodes_eq: "compare_opcodes = (=)"
  by (simp add: fun_eq_iff compare_opcodes_def)

lemma xdr_init_ok:
  assumes "registry_ok reg"
  obtains h where "encodings_ht (snd (lwfs_xdr_init True reg)) = Some h" "ht_ok h" "xdr_initialized (snd (lwfs_xdr_init True reg))"
    "ht_vals h = registered reg" "unat (entrycount h) = registry_size reg"
proof (cases "xdr_initialized reg")
  case True
  with assms obtain h where h: "encodings_ht reg = Some h" "ht_ok h" by (auto simp: registry_ok_def)
  with True show thesis
    by (intro that [of h]) (auto simp: lwfs_xdr_init_def registered_def registry_size_def fun_eq_iff)
next
  case False
  then have reg: "encodings_ht reg = None" using assms by (simp add: registry_ok_def)
  have "create_hashtable True 20 encoding_hash_func compare_opcodes \<noteq> None"
    by (simp add: create_hashtable_def split: prod.splits)
  then obtain h :: "(lwfs_opcode, ('a, 'b) xdr_encodings) hashtable" where
    h: "create_hashtable True 20 encoding_hash_func compare_opcodes = Some h" by blast
  from create_vals [OF h [unfolded compare_opcodes_eq]] have "ht_ok h" "ht_vals h = (\<lambda>k. [])" "entrycount h = 0" by auto
  with False h reg show thesis
    by (intro that [of h]) (auto simp: lwfs_xdr_init_def registered_def registry_size_def fun_eq_iff)
qed

lemma register_ok:
  assumes ok: "registry_ok reg" and mem: "enough mem" and room: "Suc (registry_size reg) < 2 ^ 32"
  obtains reg' g where "lwfs_register_xdr_encoding True mem opcode args data result reg = Some (LWFS_OK, reg')"
    "registry_ok reg'" "registry_size reg' = Suc (registry_size reg)" "g = rev \<or> g = id"
    "registered reg' = (\<lambda>k. (if k = opcode then [\<lparr>args_encoding = args, data_encoding = data, result_encoding = result\<rparr>] else []) @
      g (registered reg k))"
proof -
  let ?e = "\<lparr>args_encoding = args, data_encoding = data, result_encoding = result\<rparr>"
  obtain h where h: "encodings_ht (snd (lwfs_xdr_init True reg)) = Some h" "ht_ok h" "xdr_initialized (snd (lwfs_xdr_init True reg))"
    "ht_vals h = registered reg" "unat (entrycount h) = registry_size reg"
    by (rule xdr_init_ok [OF ok])
  have room': "ht_room h" using room h(5) by (intro count_room) simp
  from ht.ins [OF h(2) room' mem, of opcode ?e]
  obtain h' g where ins: "hashtable_insert mem h opcode ?e = Some (True, h')" "ht_ok h'" "g = rev \<or> g = id"
    "ht_vals h' = (\<lambda>k. (if k = opcode then [?e] else []) @ g (ht_vals h k))" by blast
  have "unat (entrycount h') = Suc (registry_size reg)" using count_room(2) [OF _ ins(1)] h(5) room by simp
  note count = this
  let ?reg = "snd (lwfs_xdr_init True reg)\<lparr>encodings_ht := Some h'\<rparr>"
  have "registered ?reg = ht_vals h'" "registry_size ?reg = unat (entrycount h')"
    by (simp_all add: fun_eq_iff registered_def registry_size_def)
  moreover have "lwfs_register_xdr_encoding True mem opcode args data result reg = Some (LWFS_OK, ?reg)"
    using ins(1) h(1) by (simp add: lwfs_register_xdr_encoding_def Let_def)
  moreover have "registry_ok ?reg" using ins(2) h(3) by (simp add: registry_ok_def)
  ultimately show thesis using that [of ?reg g] ins(3,4) h(4) count by simp
qed

text \<open>Registering a group of different operations that are not registered yet.\<close>

lemma register_all_ok:
  assumes "registry_ok reg" "enough mem" "registry_size reg + length es < 2 ^ 32" "distinct (map fst es)"
    "\<forall>k. length (registered reg k) \<le> 1" "\<forall>k\<in>fst ` set es. registered reg k = []"
  shows "\<exists>reg'. register_all True mem es reg = Some reg' \<and> registry_ok reg' \<and> registry_size reg' = registry_size reg + length es \<and>
    registered reg' = (\<lambda>k. case map_of es k of None \<Rightarrow> registered reg k
      | Some (a, r) \<Rightarrow> [\<lparr>args_encoding = a, data_encoding = None, result_encoding = r\<rparr>])"
  using assms
proof (induction es arbitrary: reg)
  case (Cons e es)
  obtain opcode a r where e: "e = (opcode, a, r)" by (cases e)
  have room: "Suc (registry_size reg) < 2 ^ 32" using Cons.prems(3) by simp
  obtain reg' g where reg': "lwfs_register_xdr_encoding True mem opcode a None r reg = Some (LWFS_OK, reg')"
    "registry_ok reg'" "registry_size reg' = Suc (registry_size reg)" "g = rev \<or> g = id"
    "registered reg' = (\<lambda>k. (if k = opcode then [\<lparr>args_encoding = a, data_encoding = None, result_encoding = r\<rparr>] else []) @
      g (registered reg k))" by (rule register_ok [OF Cons.prems(1,2) room])
  have "g (registered reg k) = registered reg k" for k
  proof -
    have "length (registered reg k) \<le> 1" using Cons.prems(5) by blast
    with reg'(4) show ?thesis by (cases "registered reg k") auto
  qed
  with reg'(5) Cons.prems(6) e have R: "registered reg' =
      (registered reg)(opcode := [\<lparr>args_encoding = a, data_encoding = None, result_encoding = r\<rparr>])" by (auto simp: fun_eq_iff)
  have "\<exists>reg''. register_all True mem es reg' = Some reg'' \<and> registry_ok reg'' \<and> registry_size reg'' = registry_size reg' + length es \<and>
      registered reg'' = (\<lambda>k. case map_of es k of None \<Rightarrow> registered reg' k
        | Some (a, r) \<Rightarrow> [\<lparr>args_encoding = a, data_encoding = None, result_encoding = r\<rparr>])"
  proof (rule Cons.IH [OF reg'(2) Cons.prems(2)])
    show "registry_size reg' + length es < 2 ^ 32" using Cons.prems(3) reg'(3) by simp
    show "distinct (map fst es)" using Cons.prems(4) by simp
    show "\<forall>k. length (registered reg' k) \<le> 1" using Cons.prems(5) by (simp add: R)
    show "\<forall>k\<in>fst ` set es. registered reg' k = []"
    proof
      fix k assume k: "k \<in> fst ` set es"
      with Cons.prems(4) e have "k \<noteq> opcode" by auto
      with Cons.prems(6) k show "registered reg' k = []" by (auto simp: R)
    qed
  qed
  then obtain reg'' where reg'': "register_all True mem es reg' = Some reg''" "registry_ok reg''"
    "registry_size reg'' = registry_size reg' + length es"
    "registered reg'' = (\<lambda>k. case map_of es k of None \<Rightarrow> registered reg' k
        | Some (a, r) \<Rightarrow> [\<lparr>args_encoding = a, data_encoding = None, result_encoding = r\<rparr>])" by blast
  have "map_of es opcode = None" using Cons.prems(4) e by (simp add: map_of_eq_None_iff)
  then have "registered reg'' = (\<lambda>k. case map_of (e # es) k of None \<Rightarrow> registered reg k
      | Some (a, r) \<Rightarrow> [\<lparr>args_encoding = a, data_encoding = None, result_encoding = r\<rparr>])"
    unfolding reg''(4) R e by (simp add: fun_eq_iff split: option.splits)
  with reg''(1-3) reg'(1,3) show ?case by (simp add: e)
qed simp

lemma lookup_registered:
  assumes "registry_ok reg"
  obtains reg' where "lwfs_lookup_xdr_encoding True opcode reg =
      Some (case first_val (registered reg opcode) of None \<Rightarrow> Inl LWFS_ERR_NOENT | Some e \<Rightarrow> Inr e, reg')"
    "registry_ok reg'" "registered reg' = registered reg" "registry_size reg' = registry_size reg"
proof -
  obtain h where h: "encodings_ht (snd (lwfs_xdr_init True reg)) = Some h" "ht_ok h" "xdr_initialized (snd (lwfs_xdr_init True reg))"
    "ht_vals h = registered reg" "unat (entrycount h) = registry_size reg"
    by (rule xdr_init_ok [OF assms])
  with that [of "snd (lwfs_xdr_init True reg)"] search_vals [OF h(2), of opcode] show thesis
    by (simp add: lwfs_lookup_xdr_encoding_def Let_def registry_ok_def registry_size_def registered_def [abs_def])
qed

end
