(* ===== verification/Rpc_Client.thy ===== *)
theory Rpc_Client imports Rpc_Xdr begin

section \<open>The RPC client\<close>

text \<open>
  \<^verbatim>\<open>client/rpc_client/rpc_client.c\<close>: sending a request, waiting for its result, and the operations every
  service has. Portals is an argument: the results of its calls (\<open>clnt_calls\<close>, \<open>wait_calls\<close>) and the events. What the
  client sends and the memory it exposes are recorded in its state. \<open>None\<close> is a call without a defined return: a
  null function pointer, an index outside of an array, a wait without a further event. Allocations that the code does not
  check succeed. Codes of remote methods are numbers, as they are on the wire.
\<close>

subsection \<open>State\<close>

datatype lwfs_request_status =
  LWFS_REQUEST_ERROR | LWFS_SENDING_REQUEST | LWFS_PROCESSING_REQUEST | LWFS_PROCESSING_RESULT | LWFS_REQUEST_COMPLETE

record ('a, 'r) lwfs_request =
  req_id :: u64
  req_opcode :: lwfs_opcode
  req_result :: "'r option" \<comment> \<open>\<open>None\<close> is null\<close>
  req_data :: "u8 list option"
  req_error_code :: u32
  req_status :: lwfs_request_status
  xdr_encode_args :: "'a xdr option"
  xdr_decode_result :: "'r xdr option"
  args_eq_h :: nat
  data_eq_h :: nat
  short_res_eq_h :: nat

record ('a, 'r) rpc_client =
  encodings :: "('a, 'r) xdr_registry"
  global_count :: u64
  data_count :: u32 \<comment> \<open>\<^verbatim>\<open>local_count\<close> of \<^verbatim>\<open>post_data_md\<close>\<close>
  result_count :: u32 \<comment> \<open>\<^verbatim>\<open>local_count\<close> of \<^verbatim>\<open>post_result_md\<close>\<close>
  args_counter :: u64
  args_mds :: "(lwfs_rma \<times> u8 list) list" \<comment> \<open>long arguments for the server to get\<close>
  data_mds :: "(lwfs_rma \<times> u8 list) list"
  result_mds :: "lwfs_rma list"
  requests :: "(lwfs_rma \<times> u8 list) list" \<comment> \<open>what was put to servers\<close>
  init_flag :: bool \<comment> \<open>of \<^verbatim>\<open>client_init\<close>\<close>

text \<open>The results of the calls that make a memory descriptor, and of the others.\<close>

record md_calls =
  md_get_ni :: lwfs_return_code
  md_eq_alloc :: lwfs_return_code
  md_me_attach :: lwfs_return_code
  md_md_attach :: lwfs_return_code
  md_eq_h :: nat

record clnt_calls =
  clnt_id :: lwfs_remote_pid
  data_calls :: md_calls
  result_calls :: md_calls
  args_calls :: md_calls
  put_request :: lwfs_return_code
  clnt_malloc :: bool

subsection \<open>Memory for the server\<close>

text \<open>A Portals number that is returned as it is stands for the code with that number.\<close>

definition post_data_md ::
  "clnt_calls \<Rightarrow> u8 list option \<Rightarrow> u64 \<Rightarrow> lwfs_request_header \<Rightarrow> ('a, 'r) lwfs_request \<Rightarrow> ('a, 'r) rpc_client \<Rightarrow>
     lwfs_return_code \<times> lwfs_request_header \<times> ('a, 'r) lwfs_request \<times> ('a, 'r) rpc_client" where
  "post_data_md C data data_size header req cl =
     (let cl = cl\<lparr>data_count := data_count cl + 1\<rparr>; D = data_calls C; bits = scast (data_count cl) in
      if md_get_ni D \<noteq> LWFS_OK then (md_get_ni D, header, req, cl)
      else let header = header\<lparr>rq_data_addr := zero_rma\<rparr> in
      if data_size = 0 then (LWFS_OK, header, req, cl)
      else (case data of
          None \<Rightarrow> (LWFS_ERR_RPC, header, req, cl)
        | Some bytes \<Rightarrow>
            if md_eq_alloc D \<noteq> LWFS_OK then (LWFS_ERR_RPC, header, req, cl)
            else if md_me_attach D \<noteq> LWFS_OK then (md_me_attach D, header, req, cl)
            else if md_md_attach D \<noteq> LWFS_OK then (LWFS_ERR_RPC, header, req, cl)
            else let addr = zero_rma\<lparr>match_id := clnt_id C, buffer_id := LWFS_DATA_PT_INDEX, rma_offset := 0,
                match_bits := bits, rma_len := data_size\<rparr> in
              (LWFS_OK, header\<lparr>rq_data_addr := addr\<rparr>, req\<lparr>data_eq_h := md_eq_h D\<rparr>, cl\<lparr>data_mds := data_mds cl @ [(addr, bytes)]\<rparr>)))"

definition post_result_md ::
  "clnt_calls \<Rightarrow> lwfs_request_header \<Rightarrow> ('a, 'r) lwfs_request \<Rightarrow> ('a, 'r) rpc_client \<Rightarrow>
     lwfs_return_code \<times> lwfs_request_header \<times> ('a, 'r) lwfs_request \<times> ('a, 'r) rpc_client" where
  "post_result_md C header req cl =
     (let cl = cl\<lparr>result_count := result_count cl + 1\<rparr>; R = result_calls C; bits = scast (result_count cl) in
      if md_get_ni R \<noteq> LWFS_OK then (md_get_ni R, header, req, cl)
      else if md_eq_alloc R \<noteq> LWFS_OK \<or> md_me_attach R \<noteq> LWFS_OK \<or> md_md_attach R \<noteq> LWFS_OK then (LWFS_ERR_RPC, header, req, cl)
      else let addr = zero_rma\<lparr>match_id := clnt_id C, buffer_id := LWFS_RES_PT_INDEX, rma_offset := 0, match_bits := bits,
          rma_len := LWFS_SHORT_RESULT_SIZE\<rparr> in
        (LWFS_OK, header\<lparr>rq_res_addr := addr\<rparr>, req\<lparr>short_res_eq_h := md_eq_h R\<rparr>, cl\<lparr>result_mds := result_mds cl @ [addr]\<rparr>))"

text \<open>The arguments go behind the header when the short request has more room than they need, and are exposed for the
  server to fetch otherwise. The result has the bytes of the short request. A memory descriptor whose encoding failed is
  not recorded.\<close>

definition encode_args ::
  "clnt_calls \<Rightarrow> 'a option \<Rightarrow> u32 \<Rightarrow> lwfs_request_header \<Rightarrow> ('a, 'r) lwfs_request \<Rightarrow> ('a, 'r) rpc_client \<Rightarrow>
     (lwfs_return_code \<times> u8 list \<times> lwfs_request_header \<times> ('a, 'r) lwfs_request \<times> ('a, 'r) rpc_client) option" where
  "encode_args C args short_req_size header req cl = do {
     (found, reg) \<leftarrow> lwfs_lookup_xdr_encoding (clnt_malloc C) (req_opcode req) (encodings cl);
     let cl = cl\<lparr>encodings := reg\<rparr>;
     case found of
       Inl rc \<Rightarrow> Some (rc, [], header, req, cl)
     | Inr e \<Rightarrow>
         let req = req\<lparr>xdr_encode_args := args_encoding e, xdr_decode_result := result_encoding e\<rparr>;
           header = header\<lparr>rq_id := req_id req, rq_args_addr := zero_rma\<rparr> in
         (case args of
           None \<Rightarrow>
             let header = header\<lparr>rq_fetch_args := False, rq_args_addr := (rq_args_addr header)\<lparr>rma_len := 0\<rparr>\<rparr> in
             Some (case xdrmem_put (unat short_req_size) xdr_lwfs_request_header header [] of
               None \<Rightarrow> (LWFS_ERR_ENCODE, [], header, req, cl)
             | Some buf \<Rightarrow> (LWFS_OK, buf, header, req, cl))
         | Some a \<Rightarrow> do {
             X \<leftarrow> args_encoding e;
             let args_size = (of_nat (xdr_sizeof X a) :: u64);
             let hdr_size = of_nat (xdr_sizeof xdr_lwfs_request_header header);
             let remaining = scast short_req_size - hdr_size;
             if args_size < remaining then
               let header = header\<lparr>rq_fetch_args := False, rq_args_addr := (rq_args_addr header)\<lparr>rma_len := args_size\<rparr>\<rparr> in
               Some (case xdrmem_put (unat short_req_size) xdr_lwfs_request_header header [] of
                 None \<Rightarrow> (LWFS_ERR_ENCODE, [], header, req, cl)
               | Some buf \<Rightarrow> (case xdrmem_put (unat short_req_size) X a buf of
                   None \<Rightarrow> (LWFS_ERR_ENCODE, buf, header, req, cl)
                 | Some buf \<Rightarrow> (LWFS_OK, buf, header, req, cl)))
             else
               let header = header\<lparr>rq_fetch_args := True\<rparr>; A = args_calls C in
               if md_eq_alloc A \<noteq> LWFS_OK then Some (LWFS_ERR_RPC, [], header, req, cl)
               else let bits = args_counter cl; cl = cl\<lparr>args_counter := bits + 1\<rparr> in
               if md_me_attach A \<noteq> LWFS_OK \<or> md_md_attach A \<noteq> LWFS_OK then Some (LWFS_ERR_RPC, [], header, req, cl)
               else let addr = zero_rma\<lparr>match_id := clnt_id C, buffer_id := LWFS_LONG_ARGS_PT_INDEX, rma_offset := 0,
                   match_bits := bits, rma_len := args_size\<rparr>;
                 header = header\<lparr>rq_args_addr := addr\<rparr>; req = req\<lparr>args_eq_h := md_eq_h A\<rparr> in
               Some (case xdrmem_put (unat short_req_size) xdr_lwfs_request_header header [] of
                 None \<Rightarrow> (LWFS_ERR_ENCODE, [], header, req, cl)
               | Some buf \<Rightarrow> (case xdrmem_put (unat (ucast args_size :: u32)) X a [] of
                   None \<Rightarrow> (LWFS_ERR_ENCODE, buf, header, req, cl)
                 | Some long_args \<Rightarrow> (LWFS_OK, buf, header, req, cl\<lparr>args_mds := args_mds cl @ [(addr, long_args)]\<rparr>))) }) }"

subsection \<open>Sending a request\<close>

definition lwfs_call_rpc ::
  "clnt_calls \<Rightarrow> lwfs_service \<Rightarrow> lwfs_opcode \<Rightarrow> 'a option \<Rightarrow> u8 list option \<Rightarrow> u32 \<Rightarrow> 'r option \<Rightarrow> ('a, 'r) rpc_client \<Rightarrow>
     (lwfs_return_code \<times> ('a, 'r) lwfs_request \<times> ('a, 'r) rpc_client) option" where
  "lwfs_call_rpc C svc opcode args data data_size result cl =
     (let cl = cl\<lparr>global_count := global_count cl + 1\<rparr>;
        req = \<lparr>req_id = global_count cl, req_opcode = opcode, req_result = result,
          req_data = (if data_size > 0 then data else None), req_error_code = 0, req_status = LWFS_SENDING_REQUEST,
          xdr_encode_args = None, xdr_decode_result = None, args_eq_h = 0, data_eq_h = 0, short_res_eq_h = 0\<rparr>;
        header = zero_request_header\<lparr>rq_opcode := opcode\<rparr>;
        (rc, header, req, cl) = post_data_md C data (ucast data_size) header req cl in
      if rc \<noteq> LWFS_OK then Some (rc, req, cl)
      else let (rc, header, req, cl) = post_result_md C header req cl in
      if rc \<noteq> LWFS_OK then Some (rc, req, cl)
      else let short_req_len = (ucast (rma_len (req_addr svc)) :: u32) in
      if sint short_req_len < 0 then None
      else do {
        (rc, buf, header, req, cl) \<leftarrow> encode_args C args short_req_len header req cl;
        if rc \<noteq> LWFS_OK then Some (rc, req, cl)
        else let cl = cl\<lparr>requests := requests cl @ [(req_addr svc, buf)]\<rparr> in
        if put_request C \<noteq> LWFS_OK then Some (put_request C, req, cl)
        else Some (LWFS_OK, req\<lparr>req_status := LWFS_PROCESSING_REQUEST\<rparr>, cl) })"

subsection \<open>The result of a request\<close>

text \<open>After a failed decoding the memory of the result is left as it was. The result of an operation without one is not
  decoded.\<close>

definition process_result ::
  "(lwfs_rma \<Rightarrow> nat \<Rightarrow> lwfs_return_code \<times> u8 list) \<Rightarrow> bool \<Rightarrow> u8 list \<Rightarrow> ('a, 'r) lwfs_request \<Rightarrow>
     (lwfs_return_code \<times> ('a, 'r) lwfs_request) option" where
  "process_result get can_malloc buf req =
     (let req = req\<lparr>req_status := LWFS_PROCESSING_RESULT\<rparr> in
      case xdr_decode xdr_lwfs_result_header (take (unat LWFS_SHORT_RESULT_SIZE) buf) of
        None \<Rightarrow> Some (LWFS_ERR_DECODE, req)
      | Some (header, stream) \<Rightarrow>
          if rs_rc header \<noteq> 0 then Some (LWFS_OK, req\<lparr>req_status := LWFS_REQUEST_ERROR, req_error_code := rs_rc header\<rparr>)
          else let result_size = (ucast (rma_len (rs_result_addr header)) :: u32) in
          if result_size = 0 then Some (LWFS_OK, req\<lparr>req_status := LWFS_REQUEST_COMPLETE\<rparr>)
          else do {
            X \<leftarrow> xdr_decode_result req;
            old \<leftarrow> req_result req;
            if \<not> rs_fetch_result header then
              Some (case xdr_decode X stream of
                None \<Rightarrow> (LWFS_ERR_DECODE, req)
              | Some (r, _) \<Rightarrow> (LWFS_OK, req\<lparr>req_result := Some r, req_status := LWFS_REQUEST_COMPLETE\<rparr>))
            else if \<not> can_malloc then Some (LWFS_ERR_NOSPACE, req)
            else Some (case get (rs_result_addr header) (unat result_size) of (rc, bs) \<Rightarrow>
              if rc \<noteq> LWFS_OK then (LWFS_ERR_RPC, req)
              else (case xdr_decode X bs of
                  None \<Rightarrow> (LWFS_ERR_DECODE, req)
                | Some (r, _) \<Rightarrow> (LWFS_OK, req\<lparr>req_result := Some r, req_status := LWFS_REQUEST_COMPLETE\<rparr>))) })"

subsection \<open>Waiting\<close>

record wait_event =
  we_rc :: lwfs_return_code
  we_which :: int \<comment> \<open>what the poll left in \<^verbatim>\<open>which\<close>, -1 when it did not set it\<close>
  we_kind :: ptl_event_kind
  we_buf :: "u8 list"

record wait_calls =
  wait_events :: "wait_event list"
  args_events :: "ptl_event list"
  args_eq_free :: lwfs_return_code
  short_eq_free :: lwfs_return_code
  data_md_unlink :: lwfs_return_code
  data_eq_free :: lwfs_return_code
  wait_get :: "lwfs_rma \<Rightarrow> nat \<Rightarrow> lwfs_return_code \<times> u8 list"
  wait_malloc :: bool

text \<open>Waiting until the server has fetched the long arguments: the code, and whether the queue is freed.\<close>

fun await_args :: "ptl_event list \<Rightarrow> bool \<Rightarrow> bool \<Rightarrow> bool \<Rightarrow> (lwfs_return_code \<times> bool) option" where
  "await_args [] got_start got_end got_unlink = None"
| "await_args (e # es) got_start got_end got_unlink =
     (if ev_rc e \<noteq> LWFS_OK then Some (ev_rc e, False)
      else if ev_kind e \<notin> {PTL_EVENT_GET_START, PTL_EVENT_GET_END, PTL_EVENT_UNLINK} then Some (LWFS_ERR_RPC, True)
      else let got_start = (got_start \<or> ev_kind e = PTL_EVENT_GET_START);
        got_end = (got_end \<or> ev_kind e = PTL_EVENT_GET_END);
        got_unlink = (got_unlink \<or> ev_kind e = PTL_EVENT_UNLINK) in
      if got_start \<and> got_end \<and> got_unlink then Some (LWFS_OK, True) else await_args es got_start got_end got_unlink)"

definition cleanup_long_args :: "wait_calls \<Rightarrow> ('a, 'r) lwfs_request \<Rightarrow> (lwfs_return_code \<times> ('a, 'r) lwfs_request) option" where
  "cleanup_long_args W req =
     (if args_eq_h req = 0 then Some (LWFS_OK, req)
      else do {
        (rc, freed) \<leftarrow> await_args (args_events W) False False False;
        Some (if \<not> freed then (rc, req)
          else (if args_eq_free W \<noteq> LWFS_OK then LWFS_ERR_RPC else rc, req\<lparr>args_eq_h := 0\<rparr>)) })"

text \<open>Waiting for the three events of one result. A failed wait is told apart from an unexpected event.\<close>

datatype awaited = Wait_Failed int | Wait_Unexpected int | Wait_Result int "u8 list"

fun await_result :: "wait_event list \<Rightarrow> int \<Rightarrow> bool \<Rightarrow> bool \<Rightarrow> bool \<Rightarrow> awaited option" where
  "await_result [] which got_start got_end got_unlink = None"
| "await_result (e # es) which got_start got_end got_unlink =
     (let which = (if which = -1 then we_which e else which) in
      if we_rc e \<noteq> LWFS_OK then Some (Wait_Failed which)
      else if we_kind e \<notin> {PTL_EVENT_PUT_START, PTL_EVENT_PUT_END, PTL_EVENT_UNLINK} then Some (Wait_Unexpected which)
      else let got_start = (got_start \<or> we_kind e = PTL_EVENT_PUT_START);
        got_end = (got_end \<or> we_kind e = PTL_EVENT_PUT_END);
        got_unlink = (got_unlink \<or> we_kind e = PTL_EVENT_UNLINK) in
      if got_start \<and> got_end \<and> got_unlink then Some (Wait_Result which (we_buf e))
      else await_result es which got_start got_end got_unlink)"

text \<open>What is freed after the result of the request with the number \<open>i\<close>, and the report on it.\<close>

definition wait_complete ::
  "nat \<Rightarrow> ('a, 'r) lwfs_request list \<Rightarrow> lwfs_return_code \<times> int \<times> u32 option \<times> ('a, 'r) lwfs_request list" where
  "wait_complete i reqs =
     (if req_status (reqs ! i) = LWFS_REQUEST_ERROR then (LWFS_OK, int i, Some (req_error_code (reqs ! i)), reqs)
      else if req_status (reqs ! i) = LWFS_REQUEST_COMPLETE then (LWFS_OK, int i, Some 0, reqs)
      else (LWFS_ERR_RPC, int i, None, reqs))"

definition free_req_eq ::
  "wait_calls \<Rightarrow> int \<Rightarrow> ('a, 'r) lwfs_request list \<Rightarrow> (lwfs_return_code \<times> int \<times> u32 option \<times> ('a, 'r) lwfs_request list) option" where
  "free_req_eq W which reqs =
     (if which < 0 \<or> length reqs \<le> nat which then None
      else if short_eq_free W \<noteq> LWFS_OK then Some (LWFS_ERR_RPC, which, None, reqs)
      else if req_data (reqs ! nat which) \<noteq> None \<and> (data_md_unlink W \<noteq> LWFS_OK \<or> data_eq_free W \<noteq> LWFS_OK)
        then Some (LWFS_ERR_RPC, which, None, reqs)
      else Some (wait_complete (nat which) reqs))"

fun first_finished :: "nat \<Rightarrow> ('a, 'r) lwfs_request list \<Rightarrow> nat option" where
  "first_finished i [] = None"
| "first_finished i (r # rs) = (if req_status r \<noteq> LWFS_PROCESSING_REQUEST then Some i else first_finished (i + 1) rs)"

definition lwfs_waitany ::
  "wait_calls \<Rightarrow> ('a, 'r) lwfs_request list \<Rightarrow> (lwfs_return_code \<times> int \<times> u32 option \<times> ('a, 'r) lwfs_request list) option" where
  "lwfs_waitany W reqs =
     (case first_finished 0 reqs of
        Some i \<Rightarrow> Some (wait_complete i reqs)
      | None \<Rightarrow> do {
          w \<leftarrow> await_result (wait_events W) (-1) False False False;
          case w of
            Wait_Unexpected which \<Rightarrow> Some (LWFS_ERR_RPC, which, None, reqs)
          | Wait_Failed which \<Rightarrow> free_req_eq W which reqs
          | Wait_Result which buf \<Rightarrow>
              if which < 0 \<or> length reqs \<le> nat which then None
              else do {
                (rc, req) \<leftarrow> process_result (wait_get W) (wait_malloc W) buf (reqs ! nat which);
                if rc \<noteq> LWFS_OK then Some (rc, which, None, reqs[nat which := req])
                else do {
                  (rc, req) \<leftarrow> cleanup_long_args W req;
                  let reqs = reqs[nat which := req];
                  if rc \<noteq> LWFS_OK then Some (LWFS_ERR_RPC, which, None, reqs) else free_req_eq W which reqs } } })"

text \<open>Waiting for one request: the code of the wait, the code of the remote method when it was stored, the request.\<close>

definition lwfs_timedwait :: "wait_calls \<Rightarrow> ('a, 'r) lwfs_request \<Rightarrow> (lwfs_return_code \<times> u32 option \<times> ('a, 'r) lwfs_request) option" where
  "lwfs_timedwait W req = map_option (\<lambda>(rc, which, remote_rc, reqs). (rc, remote_rc, reqs ! 0)) (lwfs_waitany W [req])"

definition lwfs_wait :: "wait_calls \<Rightarrow> ('a, 'r) lwfs_request \<Rightarrow> (lwfs_return_code \<times> u32 option \<times> ('a, 'r) lwfs_request) option" where
  "lwfs_wait W req = lwfs_timedwait W req"

definition lwfs_test :: "('a, 'r) lwfs_request \<Rightarrow> lwfs_return_code" where
  "lwfs_test req = LWFS_ERR_NOTSUPP"

text \<open>The codes of the remote methods are not looked at.\<close>

fun lwfs_waitall :: "wait_calls list \<Rightarrow> ('a, 'r) lwfs_request list \<Rightarrow> (lwfs_return_code \<times> ('a, 'r) lwfs_request list) option" where
  "lwfs_waitall Ws [] = Some (LWFS_OK, [])"
| "lwfs_waitall [] (r # rs) = None"
| "lwfs_waitall (W # Ws) (r # rs) = do {
     (rc, remote_rc, r) \<leftarrow> lwfs_timedwait W r;
     if rc \<noteq> LWFS_OK then Some (rc, r # rs) else map_option (map_prod id ((#) r)) (lwfs_waitall Ws rs) }"

subsection \<open>The operations of every service\<close>

text \<open>The calls of one operation: the memory for the registration, what Portals does, and the wait.\<close>

record call_env =
  ce_mem :: ht_mem
  ce_calls :: clnt_calls
  ce_wait :: wait_calls

definition client_init ::
  "bool \<Rightarrow> ht_mem \<Rightarrow> ('a rpc_args, 'r rpc_res) rpc_client \<Rightarrow> (lwfs_return_code \<times> ('a rpc_args, 'r rpc_res) rpc_client) option" where
  "client_init can_malloc mem cl =
     (if init_flag cl then Some (LWFS_OK, cl)
      else map_option (\<lambda>(rc, reg). (LWFS_OK, cl\<lparr>encodings := reg, init_flag := True\<rparr>))
        (register_service_encodings can_malloc mem (encodings cl)))"

text \<open>A call that is waited for: the code of the first failure, of the call, the wait or the method, and the request.
  \<open>keep_waiting_rc\<close> is false for an operation that does not report a failed wait.\<close>

definition call_and_wait ::
  "call_env \<Rightarrow> bool \<Rightarrow> lwfs_service \<Rightarrow> lwfs_opcode \<Rightarrow> 'a option \<Rightarrow> 'r option \<Rightarrow> ('a, 'r) rpc_client \<Rightarrow>
     (u32 \<times> 'r option \<times> ('a, 'r) rpc_client) option" where
  "call_and_wait E keep_waiting_rc svc opcode args result cl = do {
     (rc, req, cl) \<leftarrow> lwfs_call_rpc (ce_calls E) svc opcode args None 0 result cl;
     if rc \<noteq> LWFS_OK then Some (rc_code rc, req_result req, cl)
     else do {
       (rc2, remote_rc, req) \<leftarrow> lwfs_timedwait (ce_wait E) req;
       Some (if rc2 \<noteq> LWFS_OK \<and> keep_waiting_rc then rc_code rc2 else (case remote_rc of None \<Rightarrow> 0 | Some c \<Rightarrow> c),
         req_result req, cl) } }"

text \<open>160 is the size of the header of a request in memory.\<close>

definition lwfs_get_service ::
  "call_env \<Rightarrow> lwfs_remote_pid \<Rightarrow> lwfs_service \<Rightarrow> ('a rpc_args, 'r rpc_res) rpc_client \<Rightarrow>
     (u32 \<times> lwfs_service \<times> ('a rpc_args, 'r rpc_res) rpc_client) option" where
  "lwfs_get_service E server_id result cl = do {
     (_, cl) \<leftarrow> client_init (clnt_malloc (ce_calls E)) (ce_mem E) cl;
     let target = (if nid server_id = 0 then \<lparr>nid = nid (clnt_id (ce_calls E)), pid = pid server_id\<rparr> else server_id);
     let svc = zero_service\<lparr>rpc_encode := LWFS_RPC_XDR, req_addr := zero_rma\<lparr>match_id := target,
       buffer_id := LWFS_REQ_PT_INDEX, match_bits := 0, rma_len := 160\<rparr>\<rparr>;
     (rc, res, cl) \<leftarrow> call_and_wait E True svc 1 None (Some (Service_Res result)) cl;
     res \<leftarrow> res;
     result \<leftarrow> service_res res;
     Some (rc, result, cl) }"

fun lwfs_get_services ::
  "call_env list \<Rightarrow> lwfs_remote_pid list \<Rightarrow> lwfs_service list \<Rightarrow> ('a rpc_args, 'r rpc_res) rpc_client \<Rightarrow>
     (u32 \<times> lwfs_service list \<times> ('a rpc_args, 'r rpc_res) rpc_client) option" where
  "lwfs_get_services (E # Es) (server_id # ids) (result # results) cl = do {
     (rc, svc, cl) \<leftarrow> lwfs_get_service E server_id result cl;
     if rc \<noteq> 0 then Some (rc, svc # results, cl)
     else map_option (\<lambda>(rc, svcs, cl). (rc, svc # svcs, cl)) (lwfs_get_services Es ids results cl) }"
| "lwfs_get_services Es [] results cl = Some (0, results, cl)"
| "lwfs_get_services _ _ _ cl = None"

record lwfs_core_services =
  authr_svc :: lwfs_service
  naming_svc :: lwfs_service
  storage_svc :: "lwfs_service list option"

text \<open>Loading the services of a configuration: the authorization server, the naming server, at least one storage server.\<close>

definition lwfs_load_core_services ::
  "call_env \<Rightarrow> call_env \<Rightarrow> call_env list \<Rightarrow> bool \<Rightarrow> lwfs_remote_pid \<Rightarrow> lwfs_remote_pid \<Rightarrow> lwfs_remote_pid list \<Rightarrow>
     ('a rpc_args, 'r rpc_res) rpc_client \<Rightarrow> (u32 \<times> lwfs_core_services \<times> ('a rpc_args, 'r rpc_res) rpc_client) option" where
  "lwfs_load_core_services A N Ss can_malloc authr_id naming_id ss_server_ids cl =
     (let svc = \<lparr>authr_svc = zero_service, naming_svc = zero_service, storage_svc = None\<rparr> in do {
        (rc, s, cl) \<leftarrow> lwfs_get_service A authr_id zero_service cl;
        let svc = svc\<lparr>authr_svc := s\<rparr>;
        if rc \<noteq> 0 then Some (rc, svc, cl)
        else do {
          (rc, s, cl) \<leftarrow> lwfs_get_service N naming_id zero_service cl;
          let svc = svc\<lparr>naming_svc := s\<rparr>;
          if rc \<noteq> 0 then Some (rc, svc, cl)
          else if ss_server_ids = [] then None
          else if \<not> can_malloc then Some (rc_code LWFS_ERR_NOSPACE, svc, cl)
          else do {
            (rc, ss, cl) \<leftarrow> lwfs_get_services Ss ss_server_ids (replicate (length ss_server_ids) zero_service) cl;
            Some (rc, svc\<lparr>storage_svc := Some ss\<rparr>, cl) } } })"

definition lwfs_kill ::
  "call_env \<Rightarrow> lwfs_service \<Rightarrow> ('a rpc_args, 'r rpc_res) rpc_client \<Rightarrow> (u32 \<times> ('a rpc_args, 'r rpc_res) rpc_client) option" where
  "lwfs_kill E svc cl = do {
     (_, cl) \<leftarrow> client_init (clnt_malloc (ce_calls E)) (ce_mem E) cl;
     (rc, _, cl) \<leftarrow> call_and_wait E False svc 2 None None cl;
     Some (rc, cl) }"

definition lwfs_trace_reset ::
  "call_env \<Rightarrow> lwfs_service \<Rightarrow> u32 \<Rightarrow> u8 list \<Rightarrow> u32 \<Rightarrow> ('a rpc_args, 'r rpc_res) rpc_client \<Rightarrow>
     (u32 \<times> ('a rpc_args, 'r rpc_res) rpc_client) option" where
  "lwfs_trace_reset E svc enable_flag fname ftype cl = do {
     (_, cl) \<leftarrow> client_init (clnt_malloc (ce_calls E)) (ce_mem E) cl;
     (rc, _, cl) \<leftarrow> call_and_wait E True svc 3 (Some (Trace_Reset_Args ftype fname enable_flag)) None cl;
     Some (rc, cl) }"

end
