(* ===== verification/Rpc_Exchange.thy ===== *)
theory Rpc_Exchange imports Rpc_Client begin

section \<open>A remote call is a local call\<close>

text \<open>
  Client and server together: a request travels to the server, which gets long arguments from the memory the
  client exposes; the answer travels back, and a long result is fetched from the server (\<open>rpc_exchange\<close>). When the network
  does its part, the call has the effect of the operation on the state of the server, and gives the
  client its code and its result, whichever way arguments and result are transferred.
\<close>

subsection \<open>The network\<close>

definition md_get :: "(lwfs_rma \<times> u8 list) list \<Rightarrow> lwfs_rma \<Rightarrow> nat \<Rightarrow> lwfs_return_code \<times> u8 list" where
  "md_get mds addr n = (case map_of (rev mds) addr of None \<Rightarrow> (LWFS_ERR_RPC, []) | Some bs \<Rightarrow> (LWFS_OK, take n bs))"

lemma md_get_last [simp]: "md_get (mds @ [(addr, bs)]) addr n = (LWFS_OK, take n bs)"
  by (simp add: md_get_def)

definition last_of :: "'x list \<Rightarrow> 'x option" where
  "last_of xs = (if xs = [] then None else Some (last xs))"

lemma last_of_snoc [simp]: "last_of (xs @ [x]) = Some x"
  by (simp add: last_of_def)

text \<open>The three events of a short result, whose buffer has arbitrary bytes behind it.\<close>

definition result_events :: "u8 list \<Rightarrow> wait_event list" where
  "result_events buf = map (\<lambda>k. \<lparr>we_rc = LWFS_OK, we_which = 0, we_kind = k, we_buf = buf\<rparr>)
     [PTL_EVENT_PUT_START, PTL_EVENT_PUT_END, PTL_EVENT_UNLINK]"

definition rpc_exchange ::
  "clnt_calls \<Rightarrow> ptl_calls \<Rightarrow> wait_calls \<Rightarrow> u8 list \<Rightarrow> lwfs_service \<Rightarrow> lwfs_opcode \<Rightarrow> 'a option \<Rightarrow> 'r option \<Rightarrow>
     ('a, 'r) rpc_client \<Rightarrow> ('a, 'r, 's) rpc_server \<Rightarrow>
     (lwfs_return_code \<times> u32 option \<times> 'r option \<times> ('a, 'r) rpc_client \<times> ('a, 'r, 's) rpc_server) option" where
  "rpc_exchange C P W garbage svc opcode args result cl sv = do {
     (rc, req, cl) \<leftarrow> lwfs_call_rpc C svc opcode args None 0 result cl;
     (addr, msg) \<leftarrow> last_of (requests cl);
     (rc, sv) \<leftarrow> process_request (P\<lparr>ptl_get := md_get (args_mds cl)\<rparr>) 0 0 \<lparr>thr_caller = clnt_id C, thr_req_buf = msg\<rparr> sv;
     (dest, answer) \<leftarrow> last_of (sent sv);
     (rc, remote_rc, req) \<leftarrow> lwfs_timedwait (W\<lparr>wait_events := result_events (answer @ garbage), wait_get := md_get (posted sv)\<rparr>) req;
     Some (rc, remote_rc, req_result req, cl, sv) }"

text \<open>The network does its part.\<close>

definition md_ok :: "md_calls \<Rightarrow> bool" where
  "md_ok D \<longleftrightarrow> md_get_ni D = LWFS_OK \<and> md_eq_alloc D = LWFS_OK \<and> md_me_attach D = LWFS_OK \<and> md_md_attach D = LWFS_OK"

definition clnt_ok :: "clnt_calls \<Rightarrow> bool" where
  "clnt_ok C \<longleftrightarrow> md_ok (data_calls C) \<and> md_ok (result_calls C) \<and> md_ok (args_calls C) \<and> put_request C = LWFS_OK \<and> clnt_malloc C"

definition srvr_ok :: "ptl_calls \<Rightarrow> bool" where
  "srvr_ok P \<longleftrightarrow> (\<forall>addr bs. ptl_put P addr bs = LWFS_OK) \<and> ptl_eq_alloc P = LWFS_OK \<and> ptl_me_attach P = LWFS_OK \<and>
     ptl_md_attach P = LWFS_OK \<and> await_fetch (ptl_events P) False False False = Some LWFS_OK"

definition wait_ok :: "wait_calls \<Rightarrow> bool" where
  "wait_ok W \<longleftrightarrow> await_args (args_events W) False False False = Some (LWFS_OK, True) \<and> args_eq_free W = LWFS_OK \<and>
     short_eq_free W = LWFS_OK \<and> wait_malloc W"

subsection \<open>The request\<close>

text \<open>A message carries arguments behind its header, or says where they are.\<close>

definition carries :: "(lwfs_rma \<times> u8 list) list \<Rightarrow> lwfs_request_header \<Rightarrow> u8 list \<Rightarrow> u8 list \<Rightarrow> bool" where
  "carries mds hdr as msg \<longleftrightarrow> (\<exists>hb. xdr_encode xdr_lwfs_request_header hdr = Some hb \<and> unat (rma_len (rq_args_addr hdr)) = length as \<and>
     (if rq_fetch_args hdr then msg = hb \<and> md_get mds (rq_args_addr hdr) (length as) = (LWFS_OK, as) else msg = hb @ as))"

lemma header_size: "unat (rq_id h) < 2 ^ 32 \<Longrightarrow> xdr_sizeof xdr_lwfs_request_header h = 144"
  using request_header_encodes [of h] by (auto simp: xdr_sizeof_def)

lemma header_put:
  assumes "unat (rq_id h) < 2 ^ 32" "144 \<le> cap"
  obtains hb where "xdrmem_put cap xdr_lwfs_request_header h [] = Some hb" "xdr_encode xdr_lwfs_request_header h = Some hb" "length hb = 144"
  using request_header_encodes [OF assms(1)] assms(2) by (auto simp: xdrmem_put_def)

lemma unat_small: "n < 2 ^ 64 \<Longrightarrow> unat (of_nat n :: u64) = n"
  by (simp add: unat_of_nat take_bit_nat_eq_self)

lemma int_size:
  assumes "0 \<le> sint (n :: u32)"
  shows "sint n = int (unat n)" "unat (scast n :: u64) = unat n"
proof -
  have bound: "uint n < 2 ^ 32" using uint_lt2p [of n] by simp
  then have "take_bit 32 (uint n) = uint n" by (simp add: take_bit_int_eq_self)
  then have "sint n = uint n - 2 ^ 32 * of_bool (bit (uint n) 31)"
    by (simp add: sint_uint signed_take_bit_eq_take_bit_minus)
  then have sint: "sint n = uint n" using assms bound by (cases "bit (uint n) 31") auto
  then show "sint n = int (unat n)" by simp
  have "(scast n :: u64) = ucast n" by (simp only: scast_eq ucast_eq sint)
  moreover have "unat n < 2 ^ LENGTH(32)" by (rule unsigned_less)
  then have "take_bit 64 (unat n) = unat n" by (intro take_bit_nat_eq_self) simp
  ultimately show "unat (scast n :: u64) = unat n" by (simp add: unsigned_ucast_eq)
qed

lemma encode_args_carries:
  fixes sz :: u32
  assumes C: "clnt_ok C" and reg: "registry_ok (encodings cl)"
    "first_val (registered (encodings cl) (req_opcode req)) = Some \<lparr>args_encoding = Some X, data_encoding = D, result_encoding = Some Y\<rparr>"
    and a: "xdr_encode X a = Some as" "length as < 2 ^ 32" and i: "unat (req_id req) < 2 ^ 32" and s: "144 \<le> sint sz"
  obtains buf header' req' cl' where "encode_args C (Some a) sz header req cl = Some (LWFS_OK, buf, header', req', cl')"
    "carries (args_mds cl') header' as buf"
    "header' = header\<lparr>rq_id := req_id req, rq_fetch_args := rq_fetch_args header', rq_args_addr := rq_args_addr header'\<rparr>"
    "req' = req\<lparr>xdr_encode_args := Some X, xdr_decode_result := Some Y, args_eq_h := args_eq_h req'\<rparr>"
    "requests cl' = requests cl"
proof -
  obtain reg' where look: "lwfs_lookup_xdr_encoding True (req_opcode req) (encodings cl) =
      Some (Inr \<lparr>args_encoding = Some X, data_encoding = D, result_encoding = Some Y\<rparr>, reg')"
    by (rule lookup_registered [OF reg(1), of "req_opcode req"]) (simp add: reg(2))
  have cap: "144 \<le> unat sz" using int_size(1) [of sz] s by linarith
  define rem where "rem = (scast sz :: u64) - 144"
  have "(144 :: u64) \<le> scast sz" using cap int_size(2) [of sz] s by (simp add: word_le_nat_alt)
  then have rem: "unat rem = unat sz - 144" using int_size(2) [of sz] s by (simp add: rem_def unat_sub)
  define n where "n = (of_nat (length as) :: u64)"
  have n: "unat n = length as" using a(2) by (simp add: n_def unat_small)
  have sizes: "xdr_sizeof X a = length as" "xdr_sizeof xdr_lwfs_request_header (header\<lparr>rq_id := req_id req, rq_args_addr := zero_rma\<rparr>) = 144"
    using a i by (simp_all add: xdr_sizeof_def [of X] header_size)
  note args_def = encode_args_def C [unfolded clnt_ok_def md_ok_def] look Let_def sizes
  show thesis
  proof (cases "n < rem")
    case True
    let ?h = "header\<lparr>rq_id := req_id req, rq_fetch_args := False, rq_args_addr := zero_rma\<lparr>rma_len := n\<rparr>\<rparr>"
    obtain hb where hb: "xdrmem_put (unat sz) xdr_lwfs_request_header ?h [] = Some hb" "xdr_encode xdr_lwfs_request_header ?h = Some hb" "length hb = 144"
      by (rule header_put [of ?h "unat sz"]) (use i cap in auto)
    have "length as < unat sz - 144" using True rem n by (simp add: word_less_nat_alt)
    then have put: "xdrmem_put (unat sz) X a hb = Some (hb @ as)" using a hb(3) by (simp add: xdrmem_put_def)
    show thesis
    proof (rule that)
      show "encode_args C (Some a) sz header req cl = Some (LWFS_OK, hb @ as, ?h,
          req\<lparr>xdr_encode_args := Some X, xdr_decode_result := Some Y\<rparr>, cl\<lparr>encodings := reg'\<rparr>)"
        using True hb(1) put by (simp add: args_def rem_def n_def)
      show "carries (args_mds (cl\<lparr>encodings := reg'\<rparr>)) ?h as (hb @ as)" using hb(2) n by (auto simp: carries_def)
    qed simp_all
  next
    case False
    let ?addr = "zero_rma\<lparr>match_id := clnt_id C, buffer_id := LWFS_LONG_ARGS_PT_INDEX, rma_offset := 0,
      match_bits := args_counter cl, rma_len := n\<rparr>"
    let ?h = "header\<lparr>rq_id := req_id req, rq_fetch_args := True, rq_args_addr := ?addr\<rparr>"
    obtain hb where hb: "xdrmem_put (unat sz) xdr_lwfs_request_header ?h [] = Some hb" "xdr_encode xdr_lwfs_request_header ?h = Some hb"
      by (rule header_put [of ?h "unat sz"]) (use i cap in auto)
    have "unat (ucast n :: u32) = length as" using n a(2) by (simp add: unsigned_ucast_eq take_bit_nat_eq_self)
    then have put: "xdrmem_put (unat (ucast n :: u32)) X a [] = Some as" using a by (simp add: xdrmem_put_def)
    let ?cl = "cl\<lparr>encodings := reg', args_counter := args_counter cl + 1, args_mds := args_mds cl @ [(?addr, as)]\<rparr>"
    show thesis
    proof (rule that)
      show "encode_args C (Some a) sz header req cl = Some (LWFS_OK, hb, ?h,
          req\<lparr>xdr_encode_args := Some X, xdr_decode_result := Some Y, args_eq_h := md_eq_h (args_calls C)\<rparr>, ?cl)"
        using False hb(1) put by (simp add: args_def rem_def n_def)
      show "carries (args_mds ?cl) ?h as hb" using hb(2) n by (auto simp: carries_def)
    qed simp_all
  qed
qed

text \<open>The request as it leaves the client.\<close>

lemma call_rpc_sends:
  fixes cl :: "('a, 'r) rpc_client" and svc :: lwfs_service
  assumes C: "clnt_ok C" and reg: "registry_ok (encodings cl)"
    "first_val (registered (encodings cl) opcode) = Some \<lparr>args_encoding = Some X, data_encoding = D, result_encoding = Some Y\<rparr>"
    and a: "xdr_encode X a = Some as" "length as < 2 ^ 32"
    and i: "unat (global_count cl + 1) < 2 ^ 32" and s: "144 \<le> sint (ucast (rma_len (req_addr svc)) :: u32)"
  obtains msg hdr req cl' where "lwfs_call_rpc C svc opcode (Some a) None 0 result cl = Some (LWFS_OK, req, cl')"
    "requests cl' = requests cl @ [(req_addr svc, msg)]" "carries (args_mds cl') hdr as msg"
    "rq_opcode hdr = opcode" "rq_data_addr hdr = zero_rma" "rma_len (rq_res_addr hdr) = 512" "unat (rq_id hdr) < 2 ^ 32"
    "req_status req = LWFS_PROCESSING_REQUEST" "req_result req = result" "xdr_decode_result req = Some Y" "req_data req = None"
proof -
  let ?cl0 = "cl\<lparr>global_count := global_count cl + 1, data_count := data_count cl + 1\<rparr>"
  let ?req0 = "\<lparr>req_id = global_count cl + 1, req_opcode = opcode, req_result = result, req_data = None, req_error_code = 0,
    req_status = LWFS_SENDING_REQUEST, xdr_encode_args = None, xdr_decode_result = None, args_eq_h = 0, data_eq_h = 0,
    short_res_eq_h = md_eq_h (result_calls C)\<rparr> :: ('a, 'r) lwfs_request"
  let ?addr = "zero_rma\<lparr>match_id := clnt_id C, buffer_id := LWFS_RES_PT_INDEX, rma_offset := 0,
    match_bits := scast (result_count cl + 1), rma_len := LWFS_SHORT_RESULT_SIZE\<rparr>"
  let ?hdr0 = "zero_request_header\<lparr>rq_opcode := opcode, rq_data_addr := zero_rma, rq_res_addr := ?addr\<rparr>"
  let ?cl1 = "?cl0\<lparr>result_count := result_count cl + 1, result_mds := result_mds cl @ [?addr]\<rparr>"
  note ok = C [unfolded clnt_ok_def md_ok_def]
  obtain buf hdr req' cl' where enc: "encode_args C (Some a) (ucast (rma_len (req_addr svc))) ?hdr0 ?req0 ?cl1 =
      Some (LWFS_OK, buf, hdr, req', cl')"
    and carr: "carries (args_mds cl') hdr as buf"
    and hdr: "hdr = ?hdr0\<lparr>rq_id := req_id ?req0, rq_fetch_args := rq_fetch_args hdr, rq_args_addr := rq_args_addr hdr\<rparr>"
    and req': "req' = ?req0\<lparr>xdr_encode_args := Some X, xdr_decode_result := Some Y, args_eq_h := args_eq_h req'\<rparr>"
    and sent: "requests cl' = requests ?cl1"
    by (rule encode_args_carries [OF C, of ?cl1 ?req0 X D Y a as "ucast (rma_len (req_addr svc))" ?hdr0]) (use reg a i s in simp_all)
  have "lwfs_call_rpc C svc opcode (Some a) None 0 result cl = Some (LWFS_OK, req'\<lparr>req_status := LWFS_PROCESSING_REQUEST\<rparr>,
      cl'\<lparr>requests := requests cl' @ [(req_addr svc, buf)]\<rparr>)"
    using ok s enc by (simp add: lwfs_call_rpc_def post_data_md_def post_result_md_def Let_def)
  moreover have "rq_opcode hdr = opcode" "rq_data_addr hdr = zero_rma" "rma_len (rq_res_addr hdr) = 512" "unat (rq_id hdr) < 2 ^ 32"
    by (subst hdr; use i in \<open>simp add: LWFS_SHORT_RESULT_SIZE_def\<close>)+
  moreover have "req_result req' = result" "xdr_decode_result req' = Some Y" "req_data req' = None"
    by (subst req'; simp)+
  ultimately show thesis using carr sent
    by (intro that [of "req'\<lparr>req_status := LWFS_PROCESSING_REQUEST\<rparr>" "cl'\<lparr>requests := requests cl' @ [(req_addr svc, buf)]\<rparr>" buf hdr]) simp_all
qed

subsection \<open>The server\<close>

lemma find_op_find:
  "length ops = i + n \<Longrightarrow> find_op (Some ops) i n opcode = Some (find (\<lambda>opn. op_opcode opn = opcode) (drop i ops))"
proof (induction n arbitrary: i)
  case (Suc n)
  then have "drop i ops = ops ! i # drop (i + 1) ops" by (simp add: Cons_nth_drop_Suc)
  with Suc show ?case by simp
qed simp

text \<open>The answer: header and result, or a header that says where the result is.\<close>

definition answers :: "(lwfs_rma \<times> u8 list) list \<Rightarrow> lwfs_return_code \<Rightarrow> u8 list \<Rightarrow> u8 list \<Rightarrow> bool" where
  "answers mds rc rs msg \<longleftrightarrow> (\<exists>h hb. xdr_encode xdr_lwfs_result_header h = Some hb \<and> length msg \<le> 512 \<and> rs_rc h = rc_code rc \<and>
     unat (rma_len (rs_result_addr h)) = length rs \<and>
     (if rs_fetch_result h then msg = hb \<and> md_get mds (rs_result_addr h) (length rs) = (LWFS_OK, rs) else msg = hb @ rs))"

lemma result_header_sizeof: "unat (rs_id h) < 2 ^ 32 \<Longrightarrow> xdr_sizeof xdr_lwfs_result_header h = 56"
  using result_header_encodes [of h] by (auto simp: xdr_sizeof_def)

lemma result_header_put:
  assumes "unat (rs_id h) < 2 ^ 32"
  obtains hb where "xdrmem_put 512 xdr_lwfs_result_header h [] = Some hb" "xdr_encode xdr_lwfs_result_header h = Some hb" "length hb = 56"
  using result_header_encodes [OF assms] by (auto simp: xdrmem_put_def)

lemma send_result_answers:
  fixes st :: "('a, 'r, 's) rpc_server"
  assumes P: "srvr_ok P" and i: "unat rid < 2 ^ 32" and dest: "rma_len dest = 512"
    and r: "if rc = LWFS_OK then xdr_encode Y r = Some rs else rs = []" and rs: "length rs < 2 ^ 32"
  obtains msg st' where "send_result P rid dest Y rc r st = Some (LWFS_OK, st')" "sent st' = sent st @ [(dest, msg)]"
    "answers (posted st') rc rs msg" "rpc_globals st' = rpc_globals st" "server_state st' = server_state st"
proof -
  define X where "X = (if rc \<noteq> LWFS_OK then \<lparr>xdr_encode = (\<lambda>_. Some []), xdr_decode = xdr_decode Y\<rparr> else Y)"
  have X: "xdr_encode X r = Some rs" using r by (auto simp: X_def split: if_splits)
  define n where "n = (of_nat (length rs) :: u32)"
  have n: "unat n = length rs" using rs by (simp add: n_def unat_of_nat take_bit_nat_eq_self)
  then have n64: "unat (ucast n :: u64) = length rs" using rs by (simp add: unsigned_ucast_eq take_bit_nat_eq_self)
  let ?h0 = "zero_result_header\<lparr>rs_id := rid, rs_rc := rc_code rc\<rparr>"
  have sizes: "xdr_sizeof X r = length rs" "xdr_sizeof xdr_lwfs_result_header zero_result_header = 56"
    using X by (simp_all add: xdr_sizeof_def [of X] result_header_sizeof zero_result_header_def)
  note send_def = send_result_def X_def [symmetric] Let_def sizes dest P [unfolded srvr_ok_def]
  show thesis
  proof (cases "n < 456")
    case True
    let ?h = "?h0\<lparr>rs_fetch_result := False, rs_result_addr := zero_rma\<lparr>rma_len := ucast n\<rparr>\<rparr>"
    obtain hb where hb: "xdrmem_put 512 xdr_lwfs_result_header ?h [] = Some hb" "xdr_encode xdr_lwfs_result_header ?h = Some hb" "length hb = 56"
      by (rule result_header_put [of ?h]) (use i in simp_all)
    have len: "length rs < 456" using True n by (simp add: word_less_nat_alt)
    then have put: "xdrmem_put 512 X r hb = Some (hb @ rs)" using X hb(3) by (simp add: xdrmem_put_def)
    have "unat (56 + n) = 56 + length rs" using n len by (simp add: unat_word_ariths)
    then have bytes: "result_bytes 512 (hb @ rs) (56 + n) = hb @ rs" using hb(3) by (simp add: result_bytes_def)
    show thesis
    proof (rule that)
      show "send_result P rid dest Y rc r st = Some (LWFS_OK, st\<lparr>sent := sent st @ [(dest, hb @ rs)]\<rparr>)"
        using True hb(1) put bytes by (simp add: send_def n_def)
      have "rs_rc ?h = rc_code rc" "unat (rma_len (rs_result_addr ?h)) = length rs" "\<not> rs_fetch_result ?h" using n64 by simp_all
      with hb(2,3) len show "answers (posted (st\<lparr>sent := sent st @ [(dest, hb @ rs)]\<rparr>)) rc rs (hb @ rs)"
        unfolding answers_def by (intro exI [of _ ?h] exI [of _ hb]) simp
    qed simp_all
  next
    case False
    let ?addr = "zero_rma\<lparr>match_id := ptl_my_id P, buffer_id := LWFS_LONG_RES_PT_INDEX, rma_offset := 0,
      match_bits := ucast (res_counter st), rma_len := ucast n\<rparr>"
    let ?h = "?h0\<lparr>rs_fetch_result := True, rs_result_addr := ?addr\<rparr>"
    obtain hb where hb: "xdrmem_put 512 xdr_lwfs_result_header ?h [] = Some hb" "xdr_encode xdr_lwfs_result_header ?h = Some hb" "length hb = 56"
      by (rule result_header_put [of ?h]) (use i in simp_all)
    have put: "xdrmem_put (unat n) X r [] = Some rs" using X n by (simp add: xdrmem_put_def)
    have bytes: "result_bytes 512 hb 56 = hb" using hb(3) by (simp add: result_bytes_def)
    let ?st = "st\<lparr>res_counter := res_counter st + 1, sent := sent st @ [(dest, hb)], posted := posted st @ [(?addr, rs)]\<rparr>"
    show thesis
    proof (rule that)
      show "send_result P rid dest Y rc r st = Some (LWFS_OK, ?st)"
        using False hb(1) put bytes by (simp add: send_def n_def)
      have "rs_rc ?h = rc_code rc" "unat (rma_len (rs_result_addr ?h)) = length rs" "rs_fetch_result ?h" using n64 by simp_all
      with hb(2,3) show "answers (posted ?st) rc rs hb"
        unfolding answers_def by (intro exI [of _ ?h] exI [of _ hb]) simp
    qed simp_all
  qed
qed

text \<open>An operation of a server with the procedures of a client.\<close>

definition rpc_serves ::
  "('a, 'r, 's) rpc_server \<Rightarrow> lwfs_opcode \<Rightarrow> ('a, 'r, 's) lwfs_rpc_proc \<Rightarrow> 'a xdr \<Rightarrow> nat \<Rightarrow> 'r xdr \<Rightarrow> bool" where
  "rpc_serves sv opcode f X n Y \<longleftrightarrow> (\<exists>ops opn. supported_ops sv = Some ops \<and> num_supported_ops sv = length ops \<and>
     find (\<lambda>opn. op_opcode opn = opcode) ops = Some opn \<and> op_func opn = Some f \<and> op_decode_args opn = Some X \<and>
     op_args_size opn = n \<and> op_encode_res opn = Some Y \<and> op_res_size opn \<le> 512)"

lemma process_request_answers:
  fixes sv :: "('a, 'r, 's) rpc_server"
  assumes P: "srvr_ok P" "ptl_get P = md_get mds" and sv: "rpc_serves sv (rq_opcode hdr) f X n Y" and X: "xdr_proc X"
    and carr: "carries mds hdr as msg" and a: "xdr_encode X a = Some as" "n \<le> length as"
    and hdr: "rma_len (rq_res_addr hdr) = 512" "unat (rq_id hdr) < 2 ^ 32"
    and f: "f caller a (rq_data_addr hdr) (rpc_globals sv, server_state sv) = Some (rc, r, g', s')"
    and r: "if rc = LWFS_OK then xdr_encode Y r = Some rs else rs = []" and rs: "length rs < 2 ^ 32"
  obtains answer sv' where "process_request P 0 0 \<lparr>thr_caller = caller, thr_req_buf = msg\<rparr> sv = Some (LWFS_OK, sv')"
    "sent sv' = sent sv @ [(rq_res_addr hdr, answer)]" "answers (posted sv') rc rs answer" "rpc_globals sv' = g'" "server_state sv' = s'"
proof -
  obtain ops opn where op: "supported_ops sv = Some ops" "num_supported_ops sv = length ops"
    "find (\<lambda>opn. op_opcode opn = rq_opcode hdr) ops = Some opn" "op_func opn = Some f" "op_decode_args opn = Some X"
    "op_args_size opn = n" "op_encode_res opn = Some Y" "op_res_size opn \<le> 512" using sv by (auto simp: rpc_serves_def)
  have found: "find_op (supported_ops sv) 0 (num_supported_ops sv) (rq_opcode hdr) = Some (Some opn)"
    using find_op_find [of ops 0 "length ops" "rq_opcode hdr"] op(1-3) by simp
  obtain hb where hb: "xdr_encode xdr_lwfs_request_header hdr = Some hb" "unat (rma_len (rq_args_addr hdr)) = length as"
    "if rq_fetch_args hdr then msg = hb \<and> md_get mds (rq_args_addr hdr) (length as) = (LWFS_OK, as) else msg = hb @ as"
    using carr by (auto simp: carries_def)
  obtain stream where dec: "xdr_decode xdr_lwfs_request_header msg = Some (hdr, stream)" and
    args: "request_args P hdr stream X (op_zero_args opn) = (LWFS_OK, a)"
  proof (cases "rq_fetch_args hdr")
    case True
    with hb have "xdr_decode xdr_lwfs_request_header msg = Some (hdr, [])" using request_header.decode_all by simp
    with True hb P(2) xdr_proc.decode_all [OF X a(1)] show thesis
      by (intro that [of "[]"]) (simp_all add: request_args_def fetch_args_def)
  next
    case False
    with hb have "xdr_decode xdr_lwfs_request_header msg = Some (hdr, as)" using request_header.decode_encode by simp
    with False xdr_proc.decode_all [OF X a(1)] show thesis by (intro that [of as]) (simp_all add: request_args_def)
  qed
  obtain answer sv' where sent: "send_result P (rq_id hdr) (rq_res_addr hdr) Y rc r (sv\<lparr>rpc_globals := g', server_state := s'\<rparr>) = Some (LWFS_OK, sv')"
    "sent sv' = sent sv @ [(rq_res_addr hdr, answer)]" "answers (posted sv') rc rs answer" "rpc_globals sv' = g'" "server_state sv' = s'"
    by (rule send_result_answers [OF P(1) hdr(2) hdr(1) r rs, of "sv\<lparr>rpc_globals := g', server_state := s'\<rparr>"]) simp
  have "run_op P caller hdr stream opn sv = Some (LWFS_OK, sv')"
    using op a(2) hb(2) hdr(1) args f sent(1) by (simp add: run_op_def)
  then have "process_request P 0 0 \<lparr>thr_caller = caller, thr_req_buf = msg\<rparr> sv = Some (LWFS_OK, sv')"
    using dec found by (simp add: process_request_def)
  with sent that show thesis by blast
qed

subsection \<open>The result\<close>

lemma process_result_answer:
  assumes ans: "answers mds rc rs msg" and Y: "xdr_proc Y" and r: "if rc = LWFS_OK then xdr_encode Y r = Some rs else rs = []"
    and rs: "length rs < 2 ^ 32" and req: "xdr_decode_result req = Some Z" "req_result req = old" and Z: "rs \<noteq> [] \<Longrightarrow> Z = Y \<and> old \<noteq> None"
  shows "process_result (md_get mds) True (msg @ garbage) req = Some (LWFS_OK, req\<lparr>
    req_status := if rc = LWFS_OK then LWFS_REQUEST_COMPLETE else LWFS_REQUEST_ERROR,
    req_error_code := if rc = LWFS_OK then req_error_code req else rc_code rc,
    req_result := if rc = LWFS_OK \<and> rs \<noteq> [] then Some r else old\<rparr>)"
proof -
  obtain h hb where h: "xdr_encode xdr_lwfs_result_header h = Some hb" "length msg \<le> 512" "rs_rc h = rc_code rc"
    "unat (rma_len (rs_result_addr h)) = length rs"
    "if rs_fetch_result h then msg = hb \<and> md_get mds (rs_result_addr h) (length rs) = (LWFS_OK, rs) else msg = hb @ rs"
    using ans by (auto simp: answers_def)
  define stream where "stream = (if rs_fetch_result h then [] else rs) @ take (512 - length msg) garbage"
  have "take (unat LWFS_SHORT_RESULT_SIZE) (msg @ garbage) = hb @ stream"
    using h(2,5) by (auto simp: LWFS_SHORT_RESULT_SIZE_def stream_def split: if_splits)
  then have dec: "xdr_decode xdr_lwfs_result_header (take (unat LWFS_SHORT_RESULT_SIZE) (msg @ garbage)) = Some (h, stream)"
    using result_header.decode_encode [OF h(1)] by simp
  have size: "unat (ucast (rma_len (rs_result_addr h)) :: u32) = length rs"
    using h(4) rs by (simp add: unsigned_ucast_eq take_bit_nat_eq_self)
  then have zero: "(ucast (rma_len (rs_result_addr h)) :: u32) = 0 \<longleftrightarrow> rs = []" by (simp add: word_unat_eq_iff)
  have req_eq: "req\<lparr>req_status := t, req_result := old\<rparr> = req\<lparr>req_status := t\<rparr>" for t using req(2) by simp
  show ?thesis
  proof (cases "rc = LWFS_OK")
    case False
    with dec h(3) req(2) show ?thesis by (simp add: process_result_def)
  next
    case True
    then have enc: "xdr_encode Y r = Some rs" using r by simp
    show ?thesis
    proof (cases "rs = []")
      case empty: True
      with dec h(3) zero True req(2) show ?thesis by (simp add: process_result_def)
    next
      case False
      have "xdr_decode Y stream = Some (r, take (512 - length msg) garbage)" if "\<not> rs_fetch_result h"
        using that xdr_proc.decode_encode [OF Y enc] by (simp add: stream_def)
      moreover have "xdr_decode Y rs = Some (r, [])" by (rule xdr_proc.decode_all [OF Y enc])
      ultimately show ?thesis
        using True False dec h(3,5) zero size req Z by (auto simp: process_result_def split: if_splits)
    qed
  qed
qed

lemma timedwait_result:
  assumes W: "wait_ok W" and req: "req_status req = LWFS_PROCESSING_REQUEST" "req_data req = None"
    and res: "process_result get True buf req = Some (LWFS_OK, req')"
    "req_status req' = LWFS_REQUEST_COMPLETE \<or> req_status req' = LWFS_REQUEST_ERROR" "req_data req' = None"
  obtains req'' where "lwfs_timedwait (W\<lparr>wait_events := result_events buf, wait_get := get\<rparr>) req = Some (LWFS_OK,
      Some (if req_status req' = LWFS_REQUEST_ERROR then req_error_code req' else 0), req'')" "req_result req'' = req_result req'"
proof -
  let ?W = "W\<lparr>wait_events := result_events buf, wait_get := get\<rparr>"
  have "await_result (result_events buf) (- 1) False False False = Some (Wait_Result 0 buf)"
    by (simp add: result_events_def)
  moreover obtain req'' where "cleanup_long_args ?W req' = Some (LWFS_OK, req'')" "req'' = req'\<lparr>args_eq_h := args_eq_h req''\<rparr>"
    using W by (cases "args_eq_h req' = 0") (auto simp: cleanup_long_args_def wait_ok_def)
  moreover have "req_status req'' = req_status req'" "req_error_code req'' = req_error_code req'" "req_data req'' = None"
    "req_result req'' = req_result req'"
    by (subst calculation(3); simp add: res(3))+
  ultimately show thesis
    using W req res that [of req'']
    by (auto simp: lwfs_timedwait_def lwfs_waitany_def Let_def free_req_eq_def wait_complete_def wait_ok_def)
qed

subsection \<open>The exchange\<close>

lemma rpc_exchange_local:
  fixes cl :: "('a, 'r) rpc_client" and sv :: "('a, 'r, 's) rpc_server"
  assumes net: "clnt_ok C" "srvr_ok P" "wait_ok W"
    and cl: "registry_ok (encodings cl)"
      "first_val (registered (encodings cl) opcode) = Some \<lparr>args_encoding = Some X, data_encoding = D, result_encoding = Some Z\<rparr>"
      "unat (global_count cl + 1) < 2 ^ 32" "144 \<le> sint (ucast (rma_len (req_addr svc)) :: u32)"
    and sv: "rpc_serves sv opcode f X n Y" and XY: "xdr_proc X" "xdr_proc Y"
    and a: "xdr_encode X a = Some as" "n \<le> length as" "length as < 2 ^ 32"
    and f: "f (clnt_id C) a zero_rma (rpc_globals sv, server_state sv) = Some (rc, r, g', s')"
    and r: "if rc = LWFS_OK then xdr_encode Y r = Some rs else rs = []" "length rs < 2 ^ 32" and Z: "rs \<noteq> [] \<Longrightarrow> Z = Y \<and> old \<noteq> None"
  shows "\<exists>cl' sv'. rpc_exchange C P W garbage svc opcode (Some a) old cl sv =
      Some (LWFS_OK, Some (rc_code rc), if rc = LWFS_OK \<and> rs \<noteq> [] then Some r else old, cl', sv') \<and>
    rpc_globals sv' = g' \<and> server_state sv' = s'"
proof -
  obtain msg hdr req cl' where call: "lwfs_call_rpc C svc opcode (Some a) None 0 old cl = Some (LWFS_OK, req, cl')"
    "requests cl' = requests cl @ [(req_addr svc, msg)]" "carries (args_mds cl') hdr as msg"
    "rq_opcode hdr = opcode" "rq_data_addr hdr = zero_rma" "rma_len (rq_res_addr hdr) = 512" "unat (rq_id hdr) < 2 ^ 32"
    "req_status req = LWFS_PROCESSING_REQUEST" "req_result req = old" "xdr_decode_result req = Some Z" "req_data req = None"
    by (rule call_rpc_sends [OF net(1) cl(1,2) a(1,3) cl(3,4)])
  let ?P = "P\<lparr>ptl_get := md_get (args_mds cl')\<rparr>"
  have P: "srvr_ok ?P" "ptl_get ?P = md_get (args_mds cl')" using net(2) by (simp_all add: srvr_ok_def)
  obtain answer sv' where run: "process_request ?P 0 0 \<lparr>thr_caller = clnt_id C, thr_req_buf = msg\<rparr> sv = Some (LWFS_OK, sv')"
    "sent sv' = sent sv @ [(rq_res_addr hdr, answer)]" "answers (posted sv') rc rs answer" "rpc_globals sv' = g'" "server_state sv' = s'"
    by (rule process_request_answers [OF P _ XY(1) call(3) a(1,2) call(6,7) _ r, where sv = sv and f = f and caller = "clnt_id C" and g' = g' and s' = s'])
      (use sv call(4,5) f in simp_all)
  let ?req = "req\<lparr>req_status := if rc = LWFS_OK then LWFS_REQUEST_COMPLETE else LWFS_REQUEST_ERROR,
    req_error_code := if rc = LWFS_OK then req_error_code req else rc_code rc,
    req_result := if rc = LWFS_OK \<and> rs \<noteq> [] then Some r else old\<rparr>"
  have res: "process_result (md_get (posted sv')) True (answer @ garbage) req = Some (LWFS_OK, ?req)"
    by (rule process_result_answer [OF run(3) XY(2) r call(10,9) Z])
  obtain req' where "lwfs_timedwait (W\<lparr>wait_events := result_events (answer @ garbage), wait_get := md_get (posted sv')\<rparr>) req =
      Some (LWFS_OK, Some (if req_status ?req = LWFS_REQUEST_ERROR then req_error_code ?req else 0), req')"
    "req_result req' = req_result ?req"
    by (rule timedwait_result [OF net(3) call(8,11) res]) (use call(11) in auto)
  then have "rpc_exchange C P W garbage svc opcode (Some a) old cl sv =
      Some (LWFS_OK, Some (rc_code rc), if rc = LWFS_OK \<and> rs \<noteq> [] then Some r else old, cl', sv')"
    using call(1,2) run(1,2) by (auto simp: rpc_exchange_def)
  with run(4,5) show ?thesis by blast
qed

end
