(* ===== verification/Rpc_Sizes.thy ===== *)
theory Rpc_Sizes imports Rpc_Exchange begin

section \<open>Sizes of arguments and results\<close>

text \<open>
  What the operations of a service need so that a remote call is a call: the client has registered their
  procedures (\<open>registers\<close>), and the encoded arguments are at least as long as the C structure they are decoded to and shorter than
  4 GB (\<open>fits\<close>). \<open>op_exchange\<close> is the rule that the services use.
\<close>

definition xdr_lwfs_txn :: "lwfs_txn xdr" where "xdr_lwfs_txn = xdr_lwfs_obj"

definition xdr_void_result :: "'r rpc_res xdr" where
  "xdr_void_result = xdr_case (\<lambda>_. No_Res) no_res xdr_void"

fun void_answer :: "rpc_globals \<Rightarrow> lwfs_return_code \<times> 's \<Rightarrow> lwfs_return_code \<times> 'r rpc_res \<times> rpc_globals \<times> 's" where
  "void_answer g (rc, s) = (rc, No_Res, g, s)"

subsection \<open>Sizes\<close>

definition encodes :: "'a xdr \<Rightarrow> 'a \<Rightarrow> nat \<Rightarrow> bool" where
  "encodes X v n \<longleftrightarrow> (\<exists>bs. xdr_encode X v = Some bs \<and> length bs = n)"

lemma encodes_words: "encodes xdr_uint32_t v 4" "encodes xdr_uint64_t w 8" "encodes xdr_lwfs_uuid u 16" "encodes xdr_lwfs_mac m 20"
  "encodes xdr_void () 0"
  by (simp_all add: encodes_def xdr_uint32_t_def xdr_uint64_t_def xdr_lwfs_uuid_def xdr_lwfs_mac_def xdr_opaque_def xdr_void_def
      xdr_block_def)

lemma encodes_pair: "encodes A a m \<Longrightarrow> encodes B b n \<Longrightarrow> encodes (xdr_pair A B) (a, b) (m + n)"
  by (auto simp: encodes_def xdr_pair_def)

lemma encodes_struct: "encodes A (to v) n \<Longrightarrow> encodes (xdr_struct to from A) v n"
  by (simp add: encodes_def xdr_struct_def)

lemma encodes_case: "get_it v = Some x \<Longrightarrow> encodes A x n \<Longrightarrow> encodes (xdr_case mk get_it A) v n"
  by (simp add: encodes_def xdr_case_def)

lemma encodes_pointer: "(\<And>x. p = Some x \<Longrightarrow> encodes A x n) \<Longrightarrow> encodes (xdr_pointer A) p (4 + (if p = None then 0 else n))"
  by (cases p) (auto simp: encodes_def xdr_pointer_def xdr_flag_def xdr_block_def)

lemma encodes_elems: "(\<And>v. encodes A v n) \<Longrightarrow> \<exists>bs. encode_elems A vs = Some bs \<and> length bs = n * length vs"
proof (induction vs)
  case (Cons v vs)
  then obtain bs where "encode_elems A vs = Some bs" "length bs = n * length vs" by blast
  moreover obtain as where "xdr_encode A v = Some as" "length as = n" using Cons.prems [of v] by (auto simp: encodes_def)
  ultimately show ?case by simp
qed simp

lemma encodes_array: "(\<And>v. encodes A v n) \<Longrightarrow> length vs < 2 ^ 32 \<Longrightarrow> encodes (xdr_array A) vs (4 + n * length vs)"
  using encodes_elems [of A n vs] by (auto simp: encodes_def xdr_array_def xdr_uint32_t_def xdr_block_def)

lemma encodes_cred: "encodes xdr_lwfs_cred c 36"
proof -
  have "encodes xdr_lwfs_cred c (16 + 20)" unfolding xdr_lwfs_cred_def by (intro encodes_struct encodes_pair encodes_words)
  then show ?thesis by simp
qed

lemma encodes_cap: "encodes xdr_lwfs_cap c 68"
proof -
  have "encodes xdr_lwfs_cap c ((8 + (4 + 36)) + 20)"
    unfolding xdr_lwfs_cap_def xdr_lwfs_cap_data_def by (intro encodes_struct encodes_pair encodes_words encodes_cred)
  then show ?thesis by simp
qed

lemma encodes_obj: "encodes xdr_lwfs_obj b 100"
proof -
  have "encodes xdr_lwfs_rma a 44" for a using rma_encodes [of a] rma_size by (auto simp: encodes_def encoded_size_def)
  moreover have "encodes xdr_lwfs_entry_type t 4" for t by (simp add: encodes_def xdr_lwfs_entry_type_def xdr_uint32_t_def xdr_block_def)
  ultimately have "encodes xdr_lwfs_obj b ((4 + (44 + (4 + (8 + 8)))) + (4 + (8 + (16 + 4))))"
    unfolding xdr_lwfs_obj_def xdr_lwfs_service_def xdr_lwfs_rpc_encode_def by (intro encodes_struct encodes_pair encodes_words)
  then show ?thesis by simp
qed

lemma encodes_uids: "length us < 2 ^ 32 \<Longrightarrow> encodes xdr_lwfs_uid_array us (4 + 16 * length us)"
  unfolding xdr_lwfs_uid_array_def by (intro encodes_array encodes_words)

lemma encodes_caps: "length cs < 2 ^ 32 \<Longrightarrow> encodes xdr_lwfs_cap_array cs (4 + 68 * length cs)"
  unfolding xdr_lwfs_cap_array_def by (intro encodes_array encodes_cap)

definition small_list :: "'x list option \<Rightarrow> bool" where
  "small_list xs \<longleftrightarrow> (\<forall>ys. xs = Some ys \<longrightarrow> length ys < 2 ^ 20)"

lemma txn_size: "encodes (xdr_pointer xdr_lwfs_txn) t (4 + (if t = None then 0 else 100))"
  unfolding xdr_lwfs_txn_def by (intro encodes_pointer encodes_obj)

lemma cap_pointer_size: "encodes (xdr_pointer xdr_lwfs_cap) (Some cap) 72"
  using encodes_pointer [of "Some cap" xdr_lwfs_cap 68] encodes_cap by simp

lemma cred_pointer_size: "encodes (xdr_pointer xdr_lwfs_cred) (Some cr) 40"
  using encodes_pointer [of "Some cr" xdr_lwfs_cred 36] encodes_cred by simp

lemma uids_pointer_size: "small_list us \<Longrightarrow>
    encodes (xdr_pointer xdr_lwfs_uid_array) us (4 + (if us = None then 0 else 4 + 16 * length (the us)))"
  by (rule encodes_pointer) (auto simp: small_list_def intro: encodes_uids)

lemma caps_pointer_size: "length cs < 2 ^ 20 \<Longrightarrow> encodes (xdr_pointer xdr_lwfs_cap_array) (Some cs) (8 + 68 * length cs)"
  using encodes_pointer [of "Some cs" xdr_lwfs_cap_array "4 + 68 * length cs"] encodes_caps [of cs] by simp

text \<open>The encoded arguments are as long as the C structure, and short enough.\<close>

definition fits :: "'a xdr \<Rightarrow> 'a \<Rightarrow> nat \<Rightarrow> bool" where
  "fits X v n \<longleftrightarrow> (\<exists>bs. xdr_encode X v = Some bs \<and> n \<le> length bs \<and> length bs < 2 ^ 32)"

lemma encodes_fits: "encodes X v m \<Longrightarrow> n \<le> m \<Longrightarrow> m < 2 ^ 32 \<Longrightarrow> fits X v n"
  by (auto simp: encodes_def fits_def)

definition registers ::
  "('a, 'r) rpc_client \<Rightarrow> (lwfs_opcode \<times> 'a xdr option \<times> 'r xdr option) list \<Rightarrow> bool" where
  "registers cl es \<longleftrightarrow> registry_ok (encodings cl) \<and>
     (\<forall>(opcode, a, r) \<in> set es. first_val (registered (encodings cl) opcode) =
        Some \<lparr>args_encoding = a, data_encoding = None, result_encoding = r\<rparr>)"

lemma register_all_append: "register_all m mem (es @ fs) reg = register_all m mem es reg \<bind> register_all m mem fs"
  by (induction m mem es reg rule: register_all.induct) (auto split: bind_splits)

text \<open>An operation of the service whose result fits: the code, and the result when there is one.\<close>

lemma op_exchange:
  assumes net: "clnt_ok C" "srvr_ok P" "wait_ok W"
    and cl: "registers cl es" "(opcode, Some X, Some Z) \<in> set es"
      "unat (global_count cl + 1) < 2 ^ 32" "144 \<le> sint (ucast (rma_len (req_addr svc)) :: u32)"
    and sv: "rpc_serves sv opcode f X n Y" and XY: "xdr_proc X" "xdr_proc Y" and a: "fits X a n"
    and f: "f (clnt_id C) a zero_rma (rpc_globals sv, server_state sv) = Some (rc, r, g', s')"
    and r: "rc = LWFS_OK \<Longrightarrow> fits Y r m \<and> (m = 0 \<longleftrightarrow> Y = xdr_void_result)" "Y \<noteq> xdr_void_result \<Longrightarrow> Z = Y \<and> old \<noteq> None"
  shows "\<exists>cl' sv'. rpc_exchange C P W garbage svc opcode (Some a) old cl sv =
      Some (LWFS_OK, Some (rc_code rc), if rc = LWFS_OK \<and> Y \<noteq> xdr_void_result then Some r else old, cl', sv') \<and>
    rpc_globals sv' = g' \<and> server_state sv' = s'"
proof -
  obtain as where as: "xdr_encode X a = Some as" "n \<le> length as" "length as < 2 ^ 32" using a by (auto simp: fits_def)
  have reg: "registry_ok (encodings cl)"
    "first_val (registered (encodings cl) opcode) = Some \<lparr>args_encoding = Some X, data_encoding = None, result_encoding = Some Z\<rparr>"
    using cl(1,2) by (auto simp: registers_def)
  obtain rs where rs: "if rc = LWFS_OK then xdr_encode Y r = Some rs else rs = []" "length rs < 2 ^ 32"
    "rc = LWFS_OK \<Longrightarrow> rs = [] \<longleftrightarrow> Y = xdr_void_result"
  proof (cases "rc = LWFS_OK")
    case True
    with r obtain rs where rs: "xdr_encode Y r = Some rs" "m \<le> length rs" "length rs < 2 ^ 32" "m = 0 \<longleftrightarrow> Y = xdr_void_result"
      by (auto simp: fits_def)
    have "rs = []" if "Y = xdr_void_result"
      using rs(1) that by (auto simp: xdr_void_result_def xdr_case_def xdr_void_def xdr_block_def bind_eq_Some_conv)
    moreover have "Y = xdr_void_result" if "rs = []" using rs(2,4) that by simp
    ultimately have "rs = [] \<longleftrightarrow> Y = xdr_void_result" by blast
    with True rs(1,3) that show thesis by simp
  qed (use that [of "[]"] in auto)
  have "Z = Y \<and> old \<noteq> None" if "rs \<noteq> []"
    using that rs r(2) by (cases "rc = LWFS_OK") auto
  from rpc_exchange_local [OF net reg cl(3,4) sv XY as f rs(1,2) this, of garbage] rs show ?thesis
    by (cases "rc = LWFS_OK") auto
qed

lemma void_fits: "fits xdr_void_result No_Res 0"
  by (simp add: fits_def xdr_void_result_def xdr_case_def xdr_void_def xdr_block_def)

lemma result_not_void: "fits Y (App_Res r) m \<Longrightarrow> Y \<noteq> xdr_void_result"
  by (auto simp: fits_def xdr_void_result_def xdr_case_def)

end
