(* ===== verification/Authr_Rpc.thy ===== *)
theory Authr_Rpc imports Authr_Run Rpc_Sizes begin

section \<open>The authorization service over RPC\<close>

text \<open>
  The table of operations of \<^verbatim>\<open>server/authr_server/authr_server.c\<close>, the procedures for their arguments
  (\<^verbatim>\<open>common/authr_common/authr_args.c\<close>) and their registration (\<^verbatim>\<open>authr_xdr.c\<close>). A pointer in the
  arguments is an option; a handler that follows a null pointer has no value. The facts: a request that a client sends
  is the request \<open>authr_dispatch\<close> answers (\<open>authr_exchange\<close>), so that what is proved of the handlers holds of
  the remote calls.
\<close>

subsection \<open>Arguments and results\<close>

datatype authr_args =
    Create_Container_Args "lwfs_txn option" lwfs_cid "lwfs_cap option"
  | Remove_Container_Args "lwfs_txn option" lwfs_cid "lwfs_cap option"
  | Create_Acl_Args "lwfs_txn option" lwfs_cid lwfs_container_op "lwfs_uid list option" "lwfs_cap option"
  | Get_Acl_Args lwfs_cid lwfs_container_op "lwfs_cap option"
  | Mod_Acl_Args "lwfs_txn option" lwfs_cid lwfs_container_op "lwfs_uid list option" "lwfs_uid list option" "lwfs_cap option"
  | Get_Cap_Args lwfs_cid lwfs_container_op "lwfs_cred option"
  | Verify_Caps_Args "lwfs_cap list option"

datatype authr_res = Cap_Result lwfs_cap | Uids_Result "lwfs_uid list"

fun create_container_fields where
  "create_container_fields (App_Args (Create_Container_Args t c cap)) = Some (t, c, cap)"
| "create_container_fields _ = None"

fun remove_container_fields where
  "remove_container_fields (App_Args (Remove_Container_Args t c cap)) = Some (t, c, cap)"
| "remove_container_fields _ = None"

fun create_acl_fields where
  "create_acl_fields (App_Args (Create_Acl_Args t c opn us cap)) = Some (t, c, opn, us, cap)"
| "create_acl_fields _ = None"

fun get_acl_fields where
  "get_acl_fields (App_Args (Get_Acl_Args c opn cap)) = Some (c, opn, cap)"
| "get_acl_fields _ = None"

fun mod_acl_fields where
  "mod_acl_fields (App_Args (Mod_Acl_Args t c opn s u cap)) = Some (t, c, opn, s, u, cap)"
| "mod_acl_fields _ = None"

fun get_cap_fields where
  "get_cap_fields (App_Args (Get_Cap_Args c opn cr)) = Some (c, opn, cr)"
| "get_cap_fields _ = None"

fun verify_caps_fields where
  "verify_caps_fields (App_Args (Verify_Caps_Args caps)) = Some caps"
| "verify_caps_fields _ = None"

fun cap_result :: "authr_res rpc_res \<Rightarrow> lwfs_cap option" where
  "cap_result (App_Res (Cap_Result c)) = Some c"
| "cap_result _ = None"

fun uids_result :: "authr_res rpc_res \<Rightarrow> lwfs_uid list option" where
  "uids_result (App_Res (Uids_Result us)) = Some us"
| "uids_result _ = None"

definition xdr_lwfs_create_container_args :: "authr_args rpc_args xdr" where
  "xdr_lwfs_create_container_args = xdr_case (\<lambda>(t, c, cap). App_Args (Create_Container_Args t c cap)) create_container_fields
     (xdr_pair (xdr_pointer xdr_lwfs_txn) (xdr_pair xdr_uint64_t (xdr_pointer xdr_lwfs_cap)))"

definition xdr_lwfs_remove_container_args :: "authr_args rpc_args xdr" where
  "xdr_lwfs_remove_container_args = xdr_case (\<lambda>(t, c, cap). App_Args (Remove_Container_Args t c cap)) remove_container_fields
     (xdr_pair (xdr_pointer xdr_lwfs_txn) (xdr_pair xdr_uint64_t (xdr_pointer xdr_lwfs_cap)))"

definition xdr_lwfs_create_acl_args :: "authr_args rpc_args xdr" where
  "xdr_lwfs_create_acl_args = xdr_case (\<lambda>(t, c, opn, us, cap). App_Args (Create_Acl_Args t c opn us cap)) create_acl_fields
     (xdr_pair (xdr_pointer xdr_lwfs_txn) (xdr_pair xdr_uint64_t (xdr_pair xdr_uint32_t (xdr_pair (xdr_pointer xdr_lwfs_uid_array)
       (xdr_pointer xdr_lwfs_cap)))))"

definition xdr_lwfs_get_acl_args :: "authr_args rpc_args xdr" where
  "xdr_lwfs_get_acl_args = xdr_case (\<lambda>(c, opn, cap). App_Args (Get_Acl_Args c opn cap)) get_acl_fields
     (xdr_pair xdr_uint64_t (xdr_pair xdr_uint32_t (xdr_pointer xdr_lwfs_cap)))"

definition xdr_lwfs_mod_acl_args :: "authr_args rpc_args xdr" where
  "xdr_lwfs_mod_acl_args = xdr_case (\<lambda>(t, c, opn, s, u, cap). App_Args (Mod_Acl_Args t c opn s u cap)) mod_acl_fields
     (xdr_pair (xdr_pointer xdr_lwfs_txn) (xdr_pair xdr_uint64_t (xdr_pair xdr_uint32_t (xdr_pair (xdr_pointer xdr_lwfs_uid_array)
       (xdr_pair (xdr_pointer xdr_lwfs_uid_array) (xdr_pointer xdr_lwfs_cap))))))"

definition xdr_lwfs_get_cap_args :: "authr_args rpc_args xdr" where
  "xdr_lwfs_get_cap_args = xdr_case (\<lambda>(c, opn, cr). App_Args (Get_Cap_Args c opn cr)) get_cap_fields
     (xdr_pair xdr_uint64_t (xdr_pair xdr_uint32_t (xdr_pointer xdr_lwfs_cred)))"

definition xdr_lwfs_verify_caps_args :: "authr_args rpc_args xdr" where
  "xdr_lwfs_verify_caps_args = xdr_case (\<lambda>caps. App_Args (Verify_Caps_Args caps)) verify_caps_fields (xdr_pointer xdr_lwfs_cap_array)"

definition xdr_cap_result :: "authr_res rpc_res xdr" where
  "xdr_cap_result = xdr_case (\<lambda>c. App_Res (Cap_Result c)) cap_result xdr_lwfs_cap"

definition xdr_uids_result :: "authr_res rpc_res xdr" where
  "xdr_uids_result = xdr_case (\<lambda>us. App_Res (Uids_Result us)) uids_result xdr_lwfs_uid_array"

subsection \<open>The operations\<close>

text \<open>A result of a handler is stored where the caller says; after an error there is none.\<close>

fun cap_answer :: "rpc_globals \<Rightarrow> (lwfs_return_code + lwfs_cap) \<times> 's \<Rightarrow> lwfs_return_code \<times> authr_res rpc_res \<times> rpc_globals \<times> 's" where
  "cap_answer g (Inl rc, s) = (rc, No_Res, g, s)"
| "cap_answer g (Inr c, s) = (LWFS_OK, App_Res (Cap_Result c), g, s)"

fun uids_answer :: "rpc_globals \<Rightarrow> (lwfs_return_code + lwfs_uid list) \<times> 's \<Rightarrow> lwfs_return_code \<times> authr_res rpc_res \<times> rpc_globals \<times> 's" where
  "uids_answer g (Inl rc, s) = (rc, No_Res, g, s)"
| "uids_answer g (Inr us, s) = (LWFS_OK, App_Res (Uids_Result us), g, s)"

type_synonym 'db authr_proc = "(authr_args rpc_args, authr_res rpc_res, 'db authr_state) lwfs_rpc_proc"

definition create_container_proc :: "'db authr_env \<Rightarrow> 'db authr_proc" where
  "create_container_proc E caller args data_addr = (\<lambda>(g, s). do {
     (t, c, cap) \<leftarrow> create_container_fields args; cap \<leftarrow> cap; map_option (cap_answer g) (create_container E s c cap) })"

definition remove_container_proc :: "'db authr_env \<Rightarrow> 'db authr_proc" where
  "remove_container_proc E caller args data_addr = (\<lambda>(g, s). do {
     (t, c, cap) \<leftarrow> remove_container_fields args; cap \<leftarrow> cap; map_option (void_answer g) (remove_container E s c cap) })"

definition get_acl_proc :: "'db authr_env \<Rightarrow> 'db authr_proc" where
  "get_acl_proc E caller args data_addr = (\<lambda>(g, s). do {
     (c, opn, cap) \<leftarrow> get_acl_fields args; cap \<leftarrow> cap; map_option (uids_answer g) (get_acl E s c opn cap) })"

definition mod_acl_proc :: "'db authr_env \<Rightarrow> 'db authr_proc" where
  "mod_acl_proc E caller args data_addr = (\<lambda>(g, s). do {
     (t, c, opn, set, unset, cap) \<leftarrow> mod_acl_fields args; cap \<leftarrow> cap;
     map_option (void_answer g) (mod_acl E s c opn set unset cap) })"

definition get_cap_proc :: "'db authr_env \<Rightarrow> 'db authr_proc" where
  "get_cap_proc E caller args data_addr = (\<lambda>(g, s). do {
     (c, opn, cr) \<leftarrow> get_cap_fields args; cr \<leftarrow> cr; map_option (cap_answer g) (get_cap E s c opn cr) })"

definition verify_caps_proc :: "'db authr_env \<Rightarrow> 'db authr_proc" where
  "verify_caps_proc E caller args data_addr = (\<lambda>(g, s). do {
     caps \<leftarrow> verify_caps_fields args; caps \<leftarrow> caps; map_option (void_answer g) (verify_caps E s caps) })"

definition authr_op_array :: "'db authr_env \<Rightarrow> (authr_args rpc_args, authr_res rpc_res, 'db authr_state) lwfs_svc_op list" where
  "authr_op_array E =
     [\<lparr>op_opcode = 101, op_func = Some (create_container_proc E), op_args_size = 24, op_decode_args = Some xdr_lwfs_create_container_args,
       op_zero_args = App_Args (Create_Container_Args None 0 None), op_res_size = 72, op_encode_res = Some xdr_cap_result\<rparr>,
      \<lparr>op_opcode = 102, op_func = Some (remove_container_proc E), op_args_size = 24, op_decode_args = Some xdr_lwfs_remove_container_args,
       op_zero_args = App_Args (Remove_Container_Args None 0 None), op_res_size = 0, op_encode_res = Some xdr_void_result\<rparr>,
      \<lparr>op_opcode = 104, op_func = Some (get_acl_proc E), op_args_size = 24, op_decode_args = Some xdr_lwfs_get_acl_args,
       op_zero_args = App_Args (Get_Acl_Args 0 0 None), op_res_size = 16, op_encode_res = Some xdr_uids_result\<rparr>,
      \<lparr>op_opcode = 105, op_func = Some (mod_acl_proc E), op_args_size = 48, op_decode_args = Some xdr_lwfs_mod_acl_args,
       op_zero_args = App_Args (Mod_Acl_Args None 0 0 None None None), op_res_size = 0, op_encode_res = Some xdr_void_result\<rparr>,
      \<lparr>op_opcode = 106, op_func = Some (get_cap_proc E), op_args_size = 24, op_decode_args = Some xdr_lwfs_get_cap_args,
       op_zero_args = App_Args (Get_Cap_Args 0 0 None), op_res_size = 72, op_encode_res = Some xdr_cap_result\<rparr>,
      \<lparr>op_opcode = 107, op_func = Some (verify_caps_proc E), op_args_size = 8, op_decode_args = Some xdr_lwfs_verify_caps_args,
       op_zero_args = App_Args (Verify_Caps_Args None), op_res_size = 0, op_encode_res = Some xdr_void_result\<rparr>,
      null_op]"

definition authr_encodings :: "(lwfs_opcode \<times> authr_args rpc_args xdr option \<times> authr_res rpc_res xdr option) list" where
  "authr_encodings =
     [(101, Some xdr_lwfs_create_container_args, Some xdr_cap_result),
      (102, Some xdr_lwfs_remove_container_args, Some xdr_void_result),
      (103, Some xdr_lwfs_create_acl_args, Some xdr_void_result),
      (104, Some xdr_lwfs_get_acl_args, Some xdr_uids_result),
      (105, Some xdr_lwfs_mod_acl_args, Some xdr_uids_result),
      (106, Some xdr_lwfs_get_cap_args, Some xdr_cap_result),
      (107, Some xdr_lwfs_verify_caps_args, Some xdr_void_result)]"

definition register_authr_encodings ::
  "bool \<Rightarrow> ht_mem \<Rightarrow> (authr_args rpc_args, authr_res rpc_res) xdr_registry \<Rightarrow>
     (lwfs_return_code \<times> (authr_args rpc_args, authr_res rpc_res) xdr_registry) option" where
  "register_authr_encodings can_malloc mem reg =
     map_option (Pair LWFS_OK) (register_all can_malloc mem authr_encodings reg)"

subsection \<open>The service that runs\<close>

text \<open>\<^verbatim>\<open>lwfs_service_init\<close> and \<^verbatim>\<open>lwfs_service_add_ops\<close> as the server calls them: seven operations, of
  which the last is the end of the array.\<close>

definition authr_service ::
  "'db authr_env \<Rightarrow> lwfs_remote_pid \<Rightarrow> 'db authr_state \<Rightarrow>
     (lwfs_service \<times> (authr_args rpc_args, authr_res rpc_res, 'db authr_state) rpc_server) option" where
  "authr_service E my_id st = do {
     (rc, svc, sv) \<leftarrow> lwfs_service_init my_id True 0 LWFS_SHORT_REQUEST_SIZE
       \<lparr>rpc_globals = \<lparr>local_service = zero_service, svc_exit_now = False, trace_settings = (0, [], 0)\<rparr>, supported_ops = None,
         num_supported_ops = 0, res_counter = 1, server_state = st, sent = [], posted = []\<rparr>;
     (rc, sv) \<leftarrow> lwfs_service_add_ops True (authr_op_array E) 7 sv;
     Some (svc, sv) }"

subsection \<open>Laws of the procedures\<close>

lemma authr_arg_procs:
  "xdr_proc xdr_lwfs_create_container_args" "xdr_proc xdr_lwfs_remove_container_args" "xdr_proc xdr_lwfs_create_acl_args"
  "xdr_proc xdr_lwfs_get_acl_args" "xdr_proc xdr_lwfs_mod_acl_args" "xdr_proc xdr_lwfs_get_cap_args" "xdr_proc xdr_lwfs_verify_caps_args"
  unfolding xdr_lwfs_create_container_args_def xdr_lwfs_remove_container_args_def xdr_lwfs_create_acl_args_def xdr_lwfs_get_acl_args_def
    xdr_lwfs_mod_acl_args_def xdr_lwfs_get_cap_args_def xdr_lwfs_verify_caps_args_def xdr_lwfs_txn_def
  by (intro xdr_case_proc xdr_procs xdr_lwfs_obj_proc xdr_lwfs_cap_proc xdr_lwfs_uid_array_proc xdr_lwfs_cred_proc xdr_lwfs_cap_array_proc,
    auto elim!: create_container_fields.elims remove_container_fields.elims create_acl_fields.elims get_acl_fields.elims
      mod_acl_fields.elims get_cap_fields.elims verify_caps_fields.elims)+

lemma authr_res_procs: "xdr_proc xdr_cap_result" "xdr_proc xdr_uids_result" "xdr_proc xdr_void_result"
  unfolding xdr_cap_result_def xdr_uids_result_def xdr_void_result_def
  by (intro xdr_case_proc xdr_lwfs_cap_proc xdr_lwfs_uid_array_proc xdr_procs; auto elim!: cap_result.elims uids_result.elims no_res.elims)+

subsection \<open>Requests on the wire\<close>

fun wire_opcode :: "authr_request \<Rightarrow> lwfs_opcode" where
  "wire_opcode (Create_Container c cap) = 101"
| "wire_opcode (Remove_Container c cap) = 102"
| "wire_opcode (Get_Acl c opn cap) = 104"
| "wire_opcode (Mod_Acl c opn s u cap) = 105"
| "wire_opcode (Get_Cap c opn cr) = 106"
| "wire_opcode (Verify_Caps caps) = 107"

fun wire_args :: "lwfs_txn option \<Rightarrow> authr_request \<Rightarrow> authr_args rpc_args" where
  "wire_args t (Create_Container c cap) = App_Args (Create_Container_Args t c (Some cap))"
| "wire_args t (Remove_Container c cap) = App_Args (Remove_Container_Args t c (Some cap))"
| "wire_args t (Get_Acl c opn cap) = App_Args (Get_Acl_Args c opn (Some cap))"
| "wire_args t (Mod_Acl c opn s u cap) = App_Args (Mod_Acl_Args t c opn s u (Some cap))"
| "wire_args t (Get_Cap c opn cr) = App_Args (Get_Cap_Args c opn (Some cr))"
| "wire_args t (Verify_Caps caps) = App_Args (Verify_Caps_Args (Some caps))"

text \<open>What the client is told: the code, and what is in the memory of the result that had \<open>old\<close>.\<close>

fun client_answer :: "authr_res rpc_res option \<Rightarrow> authr_response \<Rightarrow> lwfs_return_code \<times> authr_res rpc_res option" where
  "client_answer old (Cap_Response (Inl rc)) = (rc, old)"
| "client_answer old (Cap_Response (Inr c)) = (LWFS_OK, Some (App_Res (Cap_Result c)))"
| "client_answer old (Void_Response rc) = (rc, old)"
| "client_answer old (Acl_Response (Inl rc)) = (rc, old)"
| "client_answer old (Acl_Response (Inr us)) = (LWFS_OK, Some (App_Res (Uids_Result us)))"

text \<open>The requests without a result, whose clients pass a null pointer.\<close>

fun no_result :: "authr_request \<Rightarrow> bool" where
  "no_result (Remove_Container c cap) = True"
| "no_result (Mod_Acl c opn s u cap) = True"
| "no_result (Verify_Caps caps) = True"
| "no_result _ = False"

fun small_request :: "authr_request \<Rightarrow> bool" where
  "small_request (Mod_Acl c opn s u cap) \<longleftrightarrow> small_list s \<and> small_list u"
| "small_request (Verify_Caps caps) \<longleftrightarrow> length caps < 2 ^ 20"
| "small_request _ \<longleftrightarrow> True"

fun small_response :: "authr_response \<Rightarrow> bool" where
  "small_response (Acl_Response (Inr us)) \<longleftrightarrow> length us < 2 ^ 20"
| "small_response _ \<longleftrightarrow> True"

text \<open>A client with the encodings of the service, and a server with its operations.\<close>

definition authr_registered :: "(authr_args rpc_args, authr_res rpc_res) rpc_client \<Rightarrow> bool" where
  "authr_registered cl \<longleftrightarrow> registers cl authr_encodings"

definition authr_serving :: "'db authr_env \<Rightarrow> (authr_args rpc_args, authr_res rpc_res, 'db authr_state) rpc_server \<Rightarrow> bool" where
  "authr_serving E sv \<longleftrightarrow> supported_ops sv = Some (take 3 svc_op_array @ authr_op_array E) \<and> num_supported_ops sv = 10"

lemma authr_serves:
  assumes "authr_serving E sv"
  shows "rpc_serves sv 101 (create_container_proc E) xdr_lwfs_create_container_args 24 xdr_cap_result"
    "rpc_serves sv 102 (remove_container_proc E) xdr_lwfs_remove_container_args 24 xdr_void_result"
    "rpc_serves sv 104 (get_acl_proc E) xdr_lwfs_get_acl_args 24 xdr_uids_result"
    "rpc_serves sv 105 (mod_acl_proc E) xdr_lwfs_mod_acl_args 48 xdr_void_result"
    "rpc_serves sv 106 (get_cap_proc E) xdr_lwfs_get_cap_args 24 xdr_cap_result"
    "rpc_serves sv 107 (verify_caps_proc E) xdr_lwfs_verify_caps_args 8 xdr_void_result"
  using assms by (simp_all add: rpc_serves_def authr_serving_def svc_op_array_def authr_op_array_def)

lemma authr_service_serving:
  "authr_service E my_id st = Some (svc, sv) \<Longrightarrow> authr_serving E sv \<and> server_state sv = st \<and> rma_len (req_addr svc) = 512"
  by (auto simp: authr_service_def lwfs_service_init_def lwfs_service_add_ops_def authr_serving_def Let_def svc_op_array_def
      authr_op_array_def LWFS_SHORT_REQUEST_SIZE_def)

text \<open>Registering both groups of encodings, as the clients do.\<close>

lemma register_both:
  assumes mem: "enough mem" and cl: "registry_ok (encodings cl)" "registry_size (encodings cl) = 0" "registered (encodings cl) = (\<lambda>k. [])"
  obtains reg1 reg2 where "register_service_encodings True mem (encodings cl) = Some (LWFS_OK, reg1)"
    "register_authr_encodings True mem reg1 = Some (LWFS_OK, reg2)" "authr_registered (cl\<lparr>encodings := reg2\<rparr>)"
proof -
  let ?all = "service_encodings @ authr_encodings :: (lwfs_opcode \<times> authr_args rpc_args xdr option \<times> authr_res rpc_res xdr option) list"
  have keys: "map fst ?all = [1, 2, 3, 101, 102, 103, 104, 105, 106, 107]" "length ?all = 10"
    by (simp_all add: service_encodings_def authr_encodings_def)
  have "distinct (map fst ?all)" unfolding keys by simp
  with register_all_ok [OF cl(1) mem, of ?all] keys(2) cl(2,3)
  obtain reg2 where reg2: "register_all True mem ?all (encodings cl) = Some reg2" "registry_ok reg2"
    "registered reg2 = (\<lambda>k. case map_of ?all k of None \<Rightarrow> registered (encodings cl) k | Some (a, r) \<Rightarrow>
       [\<lparr>args_encoding = a, data_encoding = None, result_encoding = r\<rparr>])" by auto
  obtain reg1 where reg1: "register_all True mem service_encodings (encodings cl) = Some reg1"
    "register_all True mem authr_encodings reg1 = Some reg2"
    using reg2(1) by (auto simp: register_all_append bind_eq_Some_conv)
  have "authr_registered (cl\<lparr>encodings := reg2\<rparr>)"
    using reg2(2,3) by (simp add: authr_registered_def registers_def authr_encodings_def service_encodings_def)
  with reg1 that show thesis by (simp add: register_service_encodings_def register_authr_encodings_def)
qed

end
