(* ===== verification/Authr_Exchange.thy ===== *)
theory Authr_Exchange imports Authr_Rpc begin

section \<open>Remote requests to the authorization server\<close>

text \<open>
  The composition of the client, the RPC library and the authorization server: an exchange has the effect and
  the result of \<open>authr_dispatch\<close>. From it, what the server guarantees is guaranteed to its remote
  clients.
\<close>

lemma container_args_fit:
  "fits xdr_lwfs_create_container_args (App_Args (Create_Container_Args t c (Some cap))) 24"
  "fits xdr_lwfs_remove_container_args (App_Args (Remove_Container_Args t c (Some cap))) 24"
  unfolding xdr_lwfs_create_container_args_def xdr_lwfs_remove_container_args_def
  by (rule encodes_fits [OF encodes_case, rotated 1], rule encodes_pair [OF txn_size encodes_pair [OF encodes_words(2) cap_pointer_size]],
      simp_all)+

lemma get_args_fit:
  "fits xdr_lwfs_get_acl_args (App_Args (Get_Acl_Args c opn (Some cap))) 24"
  "fits xdr_lwfs_get_cap_args (App_Args (Get_Cap_Args c opn (Some cr))) 24"
  unfolding xdr_lwfs_get_acl_args_def xdr_lwfs_get_cap_args_def
  by (rule encodes_fits [OF encodes_case, rotated 1],
      rule encodes_pair [OF encodes_words(2) encodes_pair [OF encodes_words(1) cap_pointer_size]]
        encodes_pair [OF encodes_words(2) encodes_pair [OF encodes_words(1) cred_pointer_size]], simp_all)+

lemma mod_acl_args_fit:
  assumes "small_list s" "small_list u"
  shows "fits xdr_lwfs_mod_acl_args (App_Args (Mod_Acl_Args t c opn s u (Some cap))) 48"
proof -
  have "(case s of None \<Rightarrow> 0 | Some xs \<Rightarrow> length xs) < 2 ^ 20" "(case u of None \<Rightarrow> 0 | Some xs \<Rightarrow> length xs) < 2 ^ 20"
    using assms by (auto simp: small_list_def split: option.splits)
  then show ?thesis
    unfolding xdr_lwfs_mod_acl_args_def
    by (intro encodes_fits [OF encodes_case [OF _ encodes_pair [OF txn_size encodes_pair [OF encodes_words(2) encodes_pair [OF
        encodes_words(1) encodes_pair [OF uids_pointer_size [OF assms(1)] encodes_pair [OF uids_pointer_size [OF assms(2)] cap_pointer_size]]]]]]])
      (auto split: option.splits)
qed

lemma verify_caps_args_fit:
  "length cs < 2 ^ 20 \<Longrightarrow> fits xdr_lwfs_verify_caps_args (App_Args (Verify_Caps_Args (Some cs))) 8"
  unfolding xdr_lwfs_verify_caps_args_def
  by (rule encodes_fits [where m = "8 + 68 * length cs"], rule encodes_case [where x = "Some cs"]) (simp_all add: caps_pointer_size)

lemma cap_fits: "fits xdr_cap_result (App_Res (Cap_Result c)) 68"
  unfolding xdr_cap_result_def by (rule encodes_fits [OF encodes_case [OF _ encodes_cap]]) simp_all

lemma uids_fits: "length us < 2 ^ 20 \<Longrightarrow> fits xdr_uids_result (App_Res (Uids_Result us)) 4"
  unfolding xdr_uids_result_def
  by (rule encodes_fits [where m = "4 + 16 * length us"], rule encodes_case [where x = us]) (simp_all add: encodes_uids)

lemma cap_not_void: "xdr_cap_result \<noteq> xdr_void_result" by (rule result_not_void [OF cap_fits])

lemma uids_not_void: "xdr_uids_result \<noteq> xdr_void_result" by (rule result_not_void [OF uids_fits [of "[]"]]) simp

lemmas void_neq = cap_not_void uids_not_void

subsection \<open>A remote request is a request\<close>

text \<open>A handler that fails gives an error.\<close>

lemma create_container_err: "create_container E st c cap = Some (Inl rc, st') \<Longrightarrow> rc \<noteq> LWFS_OK"
  by (auto simp: create_container_def Let_def split: option.splits prod.splits if_splits)

lemma get_cap_err: "get_cap E st c opn cr = Some (Inl rc, st') \<Longrightarrow> rc \<noteq> LWFS_OK"
  by (auto simp: get_cap_def Let_def split: option.splits prod.splits if_splits)

lemma get_acl_not_ok: "get_acl E st c opn cap = Some (Inl rc, st') \<Longrightarrow> rc \<noteq> LWFS_OK"
  by (auto simp: get_acl_def authr_db_get_acl_def Let_def split: option.splits prod.splits if_splits sum.splits)

lemma cap_answer_fits:
  assumes "\<And>rc. v = Inl rc \<Longrightarrow> rc \<noteq> LWFS_OK"
  obtains rc r where "cap_answer g (v, s) = (rc, r, g, s)" "rc = LWFS_OK \<Longrightarrow> fits xdr_cap_result r 68"
    "client_answer old (Cap_Response v) = (rc, if rc = LWFS_OK then Some r else old)"
proof (cases v)
  case (Inl rc)
  with assms that [of rc No_Res] show thesis by simp
next
  case (Inr c)
  with cap_fits that [of LWFS_OK "App_Res (Cap_Result c)"] show thesis by simp
qed

lemma uids_answer_fits:
  assumes "\<And>rc. v = Inl rc \<Longrightarrow> rc \<noteq> LWFS_OK" "small_response (Acl_Response v)"
  obtains rc r where "uids_answer g (v, s) = (rc, r, g, s)" "rc = LWFS_OK \<Longrightarrow> fits xdr_uids_result r 4"
    "client_answer old (Acl_Response v) = (rc, if rc = LWFS_OK then Some r else old)"
proof (cases v)
  case (Inl rc)
  with assms that [of rc No_Res] show thesis by simp
next
  case (Inr us)
  with assms uids_fits [of us] that [of LWFS_OK "App_Res (Uids_Result us)"] show thesis by simp
qed

lemma authr_exchange:
  assumes net: "clnt_ok C" "srvr_ok P" "wait_ok W"
    and cl: "authr_registered cl" "unat (global_count cl + 1) < 2 ^ 32" "144 \<le> sint (ucast (rma_len (req_addr svc)) :: u32)"
    and sv: "authr_serving E sv" and req: "small_request req"
    and run: "authr_dispatch E (server_state sv) req = Some (resp, st')" and resp: "small_response resp" and old: "no_result req \<or> old \<noteq> None"
  shows "\<exists>cl' sv'. rpc_exchange C P W garbage svc (wire_opcode req) (Some (wire_args t req)) old cl sv =
      Some (LWFS_OK, Some (rc_code (fst (client_answer old resp))), snd (client_answer old resp), cl', sv') \<and>
    rpc_globals sv' = rpc_globals sv \<and> server_state sv' = st'"
proof -
  note rpc_serves = authr_serves [OF sv] and op = op_exchange [OF net cl(1) [unfolded authr_registered_def] _ cl(2,3)]
  let ?g = "rpc_globals sv" and ?s = "server_state sv"
  show ?thesis
  proof (cases req)
    case (Create_Container c cap)
    with run obtain v where v: "create_container E ?s c cap = Some (v, st')" "resp = Cap_Response v" by auto
    then have f: "create_container_proc E (clnt_id C) (wire_args t req) zero_rma (?g, ?s) = Some (cap_answer ?g (v, st'))"
      by (simp add: create_container_proc_def Create_Container)
    obtain rc r where r: "cap_answer ?g (v, st') = (rc, r, ?g, st')" "rc = LWFS_OK \<Longrightarrow> fits xdr_cap_result r 68"
      "client_answer old resp = (rc, if rc = LWFS_OK then Some r else old)"
      by (rule cap_answer_fits [of v ?g st' old]) (use v create_container_err in \<open>blast, simp\<close>)
    have "fits xdr_lwfs_create_container_args (wire_args t req) 24" by (simp add: Create_Container container_args_fit)
    from op [OF _ rpc_serves(1) authr_arg_procs(1) authr_res_procs(1) this f [unfolded r(1)], of xdr_cap_result 68 old garbage] r(2,3) old
    show ?thesis by (simp add: authr_encodings_def void_neq Create_Container)
  next
    case (Remove_Container c cap)
    with run obtain rc where v: "remove_container E ?s c cap = Some (rc, st')" "resp = Void_Response rc" by auto
    then have f: "remove_container_proc E (clnt_id C) (wire_args t req) zero_rma (?g, ?s) = Some (rc, No_Res, ?g, st')"
      by (simp add: remove_container_proc_def Remove_Container)
    have "fits xdr_lwfs_remove_container_args (wire_args t req) 24" by (simp add: Remove_Container container_args_fit)
    from op [OF _ rpc_serves(2) authr_arg_procs(2) authr_res_procs(3) this f, of xdr_void_result 0 old garbage]
    show ?thesis by (simp add: authr_encodings_def void_fits Remove_Container v)
  next
    case (Get_Acl c opn cap)
    with run obtain v where v: "get_acl E ?s c opn cap = Some (v, st')" "resp = Acl_Response v" by auto
    then have f: "get_acl_proc E (clnt_id C) (wire_args t req) zero_rma (?g, ?s) = Some (uids_answer ?g (v, st'))"
      by (simp add: get_acl_proc_def Get_Acl)
    obtain rc r where r: "uids_answer ?g (v, st') = (rc, r, ?g, st')" "rc = LWFS_OK \<Longrightarrow> fits xdr_uids_result r 4"
      "client_answer old resp = (rc, if rc = LWFS_OK then Some r else old)"
      by (rule uids_answer_fits [of v ?g st' old]) (use v get_acl_not_ok resp in \<open>blast, simp, simp\<close>)
    have "fits xdr_lwfs_get_acl_args (wire_args t req) 24" by (simp add: Get_Acl get_args_fit)
    from op [OF _ rpc_serves(3) authr_arg_procs(4) authr_res_procs(2) this f [unfolded r(1)], of xdr_uids_result 4 old garbage] r(2,3) old
    show ?thesis by (simp add: authr_encodings_def void_neq Get_Acl)
  next
    case (Mod_Acl c opn s u cap)
    with run obtain rc where v: "mod_acl E ?s c opn s u cap = Some (rc, st')" "resp = Void_Response rc" by auto
    then have f: "mod_acl_proc E (clnt_id C) (wire_args t req) zero_rma (?g, ?s) = Some (rc, No_Res, ?g, st')"
      by (simp add: mod_acl_proc_def Mod_Acl)
    have "fits xdr_lwfs_mod_acl_args (wire_args t req) 48" using req by (simp add: Mod_Acl mod_acl_args_fit)
    from op [OF _ rpc_serves(4) authr_arg_procs(5) authr_res_procs(3) this f, of xdr_uids_result 0 old garbage]
    show ?thesis by (simp add: authr_encodings_def void_fits Mod_Acl v)
  next
    case (Get_Cap c opn cr)
    with run obtain v where v: "get_cap E ?s c opn cr = Some (v, st')" "resp = Cap_Response v" by auto
    then have f: "get_cap_proc E (clnt_id C) (wire_args t req) zero_rma (?g, ?s) = Some (cap_answer ?g (v, st'))"
      by (simp add: get_cap_proc_def Get_Cap)
    obtain rc r where r: "cap_answer ?g (v, st') = (rc, r, ?g, st')" "rc = LWFS_OK \<Longrightarrow> fits xdr_cap_result r 68"
      "client_answer old resp = (rc, if rc = LWFS_OK then Some r else old)"
      by (rule cap_answer_fits [of v ?g st' old]) (use v get_cap_err in \<open>blast, simp\<close>)
    have "fits xdr_lwfs_get_cap_args (wire_args t req) 24" by (simp add: Get_Cap get_args_fit)
    from op [OF _ rpc_serves(5) authr_arg_procs(6) authr_res_procs(1) this f [unfolded r(1)], of xdr_cap_result 68 old garbage] r(2,3) old
    show ?thesis by (simp add: authr_encodings_def void_neq Get_Cap)
  next
    case (Verify_Caps caps)
    with run obtain rc where v: "verify_caps E ?s caps = Some (rc, st')" "resp = Void_Response rc" by auto
    then have f: "verify_caps_proc E (clnt_id C) (wire_args t req) zero_rma (?g, ?s) = Some (rc, No_Res, ?g, st')"
      by (simp add: verify_caps_proc_def Verify_Caps)
    have "fits xdr_lwfs_verify_caps_args (wire_args t req) 8" using req by (simp add: Verify_Caps verify_caps_args_fit)
    from op [OF _ rpc_serves(6) authr_arg_procs(7) authr_res_procs(3) this f, of xdr_void_result 0 old garbage]
    show ?thesis by (simp add: authr_encodings_def void_fits Verify_Caps v)
  qed
qed

end
