(* ===== verification/Authr_Client.thy ===== *)
theory Authr_Client imports Authr_Rpc begin

section \<open>The client of the authorization service\<close>

text \<open>
  \<^verbatim>\<open>client/authr_client/authr_client.c\<close> and \<^verbatim>\<open>authr_client_sync.c\<close>: the requests, and the cache of verified
  capabilities under their MACs. \<open>None\<close> is a call without a defined return, such as the use of a cache that could not be
  made. The facts: in every state of a client the cache has only capabilities that the server has accepted
  in an earlier request, and a capability in the cache is accepted without a request.
\<close>

record authr_client =
  clnt :: "(authr_args rpc_args, authr_res rpc_res) rpc_client"
  authr_init_flag :: bool
  verify_caps_flag :: bool \<comment> \<open>\<^verbatim>\<open>_verify_caps\<close>\<close>
  cache_caps :: bool
  cache_ht :: "(lwfs_mac, lwfs_cap) hashtable option"

type_synonym authr_req = "(authr_args rpc_args, authr_res rpc_res) lwfs_request"

text \<open>What the client starts from.\<close>

definition fresh_client :: authr_client where
  "fresh_client = \<lparr>clnt = \<lparr>encodings = empty_registry, global_count = 0, data_count = 0, result_count = 0, args_counter = 1, args_mds = [],
     data_mds = [], result_mds = [], requests = [], init_flag = False\<rparr>, authr_init_flag = False, verify_caps_flag = True,
     cache_caps = False, cache_ht = None\<rparr>"

definition cap_hashfromkey :: "lwfs_mac \<Rightarrow> u32" where
  "cap_hashfromkey key = RSHash (le_bytes 20 key)"

definition cap_equalkeys :: "lwfs_mac \<Rightarrow> lwfs_mac \<Rightarrow> bool" where
  "cap_equalkeys k1 k2 \<longleftrightarrow> k1 = k2"

definition authr_client_init :: "bool \<Rightarrow> ht_mem \<Rightarrow> authr_client \<Rightarrow> authr_client option" where
  "authr_client_init can_malloc mem cl =
     (if authr_init_flag cl then Some cl
      else let reg = snd (lwfs_xdr_init can_malloc (encodings (clnt cl))) in do {
        (rc, reg) \<leftarrow> register_authr_encodings can_malloc mem reg;
        Some (cl\<lparr>clnt := (clnt cl)\<lparr>encodings := reg\<rparr>, authr_init_flag := True\<rparr>) })"

definition set_verify_caps_flag :: "bool \<Rightarrow> authr_client \<Rightarrow> lwfs_return_code \<times> authr_client" where
  "set_verify_caps_flag flag cl = (LWFS_OK, cl\<lparr>verify_caps_flag := flag\<rparr>)"

definition get_verify_caps_flag :: "authr_client \<Rightarrow> bool" where
  "get_verify_caps_flag cl = verify_caps_flag cl"

text \<open>The flag is set before the table is made, and stays when that fails.\<close>

definition lwfs_cache_caps_init :: "bool \<Rightarrow> ht_mem \<Rightarrow> bool \<Rightarrow> authr_client \<Rightarrow> (lwfs_return_code \<times> authr_client) option" where
  "lwfs_cache_caps_init can_malloc mem table_malloc cl = do {
     cl \<leftarrow> authr_client_init can_malloc mem cl;
     Some (if cache_caps cl then (LWFS_OK, cl)
       else let ht = create_hashtable table_malloc 1024 cap_hashfromkey cap_equalkeys in
         (if ht = None then LWFS_ERR_NOSPACE else LWFS_OK, cl\<lparr>cache_caps := True, cache_ht := ht\<rparr>)) }"

definition lwfs_cache_caps_fini :: "authr_client \<Rightarrow> (lwfs_return_code \<times> authr_client) option" where
  "lwfs_cache_caps_fini cl =
     (if \<not> cache_caps cl then Some (LWFS_OK, cl)
      else map_option (\<lambda>h. (LWFS_OK, cl\<lparr>cache_caps := False, cache_ht := None\<rparr>)) (cache_ht cl))"

subsection \<open>Requests\<close>

record authr_calls =
  ac_malloc :: bool
  ac_mem :: ht_mem
  ac_rpc :: clnt_calls

text \<open>A request: the client is initialised, and the arguments are sent.\<close>

definition authr_call ::
  "authr_calls \<Rightarrow> lwfs_service \<Rightarrow> lwfs_opcode \<Rightarrow> authr_args rpc_args \<Rightarrow> authr_res rpc_res option \<Rightarrow> authr_client \<Rightarrow>
     (lwfs_return_code \<times> authr_req \<times> authr_client) option" where
  "authr_call A svc opcode args result cl = do {
     cl \<leftarrow> authr_client_init (ac_malloc A) (ac_mem A) cl;
     (rc, req, c) \<leftarrow> lwfs_call_rpc (ac_rpc A) svc opcode (Some args) None 0 result (clnt cl);
     Some (rc, req, cl\<lparr>clnt := c\<rparr>) }"

definition lwfs_create_container where
  "lwfs_create_container A svc txn_id c cap result cl =
     authr_call A svc 101 (App_Args (Create_Container_Args txn_id c cap)) (map_option (\<lambda>r. App_Res (Cap_Result r)) result) cl"

definition lwfs_remove_container where
  "lwfs_remove_container A svc txn_id c cap cl =
     authr_call A svc 102 (App_Args (Remove_Container_Args txn_id c cap)) None cl"

definition lwfs_get_acl where
  "lwfs_get_acl A svc c opn cap result cl =
     authr_call A svc 104 (App_Args (Get_Acl_Args c opn cap)) (map_option (\<lambda>us. App_Res (Uids_Result us)) result) cl"

definition lwfs_mod_acl where
  "lwfs_mod_acl A svc txn_id c opn toset unset cap cl =
     authr_call A svc 105 (App_Args (Mod_Acl_Args txn_id c opn toset unset cap)) None cl"

definition lwfs_create_acl where
  "lwfs_create_acl A svc txn_id c opn toset cap cl = lwfs_mod_acl A svc txn_id c opn toset None cap cl"

text \<open>The first 16 bytes of the result are cleared, the size of an array of capabilities: the container, the operations and
  the first four bytes of the user id.\<close>

definition clear_cap_prefix :: "lwfs_cap \<Rightarrow> lwfs_cap" where
  "clear_cap_prefix c = c\<lparr>cap_data := (cap_data c)\<lparr>cid := 0, container_op := 0, cred := (cap_cred c)\<lparr>cred_data :=
     (cred_data (cap_cred c))\<lparr>uid := push_bit 32 (drop_bit 32 (cap_uid c))\<rparr>\<rparr>\<rparr>\<rparr>"

definition lwfs_get_cap where
  "lwfs_get_cap A svc c opn cr result cl =
     authr_call A svc 106 (App_Args (Get_Cap_Args c opn cr)) (Some (App_Res (Cap_Result (clear_cap_prefix result)))) cl"

text \<open>The synchronous operations wait for the request: the code and what is in the memory of the result.\<close>

definition authr_sync ::
  "wait_calls \<Rightarrow> (lwfs_return_code \<times> authr_req \<times> authr_client) option \<Rightarrow> (u32 \<times> authr_res rpc_res option \<times> authr_client) option" where
  "authr_sync W call = do {
     (rc, req, cl) \<leftarrow> call;
     if rc \<noteq> LWFS_OK then Some (rc_code rc, req_result req, cl)
     else do {
       (rc2, remote_rc, req) \<leftarrow> lwfs_wait W req;
       Some (if rc2 \<noteq> LWFS_OK then rc_code rc2 else (case remote_rc of None \<Rightarrow> 0 | Some c \<Rightarrow> c), req_result req, cl) } }"

definition lwfs_create_container_sync where
  "lwfs_create_container_sync A W svc txn_id c cap result cl = authr_sync W (lwfs_create_container A svc txn_id c cap result cl)"

definition lwfs_remove_container_sync where
  "lwfs_remove_container_sync A W svc txn_id c cap cl = authr_sync W (lwfs_remove_container A svc txn_id c cap cl)"

definition lwfs_create_acl_sync where
  "lwfs_create_acl_sync A W svc txn_id c opn toset cap cl = authr_sync W (lwfs_create_acl A svc txn_id c opn toset cap cl)"

definition lwfs_get_acl_sync where
  "lwfs_get_acl_sync A W svc c opn cap result cl = authr_sync W (lwfs_get_acl A svc c opn cap result cl)"

definition lwfs_mod_acl_sync where
  "lwfs_mod_acl_sync A W svc txn_id c opn toset unset cap cl = authr_sync W (lwfs_mod_acl A svc txn_id c opn toset unset cap cl)"

definition lwfs_get_cap_sync where
  "lwfs_get_cap_sync A W svc c opn cr result cl = authr_sync W (lwfs_get_cap A svc c opn cr result cl)"

subsection \<open>Verifying with the cache\<close>

text \<open>The request of the caller is untouched, only marked complete, or one that was sent.\<close>

datatype verify_req = Req_Untouched | Req_Complete | Req_Sent authr_req

text \<open>The loop over the capabilities: each is in the cache with the same data.\<close>

fun all_cached :: "(lwfs_mac, lwfs_cap) hashtable \<Rightarrow> lwfs_cap list \<Rightarrow> bool" where
  "all_cached h [] = True"
| "all_cached h (c # cs) =
     (case hashtable_search h (cap_mac c) of
        None \<Rightarrow> False
      | Some c' \<Rightarrow> if cap_data c \<noteq> cap_data c' then False else all_cached h cs)"

text \<open>Storing the capabilities, with the outcomes of the two allocations and the insertion of each.\<close>

fun cache_all ::
  "(bool \<times> bool \<times> ht_mem) list \<Rightarrow> lwfs_cap list \<Rightarrow> (lwfs_mac, lwfs_cap) hashtable \<Rightarrow>
     (lwfs_return_code \<times> (lwfs_mac, lwfs_cap) hashtable) option" where
  "cache_all ms [] h = Some (LWFS_OK, h)"
| "cache_all [] (c # cs) h = Some (LWFS_ERR_VERIFYCAP, h)"
| "cache_all ((cap_malloc, mac_malloc, mem) # ms) (c # cs) h =
     (if \<not> cap_malloc \<or> \<not> mac_malloc then Some (LWFS_ERR_VERIFYCAP, h)
      else do {
        (ok, h) \<leftarrow> hashtable_insert mem h (cap_mac c) c;
        if \<not> ok then Some (LWFS_ERR_VERIFYCAP, h) else cache_all ms cs h })"

definition lwfs_verify_caps ::
  "authr_calls \<Rightarrow> wait_calls \<Rightarrow> (bool \<times> bool \<times> ht_mem) list \<Rightarrow> lwfs_service \<Rightarrow> lwfs_cap list \<Rightarrow> authr_client \<Rightarrow>
     (u32 \<times> verify_req \<times> authr_client) option" where
  "lwfs_verify_caps A W ms svc caps cl = do {
     cl \<leftarrow> authr_client_init (ac_malloc A) (ac_mem A) cl;
     if \<not> verify_caps_flag cl then Some (0, Req_Untouched, cl)
     else if \<not> cache_caps cl then
       map_option (\<lambda>(rc, req, cl). (rc_code rc, Req_Sent req, cl)) (authr_call A svc 107 (App_Args (Verify_Caps_Args (Some caps))) None cl)
     else do {
       h \<leftarrow> cache_ht cl;
       if all_cached h caps then Some (0, Req_Complete, cl)
       else do {
         (rc, req, cl) \<leftarrow> authr_call A svc 107 (App_Args (Verify_Caps_Args (Some caps))) None cl;
         (rc2, remote_rc, req) \<leftarrow> lwfs_wait W req;
         let rc = (case remote_rc of None \<Rightarrow> rc_code rc | Some c \<Rightarrow> c);
         if rc \<noteq> 0 then Some (rc, Req_Sent req, cl)
         else if rc2 \<noteq> LWFS_OK then Some (rc_code rc2, Req_Sent req, cl)
         else map_option (\<lambda>(rc, h). (rc_code rc, Req_Sent req, cl\<lparr>cache_ht := Some h\<rparr>)) (cache_all ms caps h) } } }"

text \<open>The wait on a request that was not touched is a wait on whatever the stack held.\<close>

definition lwfs_verify_caps_sync ::
  "authr_calls \<Rightarrow> wait_calls \<Rightarrow> wait_calls \<Rightarrow> (bool \<times> bool \<times> ht_mem) list \<Rightarrow> lwfs_service \<Rightarrow> lwfs_cap list \<Rightarrow> authr_client \<Rightarrow>
     (u32 \<times> authr_client) option" where
  "lwfs_verify_caps_sync A W W2 ms svc caps cl = do {
     (rc, req, cl) \<leftarrow> lwfs_verify_caps A W ms svc caps cl;
     if rc \<noteq> 0 then Some (rc, cl)
     else (case req of
         Req_Untouched \<Rightarrow> None
       | Req_Complete \<Rightarrow> Some (0, cl)
       | Req_Sent req \<Rightarrow> do {
           (rc2, remote_rc, req) \<leftarrow> lwfs_wait W2 req;
           Some (if rc2 \<noteq> LWFS_OK then rc_code rc2 else (case remote_rc of None \<Rightarrow> 0 | Some c \<Rightarrow> c), cl) }) }"

subsection \<open>What is in the cache\<close>

text \<open>The server accepted the capabilities: the request was sent, the wait ended, and the code of the method is 0.\<close>

definition server_accepts :: "authr_calls \<Rightarrow> wait_calls \<Rightarrow> lwfs_service \<Rightarrow> lwfs_cap list \<Rightarrow> authr_client \<Rightarrow> bool" where
  "server_accepts A W svc caps cl \<longleftrightarrow> (\<exists>cl0 req cl' req'. authr_client_init (ac_malloc A) (ac_mem A) cl = Some cl0 \<and>
     authr_call A svc 107 (App_Args (Verify_Caps_Args (Some caps))) None cl0 = Some (LWFS_OK, req, cl') \<and>
     lwfs_wait W req = Some (LWFS_OK, Some 0, req'))"

definition cache_holds :: "lwfs_cap set \<Rightarrow> authr_client \<Rightarrow> bool" where
  "cache_holds V cl \<longleftrightarrow> (\<forall>h. cache_ht cl = Some h \<longrightarrow> ht_ok h \<and> (\<forall>m. \<forall>c \<in> set (ht_vals h m). cap_mac c = m \<and> c \<in> V))"

definition cache_size :: "authr_client \<Rightarrow> nat" where
  "cache_size cl = (case cache_ht cl of None \<Rightarrow> 0 | Some h \<Rightarrow> unat (entrycount h))"

lemma cap_eqI: "cap_data c = cap_data c' \<Longrightarrow> cap_mac c = cap_mac c' \<Longrightarrow> c = (c' :: lwfs_cap)"
  by (cases c; cases c') simp

lemma all_cached_holds:
  assumes "cache_holds V cl" "cache_ht cl = Some h"
  shows "all_cached h caps \<Longrightarrow> set caps \<subseteq> V"
proof (induction caps)
  case (Cons c caps)
  then obtain c' where c': "hashtable_search h (cap_mac c) = Some c'" "cap_data c = cap_data c'" "all_cached h caps"
    by (auto split: option.splits if_splits)
  have "first_val (ht_vals h (cap_mac c)) = Some c'" using c'(1) assms search_vals [of h "cap_mac c"] by (simp add: cache_holds_def)
  then have "c' \<in> set (ht_vals h (cap_mac c))" by (cases "ht_vals h (cap_mac c)") auto
  then have "cap_mac c' = cap_mac c" "c' \<in> V" using assms by (auto simp: cache_holds_def)
  with cap_eqI [OF c'(2)] Cons.IH c'(3) show ?case by simp
qed simp

lemma insert_holds:
  fixes h :: "(lwfs_mac, lwfs_cap) hashtable"
  assumes h: "ht_ok h" "\<forall>m. \<forall>c \<in> set (ht_vals h m). cap_mac c = m \<and> c \<in> V" and room: "Suc (unat (entrycount h)) < 2 ^ 32"
    and ins: "hashtable_insert mem h (cap_mac c) c = Some (ok, h')"
  shows "ht_ok h' \<and> (\<forall>m. \<forall>c' \<in> set (ht_vals h' m). cap_mac c' = m \<and> c' \<in> insert c V) \<and>
    (ok \<longrightarrow> unat (entrycount h') = Suc (unat (entrycount h)))"
proof -
  have room': "ht_room h" using room by (rule count_room)
  have "ok \<longrightarrow> unat (entrycount h') = Suc (unat (entrycount h))" using count_room(2) [OF room] ins by auto
  moreover have "set (reordered mem h xs) = set xs" for xs :: "lwfs_cap list" by (simp add: reordered_def)
  ultimately show ?thesis using insert_vals [OF h(1) room' ins] h(2) by auto
qed

lemma cache_all_holds:
  assumes "ht_ok h" "\<forall>m. \<forall>c \<in> set (ht_vals h m). cap_mac c = m \<and> c \<in> V" "unat (entrycount h) + length caps < 2 ^ 32"
    "cache_all ms caps h = Some (rc, h')"
  shows "ht_ok h' \<and> (\<forall>m. \<forall>c \<in> set (ht_vals h' m). cap_mac c = m \<and> c \<in> V \<union> set caps)"
  using assms
proof (induction ms caps h arbitrary: V rule: cache_all.induct)
  case (3 cap_malloc mac_malloc mem ms c cs h)
  show ?case
  proof (cases "cap_malloc \<and> mac_malloc")
    case True
    with "3.prems"(4) obtain ok h1 where h1: "hashtable_insert mem h (cap_mac c) c = Some (ok, h1)"
      "if ok then cache_all ms cs h1 = Some (rc, h') else h' = h1" by (auto simp: bind_eq_Some_conv split: if_splits)
    have ok1: "ht_ok h1 \<and> (\<forall>m. \<forall>c' \<in> set (ht_vals h1 m). cap_mac c' = m \<and> c' \<in> insert c V) \<and>
        (ok \<longrightarrow> unat (entrycount h1) = Suc (unat (entrycount h)))"
      using "3.prems"(3) by (intro insert_holds [OF "3.prems"(1,2) _ h1(1)]) simp
    show ?thesis
    proof (cases ok)
      case ok: True
      have "ht_ok h' \<and> (\<forall>m. \<forall>c' \<in> set (ht_vals h' m). cap_mac c' = m \<and> c' \<in> insert c V \<union> set cs)"
        using True ok h1 ok1 "3.prems"(3) by (intro "3.IH" [OF _ h1(1) refl]) auto
      then show ?thesis by simp
    qed (use h1(2) ok1 in auto)
  qed (use "3.prems" in auto)
qed auto

text \<open>A wait that succeeds reports the code of the method; one on a request that was not sent fails.\<close>

lemma wait_reports:
  fixes req :: "('a, 'b) lwfs_request"
  assumes "lwfs_wait W req = Some (rc, remote, req')"
  shows "rc = LWFS_OK \<Longrightarrow> remote \<noteq> None" "req_status req = LWFS_SENDING_REQUEST \<Longrightarrow> rc \<noteq> LWFS_OK"
proof -
  have complete: "wait_complete i reqs = (LWFS_OK, w, rem, reqs') \<Longrightarrow> rem \<noteq> None" for i w rem and reqs reqs' :: "('a, 'b) lwfs_request list"
    by (auto simp: wait_complete_def split: if_splits)
  have free: "free_req_eq W w reqs = Some (LWFS_OK, w', rem, reqs') \<Longrightarrow> rem \<noteq> None" for w w' rem and reqs reqs' :: "('a, 'b) lwfs_request list"
    by (auto simp: free_req_eq_def split: if_splits dest: complete)
  obtain w reqs' where any: "lwfs_waitany W [req] = Some (rc, w, remote, reqs')"
    using assms by (auto simp: lwfs_wait_def lwfs_timedwait_def)
  show "remote \<noteq> None" if ok: "rc = LWFS_OK"
  proof (cases "first_finished 0 [req]")
    case (Some i)
    with any ok complete show ?thesis by (auto simp: lwfs_waitany_def)
  next
    case None
    then obtain aw where aw: "await_result (wait_events W) (- 1) False False False = Some aw"
      using any by (auto simp: lwfs_waitany_def bind_eq_Some_conv)
    show ?thesis
    proof (cases aw)
      case (Wait_Failed v)
      with any ok None aw free show ?thesis by (auto simp: lwfs_waitany_def)
    next
      case (Wait_Unexpected v)
      with any ok None aw show ?thesis by (simp add: lwfs_waitany_def)
    next
      case (Wait_Result v buf)
      with any ok None aw obtain q r :: "('a, 'b) lwfs_request list" where "free_req_eq W v q = Some (LWFS_OK, w, remote, r)"
        by (auto simp: lwfs_waitany_def Let_def bind_eq_Some_conv simp del: list_update.simps split: if_splits)
      with free show ?thesis by blast
    qed
  qed
  show "req_status req = LWFS_SENDING_REQUEST \<Longrightarrow> rc \<noteq> LWFS_OK"
    using any by (auto simp: lwfs_waitany_def wait_complete_def)
qed

lemma encode_args_status:
  assumes "encode_args C args n header req cl = Some (rc, buf, header', req', cl')"
  shows "req_status req' = req_status req"
proof -
  obtain found reg where look: "lwfs_lookup_xdr_encoding (clnt_malloc C) (req_opcode req) (encodings cl) = Some (found, reg)"
    using assms by (auto simp: encode_args_def bind_eq_Some_conv)
  note def = encode_args_def look Let_def
  show ?thesis
  proof (cases found)
    case (Inl r)
    with assms show ?thesis by (simp add: def)
  next
    case (Inr e)
    show ?thesis
    proof (cases args)
      case None
      with Inr assms show ?thesis by (auto simp: def split: option.splits)
    next
      case (Some a)
      with Inr assms obtain X where "args_encoding e = Some X" by (auto simp: def bind_eq_Some_conv)
      with Inr Some assms show ?thesis by (simp add: def split: option.splits if_splits) auto
    qed
  qed
qed

lemma post_status:
  "post_data_md C data n header req cl = (rc, header', req', cl') \<Longrightarrow> req_status req' = req_status req"
  "post_result_md C header req cl = (rc, header', req', cl') \<Longrightarrow> req_status req' = req_status req"
  by (auto simp: post_data_md_def post_result_md_def Let_def split: if_splits option.splits)

lemma call_rpc_failed:
  fixes cl :: "('a, 'r) rpc_client"
  assumes call: "lwfs_call_rpc C svc opcode args data n result cl = Some (rc, req, cl')" and failed: "rc \<noteq> LWFS_OK"
  shows "req_status req = LWFS_SENDING_REQUEST"
proof -
  let ?cl = "cl\<lparr>global_count := global_count cl + 1\<rparr>" and ?h = "zero_request_header\<lparr>rq_opcode := opcode\<rparr>"
  let ?req = "\<lparr>req_id = global_count ?cl, req_opcode = opcode, req_result = result,
    req_data = (if n > 0 then data else None), req_error_code = 0, req_status = LWFS_SENDING_REQUEST,
    xdr_encode_args = None, xdr_decode_result = None, args_eq_h = 0, data_eq_h = 0, short_res_eq_h = 0\<rparr> :: ('a, 'r) lwfs_request"
  obtain rc1 h1 r1 c1 where d: "post_data_md C data (ucast n) ?h ?req ?cl = (rc1, h1, r1, c1)" by (metis prod_cases4)
  obtain rc2 h2 r2 c2 where r: "post_result_md C h1 r1 c1 = (rc2, h2, r2, c2)" by (metis prod_cases4)
  have st: "req_status r1 = LWFS_SENDING_REQUEST" "req_status r2 = LWFS_SENDING_REQUEST"
    using post_status(1) [OF d] post_status(2) [OF r] by simp_all
  note step = call [unfolded lwfs_call_rpc_def Let_def d r prod.case]
  consider "rc1 \<noteq> LWFS_OK" | "rc1 = LWFS_OK" "rc2 \<noteq> LWFS_OK" | "rc1 = LWFS_OK" "rc2 = LWFS_OK" by blast
  then show ?thesis
  proof cases
    case 3
    with step obtain rc3 buf h3 r3 c3 where e: "encode_args C args (ucast (rma_len (req_addr svc))) h2 r2 c2 = Some (rc3, buf, h3, r3, c3)"
      by (auto simp: r bind_eq_Some_conv split: if_splits)
    with 3 step failed have "req = r3" by (auto simp: r split: if_splits)
    with encode_args_status [OF e] st show ?thesis by simp
  qed (use step st in \<open>simp_all add: r\<close>)
qed

lemma call_failed_wait:
  assumes "authr_call A svc opcode args result cl = Some (rc, req, cl')" "lwfs_wait W req = Some (LWFS_OK, remote, req')"
  shows "rc = LWFS_OK"
  using assms call_rpc_failed wait_reports(2) by (fastforce simp: authr_call_def bind_eq_Some_conv)

text \<open>One call of the verification: after a success every capability was accepted by the server, now or before.\<close>

lemma verify_caps_holds:
  assumes holds: "cache_holds V cl" and room: "cache_size cl + length caps < 2 ^ 32"
    and call: "lwfs_verify_caps A W ms svc caps cl = Some (rc, req, cl')" and on: "verify_caps_flag cl" "cache_caps cl"
  defines "V' \<equiv> V \<union> (if server_accepts A W svc caps cl then set caps else {})"
  shows "cache_holds V' cl' \<and> (rc = 0 \<longrightarrow> set caps \<subseteq> V')"
proof -
  obtain cl0 where cl0: "authr_client_init (ac_malloc A) (ac_mem A) cl = Some cl0"
    using call by (auto simp: lwfs_verify_caps_def bind_eq_Some_conv)
  then have same: "verify_caps_flag cl0 = verify_caps_flag cl" "cache_caps cl0 = cache_caps cl" "cache_ht cl0 = cache_ht cl"
    by (auto simp: authr_client_init_def Let_def bind_eq_Some_conv split: if_splits)
  then obtain h where h: "cache_ht cl = Some h"
    using call cl0 on by (auto simp: lwfs_verify_caps_def bind_eq_Some_conv)
  show ?thesis
  proof (cases "all_cached h caps")
    case True
    then have "rc = 0" "cl' = cl0" using call cl0 same h on by (simp_all add: lwfs_verify_caps_def)
    with all_cached_holds [OF holds h True] holds same show ?thesis by (auto simp: cache_holds_def V'_def)
  next
    case False
    then obtain rc1 req1 cl1 rc2 remote req2 where
      sent: "authr_call A svc 107 (App_Args (Verify_Caps_Args (Some caps))) None cl0 = Some (rc1, req1, cl1)"
      and wait: "lwfs_wait W req1 = Some (rc2, remote, req2)"
      and rest: "(let c = (case remote of None \<Rightarrow> rc_code rc1 | Some c \<Rightarrow> c) in
         if c \<noteq> 0 then Some (c, Req_Sent req2, cl1) else if rc2 \<noteq> LWFS_OK then Some (rc_code rc2, Req_Sent req2, cl1)
         else map_option (\<lambda>(r, h). (rc_code r, Req_Sent req2, cl1\<lparr>cache_ht := Some h\<rparr>)) (cache_all ms caps h)) = Some (rc, req, cl')"
      using call cl0 same h on by (auto simp: lwfs_verify_caps_def bind_eq_Some_conv)
    have cl1: "cache_ht cl1 = Some h"
    proof -
      obtain cl2 where "authr_client_init (ac_malloc A) (ac_mem A) cl0 = Some cl2" "cache_ht cl1 = cache_ht cl2"
        using sent by (auto simp: authr_call_def bind_eq_Some_conv)
      with h same show ?thesis by (auto simp: authr_client_init_def Let_def bind_eq_Some_conv split: if_splits)
    qed
    have ok: "ht_ok h" "\<forall>m. \<forall>c \<in> set (ht_vals h m). cap_mac c = m \<and> c \<in> V" using holds h by (auto simp: cache_holds_def)
    show ?thesis
    proof (cases "server_accepts A W svc caps cl")
      case True
      then have acc: "rc1 = LWFS_OK" "rc2 = LWFS_OK" "remote = Some 0" using cl0 sent wait by (auto simp: server_accepts_def)
      with rest obtain r h' where "cache_all ms caps h = Some (r, h')" "cl' = cl1\<lparr>cache_ht := Some h'\<rparr>" by auto
      with cache_all_holds [OF ok _ this(1)] room h True show ?thesis by (simp add: cache_holds_def cache_size_def V'_def)
    next
      case no: False
      have failed: "rc \<noteq> 0 \<and> cl' = cl1"
      proof -
        have "rc2 \<noteq> LWFS_OK \<or> (case remote of None \<Rightarrow> rc_code rc1 | Some c \<Rightarrow> c) \<noteq> 0"
        proof (rule ccontr)
          assume "\<not> ?thesis"
          moreover have "rc2 = LWFS_OK \<Longrightarrow> remote \<noteq> None" using wait_reports [OF wait] by blast
          ultimately have "rc2 = LWFS_OK" "remote = Some 0" by auto
          moreover have "rc1 = LWFS_OK" using call_failed_wait [OF sent] wait \<open>rc2 = LWFS_OK\<close> by blast
          ultimately show False using no cl0 sent wait by (auto simp: server_accepts_def)
        qed
        with rest show ?thesis by (auto simp: Let_def split: if_splits)
      qed
      with no holds cl1 h ok show ?thesis by (simp add: cache_holds_def V'_def)
    qed
  qed
qed

end
