(* ===== verification/Rpc_Service.thy ===== *)
theory Rpc_Service imports Rpc_Server Thread_Pool begin

section \<open>The service loop\<close>

text \<open>
  \<^verbatim>\<open>lwfs_service_start\<close> of \<^verbatim>\<open>server/rpc_server/rpc_server.c\<close>: two buffers for requests are attached, then
  each request that arrives is processed at once (\<open>serve_direct\<close>) or given to the thread pool (\<open>serve_pool\<close>), until the
  service is told to stop, has had its number of requests, or fails to get an event. The events, and the
  results of the calls of Portals, are arguments; a wait without a further event does not return. An interrupted wait is an
  event with an error. The bytes of a request are taken when it arrives: that the buffer of a queue is used
  again while threads may still read it is not modelled. The facts: requests are processed in the order of arrival, and
  never more than the service is told to.
\<close>

record svc_event =
  se_rc :: lwfs_return_code
  se_kind :: ptl_event_kind
  se_ok :: bool
  se_queue :: nat
  se_initiator :: lwfs_remote_pid
  se_bytes :: "u8 list"
  se_reset :: bool \<comment> \<open>unlinking and attaching the buffer again works\<close>

record 'w svc_loop =
  sl_count :: u32 \<comment> \<open>\<^verbatim>\<open>req_count\<close>\<close>
  sl_queues :: "nat list" \<comment> \<open>\<^verbatim>\<open>queue_count\<close>\<close>
  sl_world :: 'w

definition NUM_QUEUES :: nat where "NUM_QUEUES = 2"
definition reqs_per_queue :: nat where "reqs_per_queue = 10000"

datatype svc_end = Svc_Cleanup | Svc_Return lwfs_return_code

definition event_request :: "svc_event \<Rightarrow> thr_request" where
  "event_request e = \<lparr>thr_caller = se_initiator e, thr_req_buf = se_bytes e\<rparr>"

text \<open>A request that has arrived: counted, processed, and the queue reset when it is full.\<close>

definition receive :: "(svc_event \<Rightarrow> 'w \<Rightarrow> 'w option) \<Rightarrow> svc_event \<Rightarrow> 'w svc_loop \<Rightarrow> (bool \<times> 'w svc_loop) option" where
  "receive dispatch e st =
     (if length (sl_queues st) \<le> se_queue e then None
      else let q = se_queue e; n = sl_queues st ! q + 1; st = st\<lparr>sl_count := sl_count st + 1, sl_queues := (sl_queues st)[q := n]\<rparr> in do {
        w \<leftarrow> dispatch e (sl_world st);
        let st = st\<lparr>sl_world := w\<rparr>;
        Some (if n < reqs_per_queue then (True, st)
          else if se_reset e then (True, st\<lparr>sl_queues := (sl_queues st)[q := 0]\<rparr>) else (False, st)) })"

text \<open>The check before a request: the flag, and the number of requests when it is not negative.\<close>

definition svc_done :: "('w \<Rightarrow> bool) \<Rightarrow> u32 \<Rightarrow> 'w svc_loop \<Rightarrow> bool" where
  "svc_done exit_now lim st \<longleftrightarrow> exit_now (sl_world st) \<or> (0 \<le> sint lim \<and> sint lim \<le> sint (sl_count st))"

fun service_loop ::
  "(svc_event \<Rightarrow> 'w \<Rightarrow> 'w option) \<Rightarrow> ('w \<Rightarrow> bool) \<Rightarrow> u32 \<Rightarrow> bool \<Rightarrow> svc_event list \<Rightarrow> 'w svc_loop \<Rightarrow> (svc_end \<times> 'w svc_loop) option" where
  "service_loop dispatch exit_now lim waiting [] st =
     (if \<not> waiting \<and> svc_done exit_now lim st then Some (Svc_Cleanup, st) else None)"
| "service_loop dispatch exit_now lim waiting (e # es) st =
     (if \<not> waiting \<and> svc_done exit_now lim st then Some (Svc_Cleanup, st)
      else if se_rc e \<noteq> LWFS_OK then Some (Svc_Cleanup, st)
      else if se_kind e = PTL_EVENT_PUT_START then
        (if \<not> se_ok e then Some (Svc_Return LWFS_ERR_RPC, st) else service_loop dispatch exit_now lim True es st)
      else if se_kind e = PTL_EVENT_PUT_END then
        (if \<not> se_ok e then Some (Svc_Return LWFS_ERR_RPC, st)
         else do {
           (go_on, st) \<leftarrow> receive dispatch e st;
           if go_on then service_loop dispatch exit_now lim False es st else Some (Svc_Cleanup, st) })
      else Some (Svc_Cleanup, st))"

text \<open>Making the queues: the code of the first failure.\<close>

record start_calls =
  st_eq_alloc :: lwfs_return_code
  st_queues :: "(bool \<times> lwfs_return_code \<times> lwfs_return_code) list" \<comment> \<open>memory, match entry, memory descriptor\<close>
  st_md_unlink :: "lwfs_return_code list"
  st_eq_free :: lwfs_return_code

fun attach_queues :: "(bool \<times> lwfs_return_code \<times> lwfs_return_code) list \<Rightarrow> lwfs_return_code" where
  "attach_queues [] = LWFS_OK"
| "attach_queues ((can_malloc, me, md) # qs) =
     (if \<not> can_malloc then LWFS_ERR_NOSPACE
      else if me \<noteq> LWFS_OK then me
      else if md \<noteq> LWFS_OK then md
      else attach_queues qs)"

text \<open>The end of the loop: its code is dropped.\<close>

definition service_cleanup :: "start_calls \<Rightarrow> lwfs_return_code" where
  "service_cleanup S = (if (\<exists>rc \<in> set (st_md_unlink S). rc \<noteq> LWFS_OK) \<or> st_eq_free S \<noteq> LWFS_OK then LWFS_ERR else LWFS_OK)"

definition lwfs_service_start ::
  "start_calls \<Rightarrow> (svc_event \<Rightarrow> 'w \<Rightarrow> 'w option) \<Rightarrow> ('w \<Rightarrow> bool) \<Rightarrow> lwfs_service \<Rightarrow> svc_event list \<Rightarrow> 'w \<Rightarrow>
     (lwfs_return_code \<times> 'w) option" where
  "lwfs_service_start S dispatch exit_now svc events w =
     (if st_eq_alloc S \<noteq> LWFS_OK then Some (st_eq_alloc S, w)
      else if attach_queues (take NUM_QUEUES (st_queues S)) \<noteq> LWFS_OK then Some (attach_queues (take NUM_QUEUES (st_queues S)), w)
      else do {
        (ending, st) \<leftarrow> service_loop dispatch exit_now (max_reqs svc) False events
          \<lparr>sl_count = 0, sl_queues = replicate NUM_QUEUES 0, sl_world = w\<rparr>;
        Some (case ending of Svc_Return rc \<Rightarrow> rc | Svc_Cleanup \<Rightarrow> service_cleanup S, sl_world st) })"

text \<open>Processing a request at once. Its code is only logged.\<close>

definition serve_direct ::
  "(svc_event \<Rightarrow> ptl_calls) \<Rightarrow> nat \<Rightarrow> (svc_event \<Rightarrow> nat) \<Rightarrow> svc_event \<Rightarrow> ('a, 'r, 's) rpc_server \<Rightarrow> ('a, 'r, 's) rpc_server option" where
  "serve_direct P max_mem_allowed mem_in_use e sv = map_option snd (process_request (P e) max_mem_allowed (mem_in_use e) (event_request e) sv)"

text \<open>Adding a request to the thread pool. That it could not be added is not looked at. A pool is stopped from outside of
  the loop, by the flag of the process.\<close>

definition serve_pool ::
  "(svc_event \<Rightarrow> bool) \<Rightarrow> (svc_event \<Rightarrow> spawn) \<Rightarrow> (svc_event \<Rightarrow> nat option) \<Rightarrow> svc_event \<Rightarrow> thr_request lwfs_thread_pool \<Rightarrow>
     thr_request lwfs_thread_pool option" where
  "serve_pool request_calloc sp woken e pool =
     map_option snd (lwfs_thread_pool_add_request (request_calloc e) (sp e) (event_request e) (woken e) pool)"

text \<open>Starting the service in a thread of its own: the code, and the id of the thread in the description.\<close>

definition lwfs_service_start_thread :: "int \<Rightarrow> u64 \<Rightarrow> lwfs_service \<Rightarrow> lwfs_return_code \<times> lwfs_service" where
  "lwfs_service_start_thread create_rc thread svc = (if create_rc \<noteq> 0 then LWFS_ERR_RPC else LWFS_OK, svc\<lparr>req_thread := thread\<rparr>)"

subsection \<open>What the loop does\<close>

text \<open>The requests that arrived, in order: the events that end a put.\<close>

definition arrivals :: "svc_event list \<Rightarrow> svc_event list" where
  "arrivals es = filter (\<lambda>e. se_kind e = PTL_EVENT_PUT_END) es"

fun process_all :: "(svc_event \<Rightarrow> 'w \<Rightarrow> 'w option) \<Rightarrow> svc_event list \<Rightarrow> 'w \<Rightarrow> 'w option" where
  "process_all dispatch [] w = Some w"
| "process_all dispatch (e # es) w = dispatch e w \<bind> process_all dispatch es"

lemma receive_cases:
  assumes "receive dispatch e st = Some (go_on, st')"
  shows "dispatch e (sl_world st) = Some (sl_world st')" "sl_count st' = sl_count st + 1" "length (sl_queues st') = length (sl_queues st)"
  using assms by (auto simp: receive_def Let_def bind_eq_Some_conv split: if_splits)

lemma service_loop_order:
  "service_loop dispatch exit_now lim waiting es st = Some (ending, st') \<Longrightarrow>
   \<exists>n. process_all dispatch (take n (arrivals es)) (sl_world st) = Some (sl_world st') \<and> sl_count st' = sl_count st + of_nat n \<and>
     n \<le> length (arrivals es)"
proof (induction dispatch exit_now lim waiting es st rule: service_loop.induct)
  case (2 dispatch exit_now lim waiting e es st)
  have stop: ?case if "st' = st" using that by (intro exI [of _ 0]) simp
  show ?case
  proof (cases "\<not> waiting \<and> svc_done exit_now lim st \<or> se_rc e \<noteq> LWFS_OK \<or> \<not> se_ok e \<or> se_kind e \<notin> {PTL_EVENT_PUT_START, PTL_EVENT_PUT_END}")
    case True
    with "2.prems" have "st' = st" by (auto split: if_splits)
    then show ?thesis by (rule stop)
  next
    case go: False
    show ?thesis
    proof (cases "se_kind e = PTL_EVENT_PUT_START")
      case True
      with go "2.prems" have "service_loop dispatch exit_now lim True es st = Some (ending, st')" by auto
      with "2.IH"(1) go True show ?thesis by (auto simp: arrivals_def)
    next
      case False
      with go have end_event: "se_kind e = PTL_EVENT_PUT_END" by auto
      with go "2.prems" obtain go_on st1 where r: "receive dispatch e st = Some (go_on, st1)"
        "if go_on then service_loop dispatch exit_now lim False es st1 = Some (ending, st') else st' = st1"
        by (auto simp: bind_eq_Some_conv split: if_splits)
      note rc = receive_cases [OF r(1)]
      show ?thesis
      proof (cases go_on)
        case True
        with r "2.IH"(2) [of "(go_on, st1)" go_on st1] go end_event obtain n where
          "process_all dispatch (take n (arrivals es)) (sl_world st1) = Some (sl_world st')" "sl_count st' = sl_count st1 + of_nat n"
          "n \<le> length (arrivals es)" by auto
        with rc end_event show ?thesis by (intro exI [of _ "Suc n"]) (simp add: arrivals_def add.assoc)
      next
        case False
        with r rc end_event show ?thesis by (intro exI [of _ 1]) (simp add: arrivals_def)
      qed
    qed
  qed
qed (auto split: if_splits intro: exI [of _ 0])

text \<open>The number of requests is never passed.\<close>

lemma service_loop_bound:
  "service_loop dispatch exit_now lim waiting es st = Some (ending, st') \<Longrightarrow> 0 \<le> sint lim \<Longrightarrow>
   unat (sl_count st) + of_bool waiting \<le> unat lim \<Longrightarrow> unat (sl_count st') \<le> unat lim"
proof (induction dispatch exit_now lim waiting es st rule: service_loop.induct)
  case (2 dispatch exit_now lim waiting e es st)
  have le: "unat (sl_count st) \<le> unat lim" using "2.prems"(3) by simp
  show ?case
  proof (cases "\<not> waiting \<and> svc_done exit_now lim st \<or> se_rc e \<noteq> LWFS_OK \<or> \<not> se_ok e \<or> se_kind e \<notin> {PTL_EVENT_PUT_START, PTL_EVENT_PUT_END}")
    case True
    with "2.prems" have "st' = st" by (auto split: if_splits)
    with le show ?thesis by simp
  next
    case go: False
    have less: "unat (sl_count st) < unat lim"
    proof (cases waiting)
      case False
      with go have "\<not> sint lim \<le> sint (sl_count st)" using "2.prems"(2) by (simp add: svc_done_def)
      with le show ?thesis by (metis le_neq_implies_less order_refl word_unat_eq_iff)
    qed (use "2.prems"(3) in simp)
    show ?thesis
    proof (cases "se_kind e = PTL_EVENT_PUT_START")
      case True
      with go "2.prems" have "service_loop dispatch exit_now lim True es st = Some (ending, st')" by auto
      with "2.IH"(1) go True "2.prems"(2) less show ?thesis by auto
    next
      case False
      with go have end_event: "se_kind e = PTL_EVENT_PUT_END" by auto
      with go "2.prems" obtain go_on st1 where r: "receive dispatch e st = Some (go_on, st1)"
        "if go_on then service_loop dispatch exit_now lim False es st1 = Some (ending, st') else st' = st1"
        by (auto simp: bind_eq_Some_conv split: if_splits)
      have "sl_count st + 1 \<noteq> 0"
      proof
        assume "sl_count st + 1 = 0"
        then have "sl_count st = -1" by (simp add: eq_neg_iff_add_eq_0)
        then have "unat lim \<le> unat (sl_count st)" by (simp only: word_le_nat_alt [symmetric] word_order.extremum)
        with less show False by simp
      qed
      then have "unat (sl_count st1) = Suc (unat (sl_count st))"
        using receive_cases(2) [OF r(1)] by (metis add.commute unatSuc)
      with r less "2.IH"(2) [of "(go_on, st1)" go_on st1] go end_event "2.prems"(2) show ?thesis
        by (cases go_on) auto
    qed
  qed
qed (auto split: if_splits)

end
