(* ===== verification/Rpc_Properties.thy ===== *)
theory Rpc_Properties imports Authr_Exchange Authr_Client Rpc_Service begin

section \<open>Properties of the RPC library and its clients\<close>

text \<open>
  Remote calls, what a request can do to a server, the cache of capabilities, waiting, and the service loop, each with a
  concrete run.
\<close>

subsection \<open>A network without failures\<close>

definition good_md :: md_calls where
  "good_md = \<lparr>md_get_ni = LWFS_OK, md_eq_alloc = LWFS_OK, md_me_attach = LWFS_OK, md_md_attach = LWFS_OK, md_eq_h = 5\<rparr>"

definition demo_clnt :: clnt_calls where
  "demo_clnt = \<lparr>clnt_id = \<lparr>nid = 1, pid = 10\<rparr>, data_calls = good_md, result_calls = good_md, args_calls = good_md,
     put_request = LWFS_OK, clnt_malloc = True\<rparr>"

definition fetch_event :: "ptl_event_kind \<Rightarrow> ptl_event" where
  "fetch_event k = \<lparr>ev_rc = LWFS_OK, ev_kind = k, ev_ok = True\<rparr>"

definition demo_ptl :: ptl_calls where
  "demo_ptl = \<lparr>ptl_get = (\<lambda>addr n. (LWFS_ERR_RPC, [])), ptl_put = (\<lambda>addr bs. LWFS_OK), ptl_eq_alloc = LWFS_OK, ptl_me_attach = LWFS_OK,
     ptl_md_attach = LWFS_OK, ptl_events = map fetch_event [PTL_EVENT_GET_START, PTL_EVENT_GET_END, PTL_EVENT_UNLINK],
     ptl_my_id = \<lparr>nid = 2, pid = 20\<rparr>\<rparr>"

definition demo_wait :: wait_calls where
  "demo_wait = \<lparr>wait_events = [], args_events = map fetch_event [PTL_EVENT_GET_START, PTL_EVENT_GET_END, PTL_EVENT_UNLINK],
     args_eq_free = LWFS_OK, short_eq_free = LWFS_OK, data_md_unlink = LWFS_OK, data_eq_free = LWFS_OK,
     wait_get = (\<lambda>addr n. (LWFS_ERR_RPC, [])), wait_malloc = True\<rparr>"

lemma demo_net: "clnt_ok demo_clnt" "srvr_ok demo_ptl" "wait_ok demo_wait"
  by (simp_all add: clnt_ok_def md_ok_def srvr_ok_def wait_ok_def demo_clnt_def demo_ptl_def demo_wait_def good_md_def fetch_event_def)

definition good_mem :: ht_mem where
  "good_mem = \<lparr>newtable_malloc = True, table_realloc = True, entry_malloc = True\<rparr>"

definition demo_registry :: "(authr_args rpc_args, authr_res rpc_res) xdr_registry" where
  "demo_registry = the (register_all True good_mem (service_encodings @ authr_encodings) empty_registry)"

definition demo_client :: "(authr_args rpc_args, authr_res rpc_res) rpc_client" where
  "demo_client = (clnt fresh_client)\<lparr>encodings := demo_registry\<rparr>"

lemma empty_registry_ok: "registry_ok empty_registry" "registry_size empty_registry = 0" "registered empty_registry = (\<lambda>k. [])"
  by (simp_all add: registry_ok_def registry_size_def registered_def empty_registry_def fun_eq_iff)

lemma demo_registered: "authr_registered demo_client"
proof -
  have mem: "enough good_mem" by (simp add: enough_def good_mem_def)
  have fresh: "registry_ok (encodings (clnt fresh_client))" "registry_size (encodings (clnt fresh_client)) = 0"
    "registered (encodings (clnt fresh_client)) = (\<lambda>k. [])" by (simp_all add: fresh_client_def empty_registry_ok)
  obtain reg1 reg2 where "register_all True good_mem service_encodings empty_registry = Some reg1"
    "register_all True good_mem authr_encodings reg1 = Some reg2" "authr_registered ((clnt fresh_client)\<lparr>encodings := reg2\<rparr>)"
    by (rule register_both [OF mem fresh]) (auto simp: register_service_encodings_def register_authr_encodings_def fresh_client_def)
  then show ?thesis by (simp add: demo_client_def demo_registry_def register_all_append)
qed

text \<open>The authorization server of the runs, as a service.\<close>

definition demo_service :: "lwfs_service \<times> (authr_args rpc_args, authr_res rpc_res, (string \<rightharpoonup> u8 list) authr_state) rpc_server" where
  "demo_service = the (authr_service demo_env \<lparr>nid = 2, pid = 20\<rparr> demo_created)"

lemma demo_service: "authr_serving demo_env (snd demo_service)" "server_state (snd demo_service) = demo_created"
  "rma_len (req_addr (fst demo_service)) = 512"
proof -
  have "authr_service demo_env \<lparr>nid = 2, pid = 20\<rparr> demo_created \<noteq> None"
    by (simp add: authr_service_def lwfs_service_init_def lwfs_service_add_ops_def Let_def svc_op_array_def authr_op_array_def)
  then have "authr_service demo_env \<lparr>nid = 2, pid = 20\<rparr> demo_created = Some (fst demo_service, snd demo_service)"
    by (auto simp: demo_service_def)
  from authr_service_serving [OF this] show "authr_serving demo_env (snd demo_service)"
    "server_state (snd demo_service) = demo_created" "rma_len (req_addr (fst demo_service)) = 512" by simp_all
qed

subsection \<open>Remote calls\<close>

text \<open>C28: 
  A call over the network is a call of the operation: when the client has the procedures of the operation, the server
  offers it and the network does its part, the state of the server becomes what the operation makes of it,
  and the client gets the code and, after a success, the result of the operation; and this whether arguments and result
  travel in the messages or are fetched, and whatever bytes lie behind the answer.
\<close>

theorem rpc_call_is_local_call:
  assumes "clnt_ok C" "srvr_ok P" "wait_ok W"
    and "registry_ok (encodings cl)"
      "first_val (registered (encodings cl) opcode) = Some \<lparr>args_encoding = Some X, data_encoding = D, result_encoding = Some Z\<rparr>"
      "unat (global_count cl + 1) < 2 ^ 32" "144 \<le> sint (ucast (rma_len (req_addr svc)) :: u32)"
    and "rpc_serves sv opcode f X n Y" "xdr_proc X" "xdr_proc Y" "xdr_encode X a = Some as" "n \<le> length as" "length as < 2 ^ 32"
    and "f (clnt_id C) a zero_rma (rpc_globals sv, server_state sv) = Some (rc, r, g', s')"
    and "if rc = LWFS_OK then xdr_encode Y r = Some rs else rs = []" "length rs < 2 ^ 32" "rs \<noteq> [] \<Longrightarrow> Z = Y \<and> old \<noteq> None"
  shows "\<exists>cl' sv'. rpc_exchange C P W garbage svc opcode (Some a) old cl sv =
      Some (LWFS_OK, Some (rc_code rc), if rc = LWFS_OK \<and> rs \<noteq> [] then Some r else old, cl', sv') \<and>
    rpc_globals sv' = g' \<and> server_state sv' = s'"
  using assms by (rule rpc_exchange_local)

text \<open>C7: 
  Every request to the authorization server may be remote: the exchange answers what \<open>authr_dispatch\<close> answers, and the
  state of the server becomes the one it gives.
\<close>

theorem authr_request_over_rpc:
  assumes "clnt_ok C" "srvr_ok P" "wait_ok W" "authr_registered cl" "unat (global_count cl + 1) < 2 ^ 32"
    "144 \<le> sint (ucast (rma_len (req_addr svc)) :: u32)" "authr_serving E sv" "small_request req"
    "authr_dispatch E (server_state sv) req = Some (resp, st')" "small_response resp" "no_result req \<or> old \<noteq> None"
  shows "\<exists>cl' sv'. rpc_exchange C P W garbage svc (wire_opcode req) (Some (wire_args t req)) old cl sv =
      Some (LWFS_OK, Some (rc_code (fst (client_answer old resp))), snd (client_answer old resp), cl', sv') \<and>
    rpc_globals sv' = rpc_globals sv \<and> server_state sv' = st'"
  using assms by (rule authr_exchange)

lemma demo_verify: "verify_caps demo_env demo_created [demo_owner_cap] = Some (LWFS_OK, snd (the (verify_caps demo_env demo_created [demo_owner_cap])))"
  by (rule some_pair) code_simp

lemma demo_client_facts: "unat (global_count demo_client + 1) < 2 ^ 32"
  "144 \<le> sint (ucast (rma_len (req_addr (fst demo_service))) :: u32)"
  by (simp_all add: demo_client_def fresh_client_def demo_service)

text \<open>The service of the runs verifies a capability of its owner.\<close>

theorem authr_request_over_rpc_witness:
  "\<exists>cl' sv'. rpc_exchange demo_clnt demo_ptl demo_wait [] (fst demo_service) 107
      (Some (App_Args (Verify_Caps_Args (Some [demo_owner_cap])))) None demo_client (snd demo_service) =
    Some (LWFS_OK, Some 0, None, cl', sv')"
proof -
  let ?st = "snd (the (verify_caps demo_env demo_created [demo_owner_cap]))"
  have "authr_dispatch demo_env (server_state (snd demo_service)) (Verify_Caps [demo_owner_cap]) = Some (Void_Response LWFS_OK, ?st)"
    using demo_verify by (simp add: demo_service)
  from authr_request_over_rpc [OF demo_net demo_registered demo_client_facts demo_service(1) _ this, of None "[]" None]
  show ?thesis by auto
qed

lemma demo_get_cap: obtains c st where "get_cap demo_env demo_created 7 8 demo_cred = Some (Inr c, st)"
proof -
  have "case get_cap demo_env demo_created 7 8 demo_cred of Some (Inr c, st) \<Rightarrow> True | _ \<Rightarrow> False" by code_simp
  then show thesis by (auto split: option.splits sum.splits intro: that)
qed

text \<open>Getting a capability: the result travels with the answer, behind which there are other bytes.\<close>

theorem rpc_call_is_local_call_witness:
  "\<exists>c cl' sv'. rpc_exchange demo_clnt demo_ptl demo_wait [1, 2, 3] (fst demo_service) 106
      (Some (App_Args (Get_Cap_Args 7 8 (Some demo_cred)))) (Some No_Res) demo_client (snd demo_service) =
    Some (LWFS_OK, Some 0, Some (App_Res (Cap_Result c)), cl', sv')"
proof -
  obtain c st where c: "get_cap demo_env demo_created 7 8 demo_cred = Some (Inr c, st)" by (rule demo_get_cap)
  let ?sv = "snd demo_service"
  have f: "get_cap_proc demo_env (clnt_id demo_clnt) (App_Args (Get_Cap_Args 7 8 (Some demo_cred))) zero_rma
      (rpc_globals ?sv, server_state ?sv) = Some (LWFS_OK, App_Res (Cap_Result c), rpc_globals ?sv, st)"
    by (simp add: get_cap_proc_def demo_service c)
  obtain as where as: "xdr_encode xdr_lwfs_get_cap_args (App_Args (Get_Cap_Args 7 8 (Some demo_cred))) = Some as"
    "24 \<le> length as" "length as < 2 ^ 32" using get_args_fit(2) [of 7 8 demo_cred] unfolding fits_def by blast
  obtain rs where rs: "xdr_encode xdr_cap_result (App_Res (Cap_Result c)) = Some rs" "68 \<le> length rs" "length rs < 2 ^ 32"
    using cap_fits [of c] unfolding fits_def by blast
  have reg: "registry_ok (encodings demo_client)" "first_val (registered (encodings demo_client) 106) =
      Some \<lparr>args_encoding = Some xdr_lwfs_get_cap_args, data_encoding = None, result_encoding = Some xdr_cap_result\<rparr>"
    using demo_registered by (auto simp: authr_registered_def registers_def authr_encodings_def)
  from rs(2) have "rs \<noteq> []" by auto
  with rpc_call_is_local_call [OF demo_net reg demo_client_facts authr_serves(5) [OF demo_service(1)] authr_arg_procs(6) authr_res_procs(1)
      as f _ rs(3), of "Some No_Res" "[1, 2, 3]"] rs(1)
  show ?thesis by auto
qed

text \<open>C8: 
  What the authorization server guarantees, a remote client has: when the exchange of a verification ends with the code
  0, each of the capabilities is authentic and is granted by the access-control lists of the server.
\<close>

theorem remote_verification_grants:
  assumes "authr_store E A" "clnt_ok C" "srvr_ok P" "wait_ok W" "authr_registered cl" "unat (global_count cl + 1) < 2 ^ 32"
    "144 \<le> sint (ucast (rma_len (req_addr svc)) :: u32)" "authr_serving E sv" "length caps < 2 ^ 20"
    "verify_caps E (server_state sv) caps = Some v"
    "rpc_exchange C P W garbage svc 107 (Some (App_Args (Verify_Caps_Args (Some caps)))) old cl sv = Some (rc, Some 0, r, cl', sv')"
    "cap \<in> set caps"
  shows "authr_grants E A (server_state sv) cap"
proof -
  obtain code st' where v: "v = (code, st')" by (cases v)
  then have "authr_dispatch E (server_state sv) (Verify_Caps caps) = Some (Void_Response code, st')" using assms(10) by simp
  from authr_exchange [OF assms(2-8) _ this, of old garbage None] assms(9,11) have "rc_code code = 0" by auto
  then have "verify_cap_list E (server_state sv) caps = Some LWFS_OK" using assms(10) v verify_caps_list by fastforce
  then show ?thesis
    using authr_store.verify_cap_list_sound [OF assms(1)] assms(12) by (auto simp: authr_grants_def)
qed

theorem remote_verification_grants_witness: "authr_grants demo_env (\<lambda>db. db) (server_state (snd demo_service)) demo_owner_cap"
proof -
  let ?st = "snd (the (verify_caps demo_env demo_created [demo_owner_cap]))"
  have run: "verify_caps demo_env (server_state (snd demo_service)) [demo_owner_cap] = Some (LWFS_OK, ?st)"
    using demo_verify by (simp add: demo_service)
  then have "authr_dispatch demo_env (server_state (snd demo_service)) (Verify_Caps [demo_owner_cap]) = Some (Void_Response LWFS_OK, ?st)"
    by simp
  from authr_exchange [OF demo_net demo_registered demo_client_facts demo_service(1) _ this, of None "[]" None] obtain cl' sv' where
    "rpc_exchange demo_clnt demo_ptl demo_wait [] (fst demo_service) 107 (Some (App_Args (Verify_Caps_Args (Some [demo_owner_cap]))))
      None demo_client (snd demo_service) = Some (LWFS_OK, Some 0, None, cl', sv')" by auto
  from remote_verification_grants [OF demo_authr.authr_store_axioms demo_net demo_registered demo_client_facts demo_service(1) _ run this]
  show ?thesis by simp
qed

subsection \<open>Requests that are not served\<close>

text \<open>C29: 
  A request, whatever it holds, that arrives while more memory is used than is allowed is accepted and dropped: the
  server does not change, nothing is sent and its client waits for nothing. Below the limit the same holds, but for the code, of a
  request for an operation that the server does not have; every other request that has a header runs the first of the
  registered operations with its code.
\<close>

theorem request_dropped:
  assumes "supported_ops sv = Some ops" "num_supported_ops sv = length ops"
  shows "(allowed > 0 \<and> used > allowed \<longrightarrow> process_request P allowed used d sv = Some (LWFS_OK, sv)) \<and>
    (\<not> (allowed > 0 \<and> used > allowed) \<longrightarrow>
      (\<forall>hdr rest. xdr_decode xdr_lwfs_request_header (thr_req_buf d) = Some (hdr, rest) \<longrightarrow>
        process_request P allowed used d sv =
          (case find (\<lambda>opn. op_opcode opn = rq_opcode hdr) ops of
             None \<Rightarrow> Some (LWFS_ERR_RPC, sv)
           | Some opn \<Rightarrow> run_op P (thr_caller d) hdr rest opn sv)))"
proof -
  have "find_op (Some ops) 0 (length ops) opcode = Some (find (\<lambda>opn. op_opcode opn = opcode) ops)" for opcode
    using find_op_find [of ops 0 "length ops" opcode] by simp
  with assms show ?thesis by (auto simp: process_request_def split: option.splits)
qed

definition opcode_header :: "lwfs_opcode \<Rightarrow> lwfs_request_header" where
  "opcode_header opcode = zero_request_header\<lparr>rq_opcode := opcode\<rparr>"

definition opcode_request :: "lwfs_opcode \<Rightarrow> thr_request" where
  "opcode_request opcode = \<lparr>thr_caller = \<lparr>nid = 3, pid = 30\<rparr>, thr_req_buf = the (xdr_encode xdr_lwfs_request_header (opcode_header opcode))\<rparr>"

lemma opcode_request_decode:
  "xdr_decode xdr_lwfs_request_header (thr_req_buf (opcode_request opcode)) = Some (opcode_header opcode, [])"
proof -
  have "unat (rq_id (opcode_header opcode)) < 2 ^ 32" by (simp add: opcode_header_def zero_request_header_def)
  from request_header_encodes [OF this] show ?thesis by (auto simp: opcode_request_def dest: request_header.decode_all)
qed

lemma authr_ops:
  assumes "authr_serving E sv"
  shows "supported_ops sv = Some (take 3 svc_op_array @ authr_op_array E)" "num_supported_ops sv = length (take 3 svc_op_array @ authr_op_array E)"
  using assms by (simp_all add: authr_serving_def svc_op_array_def authr_op_array_def)

text \<open>Operation 103, to create an access-control list, is not among the operations of the authorization server;
  operation 107 is, and its requests are dropped too when the memory is used up.\<close>

theorem request_dropped_witness:
  "process_request demo_ptl 100 50 (opcode_request 103) (snd demo_service) = Some (LWFS_ERR_RPC, snd demo_service) \<and>
   process_request demo_ptl 100 150 (opcode_request 107) (snd demo_service) = Some (LWFS_OK, snd demo_service)"
proof -
  note drop = request_dropped [OF authr_ops [OF demo_service(1)], of _ _ demo_ptl]
  have "find (\<lambda>opn. op_opcode opn = 103) (take 3 svc_op_array @ authr_op_array demo_env) = None"
    by (simp add: svc_op_array_def authr_op_array_def null_op_def LWFS_OP_NULL_def)
  then have "process_request demo_ptl 100 50 (opcode_request 103) (snd demo_service) = Some (LWFS_ERR_RPC, snd demo_service)"
    using drop [of 100 50 "opcode_request 103"] opcode_request_decode [of 103] by (simp add: opcode_header_def)
  moreover have "process_request demo_ptl 100 150 (opcode_request 107) (snd demo_service) = Some (LWFS_OK, snd demo_service)"
    using drop [of 100 150 "opcode_request 107"] by simp
  ultimately show ?thesis by blast
qed

subsection \<open>Requests that stop the server\<close>

text \<open>Decoding a value of a fixed size takes as many bytes.\<close>

definition takes :: "'a xdr \<Rightarrow> nat \<Rightarrow> bool" where
  "takes X n \<longleftrightarrow> (\<forall>bs v rest. xdr_decode X bs = Some (v, rest) \<longrightarrow> length bs = n + length rest)"

lemma takes_words: "takes xdr_uint32_t 4" "takes xdr_uint64_t 8" "takes xdr_flag 4" "takes xdr_u_long 4"
  by (auto simp: takes_def xdr_uint32_t_def xdr_uint64_t_def xdr_flag_def xdr_u_long_def xdr_block_def split: if_splits)

lemma takes_pair: "takes A m \<Longrightarrow> takes B n \<Longrightarrow> takes (xdr_pair A B) (m + n)"
  by (fastforce simp: takes_def xdr_pair_def bind_eq_Some_conv)

lemma takes_struct: "takes A m \<Longrightarrow> takes (xdr_struct to from A) m"
  by (auto simp: takes_def xdr_struct_def)

lemma takes_header: "takes xdr_lwfs_request_header 144"
proof -
  have "takes xdr_lwfs_rma ((4 + 4) + (4 + (8 + (8 + (8 + 8)))))"
    unfolding xdr_lwfs_rma_def xdr_lwfs_remote_pid_def by (intro takes_struct takes_pair takes_words)
  then have "takes xdr_lwfs_rma 44" by simp
  then have "takes xdr_lwfs_request_header (4 + (4 + (4 + (44 + (44 + 44)))))"
    unfolding xdr_lwfs_request_header_def by (intro takes_struct takes_pair takes_words)
  then show ?thesis by simp
qed

definition authr_opcodes :: "lwfs_opcode set" where
  "authr_opcodes = {101, 102, 104, 105, 106, 107}"

text \<open>C36: 
  Any client can bring the authorization server to an abort or an undefined step with one request: with fewer bytes than a
  header has (the server aborts); for the operation 0, the end of the array of operations, which was registered with it (a null
  pointer); for one of its operations with a size of the arguments that is smaller than the structure (the memory
  behind the buffer is overwritten); and with arguments that cannot be fetched, for then the operation runs on null pointers.
\<close>

theorem request_stops_authr_server:
  assumes "authr_serving E sv" "allowed = 0"
    "length (thr_req_buf d) < 144 \<or> (\<exists>hdr rest. xdr_decode xdr_lwfs_request_header (thr_req_buf d) = Some (hdr, rest) \<and>
      (rq_opcode hdr = LWFS_OP_NULL \<or> rq_opcode hdr \<in> authr_opcodes \<and> (unat (rma_len (rq_args_addr hdr)) < 8 \<or>
        rq_fetch_args hdr \<and> fst (ptl_get P (rq_args_addr hdr) (unat (rma_len (rq_args_addr hdr)))) \<noteq> LWFS_OK)))"
  shows "process_request P allowed used d sv = None"
proof (cases "xdr_decode xdr_lwfs_request_header (thr_req_buf d)")
  case None
  with assms(2) show ?thesis by (simp add: process_request_def)
next
  case (Some hs)
  obtain hdr rest where hs: "hs = (hdr, rest)" by (cases hs)
  have "length (thr_req_buf d) = 144 + length rest" using takes_header Some hs unfolding takes_def by blast
  with assms(3) Some hs have bad: "rq_opcode hdr = LWFS_OP_NULL \<or> rq_opcode hdr \<in> authr_opcodes \<and> (unat (rma_len (rq_args_addr hdr)) < 8 \<or>
      rq_fetch_args hdr \<and> fst (ptl_get P (rq_args_addr hdr) (unat (rma_len (rq_args_addr hdr)))) \<noteq> LWFS_OK)" by auto
  let ?ops = "take 3 svc_op_array @ authr_op_array E"
  have "rq_opcode hdr \<in> insert 0 authr_opcodes" using bad by (auto simp: LWFS_OP_NULL_def)
  then obtain opn where opn: "find (\<lambda>opn. op_opcode opn = rq_opcode hdr) ?ops = Some opn"
    "if rq_opcode hdr = 0 then opn = null_op
      else 8 \<le> op_args_size opn \<and> (\<forall>f caller addr gs. op_func opn = Some f \<longrightarrow> f caller (op_zero_args opn) addr gs = None)"
    unfolding authr_opcodes_def
    by (elim insertE emptyE; simp add: svc_op_array_def authr_op_array_def null_op_def LWFS_OP_NULL_def create_container_proc_def
        remove_container_proc_def get_acl_proc_def mod_acl_proc_def get_cap_proc_def verify_caps_proc_def split_def)
  have "request_args P hdr rest X z = (LWFS_OK, z)"
    if "rq_fetch_args hdr" "fst (ptl_get P (rq_args_addr hdr) (unat (rma_len (rq_args_addr hdr)))) \<noteq> LWFS_OK" for X and z :: "authr_args rpc_args"
    using that by (simp add: request_args_def fetch_args_def split_def)
  then have "run_op P caller hdr rest opn sv = None" for caller
    using opn(2) bad by (cases "rq_opcode hdr = 0"; cases "op_decode_args opn"; cases "op_func opn")
      (auto simp: run_op_def null_op_def LWFS_OP_NULL_def authr_opcodes_def)
  moreover have "find_op (supported_ops sv) 0 (num_supported_ops sv) (rq_opcode hdr) = Some (Some opn)"
    using find_op_find [of ?ops 0 "length ?ops" "rq_opcode hdr"] opn(1) by (simp only: authr_ops [OF assms(1)]) simp
  ultimately show ?thesis using assms(2) Some hs by (simp add: process_request_def)
qed

theorem request_stops_authr_server_witness:
  "process_request demo_ptl 0 50 (opcode_request 0) (snd demo_service) = None \<and>
   process_request demo_ptl 0 50 (opcode_request 101) (snd demo_service) = None"
proof -
  have "rq_opcode (opcode_header 0) = LWFS_OP_NULL" "rq_opcode (opcode_header 101) \<in> authr_opcodes"
    "unat (rma_len (rq_args_addr (opcode_header 101))) < 8"
    by (simp_all add: opcode_header_def LWFS_OP_NULL_def authr_opcodes_def zero_request_header_def zero_rma_def)
  then show ?thesis
    using opcode_request_decode [of 0] opcode_request_decode [of 101]
    by (intro conjI request_stops_authr_server [OF demo_service(1) refl]) blast+
qed

subsection \<open>The cache of capabilities\<close>

text \<open>The states of a client, with the capabilities that the server accepted in a verification that fills the cache.\<close>

inductive cap_client :: "authr_client \<Rightarrow> lwfs_cap set \<Rightarrow> bool" where
  fresh: "cap_client fresh_client {}"
| cache_init: "cap_client cl V \<Longrightarrow> lwfs_cache_caps_init m mem tm cl = Some (rc, cl') \<Longrightarrow> cap_client cl' V"
| cache_fini: "cap_client cl V \<Longrightarrow> lwfs_cache_caps_fini cl = Some (rc, cl') \<Longrightarrow> cap_client cl' V"
| set_flag: "cap_client cl V \<Longrightarrow> set_verify_caps_flag b cl = (rc, cl') \<Longrightarrow> cap_client cl' V"
| call: "cap_client cl V \<Longrightarrow> authr_call A svc opcode args result cl = Some (rc, req, cl') \<Longrightarrow> cap_client cl' V"
| verify_off: "cap_client cl V \<Longrightarrow> \<not> verify_caps_flag cl \<or> \<not> cache_caps cl \<Longrightarrow>
    lwfs_verify_caps A W ms svc caps cl = Some (code, vreq, cl') \<Longrightarrow> cap_client cl' V"
| verify: "cap_client cl V \<Longrightarrow> verify_caps_flag cl \<Longrightarrow> cache_caps cl \<Longrightarrow> cache_size cl + length caps < 2 ^ 32 \<Longrightarrow>
    lwfs_verify_caps A W ms svc caps cl = Some (code, vreq, cl') \<Longrightarrow>
    cap_client cl' (V \<union> (if server_accepts A W svc caps cl then set caps else {}))"

lemma client_init_cache: "authr_client_init m mem cl = Some cl' \<Longrightarrow> cache_ht cl' = cache_ht cl \<and> cache_caps cl' = cache_caps cl \<and>
    verify_caps_flag cl' = verify_caps_flag cl \<and> authr_init_flag cl'"
  by (auto simp: authr_client_init_def Let_def bind_eq_Some_conv split: if_splits)

lemma authr_call_cache: "authr_call A svc opcode args result cl = Some (rc, req, cl') \<Longrightarrow>
    cache_ht cl' = cache_ht cl \<and> cache_caps cl' = cache_caps cl \<and> verify_caps_flag cl' = verify_caps_flag cl \<and> authr_init_flag cl'"
  by (auto simp: authr_call_def bind_eq_Some_conv dest!: client_init_cache)

lemma holds_same: "cache_holds V cl \<Longrightarrow> cache_ht cl' = cache_ht cl \<Longrightarrow> cache_holds V cl'"
  by (simp add: cache_holds_def)

lemma cap_client_holds: "cap_client cl V \<Longrightarrow> cache_holds V cl"
proof (induction rule: cap_client.induct)
  case fresh
  show ?case by (simp add: cache_holds_def fresh_client_def)
next
  case (cache_init cl V m mem tm rc cl')
  then obtain cl1 where init: "authr_client_init m mem cl = Some cl1"
    by (auto simp: lwfs_cache_caps_init_def bind_eq_Some_conv)
  with cache_init.hyps(2) have cl1: "authr_client_init m mem cl = Some cl1"
    "cl' = (if cache_caps cl1 then cl1 else cl1\<lparr>cache_caps := True, cache_ht := create_hashtable tm 1024 cap_hashfromkey cap_equalkeys\<rparr>)"
    by (auto simp: lwfs_cache_caps_init_def Let_def split: if_splits)
  have eq: "cap_equalkeys = (=)" by (simp add: fun_eq_iff cap_equalkeys_def)
  show ?case
  proof (cases "cache_caps cl1")
    case True
    with cl1 cache_init.IH client_init_cache [OF cl1(1)] show ?thesis by (auto simp: cache_holds_def)
  next
    case False
    with cl1(2) show ?thesis by (auto simp: cache_holds_def eq dest!: create_vals)
  qed
next
  case (cache_fini cl V rc cl')
  then show ?case by (auto simp: lwfs_cache_caps_fini_def cache_holds_def split: if_splits)
next
  case (set_flag cl V b rc cl')
  then show ?case by (auto simp: set_verify_caps_flag_def cache_holds_def)
next
  case (call cl V A svc opcode args result rc req cl')
  then show ?case using authr_call_cache holds_same by blast
next
  case (verify_off cl V A W ms svc caps code vreq cl')
  then obtain cl1 where cl1: "authr_client_init (ac_malloc A) (ac_mem A) cl = Some cl1"
    by (auto simp: lwfs_verify_caps_def bind_eq_Some_conv)
  note same = client_init_cache [OF this]
  have "cache_ht cl' = cache_ht cl1"
    using verify_off.hyps(2,3) cl1 same by (auto simp: lwfs_verify_caps_def bind_eq_Some_conv split: if_splits dest!: authr_call_cache)
  with same verify_off.IH show ?case by (auto simp: cache_holds_def)
next
  case (verify cl V caps A W ms svc code vreq cl')
  show ?case using verify_caps_holds [OF verify.IH verify.hyps(4,5,2,3)] by blast
qed

text \<open>A client with a cache that verified a capability at the service of the runs.\<close>

definition demo_authr_calls :: authr_calls where
  "demo_authr_calls = \<lparr>ac_malloc = True, ac_mem = good_mem, ac_rpc = demo_clnt\<rparr>"

definition demo_cached :: authr_client where
  "demo_cached = snd (the (lwfs_cache_caps_init True good_mem True fresh_client))"

lemma authr_only_registered:
  obtains reg where "register_authr_encodings True good_mem (snd (lwfs_xdr_init True empty_registry)) = Some (LWFS_OK, reg)"
    "authr_registered (cl\<lparr>encodings := reg\<rparr>)"
proof -
  let ?reg0 = "snd (lwfs_xdr_init True empty_registry) :: (authr_args rpc_args, authr_res rpc_res) xdr_registry"
  have mem: "enough good_mem" by (simp add: enough_def good_mem_def)
  obtain h where h: "encodings_ht ?reg0 = Some h" "ht_ok h" "xdr_initialized ?reg0" "ht_vals h = registered empty_registry"
    "unat (entrycount h) = registry_size (empty_registry :: (authr_args rpc_args, authr_res rpc_res) xdr_registry)"
    by (rule xdr_init_ok [OF empty_registry_ok(1)])
  then have reg0: "registry_ok ?reg0" "registry_size ?reg0 = 0" "registered ?reg0 = (\<lambda>k. [])"
    by (simp_all add: registry_ok_def registry_size_def [of ?reg0] registered_def [of ?reg0] empty_registry_ok fun_eq_iff)
  have keys: "map fst authr_encodings = [101, 102, 103, 104, 105, 106, 107]" "length authr_encodings = 7"
    by (simp_all add: authr_encodings_def)
  have "distinct (map fst authr_encodings)" unfolding keys by simp
  with register_all_ok [OF reg0(1) mem, of authr_encodings] keys(2) reg0(2,3)
  obtain reg where reg: "register_all True good_mem authr_encodings ?reg0 = Some reg" "registry_ok reg"
    "registered reg = (\<lambda>k. case map_of authr_encodings k of None \<Rightarrow> registered ?reg0 k | Some (a, r) \<Rightarrow>
       [\<lparr>args_encoding = a, data_encoding = None, result_encoding = r\<rparr>])" by auto
  have "authr_registered (cl\<lparr>encodings := reg\<rparr>)" using reg(2,3) by (simp add: authr_registered_def registers_def authr_encodings_def)
  with reg(1) that show thesis by (simp add: register_authr_encodings_def)
qed

lemma demo_cached:
  "lwfs_cache_caps_init True good_mem True fresh_client = Some (LWFS_OK, demo_cached)" "authr_registered (clnt demo_cached)"
  "global_count (clnt demo_cached) = 0" "authr_init_flag demo_cached" "verify_caps_flag demo_cached" "cache_caps demo_cached"
  "cache_size demo_cached = 0" "cache_ht demo_cached \<noteq> None"
proof -
  obtain reg where reg: "register_authr_encodings True good_mem (snd (lwfs_xdr_init True empty_registry)) = Some (LWFS_OK, reg)"
    "authr_registered ((clnt fresh_client)\<lparr>encodings := reg\<rparr>)" by (rule authr_only_registered)
  have eq: "cap_equalkeys = (=)" by (simp add: fun_eq_iff cap_equalkeys_def)
  have "create_hashtable True 1024 cap_hashfromkey cap_equalkeys \<noteq> (None :: (lwfs_mac, lwfs_cap) hashtable option)"
    by (simp add: create_hashtable_def split: prod.splits)
  then obtain h :: "(lwfs_mac, lwfs_cap) hashtable" where h: "create_hashtable True 1024 cap_hashfromkey cap_equalkeys = Some h" by blast
  from create_vals [OF h [unfolded eq]] have count: "entrycount h = 0" by simp
  let ?cl = "fresh_client\<lparr>clnt := (clnt fresh_client)\<lparr>encodings := reg\<rparr>, authr_init_flag := True, cache_caps := True, cache_ht := Some h\<rparr>"
  have "authr_client_init True good_mem fresh_client =
      Some (fresh_client\<lparr>clnt := (clnt fresh_client)\<lparr>encodings := reg\<rparr>, authr_init_flag := True\<rparr>)"
    using reg(1) by (simp add: authr_client_init_def fresh_client_def)
  then have init: "lwfs_cache_caps_init True good_mem True fresh_client = Some (LWFS_OK, ?cl)"
    using h by (simp add: lwfs_cache_caps_init_def) (simp add: fresh_client_def)
  then have cached: "demo_cached = ?cl" by (simp add: demo_cached_def)
  show "lwfs_cache_caps_init True good_mem True fresh_client = Some (LWFS_OK, demo_cached)" unfolding cached by (rule init)
  show "authr_registered (clnt demo_cached)" unfolding cached using reg(2) by simp
  show "global_count (clnt demo_cached) = 0" "authr_init_flag demo_cached" "verify_caps_flag demo_cached"
    "cache_caps demo_cached" unfolding cached by (simp_all add: fresh_client_def)
  show "cache_size demo_cached = 0" unfolding cached using count by (simp add: cache_size_def)
  show "cache_ht demo_cached \<noteq> None" unfolding cached by simp
qed

lemma demo_cap_client: "cap_client demo_cached {}"
  using cap_client.cache_init [OF cap_client.fresh demo_cached(1)] .

text \<open>The verification of the runs: there is a wait that brings the answer of the server.\<close>

lemma demo_cached_verify:
  obtains W req cl' where "lwfs_verify_caps demo_authr_calls W [(True, True, good_mem)] (fst demo_service) [demo_owner_cap] demo_cached =
    Some (0, req, cl')"
proof -
  let ?st = "snd (the (verify_caps demo_env demo_created [demo_owner_cap]))" and ?cl = "clnt demo_cached"
  let ?args = "App_Args (Verify_Caps_Args (Some [demo_owner_cap]))"
  have "authr_dispatch demo_env (server_state (snd demo_service)) (Verify_Caps [demo_owner_cap]) = Some (Void_Response LWFS_OK, ?st)"
    using demo_verify by (simp add: demo_service)
  from authr_exchange [OF demo_net demo_cached(2) _ demo_client_facts(2) demo_service(1) _ this, of None "[]" None] demo_cached(3)
  obtain cl1 sv1 where "rpc_exchange demo_clnt demo_ptl demo_wait [] (fst demo_service) 107 (Some ?args) None ?cl (snd demo_service) =
      Some (LWFS_OK, Some 0, None, cl1, sv1)" by auto
  then obtain rc req c W req' where call: "lwfs_call_rpc demo_clnt (fst demo_service) 107 (Some ?args) None 0 None ?cl = Some (rc, req, c)"
    and wait: "lwfs_timedwait W req = Some (LWFS_OK, Some 0, req')"
    by (auto simp: rpc_exchange_def bind_eq_Some_conv)
  have init: "authr_client_init True good_mem demo_cached = Some demo_cached" using demo_cached(4) by (simp add: authr_client_init_def)
  have sent: "authr_call demo_authr_calls (fst demo_service) 107 ?args None demo_cached = Some (rc, req, demo_cached\<lparr>clnt := c\<rparr>)"
    using init call by (simp add: authr_call_def demo_authr_calls_def)
  have holds: "cache_holds {} demo_cached" by (rule cap_client_holds [OF demo_cap_client])
  obtain h where h: "cache_ht demo_cached = Some h" using demo_cached(8) by blast
  show thesis
  proof (cases "all_cached h [demo_owner_cap]")
    case True
    with init h demo_cached(5,6) that show thesis by (simp add: lwfs_verify_caps_def demo_authr_calls_def del: all_cached.simps)
  next
    case False
    have ok: "ht_ok h" using holds h by (simp add: cache_holds_def)
    have "ht_room h" using demo_cached(7) h by (intro count_room) (simp add: cache_size_def)
    from ht.ins [OF ok this, of good_mem "cap_mac demo_owner_cap" demo_owner_cap] obtain h' where
      "hashtable_insert good_mem h (cap_mac demo_owner_cap) demo_owner_cap = Some (True, h')" by (auto simp: enough_def good_mem_def)
    then have "cache_all [(True, True, good_mem)] [demo_owner_cap] h = Some (LWFS_OK, h')" by simp
    with False init sent wait h demo_cached(5,6)
    have "lwfs_verify_caps demo_authr_calls W [(True, True, good_mem)] (fst demo_service) [demo_owner_cap] demo_cached =
        Some (0, Req_Sent req', (demo_cached\<lparr>clnt := c\<rparr>)\<lparr>cache_ht := Some h'\<rparr>)"
      by (simp add: lwfs_verify_caps_def demo_authr_calls_def lwfs_wait_def del: all_cached.simps cache_all.simps)
    then show thesis by (rule that)
  qed
qed

text \<open>C9: 
  Whatever a client did before, a verification that it reports as a success was one by the server: each of the
  capabilities, with its data and its MAC, is in an answer of the server, to this or to an earlier request.
\<close>

theorem cache_holds_verified:
  assumes "cap_client cl V" "verify_caps_flag cl" "cache_caps cl" "cache_size cl + length caps < 2 ^ 32"
    "lwfs_verify_caps A W ms svc caps cl = Some (0, req, cl')"
  shows "set caps \<subseteq> V \<union> (if server_accepts A W svc caps cl then set caps else {})"
  using verify_caps_holds [OF cap_client_holds [OF assms(1)] assms(4,5,2,3)] by blast

theorem cache_holds_verified_witness:
  "\<exists>W. server_accepts demo_authr_calls W (fst demo_service) [demo_owner_cap] demo_cached"
proof -
  obtain W req cl' where "lwfs_verify_caps demo_authr_calls W [(True, True, good_mem)] (fst demo_service) [demo_owner_cap] demo_cached =
    Some (0, req, cl')" by (rule demo_cached_verify)
  from cache_holds_verified [OF demo_cap_client demo_cached(5,6) _ this] demo_cached(7) show ?thesis by (auto split: if_splits)
qed

text \<open>C37: 
  The cache does not see a revocation: after a success, the same capability is accepted again by the client alone,
  in whatever state the server is and whatever the network does; no request is sent.
\<close>

theorem revocation_unseen:
  assumes "cap_client cl V" "verify_caps_flag cl" "cache_caps cl" "Suc (cache_size cl) < 2 ^ 32"
    "lwfs_verify_caps A W ms svc [cap] cl = Some (0, req, cl')"
  shows "lwfs_verify_caps A' W' ms' svc' [cap] cl' = Some (0, Req_Complete, cl') \<and>
    lwfs_verify_caps_sync A' W' W'' ms' svc' [cap] cl' = Some (0, cl')"
proof -
  obtain cl0 where cl0: "authr_client_init (ac_malloc A) (ac_mem A) cl = Some cl0"
    using assms(5) by (auto simp: lwfs_verify_caps_def bind_eq_Some_conv)
  note same = client_init_cache [OF this]
  obtain h where h: "cache_ht cl0 = Some h" using assms(2,3,5) cl0 same by (auto simp: lwfs_verify_caps_def bind_eq_Some_conv)
  have hc: "cache_ht cl = Some h" using h same by simp
  then have ok: "ht_ok h" using cap_client_holds [OF assms(1)] by (simp add: cache_holds_def)
  have "\<exists>h'. cache_ht cl' = Some h' \<and> all_cached h' [cap] \<and> cache_caps cl' \<and> verify_caps_flag cl' \<and> authr_init_flag cl'"
  proof (cases "all_cached h [cap]")
    case True
    with assms(2,3,5) cl0 same hc have "cl' = cl0" by (simp add: lwfs_verify_caps_def del: all_cached.simps)
    with True h same assms(2,3) show ?thesis by simp
  next
    case False
    then obtain rc1 req1 cl1 h' where sent: "authr_call A svc 107 (App_Args (Verify_Caps_Args (Some [cap]))) None cl0 = Some (rc1, req1, cl1)"
      and store: "cache_all ms [cap] h = Some (LWFS_OK, h')" "cl' = cl1\<lparr>cache_ht := Some h'\<rparr>"
      using assms(2,3,5) cl0 same hc
      by (auto simp: lwfs_verify_caps_def bind_eq_Some_conv Let_def simp del: all_cached.simps cache_all.simps split: if_splits)
    obtain mem where ins: "hashtable_insert mem h (cap_mac cap) cap = Some (True, h')"
      using store(1) by (cases ms) (auto simp: bind_eq_Some_conv split: if_splits)
    have "ht_room h" using assms(4) h same by (intro count_room) (simp add: cache_size_def)
    from insert_vals [OF ok this ins] have "hashtable_search h' (cap_mac cap) = Some cap"
      using search_vals [of h' "cap_mac cap"] by simp
    with store(2) authr_call_cache [OF sent] same assms(2,3) show ?thesis by simp
  qed
  then obtain h' where h': "cache_ht cl' = Some h'" "all_cached h' [cap]" "cache_caps cl'" "verify_caps_flag cl'" "authr_init_flag cl'" by blast
  have "authr_client_init m mem cl' = Some cl'" for m mem using h'(5) by (simp add: authr_client_init_def)
  with h' show ?thesis by (simp add: lwfs_verify_caps_def lwfs_verify_caps_sync_def del: all_cached.simps)
qed

theorem revocation_unseen_witness:
  "\<exists>W req cl'. lwfs_verify_caps demo_authr_calls W [(True, True, good_mem)] (fst demo_service) [demo_owner_cap] demo_cached = Some (0, req, cl') \<and>
    lwfs_verify_caps demo_authr_calls demo_wait [] (fst demo_service) [demo_owner_cap] cl' = Some (0, Req_Complete, cl')"
proof -
  obtain W req cl' where v: "lwfs_verify_caps demo_authr_calls W [(True, True, good_mem)] (fst demo_service) [demo_owner_cap] demo_cached =
    Some (0, req, cl')" by (rule demo_cached_verify)
  have "Suc (cache_size demo_cached) < 2 ^ 32" using demo_cached(7) by simp
  from revocation_unseen [OF demo_cap_client demo_cached(5,6) this v, where A' = demo_authr_calls and W' = demo_wait and ms' = "[]"
      and svc' = "fst demo_service"] v show ?thesis by blast
qed

subsection \<open>Encodings\<close>

text \<open>C30: 
  However many different operations are registered in a fresh registry, and however often its table grows meanwhile, each finds
  the procedures that were registered for it and an operation that nobody registered finds none. The memory is
  enough for each entry, and for a table to grow into at least one of the two ways of the code; there are fewer than \<open>2 ^ 32\<close>
  operations.
\<close>

theorem registered_encodings_found:
  fixes es :: "(lwfs_opcode \<times> 'a xdr option \<times> 'r xdr option) list"
  assumes "enough mem" "distinct (map fst es)" "length es < 2 ^ 32"
  shows "\<exists>reg. register_all True mem es empty_registry = Some reg \<and>
    (\<forall>opcode. map_option fst (lwfs_lookup_xdr_encoding True opcode reg) = Some (case map_of es opcode of
        None \<Rightarrow> Inl LWFS_ERR_NOENT
      | Some (a, r) \<Rightarrow> Inr \<lparr>args_encoding = a, data_encoding = None, result_encoding = r\<rparr>))"
proof -
  let ?reg0 = "empty_registry :: ('a, 'r) xdr_registry"
  from register_all_ok [OF empty_registry_ok(1) assms(1) _ assms(2)] assms(3)
  obtain reg where reg: "register_all True mem es ?reg0 = Some reg" "registry_ok reg"
    "registered reg = (\<lambda>k. case map_of es k of None \<Rightarrow> registered ?reg0 k
      | Some (a, r) \<Rightarrow> [\<lparr>args_encoding = a, data_encoding = None, result_encoding = r\<rparr>])"
    by (auto simp: empty_registry_ok)
  have "map_option fst (lwfs_lookup_xdr_encoding True opcode reg) = Some (case map_of es opcode of
      None \<Rightarrow> Inl LWFS_ERR_NOENT | Some (a, r) \<Rightarrow> Inr \<lparr>args_encoding = a, data_encoding = None, result_encoding = r\<rparr>)" for opcode
  proof -
    obtain reg' where "lwfs_lookup_xdr_encoding True opcode reg = Some (case first_val (registered reg opcode) of
        None \<Rightarrow> Inl LWFS_ERR_NOENT | Some e \<Rightarrow> Inr e, reg')" by (rule lookup_registered [OF reg(2)])
    then show ?thesis unfolding reg(3) by (auto simp: empty_registry_ok split: option.splits)
  qed
  with reg(1) show ?thesis by blast
qed

text \<open>The operations of every service, those of the authorization service, and forty others: the first table is
  enlarged after 35 entries.\<close>

definition demo_encodings :: "(lwfs_opcode \<times> authr_args rpc_args xdr option \<times> authr_res rpc_res xdr option) list" where
  "demo_encodings = service_encodings @ authr_encodings @ map (\<lambda>n. (word_of_nat n, None, None)) [200..<240]"

theorem registered_encodings_found_witness:
  "\<exists>reg. register_all True good_mem demo_encodings empty_registry = Some reg \<and>
    map_option fst (lwfs_lookup_xdr_encoding True 106 reg) = Some (Inr \<lparr>args_encoding = Some xdr_lwfs_get_cap_args,
      data_encoding = None, result_encoding = Some xdr_cap_result\<rparr>) \<and>
    map_option fst (lwfs_lookup_xdr_encoding True 99 reg) = Some (Inl LWFS_ERR_NOENT)"
proof -
  have mem: "enough good_mem" by (simp add: enough_def good_mem_def)
  have keys: "map fst demo_encodings = [1, 2, 3, 101, 102, 103, 104, 105, 106, 107] @ map word_of_nat [200..<240]"
    by (simp add: demo_encodings_def service_encodings_def authr_encodings_def comp_def)
  have "distinct (map fst demo_encodings)" unfolding keys by code_simp
  moreover have "length demo_encodings < 2 ^ 32" using arg_cong [OF keys, of length] by simp
  moreover have "map_of demo_encodings 106 = Some (Some xdr_lwfs_get_cap_args, Some xdr_cap_result)"
    by (simp add: demo_encodings_def service_encodings_def authr_encodings_def)
  moreover have "map_of demo_encodings 99 = None"
  proof -
    have "99 \<notin> set (map fst demo_encodings)" unfolding keys by code_simp
    then show ?thesis by (simp add: map_of_eq_None_iff)
  qed
  ultimately show ?thesis using registered_encodings_found [OF mem] by fastforce
qed

text \<open>C31: 
  The headers of requests and results survive the wire: as long as the id has 32 bits, the header has an encoding, of 144
  and of 56 bytes, and is read back whatever follows it; a larger id has no encoding.
\<close>

theorem headers_round_trip:
  "(case xdr_encode xdr_lwfs_request_header q of
      None \<Rightarrow> 2 ^ 32 \<le> unat (rq_id q)
    | Some bs \<Rightarrow> length bs = 144 \<and> xdr_decode xdr_lwfs_request_header (bs @ rest) = Some (q, rest)) \<and>
   (case xdr_encode xdr_lwfs_result_header a of
      None \<Rightarrow> 2 ^ 32 \<le> unat (rs_id a)
    | Some bs \<Rightarrow> length bs = 56 \<and> xdr_decode xdr_lwfs_result_header (bs @ rest) = Some (a, rest))"
proof -
  have "2 ^ 32 \<le> unat (rq_id q)" if "xdr_encode xdr_lwfs_request_header q = None"
    using that request_header_encodes [of q] by (cases "unat (rq_id q) < 2 ^ 32") auto
  moreover have "2 ^ 32 \<le> unat (rs_id a)" if "xdr_encode xdr_lwfs_result_header a = None"
    using that result_header_encodes [of a] by (cases "unat (rs_id a) < 2 ^ 32") auto
  ultimately show ?thesis
    using request_header_size result_header_size
    by (auto simp: encoded_size_def request_header.decode_encode result_header.decode_encode split: option.splits)
qed

subsection \<open>Waiting\<close>

text \<open>
  When the first wait for a result fails, the client does not learn why: if the poll said which request it was about, the
  code is LWFS_ERR_RPC instead of the one of the wait, and otherwise an element before the array of requests is read.
\<close>

theorem failed_wait_code_lost:
  assumes "req_status req = LWFS_PROCESSING_REQUEST" "wait_events W = e # es" "we_rc e \<noteq> LWFS_OK"
  shows "lwfs_timedwait W req = (if we_which e = 0 then Some (LWFS_ERR_RPC, None, req) else None)"
  using assms by (auto simp: lwfs_timedwait_def lwfs_waitany_def free_req_eq_def wait_complete_def nat_eq_iff)

definition timeout_event :: "int \<Rightarrow> wait_event" where
  "timeout_event which = \<lparr>we_rc = LWFS_ERR_TIMEDOUT, we_which = which, we_kind = PTL_EVENT_OTHER, we_buf = []\<rparr>"

definition pending_request :: authr_req where
  "pending_request = \<lparr>req_id = 1, req_opcode = 107, req_result = None, req_data = None, req_error_code = 0,
     req_status = LWFS_PROCESSING_REQUEST, xdr_encode_args = None, xdr_decode_result = None, args_eq_h = 0, data_eq_h = 0, short_res_eq_h = 5\<rparr>"

theorem failed_wait_code_lost_witness:
  "lwfs_timedwait (demo_wait\<lparr>wait_events := [timeout_event 0]\<rparr>) pending_request = Some (LWFS_ERR_RPC, None, pending_request) \<and>
   lwfs_timedwait (demo_wait\<lparr>wait_events := [timeout_event (- 1)]\<rparr>) pending_request = None"
  by (simp add: failed_wait_code_lost [where e = "timeout_event 0" and es = "[]"]
      failed_wait_code_lost [where e = "timeout_event (- 1)" and es = "[]"] timeout_event_def pending_request_def)

subsection \<open>The service loop\<close>

text \<open>C32: 
  A service that processes its requests at once takes them in the order of arrival, each once, until it ends; and one with a
  limit on the number of requests processes at most as many.
\<close>

theorem service_in_order:
  assumes "service_loop (serve_direct P allowed used) (\<lambda>sv. svc_exit_now (rpc_globals sv)) limit False events st = Some (ending, st')"
  shows "\<exists>n. process_all (serve_direct P allowed used) (take n (arrivals events)) (sl_world st) = Some (sl_world st') \<and>
      sl_count st' = sl_count st + of_nat n \<and> n \<le> length (arrivals events) \<and>
      (0 \<le> sint limit \<and> sl_count st = 0 \<longrightarrow> unat (sl_count st') \<le> unat limit)"
  using service_loop_order [OF assms] service_loop_bound [OF assms] by auto

definition kill_event :: svc_event where
  "kill_event = \<lparr>se_rc = LWFS_OK, se_kind = PTL_EVENT_PUT_END, se_ok = True, se_queue = 0, se_initiator = \<lparr>nid = 3, pid = 30\<rparr>,
     se_bytes = thr_req_buf (opcode_request 103), se_reset = True\<rparr>"

theorem service_in_order_witness:
  "\<exists>n (st' :: _ svc_loop). process_all (serve_direct (\<lambda>e. demo_ptl) 0 (\<lambda>e. 0)) (take n (arrivals [kill_event])) (snd demo_service) = Some (sl_world st') \<and>
     unat (sl_count st') \<le> unat (1 :: u32)"
proof -
  let ?sv = "snd demo_service"
  have "find (\<lambda>opn. op_opcode opn = rq_opcode (opcode_header 103)) (take 3 svc_op_array @ authr_op_array demo_env) = None"
    by (simp add: opcode_header_def svc_op_array_def authr_op_array_def null_op_def LWFS_OP_NULL_def)
  then have "process_request demo_ptl 0 0 (event_request kill_event) ?sv = Some (LWFS_ERR_RPC, ?sv)"
    using find_op_find [of "take 3 svc_op_array @ authr_op_array demo_env" 0 "length (take 3 svc_op_array @ authr_op_array demo_env)"
        "rq_opcode (opcode_header 103)"] opcode_request_decode [of 103]
    by (simp only: process_request_def authr_ops [OF demo_service(1)]) (simp add: event_request_def kill_event_def)
  moreover have "\<not> svc_exit_now (rpc_globals ?sv)"
    by (simp add: demo_service_def authr_service_def lwfs_service_init_def lwfs_service_add_ops_def svc_op_array_def authr_op_array_def Let_def)
  ultimately have "service_loop (serve_direct (\<lambda>e. demo_ptl) 0 (\<lambda>e. 0)) (\<lambda>sv. svc_exit_now (rpc_globals sv)) 1 False [kill_event]
      \<lparr>sl_count = 0, sl_queues = [0, 0], sl_world = ?sv\<rparr> = Some (Svc_Cleanup, \<lparr>sl_count = 1, sl_queues = [1, 0], sl_world = ?sv\<rparr>)"
    by (simp add: svc_done_def receive_def serve_direct_def reqs_per_queue_def kill_event_def event_request_def)
  from service_in_order [OF this] obtain n where "process_all (serve_direct (\<lambda>e. demo_ptl) 0 (\<lambda>e. 0)) (take n (arrivals [kill_event])) ?sv = Some ?sv"
    by auto
  then show ?thesis
    by (intro exI [of _ n]) (rule exI [of _ "\<lparr>sl_count = 1, sl_queues = [1, 0], sl_world = ?sv\<rparr>"], simp)
qed

end
