(* ===== verification/Rpc_Common.thy ===== *)
theory Rpc_Common imports Rpc_Xdr begin

section \<open>Starting and ending the RPC library\<close>

text \<open>
  \<^verbatim>\<open>common/rpc_common/rpc_common.c\<close>, with \<^verbatim>\<open>lwfs_ptl_init\<close> and \<^verbatim>\<open>lwfs_ptl_fini\<close>. The state is the
  flags of the library, whether the network interface is up, and the registry of encodings. \<open>None\<close> is \<^verbatim>\<open>abort\<close>, or
  the use of a table of encodings that could not be made.
\<close>

datatype lwfs_rpc_transport = LWFS_RPC_PTL | LWFS_RPC_LOCAL

record ('a, 'r) rpc_library =
  rpc_init_flag :: bool \<comment> \<open>\<^verbatim>\<open>initialized\<close> of \<^verbatim>\<open>lwfs_rpc_init\<close>\<close>
  rpc_initialized :: bool
  ptl_init_flag :: bool \<comment> \<open>\<^verbatim>\<open>initialized\<close> of \<^verbatim>\<open>lwfs_ptl_init\<close>\<close>
  interface_up :: bool
  xdr_table :: "('a, 'r) xdr_registry"

definition lwfs_ptl_init :: "ptl_rc \<Rightarrow> ptl_rc \<Rightarrow> ('a, 'r) rpc_library \<Rightarrow> (lwfs_return_code \<times> ('a, 'r) rpc_library) option" where
  "lwfs_ptl_init ptl_init ni_init lib =
     (if ptl_init_flag lib then Some (LWFS_OK, lib)
      else if ptl_init \<noteq> PTL_OK then None
      else if ni_init \<noteq> PTL_OK \<and> ni_init \<noteq> PTL_IFACE_DUP then None
      else Some (LWFS_OK, lib\<lparr>ptl_init_flag := True, interface_up := True\<rparr>))"

definition lwfs_ptl_fini :: "('a, 'r) rpc_library \<Rightarrow> lwfs_return_code \<times> ('a, 'r) rpc_library" where
  "lwfs_ptl_fini lib = (LWFS_OK, lib\<lparr>interface_up := False\<rparr>)"

definition lwfs_rpc_init ::
  "ptl_rc \<Rightarrow> ptl_rc \<Rightarrow> bool \<Rightarrow> lwfs_rpc_transport \<Rightarrow> ('a, 'r) rpc_library \<Rightarrow> (lwfs_return_code \<times> ('a, 'r) rpc_library) option" where
  "lwfs_rpc_init ptl_init ni_init table_malloc transport lib =
     (if rpc_init_flag lib then Some (LWFS_OK, lib)
      else if transport \<noteq> LWFS_RPC_PTL then Some (LWFS_ERR_NOENT, lib)
      else do {
        (rc, lib) \<leftarrow> lwfs_ptl_init ptl_init ni_init lib;
        if rc \<noteq> LWFS_OK then Some (rc, lib)
        else let (rc, reg) = lwfs_xdr_init table_malloc (xdr_table lib); lib = lib\<lparr>xdr_table := reg\<rparr> in
        if rc \<noteq> LWFS_OK then Some (rc, lib)
        else Some (LWFS_OK, lib\<lparr>rpc_init_flag := True, rpc_initialized := True\<rparr>) })"

definition lwfs_get_id :: "ptl_rc \<Rightarrow> lwfs_remote_pid \<Rightarrow> lwfs_remote_pid \<Rightarrow> ('a, 'r) rpc_library \<Rightarrow> lwfs_return_code \<times> lwfs_remote_pid" where
  "lwfs_get_id rc ptl_id old lib = (if \<not> rpc_initialized lib then (LWFS_ERR, old) else lwfs_ptl_get_id rc ptl_id old)"

definition lwfs_rpc_fini :: "bool \<Rightarrow> ('a, 'r) rpc_library \<Rightarrow> (lwfs_return_code \<times> ('a, 'r) rpc_library) option" where
  "lwfs_rpc_fini table_malloc lib =
     (let (rc, lib) = lwfs_ptl_fini lib in do {
        (rc, reg) \<leftarrow> lwfs_xdr_fini table_malloc (xdr_table lib);
        Some (LWFS_OK, lib\<lparr>xdr_table := reg\<rparr>) })"

definition new_library :: "('a, 'r) rpc_library" where
  "new_library = \<lparr>rpc_init_flag = False, rpc_initialized = False, ptl_init_flag = False, interface_up = False, xdr_table = empty_registry\<rparr>"

end
