(* ===== verification/Ptl_Properties.thy ===== *)
theory Ptl_Properties imports Rpc_Common begin

section \<open>Properties of the transport\<close>

text \<open>What the success of a transfer means, timeouts, and the library after its end, each with a concrete run.\<close>

definition event_of :: "ptl_event_kind \<Rightarrow> poll_step" where
  "event_of k = Got_Event False 0 \<lparr>pe_kind = k, pe_ok = True\<rparr>"

definition zero_event :: portals_event where
  "zero_event = \<lparr>pe_kind = PTL_EVENT_GET_START, pe_ok = True\<rparr>"

definition good_transfer :: transfer_calls where
  "good_transfer = \<lparr>tc_eq_alloc = PTL_OK, tc_md_bind = PTL_OK, tc_start = PTL_OK, tc_eq_free = PTL_OK\<rparr>"

definition put_steps :: "poll_step list" where
  "put_steps = map event_of [PTL_EVENT_SEND_START, PTL_EVENT_SEND_END, PTL_EVENT_ACK, PTL_EVENT_UNLINK]"

definition get_steps :: "poll_step list" where
  "get_steps = map event_of [PTL_EVENT_REPLY_START, PTL_EVENT_REPLY_END, PTL_EVENT_UNLINK]"

subsection \<open>Transfers\<close>

text \<open>C33: 
  A put that reports success was one: no call failed, the buffer fits the memory of the receiver, and polls have
  brought the events of the send, of its acknowledgement and of the end; and a get that reports success has had the
  reply and the end.
\<close>

theorem transfer_success:
  assumes "eq_empty \<noteq> LWFS_OK"
  shows "(lwfs_ptl_put eq_empty zero T len dest ps = Some (LWFS_OK, rest) \<longrightarrow>
      T = good_transfer\<lparr>tc_eq_free := tc_eq_free T\<rparr> \<and> tc_eq_free T = PTL_OK \<and> scast len \<le> rma_len dest \<and>
      (\<exists>ms. ps = ms @ rest \<and> {PTL_EVENT_SEND_START, PTL_EVENT_SEND_END, PTL_EVENT_ACK, PTL_EVENT_UNLINK} \<subseteq> brought ms)) \<and>
    (lwfs_ptl_get eq_empty garbage T ps = Some (LWFS_OK, rest) \<longrightarrow>
      T = good_transfer \<and> (\<exists>ms. ps = ms @ rest \<and> {PTL_EVENT_REPLY_START, PTL_EVENT_REPLY_END, PTL_EVENT_UNLINK} \<subseteq> brought ms))"
proof (intro conjI impI)
  assume put: "lwfs_ptl_put eq_empty zero T len dest ps = Some (LWFS_OK, rest)"
  then have T: "tc_eq_alloc T = PTL_OK" "tc_md_bind T = PTL_OK" "tc_start T = PTL_OK" "tc_eq_free T = PTL_OK" "\<not> rma_len dest < scast len"
    and run: "await_events eq_empty (\<lambda>_. zero) put_events (\<lambda>got. put_events \<subseteq> got) {} zero ps = Some (LWFS_OK, rest)"
    by (auto simp: lwfs_ptl_put_def transfer_end_def split: if_splits)
  from T(1-4) show "T = good_transfer\<lparr>tc_eq_free := tc_eq_free T\<rparr>" "tc_eq_free T = PTL_OK"
    by (cases T, simp add: good_transfer_def)+
  from T(5) show "scast len \<le> rma_len dest" by simp
  from await_events_ok [OF run assms]
  show "\<exists>ms. ps = ms @ rest \<and> {PTL_EVENT_SEND_START, PTL_EVENT_SEND_END, PTL_EVENT_ACK, PTL_EVENT_UNLINK} \<subseteq> brought ms"
    unfolding put_events_def by blast
next
  assume get: "lwfs_ptl_get eq_empty garbage T ps = Some (LWFS_OK, rest)"
  then have T: "tc_eq_alloc T = PTL_OK" "tc_md_bind T = PTL_OK" "tc_start T = PTL_OK" "tc_eq_free T = PTL_OK"
    and run: "await_events eq_empty id get_events (\<lambda>got. {PTL_EVENT_REPLY_START, PTL_EVENT_REPLY_END, PTL_EVENT_UNLINK} \<subseteq> got \<or>
      get_events \<subseteq> got) {} garbage ps = Some (LWFS_OK, rest)"
    by (auto simp: lwfs_ptl_get_def transfer_end_def split: if_splits)
  from T show "T = good_transfer" by (cases T) (simp add: good_transfer_def)
  from await_events_ok [OF run assms]
  show "\<exists>ms. ps = ms @ rest \<and> {PTL_EVENT_REPLY_START, PTL_EVENT_REPLY_END, PTL_EVENT_UNLINK} \<subseteq> brought ms"
    by (force simp: get_events_def)
qed

lemma demo_put: "lwfs_ptl_put LWFS_ERR zero_event good_transfer 4 (zero_rma\<lparr>rma_len := 8\<rparr>) (put_steps @ rest) = Some (LWFS_OK, rest)"
  by (simp add: lwfs_ptl_put_def good_transfer_def put_steps_def event_of_def await_event put_events_def transfer_end_def zero_rma_def)

lemma demo_get: "lwfs_ptl_get LWFS_ERR zero_event good_transfer (get_steps @ rest) = Some (LWFS_OK, rest)"
  by (simp add: lwfs_ptl_get_def good_transfer_def get_steps_def event_of_def await_event get_events_def transfer_end_def)

theorem transfer_success_witness:
  "\<exists>ms. put_steps @ [Poll_Failed] = ms @ [Poll_Failed] \<and> PTL_EVENT_ACK \<in> brought ms"
  using transfer_success [of LWFS_ERR zero_event good_transfer 4 "zero_rma\<lparr>rma_len := 8\<rparr>" "put_steps @ [Poll_Failed]" "[Poll_Failed]"] demo_put
  by (auto simp: put_events_def)

lemma put_events_then_nothing:
  "set ks \<subseteq> put_events \<Longrightarrow> \<not> put_events \<subseteq> set ks \<union> got \<Longrightarrow> pe_ok zero \<Longrightarrow>
   await_events eq_empty (\<lambda>_. zero) put_events (\<lambda>got. put_events \<subseteq> got) got ev (map event_of ks @ Got_Nothing exit_now # ps) =
     Some (LWFS_ERR_TIMEDOUT, ps)"
proof (induction ks arbitrary: got ev)
  case (Cons k ks)
  then have "\<not> put_events \<subseteq> set ks \<union> insert k got" "\<not> put_events \<subseteq> insert k got" by auto
  with Cons show ?case by (simp add: event_of_def await_event)
qed (simp add: await_first_empty)

text \<open>C38: 
  One poll of 100 ms without an event ends a put with LWFS_ERR_TIMEDOUT, whichever of its events have come before and may
  still come: the three retries that the code means to make are never made.
\<close>

theorem transfer_never_retries:
  assumes "set ks \<subseteq> put_events" "\<not> put_events \<subseteq> set ks" "pe_ok zero" "scast len \<le> rma_len dest"
  shows "lwfs_ptl_put eq_empty zero good_transfer len dest (map event_of ks @ Got_Nothing exit_now # ps) = Some (LWFS_ERR_TIMEDOUT, ps)"
  using put_events_then_nothing [of ks "{}" zero] assms
  by (simp add: lwfs_ptl_put_def transfer_end_def good_transfer_def not_less [symmetric])

theorem transfer_never_retries_witness:
  "lwfs_ptl_put LWFS_ERR zero_event good_transfer 4 (zero_rma\<lparr>rma_len := 8\<rparr>)
     (map event_of [PTL_EVENT_SEND_START, PTL_EVENT_SEND_END] @ Got_Nothing False # map event_of [PTL_EVENT_ACK, PTL_EVENT_UNLINK]) =
   Some (LWFS_ERR_TIMEDOUT, map event_of [PTL_EVENT_ACK, PTL_EVENT_UNLINK])"
  by (rule transfer_never_retries) (simp_all add: put_events_def zero_event_def zero_rma_def)

subsection \<open>Timeouts\<close>

lemma elapsed_step: "0 \<le> sint (e :: u32) \<Longrightarrow> sint e + sint d < 2 ^ 31 \<Longrightarrow> 0 \<le> sint d \<Longrightarrow> sint (e + d) = sint e + sint d"
  by (simp add: sint_word_ariths signed_take_bit_int_eq_self)

lemma poll_times_out:
  "0 \<le> sint e \<Longrightarrow> 0 < sint d \<Longrightarrow> sint t + sint d \<le> 2 ^ 31 \<Longrightarrow> 0 < sint t \<Longrightarrow> 0 < m \<Longrightarrow>
   sint e + (int m - 1) * sint d < sint t \<Longrightarrow> sint t \<le> sint e + int m * sint d \<Longrightarrow>
   poll_loop eq_empty t d e which ev (replicate m (Got_Nothing False) @ ps) = Some (LWFS_ERR_TIMEDOUT, which, ev, ps)"
proof (induction m arbitrary: e)
  case (Suc m)
  have "0 \<le> int m * sint d" using Suc.prems(2) by simp
  then have below: "sint e < sint t" using Suc.prems(6) by simp
  have e: "sint (e + d) = sint e + sint d" using Suc.prems(1-3) below by (intro elapsed_step) simp_all
  show ?case
  proof (cases m)
    case 0
    with Suc.prems e show ?thesis by (simp add: Let_def)
  next
    case (Suc k)
    have next_one: "sint e + sint d + (int m - 1) * sint d < sint t" "sint t \<le> sint e + sint d + int m * sint d"
      using Suc.prems(6,7) by (simp_all add: algebra_simps)
    have "0 \<le> int k * sint d" using Suc.prems(2) by simp
    then have "sint e + sint d < sint t" using next_one(1) Suc by simp
    with Suc.IH [of "e + d"] Suc.prems(1-5) next_one e Suc show ?thesis by (simp add: Let_def)
  qed
qed simp

lemma poll_never_times_out:
  "\<not> 0 < sint t \<Longrightarrow> poll_loop eq_empty t d e which ev (replicate n (Got_Nothing False)) = None"
  by (induction n arbitrary: e) (simp_all add: Let_def)

text \<open>C34: 
  A poll with a positive timeout, in milliseconds, ends after exactly as many empty polls of 100 ms as the timeout
  needs, rounded up; and one with a timeout of 0 or less, also the one that asks for no wait at all, goes on for as long as nothing comes.
\<close>

theorem poll_timeout:
  assumes "pe_ok ev"
  shows "(0 < sint t \<and> sint t + 100 \<le> 2 ^ 31 \<longrightarrow>
      lwfs_ptl_eq_poll eq_empty t which ev (replicate (nat ((sint t + 99) div 100)) (Got_Nothing False) @ ps) =
        Some (LWFS_ERR_TIMEDOUT, which, ev, ps)) \<and>
    (sint t \<le> 0 \<longrightarrow> lwfs_ptl_eq_poll eq_empty t which ev (replicate n (Got_Nothing False)) = None)"
proof (intro conjI impI)
  assume t: "0 < sint t \<and> sint t + 100 \<le> 2 ^ 31"
  let ?m = "nat ((sint t + 99) div 100)"
  have "poll_loop eq_empty t (timeout_per_call t) 0 which ev (replicate ?m (Got_Nothing False) @ ps) = Some (LWFS_ERR_TIMEDOUT, which, ev, ps)"
  proof (cases "sint t < 100")
    case True
    then have "?m = 1" "timeout_per_call t = t" using t by (simp_all add: timeout_per_call_def MIN_TIMEOUT_def)
    with t show ?thesis by simp
  next
    case False
    then have d: "sint (timeout_per_call t) = 100" using t by (simp add: timeout_per_call_def MIN_TIMEOUT_def)
    have "0 \<le> (sint t + 99) div 100" using t by (intro div_int_pos_iff [THEN iffD2]) simp
    then have m: "int ?m = (sint t + 99) div 100" by simp
    have "(int ?m - 1) * 100 < sint t" "sint t \<le> int ?m * 100" "0 < ?m" unfolding m using t by (simp_all, linarith+)
    with t d show ?thesis by (intro poll_times_out) simp_all
  qed
  with assms show "lwfs_ptl_eq_poll eq_empty t which ev (replicate ?m (Got_Nothing False) @ ps) = Some (LWFS_ERR_TIMEDOUT, which, ev, ps)"
    by (simp add: lwfs_ptl_eq_poll_def)
next
  assume "sint t \<le> 0"
  then show "lwfs_ptl_eq_poll eq_empty t which ev (replicate n (Got_Nothing False)) = None"
    by (simp add: lwfs_ptl_eq_poll_def poll_never_times_out)
qed

theorem poll_timeout_witness:
  "lwfs_ptl_eq_poll LWFS_ERR 250 0 zero_event (replicate 3 (Got_Nothing False)) = Some (LWFS_ERR_TIMEDOUT, 0, zero_event, []) \<and>
   lwfs_ptl_eq_poll LWFS_ERR 0 0 zero_event (replicate 1000 (Got_Nothing False)) = None"
  using poll_timeout [of zero_event 250 LWFS_ERR 0 "[]" 0] poll_timeout [of zero_event 0 LWFS_ERR 0 "[]" 1000]
  by (simp add: zero_event_def)

subsection \<open>The end of the library\<close>

text \<open>
  The RPC library cannot be started again: after its end the start reports success but does nothing, the network interface
  stays down, and registering or looking up an encoding uses the destroyed table.
\<close>

theorem library_not_restartable:
  assumes "lwfs_rpc_init pi ni m transport lib = Some (LWFS_OK, lib1)" "lwfs_rpc_fini m1 lib1 = Some (rc, lib2)"
  shows "lwfs_rpc_init pi' ni' m' transport' lib2 = Some (LWFS_OK, lib2) \<and> \<not> interface_up lib2 \<and>
    lwfs_lookup_xdr_encoding m' opcode (xdr_table lib2) = None \<and>
    lwfs_register_xdr_encoding True mem opcode args data result (xdr_table lib2) = None"
proof -
  from assms(1) have flag: "rpc_init_flag lib1"
    by (auto simp: lwfs_rpc_init_def bind_eq_Some_conv Let_def lwfs_xdr_init_def split: if_splits prod.splits dest: arg_cong [of _ _ rpc_init_flag])
  obtain reg where reg: "lwfs_xdr_fini m1 (xdr_table lib1) = Some (LWFS_OK, reg)" "lib2 = lib1\<lparr>interface_up := False, xdr_table := reg\<rparr>"
    using assms(2) by (auto simp: lwfs_rpc_fini_def lwfs_ptl_fini_def bind_eq_Some_conv lwfs_xdr_fini_def Let_def)
  have "xdr_initialized reg" "encodings_ht reg = None"
    using reg(1) by (auto simp: lwfs_xdr_fini_def lwfs_xdr_init_def Let_def split: if_splits)
  with flag reg(2) show ?thesis
    by (simp add: lwfs_rpc_init_def lwfs_lookup_xdr_encoding_def lwfs_register_xdr_encoding_def lwfs_xdr_init_def)
qed

theorem library_not_restartable_witness:
  "\<exists>lib1 lib2. lwfs_rpc_init PTL_OK PTL_OK True LWFS_RPC_PTL (new_library :: (unit, unit) rpc_library) = Some (LWFS_OK, lib1) \<and>
    interface_up lib1 \<and> lwfs_rpc_fini True lib1 = Some (LWFS_OK, lib2) \<and>
    lwfs_rpc_init PTL_OK PTL_OK True LWFS_RPC_PTL lib2 = Some (LWFS_OK, lib2) \<and> \<not> interface_up lib2"
proof -
  let ?lib1 = "(new_library :: (unit, unit) rpc_library)\<lparr>rpc_init_flag := True, rpc_initialized := True, ptl_init_flag := True,
    interface_up := True, xdr_table := snd (lwfs_xdr_init True empty_registry)\<rparr>"
  have init: "lwfs_rpc_init PTL_OK PTL_OK True LWFS_RPC_PTL new_library = Some (LWFS_OK, ?lib1)"
    by (simp add: lwfs_rpc_init_def lwfs_ptl_init_def new_library_def lwfs_xdr_init_def empty_registry_def)
  obtain lib2 where "lwfs_rpc_fini True ?lib1 = Some (LWFS_OK, lib2)"
    by (auto simp: lwfs_rpc_fini_def lwfs_ptl_fini_def lwfs_xdr_fini_def lwfs_xdr_init_def empty_registry_def Let_def create_hashtable_def
        split: prod.splits)
  with init library_not_restartable [OF init this, of PTL_OK PTL_OK True LWFS_RPC_PTL] show ?thesis by force
qed

end
