(* ===== verification/Naming_Rpc.thy ===== *)
theory Naming_Rpc imports Naming_Server Rpc_Sizes begin

section \<open>The naming server as a service\<close>

text \<open>
  \<^verbatim>\<open>common/naming_common/{naming_args,naming_xdr}.c\<close> and the operation array of
  \<^verbatim>\<open>server/naming_server/naming_server.c\<close>. A pointer in the arguments is an option; the model does not follow a handler
  that is given a null one for an entry, a name, an object or a capability: it has no value then, also where the code returns an
  error before it uses the pointer. A name is a string without NUL; \<^verbatim>\<open>char[64]\<close> is read up to its first NUL. A distributed
  object in an entry is read and ignored, as by the server.
\<close>

subsection \<open>Names and entries\<close>

definition xdr_int :: "int xdr" where
  "xdr_int = \<lparr>xdr_encode = (\<lambda>i. if - (2 ^ 31) \<le> i \<and> i < 2 ^ 31 then xdr_encode xdr_uint32_t (word_of_int i) else None),
     xdr_decode = (\<lambda>bs. map_option (map_prod sint id) (xdr_decode xdr_uint32_t bs))\<rparr>"

definition char_byte :: "char \<Rightarrow> u8" where
  "char_byte c = of_nat (of_char c)"

definition byte_char :: "u8 \<Rightarrow> char" where
  "byte_char b = char_of (unat b)"

text \<open>\<^verbatim>\<open>xdr_char\<close> writes a signed char as an int.\<close>

definition xdr_char :: "char xdr" where
  "xdr_char = xdr_block 4 (\<lambda>c. be_bytes 4 (scast (char_byte c) :: u32)) (\<lambda>bs. byte_char (ucast (be_word bs :: u32)))"

definition xdr_name_vector :: "string xdr" where
  "xdr_name_vector = \<lparr>
     xdr_encode = (\<lambda>s. if length s \<le> LWFS_NAME_LEN \<and> CHR 0x00 \<notin> set s
       then encode_elems xdr_char (s @ replicate (LWFS_NAME_LEN - length s) (CHR 0x00)) else None),
     xdr_decode = (\<lambda>bs. map_option (map_prod c_str id) (decode_elems xdr_char LWFS_NAME_LEN bs))\<rparr>"

definition xdr_lwfs_name :: "string xdr" where
  "xdr_lwfs_name = \<lparr>
     xdr_encode = (\<lambda>s. if CHR 0x00 \<notin> set s then xdr_encode (xdr_bytes LWFS_NAME_LEN) (map char_byte s) else None),
     xdr_decode = (\<lambda>bs. map_option (map_prod (\<lambda>b. c_str (map byte_char b)) id) (xdr_decode (xdr_bytes LWFS_NAME_LEN) bs))\<rparr>"

definition xdr_name_pointer :: "string option xdr" where
  "xdr_name_pointer = xdr_case Some (\<lambda>n. n) xdr_lwfs_name"

text \<open>The array of the objects of a distributed object is on the wire a pointer to one; its two ints are kept as words.\<close>

record lwfs_distributed_obj =
  chunk_size :: u32
  ss_obj_count :: u32
  ss_obj :: "lwfs_obj option"

definition xdr_lwfs_distributed_obj :: "lwfs_distributed_obj xdr" where
  "xdr_lwfs_distributed_obj = xdr_struct (\<lambda>d. (chunk_size d, ss_obj_count d, ss_obj d))
     (\<lambda>(s, n, b). \<lparr>chunk_size = s, ss_obj_count = n, ss_obj = b\<rparr>)
     (xdr_pair xdr_uint32_t (xdr_pair xdr_uint32_t (xdr_pointer xdr_lwfs_obj)))"

definition xdr_lwfs_ns_entry :: "lwfs_ns_entry xdr" where
  "xdr_lwfs_ns_entry = xdr_struct
     (\<lambda>e. (ns_name e, dirent_oid e, inode_oid e, parent_oid e, link_cnt e, ns_entry_obj e, ns_file_obj e, None))
     (\<lambda>(n, d, i, p, l, b, f, _). \<lparr>ns_name = n, dirent_oid = d, inode_oid = i, parent_oid = p, link_cnt = l, ns_entry_obj = b, ns_file_obj = f\<rparr>)
     (xdr_pair xdr_name_vector (xdr_pair xdr_lwfs_uuid (xdr_pair xdr_lwfs_uuid (xdr_pair xdr_lwfs_uuid (xdr_pair xdr_int
       (xdr_pair xdr_lwfs_obj (xdr_pair (xdr_pointer xdr_lwfs_obj) (xdr_pointer xdr_lwfs_distributed_obj))))))))"

definition xdr_lwfs_ns_entry_array :: "lwfs_ns_entry list xdr" where "xdr_lwfs_ns_entry_array = xdr_array xdr_lwfs_ns_entry"

definition xdr_lwfs_namespace :: "lwfs_namespace xdr" where
  "xdr_lwfs_namespace = xdr_struct (\<lambda>n. (nsp_name n, ns_entry n)) (\<lambda>(n, e). \<lparr>nsp_name = n, ns_entry = e\<rparr>)
     (xdr_pair xdr_name_vector xdr_lwfs_ns_entry)"

definition xdr_lwfs_namespace_array :: "lwfs_namespace list xdr" where "xdr_lwfs_namespace_array = xdr_array xdr_lwfs_namespace"

definition xdr_lwfs_time :: "lwfs_time xdr" where
  "xdr_lwfs_time = xdr_struct (\<lambda>t. (seconds t, nseconds t)) (\<lambda>(s, n). \<lparr>seconds = s, nseconds = n\<rparr>) (xdr_pair xdr_uint32_t xdr_uint32_t)"

definition xdr_lwfs_stat_data :: "lwfs_stat_data xdr" where
  "xdr_lwfs_stat_data = xdr_struct (\<lambda>s. (atime s, mtime s, ctime s, st_size s))
     (\<lambda>(a, m, c, z). \<lparr>atime = a, mtime = m, ctime = c, st_size = z\<rparr>)
     (xdr_pair xdr_lwfs_time (xdr_pair xdr_lwfs_time (xdr_pair xdr_lwfs_time xdr_uint64_t)))"

subsection \<open>Arguments and results\<close>

datatype naming_args =
    Create_Dir_Args "lwfs_txn option" "lwfs_ns_entry option" "string option" lwfs_cid "lwfs_cap option"
  | Remove_Dir_Args "lwfs_txn option" "lwfs_ns_entry option" "string option" "lwfs_cap option"
  | Create_File_Args "lwfs_txn option" "lwfs_ns_entry option" "string option" "lwfs_obj option" "lwfs_cap option"
  | Create_Link_Args "lwfs_txn option" "lwfs_ns_entry option" "string option" "lwfs_cap option" "lwfs_ns_entry option" "string option" "lwfs_cap option"
  | Unlink_Args "lwfs_txn option" "lwfs_ns_entry option" "string option" "lwfs_cap option"
  | List_Dir_Args "lwfs_ns_entry option" "lwfs_cap option"
  | Lookup_Args "lwfs_txn option" "lwfs_ns_entry option" "string option" u32 "lwfs_cap option"
  | Name_Stat_Args "lwfs_txn option" "lwfs_obj option" "lwfs_cap option"
  | Create_Namespace_Args "lwfs_txn option" "string option" lwfs_cid
  | Remove_Namespace_Args "lwfs_txn option" "string option" "lwfs_cap option"
  | Get_Namespace_Args "string option"

datatype naming_res =
    Entry_Result lwfs_ns_entry | Entries_Result "lwfs_ns_entry list" | Stat_Result lwfs_stat_data
  | Namespace_Result lwfs_namespace | Namespaces_Result "lwfs_namespace list"

fun create_dir_fields where
  "create_dir_fields (App_Args (Create_Dir_Args t p n c cap)) = Some (t, p, n, c, cap)"
| "create_dir_fields _ = None"

fun remove_dir_fields where
  "remove_dir_fields (App_Args (Remove_Dir_Args t p n cap)) = Some (t, p, n, cap)"
| "remove_dir_fields _ = None"

fun create_file_fields where
  "create_file_fields (App_Args (Create_File_Args t p n b cap)) = Some (t, p, n, b, cap)"
| "create_file_fields _ = None"

fun create_link_fields where
  "create_link_fields (App_Args (Create_Link_Args t p n cap tp tn tcap)) = Some (t, p, n, cap, tp, tn, tcap)"
| "create_link_fields _ = None"

fun unlink_fields where
  "unlink_fields (App_Args (Unlink_Args t p n cap)) = Some (t, p, n, cap)"
| "unlink_fields _ = None"

fun list_dir_fields where
  "list_dir_fields (App_Args (List_Dir_Args p cap)) = Some (p, cap)"
| "list_dir_fields _ = None"

fun lookup_fields where
  "lookup_fields (App_Args (Lookup_Args t p n l cap)) = Some (t, p, n, l, cap)"
| "lookup_fields _ = None"

fun name_stat_fields where
  "name_stat_fields (App_Args (Name_Stat_Args t b cap)) = Some (t, b, cap)"
| "name_stat_fields _ = None"

fun create_namespace_fields where
  "create_namespace_fields (App_Args (Create_Namespace_Args t n c)) = Some (t, n, c)"
| "create_namespace_fields _ = None"

fun remove_namespace_fields where
  "remove_namespace_fields (App_Args (Remove_Namespace_Args t n cap)) = Some (t, n, cap)"
| "remove_namespace_fields _ = None"

fun get_namespace_fields where
  "get_namespace_fields (App_Args (Get_Namespace_Args n)) = Some n"
| "get_namespace_fields _ = None"

definition xdr_lwfs_create_dir_args :: "naming_args rpc_args xdr" where
  "xdr_lwfs_create_dir_args = xdr_case (\<lambda>(t, p, n, c, cap). App_Args (Create_Dir_Args t p n c cap)) create_dir_fields
     (xdr_pair (xdr_pointer xdr_lwfs_txn) (xdr_pair (xdr_pointer xdr_lwfs_ns_entry) (xdr_pair xdr_name_pointer (xdr_pair xdr_uint64_t (xdr_pointer xdr_lwfs_cap)))))"

definition xdr_lwfs_remove_dir_args :: "naming_args rpc_args xdr" where
  "xdr_lwfs_remove_dir_args = xdr_case (\<lambda>(t, p, n, cap). App_Args (Remove_Dir_Args t p n cap)) remove_dir_fields
     (xdr_pair (xdr_pointer xdr_lwfs_txn) (xdr_pair (xdr_pointer xdr_lwfs_ns_entry) (xdr_pair xdr_name_pointer (xdr_pointer xdr_lwfs_cap))))"

definition xdr_lwfs_create_file_args :: "naming_args rpc_args xdr" where
  "xdr_lwfs_create_file_args = xdr_case (\<lambda>(t, p, n, b, cap). App_Args (Create_File_Args t p n b cap)) create_file_fields
     (xdr_pair (xdr_pointer xdr_lwfs_txn) (xdr_pair (xdr_pointer xdr_lwfs_ns_entry) (xdr_pair xdr_name_pointer (xdr_pair (xdr_pointer xdr_lwfs_obj) (xdr_pointer xdr_lwfs_cap)))))"

definition xdr_lwfs_create_link_args :: "naming_args rpc_args xdr" where
  "xdr_lwfs_create_link_args = xdr_case (\<lambda>(t, p, n, cap, tp, tn, tcap). App_Args (Create_Link_Args t p n cap tp tn tcap)) create_link_fields
     (xdr_pair (xdr_pointer xdr_lwfs_txn) (xdr_pair (xdr_pointer xdr_lwfs_ns_entry) (xdr_pair xdr_name_pointer (xdr_pair (xdr_pointer xdr_lwfs_cap) (xdr_pair (xdr_pointer xdr_lwfs_ns_entry) (xdr_pair xdr_name_pointer (xdr_pointer xdr_lwfs_cap)))))))"

definition xdr_lwfs_unlink_args :: "naming_args rpc_args xdr" where
  "xdr_lwfs_unlink_args = xdr_case (\<lambda>(t, p, n, cap). App_Args (Unlink_Args t p n cap)) unlink_fields
     (xdr_pair (xdr_pointer xdr_lwfs_txn) (xdr_pair (xdr_pointer xdr_lwfs_ns_entry) (xdr_pair xdr_name_pointer (xdr_pointer xdr_lwfs_cap))))"

definition xdr_lwfs_list_dir_args :: "naming_args rpc_args xdr" where
  "xdr_lwfs_list_dir_args = xdr_case (\<lambda>(p, cap). App_Args (List_Dir_Args p cap)) list_dir_fields
     (xdr_pair (xdr_pointer xdr_lwfs_ns_entry) (xdr_pointer xdr_lwfs_cap))"

definition xdr_lwfs_lookup_args :: "naming_args rpc_args xdr" where
  "xdr_lwfs_lookup_args = xdr_case (\<lambda>(t, p, n, l, cap). App_Args (Lookup_Args t p n l cap)) lookup_fields
     (xdr_pair (xdr_pointer xdr_lwfs_txn) (xdr_pair (xdr_pointer xdr_lwfs_ns_entry) (xdr_pair xdr_name_pointer (xdr_pair xdr_uint32_t (xdr_pointer xdr_lwfs_cap)))))"

definition xdr_lwfs_name_stat_args :: "naming_args rpc_args xdr" where
  "xdr_lwfs_name_stat_args = xdr_case (\<lambda>(t, b, cap). App_Args (Name_Stat_Args t b cap)) name_stat_fields
     (xdr_pair (xdr_pointer xdr_lwfs_txn) (xdr_pair (xdr_pointer xdr_lwfs_obj) (xdr_pointer xdr_lwfs_cap)))"

definition xdr_lwfs_create_namespace_args :: "naming_args rpc_args xdr" where
  "xdr_lwfs_create_namespace_args = xdr_case (\<lambda>(t, n, c). App_Args (Create_Namespace_Args t n c)) create_namespace_fields
     (xdr_pair (xdr_pointer xdr_lwfs_txn) (xdr_pair xdr_name_pointer xdr_uint64_t))"

definition xdr_lwfs_remove_namespace_args :: "naming_args rpc_args xdr" where
  "xdr_lwfs_remove_namespace_args = xdr_case (\<lambda>(t, n, cap). App_Args (Remove_Namespace_Args t n cap)) remove_namespace_fields
     (xdr_pair (xdr_pointer xdr_lwfs_txn) (xdr_pair xdr_name_pointer (xdr_pointer xdr_lwfs_cap)))"

definition xdr_lwfs_get_namespace_args :: "naming_args rpc_args xdr" where
  "xdr_lwfs_get_namespace_args = xdr_case (\<lambda>n. App_Args (Get_Namespace_Args n)) get_namespace_fields
     xdr_name_pointer"

fun entry_result :: "naming_res rpc_res \<Rightarrow> lwfs_ns_entry option" where
  "entry_result (App_Res (Entry_Result r)) = Some r"
| "entry_result _ = None"

fun entries_result :: "naming_res rpc_res \<Rightarrow> (lwfs_ns_entry list) option" where
  "entries_result (App_Res (Entries_Result r)) = Some r"
| "entries_result _ = None"

fun stat_result :: "naming_res rpc_res \<Rightarrow> lwfs_stat_data option" where
  "stat_result (App_Res (Stat_Result r)) = Some r"
| "stat_result _ = None"

fun namespace_result :: "naming_res rpc_res \<Rightarrow> lwfs_namespace option" where
  "namespace_result (App_Res (Namespace_Result r)) = Some r"
| "namespace_result _ = None"

fun namespaces_result :: "naming_res rpc_res \<Rightarrow> (lwfs_namespace list) option" where
  "namespaces_result (App_Res (Namespaces_Result r)) = Some r"
| "namespaces_result _ = None"

definition xdr_entry_result :: "naming_res rpc_res xdr" where
  "xdr_entry_result = xdr_case (\<lambda>r. App_Res (Entry_Result r)) entry_result xdr_lwfs_ns_entry"

definition xdr_entries_result :: "naming_res rpc_res xdr" where
  "xdr_entries_result = xdr_case (\<lambda>r. App_Res (Entries_Result r)) entries_result xdr_lwfs_ns_entry_array"

definition xdr_stat_result :: "naming_res rpc_res xdr" where
  "xdr_stat_result = xdr_case (\<lambda>r. App_Res (Stat_Result r)) stat_result xdr_lwfs_stat_data"

definition xdr_namespace_result :: "naming_res rpc_res xdr" where
  "xdr_namespace_result = xdr_case (\<lambda>r. App_Res (Namespace_Result r)) namespace_result xdr_lwfs_namespace"

definition xdr_namespaces_result :: "naming_res rpc_res xdr" where
  "xdr_namespaces_result = xdr_case (\<lambda>r. App_Res (Namespaces_Result r)) namespaces_result xdr_lwfs_namespace_array"

subsection \<open>The operations\<close>

text \<open>A handler as an operation: the fields of the arguments, and the result stored where the caller says.\<close>

fun res_answer :: "('v \<Rightarrow> 'r) \<Rightarrow> rpc_globals \<Rightarrow> (lwfs_return_code + 'v) \<times> 's \<Rightarrow> lwfs_return_code \<times> 'r rpc_res \<times> rpc_globals \<times> 's" where
  "res_answer mk g (Inl rc, s) = (rc, No_Res, g, s)"
| "res_answer mk g (Inr v, s) = (LWFS_OK, App_Res (mk v), g, s)"

definition as_proc ::
  "('a rpc_args \<Rightarrow> 'f option) \<Rightarrow> ('v \<Rightarrow> 'r) \<Rightarrow> ('f \<Rightarrow> 's \<Rightarrow> ((lwfs_return_code + 'v) \<times> 's) option) \<Rightarrow> ('a rpc_args, 'r rpc_res, 's) lwfs_rpc_proc" where
  "as_proc get_it mk f caller args data_addr = (\<lambda>(g, s). do { x \<leftarrow> get_it args; map_option (res_answer mk g) (f x s) })"

type_synonym ('d, 'i) naming_op = "(naming_args rpc_args, naming_res rpc_res, ('d, 'i) naming_state) lwfs_svc_op"

type_synonym ('d, 'i) naming_proc = "(naming_args rpc_args, naming_res rpc_res, ('d, 'i) naming_state) lwfs_rpc_proc"

definition create_dir_proc :: "('d, 'i) naming_env \<Rightarrow> u32 \<Rightarrow> ('d, 'i) naming_proc" where
  "create_dir_proc N t = as_proc create_dir_fields Entry_Result
     (\<lambda>(txn, p, n, c, cap) s. do { p \<leftarrow> p; n \<leftarrow> n; cap \<leftarrow> cap; naming_create_dir N t s p n c cap })"

definition remove_dir_proc :: "('d, 'i) naming_env \<Rightarrow> ('d, 'i) naming_proc" where
  "remove_dir_proc N = as_proc remove_dir_fields Entry_Result
     (\<lambda>(txn, p, n, cap) s. do { p \<leftarrow> p; n \<leftarrow> n; cap \<leftarrow> cap; naming_remove_dir N s p n cap })"

definition create_file_proc :: "('d, 'i) naming_env \<Rightarrow> u32 \<Rightarrow> ('d, 'i) naming_proc" where
  "create_file_proc N t = as_proc create_file_fields Entry_Result
     (\<lambda>(txn, p, n, b, cap) s. do { p \<leftarrow> p; n \<leftarrow> n; b \<leftarrow> b; cap \<leftarrow> cap; naming_create_file N t s p n b cap })"

definition create_link_proc :: "('d, 'i) naming_env \<Rightarrow> ('d, 'i) naming_proc" where
  "create_link_proc N = as_proc create_link_fields Entry_Result
     (\<lambda>(txn, p, n, cap, tp, tn, tcap) s. do { p \<leftarrow> p; n \<leftarrow> n; cap \<leftarrow> cap; tp \<leftarrow> tp; tn \<leftarrow> tn; tcap \<leftarrow> tcap; naming_create_link N s p n cap tp tn tcap })"

definition unlink_proc :: "('d, 'i) naming_env \<Rightarrow> ('d, 'i) naming_proc" where
  "unlink_proc N = as_proc unlink_fields Entry_Result
     (\<lambda>(txn, p, n, cap) s. do { p \<leftarrow> p; n \<leftarrow> n; cap \<leftarrow> cap; naming_unlink N s p n cap })"

definition list_dir_proc :: "('d, 'i) naming_env \<Rightarrow> ('d, 'i) naming_proc" where
  "list_dir_proc N = as_proc list_dir_fields Entries_Result
     (\<lambda>(p, cap) s. do { p \<leftarrow> p; cap \<leftarrow> cap; map_option (\<lambda>r. (r, s)) (naming_list_dir N s p cap) })"

definition lookup_proc :: "('d, 'i) naming_env \<Rightarrow> ('d, 'i) naming_proc" where
  "lookup_proc N = as_proc lookup_fields Entry_Result
     (\<lambda>(txn, p, n, l, cap) s. do { p \<leftarrow> p; n \<leftarrow> n; cap \<leftarrow> cap; map_option (\<lambda>r. (r, s)) (naming_lookup N s p n cap) })"

definition name_stat_proc :: "('d, 'i) naming_env \<Rightarrow> ('d, 'i) naming_proc" where
  "name_stat_proc N = as_proc name_stat_fields Stat_Result
     (\<lambda>(txn, b, cap) s. do { b \<leftarrow> b; cap \<leftarrow> cap; Some (naming_stat N s b cap, s) })"

definition create_namespace_proc :: "('d, 'i) naming_env \<Rightarrow> u32 \<Rightarrow> ('d, 'i) naming_proc" where
  "create_namespace_proc N t = as_proc create_namespace_fields Namespace_Result
     (\<lambda>(txn, n, c) s. do { n \<leftarrow> n; naming_create_namespace N t s n c })"

definition remove_namespace_proc :: "('d, 'i) naming_env \<Rightarrow> ('d, 'i) naming_proc" where
  "remove_namespace_proc N = as_proc remove_namespace_fields Namespace_Result
     (\<lambda>(txn, n, cap) s. do { n \<leftarrow> n; cap \<leftarrow> cap; naming_remove_namespace N s n cap })"

definition get_namespace_proc :: "('d, 'i) naming_env \<Rightarrow> ('d, 'i) naming_proc" where
  "get_namespace_proc N = as_proc get_namespace_fields Namespace_Result
     (\<lambda>n s. do { n \<leftarrow> n; map_option (\<lambda>r. (r, s)) (naming_get_namespace N s n) })"

text \<open>\<^verbatim>\<open>naming_list_namespaces\<close> has two parameters and is called with four: it takes the
  arguments for its result, which are not as long as one.\<close>

definition list_namespaces_proc :: "('d, 'i) naming_proc" where
  "list_namespaces_proc caller args data_addr st = None"

text \<open>The operations. The listing of the namespaces has no procedure for its arguments.\<close>

definition naming_op_array :: "('d, 'i) naming_env \<Rightarrow> u32 \<Rightarrow> ('d, 'i) naming_op list" where
  "naming_op_array N t =
     [\<lparr>op_opcode = 201, op_func = Some (create_dir_proc N t), op_args_size = 40, op_decode_args = Some xdr_lwfs_create_dir_args,
       op_zero_args = App_Args (Create_Dir_Args None None None 0 None), op_res_size = 256, op_encode_res = Some xdr_entry_result\<rparr>,
      \<lparr>op_opcode = 202, op_func = Some (remove_dir_proc N), op_args_size = 32, op_decode_args = Some xdr_lwfs_remove_dir_args,
       op_zero_args = App_Args (Remove_Dir_Args None None None None), op_res_size = 256, op_encode_res = Some xdr_entry_result\<rparr>,
      \<lparr>op_opcode = 203, op_func = Some (create_file_proc N t), op_args_size = 40, op_decode_args = Some xdr_lwfs_create_file_args,
       op_zero_args = App_Args (Create_File_Args None None None None None), op_res_size = 256, op_encode_res = Some xdr_entry_result\<rparr>,
      \<lparr>op_opcode = 204, op_func = Some (create_link_proc N), op_args_size = 56, op_decode_args = Some xdr_lwfs_create_link_args,
       op_zero_args = App_Args (Create_Link_Args None None None None None None None), op_res_size = 256, op_encode_res = Some xdr_entry_result\<rparr>,
      \<lparr>op_opcode = 205, op_func = Some (unlink_proc N), op_args_size = 32, op_decode_args = Some xdr_lwfs_unlink_args,
       op_zero_args = App_Args (Unlink_Args None None None None), op_res_size = 256, op_encode_res = Some xdr_entry_result\<rparr>,
      \<lparr>op_opcode = 208, op_func = Some (list_dir_proc N), op_args_size = 16, op_decode_args = Some xdr_lwfs_list_dir_args,
       op_zero_args = App_Args (List_Dir_Args None None), op_res_size = 16, op_encode_res = Some xdr_entries_result\<rparr>,
      \<lparr>op_opcode = 207, op_func = Some (lookup_proc N), op_args_size = 40, op_decode_args = Some xdr_lwfs_lookup_args,
       op_zero_args = App_Args (Lookup_Args None None None 0 None), op_res_size = 256, op_encode_res = Some xdr_entry_result\<rparr>,
      \<lparr>op_opcode = 209, op_func = Some (name_stat_proc N), op_args_size = 24, op_decode_args = Some xdr_lwfs_name_stat_args,
       op_zero_args = App_Args (Name_Stat_Args None None None), op_res_size = 32, op_encode_res = Some xdr_stat_result\<rparr>,
      \<lparr>op_opcode = 210, op_func = Some (create_namespace_proc N t), op_args_size = 24, op_decode_args = Some xdr_lwfs_create_namespace_args,
       op_zero_args = App_Args (Create_Namespace_Args None None 0), op_res_size = 320, op_encode_res = Some xdr_namespace_result\<rparr>,
      \<lparr>op_opcode = 211, op_func = Some (remove_namespace_proc N), op_args_size = 24, op_decode_args = Some xdr_lwfs_remove_namespace_args,
       op_zero_args = App_Args (Remove_Namespace_Args None None None), op_res_size = 320, op_encode_res = Some xdr_namespace_result\<rparr>,
      \<lparr>op_opcode = 212, op_func = Some (get_namespace_proc N), op_args_size = 8, op_decode_args = Some xdr_lwfs_get_namespace_args,
       op_zero_args = App_Args (Get_Namespace_Args None), op_res_size = 320, op_encode_res = Some xdr_namespace_result\<rparr>,
      \<lparr>op_opcode = 213, op_func = Some list_namespaces_proc, op_args_size = 0, op_decode_args = None, op_zero_args = No_Args, op_res_size = 16, op_encode_res = Some xdr_namespaces_result\<rparr>,
      null_op]"

definition naming_encodings :: "(lwfs_opcode \<times> naming_args rpc_args xdr option \<times> naming_res rpc_res xdr option) list" where
  "naming_encodings =
     [(201, Some xdr_lwfs_create_dir_args, Some xdr_entry_result),
      (202, Some xdr_lwfs_remove_dir_args, Some xdr_entry_result),
      (203, Some xdr_lwfs_create_file_args, Some xdr_entry_result),
      (204, Some xdr_lwfs_create_link_args, Some xdr_entry_result),
      (205, Some xdr_lwfs_unlink_args, Some xdr_entry_result),
      (207, Some xdr_lwfs_lookup_args, Some xdr_entry_result),
      (208, Some xdr_lwfs_list_dir_args, Some xdr_entries_result),
      (209, Some xdr_lwfs_name_stat_args, Some xdr_stat_result),
      (210, Some xdr_lwfs_create_namespace_args, Some xdr_namespace_result),
      (211, Some xdr_lwfs_remove_namespace_args, Some xdr_namespace_result),
      (212, Some xdr_lwfs_get_namespace_args, Some xdr_namespace_result),
      (213, None, Some xdr_namespaces_result)]"

definition register_naming_encodings ::
  "bool \<Rightarrow> ht_mem \<Rightarrow> (naming_args rpc_args, naming_res rpc_res) xdr_registry \<Rightarrow>
     (lwfs_return_code \<times> (naming_args rpc_args, naming_res rpc_res) xdr_registry) option" where
  "register_naming_encodings can_malloc mem reg = map_option (Pair LWFS_OK) (register_all can_malloc mem naming_encodings reg)"

text \<open>The service as \<^verbatim>\<open>naming_server_init\<close> makes it, of twelve operations.\<close>

type_synonym ('d, 'i) naming_service_state = "(naming_args rpc_args, naming_res rpc_res, ('d, 'i) naming_state) rpc_server"

definition naming_service ::
  "('d, 'i) naming_env \<Rightarrow> u32 \<Rightarrow> lwfs_remote_pid \<Rightarrow> ('d, 'i) naming_state \<Rightarrow> (lwfs_service \<times> ('d, 'i) naming_service_state) option" where
  "naming_service N t my_id st = do {
     (rc, svc, sv) \<leftarrow> lwfs_service_init my_id True 0 LWFS_SHORT_REQUEST_SIZE
       \<lparr>rpc_globals = \<lparr>local_service = zero_service, svc_exit_now = False, trace_settings = (0, [], 0)\<rparr>, supported_ops = None,
         num_supported_ops = 0, res_counter = 1, server_state = st, sent = [], posted = []\<rparr>;
     (rc, sv) \<leftarrow> lwfs_service_add_ops True (naming_op_array N t) 12 sv;
     Some (svc, sv) }"

end
