(* ===== verification/Naming_Exchange.thy ===== *)
theory Naming_Exchange imports Naming_Rpc begin

section \<open>Remote requests to the naming server\<close>

text \<open>
  The composition of client, RPC library and naming server: an exchange has the effect and the result of \<open>naming_dispatch\<close>, for
  arguments that C can hold and whose encoding is as long as the structure they are decoded to.
\<close>

subsection \<open>Laws of the procedures\<close>

lemma xdr_int_proc: "xdr_proc xdr_int"
proof
  fix i bs rest
  assume "xdr_encode xdr_int i = Some bs"
  then have i: "- (2 ^ 31) \<le> i" "i < 2 ^ 31" "xdr_encode xdr_uint32_t (word_of_int i) = Some bs"
    by (auto simp: xdr_int_def split: if_splits)
  have "sint (word_of_int i :: u32) = i" using i(1,2) by (simp add: sint_sbintrunc' signed_take_bit_int_eq_self)
  with xdr_proc.decode_encode [OF xdr_uint32_proc i(3), of rest] show "xdr_decode xdr_int (bs @ rest) = Some (i, rest)"
    by (simp add: xdr_int_def)
qed

lemma byte_char_byte [simp]: "byte_char (char_byte c) = c"
proof -
  have "(of_char c :: nat) = of_char c mod 256" using of_char_of [of "of_char c :: nat"] by simp
  then have "(of_char c :: nat) < 256" using mod_less_divisor [of 256 "of_char c :: nat"] by linarith
  then have "unat (of_nat (of_char c) :: u8) = (of_char c :: nat)" by (simp add: unat_of_nat take_bit_nat_eq_self)
  then show ?thesis by (simp add: byte_char_def char_byte_def)
qed

lemma ucast_scast_byte [simp]: "ucast (scast (b :: u8) :: u32) = b"
  by (rule bit_word_eqI) (auto simp: bit_simps)

lemma xdr_char_proc: "xdr_proc xdr_char"
  unfolding xdr_char_def by (rule xdr_block_proc) (simp add: be_word_bytes)

lemma c_str_pad: "CHR 0x00 \<notin> set s \<Longrightarrow> c_str (s @ replicate n (CHR 0x00)) = s"
  by (induction s) (auto simp: c_str_def takeWhile_replicate)

lemma c_str_name: "CHR 0x00 \<notin> set s \<Longrightarrow> c_str s = s"
  using c_str_pad [of s 0] by simp

lemma xdr_name_vector_proc: "xdr_proc xdr_name_vector"
proof
  fix s bs rest
  assume "xdr_encode xdr_name_vector s = Some bs"
  then have s: "length s \<le> LWFS_NAME_LEN" "CHR 0x00 \<notin> set s"
    "encode_elems xdr_char (s @ replicate (LWFS_NAME_LEN - length s) (CHR 0x00)) = Some bs"
    by (auto simp: xdr_name_vector_def split: if_splits)
  from decode_encode_elems [OF xdr_char_proc s(3), of rest] s(1,2)
  show "xdr_decode xdr_name_vector (bs @ rest) = Some (s, rest)" by (simp add: xdr_name_vector_def c_str_pad)
qed

lemma xdr_lwfs_name_proc: "xdr_proc xdr_lwfs_name"
proof
  fix s bs rest
  assume "xdr_encode xdr_lwfs_name s = Some bs"
  then have s: "CHR 0x00 \<notin> set s" "xdr_encode (xdr_bytes LWFS_NAME_LEN) (map char_byte s) = Some bs"
    by (auto simp: xdr_lwfs_name_def split: if_splits)
  from xdr_proc.decode_encode [OF xdr_bytes_proc s(2), of rest] s(1)
  show "xdr_decode xdr_lwfs_name (bs @ rest) = Some (s, rest)" by (simp add: xdr_lwfs_name_def comp_def c_str_name)
qed

lemma xdr_name_pointer_proc: "xdr_proc xdr_name_pointer"
  unfolding xdr_name_pointer_def by (rule xdr_case_proc [OF xdr_lwfs_name_proc]) simp

lemma xdr_lwfs_ns_entry_proc: "xdr_proc xdr_lwfs_ns_entry"
  unfolding xdr_lwfs_ns_entry_def xdr_lwfs_distributed_obj_def
  by (intro xdr_procs xdr_name_vector_proc xdr_lwfs_uuid_proc xdr_int_proc xdr_lwfs_obj_proc) simp_all

lemma xdr_lwfs_namespace_proc: "xdr_proc xdr_lwfs_namespace"
  unfolding xdr_lwfs_namespace_def by (intro xdr_procs xdr_name_vector_proc xdr_lwfs_ns_entry_proc) simp

lemma xdr_lwfs_stat_data_proc: "xdr_proc xdr_lwfs_stat_data"
  unfolding xdr_lwfs_stat_data_def xdr_lwfs_time_def by (intro xdr_procs) simp_all

lemmas naming_procs = xdr_procs xdr_lwfs_obj_proc xdr_lwfs_cap_proc xdr_name_pointer_proc xdr_lwfs_ns_entry_proc xdr_lwfs_namespace_proc
  xdr_lwfs_stat_data_proc

lemma naming_arg_procs:
  "xdr_proc xdr_lwfs_create_dir_args" "xdr_proc xdr_lwfs_remove_dir_args" "xdr_proc xdr_lwfs_create_file_args"
  "xdr_proc xdr_lwfs_create_link_args" "xdr_proc xdr_lwfs_unlink_args" "xdr_proc xdr_lwfs_list_dir_args" "xdr_proc xdr_lwfs_lookup_args"
  "xdr_proc xdr_lwfs_name_stat_args" "xdr_proc xdr_lwfs_create_namespace_args" "xdr_proc xdr_lwfs_remove_namespace_args"
  "xdr_proc xdr_lwfs_get_namespace_args"
  unfolding xdr_lwfs_create_dir_args_def xdr_lwfs_remove_dir_args_def xdr_lwfs_create_file_args_def xdr_lwfs_create_link_args_def
    xdr_lwfs_unlink_args_def xdr_lwfs_list_dir_args_def xdr_lwfs_lookup_args_def xdr_lwfs_name_stat_args_def
    xdr_lwfs_create_namespace_args_def xdr_lwfs_remove_namespace_args_def xdr_lwfs_get_namespace_args_def xdr_lwfs_txn_def
  by (intro xdr_case_proc naming_procs,
    auto elim!: create_dir_fields.elims remove_dir_fields.elims create_file_fields.elims create_link_fields.elims unlink_fields.elims
      list_dir_fields.elims lookup_fields.elims name_stat_fields.elims create_namespace_fields.elims remove_namespace_fields.elims
      get_namespace_fields.elims)+

lemma naming_res_procs:
  "xdr_proc xdr_entry_result" "xdr_proc xdr_entries_result" "xdr_proc xdr_stat_result" "xdr_proc xdr_namespace_result"
  unfolding xdr_entry_result_def xdr_entries_result_def xdr_stat_result_def xdr_namespace_result_def xdr_lwfs_ns_entry_array_def
  by (intro xdr_case_proc naming_procs; auto elim!: entry_result.elims entries_result.elims stat_result.elims namespace_result.elims)+

subsection \<open>Sizes\<close>

definition wire_name :: "string \<Rightarrow> bool" where
  "wire_name s \<longleftrightarrow> length s \<le> LWFS_NAME_LEN \<and> CHR 0x00 \<notin> set s"

definition wire_entry :: "lwfs_ns_entry \<Rightarrow> bool" where
  "wire_entry e \<longleftrightarrow> wire_name (ns_name e) \<and> - (2 ^ 31) \<le> link_cnt e \<and> link_cnt e < 2 ^ 31"

lemma encodes_char: "encodes xdr_char c 4"
  by (simp add: encodes_def xdr_char_def xdr_block_def)

lemma encodes_name_vector: "wire_name s \<Longrightarrow> encodes xdr_name_vector s 256"
  using encodes_elems [OF encodes_char, of "s @ replicate (LWFS_NAME_LEN - length s) (CHR 0x00)"]
  by (auto simp: encodes_def xdr_name_vector_def wire_name_def LWFS_NAME_LEN_def)

lemma encodes_name: "wire_name s \<Longrightarrow> encodes xdr_lwfs_name s (4 + length s + xdr_pad (length s))"
  by (auto simp: encodes_def xdr_lwfs_name_def wire_name_def xdr_bytes_def xdr_uint32_t_def xdr_block_def LWFS_NAME_LEN_def)

lemma encodes_name_pointer: "wire_name s \<Longrightarrow> encodes xdr_name_pointer (Some s) (4 + length s + xdr_pad (length s))"
  unfolding xdr_name_pointer_def by (rule encodes_case [of _ _ s]) (simp_all add: encodes_name)

lemma encodes_int: "- (2 ^ 31) \<le> i \<Longrightarrow> i < 2 ^ 31 \<Longrightarrow> encodes xdr_int i 4"
  by (simp add: encodes_def xdr_int_def xdr_uint32_t_def xdr_block_def)

lemma encodes_entry: "wire_entry e \<Longrightarrow> encodes xdr_lwfs_ns_entry e (412 + (4 + (if ns_file_obj e = None then 0 else 100)))"
proof -
  assume e: "wire_entry e"
  have "encodes (xdr_pointer xdr_lwfs_distributed_obj) None 4" using encodes_pointer [of None xdr_lwfs_distributed_obj 0] by simp
  with e have "encodes xdr_lwfs_ns_entry e
      (256 + (16 + (16 + (16 + (4 + (100 + ((4 + (if ns_file_obj e = None then 0 else 100)) + 4)))))))"
    unfolding xdr_lwfs_ns_entry_def wire_entry_def
    by (intro encodes_struct encodes_pair encodes_name_vector encodes_words encodes_int encodes_obj encodes_pointer) simp_all
  then show ?thesis by (simp add: algebra_simps)
qed

lemma entry_pointer_size: "wire_entry e \<Longrightarrow>
    encodes (xdr_pointer xdr_lwfs_ns_entry) (Some e) (416 + (4 + (if ns_file_obj e = None then 0 else 100)))"
  using encodes_pointer [of "Some e" xdr_lwfs_ns_entry "412 + (4 + (if ns_file_obj e = None then 0 else 100))"] encodes_entry [of e]
  by (auto split: if_splits)

lemma obj_pointer_size: "encodes (xdr_pointer xdr_lwfs_obj) (Some b) 104"
  using encodes_pointer [of "Some b" xdr_lwfs_obj 100] encodes_obj by simp

lemma encodes_stat: "encodes xdr_lwfs_stat_data s 32"
proof -
  have "encodes xdr_lwfs_stat_data s ((4 + 4) + ((4 + 4) + ((4 + 4) + 8)))"
    unfolding xdr_lwfs_stat_data_def xdr_lwfs_time_def by (intro encodes_struct encodes_pair encodes_words)
  then show ?thesis by simp
qed

lemma encode_elems_bound:
  "(\<And>v. v \<in> set vs \<Longrightarrow> \<exists>bs. xdr_encode A v = Some bs \<and> length bs \<le> m) \<Longrightarrow> \<exists>bs. encode_elems A vs = Some bs \<and> length bs \<le> m * length vs"
proof (induction vs)
  case (Cons v vs)
  obtain cs where "encode_elems A vs = Some cs" "length cs \<le> m * length vs" using Cons by auto
  moreover obtain bs where "xdr_encode A v = Some bs" "length bs \<le> m" using Cons.prems [of v] by auto
  ultimately show ?case by simp
qed simp

lemma name_size: "length (s :: string) \<le> 64 \<Longrightarrow> length s + xdr_pad (length s) \<le> 67"
  unfolding xdr_pad_def using mod_less_divisor [of 4 "4 - length s mod 4"] by linarith

lemma pad_at_least: "4 < n \<Longrightarrow> 8 \<le> n + xdr_pad n" "0 < n \<Longrightarrow> 4 \<le> n + xdr_pad n"
proof -
  have "n = 4 * (n div 4) + n mod 4" by simp
  moreover consider "n mod 4 = 0" | "n mod 4 = 1" | "n mod 4 = 2" | "n mod 4 = 3" by linarith
  then have "(n mod 4 = 0 \<and> xdr_pad n = 0) \<or> (n mod 4 \<noteq> 0 \<and> n mod 4 + xdr_pad n = 4)" by cases (simp_all add: xdr_pad_def)
  ultimately have "(4 < n \<longrightarrow> 8 \<le> n + xdr_pad n) \<and> (0 < n \<longrightarrow> 4 \<le> n + xdr_pad n)" by presburger
  then show "4 < n \<Longrightarrow> 8 \<le> n + xdr_pad n" "0 < n \<Longrightarrow> 4 \<le> n + xdr_pad n" by simp_all
qed

subsection \<open>Requests on the wire\<close>

fun naming_opcode :: "naming_request \<Rightarrow> lwfs_opcode" where
  "naming_opcode (Create_Dir t p n c cap) = 201"
| "naming_opcode (Remove_Dir p n cap) = 202"
| "naming_opcode (Create_File t p n b cap) = 203"
| "naming_opcode (Create_Link p n cap tp tn tcap) = 204"
| "naming_opcode (Unlink p n cap) = 205"
| "naming_opcode (Lookup p n cap) = 207"
| "naming_opcode (List_Dir p cap) = 208"
| "naming_opcode (Name_Stat b cap) = 209"
| "naming_opcode (Create_Namespace t n c) = 210"
| "naming_opcode (Remove_Namespace n cap) = 211"
| "naming_opcode (Get_Namespace n) = 212"
| "naming_opcode List_Namespaces = 213"

fun naming_wire_args :: "lwfs_txn option \<Rightarrow> u32 \<Rightarrow> naming_request \<Rightarrow> naming_args rpc_args" where
  "naming_wire_args txn l (Create_Dir t p n c cap) = App_Args (Create_Dir_Args txn (Some p) (Some n) c (Some cap))"
| "naming_wire_args txn l (Remove_Dir p n cap) = App_Args (Remove_Dir_Args txn (Some p) (Some n) (Some cap))"
| "naming_wire_args txn l (Create_File t p n b cap) = App_Args (Create_File_Args txn (Some p) (Some n) (Some b) (Some cap))"
| "naming_wire_args txn l (Create_Link p n cap tp tn tcap) =
     App_Args (Create_Link_Args txn (Some p) (Some n) (Some cap) (Some tp) (Some tn) (Some tcap))"
| "naming_wire_args txn l (Unlink p n cap) = App_Args (Unlink_Args txn (Some p) (Some n) (Some cap))"
| "naming_wire_args txn l (Lookup p n cap) = App_Args (Lookup_Args txn (Some p) (Some n) l (Some cap))"
| "naming_wire_args txn l (List_Dir p cap) = App_Args (List_Dir_Args (Some p) (Some cap))"
| "naming_wire_args txn l (Name_Stat b cap) = App_Args (Name_Stat_Args txn (Some b) (Some cap))"
| "naming_wire_args txn l (Create_Namespace t n c) = App_Args (Create_Namespace_Args txn (Some n) c)"
| "naming_wire_args txn l (Remove_Namespace n cap) = App_Args (Remove_Namespace_Args txn (Some n) (Some cap))"
| "naming_wire_args txn l (Get_Namespace n) = App_Args (Get_Namespace_Args (Some n))"
| "naming_wire_args txn l List_Namespaces = No_Args"

text \<open>The time is the one of the server. A namespace needs a name of more than four characters, or a transaction: the
  arguments of a shorter one are shorter than their structure.\<close>

fun wire_request :: "lwfs_txn option \<Rightarrow> u32 \<Rightarrow> naming_request \<Rightarrow> bool" where
  "wire_request txn t (Create_Dir t' p n c cap) \<longleftrightarrow> t' = t \<and> wire_entry p \<and> wire_name n"
| "wire_request txn t (Remove_Dir p n cap) \<longleftrightarrow> wire_entry p \<and> wire_name n"
| "wire_request txn t (Create_File t' p n b cap) \<longleftrightarrow> t' = t \<and> wire_entry p \<and> wire_name n"
| "wire_request txn t (Create_Link p n cap tp tn tcap) \<longleftrightarrow> wire_entry p \<and> wire_name n \<and> wire_entry tp \<and> wire_name tn"
| "wire_request txn t (Unlink p n cap) \<longleftrightarrow> wire_entry p \<and> wire_name n"
| "wire_request txn t (Lookup p n cap) \<longleftrightarrow> wire_entry p \<and> wire_name n"
| "wire_request txn t (List_Dir p cap) \<longleftrightarrow> wire_entry p"
| "wire_request txn t (Name_Stat b cap) \<longleftrightarrow> True"
| "wire_request txn t (Create_Namespace t' n c) \<longleftrightarrow> t' = t \<and> wire_name n \<and> (txn \<noteq> None \<or> 4 < length n)"
| "wire_request txn t (Remove_Namespace n cap) \<longleftrightarrow> wire_name n"
| "wire_request txn t (Get_Namespace n) \<longleftrightarrow> wire_name n \<and> n \<noteq> []"
| "wire_request txn t List_Namespaces \<longleftrightarrow> False"

text \<open>The result of a handler: the code of its failure, or what it leaves for the caller.\<close>

fun naming_result :: "naming_response \<Rightarrow> lwfs_return_code + naming_res" where
  "naming_result (Entry_Response v) = map_sum id Entry_Result v"
| "naming_result (Entries_Response v) = map_sum id Entries_Result v"
| "naming_result (Stat_Response v) = map_sum id Stat_Result v"
| "naming_result (Namespace_Response v) = map_sum id Namespace_Result v"
| "naming_result (Namespaces_Response v) = map_sum id Namespaces_Result v"

definition naming_client_answer :: "naming_res rpc_res option \<Rightarrow> naming_response \<Rightarrow> lwfs_return_code \<times> naming_res rpc_res option" where
  "naming_client_answer old resp = (case naming_result resp of Inl rc \<Rightarrow> (rc, old) | Inr r \<Rightarrow> (LWFS_OK, Some (App_Res r)))"

fun wire_result :: "naming_res \<Rightarrow> bool" where
  "wire_result (Entry_Result e) \<longleftrightarrow> wire_entry e"
| "wire_result (Entries_Result es) \<longleftrightarrow> length es < 2 ^ 20 \<and> (\<forall>e \<in> set es. wire_entry e)"
| "wire_result (Stat_Result s) \<longleftrightarrow> True"
| "wire_result (Namespace_Result n) \<longleftrightarrow> wire_name (nsp_name n) \<and> wire_entry (ns_entry n)"
| "wire_result (Namespaces_Result ns) \<longleftrightarrow> False"

text \<open>The procedure for a result.\<close>

fun result_proc :: "naming_res \<Rightarrow> naming_res rpc_res xdr" where
  "result_proc (Entry_Result e) = xdr_entry_result"
| "result_proc (Entries_Result es) = xdr_entries_result"
| "result_proc (Stat_Result s) = xdr_stat_result"
| "result_proc (Namespace_Result n) = xdr_namespace_result"
| "result_proc (Namespaces_Result ns) = xdr_namespaces_result"

lemma wire_result_fits: "wire_result r \<Longrightarrow> fits (result_proc r) (App_Res r) 1"
proof (induction r)
  case (Entry_Result e)
  then show ?case
    by (auto simp: xdr_entry_result_def intro!: encodes_fits [OF encodes_case [OF _ encodes_entry]])
next
  case (Entries_Result es)
  have "\<exists>bs. xdr_encode xdr_lwfs_ns_entry e = Some bs \<and> length bs \<le> 516" if "e \<in> set es" for e
    using encodes_entry [of e] that Entries_Result by (auto simp: encodes_def split: if_splits)
  then obtain bs where bs: "encode_elems xdr_lwfs_ns_entry es = Some bs" "length bs \<le> 516 * length es"
    using encode_elems_bound [of es xdr_lwfs_ns_entry 516] by blast
  have "length bs + 4 < 2 ^ 32" using bs(2) Entries_Result by simp
  with bs(1) Entries_Result show ?case
    by (simp add: fits_def xdr_entries_result_def xdr_case_def xdr_lwfs_ns_entry_array_def xdr_array_def xdr_uint32_t_def xdr_block_def)
next
  case (Stat_Result s)
  then show ?case
    by (auto simp: xdr_stat_result_def intro!: encodes_fits [OF encodes_case [OF _ encodes_stat]])
next
  case (Namespace_Result n)
  then have "encodes xdr_lwfs_namespace n (256 + (412 + (4 + (if ns_file_obj (ns_entry n) = None then 0 else 100))))"
    unfolding xdr_lwfs_namespace_def by (intro encodes_struct encodes_pair encodes_name_vector encodes_entry) simp_all
  then show ?case
    by (auto simp: xdr_namespace_result_def intro!: encodes_fits [OF encodes_case])
qed simp


subsection \<open>The arguments fit\<close>

lemma name_pointer_bound:
  assumes "wire_name n"
  obtains k where "encodes xdr_name_pointer (Some n) k" "4 + length n \<le> k" "k < 100"
proof -
  have "length n \<le> 64" using assms by (simp add: wire_name_def LWFS_NAME_LEN_def)
  then have "4 + length n + xdr_pad (length n) < 100" using name_size [of n] by simp
  with encodes_name_pointer [OF assms] that show thesis by simp
qed

lemma entry_pointer_bound:
  assumes "wire_entry e"
  obtains k where "encodes (xdr_pointer xdr_lwfs_ns_entry) (Some e) k" "400 \<le> k" "k < 1000"
  using entry_pointer_size [OF assms] that by auto

lemma txn_bound:
  obtains k where "encodes (xdr_pointer xdr_lwfs_txn) txn k" "4 \<le> k" "k < 200" "txn \<noteq> None \<longrightarrow> 100 \<le> k"
  using txn_size [of txn] that by auto

lemma encodes_case_fits: "encodes A x k \<Longrightarrow> get_it v = Some x \<Longrightarrow> n \<le> k \<Longrightarrow> k < 2 ^ 32 \<Longrightarrow> fits (xdr_case mk get_it A) v n"
  by (rule encodes_fits [OF encodes_case])

lemma dir_args_fit:
  assumes "wire_entry p" "wire_name n"
  shows "fits xdr_lwfs_create_dir_args (App_Args (Create_Dir_Args txn (Some p) (Some n) c (Some cap))) 40"
    "fits xdr_lwfs_remove_dir_args (App_Args (Remove_Dir_Args txn (Some p) (Some n) (Some cap))) 32"
    "fits xdr_lwfs_create_file_args (App_Args (Create_File_Args txn (Some p) (Some n) (Some b) (Some cap))) 40"
    "fits xdr_lwfs_unlink_args (App_Args (Unlink_Args txn (Some p) (Some n) (Some cap))) 32"
    "fits xdr_lwfs_lookup_args (App_Args (Lookup_Args txn (Some p) (Some n) l (Some cap))) 40"
    "fits xdr_lwfs_list_dir_args (App_Args (List_Dir_Args (Some p) (Some cap))) 16"
proof -
  obtain i j k where t: "encodes (xdr_pointer xdr_lwfs_txn) txn i" "i < 200"
    and e: "encodes (xdr_pointer xdr_lwfs_ns_entry) (Some p) j" "400 \<le> j" "j < 1000"
    and s: "encodes xdr_name_pointer (Some n) k" "k < 100"
    using txn_bound [of txn] entry_pointer_bound [OF assms(1)] name_pointer_bound [OF assms(2)] by metis
  note pairs = encodes_pair [OF t(1) encodes_pair [OF e(1) encodes_pair [OF s(1)]]]
  note bounds = t(2) e(2,3) s(2)
  show "fits xdr_lwfs_create_dir_args (App_Args (Create_Dir_Args txn (Some p) (Some n) c (Some cap))) 40"
    unfolding xdr_lwfs_create_dir_args_def
    by (rule encodes_case_fits [OF pairs [OF encodes_pair [OF encodes_words(2) cap_pointer_size]]]) (use bounds in simp_all)
  show "fits xdr_lwfs_remove_dir_args (App_Args (Remove_Dir_Args txn (Some p) (Some n) (Some cap))) 32"
    unfolding xdr_lwfs_remove_dir_args_def by (rule encodes_case_fits [OF pairs [OF cap_pointer_size]]) (use bounds in simp_all)
  show "fits xdr_lwfs_create_file_args (App_Args (Create_File_Args txn (Some p) (Some n) (Some b) (Some cap))) 40"
    unfolding xdr_lwfs_create_file_args_def
    by (rule encodes_case_fits [OF pairs [OF encodes_pair [OF obj_pointer_size cap_pointer_size]]]) (use bounds in simp_all)
  show "fits xdr_lwfs_unlink_args (App_Args (Unlink_Args txn (Some p) (Some n) (Some cap))) 32"
    unfolding xdr_lwfs_unlink_args_def by (rule encodes_case_fits [OF pairs [OF cap_pointer_size]]) (use bounds in simp_all)
  show "fits xdr_lwfs_lookup_args (App_Args (Lookup_Args txn (Some p) (Some n) l (Some cap))) 40"
    unfolding xdr_lwfs_lookup_args_def
    by (rule encodes_case_fits [OF pairs [OF encodes_pair [OF encodes_words(1) cap_pointer_size]]]) (use bounds in simp_all)
  show "fits xdr_lwfs_list_dir_args (App_Args (List_Dir_Args (Some p) (Some cap))) 16"
    unfolding xdr_lwfs_list_dir_args_def by (rule encodes_case_fits [OF encodes_pair [OF e(1) cap_pointer_size]]) (use bounds in simp_all)
qed

lemma create_link_args_fit:
  assumes "wire_entry p" "wire_name n" "wire_entry tp" "wire_name tn"
  shows "fits xdr_lwfs_create_link_args
    (App_Args (Create_Link_Args txn (Some p) (Some n) (Some cap) (Some tp) (Some tn) (Some tcap))) 56"
proof -
  obtain i j k where t: "encodes (xdr_pointer xdr_lwfs_txn) txn i" "i < 200"
    and e: "encodes (xdr_pointer xdr_lwfs_ns_entry) (Some p) j" "400 \<le> j" "j < 1000"
    and s: "encodes xdr_name_pointer (Some n) k" "k < 100"
    using txn_bound [of txn] entry_pointer_bound [OF assms(1)] name_pointer_bound [OF assms(2)] by metis
  obtain j' k' where e': "encodes (xdr_pointer xdr_lwfs_ns_entry) (Some tp) j'" "j' < 1000"
    and s': "encodes xdr_name_pointer (Some tn) k'" "k' < 100"
    using entry_pointer_bound [OF assms(3)] name_pointer_bound [OF assms(4)] by metis
  show ?thesis
    unfolding xdr_lwfs_create_link_args_def
    by (rule encodes_case_fits [OF encodes_pair [OF t(1) encodes_pair [OF e(1) encodes_pair [OF s(1) encodes_pair [OF cap_pointer_size
        encodes_pair [OF e'(1) encodes_pair [OF s'(1) cap_pointer_size]]]]]]]) (use t e s e' s' in simp_all)
qed

lemma namespace_args_fit:
  assumes "wire_name n"
  shows "txn \<noteq> None \<or> 4 < length n \<Longrightarrow> fits xdr_lwfs_create_namespace_args (App_Args (Create_Namespace_Args txn (Some n) c)) 24"
    "fits xdr_lwfs_remove_namespace_args (App_Args (Remove_Namespace_Args txn (Some n) (Some cap))) 24"
    "n \<noteq> [] \<Longrightarrow> fits xdr_lwfs_get_namespace_args (App_Args (Get_Namespace_Args (Some n))) 8"
proof -
  have len: "length n \<le> 64" using assms by (simp add: wire_name_def LWFS_NAME_LEN_def)
  let ?k = "4 + length n + xdr_pad (length n)"
  have pad: "4 < length n \<Longrightarrow> 8 \<le> length n + xdr_pad (length n)" "n \<noteq> [] \<Longrightarrow> 4 \<le> length n + xdr_pad (length n)"
    using pad_at_least [of "length n"] by simp_all
  note s = encodes_name_pointer [OF assms] and big = name_size [OF len]
  obtain i where t: "encodes (xdr_pointer xdr_lwfs_txn) txn i" "4 \<le> i" "i < 200" "txn \<noteq> None \<longrightarrow> 100 \<le> i" by (rule txn_bound)
  show "fits xdr_lwfs_create_namespace_args (App_Args (Create_Namespace_Args txn (Some n) c)) 24" if "txn \<noteq> None \<or> 4 < length n"
    unfolding xdr_lwfs_create_namespace_args_def
    by (rule encodes_case_fits [OF encodes_pair [OF t(1) encodes_pair [OF s encodes_words(2)]]]) (use t big pad that in auto)
  show "fits xdr_lwfs_remove_namespace_args (App_Args (Remove_Namespace_Args txn (Some n) (Some cap))) 24"
    unfolding xdr_lwfs_remove_namespace_args_def
    by (rule encodes_case_fits [OF encodes_pair [OF t(1) encodes_pair [OF s cap_pointer_size]]]) (use t big in simp_all)
  show "fits xdr_lwfs_get_namespace_args (App_Args (Get_Namespace_Args (Some n))) 8" if "n \<noteq> []"
    unfolding xdr_lwfs_get_namespace_args_def by (rule encodes_case_fits [OF s]) (use big pad that in simp_all)
qed

lemma stat_args_fit: "fits xdr_lwfs_name_stat_args (App_Args (Name_Stat_Args txn (Some b) (Some cap))) 24"
proof -
  obtain i where t: "encodes (xdr_pointer xdr_lwfs_txn) txn i" "i < 200" by (rule txn_bound)
  show ?thesis
    unfolding xdr_lwfs_name_stat_args_def
    by (rule encodes_case_fits [OF encodes_pair [OF t(1) encodes_pair [OF obj_pointer_size cap_pointer_size]]]) (use t in simp_all)
qed

subsection \<open>A failure has a code\<close>

text \<open>No handler fails with the code of success.\<close>

lemma get_by_err:
  "naming_db_get_by_name N st p n = Inl rc \<Longrightarrow> rc \<noteq> LWFS_OK" "naming_db_get_by_oid N st oid = Inl rc \<Longrightarrow> rc \<noteq> LWFS_OK"
  by (auto simp: naming_db_get_by_name_def naming_db_get_by_oid_def db1_get_def db2_get_def inode_get_by_dirent_def inode_get_def
      split: sum.splits db_rc.splits)

lemma map_sum_Inl: "map_sum id f v = Inl rc \<longleftrightarrow> v = Inl rc"
  by (cases v) auto

lemma db3_err: "db3_get N d key m = Some (Inl rc) \<Longrightarrow> rc \<noteq> LWFS_OK" "db3_size N d key = Inl rc \<Longrightarrow> rc \<noteq> LWFS_OK"
proof -
  have "cursor_rest f m i = Some (Inl rc) \<Longrightarrow> rc \<noteq> LWFS_OK" for f m i
  proof (induction f m i rule: cursor_rest.induct)
    case (1 f m i)
    then show ?case
      by (subst (asm) (2) cursor_rest.simps)
        (auto split: sum.splits if_splits simp: map_sum_Inl)
  qed
  then show "db3_get N d key m = Some (Inl rc) \<Longrightarrow> rc \<noteq> LWFS_OK"
    by (auto simp: db3_get_def map_sum_Inl split: sum.splits if_splits option.splits)
  show "db3_size N d key = Inl rc \<Longrightarrow> rc \<noteq> LWFS_OK" by (auto simp: db3_size_def Let_def split: sum.splits if_splits)
qed

lemma get_inodes_err: "get_inodes N i des room n = Some (Inl rc) \<Longrightarrow> rc \<noteq> LWFS_OK"
proof (induction N i des room n rule: get_inodes.induct)
  case (3 N i de des room n)
  have "inode_get_by_dirent N i de = Inl rc \<Longrightarrow> rc \<noteq> LWFS_OK"
    by (auto simp: inode_get_by_dirent_def inode_get_def split: sum.splits db_rc.splits)
  with 3 show ?case by (auto simp: map_sum_Inl split: sum.splits if_splits)
qed simp_all

lemma get_all_err: "naming_db_get_all_by_parent N st p room m = Some (Inl rc) \<Longrightarrow> rc \<noteq> LWFS_OK"
  by (auto simp: naming_db_get_all_by_parent_def split: if_splits option.splits sum.splits dest: db3_err get_inodes_err)

lemma reply_not_err: "reply_entry N st e \<noteq> Some (Inl rc, st')"
  by (auto simp: reply_entry_def)

lemmas naming_err = get_by_err db3_err(2) get_all_err

lemma handler_err:
  "naming_create_dir N t st p n c cap = Some (Inl rc, st') \<Longrightarrow> rc \<noteq> LWFS_OK"
  "naming_remove_dir N st p n cap = Some (Inl rc, st') \<Longrightarrow> rc \<noteq> LWFS_OK"
  "naming_create_file N t st p n b cap = Some (Inl rc, st') \<Longrightarrow> rc \<noteq> LWFS_OK"
  "naming_create_link N st p n cap tp tn tcap = Some (Inl rc, st') \<Longrightarrow> rc \<noteq> LWFS_OK"
  "naming_unlink N st p n cap = Some (Inl rc, st') \<Longrightarrow> rc \<noteq> LWFS_OK"
  "naming_list_dir N st p cap = Some (Inl rc) \<Longrightarrow> rc \<noteq> LWFS_OK"
  "naming_lookup N st p n cap = Some (Inl rc) \<Longrightarrow> rc \<noteq> LWFS_OK"
  "naming_stat N st b cap = Inl rc \<Longrightarrow> rc \<noteq> LWFS_OK"
  "naming_create_namespace N t st n c = Some (Inl rc, st') \<Longrightarrow> rc \<noteq> LWFS_OK"
  "naming_remove_namespace N st n cap = Some (Inl rc, st') \<Longrightarrow> rc \<noteq> LWFS_OK"
  "naming_get_namespace N st n = Some (Inl rc) \<Longrightarrow> rc \<noteq> LWFS_OK"
  unfolding naming_create_dir_def naming_remove_dir_def naming_create_file_def naming_create_link_def naming_unlink_def
    naming_list_dir_def naming_lookup_def naming_stat_def naming_create_namespace_def naming_remove_namespace_def naming_get_namespace_def
    naming_db_get_size_def
  by (auto simp: Let_def reply_not_err split: if_splits option.splits sum.splits prod.splits dest: naming_err)

subsection \<open>A remote request is a request\<close>

text \<open>A client with the encodings of the service, and a server with its operations.\<close>

definition naming_registered :: "(naming_args rpc_args, naming_res rpc_res) rpc_client \<Rightarrow> bool" where
  "naming_registered cl \<longleftrightarrow> registers cl naming_encodings"

definition naming_serving :: "('d, 'i) naming_env \<Rightarrow> u32 \<Rightarrow> ('d, 'i) naming_service_state \<Rightarrow> bool" where
  "naming_serving N t sv \<longleftrightarrow> supported_ops sv = Some (take 3 svc_op_array @ take 12 (naming_op_array N t)) \<and> num_supported_ops sv = 15"

lemma naming_service_serving:
  "naming_service N t my_id st = Some (svc, sv) \<Longrightarrow> naming_serving N t sv \<and> server_state sv = st \<and> rma_len (req_addr svc) = 512"
  by (auto simp: naming_service_def lwfs_service_init_def lwfs_service_add_ops_def naming_serving_def Let_def svc_op_array_def
      naming_op_array_def LWFS_SHORT_REQUEST_SIZE_def)

text \<open>An operation of the server, whatever it does.\<close>

lemma naming_op_exchange:
  assumes net: "clnt_ok C" "srvr_ok P" "wait_ok W"
    and cl: "naming_registered cl" "(opcode, Some X, Some Y) \<in> set naming_encodings"
      "unat (global_count cl + 1) < 2 ^ 32" "144 \<le> sint (ucast (rma_len (req_addr svc)) :: u32)"
    and sv: "rpc_serves sv opcode (as_proc get mk f) X n Y" and XY: "xdr_proc X" "xdr_proc Y" and a: "fits X a n" "get a = Some x"
    and f: "f x (server_state sv) = Some (v, st')" "\<And>rc. v = Inl rc \<Longrightarrow> rc \<noteq> LWFS_OK"
    and v: "naming_result resp = map_sum id mk v" "\<And>r. naming_result resp = Inr r \<Longrightarrow> wire_result r"
    and Y: "\<And>y. result_proc (mk y) = Y" and old: "old \<noteq> None"
  shows "\<exists>cl' sv'. rpc_exchange C P W garbage svc opcode (Some a) old cl sv =
      Some (LWFS_OK, Some (rc_code (fst (naming_client_answer old resp))), snd (naming_client_answer old resp), cl', sv') \<and>
    rpc_globals sv' = rpc_globals sv \<and> server_state sv' = st'"
proof -
  let ?g = "rpc_globals sv"
  have step: "as_proc get mk f (clnt_id C) a zero_rma (?g, server_state sv) = Some (res_answer mk ?g (v, st'))"
    using a(2) f(1) by (simp add: as_proc_def)
  note op = op_exchange [OF net cl(1) [unfolded naming_registered_def] cl(2,3,4) sv XY a(1)]
  show ?thesis
  proof (cases v)
    case (Inl rc)
    with step have "as_proc get mk f (clnt_id C) a zero_rma (?g, server_state sv) = Some (rc, No_Res, ?g, st')" by simp
    from op [OF this, of 1 old garbage] f(2) [OF Inl] old v(1) Inl show ?thesis by (simp add: naming_client_answer_def)
  next
    case (Inr y)
    with step have run: "as_proc get mk f (clnt_id C) a zero_rma (?g, server_state sv) = Some (LWFS_OK, App_Res (mk y), ?g, st')" by simp
    have "wire_result (mk y)" using v Inr by simp
    then have fits: "fits Y (App_Res (mk y)) 1" using wire_result_fits [of "mk y"] Y by simp
    have "Y \<noteq> xdr_void_result" by (rule result_not_void [OF fits])
    with op [OF run, of 1 old garbage] fits old v(1) Inr show ?thesis by (simp add: naming_client_answer_def)
  qed
qed

lemma naming_serves:
  assumes "naming_serving N t sv"
  shows "rpc_serves sv 201 (create_dir_proc N t) xdr_lwfs_create_dir_args 40 xdr_entry_result"
    "rpc_serves sv 202 (remove_dir_proc N) xdr_lwfs_remove_dir_args 32 xdr_entry_result"
    "rpc_serves sv 203 (create_file_proc N t) xdr_lwfs_create_file_args 40 xdr_entry_result"
    "rpc_serves sv 204 (create_link_proc N) xdr_lwfs_create_link_args 56 xdr_entry_result"
    "rpc_serves sv 205 (unlink_proc N) xdr_lwfs_unlink_args 32 xdr_entry_result"
    "rpc_serves sv 208 (list_dir_proc N) xdr_lwfs_list_dir_args 16 xdr_entries_result"
    "rpc_serves sv 207 (lookup_proc N) xdr_lwfs_lookup_args 40 xdr_entry_result"
    "rpc_serves sv 209 (name_stat_proc N) xdr_lwfs_name_stat_args 24 xdr_stat_result"
    "rpc_serves sv 210 (create_namespace_proc N t) xdr_lwfs_create_namespace_args 24 xdr_namespace_result"
    "rpc_serves sv 211 (remove_namespace_proc N) xdr_lwfs_remove_namespace_args 24 xdr_namespace_result"
    "rpc_serves sv 212 (get_namespace_proc N) xdr_lwfs_get_namespace_args 8 xdr_namespace_result"
  using assms by (simp_all add: rpc_serves_def naming_serving_def svc_op_array_def naming_op_array_def)

lemma naming_encodings_set:
  "(201, Some xdr_lwfs_create_dir_args, Some xdr_entry_result) \<in> set naming_encodings"
  "(202, Some xdr_lwfs_remove_dir_args, Some xdr_entry_result) \<in> set naming_encodings"
  "(203, Some xdr_lwfs_create_file_args, Some xdr_entry_result) \<in> set naming_encodings"
  "(204, Some xdr_lwfs_create_link_args, Some xdr_entry_result) \<in> set naming_encodings"
  "(205, Some xdr_lwfs_unlink_args, Some xdr_entry_result) \<in> set naming_encodings"
  "(208, Some xdr_lwfs_list_dir_args, Some xdr_entries_result) \<in> set naming_encodings"
  "(207, Some xdr_lwfs_lookup_args, Some xdr_entry_result) \<in> set naming_encodings"
  "(209, Some xdr_lwfs_name_stat_args, Some xdr_stat_result) \<in> set naming_encodings"
  "(210, Some xdr_lwfs_create_namespace_args, Some xdr_namespace_result) \<in> set naming_encodings"
  "(211, Some xdr_lwfs_remove_namespace_args, Some xdr_namespace_result) \<in> set naming_encodings"
  "(212, Some xdr_lwfs_get_namespace_args, Some xdr_namespace_result) \<in> set naming_encodings"
  by (simp_all add: naming_encodings_def)

lemma naming_exchange:
  assumes net: "clnt_ok C" "srvr_ok P" "wait_ok W"
    and cl: "naming_registered cl" "unat (global_count cl + 1) < 2 ^ 32" "144 \<le> sint (ucast (rma_len (req_addr svc)) :: u32)"
    and sv: "naming_serving N t sv" and req: "wire_request txn t req"
    and run: "naming_dispatch N (server_state sv) req = Some (resp, st')"
    and resp: "\<And>r. naming_result resp = Inr r \<Longrightarrow> wire_result r" and old: "old \<noteq> None"
  shows "\<exists>cl' sv'. rpc_exchange C P W garbage svc (naming_opcode req) (Some (naming_wire_args txn l req)) old cl sv =
      Some (LWFS_OK, Some (rc_code (fst (naming_client_answer old resp))), snd (naming_client_answer old resp), cl', sv') \<and>
    rpc_globals sv' = rpc_globals sv \<and> server_state sv' = st'"
proof -
  note op = naming_op_exchange [OF net cl(1) _ cl(2,3) _ _ _ _ _ _ _ _ _ _ old]
  note serves = naming_serves [OF sv] and enc = naming_encodings_set and procs = naming_arg_procs naming_res_procs
  let ?s = "server_state sv"
  show ?thesis
  proof (cases req)
    case (Create_Dir t' p n c cap)
    with run req obtain v where v: "naming_create_dir N t ?s p n c cap = Some (v, st')" "resp = Entry_Response v" by auto
    show ?thesis unfolding Create_Dir naming_opcode.simps naming_wire_args.simps
      by (rule op [OF enc(1) serves(1) [unfolded create_dir_proc_def] procs(1) procs(12) dir_args_fit(1)])
        (use v req Create_Dir resp in \<open>auto dest: handler_err(1)\<close>)
  next
    case (Remove_Dir p n cap)
    with run req obtain v where v: "naming_remove_dir N ?s p n cap = Some (v, st')" "resp = Entry_Response v" by auto
    show ?thesis unfolding Remove_Dir naming_opcode.simps naming_wire_args.simps
      by (rule op [OF enc(2) serves(2) [unfolded remove_dir_proc_def] procs(2) procs(12) dir_args_fit(2)])
        (use v req Remove_Dir resp in \<open>auto dest: handler_err(2)\<close>)
  next
    case (Create_File t' p n b cap)
    with run req obtain v where v: "naming_create_file N t ?s p n b cap = Some (v, st')" "resp = Entry_Response v" by auto
    show ?thesis unfolding Create_File naming_opcode.simps naming_wire_args.simps
      by (rule op [OF enc(3) serves(3) [unfolded create_file_proc_def] procs(3) procs(12) dir_args_fit(3)])
        (use v req Create_File resp in \<open>auto dest: handler_err(3)\<close>)
  next
    case (Create_Link p n cap tp tn tcap)
    with run req obtain v where v: "naming_create_link N ?s p n cap tp tn tcap = Some (v, st')" "resp = Entry_Response v" by auto
    show ?thesis unfolding Create_Link naming_opcode.simps naming_wire_args.simps
      by (rule op [OF enc(4) serves(4) [unfolded create_link_proc_def] procs(4) procs(12) create_link_args_fit])
        (use v req Create_Link resp in \<open>auto dest: handler_err(4)\<close>)
  next
    case (Unlink p n cap)
    with run req obtain v where v: "naming_unlink N ?s p n cap = Some (v, st')" "resp = Entry_Response v" by auto
    show ?thesis unfolding Unlink naming_opcode.simps naming_wire_args.simps
      by (rule op [OF enc(5) serves(5) [unfolded unlink_proc_def] procs(5) procs(12) dir_args_fit(4)])
        (use v req Unlink resp in \<open>auto dest: handler_err(5)\<close>)
  next
    case (List_Dir p cap)
    with run req obtain v where v: "naming_list_dir N ?s p cap = Some v" "st' = ?s" "resp = Entries_Response v" by auto
    show ?thesis unfolding List_Dir naming_opcode.simps naming_wire_args.simps
      by (rule op [OF enc(6) serves(6) [unfolded list_dir_proc_def] procs(6) procs(13) dir_args_fit(6) [where n = "[]"]])
        (use v req List_Dir resp in \<open>auto simp: wire_name_def dest: handler_err(6)\<close>)
  next
    case (Lookup p n cap)
    with run req obtain v where v: "naming_lookup N ?s p n cap = Some v" "st' = ?s" "resp = Entry_Response v" by auto
    show ?thesis unfolding Lookup naming_opcode.simps naming_wire_args.simps
      by (rule op [OF enc(7) serves(7) [unfolded lookup_proc_def] procs(7) procs(12) dir_args_fit(5)])
        (use v req Lookup resp in \<open>auto dest: handler_err(7)\<close>)
  next
    case (Name_Stat b cap)
    with run req obtain v where v: "naming_stat N ?s b cap = v" "st' = ?s" "resp = Stat_Response v" by auto
    show ?thesis unfolding Name_Stat naming_opcode.simps naming_wire_args.simps
      by (rule op [OF enc(8) serves(8) [unfolded name_stat_proc_def] procs(8) procs(14) stat_args_fit])
        (use v req Name_Stat resp in \<open>auto dest: handler_err(8)\<close>)
  next
    case (Create_Namespace t' n c)
    with run req obtain v where v: "naming_create_namespace N t ?s n c = Some (v, st')" "resp = Namespace_Response v" by auto
    show ?thesis unfolding Create_Namespace naming_opcode.simps naming_wire_args.simps
      by (rule op [OF enc(9) serves(9) [unfolded create_namespace_proc_def] procs(9) procs(15) namespace_args_fit(1)])
        (use v req Create_Namespace resp in \<open>auto dest: handler_err(9)\<close>)
  next
    case (Remove_Namespace n cap)
    with run req obtain v where v: "naming_remove_namespace N ?s n cap = Some (v, st')" "resp = Namespace_Response v" by auto
    show ?thesis unfolding Remove_Namespace naming_opcode.simps naming_wire_args.simps
      by (rule op [OF enc(10) serves(10) [unfolded remove_namespace_proc_def] procs(10) procs(15) namespace_args_fit(2)])
        (use v req Remove_Namespace resp in \<open>auto dest: handler_err(10)\<close>)
  next
    case (Get_Namespace n)
    with run req obtain v where v: "naming_get_namespace N ?s n = Some v" "st' = ?s" "resp = Namespace_Response v" by auto
    show ?thesis unfolding Get_Namespace naming_opcode.simps naming_wire_args.simps
      by (rule op [OF enc(11) serves(11) [unfolded get_namespace_proc_def] procs(11) procs(15) namespace_args_fit(3)])
        (use v req Get_Namespace resp in \<open>auto dest: handler_err(11)\<close>)
  next
    case List_Namespaces
    with req show ?thesis by simp
  qed
qed

end
