(* ===== verification/Naming_Rpc_Properties.thy ===== *)
theory Naming_Rpc_Properties imports Naming_Exchange Naming_Properties Rpc_Properties begin

section \<open>Properties of the naming service\<close>

text \<open>
  Remote requests to the naming server, on the server of \<open>Naming_List\<close> and the network of \<open>Rpc_Properties\<close>: that they are
  the requests \<open>naming_dispatch\<close> answers, so that what is proved of the handlers holds of remote calls, and two requests of
  an ordinary client that bring the server to an undefined step.
\<close>

subsection \<open>A client and the service of the runs\<close>

definition demo_naming_client :: "(naming_args rpc_args, naming_res rpc_res) rpc_client" where
  "demo_naming_client = \<lparr>encodings = the (register_all True good_mem (service_encodings @ naming_encodings) empty_registry),
     global_count = 0, data_count = 0, result_count = 0, args_counter = 1, args_mds = [], data_mds = [], result_mds = [],
     requests = [], init_flag = False\<rparr>"

lemma demo_naming_registered: "naming_registered demo_naming_client"
proof -
  let ?all = "service_encodings @ naming_encodings :: (lwfs_opcode \<times> naming_args rpc_args xdr option \<times> naming_res rpc_res xdr option) list"
  have mem: "enough good_mem" by (simp add: enough_def good_mem_def)
  have keys: "map fst ?all = [1, 2, 3, 201, 202, 203, 204, 205, 207, 208, 209, 210, 211, 212, 213]" "length ?all = 15"
    by (simp_all add: service_encodings_def naming_encodings_def)
  have "distinct (map fst ?all)" unfolding keys by simp
  with register_all_ok [OF empty_registry_ok(1) mem, of ?all] keys(2)
  obtain reg where reg: "register_all True good_mem ?all empty_registry = Some reg" "registry_ok reg"
    "registered reg = (\<lambda>k. case map_of ?all k of None \<Rightarrow> registered (empty_registry :: (naming_args rpc_args, naming_res rpc_res) xdr_registry) k
       | Some (a, r) \<Rightarrow> [\<lparr>args_encoding = a, data_encoding = None, result_encoding = r\<rparr>])" by (auto simp: empty_registry_ok)
  then show ?thesis
    by (simp add: naming_registered_def registers_def demo_naming_client_def naming_encodings_def service_encodings_def)
qed

definition demo_naming_service :: "lwfs_service \<times> (mem_db1, lwfs_oid \<rightharpoonup> naming_db_inode) naming_service_state" where
  "demo_naming_service = the (naming_service demo_names 3 \<lparr>nid = 2, pid = 21\<rparr> demo_booted)"

lemma demo_naming_service: "naming_serving demo_names 3 (snd demo_naming_service)" "server_state (snd demo_naming_service) = demo_booted"
  "rma_len (req_addr (fst demo_naming_service)) = 512"
proof -
  have "naming_service demo_names 3 \<lparr>nid = 2, pid = 21\<rparr> demo_booted \<noteq> None"
    by (simp add: naming_service_def lwfs_service_init_def lwfs_service_add_ops_def Let_def svc_op_array_def naming_op_array_def)
  then have "naming_service demo_names 3 \<lparr>nid = 2, pid = 21\<rparr> demo_booted = Some (fst demo_naming_service, snd demo_naming_service)"
    by (auto simp: demo_naming_service_def)
  from naming_service_serving [OF this] show "naming_serving demo_names 3 (snd demo_naming_service)"
    "server_state (snd demo_naming_service) = demo_booted" "rma_len (req_addr (fst demo_naming_service)) = 512" by simp_all
qed

subsection \<open>Remote requests\<close>

text \<open>C39: Every request to the naming server but the listing of namespaces may be remote: over a network without failures the
  exchange answers what \<open>naming_dispatch\<close> answers, and the state of the server becomes the one it gives. The request and its
  answer are ones that C can hold (\<open>wire_request\<close>, \<open>wire_result\<close>): names of at most 64 characters without NUL, link counts of 32
  bits, listings below \<open>2 ^ 20\<close> entries; the name of a new namespace has more than four characters or there is a
  transaction, and the name of a looked-up one is not empty, for else the arguments are shorter than their structure.\<close>

theorem naming_request_over_rpc:
  assumes "clnt_ok C" "srvr_ok P" "wait_ok W" "naming_registered cl" "unat (global_count cl + 1) < 2 ^ 32"
    "144 \<le> sint (ucast (rma_len (req_addr svc)) :: u32)" "naming_serving N t sv" "wire_request txn t req"
    "naming_dispatch N (server_state sv) req = Some (resp, st')"
    "case naming_result resp of Inl rc \<Rightarrow> True | Inr r \<Rightarrow> wire_result r" "old \<noteq> None"
  shows "\<exists>cl' sv'. rpc_exchange C P W garbage svc (naming_opcode req) (Some (naming_wire_args txn l req)) old cl sv =
      Some (LWFS_OK, Some (rc_code (fst (naming_client_answer old resp))), snd (naming_client_answer old resp), cl', sv') \<and>
    rpc_globals sv' = rpc_globals sv \<and> server_state sv' = st'"
  by (rule naming_exchange [OF assms(1-9) _ assms(11)]) (use assms(10) in simp)

theorem naming_request_over_rpc_witness:
  "\<exists>ns cl' sv'. rpc_exchange demo_clnt demo_ptl demo_wait [1, 2] (fst demo_naming_service) 203
      (Some (App_Args (Create_File_Args None (Some demo_root) (Some ''f'') (Some demo_obj) (Some demo_all_cap)))) (Some No_Res)
      demo_naming_client (snd demo_naming_service) =
    Some (LWFS_OK, Some 0, Some (App_Res (Entry_Result ns)), cl', sv') \<and> server_state sv' = demo_filed"
proof -
  obtain ns where ns: "naming_create_file demo_names 3 demo_booted demo_root ''f'' demo_obj demo_all_cap = Some (Inr ns, demo_filed)"
    using demo_file by blast
  then have run: "naming_dispatch demo_names (server_state (snd demo_naming_service)) (Create_File 3 demo_root ''f'' demo_obj demo_all_cap) =
      Some (Entry_Response (Inr ns), demo_filed)" by (simp add: demo_naming_service)
  have "case naming_create_file demo_names 3 demo_booted demo_root ''f'' demo_obj demo_all_cap of
      Some (Inr ns, st) \<Rightarrow> wire_entry ns | _ \<Rightarrow> False" by code_simp
  with ns have wire: "wire_entry ns" by simp
  have req: "wire_request None 3 (Create_File 3 demo_root ''f'' demo_obj demo_all_cap)" by code_simp
  have cl: "unat (global_count demo_naming_client + 1) < 2 ^ 32"
    "144 \<le> sint (ucast (rma_len (req_addr (fst demo_naming_service))) :: u32)"
    by (simp_all add: demo_naming_client_def demo_naming_service)
  from naming_request_over_rpc [OF demo_net demo_naming_registered cl demo_naming_service(1) req run, of "Some No_Res" "[1, 2]" 0] wire
  show ?thesis by (auto simp: naming_client_answer_def)
qed

subsection \<open>Requests that stop the server\<close>

lemma naming_ops:
  assumes "naming_serving N t sv"
  shows "supported_ops sv = Some (take 3 svc_op_array @ take 12 (naming_op_array N t))"
    "num_supported_ops sv = length (take 3 svc_op_array @ take 12 (naming_op_array N t))"
  using assms by (simp_all add: naming_serving_def svc_op_array_def naming_op_array_def)

lemma namespace_args_short:
  assumes "wire_name n" "length n \<le> 4"
  shows "xdr_sizeof xdr_lwfs_create_namespace_args (App_Args (Create_Namespace_Args None (Some n) c)) < 24"
proof -
  have "encodes (xdr_pointer xdr_lwfs_txn) None 4" using encodes_pointer [of None xdr_lwfs_txn 0] by simp
  then have "encodes xdr_lwfs_create_namespace_args (App_Args (Create_Namespace_Args None (Some n) c))
      (4 + ((4 + length n + xdr_pad (length n)) + 8))"
    unfolding xdr_lwfs_create_namespace_args_def
    by (intro encodes_case [of _ _ "(None, Some n, c)"] encodes_pair encodes_name_pointer encodes_words assms) simp_all
  moreover have "length n + xdr_pad (length n) \<le> 4"
  proof -
    have "length n = 0 \<or> length n = 1 \<or> length n = 2 \<or> length n = 3 \<or> length n = 4" using assms(2) by linarith
    then show ?thesis by (elim disjE) (simp_all add: xdr_pad_def)
  qed
  ultimately show ?thesis by (auto simp: encodes_def xdr_sizeof_def)
qed

text \<open>C40: An ordinary client brings the naming server to an undefined step by a listing of the namespaces, whose arguments have no
  procedure to decode them (a null pointer is called), and by the creation of a namespace with a name of at most four characters
  and no transaction: the arguments are encoded in fewer bytes than their structure has, which is written behind the buffer.\<close>

theorem namespace_requests_stop_server:
  assumes "naming_serving N t sv" "allowed = 0" "xdr_decode xdr_lwfs_request_header (thr_req_buf d) = Some (hdr, rest)"
    "rq_opcode hdr = naming_opcode List_Namespaces \<or>
     rq_opcode hdr = naming_opcode (Create_Namespace t n c) \<and> wire_name n \<and> length n \<le> 4 \<and>
       unat (rma_len (rq_args_addr hdr)) =
         xdr_sizeof xdr_lwfs_create_namespace_args (naming_wire_args None l (Create_Namespace t n c))"
  shows "process_request P allowed used d sv = None"
proof -
  let ?ops = "take 3 svc_op_array @ take 12 (naming_op_array N t)"
  have find: "find_op (supported_ops sv) 0 (num_supported_ops sv) (rq_opcode hdr) = Some (find (\<lambda>opn. op_opcode opn = rq_opcode hdr) ?ops)"
    using find_op_find [of ?ops 0 "length ?ops" "rq_opcode hdr"] by (simp only: naming_ops [OF assms(1)]) simp
  have "\<exists>opn. find (\<lambda>opn. op_opcode opn = rq_opcode hdr) ?ops = Some opn \<and>
      (op_decode_args opn = None \<or> unat (rma_len (rq_args_addr hdr)) < op_args_size opn)"
    using assms(4) namespace_args_short [of n c] by (auto simp: svc_op_array_def naming_op_array_def)
  then obtain opn where "find (\<lambda>opn. op_opcode opn = rq_opcode hdr) ?ops = Some opn"
    "op_decode_args opn = None \<or> unat (rma_len (rq_args_addr hdr)) < op_args_size opn" by blast
  then show ?thesis
    using assms(2,3) find by (cases "op_decode_args opn") (auto simp: process_request_def run_op_def)
qed

theorem namespace_requests_stop_server_witness:
  "process_request demo_ptl 0 50 (opcode_request 213) (snd demo_naming_service) = None"
  by (rule namespace_requests_stop_server [OF demo_naming_service(1) refl opcode_request_decode]) (simp add: opcode_header_def)

end
