(* ===== verification/Spec2Isabelle.thy ===== *)
theory Spec2Isabelle imports Authr_Properties Naming_Properties Storage_Properties Thread_Pool_Properties Rpc_Properties Ptl_Properties Naming_Rpc_Properties begin

text \<open>
  A model of servers of the Lightweight File System (LWFS), in C under \<^verbatim>\<open>src/src\<close>, and
  the theorems that make them correct. The system is a set of servers that clients reach by RPC.
  The authorization server keeps, per container and operation, the list of users who may perform
  it, and issues and verifies capabilities; the naming server keeps directories, the storage
  server keeps objects with their bytes and attributes, and both ask the authorization server to
  verify the capability of a request.

  \<^bold>\<open>Theories.\<close>
  \<^item> \<open>Lwfs_Prelude\<close>: the types and codes of \<^verbatim>\<open>common/types/xdr_types.x\<close> at their width, byte
    images; \<open>C_Library\<close>: \<^verbatim>\<open>snprintf\<close>, \<^verbatim>\<open>strncpy\<close>, \<^verbatim>\<open>qsort\<close>,
    \<^verbatim>\<open>bsearch\<close>, with the contract of a comparison function (\<open>comparator\<close>).
  \<^item> \<open>Berkeley_DB\<close>: the database library as a record of its calls, its documented behaviour
    (\<open>bdb_store\<close>, \<open>bdb_reliable\<close>) and an in-memory instance.
  \<^item> \<open>Authr_Uids\<close>, \<open>Authr_Cap\<close>, \<open>Authr_Db\<close>, \<open>Authr_Server\<close>: the authorization server,
    \<^verbatim>\<open>server/authr_server/{authr_server,authr_db,cap}.c\<close>. The state record \<open>authr_state\<close> is
    the global variables of the two files; a handler is a function from state and arguments
    to its return value and the new state.
  \<^item> \<open>Authr_Security\<close>, \<open>Authr_Matrix\<close>, \<open>Authr_Run\<close>: what the checks mean for the stored lists,
    the access matrix as an abstract specification that the handlers refine, and reachable states.
  \<^item> \<open>Naming_Db\<close>, \<open>Naming_Server\<close>: \<^verbatim>\<open>server/naming_server/{naming_db,naming_server}.c\<close>;
    \<open>naming_state\<close> holds the database handles (the primary table stands for its two indices too),
    the position of the id generator and the service description.
  \<^item> \<open>Naming_Inv\<close>, \<open>Naming_Run\<close>, \<open>Naming_List\<close>, \<open>Naming_Effects\<close>: the invariant (entries and
    objects refer to each other, link counts are exact), its preservation by every request,
    listings and the start, and the effect of each request on the two tables.
  \<^item> \<open>Hashtable\<close>, \<open>Hashtable_Map\<close>: \<^verbatim>\<open>support/hashtable/{hashtable,mt_hashtable}.c\<close> with its
    buckets, and the multimap that its operations implement (locale \<open>keyed_table\<close>); \<open>Tclist\<close>:
    \<^verbatim>\<open>support/list/list.c\<close> as lists.
  \<^item> \<open>Posix_Files\<close>: the system calls on files, their documented behaviour (locale \<open>posix_files\<close>), and
    files in memory; \<open>Storage_Db\<close>: \<^verbatim>\<open>server/storage_server/storage_db.c\<close>, with the locale
    \<open>attr_store\<close> for its database.
  \<^item> \<open>Sysio_Obj\<close>, \<open>Storage_Server\<close>: \<^verbatim>\<open>server/storage_server/{sysio_obj,storage_server}.c\<close>; the
    state \<open>sysio_state\<close> has the table of objects, the list of open files and a store of the elements
    that both point to.
  \<^item> \<open>Oid_Names\<close>, \<open>Sysio_Inv\<close>, \<open>Sysio_Ops\<close>, \<open>Sysio_Start\<close>, \<open>Storage_Spec\<close>: names of files, the
    invariant and the effect of each operation on the map of objects, the start over existing files,
    and the abstract store that the server refines (\<open>store_step\<close>), all under the locale
    \<open>sysio_server\<close> and interpreted on files and a database in memory.
  \<^item> \<open>Io_Queue\<close>, \<open>Queue_Fifo\<close>: \<^verbatim>\<open>server/storage_server/{queue,buffer_stack}.c\<close>, and the contract of a queue
    (locale \<open>fifo\<close>).
  \<^item> \<open>Requests_Queue\<close>, \<open>Thread_Pool\<close>, \<open>Thread_Pool_Inv\<close>, \<open>Thread_Pool_Properties\<close>: the lists and the threads of
    \<^verbatim>\<open>support/threadpool\<close> as a step relation (\<open>pool_step\<close>) with its invariants.
  \<^item> \<open>Xdr\<close>, \<open>Lwfs_Types\<close>, \<open>Xdr_Types\<close>: the procedures of XDR, with their contract (locale \<open>xdr_proc\<close>: what is
    encoded is decoded, whatever follows it), the structures that processes exchange, and
    \<^verbatim>\<open>common/types/xdr_types.c\<close>; \<open>Rpc_Xdr\<close>: \<^verbatim>\<open>common/rpc_common/rpc_xdr.c\<close>, the registry of
    procedures in a hash table.
  \<^item> \<open>Lwfs_Ptls\<close>, \<open>Rpc_Common\<close>, \<open>Ptl_Properties\<close>: \<^verbatim>\<open>common/rpc_common/{lwfs_ptls,rpc_common}.c\<close>,
    polling, put and get over the events that Portals brings, and the start and end of the library.
  \<^item> \<open>Rpc_Server\<close>, \<open>Rpc_Service\<close>: \<^verbatim>\<open>server/rpc_server/rpc_server.c\<close>, a request from its bytes to the
    answer, and the loop that takes requests, which processes them itself or gives them to the thread pool;
    \<open>Rpc_Client\<close>: \<^verbatim>\<open>client/rpc_client/rpc_client.c\<close>; \<open>Rpc_Exchange\<close>: one call from the client through the
    server and back.
  \<^item> \<open>Rpc_Sizes\<close>: the lengths of encodings, and the exchange of an operation that was registered with a group.
  \<^item> \<open>Authr_Rpc\<close>, \<open>Authr_Exchange\<close>, \<open>Authr_Client\<close>: the authorization server as a service,
    \<^verbatim>\<open>common/authr_common/{authr_args,authr_xdr}.c\<close>, and its client \<^verbatim>\<open>client/authr_client\<close> with the cache of
    verified capabilities; \<open>Rpc_Properties\<close>: that remote requests are the handlers of the server, what
    requests can do to a server, the cache, waiting, the loop.
  \<^item> \<open>Naming_Rpc\<close>, \<open>Naming_Exchange\<close>, \<open>Naming_Rpc_Properties\<close>: the naming server as a service,
    \<^verbatim>\<open>common/naming_common/{naming_args,naming_xdr}.c\<close> and its table of operations, and that remote requests are its handlers.
  \<^item> \<open>Authr_Properties\<close>, \<open>Naming_Properties\<close>, \<open>Storage_Properties\<close> and this theory: the properties, each
    with a witness on concrete servers; here those that span servers.

  \<^bold>\<open>Conventions.\<close> Return codes are values; a handler's result is a sum of a code and
  its output. \<open>None\<close> is a call with no defined return: \<^verbatim>\<open>abort\<close>, a null or
  uninitialised pointer, an access out of bounds, or a loop that does not end. Libraries
  (Berkeley DB, OpenSSL, the file system, Portals, memory allocation, the id generator, the clock) are
  arguments, and what the properties need of them are named hypotheses. The only loop
  without a bound is the search for a fresh container id, and its termination is a property.
  The ids of the generator are distinct up to a bound \<open>M\<close>, a parameter of the properties.
  The storage server's promises hold while the list of open files is not full (1014) and the count
  of objects fits in 32 bits (\<open>storage_room\<close>); what a full list or a failed call does is in the model.

  \<^bold>\<open>Restrictions.\<close> Counters of requests and link counts are unbounded integers, where the code has \<^verbatim>\<open>int\<close>
  and \<^verbatim>\<open>long\<close>: the model is faithful below \<open>2 ^ 31\<close> of them. The properties that need an order on users (exact
  verification, modification of lists, revocation) are for a build with a 32-bit \<^verbatim>\<open>long\<close> (\<open>authr_ilp32\<close>) and for ids on which the comparison does not overflow. What is said of all reachable states of the
  naming server leaves out requests that name one of the three entries it starts with (\<open>naming_request_ok\<close>), on which
  its counts go wrong. The refinement of the storage server is for requests that fit (\<open>request_fits\<close>).

  Portals is, for the RPC library, the results of its calls and the events that arrive; memory that a process exposes
  to others is recorded in its state. Structures that are passed between processes have the sizes of a 64-bit
  machine; the comparison of user ids is modelled for both widths of a long. A wait without a further event is \<open>None\<close>.

  \<^bold>\<open>Not modelled.\<close> Tracing and logging, command lines, third-party code (OSSP uuid, ezxml), the client
  libraries of the naming and storage servers, the marshalling of the storage requests, the driver for libsysio, the
  locks and journals of transactions (stubs), the metadata server, an older prototype, and the object libraries of the
  storage server other than files; Portals itself and its wrappers.
\<close>

section \<open>The servers together\<close>

lemma write_op: "LWFS_CONTAINER_WRITE \<in> set container_ops" "LWFS_CONTAINER_WRITE \<noteq> LWFS_CONTAINER_CREATE"
  "LWFS_CONTAINER_WRITE \<noteq> 0" by code_simp+

text \<open>A naming server that verifies with the authorization server: what a change of its tables
  says about the access lists.\<close>

lemma naming_change_granted:
  assumes store: "authr_store E C" and ver: "verify_rpc N = authr_verify E ast"
    and run: "naming_dispatch N st req = Some (resp, st')" "dbp1 st' \<noteq> dbp1 st \<or> dbp_inode st' \<noteq> dbp_inode st"
    and ns: "\<forall>t name c. req \<noteq> Create_Namespace t name c"
  obtains cap oid e where "request_cap req = Some cap" "authr_verify E ast [cap] = LWFS_OK"
    "authr_grants E C ast cap" "container_op (cap_data cap) AND LWFS_CONTAINER_WRITE \<noteq> 0"
    "request_dir N st req = Some oid" "naming_db_get_by_oid N st oid = Inr e"
    "obj_cid (entry_obj (inode e)) = LWFS_CID_ANY \<or> obj_cid (entry_obj (inode e)) = cid (cap_data cap)"
proof -
  obtain oid cap where cap: "request_dir N st req = Some oid" "request_cap req = Some cap"
    "naming_check_perm N st oid cap LWFS_CONTAINER_WRITE = LWFS_OK"
    using change_checked [OF run] ns by blast
  from check_perm_entry [OF cap(3)] obtain e where e: "naming_db_get_by_oid N st oid = Inr e"
    "authr_verify E ast [cap] = LWFS_OK" "LWFS_CONTAINER_WRITE AND container_op (cap_data cap) = LWFS_CONTAINER_WRITE"
    "obj_cid (entry_obj (inode e)) = LWFS_CID_ANY \<or> obj_cid (entry_obj (inode e)) = cid (cap_data cap)"
    unfolding ver by blast
  have "authr_grants E C ast cap"
    by (rule authr_store.verified_granted [OF store e(2)])
  moreover have "container_op (cap_data cap) AND LWFS_CONTAINER_WRITE \<noteq> 0"
    using e(3) write_op(3) by (simp add: and.commute)
  ultimately show thesis using that cap(1,2) e by blast
qed

text \<open>C2: When the naming server verifies capabilities with the authorization server, a request that
  changes its tables carries a capability with the authorization server's MAC whose user is in
  the current access list for writing to the capability's container. The one exception is the creation of
  a namespace, which the code checks nothing for: it keeps every entry and every object and adds at most its
  own name.\<close>

theorem naming_changes_need_acl:
  assumes "authr_store E C" "naming_store N C1 Ci" "verify_rpc N = authr_verify E ast" "acl_db_enabled ast"
    "naming_dispatch N st req = Some (resp, st')" "dbp1 st' \<noteq> dbp1 st \<or> dbp_inode st' \<noteq> dbp_inode st"
  shows "(\<exists>cap db us. request_cap req = Some cap \<and> cap_authentic E ast cap \<and> acl_db ast = Some db \<and>
      acl_table C db (cid (cap_data cap)) LWFS_CONTAINER_WRITE = Some us \<and> cap_uid cap \<in> set us) \<or>
    (\<exists>t name c. req = Create_Namespace t name c \<and> C1 (dbp1 st) \<subseteq>\<^sub>m C1 (dbp1 st') \<and>
      dom (C1 (dbp1 st')) \<subseteq> insert (db1_keygen ROOT_OID name) (dom (C1 (dbp1 st))) \<and>
      Ci (dbp_inode st) \<subseteq>\<^sub>m Ci (dbp_inode st'))"
proof (cases "\<exists>t name c. req = Create_Namespace t name c")
  case True
  then obtain t name c where req: "req = Create_Namespace t name c" by blast
  with assms(5) obtain r where run: "naming_create_namespace N t st name c = Some (r, st')"
    by (cases "naming_create_namespace N t st name c") auto
  show ?thesis using naming_store.create_namespace_adds [OF assms(2) run] req by blast
next
  case False
  then obtain cap where cap: "request_cap req = Some cap" "authr_grants E C ast cap"
    "container_op (cap_data cap) AND LWFS_CONTAINER_WRITE \<noteq> 0"
    using naming_change_granted [OF assms(1,3,5,6)] by metis
  then show ?thesis
    using assms(4) write_op by (auto simp: authr_grants_def st_permits_def acl_permits_def)
qed

text \<open>The owner of container 7 gives itself the right to write, and gets a capability for it.\<close>

definition demo_writable :: "(string \<rightharpoonup> u8 list) authr_state" where
  "demo_writable = snd (the (mod_acl demo_env demo_created 7 LWFS_CONTAINER_WRITE (Some [5]) None demo_owner_cap))"

definition demo_write_cap :: lwfs_cap where
  "demo_write_cap = snd (generate_cap (hmac_sha1 demo_env) [1, 2, 3]
     \<lparr>cid = 7, container_op = LWFS_CONTAINER_WRITE, cred = demo_cred\<rparr>)"

definition demo_joint :: "(mem_db1, lwfs_oid \<rightharpoonup> naming_db_inode) naming_env" where
  "demo_joint = mem_naming (authr_verify demo_env demo_writable)"

lemma demo_write_cap: "cid (cap_data demo_write_cap) = 7" "cap_uid demo_write_cap = 5"
  by (simp_all add: demo_write_cap_def generate_cap_eq demo_cred_def)

lemma demo_make_writable:
  "mod_acl demo_env demo_created 7 LWFS_CONTAINER_WRITE (Some [5]) None demo_owner_cap = Some (LWFS_OK, demo_writable)"
  unfolding demo_writable_def by (rule some_pair) code_simp

lemma demo_writable_db: "acl_db demo_writable = Some (the (acl_db demo_writable))" "acl_db_enabled demo_writable"
  "acl_wf (\<lambda>db. db) (the (acl_db demo_writable))"
proof -
  have "acl_db demo_writable \<noteq> None \<and> acl_db_enabled demo_writable" by code_simp
  then show db: "acl_db demo_writable = Some (the (acl_db demo_writable))" "acl_db_enabled demo_writable" by auto
  have "authr_reach demo_env demo_init demo_writable"
    by (rule authr_reach.step [OF demo_reach_created, where req =
          "Mod_Acl 7 LWFS_CONTAINER_WRITE (Some [5]) None demo_owner_cap"])
      (simp_all add: demo_make_writable demo_uids uids_of_def)
  from demo_authr.reach_wf [OF this demo_init_wf] db(1) show "acl_wf (\<lambda>db. db) (the (acl_db demo_writable))"
    by (simp add: authr_wf_def)
qed

theorem naming_changes_need_acl_witness:
  "\<exists>db us. acl_db demo_writable = Some db \<and> acl_table (\<lambda>db. db) db 7 LWFS_CONTAINER_WRITE = Some us \<and> 5 \<in> set us"
proof -
  let ?req = "Create_File 3 demo_root ''f'' demo_obj demo_write_cap"
  have ver: "verify_rpc demo_joint = authr_verify demo_env demo_writable" by (simp add: demo_joint_def mem_naming_def)
  have "(case naming_dispatch demo_joint demo_booted ?req of
      Some (resp, st') \<Rightarrow> dbp1 st' \<noteq> dbp1 demo_booted | None \<Rightarrow> False)" by code_simp
  then obtain resp st' where run: "naming_dispatch demo_joint demo_booted ?req = Some (resp, st')"
    "dbp1 st' \<noteq> dbp1 demo_booted \<or> dbp_inode st' \<noteq> dbp_inode demo_booted"
    by (cases "naming_dispatch demo_joint demo_booted ?req") auto
  have names: "naming_store demo_joint map_of (\<lambda>i. i)"
    unfolding demo_joint_def by (rule mem_naming.naming_store_axioms)
  from naming_changes_need_acl [OF demo_authr.authr_store_axioms names ver demo_writable_db(2) run] demo_write_cap
  show ?thesis by auto
qed

lemma rights_ops: "storage_right req \<in> set container_ops \<and> storage_right req \<noteq> 0 \<and>
    storage_right req \<noteq> LWFS_CONTAINER_CREATE"
proof -
  have "LWFS_CONTAINER_READ \<in> set container_ops \<and> LWFS_CONTAINER_READ \<noteq> 0 \<and> LWFS_CONTAINER_READ \<noteq> LWFS_CONTAINER_CREATE"
    by code_simp
  then show ?thesis using write_op by (cases req; simp)
qed

text \<open>C3: When the storage server verifies capabilities with the authorization server, its store
  changes only for a user in the current access list of the capability's container for the right that
  the request needs: to write, or, to remove attributes, to read.\<close>

theorem storage_changes_need_acl:
  assumes "authr_store E C" "acl_db_enabled ast" "sysio_server S F A" "storage_ok S F A st" "storage_room st"
    "request_fits req" "ss_dispatch (authr_verify E ast) st req = Some (r, st')" "ss_abs F A st' \<noteq> ss_abs F A st"
  shows "\<exists>db us. cap_authentic E ast (storage_cap req) \<and> acl_db ast = Some db \<and>
    acl_table C db (cid (cap_data (storage_cap req))) (storage_right req) = Some us \<and> cap_uid (storage_cap req) \<in> set us"
proof -
  have "store_step (authr_verify E ast) (ss_abs F A st) req r (ss_abs F A st')"
    using sysio_server.storage_step_ok [OF assms(3-7)] by blast
  note cap = step_changes_checked [OF this assms(8)]
  have "authr_grants E C ast (storage_cap req)"
    using cap by (intro authr_store.verified_granted [OF assms(1)]) simp
  moreover have "container_op (cap_data (storage_cap req)) AND storage_right req \<noteq> 0"
    using cap rights_ops [of req] by (simp add: and.commute)
  ultimately show ?thesis
    using assms(2) rights_ops [of req] by (auto simp: authr_grants_def st_permits_def acl_permits_def)
qed

theorem storage_changes_need_acl_witness:
  "\<exists>db us. acl_db demo_writable = Some db \<and> acl_table (\<lambda>db. db) db 7 LWFS_CONTAINER_WRITE = Some us \<and> 5 \<in> set us \<and>
     ss_dispatch (authr_verify demo_env demo_writable) demo_ss (SS_Write demo_ob 1 2 demo_write_cap True (Inr [8, 9])) \<noteq> None"
proof -
  let ?V = "authr_verify demo_env demo_writable" and ?req = "SS_Write demo_ob 1 2 demo_write_cap True (Inr [8, 9])"
  have "ss_verify_cap ?V demo_write_cap None LWFS_CONTAINER_WRITE = LWFS_OK" by code_simp
  then have guard: "spec_guard ?V (ss_abs mem_files map_of demo_ss) demo_ob demo_write_cap LWFS_CONTAINER_WRITE = LWFS_OK"
    using demo_ss_ok(4) by (simp add: spec_guard_def ss_verify_cap_def demo_object)
  have fits: "request_fits ?req" by (simp add: valid_off_def)
  obtain r st' where run: "ss_dispatch ?V demo_ss ?req = Some (r, st')"
    using mem_storage.storage_returns [OF demo_ss_ok(1,2) fits demo_ss_ok(3), of ?V] by auto
  have "write_obj [5, 6, 7] 1 [8, 9] = [5, 8, 9]" by (simp add: write_obj_def overlay_def)
  with mem_storage.storage_step_ok [OF demo_ss_ok(1,2) fits run]
  have "sp_objects (ss_abs mem_files map_of st') 77 = Some [5, 8, 9]"
    by (simp add: spec_case_def guard set_object_def demo_object demo_ss_ok(4) del: abs_fields)
  then have "ss_abs mem_files map_of st' \<noteq> ss_abs mem_files map_of demo_ss"
    using demo_ss_ok(4) by (auto simp del: abs_fields)
  from storage_changes_need_acl [OF demo_authr.authr_store_axioms demo_writable_db(2) demo_storage demo_ss_ok(1,2) fits run this]
  show ?thesis using run demo_write_cap by (simp del: ss_dispatch.simps)
qed

text \<open>C6: On a build with a 32-bit \<^verbatim>\<open>long\<close>: once the authorization server has answered
  \<^verbatim>\<open>LWFS_OK\<close> to a request that unsets a user for writing to a container, no request with a capability
  of that user changes the tables of the naming server, if the capability is for that container, or the directory
  that the request would change is in that container. Not covered are requests with the user's
  capabilities for other containers in directories of other containers, and new namespaces, which need none.
  The hypotheses: a well-formed database with the check of access lists enabled,
  a container id below \<open>2 ^ 31\<close>, and user ids whose four words are from -1 to \<open>2 ^ 31 - 2\<close> each
  (\<open>ordered_uid\<close>: other differences overflow in the comparison), the added ones not all ones.\<close>

theorem revoked_user_changes_nothing:
  assumes "authr_ilp32 E C" "mod_acl E ast c LWFS_CONTAINER_WRITE toset (Some unset) mcap = Some (LWFS_OK, ast')"
    "small_cid c" "acl_db_enabled ast" "acl_db ast = Some db" "acl_wf C db"
    "\<forall>u\<in>uids_of toset. ordered_uid u \<and> u \<noteq> inf_uid" "\<forall>u\<in>set unset. ordered_uid u"
    "verify_rpc N = authr_verify E ast'" "naming_dispatch N st req = Some (resp, st')"
    "request_cap req = Some cap" "cap_uid cap \<in> set unset"
    "cid (cap_data cap) = c \<or> (\<exists>oid e. request_dir N st req = Some oid \<and>
       naming_db_get_by_oid N st oid = Inr e \<and> obj_cid (entry_obj (inode e)) = c)"
  shows "dbp1 st' = dbp1 st \<and> dbp_inode st' = dbp_inode st"
proof (rule ccontr)
  assume "\<not> (dbp1 st' = dbp1 st \<and> dbp_inode st' = dbp_inode st)"
  then have change: "dbp1 st' \<noteq> dbp1 st \<or> dbp_inode st' \<noteq> dbp_inode st" by blast
  have "\<forall>t name c. req \<noteq> Create_Namespace t name c" using assms(11) by auto
  from naming_change_granted [OF authr_ilp32.axioms(1) [OF assms(1)] assms(9,10) change this]
  obtain cap' oid e where cap': "request_cap req = Some cap'" "authr_verify E ast' [cap'] = LWFS_OK"
    "container_op (cap_data cap') AND LWFS_CONTAINER_WRITE \<noteq> 0"
    and dir: "request_dir N st req = Some oid" "naming_db_get_by_oid N st oid = Inr e"
      "obj_cid (entry_obj (inode e)) = LWFS_CID_ANY \<or> obj_cid (entry_obj (inode e)) = cid (cap_data cap')"
    by blast
  have "c \<noteq> LWFS_CID_ANY" using assms(3) by (auto simp: small_cid_def LWFS_CID_ANY_def)
  then have c: "cid (cap_data cap') = c" using assms(11,13) cap'(1) dir by auto
  have w: "LWFS_CONTAINER_WRITE AND LWFS_CONTAINER_WRITE \<noteq> 0" using write_op(3) by simp
  have "verify_cap_list E ast' [cap'] \<noteq> Some LWFS_OK"
    using revoked_not_verified [OF assms(1-8) write_op(1,2) w, of cap' "[cap']"] cap' c assms(11,12) by simp
  with authr_verify_OK [OF cap'(2)] show False by simp
qed

theorem revoked_user_changes_nothing_witness:
  "\<exists>ast'. mod_acl demo_env demo_writable 7 LWFS_CONTAINER_WRITE None (Some [5]) demo_owner_cap = Some (LWFS_OK, ast') \<and>
    (\<forall>resp st'. naming_dispatch (mem_naming (authr_verify demo_env ast')) demo_filed
       (Unlink demo_root ''f'' demo_write_cap) = Some (resp, st') \<longrightarrow> dbp1 st' = dbp1 demo_filed)"
proof -
  have "map_option fst (mod_acl demo_env demo_writable 7 LWFS_CONTAINER_WRITE None (Some [5]) demo_owner_cap) = Some LWFS_OK"
    by code_simp
  from some_pair [OF this] obtain ast' where
    run: "mod_acl demo_env demo_writable 7 LWFS_CONTAINER_WRITE None (Some [5]) demo_owner_cap = Some (LWFS_OK, ast')" by blast
  have c: "small_cid 7" by code_simp
  have "dbp1 st' = dbp1 demo_filed"
    if d: "naming_dispatch (mem_naming (authr_verify demo_env ast')) demo_filed
       (Unlink demo_root ''f'' demo_write_cap) = Some (resp, st')" for resp st'
    using revoked_user_changes_nothing [OF demo_authr.authr_ilp32_axioms run c demo_writable_db(2,1,3)
        _ _ _ d] demo_uids demo_write_cap
    by (simp add: uids_of_def mem_naming_def)
  with run show ?thesis by blast
qed

end
